(* ===== verification/Prelude.thy ===== *)
theory Prelude
  imports Main "HOL-Library.Char_ord" "HOL-Library.List_Lexorder"
begin

text \<open>
  What every component shares: the JavaScript values and strings the TypeScript sources
  compute with, exceptions as sums, and the list lemmas the component proofs use.

  Strings are lists of \<open>char\<close>, one \<open>char\<close> per UTF-16 code unit; the model therefore
  covers code units below 256 (Latin-1). A thrown \<open>Error\<close> is \<open>Inl message\<close>, a
  normal return \<open>Inr value\<close>. A JavaScript number is an integer of unbounded size or
  \<open>NOther s\<close>, any other number (a fraction, NaN, an infinity), where \<open>s\<close> is what
  \<open>String\<close> prints for it; no modelled operation does arithmetic on the latter.
\<close>

named_theorems js_simps \<open>unfolding of the JavaScript string and value operations\<close>
named_theorems component_intros \<open>preservation lemmas of the component invariants\<close>

section \<open>Exceptions\<close>

type_synonym 'a throws = "string + 'a"

definition and_then :: "'e + 'a \<Rightarrow> ('a \<Rightarrow> 'e + 'b) \<Rightarrow> 'e + 'b" where
  "and_then m k = (case m of Inl e \<Rightarrow> Inl e | Inr x \<Rightarrow> k x)"

lemma and_then_simps [simp]:
  "and_then (Inl e) k = Inl e"
  "and_then (Inr x) k = k x"
  by (simp_all add: and_then_def)

lemma and_then_eq_Inr: "and_then m k = Inr y \<longleftrightarrow> (\<exists>x. m = Inr x \<and> k x = Inr y)"
  by (cases m) auto

lemma and_then_eq_Inl:
  "and_then m k = Inl e \<longleftrightarrow> m = Inl e \<or> (\<exists>x. m = Inr x \<and> k x = Inl e)"
  by (cases m) auto

lemma and_then_assoc: "and_then (and_then m f) g = and_then m (\<lambda>x. and_then (f x) g)"
  by (cases m) auto

section \<open>JavaScript strings\<close>

text \<open>The white space of \<open>String.prototype.trim\<close>, for code units below 256.\<close>

definition js_space :: "char \<Rightarrow> bool" where
  "js_space c \<longleftrightarrow> (let n = of_char c :: nat in
     n = 9 \<or> n = 10 \<or> n = 11 \<or> n = 12 \<or> n = 13 \<or> n = 32 \<or> n = 160)"

definition js_trim :: "string \<Rightarrow> string" where
  "js_trim s = rev (dropWhile js_space (rev (dropWhile js_space s)))"

text \<open>\<open>!s.trim()\<close> in the sources.\<close>

definition blank :: "string \<Rightarrow> bool" where
  "blank s \<longleftrightarrow> js_trim s = []"

lemma blank_iff: "blank s \<longleftrightarrow> list_all js_space s"
proof -
  have "dropWhile js_space (rev (dropWhile js_space s)) = [] \<longleftrightarrow>
      (\<forall>c \<in> set (dropWhile js_space s). js_space c)"
    by (simp add: dropWhile_eq_Nil_conv)
  moreover have "(\<forall>c \<in> set (dropWhile js_space s). js_space c) \<longleftrightarrow> (\<forall>c \<in> set s. js_space c)"
  proof (induction s)
    case (Cons c s)
    then show ?case by (cases "js_space c") auto
  qed simp
  ultimately show ?thesis by (simp add: blank_def js_trim_def list_all_iff)
qed

lemma blank_Nil [simp]: "blank []"
  by (simp add: blank_def js_trim_def)

definition js_lower_char :: "char \<Rightarrow> char" where
  "js_lower_char c = (let n = of_char c :: nat in
     if 65 \<le> n \<and> n \<le> 90 \<or> 192 \<le> n \<and> n \<le> 222 \<and> n \<noteq> 215 then char_of (n + 32) else c)"

definition js_lower :: "string \<Rightarrow> string" where
  "js_lower s = map js_lower_char s"

text \<open>\<open>s.split(d)\<close> for a separator of one character.\<close>

fun js_split :: "char \<Rightarrow> string \<Rightarrow> string list" where
  "js_split d [] = [[]]"
| "js_split d (c # cs) =
     (if c = d then [] # js_split d cs
      else (case js_split d cs of [] \<Rightarrow> [[c]] | w # ws \<Rightarrow> (c # w) # ws))"

fun js_join :: "string \<Rightarrow> string list \<Rightarrow> string" where
  "js_join sep [] = []"
| "js_join sep [w] = w"
| "js_join sep (w # v # ws) = w @ sep @ js_join sep (v # ws)"

fun starts_with :: "string \<Rightarrow> string \<Rightarrow> bool" where
  "starts_with s [] = True"
| "starts_with [] (p # ps) = False"
| "starts_with (c # cs) (p # ps) = (c = p \<and> starts_with cs ps)"

fun js_includes :: "string \<Rightarrow> string \<Rightarrow> bool" where
  "js_includes [] sub = (sub = [])"
| "js_includes (c # cs) sub = (starts_with (c # cs) sub \<or> js_includes cs sub)"

lemma starts_with_iff: "starts_with s p \<longleftrightarrow> (\<exists>t. s = p @ t)"
  by (induction s p rule: starts_with.induct) auto

lemma js_includes_iff: "js_includes s sub \<longleftrightarrow> (\<exists>u v. s = u @ sub @ v)"
proof (induction s)
  case Nil
  then show ?case by auto
next
  case (Cons c cs)
  have "(\<exists>u v. c # cs = u @ sub @ v) \<longleftrightarrow>
      (\<exists>t. c # cs = sub @ t) \<or> (\<exists>u v. cs = u @ sub @ v)"
    by (metis append_Cons append_Nil list.sel(3) neq_Nil_conv)
  with Cons show ?case by (simp add: starts_with_iff del: starts_with.simps)
qed

lemma js_includes_single [simp]: "js_includes s [c] \<longleftrightarrow> c \<in> set s"
  by (auto simp: js_includes_iff in_set_conv_decomp)

lemma js_split_neq_Nil [simp]: "js_split d s \<noteq> []"
  by (cases s) (auto split: list.splits)

lemma js_split_no_sep: "d \<notin> set s \<Longrightarrow> js_split d s = [s]"
  by (induction s) auto

lemma js_split_append: "d \<notin> set s \<Longrightarrow> js_split d (s @ d # t) = s # js_split d t"
  by (induction s) auto

lemma js_split_join:
  "ws \<noteq> [] \<Longrightarrow> \<forall>w \<in> set ws. d \<notin> set w \<Longrightarrow> js_split d (js_join [d] ws) = ws"
  by (induction "[d]" ws rule: js_join.induct) (auto simp: js_split_no_sep js_split_append)

lemma js_join_split: "js_join [d] (js_split d s) = s"
proof (induction s)
  case (Cons c s)
  obtain w ws where ws: "js_split d s = w # ws"
    by (cases "js_split d s") auto
  with Cons show ?case by (cases ws) auto
qed simp

lemma js_split_sep_free: "w \<in> set (js_split d s) \<Longrightarrow> d \<notin> set w"
proof (induction s arbitrary: w)
  case (Cons c s)
  obtain v vs where vs: "js_split d s = v # vs"
    by (cases "js_split d s") auto
  with Cons show ?case by (auto split: if_splits)
qed simp

lemma set_js_split: "w \<in> set (js_split d s) \<Longrightarrow> set w \<subseteq> set s"
proof (induction s arbitrary: w)
  case (Cons c s)
  obtain v vs where vs: "js_split d s = v # vs"
    by (cases "js_split d s") auto
  with Cons show ?case by (fastforce split: if_splits)
qed simp

lemma set_js_join: "set (js_join sep ws) \<subseteq> set sep \<union> \<Union> (set ` set ws)"
  by (induction sep ws rule: js_join.induct) auto

lemma js_split_concat:
  "js_split d (s @ d # t) = js_split d s @ js_split d t"
proof (induction s)
  case (Cons c s)
  then show ?case by (cases "js_split d s") auto
qed simp

section \<open>JavaScript sets and searches\<close>

text \<open>\<open>[...new Set(xs)]\<close>: the first occurrence of each element, in order.\<close>

fun js_uniq :: "'a list \<Rightarrow> 'a list" where
  "js_uniq [] = []"
| "js_uniq (x # xs) = x # filter (\<lambda>y. y \<noteq> x) (js_uniq xs)"

lemma set_js_uniq [simp]: "set (js_uniq xs) = set xs"
  by (induction xs) auto

lemma distinct_js_uniq [simp]: "distinct (js_uniq xs)"
  by (induction xs) auto

lemma js_uniq_eq_Nil [simp]: "js_uniq xs = [] \<longleftrightarrow> xs = []"
  by (cases xs) auto

lemma js_uniq_distinct: "distinct xs \<Longrightarrow> js_uniq xs = xs"
proof (induction xs)
  case (Cons x xs)
  then show ?case by (auto simp: filter_id_conv)
qed simp

text \<open>\<open>new Set(xs).size === xs.length\<close> says that there is no duplicate.\<close>

lemma length_js_uniq: "length (js_uniq xs) = length xs \<longleftrightarrow> distinct xs"
proof
  have "length (js_uniq xs) = card (set xs)"
    using distinct_card [OF distinct_js_uniq, of xs] by simp
  then show "length (js_uniq xs) = length xs \<Longrightarrow> distinct xs"
    by (simp add: card_distinct)
qed (simp add: js_uniq_distinct)

section \<open>JavaScript values\<close>

datatype js_num = NInt int | NOther string

datatype js_value =
    JUndefined
  | JNull
  | JBool bool
  | JNum js_num
  | JStr string
  | JArr "js_value list"
  | JObj "(string \<times> js_value) list"

fun digit_char :: "nat \<Rightarrow> char" where
  "digit_char n = char_of (48 + n)"

fun nat_to_string :: "nat \<Rightarrow> string" where
  "nat_to_string n =
     (if n < 10 then [digit_char n] else nat_to_string (n div 10) @ [digit_char (n mod 10)])"

declare nat_to_string.simps [simp del]

definition int_to_string :: "int \<Rightarrow> string" where
  "int_to_string i = (if i < 0 then CHR ''-'' # nat_to_string (nat (- i)) else nat_to_string (nat i))"

text \<open>\<open>String(v)\<close>.\<close>

fun js_String :: "js_value \<Rightarrow> string" where
  "js_String JUndefined = ''undefined''"
| "js_String JNull = ''null''"
| "js_String (JBool b) = (if b then ''true'' else ''false'')"
| "js_String (JNum (NInt i)) = int_to_string i"
| "js_String (JNum (NOther s)) = s"
| "js_String (JStr s) = s"
| "js_String (JArr vs) =
     js_join '','' (map (\<lambda>v. case v of JUndefined \<Rightarrow> [] | JNull \<Rightarrow> [] | _ \<Rightarrow> js_String v) vs)"
| "js_String (JObj fs) = ''[object Object]''"

text \<open>
  Reading a property. \<open>isRecord\<close> in the sources is true of arrays as well; the property
  names the sources read are never those of an array. Reading a property of \<open>null\<close> or
  \<open>undefined\<close> throws.
\<close>

fun js_prop :: "js_value \<Rightarrow> string \<Rightarrow> js_value" where
  "js_prop (JObj fs) k = (case map_of fs k of None \<Rightarrow> JUndefined | Some v \<Rightarrow> v)"
| "js_prop _ k = JUndefined"

fun js_read :: "js_value \<Rightarrow> string \<Rightarrow> js_value throws" where
  "js_read JNull k = Inl ''TypeError''"
| "js_read JUndefined k = Inl ''TypeError''"
| "js_read v k = Inr (js_prop v k)"

fun is_str :: "js_value \<Rightarrow> bool" where
  "is_str (JStr s) = True"
| "is_str _ = False"

fun the_str :: "js_value \<Rightarrow> string" where
  "the_str (JStr s) = s"
| "the_str _ = []"

fun is_arr :: "js_value \<Rightarrow> bool" where
  "is_arr (JArr vs) = True"
| "is_arr _ = False"

fun the_arr :: "js_value \<Rightarrow> js_value list" where
  "the_arr (JArr vs) = vs"
| "the_arr _ = []"

fun the_int :: "js_value \<Rightarrow> int" where
  "the_int (JNum (NInt i)) = i"
| "the_int _ = 0"

lemma is_str_iff: "is_str v \<longleftrightarrow> (\<exists>s. v = JStr s)"
  by (cases v) auto

lemma is_arr_iff: "is_arr v \<longleftrightarrow> (\<exists>vs. v = JArr vs)"
  by (cases v) auto

lemma js_read_eq_Inr: "js_read v k = Inr w \<longleftrightarrow> v \<noteq> JNull \<and> v \<noteq> JUndefined \<and> w = js_prop v k"
  by (cases v) auto

section \<open>Nullable texts and safe integers\<close>

text \<open>\<open>text(value)\<close> of a nullable column.\<close>

definition text_of :: "string option \<Rightarrow> string" where
  "text_of s = (case s of None \<Rightarrow> [] | Some t \<Rightarrow> t)"

text \<open>\<open>Number.isSafeInteger\<close>, on integers.\<close>

definition safe_integer :: "int \<Rightarrow> bool" where
  "safe_integer i \<longleftrightarrow> \<bar>i\<bar> \<le> 9007199254740991"

end
