(* ===== verification/Canonical_Paths.thy ===== *)
theory Canonical_Paths
  imports Prelude "HOL-Library.Sublist"
begin

text \<open>
  The lexical path contracts of \<^verbatim>\<open>apps/sandbox-policy/src/canonical-paths.ts\<close>:
  canonical form, resolution inside a root, and segmented containment. The locale
  \<open>containment\<close> is the interface the policy components use: what they may rely on
  about "inside a root", with the segmented comparison of the code as its instance.
\<close>

section \<open>Definitions\<close>

datatype path_error =
    Path_empty
  | Path_invalid_nul
  | Path_not_absolute
  | Path_escape_above_root
  | Path_not_within_root
  | Path_malformed

type_synonym path_result = "path_error + string"

definition normalizeSeparators :: "string \<Rightarrow> string" where
  "normalizeSeparators s = map (\<lambda>c. if c = CHR 0x5C then CHR ''/'' else c) s"

text \<open>The loop over the segments; \<open>None\<close> is the early return on an escape above the root.\<close>

fun resolve_segments :: "string list \<Rightarrow> string list \<Rightarrow> string list option" where
  "resolve_segments segs [] = Some segs"
| "resolve_segments segs (raw # rest) =
     (if raw = [] \<or> raw = ''.'' then resolve_segments segs rest
      else if raw = ''..'' then
        (if segs = [] then None else resolve_segments (butlast segs) rest)
      else resolve_segments (segs @ [raw]) rest)"

definition render_segments :: "string list \<Rightarrow> string" where
  "render_segments segs = (if segs = [] then ''/'' else CHR ''/'' # js_join ''/'' segs)"

definition canonicalizePath :: "string \<Rightarrow> path_result" where
  "canonicalizePath input =
     (if input = [] then Inl Path_empty
      else if CHR 0x00 \<in> set input then Inl Path_invalid_nul
      else let posix = normalizeSeparators input in
        if \<not> starts_with posix ''/'' then Inl Path_not_absolute
        else (case resolve_segments [] (js_split (CHR ''/'') posix) of
            None \<Rightarrow> Inl Path_escape_above_root
          | Some segs \<Rightarrow> Inr (render_segments segs)))"

definition isCanonicalForm :: "string \<Rightarrow> bool" where
  "isCanonicalForm path \<longleftrightarrow> path \<noteq> [] \<and> canonicalizePath path = Inr path"

definition path_segments :: "string \<Rightarrow> string list" where
  "path_segments path =
     (if path = ''/'' then [] else filter (\<lambda>s. s \<noteq> []) (js_split (CHR ''/'') path))"

text \<open>The comparison loop of \<open>isWithin\<close>, index by index over the root's segments.\<close>

fun segments_match :: "string list \<Rightarrow> string list \<Rightarrow> bool" where
  "segments_match [] target = True"
| "segments_match (r # root) [] = False"
| "segments_match (r # root) (t # target) = (r = t \<and> segments_match root target)"

definition isWithin :: "string \<Rightarrow> string \<Rightarrow> bool" where
  "isWithin root target \<longleftrightarrow>
     (if \<not> isCanonicalForm root \<or> \<not> isCanonicalForm target then False
      else let rs = path_segments root; ts = path_segments target in
        if length rs = 0 then True
        else if length ts < length rs then False
        else segments_match rs ts)"

definition isWithinAny :: "string list \<Rightarrow> string \<Rightarrow> bool" where
  "isWithinAny roots target \<longleftrightarrow> list_ex (\<lambda>root. isWithin root target) roots"

definition canonicalizeWithinRoot :: "string \<Rightarrow> string \<Rightarrow> path_result" where
  "canonicalizeWithinRoot root candidate =
     (case canonicalizePath root of
        Inl e \<Rightarrow> Inl e
      | Inr r \<Rightarrow>
          if candidate = [] then Inl Path_empty
          else let posix = normalizeSeparators candidate in
            if starts_with posix ''/'' then
              (case canonicalizePath posix of
                 Inl e \<Rightarrow> Inl e
               | Inr v \<Rightarrow> if \<not> isWithin r v then Inl Path_not_within_root else Inr v)
            else
              (case canonicalizePath (r @ ''/'' @ posix) of
                 Inl e \<Rightarrow> if e = Path_escape_above_root then Inl Path_escape_above_root
                          else Inl Path_malformed
               | Inr v \<Rightarrow> if \<not> isWithin r v then Inl Path_not_within_root else Inr v))"


section \<open>Segments of canonical paths\<close>

definition good_segment :: "string \<Rightarrow> bool" where
  "good_segment w \<longleftrightarrow> w \<noteq> [] \<and> w \<noteq> ''.'' \<and> w \<noteq> ''..'' \<and> CHR ''/'' \<notin> set w \<and>
     CHR 0x5C \<notin> set w \<and> CHR 0x00 \<notin> set w"

abbreviation good_segments :: "string list \<Rightarrow> bool" where
  "good_segments ws \<equiv> list_all good_segment ws"

lemma normalizeSeparators_id: "CHR 0x5C \<notin> set s \<Longrightarrow> normalizeSeparators s = s"
  by (induction s) (auto simp: normalizeSeparators_def)

lemma set_normalizeSeparators:
  "CHR 0x5C \<notin> set (normalizeSeparators s)"
  "CHR 0x00 \<notin> set s \<Longrightarrow> CHR 0x00 \<notin> set (normalizeSeparators s)"
  by (auto simp: normalizeSeparators_def)

lemma normalizeSeparators_idem [simp]:
  "normalizeSeparators (normalizeSeparators s) = normalizeSeparators s"
  by (simp add: normalizeSeparators_id set_normalizeSeparators)

lemma resolve_segments_good:
  assumes "resolve_segments segs ws = Some out" and "good_segments segs"
    and "\<forall>w \<in> set ws. CHR ''/'' \<notin> set w \<and> CHR 0x5C \<notin> set w \<and> CHR 0x00 \<notin> set w"
  shows "good_segments out"
  using assms
proof (induction segs ws rule: resolve_segments.induct)
  case (2 segs raw rest)
  have "good_segments (butlast segs)"
    using "2.prems"(2) by (auto simp: list_all_iff dest: in_set_butlastD)
  moreover have "raw \<noteq> [] \<Longrightarrow> raw \<noteq> ''.'' \<Longrightarrow> raw \<noteq> ''..'' \<Longrightarrow> good_segments (segs @ [raw])"
    using "2.prems"(2,3) by (auto simp: list_all_iff good_segment_def)
  ultimately show ?case
    using 2 by (auto split: if_splits)
qed simp

lemma resolve_segments_id:
  "good_segments ws \<Longrightarrow> resolve_segments segs ws = Some (segs @ ws)"
  by (induction ws arbitrary: segs) (auto simp: good_segment_def)

lemma resolve_segments_append:
  "resolve_segments segs (ws @ vs) =
     (case resolve_segments segs ws of None \<Rightarrow> None | Some s \<Rightarrow> resolve_segments s vs)"
  by (induction segs ws rule: resolve_segments.induct) auto

lemma good_segments_join_chars:
  assumes "good_segments ws"
  shows "CHR 0x5C \<notin> set (js_join ''/'' ws)" "CHR 0x00 \<notin> set (js_join ''/'' ws)"
  using assms set_js_join [of "''/''" ws]
  by (auto simp: list_all_iff good_segment_def dest!: subsetD)

lemma js_split_join_good:
  "good_segments ws \<Longrightarrow> ws \<noteq> [] \<Longrightarrow> js_split (CHR ''/'') (js_join ''/'' ws) = ws"
  by (rule js_split_join) (auto simp: list_all_iff good_segment_def)

lemma canonicalizePath_render:
  assumes "good_segments ws"
  shows "canonicalizePath (render_segments ws) = Inr (render_segments ws)"
proof (cases "ws = []")
  case True
  then show ?thesis
    by (simp add: canonicalizePath_def render_segments_def normalizeSeparators_def)
next
  case False
  let ?p = "CHR ''/'' # js_join ''/'' ws"
  have chars: "CHR 0x5C \<notin> set ?p" "CHR 0x00 \<notin> set ?p"
    using good_segments_join_chars [OF assms] by simp_all
  have "resolve_segments [] (js_split (CHR ''/'') ?p) = Some ws"
    using assms False by (simp add: js_split_join_good resolve_segments_id)
  with chars False show ?thesis
    by (simp add: canonicalizePath_def render_segments_def normalizeSeparators_id Let_def
        del: js_split.simps)
qed

lemma canonicalizePath_eq_Inr:
  assumes "canonicalizePath p = Inr v"
  obtains ws where "good_segments ws" and "v = render_segments ws"
    and "resolve_segments [] (js_split (CHR ''/'') (normalizeSeparators p)) = Some ws"
proof -
  from assms have nul: "CHR 0x00 \<notin> set p"
    and ex: "\<exists>ws. resolve_segments [] (js_split (CHR ''/'') (normalizeSeparators p)) = Some ws \<and>
      v = render_segments ws"
    by (auto simp: canonicalizePath_def Let_def split: if_splits option.splits)
  then obtain ws where ws: "v = render_segments ws"
    "resolve_segments [] (js_split (CHR ''/'') (normalizeSeparators p)) = Some ws"
    by blast
  have "\<forall>w \<in> set (js_split (CHR ''/'') (normalizeSeparators p)).
      CHR ''/'' \<notin> set w \<and> CHR 0x5C \<notin> set w \<and> CHR 0x00 \<notin> set w"
    using set_normalizeSeparators(1) [of p] set_normalizeSeparators(2) [OF nul]
    by (auto dest: js_split_sep_free set_js_split)
  then have "good_segments ws"
    using resolve_segments_good [OF ws(2)] by simp
  with ws show thesis by (intro that)
qed

lemma render_segments_neq_Nil [simp]: "render_segments ws \<noteq> []"
  by (simp add: render_segments_def)

lemma isCanonicalForm_iff:
  "isCanonicalForm p \<longleftrightarrow> (\<exists>ws. good_segments ws \<and> p = render_segments ws)"
proof
  assume "isCanonicalForm p"
  then have "canonicalizePath p = Inr p" by (simp add: isCanonicalForm_def)
  then show "\<exists>ws. good_segments ws \<and> p = render_segments ws"
    by (auto elim: canonicalizePath_eq_Inr)
next
  assume "\<exists>ws. good_segments ws \<and> p = render_segments ws"
  then show "isCanonicalForm p"
    by (auto simp: isCanonicalForm_def canonicalizePath_render)
qed

lemma canonicalizePath_below:
  assumes "good_segments rs" and "r = render_segments rs"
    and "good_segments ws" and "ws \<noteq> []"
    and "normalizeSeparators (js_join ''/'' ws) = js_join ''/'' ws"
    and "CHR 0x00 \<notin> set (js_join ''/'' ws)"
  shows "canonicalizePath (r @ ''/'' @ js_join ''/'' ws) = Inr (render_segments (rs @ ws))"
proof -
  let ?p = "r @ CHR ''/'' # js_join ''/'' ws"
  have r: "CHR 0x5C \<notin> set r" "CHR 0x00 \<notin> set r" "starts_with ?p ''/''"
    using assms(1,2) good_segments_join_chars [of rs] by (auto simp: render_segments_def)
  have split: "js_split (CHR ''/'') ?p = js_split (CHR ''/'') r @ ws"
    using assms(3,4) by (simp add: js_split_concat js_split_join_good)
  have "resolve_segments [] (js_split (CHR ''/'') r) = Some rs"
    using assms(1,2)
    by (cases "rs = []") (simp_all add: render_segments_def js_split_join_good resolve_segments_id)
  then have "resolve_segments [] (js_split (CHR ''/'') ?p) = Some (rs @ ws)"
    using assms(3) by (simp add: split resolve_segments_append resolve_segments_id)
  moreover have "normalizeSeparators ?p = ?p"
    using r(1) good_segments_join_chars(1) [OF assms(3)] by (simp add: normalizeSeparators_id)
  ultimately show ?thesis
    using r assms(6) by (simp add: canonicalizePath_def Let_def)
qed

lemma path_segments_render:
  assumes "good_segments ws"
  shows "path_segments (render_segments ws) = ws"
proof (cases "ws = []")
  case False
  have "filter (\<lambda>s. s \<noteq> []) ws = ws"
    using assms by (auto simp: list_all_iff good_segment_def filter_id_conv)
  moreover have "js_join ''/'' ws \<noteq> []"
    using assms False by (cases ws; cases "tl ws") (auto simp: good_segment_def)
  ultimately show ?thesis
    using assms False by (simp add: path_segments_def render_segments_def js_split_join_good)
qed (simp add: path_segments_def render_segments_def)

lemma segments_match_iff: "segments_match rs ts \<longleftrightarrow> prefix rs ts"
  by (induction rs ts rule: segments_match.induct) auto

lemma isWithin_render:
  assumes "good_segments rs" and "good_segments ts"
  shows "isWithin (render_segments rs) (render_segments ts) \<longleftrightarrow> prefix rs ts"
proof -
  have "isCanonicalForm (render_segments rs)" "isCanonicalForm (render_segments ts)"
    using assms by (auto simp: isCanonicalForm_iff)
  then show ?thesis
    using assms
    by (auto simp: isWithin_def path_segments_render segments_match_iff Let_def
        dest: prefix_length_le)
qed

lemma isWithin_E:
  assumes "isWithin r t"
  obtains rs ts where "good_segments rs" "good_segments ts" "r = render_segments rs"
    "t = render_segments ts" "prefix rs ts"
proof -
  from assms have "isCanonicalForm r" "isCanonicalForm t"
    by (auto simp: isWithin_def split: if_splits)
  then show thesis
    using assms that by (auto simp: isCanonicalForm_iff isWithin_render)
qed

section \<open>Containment as an interface\<close>

text \<open>
  What the policy components rely on: containment is a partial order on canonical paths
  whose down-sets are chains (two roots of one path are nested). Everything about
  overlapping roots follows from these laws.
\<close>

locale containment =
  fixes canon :: "'p \<Rightarrow> bool"
    and inside :: "'p \<Rightarrow> 'p \<Rightarrow> bool"
  assumes inside_canon: "inside r t \<Longrightarrow> canon r \<and> canon t"
    and inside_refl: "canon p \<Longrightarrow> inside p p"
    and inside_trans: "inside a b \<Longrightarrow> inside b c \<Longrightarrow> inside a c"
    and inside_antisym: "inside a b \<Longrightarrow> inside b a \<Longrightarrow> a = b"
    and inside_chain: "inside a p \<Longrightarrow> inside b p \<Longrightarrow> inside a b \<or> inside b a"
begin

lemma disjoint_roots:
  "\<not> inside a b \<Longrightarrow> \<not> inside b a \<Longrightarrow> inside a p \<Longrightarrow> \<not> inside b p"
  using inside_chain by blast

lemma disjoint_root_lists:
  assumes "\<forall>a \<in> set as. \<forall>b \<in> set bs. \<not> inside a b \<and> \<not> inside b a"
    and "list_ex (\<lambda>a. inside a p) as"
  shows "\<not> list_ex (\<lambda>b. inside b p) bs"
proof -
  from assms(2) obtain a where "a \<in> set as" "inside a p"
    by (auto simp: list_ex_iff)
  with assms(1) show ?thesis
    unfolding list_ex_iff using inside_chain by blast
qed

lemma inside_any_down: "list_ex (\<lambda>a. inside a p) as \<Longrightarrow> inside p q \<Longrightarrow> list_ex (\<lambda>a. inside a q) as"
  using inside_trans by (auto simp: list_ex_iff)

end

interpretation posix: containment isCanonicalForm isWithin
proof
  fix r t
  assume "isWithin r t"
  then show "isCanonicalForm r \<and> isCanonicalForm t"
    by (auto simp: isWithin_def split: if_splits)
next
  fix p
  assume "isCanonicalForm p"
  then show "isWithin p p"
    by (auto simp: isCanonicalForm_iff isWithin_render)
next
  fix a b c
  assume "isWithin a b" and "isWithin b c"
  then show "isWithin a c"
    by (elim isWithin_E) (metis isWithin_render path_segments_render prefix_order.trans)
next
  fix a b
  assume "isWithin a b" and "isWithin b a"
  then show "a = b"
    by (elim isWithin_E) (metis path_segments_render prefix_order.antisym)
next
  fix a p b
  assume "isWithin a p" and "isWithin b p"
  then show "isWithin a b \<or> isWithin b a"
    by (elim isWithin_E) (metis isWithin_render path_segments_render prefix_same_cases)
qed


lemma isWithinAny_iff: "isWithinAny roots t \<longleftrightarrow> (\<exists>r \<in> set roots. isWithin r t)"
  by (simp add: isWithinAny_def list_ex_iff)

lemma canonicalizeWithinRoot_inside:
  assumes "isCanonicalForm r"
  shows "isWithin r v \<Longrightarrow> canonicalizeWithinRoot r v = Inr v"
    and "good_segments ws \<Longrightarrow> ws \<noteq> [] \<Longrightarrow>
      canonicalizeWithinRoot r (js_join ''/'' ws) = Inr (render_segments (path_segments r @ ws))"
proof -
  from assms obtain rs where rs: "good_segments rs" "r = render_segments rs"
    by (auto simp: isCanonicalForm_iff)
  have canon_r: "canonicalizePath r = Inr r"
    using rs by (simp add: canonicalizePath_render)
  {
    assume w: "isWithin r v"
    then obtain ts where ts: "good_segments ts" "v = render_segments ts"
      by (auto elim: isWithin_E)
    have "CHR 0x5C \<notin> set v"
      using ts good_segments_join_chars [of ts] by (auto simp: render_segments_def)
    then have "normalizeSeparators v = v"
      by (rule normalizeSeparators_id)
    moreover have "starts_with v ''/''"
      using ts by (simp add: render_segments_def)
    ultimately show "canonicalizeWithinRoot r v = Inr v"
      using w canon_r ts
      by (simp add: canonicalizeWithinRoot_def canonicalizePath_render)
  }
  {
    assume ws: "good_segments ws" "ws \<noteq> []"
    let ?j = "js_join ''/'' ws"
    have j: "normalizeSeparators ?j = ?j" "CHR 0x00 \<notin> set ?j"
      using good_segments_join_chars [OF ws(1)] by (simp_all add: normalizeSeparators_id)
    have nonrel: "?j \<noteq> []" "\<not> starts_with ?j ''/''"
      using ws by (cases ws; cases "hd ws"; cases "tl ws"; force simp: good_segment_def)+
    have "canonicalizePath (r @ ''/'' @ ?j) = Inr (render_segments (rs @ ws))"
      using rs ws j by (rule canonicalizePath_below)
    moreover have "isWithin r (render_segments (rs @ ws))"
      using rs ws by (simp add: isWithin_render)
    ultimately show "canonicalizeWithinRoot r ?j = Inr (render_segments (path_segments r @ ws))"
      using canon_r j nonrel rs
      by (simp add: canonicalizeWithinRoot_def path_segments_render)
  }
qed

section \<open>Properties\<close>

text \<open>
  Canonicalization reaches its fixed point in one step: whatever raw path it accepts,
  the value it returns is canonical (so canonicalizing again returns it unchanged).
\<close>

theorem canonicalizePath_canonical:
  "canonicalizePath p = Inr v \<Longrightarrow> isCanonicalForm v \<and> canonicalizePath v = Inr v"
  by (erule canonicalizePath_eq_Inr) (auto simp: isCanonicalForm_iff canonicalizePath_render)

theorem canonicalizePath_canonical_witness:
  "canonicalizePath ''/a/./b//../c/'' = Inr ''/a/c'' \<and> isCanonicalForm ''/a/c''"
proof -
  have h: "canonicalizePath ''/a/./b//../c/'' = Inr ''/a/c''"
    by code_simp
  from canonicalizePath_canonical [OF h] h show ?thesis by simp
qed

text \<open>
  Containment is decided by whole segments: a target is within a root exactly when both
  are canonical and the root's segment list is a prefix of the target's. A sibling whose
  name extends the root's last segment is never inside.
\<close>

theorem isWithin_iff_prefix:
  "isWithin r t \<longleftrightarrow> isCanonicalForm r \<and> isCanonicalForm t \<and>
     prefix (path_segments r) (path_segments t)"
  by (auto simp: isWithin_def segments_match_iff Let_def dest: prefix_length_le)



text \<open>
  Resolution inside a root is also complete: a canonical path under the root is
  returned unchanged when given in absolute form, and a relative path of ordinary segments
  (no empty, dot or dot-dot segment) is appended to the root's segments.
\<close>

theorem canonicalizeWithinRoot_complete:
  "isCanonicalForm r \<Longrightarrow>
     (\<forall>v. isWithin r v \<longrightarrow> canonicalizeWithinRoot r v = Inr v) \<and>
     (\<forall>ws. good_segments ws \<and> ws \<noteq> [] \<longrightarrow>
        canonicalizeWithinRoot r (js_join ''/'' ws) = Inr (render_segments (path_segments r @ ws)))"
  using canonicalizeWithinRoot_inside by blast

theorem canonicalizeWithinRoot_complete_witness:
  "isCanonicalForm ''/srv'' \<and> canonicalizeWithinRoot ''/srv'' ''a/b'' = Inr ''/srv/a/b''"
proof -
  have h: "isCanonicalForm ''/srv''" by code_simp
  have g: "good_segments [''a'', ''b''] \<and> [''a'', ''b''] \<noteq> []" by (simp add: good_segment_def)
  have e: "js_join ''/'' [''a'', ''b''] = ''a/b''"
    "render_segments (path_segments ''/srv'' @ [''a'', ''b'']) = ''/srv/a/b''" by code_simp+
  from canonicalizeWithinRoot_complete [OF h] g
  have "canonicalizeWithinRoot ''/srv'' (js_join ''/'' [''a'', ''b'']) =
      Inr (render_segments (path_segments ''/srv'' @ [''a'', ''b'']))" by blast
  with h show ?thesis unfolding e by simp
qed

end
