(* ===== verification/Sandbox_Types.thy ===== *)
theory Sandbox_Types
  imports Prelude
begin

text \<open>
  The core vocabulary of \<^verbatim>\<open>apps/sandbox-policy/src/types.ts\<close>: risk classes
  with their order, path intents, protected-root classes, signers, the capability
  identifiers and the decision of an authorization.
\<close>

datatype risk_class = Risk_low | Risk_medium | Risk_high | Risk_consultation

fun SANDBOX_RISK_ORDER :: "risk_class \<Rightarrow> nat" where
  "SANDBOX_RISK_ORDER Risk_low = 0"
| "SANDBOX_RISK_ORDER Risk_medium = 1"
| "SANDBOX_RISK_ORDER Risk_high = 2"
| "SANDBOX_RISK_ORDER Risk_consultation = 3"

definition maxRisk :: "risk_class \<Rightarrow> risk_class \<Rightarrow> risk_class" where
  "maxRisk a b = (if SANDBOX_RISK_ORDER a \<ge> SANDBOX_RISK_ORDER b then a else b)"

datatype path_intent = Intent_read | Intent_write | Intent_delete

datatype protected_root_class =
    Root_delegated_write_denied_owner_approvable
  | Root_absolute_denial

datatype signer_class = Signer_delegated | Signer_owner | Signer_unsigned

record sandbox_signer =
  signer_class :: signer_class
  keyId :: "string option"

text \<open>The union type \<open>SandboxCapabilityId\<close>; at run time an identifier is any string.\<close>

definition sandbox_capability_ids :: "string list" where
  "sandbox_capability_ids = [
     ''approved_project_read'',
     ''approved_bounded_log_read'',
     ''local_health_status_inspection'',
     ''fixed_test_recipe'',
     ''fixed_build_recipe'',
     ''fixed_lint_verification_recipe'',
     ''candidate_workspace_create'',
     ''candidate_workspace_read_write_delete'',
     ''candidate_patch_generate'',
     ''candidate_report_artifact_generate'',
     ''bounded_diagnostic_execution'',
     ''engineering_project_read'',
     ''candidate_repository_git_write'',
     ''apply_candidate_patch_live'',
     ''write_live_repository'',
     ''modify_live_git_metadata'',
     ''commit_merge_workflow'',
     ''deployment'',
     ''service_restart_management'',
     ''package_install_remove_upgrade'',
     ''production_configuration_change'',
     ''persistent_deletion'',
     ''authenticated_external_action'',
     ''messaging_file_upload'',
     ''broader_network_effects'',
     ''secret_extraction_transmission'',
     ''credential_extraction'',
     ''signing_key_access'',
     ''privilege_escalation'',
     ''safeguard_weakening'',
     ''authorization_policy_modification'',
     ''trusted_key_configuration_modification'',
     ''host_wiping'',
     ''destructive_system_operation'',
     ''audit_log_concealment_tampering'',
     ''unrestricted_shell'',
     ''unrelated_personal_file_access'',
     ''data_exfiltration'',
     ''controls_bypass''
  ]"

datatype authorization_decision =
    Autonomous_safe (dec_capability: string) (dec_policyRuleId: string) (dec_risk: risk_class)
  | Owner_approval_required (dec_capability: string) (dec_policyRuleId: string)
      (dec_risk: risk_class) (dec_reason: string)
  | Denied (dec_capability: string) (dec_policyRuleId: string)
      (dec_risk: risk_class) (dec_reason: string)

section \<open>The order of the risk classes\<close>

instantiation risk_class :: linorder
begin

definition less_eq_risk_class :: "risk_class \<Rightarrow> risk_class \<Rightarrow> bool" where
  "less_eq_risk_class a b \<longleftrightarrow> SANDBOX_RISK_ORDER a \<le> SANDBOX_RISK_ORDER b"

definition less_risk_class :: "risk_class \<Rightarrow> risk_class \<Rightarrow> bool" where
  "less_risk_class a b \<longleftrightarrow> SANDBOX_RISK_ORDER a < SANDBOX_RISK_ORDER b"

instance
proof
  fix a b c :: risk_class
  show "a \<le> b \<Longrightarrow> b \<le> a \<Longrightarrow> a = b"
    by (cases a; cases b) (simp_all add: less_eq_risk_class_def)
qed (auto simp: less_eq_risk_class_def less_risk_class_def)

end

text \<open>\<open>maxRisk\<close> is the maximum of that order, so the lattice lemmas apply to it.\<close>

lemma maxRisk_max: "maxRisk a b = max a b"
  by (cases a; cases b) (simp_all add: maxRisk_def max_def less_eq_risk_class_def)

lemma risk_top [simp]: "a \<le> Risk_consultation"
  by (cases a) (simp_all add: less_eq_risk_class_def)

end
