(* ===== verification/Protected_Roots.thy ===== *)
theory Protected_Roots
  imports Sandbox_Types Canonical_Paths
begin

text \<open>
  Protected-root classification, \<^verbatim>\<open>apps/sandbox-policy/src/protected-roots.ts\<close>:
  which class a canonical path falls in (absolute denial wins; within a class the longest
  matching root), and the conflict an intent has with it.
\<close>

section \<open>Definitions\<close>

record protected_roots_config =
  delegatedWriteDeniedOwnerApprovable :: "string list"
  absoluteDenial :: "string list"

datatype protected_path_class = Path_none | Path_class protected_root_class string

text \<open>One of the two loops: the best root so far, with its length (\<open>-1\<close> when none).\<close>

fun best_root :: "string \<Rightarrow> string option \<Rightarrow> int \<Rightarrow> string list \<Rightarrow> string option" where
  "best_root path best bestLen [] = best"
| "best_root path best bestLen (root # roots) =
     (if isWithin root path \<and> int (length root) > bestLen
      then best_root path (Some root) (int (length root)) roots
      else best_root path best bestLen roots)"

definition classifyProtectedPath ::
  "protected_roots_config \<Rightarrow> string \<Rightarrow> protected_path_class" where
  "classifyProtectedPath config path =
     (case best_root path None (- 1) (absoluteDenial config) of
        Some root \<Rightarrow> Path_class Root_absolute_denial root
      | None \<Rightarrow>
          (case best_root path None (- 1) (delegatedWriteDeniedOwnerApprovable config) of
             Some root \<Rightarrow> Path_class Root_delegated_write_denied_owner_approvable root
           | None \<Rightarrow> Path_none))"

datatype protected_conflict = No_conflict | Conflict protected_root_class string

definition protectedConflictForIntent ::
  "protected_roots_config \<Rightarrow> string \<Rightarrow> path_intent \<Rightarrow> protected_conflict" where
  "protectedConflictForIntent config path intent =
     (case classifyProtectedPath config path of
        Path_class Root_absolute_denial root \<Rightarrow> Conflict Root_absolute_denial root
      | Path_class Root_delegated_write_denied_owner_approvable root \<Rightarrow>
          if intent \<noteq> Intent_read
          then Conflict Root_delegated_write_denied_owner_approvable root
          else No_conflict
      | Path_none \<Rightarrow> No_conflict)"

definition toProtectedRootsConfig ::
  "(string \<times> protected_root_class) list \<Rightarrow> protected_roots_config" where
  "toProtectedRootsConfig protectedRoots =
     \<lparr>delegatedWriteDeniedOwnerApprovable =
        map fst (filter (\<lambda>e. snd e = Root_delegated_write_denied_owner_approvable) protectedRoots),
      absoluteDenial = map fst (filter (\<lambda>e. snd e = Root_absolute_denial) protectedRoots)\<rparr>"

section \<open>The selected root\<close>

lemma best_root_Some_start: "\<exists>r. best_root p (Some b) n roots = Some r"
  by (induction roots arbitrary: b n) auto

lemma best_root_None_iff:
  "best_root p None (- 1) roots = None \<longleftrightarrow> \<not> isWithinAny roots p"
proof (induction roots)
  case (Cons r roots)
  then show ?case
    using best_root_Some_start [of p r "int (length r)" roots] by (auto simp: isWithinAny_def)
qed (simp add: isWithinAny_def)

lemma best_root_from:
  "best_root p (Some b) (int (length b)) roots = Some r \<Longrightarrow>
     (r = b \<or> r \<in> set roots \<and> isWithin r p) \<and> length b \<le> length r \<and>
     (\<forall>q \<in> set roots. isWithin q p \<longrightarrow> length q \<le> length r)"
proof (induction roots arbitrary: b)
  case (Cons q roots)
  show ?case
  proof (cases "isWithin q p \<and> int (length q) > int (length b)")
    case True
    with Cons.prems Cons.IH [of q] show ?thesis by auto
  next
    case False
    then have "best_root p (Some b) (int (length b)) roots = Some r"
      using Cons.prems by auto
    from Cons.IH [OF this] False show ?thesis by auto
  qed
qed simp

lemma best_root_longest:
  "best_root p None (- 1) roots = Some r \<Longrightarrow>
     r \<in> set roots \<and> isWithin r p \<and> (\<forall>q \<in> set roots. isWithin q p \<longrightarrow> length q \<le> length r)"
proof (induction roots)
  case (Cons q roots)
  show ?case
  proof (cases "isWithin q p")
    case True
    then have "best_root p (Some q) (int (length q)) roots = Some r"
      using Cons.prems by simp
    from best_root_from [OF this] True show ?thesis by auto
  next
    case False
    with Cons show ?thesis by auto
  qed
qed simp

lemma classify_none_iff:
  "classifyProtectedPath c p = Path_none \<longleftrightarrow>
     \<not> isWithinAny (absoluteDenial c) p \<and> \<not> isWithinAny (delegatedWriteDeniedOwnerApprovable c) p"
  by (auto simp: classifyProtectedPath_def best_root_None_iff [symmetric] split: option.splits)

lemma classify_absolute_iff:
  "(\<exists>r. classifyProtectedPath c p = Path_class Root_absolute_denial r) \<longleftrightarrow>
     isWithinAny (absoluteDenial c) p"
proof -
  have "isWithinAny (absoluteDenial c) p \<longleftrightarrow> best_root p None (- 1) (absoluteDenial c) \<noteq> None"
    by (simp add: best_root_None_iff)
  then show ?thesis
    by (auto simp: classifyProtectedPath_def split: option.splits)
qed

lemma toProtectedRootsConfig_sel:
  "r \<in> set (absoluteDenial (toProtectedRootsConfig prs)) \<longleftrightarrow> (r, Root_absolute_denial) \<in> set prs"
  "r \<in> set (delegatedWriteDeniedOwnerApprovable (toProtectedRootsConfig prs)) \<longleftrightarrow>
     (r, Root_delegated_write_denied_owner_approvable) \<in> set prs"
  by (force simp: toProtectedRootsConfig_def)+

section \<open>Properties\<close>

text \<open>
  Absolute denial wins and the most specific root is reported: a path is classified
  \<open>absolute_denial\<close> exactly when some absolute-denial root contains it, whatever the other
  class says, and the root reported for any class is a configured root of that class that
  contains the path and that no longer matching root of the class beats.
\<close>

theorem classifyProtectedPath_spec:
  "(isWithinAny (absoluteDenial c) p \<longleftrightarrow>
      (\<exists>r. classifyProtectedPath c p = Path_class Root_absolute_denial r)) \<and>
   (\<forall>cls r. classifyProtectedPath c p = Path_class cls r \<longrightarrow>
      (let roots = (case cls of Root_absolute_denial \<Rightarrow> absoluteDenial c
                    | Root_delegated_write_denied_owner_approvable \<Rightarrow>
                        delegatedWriteDeniedOwnerApprovable c)
       in r \<in> set roots \<and> isWithin r p \<and>
          (\<forall>q \<in> set roots. isWithin q p \<longrightarrow> length q \<le> length r)))"
proof (intro conjI allI impI)
  show "isWithinAny (absoluteDenial c) p \<longleftrightarrow>
      (\<exists>r. classifyProtectedPath c p = Path_class Root_absolute_denial r)"
    by (simp add: classify_absolute_iff)
next
  fix cls r
  assume "classifyProtectedPath c p = Path_class cls r"
  then show "let roots = (case cls of Root_absolute_denial \<Rightarrow> absoluteDenial c
                    | Root_delegated_write_denied_owner_approvable \<Rightarrow>
                        delegatedWriteDeniedOwnerApprovable c)
       in r \<in> set roots \<and> isWithin r p \<and>
          (\<forall>q \<in> set roots. isWithin q p \<longrightarrow> length q \<le> length r)"
    by (auto simp: classifyProtectedPath_def Let_def split: option.splits dest: best_root_longest)
qed

theorem classifyProtectedPath_spec_witness:
  "isWithin ''/a/b'' ''/a/b/c'' \<and> length ''/a'' \<le> length ''/a/b''"
proof -
  let ?c = "\<lparr>delegatedWriteDeniedOwnerApprovable = [''/a/b/c''], absoluteDenial = [''/a'', ''/a/b'']\<rparr>"
  have h: "classifyProtectedPath ?c ''/a/b/c'' = Path_class Root_absolute_denial ''/a/b''"
    "isWithin ''/a'' ''/a/b/c''"
    by code_simp+
  with classifyProtectedPath_spec [of ?c "''/a/b/c''"] show ?thesis
    by (auto simp: Let_def)
qed

end
