(* ===== verification/Sandbox_Classify.thy ===== *)
theory Sandbox_Classify
  imports Protected_Roots
begin

text \<open>
  The capability registry and the authoritative classification of an operation,
  \<^verbatim>\<open>apps/sandbox-policy/src/classify.ts\<close>.
\<close>

section \<open>The capability registry\<close>

datatype capability_class =
    Class_delegated_safe
  | Class_owner_approvable
  | Class_absolute_denial

record capability_spec =
  cap_id :: string
  cap_class :: capability_class
  allowedIntents :: "path_intent list"
  intrinsicRisk :: risk_class
  cap_networkRequired :: bool
  cap_externalSideEffects :: bool
  cap_secretExposure :: bool
  recipeBound :: bool
  executableBound :: bool
  description :: string

definition DELEGATED_SAFE_CAPABILITIES :: "capability_spec list" where
  "DELEGATED_SAFE_CAPABILITIES = [
    \<lparr>cap_id = ''approved_project_read'', cap_class = Class_delegated_safe,
     allowedIntents = [Intent_read], intrinsicRisk = Risk_low,
     cap_networkRequired = False, cap_externalSideEffects = False, cap_secretExposure = False,
     recipeBound = False, executableBound = False,
     description = ''read files inside an owner-approved project root''\<rparr>,
    \<lparr>cap_id = ''approved_bounded_log_read'', cap_class = Class_delegated_safe,
     allowedIntents = [Intent_read], intrinsicRisk = Risk_low,
     cap_networkRequired = False, cap_externalSideEffects = False, cap_secretExposure = False,
     recipeBound = False, executableBound = False,
     description = ''read bounded non-secret application logs''\<rparr>,
    \<lparr>cap_id = ''local_health_status_inspection'', cap_class = Class_delegated_safe,
     allowedIntents = [], intrinsicRisk = Risk_low,
     cap_networkRequired = False, cap_externalSideEffects = False, cap_secretExposure = False,
     recipeBound = False, executableBound = False,
     description = ''inspect local health and status endpoints''\<rparr>,
    \<lparr>cap_id = ''fixed_test_recipe'', cap_class = Class_delegated_safe,
     allowedIntents = [], intrinsicRisk = Risk_medium,
     cap_networkRequired = False, cap_externalSideEffects = False, cap_secretExposure = False,
     recipeBound = True, executableBound = False,
     description = ''run a fixed, policy-listed test recipe''\<rparr>,
    \<lparr>cap_id = ''fixed_build_recipe'', cap_class = Class_delegated_safe,
     allowedIntents = [], intrinsicRisk = Risk_medium,
     cap_networkRequired = False, cap_externalSideEffects = False, cap_secretExposure = False,
     recipeBound = True, executableBound = False,
     description = ''run a fixed, policy-listed build recipe''\<rparr>,
    \<lparr>cap_id = ''fixed_lint_verification_recipe'', cap_class = Class_delegated_safe,
     allowedIntents = [], intrinsicRisk = Risk_low,
     cap_networkRequired = False, cap_externalSideEffects = False, cap_secretExposure = False,
     recipeBound = True, executableBound = False,
     description = ''run a fixed lint or verification recipe''\<rparr>,
    \<lparr>cap_id = ''candidate_workspace_create'', cap_class = Class_delegated_safe,
     allowedIntents = [Intent_write], intrinsicRisk = Risk_low,
     cap_networkRequired = False, cap_externalSideEffects = False, cap_secretExposure = False,
     recipeBound = False, executableBound = False,
     description = ''create a sanitized disposable candidate workspace''\<rparr>,
    \<lparr>cap_id = ''candidate_workspace_read_write_delete'', cap_class = Class_delegated_safe,
     allowedIntents = [Intent_read, Intent_write, Intent_delete], intrinsicRisk = Risk_low,
     cap_networkRequired = False, cap_externalSideEffects = False, cap_secretExposure = False,
     recipeBound = False, executableBound = False,
     description = ''read, write and delete inside an approved disposable workspace''\<rparr>,
    \<lparr>cap_id = ''candidate_patch_generate'', cap_class = Class_delegated_safe,
     allowedIntents = [Intent_write], intrinsicRisk = Risk_low,
     cap_networkRequired = False, cap_externalSideEffects = False, cap_secretExposure = False,
     recipeBound = False, executableBound = False,
     description = ''generate candidate patches inside the disposable workspace''\<rparr>,
    \<lparr>cap_id = ''candidate_report_artifact_generate'', cap_class = Class_delegated_safe,
     allowedIntents = [Intent_write], intrinsicRisk = Risk_low,
     cap_networkRequired = False, cap_externalSideEffects = False, cap_secretExposure = False,
     recipeBound = False, executableBound = False,
     description = ''generate reports and artifacts inside the disposable workspace''\<rparr>,
    \<lparr>cap_id = ''bounded_diagnostic_execution'', cap_class = Class_delegated_safe,
     allowedIntents = [], intrinsicRisk = Risk_medium,
     cap_networkRequired = False, cap_externalSideEffects = False, cap_secretExposure = False,
     recipeBound = False, executableBound = True,
     description = ''run a bounded, policy-listed diagnostic executable''\<rparr>,
    \<lparr>cap_id = ''engineering_project_read'', cap_class = Class_delegated_safe,
     allowedIntents = [Intent_read], intrinsicRisk = Risk_low,
     cap_networkRequired = False, cap_externalSideEffects = False, cap_secretExposure = False,
     recipeBound = False, executableBound = False,
     description = ''bounded read/list/search of an allowlisted project source tree, including read-only git inspection''\<rparr>,
    \<lparr>cap_id = ''candidate_repository_git_write'', cap_class = Class_delegated_safe,
     allowedIntents = [Intent_read, Intent_write, Intent_delete], intrinsicRisk = Risk_medium,
     cap_networkRequired = False, cap_externalSideEffects = False, cap_secretExposure = False,
     recipeBound = False, executableBound = False,
     description = ''local git metadata operations inside a sandbox-owned candidate clone only (status/diff/log/add/commit); push/fetch/remote-rewrite prohibited''\<rparr>]"

definition OWNER_APPROVABLE_CAPABILITIES :: "capability_spec list" where
  "OWNER_APPROVABLE_CAPABILITIES = [
    \<lparr>cap_id = ''apply_candidate_patch_live'', cap_class = Class_owner_approvable,
     allowedIntents = [Intent_write], intrinsicRisk = Risk_high,
     cap_networkRequired = False, cap_externalSideEffects = False, cap_secretExposure = False,
     recipeBound = False, executableBound = False,
     description = ''apply a candidate patch to the live checkout''\<rparr>,
    \<lparr>cap_id = ''write_live_repository'', cap_class = Class_owner_approvable,
     allowedIntents = [Intent_write], intrinsicRisk = Risk_high,
     cap_networkRequired = False, cap_externalSideEffects = False, cap_secretExposure = False,
     recipeBound = False, executableBound = False,
     description = ''write files in the live repository''\<rparr>,
    \<lparr>cap_id = ''modify_live_git_metadata'', cap_class = Class_owner_approvable,
     allowedIntents = [Intent_write, Intent_delete], intrinsicRisk = Risk_high,
     cap_networkRequired = False, cap_externalSideEffects = False, cap_secretExposure = False,
     recipeBound = False, executableBound = False,
     description = ''modify live repository .git metadata''\<rparr>,
    \<lparr>cap_id = ''commit_merge_workflow'', cap_class = Class_owner_approvable,
     allowedIntents = [], intrinsicRisk = Risk_consultation,
     cap_networkRequired = False, cap_externalSideEffects = False, cap_secretExposure = False,
     recipeBound = False, executableBound = False,
     description = ''approved commit or merge workflow''\<rparr>,
    \<lparr>cap_id = ''deployment'', cap_class = Class_owner_approvable,
     allowedIntents = [], intrinsicRisk = Risk_consultation,
     cap_networkRequired = True, cap_externalSideEffects = True, cap_secretExposure = False,
     recipeBound = False, executableBound = False,
     description = ''deploy the project to a host''\<rparr>,
    \<lparr>cap_id = ''service_restart_management'', cap_class = Class_owner_approvable,
     allowedIntents = [], intrinsicRisk = Risk_high,
     cap_networkRequired = False, cap_externalSideEffects = True, cap_secretExposure = False,
     recipeBound = False, executableBound = False,
     description = ''restart or manage services''\<rparr>,
    \<lparr>cap_id = ''package_install_remove_upgrade'', cap_class = Class_owner_approvable,
     allowedIntents = [], intrinsicRisk = Risk_high,
     cap_networkRequired = True, cap_externalSideEffects = True, cap_secretExposure = False,
     recipeBound = False, executableBound = False,
     description = ''install, remove or upgrade packages''\<rparr>,
    \<lparr>cap_id = ''production_configuration_change'', cap_class = Class_owner_approvable,
     allowedIntents = [Intent_write], intrinsicRisk = Risk_consultation,
     cap_networkRequired = False, cap_externalSideEffects = True, cap_secretExposure = False,
     recipeBound = False, executableBound = False,
     description = ''change production configuration''\<rparr>,
    \<lparr>cap_id = ''persistent_deletion'', cap_class = Class_owner_approvable,
     allowedIntents = [Intent_delete], intrinsicRisk = Risk_high,
     cap_networkRequired = False, cap_externalSideEffects = False, cap_secretExposure = False,
     recipeBound = False, executableBound = False,
     description = ''persistently delete data outside the disposable workspace''\<rparr>,
    \<lparr>cap_id = ''authenticated_external_action'', cap_class = Class_owner_approvable,
     allowedIntents = [], intrinsicRisk = Risk_consultation,
     cap_networkRequired = True, cap_externalSideEffects = True, cap_secretExposure = False,
     recipeBound = False, executableBound = False,
     description = ''perform an authenticated external action''\<rparr>,
    \<lparr>cap_id = ''messaging_file_upload'', cap_class = Class_owner_approvable,
     allowedIntents = [], intrinsicRisk = Risk_high,
     cap_networkRequired = True, cap_externalSideEffects = True, cap_secretExposure = False,
     recipeBound = False, executableBound = False,
     description = ''send messages or upload files externally''\<rparr>,
    \<lparr>cap_id = ''broader_network_effects'', cap_class = Class_owner_approvable,
     allowedIntents = [], intrinsicRisk = Risk_consultation,
     cap_networkRequired = True, cap_externalSideEffects = True, cap_secretExposure = False,
     recipeBound = False, executableBound = False,
     description = ''operations with broader network effects''\<rparr>]"

definition ABSOLUTE_DENIAL_CAPABILITIES :: "capability_spec list" where
  "ABSOLUTE_DENIAL_CAPABILITIES = [
    \<lparr>cap_id = ''secret_extraction_transmission'', cap_class = Class_absolute_denial,
     allowedIntents = [Intent_read], intrinsicRisk = Risk_high,
     cap_networkRequired = False, cap_externalSideEffects = False, cap_secretExposure = True,
     recipeBound = False, executableBound = False,
     description = ''extract or transmit secrets''\<rparr>,
    \<lparr>cap_id = ''credential_extraction'', cap_class = Class_absolute_denial,
     allowedIntents = [Intent_read], intrinsicRisk = Risk_high,
     cap_networkRequired = False, cap_externalSideEffects = False, cap_secretExposure = True,
     recipeBound = False, executableBound = False,
     description = ''extract API keys or credentials''\<rparr>,
    \<lparr>cap_id = ''signing_key_access'', cap_class = Class_absolute_denial,
     allowedIntents = [Intent_read, Intent_write], intrinsicRisk = Risk_high,
     cap_networkRequired = False, cap_externalSideEffects = False, cap_secretExposure = True,
     recipeBound = False, executableBound = False,
     description = ''access signing keys''\<rparr>,
    \<lparr>cap_id = ''privilege_escalation'', cap_class = Class_absolute_denial,
     allowedIntents = [], intrinsicRisk = Risk_high,
     cap_networkRequired = False, cap_externalSideEffects = False, cap_secretExposure = False,
     recipeBound = False, executableBound = False,
     description = ''escalate privileges''\<rparr>,
    \<lparr>cap_id = ''safeguard_weakening'', cap_class = Class_absolute_denial,
     allowedIntents = [], intrinsicRisk = Risk_high,
     cap_networkRequired = False, cap_externalSideEffects = False, cap_secretExposure = False,
     recipeBound = False, executableBound = False,
     description = ''weaken broker safeguards''\<rparr>,
    \<lparr>cap_id = ''authorization_policy_modification'', cap_class = Class_absolute_denial,
     allowedIntents = [Intent_write, Intent_delete], intrinsicRisk = Risk_high,
     cap_networkRequired = False, cap_externalSideEffects = False, cap_secretExposure = False,
     recipeBound = False, executableBound = False,
     description = ''modify the active authorization policy''\<rparr>,
    \<lparr>cap_id = ''trusted_key_configuration_modification'', cap_class = Class_absolute_denial,
     allowedIntents = [Intent_write, Intent_delete], intrinsicRisk = Risk_high,
     cap_networkRequired = False, cap_externalSideEffects = False, cap_secretExposure = False,
     recipeBound = False, executableBound = False,
     description = ''modify trusted-key configuration''\<rparr>,
    \<lparr>cap_id = ''host_wiping'', cap_class = Class_absolute_denial,
     allowedIntents = [Intent_write, Intent_delete], intrinsicRisk = Risk_high,
     cap_networkRequired = False, cap_externalSideEffects = False, cap_secretExposure = False,
     recipeBound = False, executableBound = False,
     description = ''wipe the host or devices''\<rparr>,
    \<lparr>cap_id = ''destructive_system_operation'', cap_class = Class_absolute_denial,
     allowedIntents = [], intrinsicRisk = Risk_high,
     cap_networkRequired = False, cap_externalSideEffects = False, cap_secretExposure = False,
     recipeBound = False, executableBound = False,
     description = ''destructive system operations''\<rparr>,
    \<lparr>cap_id = ''audit_log_concealment_tampering'', cap_class = Class_absolute_denial,
     allowedIntents = [Intent_write, Intent_delete], intrinsicRisk = Risk_high,
     cap_networkRequired = False, cap_externalSideEffects = False, cap_secretExposure = False,
     recipeBound = False, executableBound = False,
     description = ''conceal or tamper with audit logs''\<rparr>,
    \<lparr>cap_id = ''unrestricted_shell'', cap_class = Class_absolute_denial,
     allowedIntents = [], intrinsicRisk = Risk_high,
     cap_networkRequired = False, cap_externalSideEffects = False, cap_secretExposure = False,
     recipeBound = False, executableBound = False,
     description = ''unrestricted shell access''\<rparr>,
    \<lparr>cap_id = ''unrelated_personal_file_access'', cap_class = Class_absolute_denial,
     allowedIntents = [Intent_read, Intent_write, Intent_delete], intrinsicRisk = Risk_high,
     cap_networkRequired = False, cap_externalSideEffects = False, cap_secretExposure = False,
     recipeBound = False, executableBound = False,
     description = ''access unrelated personal files''\<rparr>,
    \<lparr>cap_id = ''data_exfiltration'', cap_class = Class_absolute_denial,
     allowedIntents = [Intent_read], intrinsicRisk = Risk_high,
     cap_networkRequired = True, cap_externalSideEffects = True, cap_secretExposure = True,
     recipeBound = False, executableBound = False,
     description = ''exfiltrate data''\<rparr>,
    \<lparr>cap_id = ''controls_bypass'', cap_class = Class_absolute_denial,
     allowedIntents = [], intrinsicRisk = Risk_high,
     cap_networkRequired = False, cap_externalSideEffects = False, cap_secretExposure = False,
     recipeBound = False, executableBound = False,
     description = ''bypass path, recipe, signer, policy or resource controls''\<rparr>]"

definition SANDBOX_CAPABILITIES :: "capability_spec list" where
  "SANDBOX_CAPABILITIES =
     DELEGATED_SAFE_CAPABILITIES @ OWNER_APPROVABLE_CAPABILITIES @ ABSOLUTE_DENIAL_CAPABILITIES"

text \<open>A later entry of the \<open>Map\<close> constructor's list replaces an earlier one of the same key.\<close>

definition capabilitySpec :: "string \<Rightarrow> capability_spec option" where
  "capabilitySpec i = map_of (rev (map (\<lambda>spec. (cap_id spec, spec)) SANDBOX_CAPABILITIES)) i"

definition POLICY_INTERACTION_IDS :: "string list" where
  "POLICY_INTERACTION_IDS =
     [''authorization_policy_modification'', ''trusted_key_configuration_modification'']"

definition SAFEGUARD_INTERACTION_IDS :: "string list" where
  "SAFEGUARD_INTERACTION_IDS =
     [''safeguard_weakening'', ''controls_bypass'', ''audit_log_concealment_tampering'']"

section \<open>Classification\<close>

text \<open>\<open>None\<close> as the capability class is the code's "unknown".\<close>

record operation_facts =
  f_capabilityId :: string
  f_capabilityClass :: "capability_class option"
  f_intent :: "path_intent option"
  f_pathClass :: protected_path_class
  f_pathMalformed :: bool
  f_pathRequired :: bool
  f_risk :: risk_class
  f_secretExposure :: bool
  f_networkRequired :: bool
  f_externalSideEffects :: bool
  f_policyInteraction :: bool
  f_safeguardInteraction :: bool
  f_liveCheckoutInteraction :: bool
  f_absoluteDenialCondition :: bool
  f_reason :: string

record classify_input =
  ci_capabilityId :: string
  ci_intent :: "path_intent option"
  ci_targetPath :: "string option"
  ci_protectedRoots :: "protected_roots_config option"
  ci_modelRiskLabel :: "risk_class option"
  ci_networkRequired :: "bool option"
  ci_externalSideEffects :: "bool option"

fun class_name :: "capability_class \<Rightarrow> string" where
  "class_name Class_delegated_safe = ''delegated_safe''"
| "class_name Class_owner_approvable = ''owner_approvable''"
| "class_name Class_absolute_denial = ''absolute_denial''"

text \<open>\<open>pathMalformed\<close> and \<open>pathClass\<close>; a missing target is neither malformed nor protected.\<close>

fun target_malformed :: "string option \<Rightarrow> bool" where
  "target_malformed None = False"
| "target_malformed (Some t) = (\<not> isCanonicalForm t)"

fun target_class :: "protected_roots_config \<Rightarrow> string option \<Rightarrow> protected_path_class" where
  "target_class roots None = Path_none"
| "target_class roots (Some t) =
     (if \<not> target_malformed (Some t) then classifyProtectedPath roots t else Path_none)"

fun is_class :: "protected_root_class \<Rightarrow> protected_path_class \<Rightarrow> bool" where
  "is_class cls Path_none = False"
| "is_class cls (Path_class c root) = (c = cls)"

text \<open>The chain of assignments to \<open>authoritativeRiskClass\<close>, before the model's label.\<close>

definition authoritative_risk ::
  "capability_spec \<Rightarrow> path_intent option \<Rightarrow> bool \<Rightarrow> bool \<Rightarrow> bool \<Rightarrow> bool \<Rightarrow> bool \<Rightarrow> risk_class" where
  "authoritative_risk spec intent networkRequired externalSideEffects liveCheckoutInteraction
       pathSecretExposure pathMalformed =
     (let risk0 = intrinsicRisk spec;
          risk1 = (if cap_class spec = Class_owner_approvable then Risk_consultation else risk0);
          risk2 = (if networkRequired then Risk_high else risk1);
          risk3 = (if externalSideEffects then Risk_consultation else risk2);
          risk4 = (if (intent = Some Intent_write \<or> intent = Some Intent_delete) \<and>
                      liveCheckoutInteraction then Risk_consultation else risk3)
      in if cap_class spec = Class_absolute_denial \<or> pathSecretExposure \<or> pathMalformed
         then Risk_high else risk4)"

definition classifySandboxOperation :: "classify_input \<Rightarrow> operation_facts" where
  "classifySandboxOperation i =
     (case capabilitySpec (ci_capabilityId i) of
        None \<Rightarrow>
          \<lparr>f_capabilityId = ci_capabilityId i, f_capabilityClass = None, f_intent = ci_intent i,
           f_pathClass = Path_none, f_pathMalformed = False, f_pathRequired = False,
           f_risk = Risk_high, f_secretExposure = False, f_networkRequired = False,
           f_externalSideEffects = False, f_policyInteraction = False,
           f_safeguardInteraction = False, f_liveCheckoutInteraction = False,
           f_absoluteDenialCondition = False, f_reason = ''unknown_capability''\<rparr>
      | Some spec \<Rightarrow>
          let protectedRoots =
                (case ci_protectedRoots i of
                   None \<Rightarrow> \<lparr>delegatedWriteDeniedOwnerApprovable = [], absoluteDenial = []\<rparr>
                 | Some c \<Rightarrow> c);
              pathMalformed = target_malformed (ci_targetPath i);
              pathClass = target_class protectedRoots (ci_targetPath i);
              pathRequired = (length (allowedIntents spec) > 0 \<and> ci_targetPath i = None);
              pathSecretExposure = is_class Root_absolute_denial pathClass;
              secretExposure = (cap_secretExposure spec \<or> pathSecretExposure);
              networkRequired = (cap_networkRequired spec \<or> ci_networkRequired i = Some True);
              externalSideEffects =
                (cap_externalSideEffects spec \<or> ci_externalSideEffects i = Some True);
              liveCheckoutInteraction =
                is_class Root_delegated_write_denied_owner_approvable pathClass;
              base = authoritative_risk spec (ci_intent i) networkRequired externalSideEffects
                liveCheckoutInteraction pathSecretExposure pathMalformed;
              risk = maxRisk base (case ci_modelRiskLabel i of None \<Rightarrow> base | Some l \<Rightarrow> l)
          in \<lparr>f_capabilityId = cap_id spec, f_capabilityClass = Some (cap_class spec),
              f_intent = ci_intent i, f_pathClass = pathClass, f_pathMalformed = pathMalformed,
              f_pathRequired = pathRequired, f_risk = risk, f_secretExposure = secretExposure,
              f_networkRequired = networkRequired, f_externalSideEffects = externalSideEffects,
              f_policyInteraction = List.member POLICY_INTERACTION_IDS (cap_id spec),
              f_safeguardInteraction = List.member SAFEGUARD_INTERACTION_IDS (cap_id spec),
              f_liveCheckoutInteraction = liveCheckoutInteraction,
              f_absoluteDenialCondition =
                (cap_class spec = Class_absolute_denial \<or> pathSecretExposure),
              f_reason = class_name (cap_class spec)\<rparr>)"

section \<open>The registry as a table\<close>

lemma SANDBOX_CAPABILITIES_ids: "map cap_id SANDBOX_CAPABILITIES = sandbox_capability_ids"
  by code_simp

lemma distinct_capability_ids: "distinct sandbox_capability_ids"
  by code_simp

lemma capabilitySpec_eq_Some:
  "capabilitySpec i = Some spec \<longleftrightarrow> spec \<in> set SANDBOX_CAPABILITIES \<and> cap_id spec = i"
proof -
  let ?kvs = "rev (map (\<lambda>spec. (cap_id spec, spec)) SANDBOX_CAPABILITIES)"
  have "map fst ?kvs = rev sandbox_capability_ids"
    by (simp add: SANDBOX_CAPABILITIES_ids [symmetric] rev_map o_def)
  then have "distinct (map fst ?kvs)"
    by (simp only: distinct_rev distinct_capability_ids)
  then have "capabilitySpec i = Some spec \<longleftrightarrow> (i, spec) \<in> set ?kvs"
    unfolding capabilitySpec_def by (rule map_of_eq_Some_iff)
  then show ?thesis by auto
qed

lemma capabilitySpec_None_iff: "capabilitySpec i = None \<longleftrightarrow> i \<notin> set sandbox_capability_ids"
proof -
  have "capabilitySpec i = None \<longleftrightarrow> (\<forall>spec \<in> set SANDBOX_CAPABILITIES. cap_id spec \<noteq> i)"
    using capabilitySpec_eq_Some [of i] by (cases "capabilitySpec i") auto
  also have "\<dots> \<longleftrightarrow> i \<notin> set (map cap_id SANDBOX_CAPABILITIES)"
    by auto
  finally show ?thesis
    by (simp only: SANDBOX_CAPABILITIES_ids)
qed

lemma capabilitySpec_id: "capabilitySpec i = Some spec \<Longrightarrow> cap_id spec = i"
  by (simp add: capabilitySpec_eq_Some)

text \<open>A law of the whole table, decided by evaluation over its entries.\<close>

definition spec_law :: "capability_spec \<Rightarrow> bool" where
  "spec_law s \<longleftrightarrow>
     (cap_class s = Class_delegated_safe \<longrightarrow>
        \<not> cap_networkRequired s \<and> \<not> cap_externalSideEffects s \<and> \<not> cap_secretExposure s \<and>
        (recipeBound s \<or> executableBound s \<longrightarrow> allowedIntents s = []) \<and>
        intrinsicRisk s \<le> Risk_medium) \<and>
     (cap_class s \<noteq> Class_delegated_safe \<longrightarrow>
        \<not> recipeBound s \<and> \<not> executableBound s \<and> Risk_high \<le> intrinsicRisk s)"

lemma registry_laws: "list_all spec_law SANDBOX_CAPABILITIES"
  by code_simp

lemma capabilitySpec_law: "capabilitySpec i = Some spec \<Longrightarrow> spec_law spec"
  using registry_laws by (auto simp: capabilitySpec_eq_Some list_all_iff)

section \<open>The fields of a classification\<close>

lemma target_malformed_iff: "target_malformed t \<longleftrightarrow> (\<exists>p. t = Some p \<and> \<not> isCanonicalForm p)"
  by (cases t) auto

lemma isWithinAny_canonical: "isWithinAny roots t \<Longrightarrow> isCanonicalForm t"
  by (auto simp: isWithinAny_iff dest: posix.inside_canon)

lemma is_class_absolute:
  "is_class Root_absolute_denial (target_class c t) \<longleftrightarrow>
     (\<exists>p. t = Some p \<and> isWithinAny (absoluteDenial c) p)"
proof (cases t)
  case (Some p)
  have "is_class Root_absolute_denial cls \<longleftrightarrow> (\<exists>r. cls = Path_class Root_absolute_denial r)" for cls
    by (cases cls) auto
  then show ?thesis
    using Some isWithinAny_canonical [of "absoluteDenial c" p] classify_absolute_iff [of c p] by auto
qed simp

lemma classify_known:
  assumes "capabilitySpec (ci_capabilityId i) = Some spec"
  shows "f_capabilityId (classifySandboxOperation i) = cap_id spec"
    and "f_capabilityClass (classifySandboxOperation i) = Some (cap_class spec)"
    and "f_pathMalformed (classifySandboxOperation i) \<longleftrightarrow> target_malformed (ci_targetPath i)"
    and "f_pathRequired (classifySandboxOperation i) \<longleftrightarrow>
      allowedIntents spec \<noteq> [] \<and> ci_targetPath i = None"
    and "f_networkRequired (classifySandboxOperation i) \<longleftrightarrow>
      cap_networkRequired spec \<or> ci_networkRequired i = Some True"
    and "f_externalSideEffects (classifySandboxOperation i) \<longleftrightarrow>
      cap_externalSideEffects spec \<or> ci_externalSideEffects i = Some True"
  using assms by (simp_all add: classifySandboxOperation_def Let_def)

lemma classify_absolute:
  assumes "capabilitySpec (ci_capabilityId i) = Some spec" and "ci_protectedRoots i = Some c"
  shows "f_absoluteDenialCondition (classifySandboxOperation i) \<longleftrightarrow>
     cap_class spec = Class_absolute_denial \<or>
     (\<exists>t. ci_targetPath i = Some t \<and> isWithinAny (absoluteDenial c) t)"
  using assms by (simp add: classifySandboxOperation_def Let_def is_class_absolute)

lemma classify_unknown:
  "capabilitySpec (ci_capabilityId i) = None \<Longrightarrow>
     f_capabilityClass (classifySandboxOperation i) = None \<and>
     \<not> f_absoluteDenialCondition (classifySandboxOperation i)"
  by (simp add: classifySandboxOperation_def)

section \<open>Properties\<close>

text \<open>
  The registry is exactly the closed capability vocabulary: every identifier of
  \<open>SandboxCapabilityId\<close> has one specification, registered under its own identifier, and no
  other string has any. No delegated-safe capability needs the network, has external side
  effects or exposes secrets, and everything above it is at least high risk.
\<close>

theorem capability_registry_closed:
  "(capabilitySpec i \<noteq> None \<longleftrightarrow> i \<in> set sandbox_capability_ids) \<and>
   (\<forall>spec. capabilitySpec i = Some spec \<longrightarrow> cap_id spec = i \<and> spec_law spec)"
  using capabilitySpec_None_iff [of i] capabilitySpec_id [of i] capabilitySpec_law [of i]
  by metis

theorem capability_registry_closed_witness:
  "capabilitySpec ''deployment'' \<noteq> None \<and> capabilitySpec ''sudo'' = None"
proof -
  have "''deployment'' \<in> set sandbox_capability_ids \<and> ''sudo'' \<notin> set sandbox_capability_ids"
    by code_simp
  with capability_registry_closed [of "''deployment''"] capability_registry_closed [of "''sudo''"]
  show ?thesis by blast
qed

text \<open>
  The model's risk label is advisory: supplying one changes no field of the
  classification but the risk, and the risk becomes the maximum of the label and the
  authoritative risk, so a label can raise it and never lower it (an unknown capability
  stays high whatever the label).
\<close>

theorem model_label_only_raises:
  "classifySandboxOperation (i\<lparr>ci_modelRiskLabel := Some l\<rparr>) =
     (let base = classifySandboxOperation (i\<lparr>ci_modelRiskLabel := None\<rparr>)
      in base\<lparr>f_risk := (if capabilitySpec (ci_capabilityId i) = None then f_risk base
                        else max (f_risk base) l)\<rparr>)"
  by (cases "capabilitySpec (ci_capabilityId i)")
    (simp_all add: classifySandboxOperation_def Let_def maxRisk_max)

end
