(* ===== verification/Js_Regex.thy ===== *)
theory Js_Regex
  imports Prelude
begin

text \<open>
  The fragment of JavaScript regular expressions the sources test strings with: classes,
  sequences, alternatives, optional parts, stars and counted repetitions, without
  look-around or back references. \<open>rx_rests r s\<close> lists what is left of \<open>s\<close> after each
  prefix that \<open>r\<close> matches; \<open>rx_test r s\<close> is \<open>r.test(s)\<close> for a pattern with no
  anchors, \<open>rx_full r s\<close> the same for a pattern written between a caret and a dollar.
  Both are related to the language of the expression below.
\<close>

section \<open>Expressions and matching\<close>

datatype rx =
    Rx_eps
  | Rx_class "char \<Rightarrow> bool"
  | Rx_seq rx rx
  | Rx_alt rx rx
  | Rx_star rx

function (sequential)
  rx_rests :: "rx \<Rightarrow> string \<Rightarrow> string list" and
  rx_each :: "rx \<Rightarrow> nat \<Rightarrow> string list \<Rightarrow> string list" and
  rx_more :: "rx \<Rightarrow> nat \<Rightarrow> string list \<Rightarrow> string list"
where
  "rx_rests Rx_eps s = [s]"
| "rx_rests (Rx_class p) [] = []"
| "rx_rests (Rx_class p) (c # cs) = (if p c then [cs] else [])"
| "rx_rests (Rx_seq r1 r2) s = rx_each r2 (length s) (rx_rests r1 s)"
| "rx_rests (Rx_alt r1 r2) s = rx_rests r1 s @ rx_rests r2 s"
| "rx_rests (Rx_star r) s = s # rx_more (Rx_star r) (length s) (rx_rests r s)"
| "rx_each r n [] = []"
| "rx_each r n (t # ts) = (if length t \<le> n then rx_rests r t else []) @ rx_each r n ts"
| "rx_more r n [] = []"
| "rx_more r n (t # ts) = (if length t < n then rx_rests r t else []) @ rx_more r n ts"
  by pat_completeness auto
termination
  by (relation "measures
      [\<lambda>x. case x of Inl (r, s) \<Rightarrow> 2 * length s + 1
         | Inr (Inl (r, n, ts)) \<Rightarrow> 2 * n + 1 | Inr (Inr (r, n, ts)) \<Rightarrow> 2 * n,
       \<lambda>x. case x of Inl (r, s) \<Rightarrow> size r
         | Inr (Inl (r, n, ts)) \<Rightarrow> size r | Inr (Inr (r, n, ts)) \<Rightarrow> size r,
       \<lambda>x. case x of Inl (r, s) \<Rightarrow> 0
         | Inr (Inl (r, n, ts)) \<Rightarrow> Suc (length ts) | Inr (Inr (r, n, ts)) \<Rightarrow> Suc (length ts)]")
    (auto simp: le_eq_less_or_eq)

text \<open>
  The bounds in \<open>rx_each\<close> and \<open>rx_more\<close> only serve termination: what a prefix leaves is
  never longer than the string, and a star's further rounds that consume nothing add nothing.
\<close>

fun rx_test :: "rx \<Rightarrow> string \<Rightarrow> bool" where
  "rx_test r [] = (rx_rests r [] \<noteq> [])"
| "rx_test r (c # cs) = (rx_rests r (c # cs) \<noteq> [] \<or> rx_test r cs)"

definition rx_full :: "rx \<Rightarrow> string \<Rightarrow> bool" where
  "rx_full r s \<longleftrightarrow> list_ex (\<lambda>t. t = []) (rx_rests r s)"

declare rx_rests.simps(6) [simp del]

section \<open>Building expressions\<close>

fun rx_str :: "string \<Rightarrow> rx" where
  "rx_str [] = Rx_eps"
| "rx_str (c # cs) = Rx_seq (Rx_class (\<lambda>d. d = c)) (rx_str cs)"

fun rx_alts :: "rx \<Rightarrow> rx list \<Rightarrow> rx" where
  "rx_alts r [] = r"
| "rx_alts r (q # qs) = Rx_alt r (rx_alts q qs)"

fun rx_seqs :: "rx list \<Rightarrow> rx" where
  "rx_seqs [] = Rx_eps"
| "rx_seqs (r # rs) = Rx_seq r (rx_seqs rs)"

definition rx_opt :: "rx \<Rightarrow> rx" where
  "rx_opt r = Rx_alt r Rx_eps"

fun rx_times :: "nat \<Rightarrow> rx \<Rightarrow> rx" where
  "rx_times 0 r = Rx_eps"
| "rx_times (Suc n) r = Rx_seq r (rx_times n r)"

definition rx_at_least :: "nat \<Rightarrow> rx \<Rightarrow> rx" where
  "rx_at_least n r = Rx_seq (rx_times n r) (Rx_star r)"

definition in_range :: "char \<Rightarrow> char \<Rightarrow> char \<Rightarrow> bool" where
  "in_range a b c \<longleftrightarrow> (of_char a :: nat) \<le> of_char c \<and> (of_char c :: nat) \<le> of_char b"

text \<open>
  The flag \<open>i\<close> for patterns over ASCII: a character matches a class when it or its
  counterpart of the other case is in it.
\<close>

definition ascii_swap :: "char \<Rightarrow> char" where
  "ascii_swap c = (if in_range (CHR ''a'') (CHR ''z'') c then char_of ((of_char c :: nat) - 32)
     else if in_range (CHR ''A'') (CHR ''Z'') c then char_of ((of_char c :: nat) + 32) else c)"

fun rx_ci :: "rx \<Rightarrow> rx" where
  "rx_ci Rx_eps = Rx_eps"
| "rx_ci (Rx_class p) = Rx_class (\<lambda>c. p c \<or> p (ascii_swap c))"
| "rx_ci (Rx_seq r q) = Rx_seq (rx_ci r) (rx_ci q)"
| "rx_ci (Rx_alt r q) = Rx_alt (rx_ci r) (rx_ci q)"
| "rx_ci (Rx_star r) = Rx_star (rx_ci r)"

section \<open>The language of an expression\<close>

inductive rx_lang :: "rx \<Rightarrow> string \<Rightarrow> bool" where
  lang_eps: "rx_lang Rx_eps []"
| lang_class: "p c \<Longrightarrow> rx_lang (Rx_class p) [c]"
| lang_seq: "rx_lang r u \<Longrightarrow> rx_lang q v \<Longrightarrow> rx_lang (Rx_seq r q) (u @ v)"
| lang_alt1: "rx_lang r u \<Longrightarrow> rx_lang (Rx_alt r q) u"
| lang_alt2: "rx_lang q u \<Longrightarrow> rx_lang (Rx_alt r q) u"
| lang_star0: "rx_lang (Rx_star r) []"
| lang_star1: "rx_lang r u \<Longrightarrow> rx_lang (Rx_star r) v \<Longrightarrow> rx_lang (Rx_star r) (u @ v)"

inductive_cases rx_lang_elims:
  "rx_lang Rx_eps u"
  "rx_lang (Rx_class p) u"
  "rx_lang (Rx_seq r q) u"
  "rx_lang (Rx_alt r q) u"

lemma set_rx_each:
  "t \<in> set (rx_each r n ts) \<longleftrightarrow> (\<exists>m \<in> set ts. length m \<le> n \<and> t \<in> set (rx_rests r m))"
  by (induction ts) auto

lemma set_rx_more:
  "t \<in> set (rx_more r n ts) \<longleftrightarrow> (\<exists>m \<in> set ts. length m < n \<and> t \<in> set (rx_rests r m))"
  by (induction ts) auto

lemma rx_rests_star_sound:
  assumes "\<And>s t. t \<in> set (rx_rests r s) \<Longrightarrow> \<exists>u. s = u @ t \<and> rx_lang r u"
  shows "t \<in> set (rx_rests (Rx_star r) s) \<Longrightarrow> \<exists>u. s = u @ t \<and> rx_lang (Rx_star r) u"
proof (induction s rule: length_induct)
  case (1 s)
  show ?case
  proof (cases "t = s")
    case True
    then show ?thesis by (auto intro: lang_star0)
  next
    case False
    with "1.prems" obtain m where m: "m \<in> set (rx_rests r s)" "length m < length s"
      "t \<in> set (rx_rests (Rx_star r) m)"
      by (subst (asm) rx_rests.simps) (auto simp: set_rx_more)
    from assms [OF m(1)] obtain u where u: "s = u @ m" "rx_lang r u" by blast
    from "1.IH" m obtain v where v: "m = v @ t" "rx_lang (Rx_star r) v" by blast
    have "s = (u @ v) @ t" "rx_lang (Rx_star r) (u @ v)"
      using u v by (auto intro: lang_star1)
    then show ?thesis by blast
  qed
qed

lemma rx_rests_sound: "t \<in> set (rx_rests r s) \<Longrightarrow> \<exists>u. s = u @ t \<and> rx_lang r u"
proof (induction r arbitrary: s t)
  case (Rx_class p)
  then show ?case by (cases s) (auto intro: lang_class split: if_splits)
next
  case (Rx_seq r1 r2)
  then obtain m where m: "m \<in> set (rx_rests r1 s)" "t \<in> set (rx_rests r2 m)"
    by (auto simp: set_rx_each)
  from Rx_seq.IH(1) [OF m(1)] obtain u where u: "s = u @ m" "rx_lang r1 u" by blast
  from Rx_seq.IH(2) [OF m(2)] obtain v where v: "m = v @ t" "rx_lang r2 v" by blast
  from u v have "s = (u @ v) @ t" "rx_lang (Rx_seq r1 r2) (u @ v)"
    by (auto intro: lang_seq)
  then show ?case by blast
next
  case (Rx_alt r1 r2)
  then have "(\<exists>u. s = u @ t \<and> rx_lang r1 u) \<or> (\<exists>u. s = u @ t \<and> rx_lang r2 u)"
    by auto
  then show ?case by (blast intro: lang_alt1 lang_alt2)
next
  case (Rx_star r)
  then show ?case by (intro rx_rests_star_sound)
qed (auto intro: rx_lang.intros)

lemma rx_rests_complete: "rx_lang r u \<Longrightarrow> t \<in> set (rx_rests r (u @ t))"
proof (induction arbitrary: t rule: rx_lang.induct)
  case (lang_seq r u q v)
  from lang_seq.IH(1) [of "v @ t"] lang_seq.IH(2) [of t] show ?case
    by (auto simp: set_rx_each intro!: bexI [of _ "v @ t"])
next
  case (lang_star0 r)
  show ?case by (subst rx_rests.simps) simp
next
  case (lang_star1 r u v)
  show ?case
  proof (cases "u = []")
    case True
    with lang_star1.IH(2) show ?thesis by simp
  next
    case False
    with lang_star1.IH(1) [of "v @ t"] lang_star1.IH(2) [of t] show ?thesis
      by (subst rx_rests.simps) (auto simp: set_rx_more intro!: bexI [of _ "v @ t"])
  qed
qed simp_all

lemma rx_rests_iff: "t \<in> set (rx_rests r s) \<longleftrightarrow> (\<exists>u. s = u @ t \<and> rx_lang r u)"
  using rx_rests_sound rx_rests_complete by blast

lemma rx_full_iff: "rx_full r s \<longleftrightarrow> rx_lang r s"
proof -
  have "rx_full r s \<longleftrightarrow> [] \<in> set (rx_rests r s)"
    by (auto simp: rx_full_def list_ex_iff)
  then show ?thesis by (simp add: rx_rests_iff)
qed

lemma rx_test_iff: "rx_test r s \<longleftrightarrow> (\<exists>a u b. s = a @ u @ b \<and> rx_lang r u)"
proof (induction s)
  case Nil
  show ?case by (auto simp: ex_in_conv [symmetric] set_empty [symmetric] rx_rests_iff
      simp del: set_empty)
next
  case (Cons c cs)
  have hd: "rx_rests r (c # cs) \<noteq> [] \<longleftrightarrow> (\<exists>u b. c # cs = u @ b \<and> rx_lang r u)"
    by (auto simp: ex_in_conv [symmetric] set_empty [symmetric] rx_rests_iff simp del: set_empty)
  have "(\<exists>a u b. c # cs = a @ u @ b \<and> rx_lang r u) \<longleftrightarrow>
      (\<exists>u b. c # cs = u @ b \<and> rx_lang r u) \<or> (\<exists>a u b. cs = a @ u @ b \<and> rx_lang r u)"
    by (metis append_Cons append_Nil list.sel(3) neq_Nil_conv)
  with Cons hd show ?case by simp
qed

lemma rx_lang_star_class:
  "rx_lang (Rx_star (Rx_class p)) u \<longleftrightarrow> list_all p u"
proof
  show "rx_lang (Rx_star (Rx_class p)) u \<Longrightarrow> list_all p u"
    by (induction "Rx_star (Rx_class p)" u rule: rx_lang.induct) (auto elim: rx_lang_elims(2))
next
  show "list_all p u \<Longrightarrow> rx_lang (Rx_star (Rx_class p)) u"
  proof (induction u)
    case (Cons c cs)
    then have "rx_lang (Rx_star (Rx_class p)) ([c] @ cs)"
      by (intro lang_star1 lang_class) auto
    then show ?case by simp
  qed (rule lang_star0)
qed

lemma rx_lang_str: "rx_lang (rx_str w) u \<longleftrightarrow> u = w"
proof (induction w arbitrary: u)
  case Nil
  show ?case by (auto elim: rx_lang_elims intro: lang_eps)
next
  case (Cons c w)
  have "rx_lang (Rx_class (\<lambda>d. d = c)) [c]" by (rule lang_class) simp
  from lang_seq [OF this, of "rx_str w" w] Cons have "rx_lang (rx_str (c # w)) (c # w)" by simp
  moreover have "rx_lang (rx_str (c # w)) u \<Longrightarrow> u = c # w"
    unfolding rx_str.simps by (erule rx_lang_elims(3), erule rx_lang_elims(2)) (simp add: Cons)
  ultimately show ?case by blast
qed

end
