(* ===== verification/Policy_Schema.thy ===== *)
theory Policy_Schema
  imports Sandbox_Classify Js_Regex
begin

text \<open>
  Structural validation of a delegated sandbox policy,
  \<^verbatim>\<open>apps/sandbox-policy/src/policy-schema.ts\<close>. The document is an unknown
  JavaScript value. \<open>Date.parse\<close>, whose reading of non-ISO strings is left to the engine,
  is the parameter \<open>dp\<close> (\<open>None\<close> for NaN). The reasons are collected in the order the
  code pushes them; the two overlap checks read properties of the entries and throw on an
  entry that is \<open>null\<close>.
\<close>

section \<open>Policy documents\<close>

record resource_ceilings =
  wallMsMax :: int
  maxProcesses :: int
  maxOutputBytes :: int
  workspaceBytesMax :: int

datatype network_mode = Net_none | Net_networked

record policy_document =
  policyId :: string
  policyVersion :: int
  issuedAt :: string
  expiresAt :: "string option"
  allowedDelegatedSignerKeyIds :: "string list"
  allowedCapabilities :: "string list"
  sessionRoles :: "string list option"
  readOnlyRoots :: "string list"
  writableDisposableRoots :: "string list"
  protectedRoots :: "(string \<times> protected_root_class) list"
  allowedRecipeIds :: "string list"
  allowedExecutableIds :: "string list"
  resourceCeilings :: resource_ceilings
  networkMode :: network_mode
  maxActiveSessions :: int

section \<open>Value checks\<close>

fun isRecord :: "js_value \<Rightarrow> bool" where
  "isRecord (JObj fs) = True"
| "isRecord (JArr vs) = True"
| "isRecord _ = False"

fun isNonEmptyString :: "js_value \<Rightarrow> bool" where
  "isNonEmptyString (JStr s) = (length s > 0)"
| "isNonEmptyString _ = False"

definition isValidIso :: "(string \<Rightarrow> int option) \<Rightarrow> js_value \<Rightarrow> bool" where
  "isValidIso dp v \<longleftrightarrow> isNonEmptyString v \<and> dp (the_str v) \<noteq> None"

definition uniqueStrings :: "js_value \<Rightarrow> bool" where
  "uniqueStrings v \<longleftrightarrow>
     is_arr v \<and> list_all isNonEmptyString (the_arr v) \<and>
     length (js_uniq (the_arr v)) = length (the_arr v)"

fun isPositiveInteger :: "js_value \<Rightarrow> bool" where
  "isPositiveInteger (JNum (NInt i)) = (i \<ge> 1)"
| "isPositiveInteger _ = False"

fun isNonNegativeInteger :: "js_value \<Rightarrow> bool" where
  "isNonNegativeInteger (JNum (NInt i)) = (i \<ge> 0)"
| "isNonNegativeInteger _ = False"

definition canonicalRoots :: "js_value \<Rightarrow> bool" where
  "canonicalRoots v \<longleftrightarrow>
     is_arr v \<and> list_all is_str (the_arr v) \<and>
     list_all (\<lambda>w. (case canonicalizePath (the_str w) of Inl _ \<Rightarrow> False | Inr _ \<Rightarrow> True) \<and>
       isCanonicalForm (the_str w)) (the_arr v)"

text \<open>\<open>isWithin\<close> on unknown values: its \<open>typeof\<close> guards fail closed.\<close>

definition isWithin_value :: "js_value \<Rightarrow> js_value \<Rightarrow> bool" where
  "isWithin_value r t \<longleftrightarrow> is_str r \<and> is_str t \<and> isWithin (the_str r) (the_str t)"

definition upper_digit_space :: "char \<Rightarrow> bool" where
  "upper_digit_space c \<longleftrightarrow> in_range (CHR ''A'') (CHR ''Z'') c \<or> in_range (CHR ''0'') (CHR ''9'') c \<or>
     c = CHR '' ''"

definition PRIVATE_KEY_MARKER :: rx where
  "PRIVATE_KEY_MARKER = rx_seqs [rx_str ''-----BEGIN '', Rx_star (Rx_class upper_digit_space),
     rx_str ''PRIVATE KEY-----'']"

definition base64_char :: "char \<Rightarrow> bool" where
  "base64_char c \<longleftrightarrow> in_range (CHR ''A'') (CHR ''Z'') c \<or> in_range (CHR ''a'') (CHR ''z'') c \<or>
     in_range (CHR ''0'') (CHR ''9'') c \<or> List.member ''+/=_-'' c"

definition looksLikeKeyMaterial :: "string \<Rightarrow> bool" where
  "looksLikeKeyMaterial s \<longleftrightarrow>
     rx_test PRIVATE_KEY_MARKER s \<or> length s > 200 \<and> list_all base64_char s"

section \<open>Validation\<close>

definition reason_if :: "bool \<Rightarrow> string \<Rightarrow> string list" where
  "reason_if b r = (if b then [r] else [])"

fun capability_reasons :: "string list \<Rightarrow> js_value list \<Rightarrow> string list" where
  "capability_reasons seen [] = []"
| "capability_reasons seen (entry # rest) =
     (if \<not> is_str entry \<or> capabilitySpec (the_str entry) = None
      then [''unknown_capability:'' @ js_String entry]
      else reason_if (List.member seen (the_str entry)) (''duplicate_capability:'' @ the_str entry)) @
     capability_reasons (js_String entry # seen) rest"

fun valid_root_class :: "js_value \<Rightarrow> bool" where
  "valid_root_class (JStr s) =
     (s = ''delegated_write_denied_owner_approvable'' \<or> s = ''absolute_denial'')"
| "valid_root_class _ = False"

fun protected_root_reasons :: "string list \<Rightarrow> js_value list \<Rightarrow> string list" where
  "protected_root_reasons seen [] = []"
| "protected_root_reasons seen (entry # rest) =
     (if \<not> isRecord entry then ''protected_root_must_be_object'' # protected_root_reasons seen rest
      else let path = js_prop entry ''path''; cls = js_prop entry ''class'' in
        if \<not> is_str path then ''protected_root_path_required'' # protected_root_reasons seen rest
        else (case canonicalizePath (the_str path) of
            Inl _ \<Rightarrow> (''protected_root_not_canonical:'' @ the_str path) # protected_root_reasons seen rest
          | Inr canonical \<Rightarrow>
              if \<not> isCanonicalForm (the_str path)
              then (''protected_root_not_canonical:'' @ the_str path) # protected_root_reasons seen rest
              else if \<not> valid_root_class cls
              then (''protected_root_invalid_class:'' @ js_String cls) # protected_root_reasons seen rest
              else reason_if (List.member seen canonical) (''duplicate_protected_root:'' @ canonical) @
                protected_root_reasons (canonical # seen) rest))"

definition ceiling_reasons :: "js_value \<Rightarrow> string list" where
  "ceiling_reasons c =
     (if \<not> isRecord c then [''resource_ceilings_required'']
      else reason_if (\<not> isPositiveInteger (js_prop c ''wallMsMax'')) ''wall_ms_max_required'' @
        reason_if (\<not> isPositiveInteger (js_prop c ''maxProcesses'')) ''max_processes_required'' @
        reason_if (\<not> isNonNegativeInteger (js_prop c ''maxOutputBytes'')) ''max_output_bytes_required'' @
        reason_if (\<not> isPositiveInteger (js_prop c ''workspaceBytesMax''))
          ''workspace_bytes_max_required'')"

text \<open>\<open>filter\<close> and \<open>map\<close> over the entries, reading \<open>class\<close> and \<open>path\<close> of each.\<close>

fun protected_paths :: "(js_value \<Rightarrow> bool) \<Rightarrow> js_value list \<Rightarrow> js_value list throws" where
  "protected_paths keep [] = Inr []"
| "protected_paths keep (entry # rest) =
     and_then (js_read entry ''class'') (\<lambda>cls.
     and_then (js_read entry ''path'') (\<lambda>path.
     and_then (protected_paths keep rest) (\<lambda>paths.
       Inr (if keep cls then path # paths else paths))))"

definition overlap_reasons :: "string \<Rightarrow> js_value list \<Rightarrow> js_value list \<Rightarrow> string list" where
  "overlap_reasons tag roots denied =
     concat (map (\<lambda>root. concat (map (\<lambda>d.
       reason_if (isWithin_value root d \<or> isWithin_value d root)
         (tag @ '':'' @ js_String root @ '':'' @ js_String d)) denied)) roots)"

definition overlap_check ::
  "string \<Rightarrow> (js_value \<Rightarrow> bool) \<Rightarrow> js_value \<Rightarrow> js_value \<Rightarrow> string list throws" where
  "overlap_check tag keep roots prs =
     (if canonicalRoots roots \<and> is_arr prs
      then and_then (protected_paths keep (the_arr prs)) (\<lambda>paths.
        Inr (overlap_reasons tag (the_arr roots) paths))
      else Inr [])"

definition field_reasons :: "(string \<Rightarrow> int option) \<Rightarrow> js_value \<Rightarrow> string list" where
  "field_reasons dp v =
     (let f = js_prop v in
      reason_if (f ''payloadVersion'' \<noteq> JNum (NInt 1))
        (''unsupported_payload_version:'' @ js_String (f ''payloadVersion'') @ '':expected:1'') @
      reason_if (\<not> isNonEmptyString (f ''policyId'')) ''policy_id_required'' @
      reason_if (\<not> isPositiveInteger (f ''policyVersion'')) ''policy_version_required'' @
      reason_if (\<not> isValidIso dp (f ''issuedAt'')) ''issued_at_required'' @
      reason_if (f ''expiresAt'' \<noteq> JUndefined \<and> \<not> isValidIso dp (f ''expiresAt''))
        ''expires_at_invalid'' @
      reason_if (isValidIso dp (f ''issuedAt'') \<and> isValidIso dp (f ''expiresAt'') \<and>
          the (dp (the_str (f ''expiresAt''))) \<le> the (dp (the_str (f ''issuedAt''))))
        ''expires_at_must_exceed_issued_at'' @
      reason_if (\<not> uniqueStrings (f ''allowedDelegatedSignerKeyIds''))
        ''delegated_signer_key_ids_must_be_unique_nonempty'' @
      reason_if (\<not> uniqueStrings (f ''allowedRecipeIds'')) ''recipe_ids_must_be_unique_nonempty'' @
      (if f ''sessionRoles'' \<noteq> JUndefined then
         (if \<not> uniqueStrings (f ''sessionRoles'') then [''session_roles_must_be_unique_nonempty'']
          else reason_if (list_ex (\<lambda>r. length (the_str r) = 0 \<or> length (the_str r) > 64)
            (the_arr (f ''sessionRoles''))) ''session_role_out_of_bounds'')
       else []) @
      reason_if (\<not> uniqueStrings (f ''allowedExecutableIds''))
        ''executable_ids_must_be_unique_nonempty'' @
      (if \<not> is_arr (f ''allowedCapabilities'') then [''allowed_capabilities_required'']
       else if length (the_arr (f ''allowedCapabilities'')) = 0
       then [''allowed_capabilities_must_not_be_empty'']
       else capability_reasons [] (the_arr (f ''allowedCapabilities''))) @
      reason_if (\<not> canonicalRoots (f ''readOnlyRoots'')) ''read_only_roots_must_be_canonical_absolute'' @
      reason_if (\<not> canonicalRoots (f ''writableDisposableRoots''))
        ''writable_disposable_roots_must_be_canonical_absolute'' @
      (if \<not> is_arr (f ''protectedRoots'') then [''protected_roots_required'']
       else protected_root_reasons [] (the_arr (f ''protectedRoots''))) @
      ceiling_reasons (f ''resourceCeilings'') @
      reason_if (f ''networkMode'' \<noteq> JStr ''none'' \<and> f ''networkMode'' \<noteq> JStr ''networked'')
        ''network_mode_must_be_none_or_networked'' @
      reason_if (\<not> isPositiveInteger (f ''maxActiveSessions'')) ''max_active_sessions_required'')"

definition secret_reasons :: "js_value \<Rightarrow> string list" where
  "secret_reasons v =
     reason_if (list_ex (\<lambda>field. looksLikeKeyMaterial (js_String field))
       ([js_prop v ''policyId'', js_prop v ''issuedAt'', js_prop v ''expiresAt''] @
        the_arr (js_prop v ''allowedDelegatedSignerKeyIds'')))
       ''policy_must_not_contain_secret_material''"

text \<open>The cast of a validated value to the typed document reads its fields.\<close>

definition string_list :: "js_value \<Rightarrow> string list" where
  "string_list v = map the_str (the_arr v)"

definition decode_protected_root :: "js_value \<Rightarrow> string \<times> protected_root_class" where
  "decode_protected_root e =
     (the_str (js_prop e ''path''),
      if js_prop e ''class'' = JStr ''absolute_denial'' then Root_absolute_denial
      else Root_delegated_write_denied_owner_approvable)"

definition decode_policy :: "js_value \<Rightarrow> policy_document" where
  "decode_policy v =
     \<lparr>policyId = the_str (js_prop v ''policyId''),
      policyVersion = the_int (js_prop v ''policyVersion''),
      issuedAt = the_str (js_prop v ''issuedAt''),
      expiresAt = (if js_prop v ''expiresAt'' = JUndefined then None
        else Some (the_str (js_prop v ''expiresAt''))),
      allowedDelegatedSignerKeyIds = string_list (js_prop v ''allowedDelegatedSignerKeyIds''),
      allowedCapabilities = string_list (js_prop v ''allowedCapabilities''),
      sessionRoles = (if js_prop v ''sessionRoles'' = JUndefined then None
        else Some (string_list (js_prop v ''sessionRoles''))),
      readOnlyRoots = string_list (js_prop v ''readOnlyRoots''),
      writableDisposableRoots = string_list (js_prop v ''writableDisposableRoots''),
      protectedRoots = map decode_protected_root (the_arr (js_prop v ''protectedRoots'')),
      allowedRecipeIds = string_list (js_prop v ''allowedRecipeIds''),
      allowedExecutableIds = string_list (js_prop v ''allowedExecutableIds''),
      resourceCeilings =
        (let c = js_prop v ''resourceCeilings'' in
         \<lparr>wallMsMax = the_int (js_prop c ''wallMsMax''),
          maxProcesses = the_int (js_prop c ''maxProcesses''),
          maxOutputBytes = the_int (js_prop c ''maxOutputBytes''),
          workspaceBytesMax = the_int (js_prop c ''workspaceBytesMax'')\<rparr>),
      networkMode = (if js_prop v ''networkMode'' = JStr ''none'' then Net_none else Net_networked),
      maxActiveSessions = the_int (js_prop v ''maxActiveSessions'')\<rparr>"

text \<open>\<open>Inr (Inl reasons)\<close> is \<open>ok: false\<close>, \<open>Inr (Inr policy)\<close> is \<open>ok: true\<close>.\<close>

definition validateSandboxPolicyDocument ::
  "(string \<Rightarrow> int option) \<Rightarrow> js_value \<Rightarrow> (string list + policy_document) throws" where
  "validateSandboxPolicyDocument dp value =
     (if \<not> isRecord value then Inr (Inl [''policy_not_an_object''])
      else
        and_then (overlap_check ''read_root_overlaps_absolute_denial''
          (\<lambda>cls. cls = JStr ''absolute_denial'')
          (js_prop value ''readOnlyRoots'') (js_prop value ''protectedRoots'')) (\<lambda>r1.
        and_then (overlap_check ''disposable_root_overlaps_protected_root'' (\<lambda>cls. True)
          (js_prop value ''writableDisposableRoots'') (js_prop value ''protectedRoots'')) (\<lambda>r2.
          let reasons = field_reasons dp value @ r1 @ r2 @ secret_reasons value in
          if reasons \<noteq> [] then Inr (Inl reasons) else Inr (Inr (decode_policy value)))))"

section \<open>What validation guarantees\<close>

lemma reason_if_eq_Nil [simp]: "reason_if b r = [] \<longleftrightarrow> \<not> b"
  by (simp add: reason_if_def)

lemma capability_reasons_Nil:
  "capability_reasons seen vs = [] \<Longrightarrow>
     list_all is_str vs \<and> (\<forall>v \<in> set vs. the_str v \<in> set sandbox_capability_ids) \<and>
     distinct (map the_str vs) \<and> set seen \<inter> set (map the_str vs) = {}"
proof (induction seen vs rule: capability_reasons.induct)
  case (2 seen entry rest)
  then have e: "is_str entry" "capabilitySpec (the_str entry) \<noteq> None" "the_str entry \<notin> set seen"
    "capability_reasons (js_String entry # seen) rest = []"
    by (auto split: if_splits)
  then have "js_String entry = the_str entry"
    by (auto simp: is_str_iff)
  with 2 e show ?case by (auto simp: capabilitySpec_None_iff)
qed simp

lemma protected_root_reasons_Nil:
  "protected_root_reasons seen vs = [] \<Longrightarrow>
     list_all isRecord vs \<and>
     (\<forall>e \<in> set vs. is_str (js_prop e ''path'') \<and> isCanonicalForm (the_str (js_prop e ''path'')) \<and>
        valid_root_class (js_prop e ''class'')) \<and>
     distinct (map (\<lambda>e. the_str (js_prop e ''path'')) vs) \<and>
     set seen \<inter> set (map (\<lambda>e. the_str (js_prop e ''path'')) vs) = {}"
proof (induction vs arbitrary: seen)
  case (Cons e vs)
  then have e: "isRecord e" "is_str (js_prop e ''path'')"
    "isCanonicalForm (the_str (js_prop e ''path''))" "valid_root_class (js_prop e ''class'')"
    by (auto simp: Let_def split: if_splits sum.splits)
  then have "canonicalizePath (the_str (js_prop e ''path'')) = Inr (the_str (js_prop e ''path''))"
    by (simp add: isCanonicalForm_def)
  with Cons.prems e have "the_str (js_prop e ''path'') \<notin> set seen"
    "protected_root_reasons (the_str (js_prop e ''path'') # seen) vs = []"
    by (auto simp: Let_def)
  with Cons.IH [OF this(2)] e show ?case by auto
qed simp

lemma protected_paths_records:
  "list_all isRecord vs \<Longrightarrow>
     protected_paths keep vs =
       Inr (map (\<lambda>e. js_prop e ''path'') (filter (\<lambda>e. keep (js_prop e ''class'')) vs))"
proof (induction vs)
  case (Cons e vs)
  then have "js_read e k = Inr (js_prop e k)" for k
    by (cases e) auto
  with Cons show ?case by simp
qed simp

lemma overlap_reasons_Nil:
  "overlap_reasons tag roots denied = [] \<longleftrightarrow>
     (\<forall>r \<in> set roots. \<forall>d \<in> set denied. \<not> isWithin_value r d \<and> \<not> isWithin_value d r)"
  by (auto simp: overlap_reasons_def)

lemma ceiling_reasons_Nil:
  "ceiling_reasons c = [] \<Longrightarrow>
     1 \<le> the_int (js_prop c ''wallMsMax'') \<and> 1 \<le> the_int (js_prop c ''maxProcesses'') \<and>
     0 \<le> the_int (js_prop c ''maxOutputBytes'') \<and> 1 \<le> the_int (js_prop c ''workspaceBytesMax'')"
proof -
  have "isPositiveInteger v \<Longrightarrow> 1 \<le> the_int v" "isNonNegativeInteger v \<Longrightarrow> 0 \<le> the_int v" for v
    by (cases v rule: isPositiveInteger.cases; simp)+
  then show "ceiling_reasons c = [] \<Longrightarrow> ?thesis"
    by (auto simp: ceiling_reasons_def split: if_splits)
qed

lemma uniqueStrings_distinct: "uniqueStrings v \<Longrightarrow> distinct (string_list v) \<and> [] \<notin> set (string_list v)"
proof -
  assume u: "uniqueStrings v"
  then have strs: "\<And>w. w \<in> set (the_arr v) \<Longrightarrow> \<exists>s. w = JStr s \<and> s \<noteq> []"
    by (auto simp: uniqueStrings_def list_all_iff elim!: isNonEmptyString.elims)
  from u have "distinct (the_arr v)"
    by (simp add: uniqueStrings_def length_js_uniq)
  moreover have "inj_on the_str (set (the_arr v))"
    by (rule inj_onI) (metis strs the_str.simps(1))
  ultimately show ?thesis
    by (auto simp: string_list_def distinct_map dest!: strs)
qed

lemma canonicalRoots_list:
  "canonicalRoots v \<Longrightarrow> list_all isCanonicalForm (string_list v) \<and> list_all is_str (the_arr v)"
  by (auto simp: canonicalRoots_def string_list_def list_all_iff)

text \<open>The contract of a validated document.\<close>

definition policy_wf :: "(string \<Rightarrow> int option) \<Rightarrow> policy_document \<Rightarrow> bool" where
  "policy_wf dp p \<longleftrightarrow>
     policyId p \<noteq> [] \<and> 1 \<le> policyVersion p \<and> 1 \<le> maxActiveSessions p \<and>
     dp (issuedAt p) \<noteq> None \<and>
     (\<forall>e. expiresAt p = Some e \<longrightarrow> dp e \<noteq> None \<and> the (dp (issuedAt p)) < the (dp e)) \<and>
     distinct (allowedDelegatedSignerKeyIds p) \<and> distinct (allowedRecipeIds p) \<and>
     distinct (allowedExecutableIds p) \<and>
     allowedCapabilities p \<noteq> [] \<and> distinct (allowedCapabilities p) \<and>
     set (allowedCapabilities p) \<subseteq> set sandbox_capability_ids \<and>
     list_all isCanonicalForm (readOnlyRoots p) \<and>
     list_all isCanonicalForm (writableDisposableRoots p) \<and>
     list_all isCanonicalForm (map fst (protectedRoots p)) \<and>
     distinct (map fst (protectedRoots p)) \<and>
     (\<forall>r \<in> set (readOnlyRoots p). \<forall>d. (d, Root_absolute_denial) \<in> set (protectedRoots p) \<longrightarrow>
        \<not> isWithin r d \<and> \<not> isWithin d r) \<and>
     (\<forall>r \<in> set (writableDisposableRoots p). \<forall>d \<in> set (map fst (protectedRoots p)).
        \<not> isWithin r d \<and> \<not> isWithin d r) \<and>
     1 \<le> wallMsMax (resourceCeilings p) \<and> 1 \<le> maxProcesses (resourceCeilings p) \<and>
     0 \<le> maxOutputBytes (resourceCeilings p) \<and> 1 \<le> workspaceBytesMax (resourceCeilings p)"

lemma validate_okE:
  assumes "validateSandboxPolicyDocument dp v = Inr (Inr p)"
  shows "p = decode_policy v" "field_reasons dp v = []" "secret_reasons v = []"
    "overlap_check ''read_root_overlaps_absolute_denial'' (\<lambda>cls. cls = JStr ''absolute_denial'')
      (js_prop v ''readOnlyRoots'') (js_prop v ''protectedRoots'') = Inr []"
    "overlap_check ''disposable_root_overlaps_protected_root'' (\<lambda>cls. True)
      (js_prop v ''writableDisposableRoots'') (js_prop v ''protectedRoots'') = Inr []"
  using assms
  by (auto simp: validateSandboxPolicyDocument_def and_then_eq_Inr Let_def split: if_splits)

lemma overlap_check_Nil:
  assumes "overlap_check tag keep roots prs = Inr []" and "canonicalRoots roots" and "is_arr prs"
    and "list_all isRecord (the_arr prs)" and "\<forall>e \<in> set (the_arr prs). is_str (js_prop e ''path'')"
    and "r \<in> set (string_list roots)" and "e \<in> set (the_arr prs)" and "keep (js_prop e ''class'')"
  shows "\<not> isWithin r (the_str (js_prop e ''path'')) \<and> \<not> isWithin (the_str (js_prop e ''path'')) r"
proof -
  from assms(6) obtain w where w: "w \<in> set (the_arr roots)" "the_str w = r"
    by (auto simp: string_list_def)
  moreover have "is_str w"
    using w canonicalRoots_list [OF assms(2)] by (simp add: list_all_iff)
  moreover have "\<not> isWithin_value w (js_prop e ''path'') \<and> \<not> isWithin_value (js_prop e ''path'') w"
    using assms w by (auto simp: overlap_check_def protected_paths_records overlap_reasons_Nil)
  ultimately show ?thesis
    using assms(5,7) by (auto simp: isWithin_value_def)
qed

lemma validate_wf:
  assumes ok: "validateSandboxPolicyDocument dp v = Inr (Inr p)"
  shows "policy_wf dp p"
proof -
  note ok = validate_okE [OF ok]
  let ?f = "js_prop v"
  from ok(2) have f: "isNonEmptyString (?f ''policyId'')" "isPositiveInteger (?f ''policyVersion'')"
    "isValidIso dp (?f ''issuedAt'')"
    "?f ''expiresAt'' \<noteq> JUndefined \<Longrightarrow> isValidIso dp (?f ''expiresAt'')"
    "isValidIso dp (?f ''expiresAt'') \<Longrightarrow>
      the (dp (the_str (?f ''issuedAt''))) < the (dp (the_str (?f ''expiresAt'')))"
    "uniqueStrings (?f ''allowedDelegatedSignerKeyIds'')" "uniqueStrings (?f ''allowedRecipeIds'')"
    "uniqueStrings (?f ''allowedExecutableIds'')"
    "the_arr (?f ''allowedCapabilities'') \<noteq> []"
    "capability_reasons [] (the_arr (?f ''allowedCapabilities'')) = []"
    "canonicalRoots (?f ''readOnlyRoots'')" "canonicalRoots (?f ''writableDisposableRoots'')"
    "is_arr (?f ''protectedRoots'')" "protected_root_reasons [] (the_arr (?f ''protectedRoots'')) = []"
    "ceiling_reasons (?f ''resourceCeilings'') = []" "isPositiveInteger (?f ''maxActiveSessions'')"
    by (auto simp: field_reasons_def Let_def split: if_splits)
  note prs = protected_root_reasons_Nil [OF f(14)]
  have pos: "isPositiveInteger w \<Longrightarrow> 1 \<le> the_int w" for w
    by (cases w rule: isPositiveInteger.cases) auto
  have abs: "\<not> isWithin r d \<and> \<not> isWithin d r"
    if "r \<in> set (readOnlyRoots p)" "(d, Root_absolute_denial) \<in> set (protectedRoots p)" for r d
    using that overlap_check_Nil [OF ok(4) f(11) f(13)] prs
    by (auto simp: ok(1) decode_policy_def decode_protected_root_def split: if_splits)
  have disp: "\<not> isWithin r d \<and> \<not> isWithin d r"
    if "r \<in> set (writableDisposableRoots p)" "d \<in> set (map fst (protectedRoots p))" for r d
    using that overlap_check_Nil [OF ok(5) f(12) f(13)] prs
    by (auto simp: ok(1) decode_policy_def decode_protected_root_def split: if_splits)
  have roots: "map fst (protectedRoots p) =
      map (\<lambda>e. the_str (js_prop e ''path'')) (the_arr (?f ''protectedRoots''))"
    by (simp add: ok(1) decode_policy_def decode_protected_root_def)
  have "list_all isCanonicalForm (map fst (protectedRoots p)) \<and> distinct (map fst (protectedRoots p))"
    unfolding roots using prs by (auto simp: list_all_iff)
  moreover have "set (allowedCapabilities p) \<subseteq> set sandbox_capability_ids \<and>
      distinct (allowedCapabilities p) \<and> allowedCapabilities p \<noteq> []"
    using capability_reasons_Nil [OF f(10)] f(9)
    by (auto simp: ok(1) decode_policy_def string_list_def)
  moreover have "policyId p \<noteq> []"
    using f(1) by (cases "?f ''policyId''") (auto simp: ok(1) decode_policy_def)
  moreover have "distinct (allowedDelegatedSignerKeyIds p)" "distinct (allowedRecipeIds p)"
    "distinct (allowedExecutableIds p)"
    using f(6,7,8) by (auto simp: ok(1) decode_policy_def dest: uniqueStrings_distinct)
  moreover have "dp (issuedAt p) \<noteq> None"
    "\<And>e. expiresAt p = Some e \<Longrightarrow> dp e \<noteq> None \<and> the (dp (issuedAt p)) < the (dp e)"
    using f(3,4,5) by (auto simp: ok(1) decode_policy_def isValidIso_def split: if_splits)
  moreover have "1 \<le> policyVersion p" "1 \<le> maxActiveSessions p"
    using f(2,16) pos by (auto simp: ok(1) decode_policy_def)
  moreover have "list_all isCanonicalForm (readOnlyRoots p)"
    "list_all isCanonicalForm (writableDisposableRoots p)"
    using f(11,12) by (auto simp: ok(1) decode_policy_def dest: canonicalRoots_list)
  ultimately show ?thesis
    unfolding policy_wf_def using abs disp ceiling_reasons_Nil [OF f(15)]
    by (simp add: ok(1) decode_policy_def Let_def)
qed


lemma disposable_unprotected:
  assumes "validateSandboxPolicyDocument dp v = Inr (Inr p)"
  shows "(isWithinAny (writableDisposableRoots p) t \<longrightarrow>
      classifyProtectedPath (toProtectedRootsConfig (protectedRoots p)) t = Path_none) \<and>
    (isWithinAny (readOnlyRoots p) t \<longrightarrow>
      \<not> isWithinAny (absoluteDenial (toProtectedRootsConfig (protectedRoots p))) t)"
proof -
  let ?c = "toProtectedRootsConfig (protectedRoots p)"
  have wf: "policy_wf dp p" by (rule validate_wf [OF assms])
  have disp: "\<forall>a \<in> set (writableDisposableRoots p).
      \<forall>b \<in> set (absoluteDenial ?c) \<union> set (delegatedWriteDeniedOwnerApprovable ?c).
        \<not> isWithin a b \<and> \<not> isWithin b a"
    using wf by (force simp: policy_wf_def toProtectedRootsConfig_sel)
  have read: "\<forall>a \<in> set (readOnlyRoots p). \<forall>b \<in> set (absoluteDenial ?c).
      \<not> isWithin a b \<and> \<not> isWithin b a"
    using wf by (auto simp: policy_wf_def toProtectedRootsConfig_sel)
  show ?thesis
    using posix.disjoint_root_lists [of "writableDisposableRoots p" "absoluteDenial ?c" t]
      posix.disjoint_root_lists
        [of "writableDisposableRoots p" "delegatedWriteDeniedOwnerApprovable ?c" t]
      posix.disjoint_root_lists [of "readOnlyRoots p" "absoluteDenial ?c" t] disp read
    by (auto simp: classify_none_iff isWithinAny_def)
qed

section \<open>An example document\<close>

text \<open>A small valid policy and a clock that reads decimal digits, for the witnesses.\<close>

definition digits_clock :: "string \<Rightarrow> int option" where
  "digits_clock s = (if s \<noteq> [] \<and> list_all (in_range (CHR ''0'') (CHR ''9'')) s
     then Some (foldl (\<lambda>n c. 10 * n + (of_char c - 48)) 0 s) else None)"

definition example_policy :: js_value where
  "example_policy = JObj
     [(''payloadVersion'', JNum (NInt 1)), (''policyId'', JStr ''p''),
      (''policyVersion'', JNum (NInt 1)), (''issuedAt'', JStr ''10''),
      (''expiresAt'', JStr ''90''),
      (''allowedDelegatedSignerKeyIds'', JArr [JStr ''k'']),
      (''allowedCapabilities'', JArr [JStr ''approved_project_read'']),
      (''allowedRecipeIds'', JArr []), (''allowedExecutableIds'', JArr []),
      (''readOnlyRoots'', JArr [JStr ''/p'']), (''writableDisposableRoots'', JArr [JStr ''/w'']),
      (''protectedRoots'', JArr [JObj [(''path'', JStr ''/s''), (''class'', JStr ''absolute_denial'')]]),
      (''resourceCeilings'', JObj [(''wallMsMax'', JNum (NInt 9)), (''maxProcesses'', JNum (NInt 2)),
         (''maxOutputBytes'', JNum (NInt 0)), (''workspaceBytesMax'', JNum (NInt 5))]),
      (''networkMode'', JStr ''none''), (''maxActiveSessions'', JNum (NInt 1))]"

lemma example_policy_valid:
  "validateSandboxPolicyDocument digits_clock example_policy = Inr (Inr (decode_policy example_policy))"
  by code_simp

section \<open>Properties\<close>



text \<open>
  C30. Under an accepted policy the disposable and the protected trees are disjoint: no path
  inside a writable disposable root is classified as protected at all, and no path inside a
  read-only root lies in an absolute-denial root.
\<close>

theorem validated_roots_disjoint:
  "validateSandboxPolicyDocument dp v = Inr (Inr p) \<Longrightarrow>
     (isWithinAny (writableDisposableRoots p) t \<longrightarrow>
        classifyProtectedPath (toProtectedRootsConfig (protectedRoots p)) t = Path_none) \<and>
     (isWithinAny (readOnlyRoots p) t \<longrightarrow>
        \<not> isWithinAny (absoluteDenial (toProtectedRootsConfig (protectedRoots p))) t)"
  by (rule disposable_unprotected)

theorem validated_roots_disjoint_witness:
  "classifyProtectedPath (toProtectedRootsConfig (protectedRoots (decode_policy example_policy)))
     ''/w/x'' = Path_none"
proof -
  have "isWithinAny (writableDisposableRoots (decode_policy example_policy)) ''/w/x''"
    by code_simp
  with validated_roots_disjoint [OF example_policy_valid, of "''/w/x''"] show ?thesis by blast
qed

lemma protected_paths_throws:
  "(\<exists>e. protected_paths keep vs = Inl e) \<longleftrightarrow> JNull \<in> set vs \<or> JUndefined \<in> set vs"
proof (induction vs)
  case (Cons v vs)
  then show ?case
    by (cases v; cases "protected_paths keep vs"; auto)
qed simp

text \<open>
  When validation throws instead of returning a verdict: exactly when one of the two
  overlap checks runs over a protected-root list holding \<open>null\<close> (or \<open>undefined\<close>). On
  every other value, well formed or not, it returns reasons or a policy.
\<close>

theorem validateSandboxPolicyDocument_throws_iff:
  "(\<exists>e. validateSandboxPolicyDocument dp v = Inl e) \<longleftrightarrow>
     is_arr (js_prop v ''protectedRoots'') \<and>
     (canonicalRoots (js_prop v ''readOnlyRoots'') \<or>
      canonicalRoots (js_prop v ''writableDisposableRoots'')) \<and>
     (JNull \<in> set (the_arr (js_prop v ''protectedRoots'')) \<or>
      JUndefined \<in> set (the_arr (js_prop v ''protectedRoots'')))"
proof -
  have chk: "(\<exists>e. overlap_check tag keep roots prs = Inl e) \<longleftrightarrow>
      canonicalRoots roots \<and> is_arr prs \<and> (JNull \<in> set (the_arr prs) \<or> JUndefined \<in> set (the_arr prs))"
    for tag keep roots prs
    using protected_paths_throws [of keep "the_arr prs"]
    by (auto simp: overlap_check_def and_then_eq_Inl)
  have rec: "is_arr (js_prop v ''protectedRoots'') \<Longrightarrow> isRecord v"
    by (cases v) auto
  have "(\<exists>e. validateSandboxPolicyDocument dp v = Inl e) \<longleftrightarrow> isRecord v \<and>
      ((\<exists>e. overlap_check ''read_root_overlaps_absolute_denial'' (\<lambda>cls. cls = JStr ''absolute_denial'')
          (js_prop v ''readOnlyRoots'') (js_prop v ''protectedRoots'') = Inl e) \<or>
       (\<exists>e. overlap_check ''disposable_root_overlaps_protected_root'' (\<lambda>cls. True)
          (js_prop v ''writableDisposableRoots'') (js_prop v ''protectedRoots'') = Inl e))"
    unfolding validateSandboxPolicyDocument_def Let_def
    by (auto simp: and_then_eq_Inl split: if_splits sum.splits) (metis sum.exhaust)+
  then show ?thesis
    using rec by (auto simp: chk)
qed

end
