(* ===== verification/Sandbox_Authorize.thy ===== *)
theory Sandbox_Authorize
  imports Policy_Schema
begin

text \<open>
  The authorization decision of \<^verbatim>\<open>apps/sandbox-policy/src/authorize.ts\<close>, with every
  early return in the code's order. The policy argument is an unknown value (\<open>JNull\<close> for no
  active policy); \<open>dp\<close> is \<open>Date.parse\<close>.
\<close>

section \<open>Definitions\<close>

record requested_limits =
  req_wallMsMax :: "int option"
  req_maxProcesses :: "int option"
  req_maxOutputBytes :: "int option"
  req_workspaceBytesMax :: "int option"

record authorize_input =
  a_capabilityId :: string
  a_policy :: js_value
  a_signer :: sandbox_signer
  a_intent :: "path_intent option"
  a_targetPath :: "string option"
  a_recipeId :: "string option"
  a_executableId :: "string option"
  a_networkRequired :: "bool option"
  a_externalSideEffects :: "bool option"
  a_persistence :: "bool option"
  a_modelRiskLabel :: "risk_class option"
  a_requestedLimits :: "requested_limits option"
  a_nowIso :: string

definition policy_rule :: "string \<Rightarrow> string" where
  "policy_rule ruleId = ''sandbox-policy/rule/'' @ ruleId"

definition denied :: "string \<Rightarrow> string \<Rightarrow> string \<Rightarrow> risk_class \<Rightarrow> authorization_decision" where
  "denied ruleId reason capabilityId risk = Denied capabilityId (policy_rule ruleId) risk reason"

definition ownerApproval ::
  "string \<Rightarrow> string \<Rightarrow> string \<Rightarrow> risk_class \<Rightarrow> authorization_decision" where
  "ownerApproval ruleId reason capabilityId risk =
     Owner_approval_required capabilityId (policy_rule ruleId) risk reason"

fun exceeds :: "int option \<Rightarrow> int \<Rightarrow> bool" where
  "exceeds None ceiling = False"
| "exceeds (Some n) ceiling = (n > ceiling)"

definition exceedsCeilings :: "resource_ceilings \<Rightarrow> requested_limits \<Rightarrow> bool" where
  "exceedsCeilings ceilings requested \<longleftrightarrow>
     (if exceeds (req_wallMsMax requested) (wallMsMax ceilings) then True
      else if exceeds (req_maxProcesses requested) (maxProcesses ceilings) then True
      else if exceeds (req_maxOutputBytes requested) (maxOutputBytes ceilings) then True
      else if exceeds (req_workspaceBytesMax requested) (workspaceBytesMax ceilings) then True
      else False)"

definition fallbackRisk :: "string \<Rightarrow> risk_class" where
  "fallbackRisk capabilityId =
     (case capabilitySpec capabilityId of
        None \<Rightarrow> Risk_high
      | Some spec \<Rightarrow> if cap_class spec = Class_owner_approvable then Risk_consultation
                    else intrinsicRisk spec)"

definition authorize_facts :: "policy_document \<Rightarrow> authorize_input \<Rightarrow> operation_facts" where
  "authorize_facts doc i = classifySandboxOperation
     \<lparr>ci_capabilityId = a_capabilityId i, ci_intent = a_intent i, ci_targetPath = a_targetPath i,
      ci_protectedRoots = Some (toProtectedRootsConfig (protectedRoots doc)),
      ci_modelRiskLabel = a_modelRiskLabel i, ci_networkRequired = a_networkRequired i,
      ci_externalSideEffects = a_externalSideEffects i\<rparr>"

text \<open>The path block: \<open>None\<close> when no early return is taken in it.\<close>

definition path_decision ::
  "policy_document \<Rightarrow> capability_spec \<Rightarrow> operation_facts \<Rightarrow> authorize_input \<Rightarrow>
   authorization_decision option" where
  "path_decision doc spec facts i =
     (case a_targetPath i of
        None \<Rightarrow> None
      | Some t \<Rightarrow>
         (case a_intent i of
            Some intent \<Rightarrow>
              (let conflict = protectedConflictForIntent
                     (toProtectedRootsConfig (protectedRoots doc)) t intent;
                   writeDeletePermitted = isWithinAny (writableDisposableRoots doc) t;
                   readPermitted = (isWithinAny (readOnlyRoots doc) t \<or>
                     isWithinAny (writableDisposableRoots doc) t);
                   pathPermitted = (if intent = Intent_read then readPermitted
                     else writeDeletePermitted)
               in case conflict of
                 Conflict Root_absolute_denial r \<Rightarrow>
                   Some (denied ''absolute-denial'' ''absolute_denial''
                     (f_capabilityId facts) (f_risk facts))
               | Conflict Root_delegated_write_denied_owner_approvable r \<Rightarrow>
                   Some (ownerApproval ''owner-approval-escalated''
                     ''delegated_write_denied_root_requires_owner_approval''
                     (f_capabilityId facts) (f_risk facts))
               | No_conflict \<Rightarrow>
                   if \<not> pathPermitted
                   then Some (denied ''path-not-permitted'' ''path_outside_permitted_roots''
                     (f_capabilityId facts) (f_risk facts))
                   else if a_persistence i = Some True \<and>
                     \<not> isWithinAny (writableDisposableRoots doc) t
                   then Some (denied ''persistence-outside-disposable''
                     ''persistence_requires_disposable_root'' (f_capabilityId facts) (f_risk facts))
                   else None)
          | None \<Rightarrow>
              if length (allowedIntents spec) > 0
              then Some (denied ''intent-required'' ''path_intent_required''
                (f_capabilityId facts) (f_risk facts))
              else if \<not> isWithinAny (writableDisposableRoots doc) t
              then Some (denied ''path-not-permitted''
                ''recipe_working_directory_outside_disposable_root''
                (f_capabilityId facts) (f_risk facts))
              else None))"

text \<open>
  The conditions of the early returns on optional fields. \<open>not_listed\<close> is a missing field
  or one the list does not include; comparisons with the NaN of an unreadable date are false.
\<close>

fun intent_refused :: "capability_spec \<Rightarrow> path_intent option \<Rightarrow> bool" where
  "intent_refused spec None = False"
| "intent_refused spec (Some intent) = (\<not> List.member (allowedIntents spec) intent)"

fun not_listed :: "string list \<Rightarrow> string option \<Rightarrow> bool" where
  "not_listed xs None = True"
| "not_listed xs (Some x) = (\<not> List.member xs x)"

fun limits_refused :: "resource_ceilings \<Rightarrow> requested_limits option \<Rightarrow> bool" where
  "limits_refused ceilings None = False"
| "limits_refused ceilings (Some l) = exceedsCeilings ceilings l"

definition policy_expired :: "(string \<Rightarrow> int option) \<Rightarrow> policy_document \<Rightarrow> int \<Rightarrow> bool" where
  "policy_expired dp doc now \<longleftrightarrow>
     (case expiresAt doc of None \<Rightarrow> False
      | Some e \<Rightarrow> (case dp e of None \<Rightarrow> False | Some t \<Rightarrow> t < now))"

definition policy_not_yet_valid :: "(string \<Rightarrow> int option) \<Rightarrow> policy_document \<Rightarrow> int \<Rightarrow> bool" where
  "policy_not_yet_valid dp doc now \<longleftrightarrow> (case dp (issuedAt doc) of None \<Rightarrow> False | Some t \<Rightarrow> t > now)"

text \<open>The part after the policy, clock and signer checks.\<close>

definition capability_decision ::
  "policy_document \<Rightarrow> authorize_input \<Rightarrow> authorization_decision" where
  "capability_decision doc i =
     (let facts = authorize_facts doc i;
          spec = the (capabilitySpec (a_capabilityId i));
          deny = (\<lambda>ruleId reason. denied ruleId reason (f_capabilityId facts) (f_risk facts))
      in
      if f_absoluteDenialCondition facts then deny ''absolute-denial'' ''absolute_denial''
      else if f_capabilityClass facts = None then deny ''unknown-capability'' ''unknown_capability''
      else if f_pathMalformed facts then deny ''path-malformed'' ''path_not_canonical''
      else if f_pathRequired facts then deny ''path-required'' ''target_path_required''
      else if f_capabilityClass facts = Some Class_owner_approvable
      then ownerApproval ''owner-approval-required'' ''owner_approval_required_for_capability''
        (f_capabilityId facts) (f_risk facts)
      else if \<not> List.member (allowedCapabilities doc) (a_capabilityId i)
      then deny ''capability-not-allowed'' ''capability_not_allowed_by_policy''
      else if intent_refused spec (a_intent i)
      then deny ''intent-not-permitted'' ''intent_not_permitted_by_capability''
      else if recipeBound spec \<and> not_listed (allowedRecipeIds doc) (a_recipeId i)
      then deny ''recipe-not-allowed'' ''recipe_not_allowed_by_policy''
      else if executableBound spec \<and> not_listed (allowedExecutableIds doc) (a_executableId i)
      then deny ''executable-not-allowed'' ''executable_not_allowed_by_policy''
      else (case path_decision doc spec facts i of
          Some d \<Rightarrow> d
        | None \<Rightarrow>
            if f_networkRequired facts
            then deny ''network-required'' ''network_required_not_delegated_safe''
            else if f_externalSideEffects facts
            then deny ''external-effects'' ''external_side_effects_not_delegated_safe''
            else if f_secretExposure facts then deny ''secret-exposure'' ''secret_exposure_denied''
            else if limits_refused (resourceCeilings doc) (a_requestedLimits i)
            then deny ''resource-ceiling-exceeded'' ''request_exceeds_policy_ceiling''
            else Autonomous_safe (f_capabilityId facts) (policy_rule ''delegated-autonomy'')
              (f_risk facts)))"

definition authorizeSandboxOperation ::
  "(string \<Rightarrow> int option) \<Rightarrow> authorize_input \<Rightarrow> authorization_decision throws" where
  "authorizeSandboxOperation dp i =
     (let cap = a_capabilityId i; risk = fallbackRisk cap in
      if a_policy i = JNull then Inr (denied ''policy-missing'' ''no_active_policy'' cap risk)
      else and_then (validateSandboxPolicyDocument dp (a_policy i)) (\<lambda>validated.
        case validated of
          Inl reasons \<Rightarrow> Inr (denied ''policy-invalid'' ''invalid_policy'' cap risk)
        | Inr doc \<Rightarrow>
           (case dp (a_nowIso i) of
              None \<Rightarrow> Inr (denied ''invalid-clock'' ''invalid_now_iso'' cap risk)
            | Some now \<Rightarrow>
                if policy_expired dp doc now
                then Inr (denied ''policy-expired'' ''policy_expired'' cap risk)
                else if policy_not_yet_valid dp doc now
                then Inr (denied ''policy-not-yet-valid'' ''policy_not_yet_valid'' cap risk)
                else if signer_class (a_signer i) = Signer_delegated \<and>
                  not_listed (allowedDelegatedSignerKeyIds doc) (keyId (a_signer i))
                then Inr (denied ''signer-not-allowed''
                  ''delegated_signer_key_not_allowed_by_policy'' cap risk)
                else Inr (capability_decision doc i))))"

section \<open>Reading a decision\<close>

lemma facts_known:
  assumes "capabilitySpec (a_capabilityId i) = Some spec"
  shows "f_capabilityClass (authorize_facts doc i) = Some (cap_class spec)"
    and "f_pathMalformed (authorize_facts doc i) \<longleftrightarrow> target_malformed (a_targetPath i)"
    and "f_pathRequired (authorize_facts doc i) \<longleftrightarrow>
      allowedIntents spec \<noteq> [] \<and> a_targetPath i = None"
    and "f_networkRequired (authorize_facts doc i) \<longleftrightarrow>
      cap_networkRequired spec \<or> a_networkRequired i = Some True"
    and "f_externalSideEffects (authorize_facts doc i) \<longleftrightarrow>
      cap_externalSideEffects spec \<or> a_externalSideEffects i = Some True"
    and "f_absoluteDenialCondition (authorize_facts doc i) \<longleftrightarrow>
      cap_class spec = Class_absolute_denial \<or>
      (\<exists>t. a_targetPath i = Some t \<and>
        isWithinAny (absoluteDenial (toProtectedRootsConfig (protectedRoots doc))) t)"
  unfolding authorize_facts_def
  using assms by (simp_all add: classify_known classify_absolute)

lemma facts_unknown:
  "capabilitySpec (a_capabilityId i) = None \<Longrightarrow>
     f_capabilityClass (authorize_facts doc i) = None \<and>
     \<not> f_absoluteDenialCondition (authorize_facts doc i)"
  by (simp add: authorize_facts_def classify_unknown)

definition is_denied :: "authorization_decision \<Rightarrow> bool" where
  "is_denied d \<longleftrightarrow> (case d of Denied _ _ _ _ \<Rightarrow> True | _ \<Rightarrow> False)"

lemma is_denied_denied [simp]: "is_denied (denied r e c k)"
  by (simp add: is_denied_def denied_def)

lemma not_autonomous [simp]:
  "denied r e c k \<noteq> Autonomous_safe c' r' k'"
  "ownerApproval r e c k \<noteq> Autonomous_safe c' r' k'"
  by (simp_all add: denied_def ownerApproval_def)

lemma exceedsCeilings_iff:
  "exceedsCeilings c l \<longleftrightarrow>
     exceeds (req_wallMsMax l) (wallMsMax c) \<or> exceeds (req_maxProcesses l) (maxProcesses c) \<or>
     exceeds (req_maxOutputBytes l) (maxOutputBytes c) \<or>
     exceeds (req_workspaceBytesMax l) (workspaceBytesMax c)"
  by (simp add: exceedsCeilings_def)

lemma intent_refused_iff:
  "intent_refused spec x \<longleftrightarrow> (\<exists>y. x = Some y \<and> y \<notin> set (allowedIntents spec))"
  by (cases x) auto

lemma not_listed_iff: "not_listed xs x \<longleftrightarrow> \<not> (\<exists>y. x = Some y \<and> y \<in> set xs)"
  by (cases x) auto

lemma limits_refused_iff: "limits_refused c x \<longleftrightarrow> (\<exists>l. x = Some l \<and> exceedsCeilings c l)"
  by (cases x) auto

lemma exceeds_iff: "exceeds r c \<longleftrightarrow> (\<exists>n. r = Some n \<and> c < n)"
  by (cases r) auto

text \<open>What holds of the policy, the clock and the signer once those checks are passed.\<close>

definition admitted ::
  "(string \<Rightarrow> int option) \<Rightarrow> authorize_input \<Rightarrow> policy_document \<Rightarrow> bool" where
  "admitted dp i doc \<longleftrightarrow>
     validateSandboxPolicyDocument dp (a_policy i) = Inr (Inr doc) \<and>
     (\<exists>now. dp (a_nowIso i) = Some now \<and> the (dp (issuedAt doc)) \<le> now \<and>
        (\<forall>e. expiresAt doc = Some e \<longrightarrow> now \<le> the (dp e))) \<and>
     (signer_class (a_signer i) = Signer_delegated \<longrightarrow>
        (\<exists>k. keyId (a_signer i) = Some k \<and> k \<in> set (allowedDelegatedSignerKeyIds doc)))"

lemma authorize_cases:
  assumes "authorizeSandboxOperation dp i = Inr d"
  shows "is_denied d \<or> (\<exists>doc. admitted dp i doc \<and> d = capability_decision doc i)"
proof (cases "a_policy i = JNull")
  case False
  with assms obtain validated where
    val: "validateSandboxPolicyDocument dp (a_policy i) = Inr validated"
    by (auto simp: authorizeSandboxOperation_def Let_def and_then_eq_Inr)
  show ?thesis
  proof (cases validated)
    case (Inr doc)
    have wf: "policy_wf dp doc" using val Inr by (simp add: validate_wf)
    then obtain t where t: "dp (issuedAt doc) = Some t"
      by (auto simp: policy_wf_def)
    show ?thesis
    proof (cases "is_denied d")
      case nd: False
      with assms False val Inr t obtain now where now: "dp (a_nowIso i) = Some now" "t \<le> now"
        by (auto simp: authorizeSandboxOperation_def Let_def policy_not_yet_valid_def
            split: option.splits if_splits)
      from assms False val Inr t now nd
      have checks: "\<not> policy_expired dp doc now \<and> \<not> policy_not_yet_valid dp doc now \<and>
          \<not> (signer_class (a_signer i) = Signer_delegated \<and>
            not_listed (allowedDelegatedSignerKeyIds doc) (keyId (a_signer i))) \<and>
          d = capability_decision doc i"
        by (auto simp: authorizeSandboxOperation_def Let_def split: if_splits)
      then have exp: "now \<le> the (dp e)" if "expiresAt doc = Some e" for e
        using that wf by (auto simp: policy_expired_def policy_wf_def)
      have "signer_class (a_signer i) = Signer_delegated \<longrightarrow>
          (\<exists>k. keyId (a_signer i) = Some k \<and> k \<in> set (allowedDelegatedSignerKeyIds doc))"
        using checks by (simp add: not_listed_iff)
      moreover have "d = capability_decision doc i"
        using checks by blast
      ultimately show ?thesis
        using val Inr t now exp by (auto simp: admitted_def)
    qed simp
  qed (use assms False val in \<open>auto simp: authorizeSandboxOperation_def Let_def\<close>)
qed (use assms in \<open>auto simp: authorizeSandboxOperation_def Let_def\<close>)

lemma path_decision_None:
  assumes "path_decision doc spec facts i = None" and "a_targetPath i = Some t"
  shows "(\<forall>intent. a_intent i = Some intent \<longrightarrow>
       protectedConflictForIntent (toProtectedRootsConfig (protectedRoots doc)) t intent = No_conflict \<and>
       (if intent = Intent_read
        then isWithinAny (readOnlyRoots doc) t \<or> isWithinAny (writableDisposableRoots doc) t
        else isWithinAny (writableDisposableRoots doc) t) \<and>
       (a_persistence i = Some True \<longrightarrow> isWithinAny (writableDisposableRoots doc) t)) \<and>
     (a_intent i = None \<longrightarrow>
       allowedIntents spec = [] \<and> isWithinAny (writableDisposableRoots doc) t)"
  using assms
  by (auto simp: path_decision_def Let_def
      split: option.splits protected_conflict.splits protected_root_class.splits if_splits)

lemma capability_decision_autonomous:
  assumes "capability_decision doc i = Autonomous_safe c r k"
  obtains spec where "capabilitySpec (a_capabilityId i) = Some spec"
    and "\<not> f_absoluteDenialCondition (authorize_facts doc i)"
    and "cap_class spec = Class_delegated_safe"
    and "\<not> f_pathMalformed (authorize_facts doc i)" "\<not> f_pathRequired (authorize_facts doc i)"
    and "a_capabilityId i \<in> set (allowedCapabilities doc)"
    and "\<And>intent. a_intent i = Some intent \<Longrightarrow> intent \<in> set (allowedIntents spec)"
    and "recipeBound spec \<Longrightarrow> \<exists>x. a_recipeId i = Some x \<and> x \<in> set (allowedRecipeIds doc)"
    and "executableBound spec \<Longrightarrow>
      \<exists>x. a_executableId i = Some x \<and> x \<in> set (allowedExecutableIds doc)"
    and "path_decision doc spec (authorize_facts doc i) i = None"
    and "\<not> f_networkRequired (authorize_facts doc i)"
    and "\<not> f_externalSideEffects (authorize_facts doc i)"
    and "\<And>l. a_requestedLimits i = Some l \<Longrightarrow> \<not> exceedsCeilings (resourceCeilings doc) l"
proof (cases "capabilitySpec (a_capabilityId i)")
  case None
  then show thesis
    using assms facts_unknown [OF None, of doc] by (simp add: capability_decision_def Let_def)
next
  case (Some spec)
  have pd: "path_decision doc spec (authorize_facts doc i) i = None"
  proof (rule ccontr)
    assume "path_decision doc spec (authorize_facts doc i) i \<noteq> None"
    then obtain d where d: "path_decision doc spec (authorize_facts doc i) i = Some d" by blast
    then have "d \<noteq> Autonomous_safe c r k"
      by (auto simp: path_decision_def Let_def
          split: option.splits protected_conflict.splits protected_root_class.splits if_splits)
    with assms Some d show False
      by (auto simp: capability_decision_def Let_def split: if_splits)
  qed
  let ?f = "authorize_facts doc i"
  from assms Some pd facts_known(1) [OF Some, of doc]
  have guards: "\<not> f_absoluteDenialCondition ?f \<and> \<not> f_pathMalformed ?f \<and> \<not> f_pathRequired ?f \<and>
      cap_class spec \<noteq> Class_owner_approvable \<and>
      List.member (allowedCapabilities doc) (a_capabilityId i) \<and>
      \<not> intent_refused spec (a_intent i) \<and>
      \<not> (recipeBound spec \<and> not_listed (allowedRecipeIds doc) (a_recipeId i)) \<and>
      \<not> (executableBound spec \<and> not_listed (allowedExecutableIds doc) (a_executableId i)) \<and>
      \<not> f_networkRequired ?f \<and> \<not> f_externalSideEffects ?f \<and>
      \<not> limits_refused (resourceCeilings doc) (a_requestedLimits i)"
    by (simp add: capability_decision_def Let_def split: if_splits)
  moreover have "cap_class spec \<noteq> Class_absolute_denial"
    using guards facts_known(6) [OF Some, of doc] by blast
  ultimately have "cap_class spec = Class_delegated_safe"
    by (cases "cap_class spec") simp_all
  then show thesis
    using Some pd guards
    by (intro that [of spec])
      (simp_all add: intent_refused_iff not_listed_iff limits_refused_iff)
qed

text \<open>What the decision promises about a target path under the policy.\<close>

definition target_permitted :: "policy_document \<Rightarrow> authorize_input \<Rightarrow> string \<Rightarrow> bool" where
  "target_permitted doc i t \<longleftrightarrow>
     isCanonicalForm t \<and>
     (isWithinAny (writableDisposableRoots doc) t \<or>
        a_intent i = Some Intent_read \<and> isWithinAny (readOnlyRoots doc) t) \<and>
     \<not> isWithinAny (absoluteDenial (toProtectedRootsConfig (protectedRoots doc))) t \<and>
     (a_intent i \<noteq> Some Intent_read \<longrightarrow>
        classifyProtectedPath (toProtectedRootsConfig (protectedRoots doc)) t = Path_none) \<and>
     (a_persistence i = Some True \<longrightarrow> isWithinAny (writableDisposableRoots doc) t)"

lemma autonomous_target:
  assumes "admitted dp i doc" and "capability_decision doc i = Autonomous_safe c r k"
    and "a_targetPath i = Some t"
  shows "target_permitted doc i t"
proof -
  from assms(2) obtain spec where
    spec: "capabilitySpec (a_capabilityId i) = Some spec"
      "\<not> f_absoluteDenialCondition (authorize_facts doc i)"
      "\<not> f_pathMalformed (authorize_facts doc i)"
      "path_decision doc spec (authorize_facts doc i) i = None"
    by (rule capability_decision_autonomous)
  note pd = path_decision_None [OF spec(4) assms(3)]
  have canon: "isCanonicalForm t"
    using spec(1,3) assms(3) by (simp add: facts_known)
  have abs: "\<not> isWithinAny (absoluteDenial (toProtectedRootsConfig (protectedRoots doc))) t"
    using spec(1,2) assms(3) by (simp add: facts_known)
  have val: "validateSandboxPolicyDocument dp (a_policy i) = Inr (Inr doc)"
    using assms(1) by (simp add: admitted_def)
  have "isWithinAny (writableDisposableRoots doc) t \<or>
      a_intent i = Some Intent_read \<and> isWithinAny (readOnlyRoots doc) t"
    using pd by (cases "a_intent i") (auto split: if_splits)
  moreover have "a_intent i \<noteq> Some Intent_read \<Longrightarrow> isWithinAny (writableDisposableRoots doc) t"
    using pd by (cases "a_intent i") (auto split: if_splits)
  moreover have "a_persistence i = Some True \<Longrightarrow> isWithinAny (writableDisposableRoots doc) t"
    using pd by (cases "a_intent i") auto
  moreover have "isWithinAny (writableDisposableRoots doc) t \<Longrightarrow>
      classifyProtectedPath (toProtectedRootsConfig (protectedRoots doc)) t = Path_none"
    using disposable_unprotected [OF val] by blast
  ultimately show ?thesis
    using canon abs by (auto simp: target_permitted_def)
qed

lemma absolute_condition_denied:
  "f_absoluteDenialCondition (authorize_facts doc i) \<Longrightarrow> is_denied (capability_decision doc i)"
  by (simp add: capability_decision_def Let_def)

section \<open>Properties\<close>

text \<open>
  C3. Soundness of autonomy: whenever the decision is \<open>autonomous_safe\<close>, the policy is
  valid and in force at the given time, a delegated signer's key is one the policy names, the
  capability is delegated-safe, listed by the policy and fits the intent, recipe and
  executable, a target path is canonical, inside the permitted roots and outside the
  protected ones, no network or external side effect is involved and no requested limit
  exceeds its ceiling.
\<close>

theorem autonomous_safe_sound:
  assumes "authorizeSandboxOperation dp i = Inr (Autonomous_safe c r k)"
  shows "\<exists>doc spec. admitted dp i doc \<and> policy_wf dp doc \<and>
    capabilitySpec (a_capabilityId i) = Some spec \<and> cap_class spec = Class_delegated_safe \<and>
    a_capabilityId i \<in> set (allowedCapabilities doc) \<and>
    (\<forall>intent. a_intent i = Some intent \<longrightarrow> intent \<in> set (allowedIntents spec)) \<and>
    (allowedIntents spec \<noteq> [] \<longrightarrow> a_targetPath i \<noteq> None) \<and>
    (recipeBound spec \<longrightarrow> (\<exists>x. a_recipeId i = Some x \<and> x \<in> set (allowedRecipeIds doc))) \<and>
    (executableBound spec \<longrightarrow>
       (\<exists>x. a_executableId i = Some x \<and> x \<in> set (allowedExecutableIds doc))) \<and>
    (\<forall>t. a_targetPath i = Some t \<longrightarrow> target_permitted doc i t) \<and>
    a_networkRequired i \<noteq> Some True \<and> a_externalSideEffects i \<noteq> Some True \<and>
    (\<forall>l. a_requestedLimits i = Some l \<longrightarrow> \<not> exceedsCeilings (resourceCeilings doc) l)"
proof -
  have "\<not> is_denied (Autonomous_safe c r k)" by (simp add: is_denied_def)
  with authorize_cases [OF assms] obtain doc where
    doc: "admitted dp i doc" "capability_decision doc i = Autonomous_safe c r k" by auto
  have wf: "policy_wf dp doc"
    using doc(1) validate_wf by (auto simp: admitted_def)
  from doc(2) obtain spec where spec: "capabilitySpec (a_capabilityId i) = Some spec"
    "cap_class spec = Class_delegated_safe" "\<not> f_pathRequired (authorize_facts doc i)"
    "a_capabilityId i \<in> set (allowedCapabilities doc)"
    "\<And>intent. a_intent i = Some intent \<Longrightarrow> intent \<in> set (allowedIntents spec)"
    "recipeBound spec \<Longrightarrow> \<exists>x. a_recipeId i = Some x \<and> x \<in> set (allowedRecipeIds doc)"
    "executableBound spec \<Longrightarrow> \<exists>x. a_executableId i = Some x \<and> x \<in> set (allowedExecutableIds doc)"
    "\<not> f_networkRequired (authorize_facts doc i)" "\<not> f_externalSideEffects (authorize_facts doc i)"
    "\<And>l. a_requestedLimits i = Some l \<Longrightarrow> \<not> exceedsCeilings (resourceCeilings doc) l"
    by (rule capability_decision_autonomous) blast
  show ?thesis
    using doc wf spec autonomous_target [OF doc]
    by (intro exI [of _ doc] exI [of _ spec]) (auto simp: facts_known)
qed

definition example_request :: authorize_input where
  "example_request =
     \<lparr>a_capabilityId = ''approved_project_read'', a_policy = example_policy,
      a_signer = \<lparr>signer_class = Signer_delegated, keyId = Some ''k''\<rparr>,
      a_intent = Some Intent_read, a_targetPath = Some ''/p/a'', a_recipeId = None,
      a_executableId = None, a_networkRequired = None, a_externalSideEffects = None,
      a_persistence = None, a_modelRiskLabel = None, a_requestedLimits = None, a_nowIso = ''50''\<rparr>"

theorem autonomous_safe_sound_witness:
  "\<exists>doc. admitted digits_clock example_request doc \<and> target_permitted doc example_request ''/p/a''"
proof -
  have "authorizeSandboxOperation digits_clock example_request =
      Inr (Autonomous_safe ''approved_project_read'' (policy_rule ''delegated-autonomy'') Risk_low)"
    by code_simp
  from autonomous_safe_sound [OF this] show ?thesis
    by (auto simp: example_request_def)
qed

text \<open>
  C32. An absolute denial is final: for a capability of the absolute-denial class, and for
  any target inside an absolute-denial root of the policy in force, every returned decision
  is a denial, for every signer (the owner included), intent and model label.
\<close>

theorem absolute_denial_final:
  assumes "authorizeSandboxOperation dp i = Inr d"
    and "(\<exists>spec. capabilitySpec (a_capabilityId i) = Some spec \<and>
        cap_class spec = Class_absolute_denial) \<or>
      (\<exists>doc t. validateSandboxPolicyDocument dp (a_policy i) = Inr (Inr doc) \<and>
        a_targetPath i = Some t \<and> capabilitySpec (a_capabilityId i) \<noteq> None \<and>
        isWithinAny (absoluteDenial (toProtectedRootsConfig (protectedRoots doc))) t)"
  shows "is_denied d"
proof (rule ccontr)
  assume "\<not> is_denied d"
  with authorize_cases [OF assms(1)] obtain doc where
    doc: "admitted dp i doc" "d = capability_decision doc i" by auto
  then have val: "validateSandboxPolicyDocument dp (a_policy i) = Inr (Inr doc)"
    by (simp add: admitted_def)
  from assms(2) val obtain spec where "capabilitySpec (a_capabilityId i) = Some spec" by auto
  with assms(2) val have "f_absoluteDenialCondition (authorize_facts doc i)"
    by (auto simp: facts_known)
  with absolute_condition_denied doc \<open>\<not> is_denied d\<close> show False by blast
qed

theorem absolute_denial_final_witness:
  "\<exists>d. authorizeSandboxOperation digits_clock (example_request\<lparr>a_targetPath := Some ''/s/key'',
      a_signer := \<lparr>signer_class = Signer_owner, keyId = None\<rparr>\<rparr>) = Inr d \<and> is_denied d"
proof -
  let ?i = "example_request\<lparr>a_targetPath := Some ''/s/key'',
      a_signer := \<lparr>signer_class = Signer_owner, keyId = None\<rparr>\<rparr>"
  have run: "authorizeSandboxOperation digits_clock ?i =
      Inr (denied ''absolute-denial'' ''absolute_denial'' ''approved_project_read'' Risk_high)"
    by code_simp
  have "isWithinAny (absoluteDenial (toProtectedRootsConfig
      (protectedRoots (decode_policy example_policy)))) ''/s/key''"
    and "capabilitySpec (a_capabilityId ?i) \<noteq> None"
    by code_simp+
  moreover have "a_policy ?i = example_policy" "a_targetPath ?i = Some ''/s/key''"
    by (simp_all add: example_request_def)
  ultimately show ?thesis
    using absolute_denial_final [OF run] run example_policy_valid by metis
qed

end
