(* ===== verification/Project_Roots.thy ===== *)
theory Project_Roots
  imports Canonical_Paths
begin

text \<open>
  The allowlisted project-root registry, \<^verbatim>\<open>apps/sandbox-policy/src/project-roots.ts\<close>.
  An entry arrives as host configuration, so every flag is an unknown value of which the
  code only asks whether it is \<open>=== true\<close> or \<open>!== false\<close>: an optional boolean, where
  \<open>None\<close> is a missing field. A recipe list is \<open>None\<close> when missing.
\<close>

section \<open>Definitions\<close>

record project_root_input =
  in_projectId :: string
  in_canonicalRoot :: string
  in_displayName :: "string option"
  in_enabled :: "bool option"
  in_readAllowed :: "bool option"
  in_candidateWorkspaceAllowed :: "bool option"
  in_engineeringAllowed :: "bool option"
  in_verificationAllowed :: "bool option"
  in_allowedRecipeIds :: "js_value"
  in_authorshipAllowed :: "bool option"
  in_operationAllowed :: "bool option"
  in_patchExportAllowed :: "bool option"
  in_exportDestination :: "string option"

text \<open>A normalized entry, as the registry stores it.\<close>

record project_root_entry =
  projectId :: string
  canonicalRoot :: string
  displayName :: string
  enabled :: bool
  readAllowed :: bool
  candidateWorkspaceAllowed :: bool
  engineeringAllowed :: bool
  verificationAllowed :: bool
  entry_allowedRecipeIds :: "string list"
  authorshipAllowed :: bool
  operationAllowed :: bool
  patchExportAllowed :: bool
  exportDestinationCanonicalRoot :: "string option"

text \<open>The \<open>Map\<close> by project id is the entry list in insertion order.\<close>

record project_root_registry =
  registry_entries :: "project_root_entry list"
  registry_roots :: "string list"

definition FORBIDDEN_ROOT_PATTERNS :: "string list" where
  "FORBIDDEN_ROOT_PATTERNS =
     [''/'', ''/home'', ''/home/'', ''/root'', ''/Users'', ''/home/xarvak'', ''/home/xarvak/'']"

definition find_entry :: "project_root_entry list \<Rightarrow> string \<Rightarrow> project_root_entry option" where
  "find_entry es pid = find (\<lambda>e. projectId e = pid) es"

fun valid_recipe_id :: "js_value \<Rightarrow> bool" where
  "valid_recipe_id (JStr s) = (\<not> (length s < 1 \<or> length s > 128))"
| "valid_recipe_id _ = False"

fun normalizeAllowedRecipeIds :: "js_value \<Rightarrow> string list option" where
  "normalizeAllowedRecipeIds JUndefined = Some []"
| "normalizeAllowedRecipeIds JNull = Some []"
| "normalizeAllowedRecipeIds (JArr vs) =
     (if list_all valid_recipe_id vs then Some (map the_str vs) else None)"
| "normalizeAllowedRecipeIds _ = None"

definition generic_root_reasons :: "string \<Rightarrow> string list" where
  "generic_root_reasons root = concat (map (\<lambda>forbidden.
     if forbidden \<noteq> [] \<and> (root = forbidden \<or> isWithin root forbidden)
     then [''generic_root_rejected:'' @ root] else []) FORBIDDEN_ROOT_PATTERNS)"

text \<open>The export checks: \<open>None\<close> when the entry passes, or exports nothing.\<close>

definition export_refusal :: "project_root_input \<Rightarrow> string option" where
  "export_refusal e =
     (if in_patchExportAllowed e = Some True then
        (case in_exportDestination e of
           None \<Rightarrow> Some (''export_destination_not_canonical:'' @ in_projectId e)
         | Some d \<Rightarrow>
             if \<not> isCanonicalForm d
             then Some (''export_destination_not_canonical:'' @ in_projectId e)
             else if List.member FORBIDDEN_ROOT_PATTERNS d
             then Some (''export_destination_forbidden:'' @ in_projectId e)
             else if d = in_canonicalRoot e \<or> isWithin (in_canonicalRoot e) d \<or>
               isWithin d (in_canonicalRoot e)
             then Some (''export_destination_overlaps_live_root:'' @ in_projectId e)
             else None)
      else None)"

definition normalize_entry :: "project_root_input \<Rightarrow> string list \<Rightarrow> project_root_entry" where
  "normalize_entry e ids =
     \<lparr>projectId = in_projectId e,
      canonicalRoot = in_canonicalRoot e,
      displayName = (case in_displayName e of None \<Rightarrow> in_projectId e | Some n \<Rightarrow> n),
      enabled = (in_enabled e \<noteq> Some False),
      readAllowed = (in_readAllowed e \<noteq> Some False),
      candidateWorkspaceAllowed = (in_candidateWorkspaceAllowed e = Some True),
      engineeringAllowed = (in_engineeringAllowed e = Some True),
      verificationAllowed = (in_verificationAllowed e = Some True),
      entry_allowedRecipeIds = ids,
      authorshipAllowed = (in_authorshipAllowed e = Some True),
      operationAllowed = (in_operationAllowed e = Some True),
      patchExportAllowed = (in_patchExportAllowed e = Some True),
      exportDestinationCanonicalRoot =
        (if in_patchExportAllowed e = Some True then in_exportDestination e else None)\<rparr>"

text \<open>
  One round of the loop over the raw entries. A generic root only adds reasons; every other
  refusal also skips the entry.
\<close>

definition register_entry ::
  "project_root_input \<Rightarrow> string list \<times> project_root_entry list \<times> string list \<Rightarrow>
   string list \<times> project_root_entry list \<times> string list" where
  "register_entry e st =
     (case st of (reasons, es, rs) \<Rightarrow>
        if length (in_projectId e) = 0 \<or> length (in_projectId e) > 128
        then (reasons @ [''project_id_invalid''], es, rs)
        else if \<not> isCanonicalForm (in_canonicalRoot e)
        then (reasons @ [''canonical_root_not_canonical:'' @ in_projectId e], es, rs)
        else let reasons' = reasons @ generic_root_reasons (in_canonicalRoot e) in
          if find_entry es (in_projectId e) \<noteq> None
          then (reasons' @ [''duplicate_project_id:'' @ in_projectId e], es, rs)
          else if List.member rs (in_canonicalRoot e)
          then (reasons' @ [''duplicate_canonical_root:'' @ in_canonicalRoot e], es, rs)
          else (case normalizeAllowedRecipeIds (in_allowedRecipeIds e) of
              None \<Rightarrow> (reasons' @ [''allowed_recipe_ids_invalid:'' @ in_projectId e], es, rs)
            | Some ids \<Rightarrow>
                (case export_refusal e of
                   Some r \<Rightarrow> (reasons' @ [r], es, rs)
                 | None \<Rightarrow> (reasons', es @ [normalize_entry e ids], rs @ [in_canonicalRoot e]))))"

definition validateProjectRootRegistry ::
  "project_root_input list \<Rightarrow> string list + project_root_registry" where
  "validateProjectRootRegistry raw =
     (case fold register_entry raw ([], [], []) of (reasons, es, rs) \<Rightarrow>
        if length reasons > 0 then Inl reasons else Inr \<lparr>registry_entries = es, registry_roots = rs\<rparr>)"

definition isVerificationRecipeAllowed :: "project_root_entry \<Rightarrow> string \<Rightarrow> bool" where
  "isVerificationRecipeAllowed entry recipeId \<longleftrightarrow>
     (if \<not> verificationAllowed entry then False
      else if length recipeId < 1 then False
      else List.member (entry_allowedRecipeIds entry) recipeId)"

definition isAuthorshipAllowed :: "project_root_entry \<Rightarrow> bool" where
  "isAuthorshipAllowed entry \<longleftrightarrow> authorshipAllowed entry"

definition isOperationAllowed :: "project_root_entry \<Rightarrow> bool" where
  "isOperationAllowed entry \<longleftrightarrow> operationAllowed entry"

definition isPatchExportAllowed :: "project_root_entry \<Rightarrow> bool" where
  "isPatchExportAllowed entry \<longleftrightarrow>
     patchExportAllowed entry \<and>
     (case exportDestinationCanonicalRoot entry of None \<Rightarrow> False | Some d \<Rightarrow> length d > 0)"

datatype access_kind = Access_read | Access_workspace | Access_engineering

definition classifyProjectRootAccess ::
  "project_root_registry \<Rightarrow> string \<Rightarrow> string \<Rightarrow> access_kind \<Rightarrow> string + project_root_entry" where
  "classifyProjectRootAccess registry pid path kind =
     (case find_entry (registry_entries registry) pid of
        None \<Rightarrow> Inl ''unknown_project''
      | Some entry \<Rightarrow>
          if \<not> enabled entry then Inl ''project_disabled''
          else if \<not> isCanonicalForm path then Inl ''path_not_canonical''
          else if \<not> isWithin (canonicalRoot entry) path then Inl ''path_outside_project_root''
          else if kind = Access_read \<and> \<not> readAllowed entry then Inl ''read_not_allowed''
          else if kind = Access_workspace \<and> \<not> candidateWorkspaceAllowed entry
          then Inl ''workspace_not_allowed''
          else if kind = Access_engineering \<and> \<not> engineeringAllowed entry
          then Inl ''engineering_not_allowed''
          else Inr entry)"

section \<open>The registry invariant\<close>

text \<open>What one accepted entry satisfies.\<close>

definition entry_wf :: "project_root_entry \<Rightarrow> bool" where
  "entry_wf e \<longleftrightarrow>
     1 \<le> length (projectId e) \<and> length (projectId e) \<le> 128 \<and>
     isCanonicalForm (canonicalRoot e) \<and>
     (\<forall>r \<in> set (entry_allowedRecipeIds e). 1 \<le> length r \<and> length r \<le> 128) \<and>
     (patchExportAllowed e \<longrightarrow>
        (\<exists>d. exportDestinationCanonicalRoot e = Some d \<and> isCanonicalForm d \<and>
           d \<notin> set FORBIDDEN_ROOT_PATTERNS \<and>
           \<not> isWithin (canonicalRoot e) d \<and> \<not> isWithin d (canonicalRoot e))) \<and>
     (\<not> patchExportAllowed e \<longrightarrow> exportDestinationCanonicalRoot e = None)"

definition registry_inv :: "string list \<times> project_root_entry list \<times> string list \<Rightarrow> bool" where
  "registry_inv st \<longleftrightarrow> (case st of (reasons, es, rs) \<Rightarrow>
     list_all entry_wf es \<and> rs = map canonicalRoot es \<and>
     distinct (map projectId es) \<and> distinct rs \<and>
     (reasons = [] \<longrightarrow> (\<forall>e \<in> set es. \<forall>f \<in> set FORBIDDEN_ROOT_PATTERNS. \<not> isWithin (canonicalRoot e) f)))"

lemma find_entry_None: "find_entry es pid = None \<longleftrightarrow> pid \<notin> set (map projectId es)"
  by (auto simp: find_entry_def find_None_iff)

lemma find_entry_Some: "find_entry es pid = Some e \<Longrightarrow> e \<in> set es \<and> projectId e = pid"
  by (auto simp: find_entry_def find_Some_iff)

lemma normalize_recipes:
  "normalizeAllowedRecipeIds v = Some ids \<Longrightarrow> r \<in> set ids \<Longrightarrow> 1 \<le> length r \<and> length r \<le> 128"
proof (induction v rule: normalizeAllowedRecipeIds.induct)
  case (3 vs)
  have "valid_recipe_id w \<Longrightarrow> 1 \<le> length (the_str w) \<and> length (the_str w) \<le> 128" for w
    by (cases w) (auto simp: not_less Suc_le_eq)
  with 3 show ?case by (auto simp: list_all_iff split: if_splits)
qed auto

lemma export_refusal_None:
  "export_refusal e = None \<Longrightarrow> in_patchExportAllowed e = Some True \<Longrightarrow>
     \<exists>d. in_exportDestination e = Some d \<and> isCanonicalForm d \<and> d \<notin> set FORBIDDEN_ROOT_PATTERNS \<and>
       \<not> isWithin (in_canonicalRoot e) d \<and> \<not> isWithin d (in_canonicalRoot e)"
  by (auto simp: export_refusal_def split: option.splits if_splits)

lemma normalize_entry_wf:
  assumes "1 \<le> length (in_projectId e)" "length (in_projectId e) \<le> 128"
    and "isCanonicalForm (in_canonicalRoot e)"
    and "normalizeAllowedRecipeIds (in_allowedRecipeIds e) = Some ids"
    and "export_refusal e = None"
  shows "entry_wf (normalize_entry e ids)"
  using assms normalize_recipes [OF assms(4)] export_refusal_None [OF assms(5)]
  by (auto simp: entry_wf_def normalize_entry_def)

lemma generic_root_reasons_Nil:
  "generic_root_reasons r = [] \<Longrightarrow> \<forall>f \<in> set FORBIDDEN_ROOT_PATTERNS. \<not> isWithin r f"
  by (auto simp: generic_root_reasons_def FORBIDDEN_ROOT_PATTERNS_def split: if_splits)

lemma register_entry_inv:
  assumes "registry_inv st"
  shows "registry_inv (register_entry e st)"
proof -
  obtain reasons es rs where st: "st = (reasons, es, rs)" by (cases st)
  show ?thesis
  proof (cases "snd (register_entry e st) = (es, rs)")
    case True
    then obtain more where "register_entry e st = (reasons @ more, es, rs)"
      by (auto simp: st register_entry_def Let_def split: if_splits option.splits)
    with assms show ?thesis by (auto simp: st registry_inv_def)
  next
    case False
    then obtain ids where ids: "normalizeAllowedRecipeIds (in_allowedRecipeIds e) = Some ids"
      and ok: "0 < length (in_projectId e)" "length (in_projectId e) \<le> 128"
        "isCanonicalForm (in_canonicalRoot e)" "export_refusal e = None"
        "find_entry es (in_projectId e) = None" "in_canonicalRoot e \<notin> set rs"
      and new: "register_entry e st = (reasons @ generic_root_reasons (in_canonicalRoot e),
        es @ [normalize_entry e ids], rs @ [in_canonicalRoot e])"
      by (auto simp: st register_entry_def Let_def split: if_splits option.splits)
    have "entry_wf (normalize_entry e ids)"
      using ok ids by (intro normalize_entry_wf) (auto simp: Suc_le_eq)
    moreover have "projectId (normalize_entry e ids) = in_projectId e"
      "canonicalRoot (normalize_entry e ids) = in_canonicalRoot e"
      by (simp_all add: normalize_entry_def)
    ultimately have "registry_inv (reasons @ generic_root_reasons (in_canonicalRoot e),
        es @ [normalize_entry e ids], rs @ [in_canonicalRoot e])"
      using assms ok generic_root_reasons_Nil [of "in_canonicalRoot e"]
      by (auto simp: st registry_inv_def find_entry_None)
    then show ?thesis by (simp only: new)
  qed
qed

lemma validated_registry_inv:
  assumes "validateProjectRootRegistry raw = Inr reg"
  shows "registry_inv ([], registry_entries reg, registry_roots reg)"
proof -
  have "registry_inv st \<Longrightarrow> registry_inv (fold register_entry raw st)" for st
    by (induction raw arbitrary: st) (simp_all add: register_entry_inv del: split_paired_All)
  from this [of "([], [], [])"] have "registry_inv (fold register_entry raw ([], [], []))"
    by (simp add: registry_inv_def)
  with assms show ?thesis
    by (auto simp: validateProjectRootRegistry_def split: prod.splits if_splits)
qed

section \<open>Properties\<close>

text \<open>
  An accepted registry is well formed: project ids and roots are pairwise distinct,
  every root is canonical and contains none of the generic roots, every recipe id is bounded,
  and an export destination exists exactly for the entries that may export, is canonical, not
  generic, and neither inside nor around the project's own root.
\<close>

theorem validated_registry_wf:
  "validateProjectRootRegistry raw = Inr reg \<Longrightarrow>
     list_all entry_wf (registry_entries reg) \<and> registry_roots reg = map canonicalRoot (registry_entries reg) \<and>
     distinct (map projectId (registry_entries reg)) \<and> distinct (registry_roots reg) \<and>
     (\<forall>e \<in> set (registry_entries reg). \<forall>f \<in> set FORBIDDEN_ROOT_PATTERNS. \<not> isWithin (canonicalRoot e) f)"
  by (drule validated_registry_inv) (auto simp: registry_inv_def)

definition example_entry :: project_root_input where
  "example_entry =
     \<lparr>in_projectId = ''a'', in_canonicalRoot = ''/srv/a'', in_displayName = None,
      in_enabled = None, in_readAllowed = None, in_candidateWorkspaceAllowed = None,
      in_engineeringAllowed = None, in_verificationAllowed = None,
      in_allowedRecipeIds = JArr [JStr ''unit''], in_authorshipAllowed = None,
      in_operationAllowed = None, in_patchExportAllowed = Some True,
      in_exportDestination = Some ''/out''\<rparr>"

theorem validated_registry_wf_witness:
  "\<exists>reg. validateProjectRootRegistry [example_entry] = Inr reg \<and> distinct (registry_roots reg) \<and>
     registry_entries reg \<noteq> []"
proof -
  have "validateProjectRootRegistry [example_entry] =
      Inr \<lparr>registry_entries = [normalize_entry example_entry [''unit'']], registry_roots = [''/srv/a'']\<rparr>"
    by code_simp
  with validated_registry_wf [OF this] show ?thesis by auto
qed

text \<open>
  Access is decided by the registered grants alone: a request is granted exactly when
  the named project is registered and enabled, the path is inside its canonical root, and
  the grant for the requested kind of access is set; the entry returned is the registered one.
\<close>

theorem classifyProjectRootAccess_iff:
  "classifyProjectRootAccess reg pid path kind = Inr entry \<longleftrightarrow>
     find_entry (registry_entries reg) pid = Some entry \<and> enabled entry \<and>
     isWithin (canonicalRoot entry) path \<and>
     (case kind of Access_read \<Rightarrow> readAllowed entry
      | Access_workspace \<Rightarrow> candidateWorkspaceAllowed entry
      | Access_engineering \<Rightarrow> engineeringAllowed entry)"
  by (cases kind)
    (auto simp: classifyProjectRootAccess_def dest: posix.inside_canon split: option.splits)

end
