(* ===== verification/Engineering_Actions.thy ===== *)
theory Engineering_Actions
  imports Sandbox_Classify Js_Regex
begin

text \<open>
  The structured action vocabulary and its validation,
  \<^verbatim>\<open>apps/sandbox-policy/src/engineering.ts\<close>. An action is an unknown JavaScript
  value. The conversion \<open>Number(x)\<close> of a value that is not a number, used for
  \<open>maxMatches\<close> only, is the parameter \<open>toNum\<close>.
\<close>

section \<open>Vocabulary\<close>

definition ENGINEERING_ACTION_TYPES :: "string list" where
  "ENGINEERING_ACTION_TYPES =
     [''inspect_project_file'', ''list_project_directory'', ''search_project_text'',
      ''inspect_project_git_status'', ''inspect_project_git_diff'', ''inspect_project_git_log'',
      ''request_workspace'', ''list_workspace_directory'', ''read_workspace_file'',
      ''search_workspace_text'', ''write_workspace_file'', ''apply_workspace_patch'',
      ''delete_workspace_file'', ''execute_recipe'', ''run_diagnostic'',
      ''generate_candidate_patch'', ''generate_report_artifact'', ''commit_candidate'',
      ''request_owner_approval'', ''complete'', ''abort'']"

definition ENGINEERING_META_ACTIONS :: "string list" where
  "ENGINEERING_META_ACTIONS = [''request_owner_approval'', ''complete'', ''abort'']"

record engineering_limits =
  PROJECT_ID_MAX :: int
  WORKSPACE_ID_MAX :: int
  RELATIVE_PATH_MAX :: int
  PATTERN_MAX :: int
  RECIPE_ID_MAX :: int
  DIAGNOSTIC_ID_MAX :: int
  MESSAGE_MAX :: int
  REASON_MAX :: int
  CONTENT_BASE64_MAX :: int
  PATCH_BASE64_MAX :: int
  MAX_MATCHES_MAX :: int
  SUMMARY_MAX :: int

definition ENGINEERING_LIMITS :: engineering_limits where
  "ENGINEERING_LIMITS =
     \<lparr>PROJECT_ID_MAX = 128, WORKSPACE_ID_MAX = 64, RELATIVE_PATH_MAX = 1024, PATTERN_MAX = 256,
      RECIPE_ID_MAX = 128, DIAGNOSTIC_ID_MAX = 128, MESSAGE_MAX = 2048, REASON_MAX = 1024,
      CONTENT_BASE64_MAX = 8 * 1024 * 1024, PATCH_BASE64_MAX = 16 * 1024 * 1024,
      MAX_MATCHES_MAX = 10000, SUMMARY_MAX = 8192\<rparr>"

section \<open>Forbidden material\<close>

definition upper :: "char \<Rightarrow> bool" where "upper c \<longleftrightarrow> in_range (CHR ''A'') (CHR ''Z'') c"
definition lower :: "char \<Rightarrow> bool" where "lower c \<longleftrightarrow> in_range (CHR ''a'') (CHR ''z'') c"
definition digit :: "char \<Rightarrow> bool" where "digit c \<longleftrightarrow> in_range (CHR ''0'') (CHR ''9'') c"
definition alnum :: "char \<Rightarrow> bool" where "alnum c \<longleftrightarrow> upper c \<or> lower c \<or> digit c"

definition one_of :: "string \<Rightarrow> rx" where
  "one_of cs = Rx_class (\<lambda>c. List.member cs c)"

definition SHELL_METACHAR :: rx where
  "SHELL_METACHAR = one_of (''|;&><$(){}[]*?!#'' @ [CHR 0x60, CHR 0x0A, CHR 0x0D, CHR 0x09])"

definition assigned :: "rx list \<Rightarrow> rx" where
  "assigned rs = rx_seqs (rs @ [Rx_star (Rx_class js_space), one_of '':=''])"

definition CREDENTIAL_SHAPES :: rx where
  "CREDENTIAL_SHAPES = rx_ci (rx_alts
     (rx_seqs [rx_str ''-----BEGIN'', Rx_star (Rx_class (\<lambda>c. upper c \<or> c = CHR '' '')),
        rx_opt (Rx_alt (rx_str ''PRIVATE'') (rx_str ''PUBLIC'')), rx_opt (rx_str '' ''),
        rx_str ''KEY-----''])
     [rx_seqs [rx_str ''AKIA'', rx_times 16 (Rx_class (\<lambda>c. digit c \<or> upper c))],
      rx_seqs [rx_str ''ASIA'', rx_times 16 (Rx_class (\<lambda>c. digit c \<or> upper c))],
      rx_seqs [rx_str ''ghp_'', rx_times 36 (Rx_class alnum)],
      rx_seqs [rx_str ''github_pat_'', rx_times 40 (Rx_class (\<lambda>c. alnum c \<or> c = CHR ''_''))],
      rx_seqs [rx_str ''xox'', one_of ''baprs'', rx_str ''-'',
        rx_at_least 10 (Rx_class (\<lambda>c. alnum c \<or> c = CHR ''-''))],
      rx_seqs [rx_str ''Bearer '',
        rx_at_least 10 (Rx_class (\<lambda>c. alnum c \<or> List.member ''._-'' c))],
      assigned [rx_str ''password''],
      assigned [rx_str ''api'', rx_opt (one_of ''_-''), rx_str ''key''],
      assigned [rx_str ''secret'', rx_opt (one_of ''_-''), rx_str ''key''],
      assigned [rx_str ''client'', rx_opt (one_of ''_-''), rx_str ''secret'']])"

definition POLICY_ID_SHAPE :: rx where
  "POLICY_ID_SHAPE = rx_ci (rx_alts (rx_str ''ASHLEY-SANDBOX'')
     [rx_times 64 (Rx_class (\<lambda>c. digit c \<or> in_range (CHR ''a'') (CHR ''f'') c)),
      rx_str ''sessionUuid'', rx_str ''policyHash'', rx_str ''envelope'', rx_str ''signingKey'',
      rx_str ''trustedKey''])"

definition scanForbiddenMaterial :: "string \<Rightarrow> bool \<Rightarrow> string option" where
  "scanForbiddenMaterial field allowFreeText =
     (if rx_test CREDENTIAL_SHAPES field then Some ''credential_shaped_payload''
      else if \<not> allowFreeText \<and> rx_test POLICY_ID_SHAPE field
      then Some ''policy_or_signing_identifier''
      else if \<not> allowFreeText \<and> rx_test SHELL_METACHAR field
      then Some ''shell_metachar_forbidden''
      else None)"

section \<open>Field checks\<close>

text \<open>\<open>isBoundedString(value, max)\<close>; no call of the file passes a minimum other than 0.\<close>

fun isBoundedString :: "js_value \<Rightarrow> int \<Rightarrow> bool" where
  "isBoundedString (JStr s) m = (int (length s) \<ge> 0 \<and> int (length s) \<le> m)"
| "isBoundedString _ m = False"

definition isCanonicalRelativePath :: "js_value \<Rightarrow> bool" where
  "isCanonicalRelativePath v \<longleftrightarrow>
     (if \<not> isBoundedString v (RELATIVE_PATH_MAX ENGINEERING_LIMITS) then False
      else let s = the_str v in
        if starts_with s ''/'' \<or> starts_with s [CHR 0x5C] then False
        else if js_includes s ''..'' then False
        else if js_includes s [CHR 0x5C] then False
        else if js_includes s [CHR 0x00] then False
        else if js_includes s '':'' then False
        else True)"

text \<open>The action to capability mapping; \<open>None\<close> for the meta actions.\<close>

definition engineeringActionCapability :: "string \<Rightarrow> string option" where
  "engineeringActionCapability t =
     (if List.member [''inspect_project_file'', ''list_project_directory'', ''search_project_text'',
          ''inspect_project_git_status'', ''inspect_project_git_diff'', ''inspect_project_git_log''] t
      then Some ''engineering_project_read''
      else if t = ''request_workspace'' then Some ''candidate_workspace_create''
      else if List.member [''list_workspace_directory'', ''read_workspace_file'',
          ''search_workspace_text'', ''write_workspace_file'', ''delete_workspace_file''] t
      then Some ''candidate_workspace_read_write_delete''
      else if t = ''apply_workspace_patch'' then Some ''candidate_patch_generate''
      else if t = ''execute_recipe'' then Some ''fixed_build_recipe''
      else if t = ''run_diagnostic'' then Some ''bounded_diagnostic_execution''
      else if t = ''generate_candidate_patch'' then Some ''candidate_patch_generate''
      else if t = ''generate_report_artifact'' then Some ''candidate_report_artifact_generate''
      else if t = ''commit_candidate'' then Some ''candidate_repository_git_write''
      else None)"

type_synonym action_error = "string \<times> string"

text \<open>
  A bounded field scanned for forbidden material (\<open>pattern\<close>, \<open>recipeId\<close>, \<open>diagnosticId\<close>
  without free text; \<open>message\<close>, \<open>reason\<close>, \<open>summary\<close> with it).
\<close>

definition scanned_field ::
  "js_value \<Rightarrow> string \<Rightarrow> int \<Rightarrow> string \<Rightarrow> bool \<Rightarrow> action_error option" where
  "scanned_field f key m code allowFreeText =
     (let v = js_prop f key in
      if v = JUndefined then None
      else if \<not> isBoundedString v m then Some (code, key @ '' out of bounds'')
      else (case scanForbiddenMaterial (the_str v) allowFreeText of
          Some bad \<Rightarrow> Some (bad, key @ '' rejected'')
        | None \<Rightarrow> None))"

definition base64_field ::
  "js_value \<Rightarrow> string \<Rightarrow> int \<Rightarrow> (char \<Rightarrow> bool) \<Rightarrow> action_error \<Rightarrow> action_error \<Rightarrow>
   action_error option" where
  "base64_field f key m ok too_large malformed =
     (let v = js_prop f key in
      if v = JUndefined then None
      else if \<not> is_str v \<or> int (length (the_str v)) > m then Some too_large
      else if \<not> list_all ok (the_str v) then Some malformed
      else None)"

definition requireProjectId :: "string \<Rightarrow> bool" where
  "requireProjectId t \<longleftrightarrow> starts_with t ''inspect_project'' \<or> t = ''list_project_directory'' \<or>
     t = ''search_project_text''"

definition requireWorkspaceId :: "string \<Rightarrow> bool" where
  "requireWorkspaceId t \<longleftrightarrow> starts_with t ''list_workspace'' \<or> starts_with t ''read_workspace'' \<or>
     starts_with t ''write_workspace'' \<or> starts_with t ''search_workspace'' \<or>
     t = ''apply_workspace_patch'' \<or> t = ''generate_candidate_patch''"

definition content_char :: "char \<Rightarrow> bool" where
  "content_char c \<longleftrightarrow> alnum c \<or> List.member (''+/='' @ [CHR 0x0D, CHR 0x0A]) c"

definition patch_char :: "char \<Rightarrow> bool" where
  "patch_char c \<longleftrightarrow> alnum c \<or> List.member (''+/=@ -'' @ [CHR 0x0D, CHR 0x0A]) c"

definition max_matches_refused :: "(js_value \<Rightarrow> js_num) \<Rightarrow> js_value \<Rightarrow> bool" where
  "max_matches_refused toNum v \<longleftrightarrow>
     (case (case v of JNum n \<Rightarrow> n | _ \<Rightarrow> toNum v) of
        NInt mm \<Rightarrow> mm < 1 \<or> mm > MAX_MATCHES_MAX ENGINEERING_LIMITS
      | NOther _ \<Rightarrow> True)"

text \<open>The checks on the fields, in the order of the code; the first refusal is returned.\<close>

definition field_checks :: "(js_value \<Rightarrow> js_num) \<Rightarrow> string \<Rightarrow> js_value \<Rightarrow> action_error option list" where
  "field_checks toNum t f =
     (let L = ENGINEERING_LIMITS in
      [if requireProjectId t \<and> \<not> isBoundedString (js_prop f ''projectId'') (PROJECT_ID_MAX L)
       then Some (''project_id_invalid'', ''projectId required'') else None,
       if requireWorkspaceId t \<and> \<not> isBoundedString (js_prop f ''workspaceId'') (WORKSPACE_ID_MAX L)
       then Some (''workspace_id_invalid'', ''workspaceId required'') else None,
       if js_prop f ''relativePath'' \<noteq> JUndefined \<and>
         \<not> isCanonicalRelativePath (js_prop f ''relativePath'')
       then Some (''relative_path_invalid'', ''relativePath must be a canonical relative path'')
       else None,
       scanned_field f ''pattern'' (PATTERN_MAX L) ''pattern_invalid'' False,
       scanned_field f ''recipeId'' (RECIPE_ID_MAX L) ''recipe_id_invalid'' False,
       scanned_field f ''diagnosticId'' (DIAGNOSTIC_ID_MAX L) ''diagnostic_id_invalid'' False,
       base64_field f ''contentBase64'' (CONTENT_BASE64_MAX L) content_char
         (''content_too_large'', ''contentBase64 out of bounds'')
         (''content_malformed'', ''contentBase64 not base64''),
       base64_field f ''patchBase64'' (PATCH_BASE64_MAX L) patch_char
         (''patch_too_large'', ''patchBase64 out of bounds'')
         (''patch_malformed'', ''patchBase64 malformed''),
       scanned_field f ''message'' (MESSAGE_MAX L) ''message_invalid'' True,
       scanned_field f ''reason'' (REASON_MAX L) ''reason_invalid'' True,
       scanned_field f ''summary'' (SUMMARY_MAX L) ''summary_invalid'' True,
       if js_prop f ''maxMatches'' \<noteq> JUndefined \<and> max_matches_refused toNum (js_prop f ''maxMatches'')
       then Some (''max_matches_invalid'', ''maxMatches out of bounds'') else None])"

fun first_refusal :: "'a option list \<Rightarrow> 'a option" where
  "first_refusal [] = None"
| "first_refusal (None # xs) = first_refusal xs"
| "first_refusal (Some e # xs) = Some e"

fun is_object :: "js_value \<Rightarrow> bool" where
  "is_object (JObj fs) = True"
| "is_object (JArr vs) = True"
| "is_object _ = False"

definition validateEngineeringAction ::
  "(js_value \<Rightarrow> js_num) \<Rightarrow> js_value \<Rightarrow> action_error + string option" where
  "validateEngineeringAction toNum action =
     (if \<not> is_object action then Inl (''action_invalid'', ''action must be an object'')
      else let ty = js_prop action ''type''; f = js_prop action ''fields'' in
        if \<not> (is_str ty \<and> List.member ENGINEERING_ACTION_TYPES (the_str ty))
        then Inl (''unknown_action'', ''unknown action: '' @ js_String ty)
        else if \<not> is_object f \<or> is_arr f then Inl (''fields_invalid'', ''fields must be an object'')
        else (case first_refusal (field_checks toNum (the_str ty) f) of
            Some e \<Rightarrow> Inl e
          | None \<Rightarrow> Inr (engineeringActionCapability (the_str ty))))"

section \<open>Facts about accepted actions\<close>

lemma first_refusal_None: "first_refusal xs = None \<longleftrightarrow> (\<forall>x \<in> set xs. x = None)"
  by (induction xs rule: first_refusal.induct) auto

lemma scanned_field_None:
  assumes "scanned_field f key m code free = None" and "js_prop f key \<noteq> JUndefined"
  shows "\<exists>s. js_prop f key = JStr s \<and> int (length s) \<le> m \<and> \<not> rx_test CREDENTIAL_SHAPES s \<and>
    (\<not> free \<longrightarrow> \<not> rx_test POLICY_ID_SHAPE s \<and> \<not> rx_test SHELL_METACHAR s)"
  using assms
  by (cases "js_prop f key")
    (auto simp: scanned_field_def scanForbiddenMaterial_def Let_def split: if_splits)

lemma no_metachar:
  "rx_test (one_of cs) s \<longleftrightarrow> (\<exists>c \<in> set s. c \<in> set cs)"
proof -
  have "rx_lang (one_of cs) u \<longleftrightarrow> (\<exists>c. u = [c] \<and> c \<in> set cs)" for u
    unfolding one_of_def by (auto elim: rx_lang_elims intro: lang_class)
  then show ?thesis
    by (auto simp: rx_test_iff) (metis append_Cons append_Nil in_set_conv_decomp)
qed

lemma relative_path_chars:
  assumes "isCanonicalRelativePath (JStr s)"
  shows "length s \<le> 1024" "\<not> starts_with s ''/''" "CHR 0x5C \<notin> set s" "CHR 0x00 \<notin> set s"
    "CHR '':'' \<notin> set s" "\<not> js_includes s ''..''"
  using assms by (auto simp: isCanonicalRelativePath_def ENGINEERING_LIMITS_def split: if_splits)

lemma resolve_without_dotdot:
  "''..'' \<notin> set ws \<Longrightarrow>
     resolve_segments segs ws = Some (segs @ filter (\<lambda>w. w \<noteq> [] \<and> w \<noteq> ''.'') ws)"
  by (induction segs ws rule: resolve_segments.induct) auto

lemma split_no_dotdot:
  assumes "\<not> js_includes s ''..''"
  shows "''..'' \<notin> set (js_split d s)"
proof
  assume "''..'' \<in> set (js_split d s)"
  then obtain us vs where "js_split d s = us @ ''..'' # vs"
    by (auto simp: in_set_conv_decomp)
  then have "s = js_join [d] (us @ ''..'' # vs)"
    by (metis js_join_split)
  moreover have "\<exists>a b. js_join [d] (us @ w # vs) = a @ w @ b" for w
  proof (induction us)
    case Nil
    then show ?case by (cases vs) (auto intro: exI [of _ "[]"])
  next
    case (Cons u us)
    then obtain a b where "js_join [d] (us @ w # vs) = a @ w @ b" by blast
    then have "js_join [d] ((u # us) @ w # vs) = (u @ [d] @ a) @ w @ b"
      by (cases us) auto
    then show ?case by blast
  qed
  then obtain a b where "js_join [d] (us @ ''..'' # vs) = a @ ''..'' @ b" by blast
  ultimately show False
    using assms js_includes_iff by metis
qed

section \<open>Properties\<close>

lemma spec_case:
  "(case x of None \<Rightarrow> False | Some y \<Rightarrow> P y \<and> Q) \<longleftrightarrow> (\<exists>y. x = Some y \<and> P y) \<and> Q"
  by (cases x) auto

lemma action_capability_registered:
  "list_all (\<lambda>t. case engineeringActionCapability t of
       None \<Rightarrow> List.member ENGINEERING_META_ACTIONS t
     | Some c \<Rightarrow> (case capabilitySpec c of None \<Rightarrow> False
         | Some spec \<Rightarrow> cap_class spec = Class_delegated_safe \<and>
             \<not> List.member ENGINEERING_META_ACTIONS t)) ENGINEERING_ACTION_TYPES"
  by code_simp

text \<open>
  An accepted action consumes a delegated-safe capability or none: its type is in the
  closed vocabulary, the capability returned is the one of the mapping and, unless the action
  is one of the three meta actions, is registered with class delegated-safe. No action
  reaches an owner-approvable or denied capability.
\<close>

theorem accepted_action_delegated_safe:
  assumes "validateEngineeringAction toNum action = Inr cap"
  shows "\<exists>t. js_prop action ''type'' = JStr t \<and> t \<in> set ENGINEERING_ACTION_TYPES \<and>
    cap = engineeringActionCapability t \<and>
    (cap = None \<longleftrightarrow> t \<in> set ENGINEERING_META_ACTIONS) \<and>
    (\<forall>c. cap = Some c \<longrightarrow>
      (\<exists>spec. capabilitySpec c = Some spec \<and> cap_class spec = Class_delegated_safe))"
proof -
  from assms obtain t where t: "js_prop action ''type'' = JStr t" "t \<in> set ENGINEERING_ACTION_TYPES"
    "cap = engineeringActionCapability t"
    by (auto simp: validateEngineeringAction_def Let_def is_str_iff split: if_splits option.splits)
  from t(2) have "case engineeringActionCapability t of
       None \<Rightarrow> List.member ENGINEERING_META_ACTIONS t
     | Some c \<Rightarrow> (case capabilitySpec c of None \<Rightarrow> False
         | Some spec \<Rightarrow> cap_class spec = Class_delegated_safe \<and>
             \<not> List.member ENGINEERING_META_ACTIONS t)"
    using action_capability_registered unfolding list_all_iff by blast
  then have "(cap = None \<longleftrightarrow> t \<in> set ENGINEERING_META_ACTIONS) \<and>
    (\<forall>c. cap = Some c \<longrightarrow>
      (\<exists>spec. capabilitySpec c = Some spec \<and> cap_class spec = Class_delegated_safe))"
    unfolding t(3) [symmetric] spec_case by (cases cap) auto
  then show ?thesis
    by (intro exI [of _ t] conjI t) auto
qed

definition example_action :: js_value where
  "example_action = JObj [(''type'', JStr ''read_workspace_file''),
     (''fields'', JObj [(''workspaceId'', JStr ''w''), (''relativePath'', JStr ''a/b'')])]"

theorem accepted_action_delegated_safe_witness:
  "\<exists>spec. capabilitySpec ''candidate_workspace_read_write_delete'' = Some spec \<and>
     cap_class spec = Class_delegated_safe"
proof -
  have "validateEngineeringAction (\<lambda>_. NInt 0) example_action =
      Inr (Some ''candidate_workspace_read_write_delete'')"
    by code_simp
  from accepted_action_delegated_safe [OF this] show ?thesis by blast
qed

text \<open>
  What an accepted action may carry: every pattern, recipe id and diagnostic id is a
  bounded string without shell metacharacters and without a credential or policy identifier
  shape, every free-text field is a bounded string without a credential shape, and
  \<open>maxMatches\<close> is at most 10000.
\<close>

theorem accepted_action_fields:
  assumes "validateEngineeringAction toNum action = Inr cap"
  shows "let f = js_prop action ''fields'' in
    (\<forall>(key, m) \<in> {(''pattern'', 256), (''recipeId'', 128), (''diagnosticId'', 128)}.
       js_prop f key \<noteq> JUndefined \<longrightarrow>
       (\<exists>s. js_prop f key = JStr s \<and> int (length s) \<le> m \<and> \<not> rx_test CREDENTIAL_SHAPES s \<and>
          \<not> rx_test POLICY_ID_SHAPE s \<and> (\<forall>c \<in> set s. c \<notin> set ''|;&><$(){}[]*?!#''))) \<and>
    (\<forall>(key, m) \<in> {(''message'', 2048), (''reason'', 1024), (''summary'', 8192)}.
       js_prop f key \<noteq> JUndefined \<longrightarrow>
       (\<exists>s. js_prop f key = JStr s \<and> int (length s) \<le> m \<and> \<not> rx_test CREDENTIAL_SHAPES s)) \<and>
    (\<forall>n. js_prop f ''maxMatches'' = JNum (NInt n) \<longrightarrow> 1 \<le> n \<and> n \<le> 10000)"
proof -
  let ?f = "js_prop action ''fields''"
  from assms obtain t where refusal: "first_refusal (field_checks toNum t ?f) = None"
    by (auto simp: validateEngineeringAction_def Let_def split: if_splits option.splits)
  then have ok: "scanned_field ?f ''pattern'' 256 ''pattern_invalid'' False = None"
    "scanned_field ?f ''recipeId'' 128 ''recipe_id_invalid'' False = None"
    "scanned_field ?f ''diagnosticId'' 128 ''diagnostic_id_invalid'' False = None"
    "scanned_field ?f ''message'' 2048 ''message_invalid'' True = None"
    "scanned_field ?f ''reason'' 1024 ''reason_invalid'' True = None"
    "scanned_field ?f ''summary'' 8192 ''summary_invalid'' True = None"
    by (simp_all add: first_refusal_None field_checks_def Let_def ENGINEERING_LIMITS_def)
  have mm: "(if js_prop ?f ''maxMatches'' \<noteq> JUndefined \<and>
      max_matches_refused toNum (js_prop ?f ''maxMatches'')
      then Some (''max_matches_invalid'', ''maxMatches out of bounds'') else None) = None"
    using refusal unfolding first_refusal_None
    by (rule bspec) (simp add: field_checks_def Let_def)
  have meta: "\<not> rx_test SHELL_METACHAR s \<Longrightarrow> \<forall>c \<in> set s. c \<notin> set ''|;&><$(){}[]*?!#''" for s
    unfolding SHELL_METACHAR_def no_metachar by auto
  note ids = ok(1-3) [THEN scanned_field_None] and texts = ok(4-6) [THEN scanned_field_None]
  have "1 \<le> n \<and> n \<le> 10000" if "js_prop ?f ''maxMatches'' = JNum (NInt n)" for n
    using mm that by (simp add: max_matches_refused_def ENGINEERING_LIMITS_def split: if_splits)
  then show ?thesis
    using ids meta texts unfolding Let_def by simp blast
qed

theorem accepted_action_fields_witness:
  "1 \<le> (25::int) \<and> (25::int) \<le> 10000"
proof -
  let ?a = "JObj [(''type'', JStr ''search_workspace_text''),
       (''fields'', JObj [(''workspaceId'', JStr ''w''), (''maxMatches'', JNum (NInt 25))])]"
  have "validateEngineeringAction (\<lambda>_. NInt 0) ?a =
      Inr (Some ''candidate_workspace_read_write_delete'')"
    by code_simp
  from accepted_action_fields [OF this] show ?thesis by simp
qed



text \<open>
  The validator does not require what its messages name: an empty project id is
  accepted where "projectId required" is reported for a missing one, a workspace deletion is
  accepted without any workspace id, and the empty string and an unnormalized path count as
  canonical relative paths.
\<close>

theorem engineering_validation_gaps:
  "validateEngineeringAction toNum (JObj [(''type'', JStr ''inspect_project_file''),
       (''fields'', JObj [(''projectId'', JStr [])])]) = Inr (Some ''engineering_project_read'') \<and>
   validateEngineeringAction toNum (JObj [(''type'', JStr ''delete_workspace_file''),
       (''fields'', JObj [])]) = Inr (Some ''candidate_workspace_read_write_delete'') \<and>
   isCanonicalRelativePath (JStr []) \<and> isCanonicalRelativePath (JStr ''./a//b'')"
  by code_simp

end
