(* ===== verification/Sql_Tables.thy ===== *)
theory Sql_Tables
  imports Prelude
begin

text \<open>
  The fragment of SQL the stateful components use. A table is the list of its rows in rowid
  order; \<open>sql_update P f\<close> is \<open>UPDATE .. SET f WHERE P\<close>, \<open>sql_changes P\<close> the number of rows
  the statement changes, \<open>sql_get P\<close> the first row of a \<open>SELECT .. WHERE P\<close>. A value that
  violates a CHECK constraint makes the statement throw.
\<close>

section \<open>Statements\<close>

definition sql_update :: "('r \<Rightarrow> bool) \<Rightarrow> ('r \<Rightarrow> 'r) \<Rightarrow> 'r list \<Rightarrow> 'r list" where
  "sql_update P f rows = map (\<lambda>r. if P r then f r else r) rows"

definition sql_changes :: "('r \<Rightarrow> bool) \<Rightarrow> 'r list \<Rightarrow> nat" where
  "sql_changes P rows = length (filter P rows)"

fun sql_get :: "('r \<Rightarrow> bool) \<Rightarrow> 'r list \<Rightarrow> 'r option" where
  "sql_get P [] = None"
| "sql_get P (r # rows) = (if P r then Some r else sql_get P rows)"

definition sql_check :: "bool \<Rightarrow> unit throws" where
  "sql_check c = (if c then Inr () else Inl ''CHECK constraint failed'')"

text \<open>\<open>COALESCE(x, y)\<close>\<close>

definition coalesce :: "'a option \<Rightarrow> 'a option \<Rightarrow> 'a option" where
  "coalesce x y = (if x = None then y else x)"

text \<open>\<open>BEGIN IMMEDIATE .. COMMIT\<close>, with \<open>ROLLBACK\<close> and a rethrow when the body throws.\<close>

definition in_immediate_transaction ::
  "('db \<Rightarrow> ('a \<times> 'db) throws) \<Rightarrow> 'db \<Rightarrow> 'a throws \<times> 'db" where
  "in_immediate_transaction body db =
     (case body db of Inl err \<Rightarrow> (Inl err, db) | Inr (x, db') \<Rightarrow> (Inr x, db'))"

section \<open>Reading after writing\<close>

lemma sql_check_eq_Inr [simp]: "sql_check c = Inr u \<longleftrightarrow> c"
  by (simp add: sql_check_def)

lemma sql_check_passes [simp]: "c \<Longrightarrow> sql_check c = Inr ()"
  by (simp add: sql_check_def)

lemma sql_get_SomeD: "sql_get P rows = Some r \<Longrightarrow> r \<in> set rows \<and> P r"
  by (induction rows) (auto split: if_splits)

lemma sql_get_None_iff [simp]: "sql_get P rows = None \<longleftrightarrow> (\<forall>r \<in> set rows. \<not> P r)"
  by (induction rows) auto

lemma set_sql_update [simp]:
  "set (sql_update P f rows) = (\<lambda>r. if P r then f r else r) ` set rows"
  by (simp add: sql_update_def)

lemma length_sql_update [simp]: "length (sql_update P f rows) = length rows"
  by (simp add: sql_update_def)

lemma map_key_sql_update:
  assumes "\<And>r. P r \<Longrightarrow> key (f r) = key r"
  shows "map key (sql_update P f rows) = map key rows"
  using assms by (simp add: sql_update_def)

text \<open>A selection by key reads the updated row when the key is left alone.\<close>

lemma sql_get_update:
  assumes "\<And>r. P r \<Longrightarrow> key (f r) = key r"
  shows "sql_get (\<lambda>r. key r = k) (sql_update P f rows) =
    map_option (\<lambda>r. if P r then f r else r) (sql_get (\<lambda>r. key r = k) rows)"
  using assms by (induction rows) (auto simp: sql_update_def)

lemma sql_get_append:
  "sql_get P (rows @ rows') = (case sql_get P rows of Some r \<Rightarrow> Some r | None \<Rightarrow> sql_get P rows')"
  by (induction rows) auto

lemma sql_get_key:
  assumes "distinct (map key rows)" and "r \<in> set rows" and "key r = k"
  shows "sql_get (\<lambda>r. key r = k) rows = Some r"
  using assms by (induction rows) auto

lemma sql_changes_0 [simp]: "sql_changes P rows = 0 \<longleftrightarrow> (\<forall>r \<in> set rows. \<not> P r)"
  by (simp add: sql_changes_def filter_empty_conv)

lemma sql_changes_key:
  assumes "distinct (map key rows)"
  shows "sql_changes (\<lambda>r. key r = k \<and> Q r) rows =
    (case sql_get (\<lambda>r. key r = k) rows of Some r \<Rightarrow> if Q r then 1 else 0 | None \<Rightarrow> 0)"
  using assms
proof (induction rows)
  case (Cons r rows)
  then show ?case
    by (auto simp: sql_changes_def split: option.splits dest!: sql_get_SomeD)
qed (simp add: sql_changes_def)

section \<open>Row moves\<close>

text \<open>Every row stays or makes an \<open>M\<close> move; no row is lost, none is added.\<close>

definition rows_move :: "('r \<Rightarrow> 'r \<Rightarrow> bool) \<Rightarrow> 'r list \<Rightarrow> 'r list \<Rightarrow> bool" where
  "rows_move M rows rows' \<longleftrightarrow> list_all2 (\<lambda>r r'. r' = r \<or> M r r') rows rows'"

lemma rows_move_refl [simp]: "rows_move M rows rows"
  by (simp add: rows_move_def list_all2_refl)

lemma rows_move_update:
  "(\<And>r. r \<in> set rows \<Longrightarrow> P r \<Longrightarrow> M r (f r)) \<Longrightarrow> rows_move M rows (sql_update P f rows)"
  by (induction rows) (auto simp: rows_move_def sql_update_def)

lemma rows_move_key:
  assumes "rows_move M rows rows'" and "\<And>r r'. M r r' \<Longrightarrow> key r' = key r"
  shows "map key rows' = map key rows"
  using assms(1) unfolding rows_move_def
  by (induction rule: list_all2_induct) (auto dest: assms(2))

lemma rows_move_all:
  assumes "rows_move M rows rows'" and "\<And>r r'. M r r' \<Longrightarrow> Q r \<Longrightarrow> Q r'" and "\<forall>r \<in> set rows. Q r"
  shows "\<forall>r \<in> set rows'. Q r"
  using assms(1,3) unfolding rows_move_def
  by (induction rule: list_all2_induct) (auto dest: assms(2))

lemma rows_move_get:
  assumes "rows_move M rows rows'" and "\<And>r r'. M r r' \<Longrightarrow> key r' = key r"
    and "sql_get (\<lambda>r. key r = k) rows = Some r"
  shows "\<exists>r'. sql_get (\<lambda>r. key r = k) rows' = Some r' \<and> (r' = r \<or> M r r')"
  using assms(1,3) unfolding rows_move_def
  by (induction rule: list_all2_induct) (auto dest: assms(2) split: if_splits)

text \<open>A partial unique index stays satisfied when rows only leave its part of the table.\<close>

lemma rows_move_partial_unique:
  assumes "rows_move M rows rows'" and "\<And>r r'. M r r' \<Longrightarrow> A r' \<Longrightarrow> A r \<and> key r' = key r"
    and "distinct (map key (filter A rows))"
  shows "distinct (map key (filter A rows'))"
proof -
  have "set (map key (filter A rows')) \<subseteq> set (map key (filter A rows)) \<and>
      (distinct (map key (filter A rows)) \<longrightarrow> distinct (map key (filter A rows')))"
    using assms(1) unfolding rows_move_def
  proof (induction rule: list_all2_induct)
    case (Cons r rows r' rows')
    then have "A r' \<Longrightarrow> A r \<and> key r' = key r" using assms(2) by blast
    with Cons(3) show ?case by auto
  qed simp
  with assms(3) show ?thesis by blast
qed

end
