(* ===== verification/Transition_Systems.thy ===== *)
theory Transition_Systems
  imports Prelude
begin

text \<open>
  Interfaces of the stateful components. A component's operations are given as a step relation
  on its database; the locales state what a component promises of every single step and give
  what follows for any sequence of steps:
  \<^item> \<open>record_lifecycle\<close>: every record has a status, which only moves along the allowed edges;
  \<^item> \<open>growing_counter\<close>: a counter of the database never decreases;
  \<^item> \<open>preserved\<close>: an invariant every step keeps.
  Each is interpreted on the model of a component, in that component's theory.
\<close>

section \<open>Records with a status\<close>

locale record_lifecycle =
  fixes step :: "'db \<Rightarrow> 'db \<Rightarrow> bool"
    and status :: "'db \<Rightarrow> 'k \<Rightarrow> 'st option"
    and edge :: "'st \<Rightarrow> 'st \<Rightarrow> bool"
  assumes step_edge:
    "step db db' \<Longrightarrow> status db k = Some s \<Longrightarrow> \<exists>s'. status db' k = Some s' \<and> edge\<^sup>*\<^sup>* s s'"
begin

lemma never_lost:
  assumes "step\<^sup>*\<^sup>* db db'" and "status db k = Some s"
  shows "\<exists>s'. status db' k = Some s' \<and> edge\<^sup>*\<^sup>* s s'"
  using assms
proof (induction rule: rtranclp_induct)
  case (step db1 db2)
  then obtain s1 where "status db1 k = Some s1" "edge\<^sup>*\<^sup>* s s1" by blast
  with step_edge [OF step.hyps(2)] show ?case
    by (meson rtranclp_trans)
qed blast

lemma terminal_forever:
  assumes "step\<^sup>*\<^sup>* db db'" and "status db k = Some s" and "\<And>t. \<not> edge s t"
  shows "status db' k = Some s"
proof -
  from never_lost [OF assms(1,2)] obtain s' where s': "status db' k = Some s'" "edge\<^sup>*\<^sup>* s s'"
    by blast
  from s'(2) assms(3) have "s' = s"
    by (metis converse_rtranclpE)
  with s' show ?thesis by simp
qed

end

section \<open>Counters that only grow\<close>

locale growing_counter =
  fixes step :: "'db \<Rightarrow> 'db \<Rightarrow> bool"
    and counter :: "'db \<Rightarrow> int"
  assumes step_grows: "step db db' \<Longrightarrow> counter db \<le> counter db'"
begin

lemma steps_grow: "step\<^sup>*\<^sup>* db db' \<Longrightarrow> counter db \<le> counter db'"
  by (induction rule: rtranclp_induct) (auto dest: step_grows)

lemma past_value_gone:
  assumes "counter db < counter db1" and "step\<^sup>*\<^sup>* db1 db2"
  shows "counter db2 \<noteq> counter db"
  using steps_grow [OF assms(2)] assms(1) by simp

end

section \<open>Invariants\<close>

locale preserved =
  fixes step :: "'db \<Rightarrow> 'db \<Rightarrow> bool"
    and inv :: "'db \<Rightarrow> bool"
  assumes step_inv: "inv db \<Longrightarrow> step db db' \<Longrightarrow> inv db'"
begin

lemma steps_inv: "step\<^sup>*\<^sup>* db db' \<Longrightarrow> inv db \<Longrightarrow> inv db'"
  by (induction rule: rtranclp_induct) (auto intro: step_inv)

end

end
