(* ===== verification/Authority_Store.thy ===== *)
theory Authority_Store
  imports Sql_Tables Transition_Systems
begin

text \<open>
  The authority coordinator of the agent service,
  \<^verbatim>\<open>apps/agent-service/src/core/cognitive-v021/authority/\<close>: the version vector of the
  canonical owners (\<^verbatim>\<open>version-vector.ts\<close>), the transition barrier (\<^verbatim>\<open>barrier.ts\<close>) and the
  journal of derived invalidations (\<^verbatim>\<open>journal.ts\<close>), over the three tables of
  \<^verbatim>\<open>migration-44.ts\<close>. The tables' enumeration CHECKs are the datatypes, JSON columns hold the
  value \<open>JSON.parse\<close> gives of the stored text. The \<open>InTransaction\<close> operations return the result
  and the new database, or throw; their callers run them in a transaction, so that a throw
  leaves the database as it was. A time is \<open>None\<close> when it is not finite. Random UUIDs are
  arguments.
\<close>

section \<open>The tables\<close>

datatype canonical_owner = Owner_nuclear | Owner_continuity | Owner_cognitive_sidecar

datatype barrier_state = Stable | Transitioning | Reconciling

record version_vector =
  vv_nuclear :: int
  vv_continuity :: int
  vv_cognitive_sidecar :: int

record barrier_row =
  b_state :: barrier_state
  b_epoch :: int
  b_revision :: int
  b_vector_json :: js_value
  b_transition :: "string option"
  b_reason :: "string option"
  b_updated :: int

record owner_row =
  o_owner :: canonical_owner
  o_version :: int
  o_change :: string
  o_updated :: int

datatype invalidation_kind = Kind_forget | Kind_redaction | Kind_source_change

datatype journal_state = J_pending | J_leased | J_applied | J_quarantined

record journal_row =
  j_change :: string
  j_owner :: string
  j_conversation :: "string option"
  j_source_refs :: "string list"
  j_kind :: invalidation_kind
  j_canonical_owner :: canonical_owner
  j_version :: int
  j_generation :: int
  j_state :: journal_state
  j_lease_owner :: "string option"
  j_lease_expires :: "int option"
  j_attempts :: int
  j_error :: "string option"
  j_created :: int
  j_updated :: int

text \<open>The primary key and the CHECK of \<open>authority_transition_barrier\<close> leave it at most one row.\<close>

record authority_db =
  barrier :: "barrier_row option"
  owner_versions :: "owner_row list"
  journal :: "journal_row list"

section \<open>Version vectors\<close>

fun owner_name :: "canonical_owner \<Rightarrow> string" where
  "owner_name Owner_nuclear = ''nuclear''"
| "owner_name Owner_continuity = ''continuity''"
| "owner_name Owner_cognitive_sidecar = ''cognitive_sidecar''"

definition CANONICAL_AUTHORITY_OWNERS :: "canonical_owner list" where
  "CANONICAL_AUTHORITY_OWNERS = [Owner_nuclear, Owner_continuity, Owner_cognitive_sidecar]"

definition emptyAuthorityVersionVector :: version_vector where
  "emptyAuthorityVersionVector = \<lparr>vv_nuclear = 0, vv_continuity = 0, vv_cognitive_sidecar = 0\<rparr>"

fun nonNegativeInteger :: "js_value \<Rightarrow> bool" where
  "nonNegativeInteger (JNum (NInt i)) = (i \<ge> 0)"
| "nonNegativeInteger _ = False"

fun check_owners :: "js_value \<Rightarrow> canonical_owner list \<Rightarrow> unit throws" where
  "check_owners input [] = Inr ()"
| "check_owners input (w # ws) =
     (if \<not> nonNegativeInteger (js_prop input (owner_name w))
      then Inl (''authority_version_vector_invalid:'' @ owner_name w)
      else check_owners input ws)"

fun object_keys :: "js_value \<Rightarrow> string list" where
  "object_keys (JObj fs) = map fst fs"
| "object_keys _ = []"

fun is_plain_object :: "js_value \<Rightarrow> bool" where
  "is_plain_object (JObj fs) = True"
| "is_plain_object _ = False"

definition canonicalizeAuthorityVersionVector :: "js_value \<Rightarrow> version_vector throws" where
  "canonicalizeAuthorityVersionVector value =
     (if \<not> is_plain_object value then Inl ''authority_version_vector_invalid''
      else and_then (check_owners value CANONICAL_AUTHORITY_OWNERS) (\<lambda>_.
        if js_join '','' (sort (object_keys value)) \<noteq>
          js_join '','' (sort (map owner_name CANONICAL_AUTHORITY_OWNERS))
        then Inl ''authority_version_vector_keys_invalid''
        else Inr \<lparr>vv_nuclear = the_int (js_prop value ''nuclear''),
          vv_continuity = the_int (js_prop value ''continuity''),
          vv_cognitive_sidecar = the_int (js_prop value ''cognitive_sidecar'')\<rparr>))"

text \<open>The value a vector has in TypeScript and, with its keys sorted, in \<open>stableJson\<close>'s text.\<close>

definition vector_value :: "version_vector \<Rightarrow> js_value" where
  "vector_value v = JObj
     [(''cognitive_sidecar'', JNum (NInt (vv_cognitive_sidecar v))),
      (''continuity'', JNum (NInt (vv_continuity v))), (''nuclear'', JNum (NInt (vv_nuclear v)))]"

definition authorityVersionVectorsEqual :: "js_value \<Rightarrow> js_value \<Rightarrow> bool throws" where
  "authorityVersionVectorsEqual left right =
     and_then (canonicalizeAuthorityVersionVector left) (\<lambda>l.
     and_then (canonicalizeAuthorityVersionVector right) (\<lambda>r.
       Inr (vector_value l = vector_value r)))"

fun collect_owner_rows ::
  "owner_row list \<Rightarrow> (string \<times> js_value) list \<Rightarrow> (string \<times> js_value) list throws" where
  "collect_owner_rows [] value = Inr value"
| "collect_owner_rows (r # rows) value =
     (if owner_name (o_owner r) \<in> set (map fst value) \<or>
        \<not> List.member CANONICAL_AUTHORITY_OWNERS (o_owner r)
      then Inl ''authority_version_vector_owner_invalid''
      else collect_owner_rows rows (value @ [(owner_name (o_owner r), JNum (NInt (o_version r)))]))"

definition readAuthorityVersionVector :: "authority_db \<Rightarrow> version_vector throws" where
  "readAuthorityVersionVector db =
     (let rows = sort_key (\<lambda>r. owner_name (o_owner r)) (owner_versions db) in
      if length rows \<noteq> length CANONICAL_AUTHORITY_OWNERS
      then Inl ''authority_version_vector_incomplete''
      else and_then (collect_owner_rows rows []) (\<lambda>value.
        canonicalizeAuthorityVersionVector (JObj value)))"

definition find_owner :: "authority_db \<Rightarrow> canonical_owner \<Rightarrow> owner_row option" where
  "find_owner db w = sql_get (\<lambda>r. o_owner r = w) (owner_versions db)"

definition readCanonicalOwnerVersion :: "authority_db \<Rightarrow> canonical_owner \<Rightarrow> int throws" where
  "readCanonicalOwnerVersion db w =
     (case find_owner db w of
        None \<Rightarrow> Inl (''authority_owner_version_invalid:'' @ owner_name w)
      | Some r \<Rightarrow> if o_version r < 0 then Inl (''authority_owner_version_invalid:'' @ owner_name w)
                  else Inr (o_version r))"

definition in_transition :: "authority_db \<Rightarrow> bool" where
  "in_transition db \<longleftrightarrow>
     (case barrier db of None \<Rightarrow> False
      | Some b \<Rightarrow> b_state b = Transitioning \<or> b_state b = Reconciling)"

text \<open>The two statements of a version advance, and the vector read in between.\<close>

definition store_owner_version ::
  "canonical_owner \<Rightarrow> int \<Rightarrow> string \<Rightarrow> int \<Rightarrow> authority_db \<Rightarrow> (int \<times> authority_db) throws" where
  "store_owner_version w current changeId now db =
     (let match = (\<lambda>r. o_owner r = w \<and> o_version r = current);
          next = current + 1;
          changes = sql_changes match (owner_versions db);
          db1 = db\<lparr>owner_versions := sql_update match
            (\<lambda>r. r\<lparr>o_version := next, o_change := changeId, o_updated := now\<rparr>) (owner_versions db)\<rparr>
      in and_then (sql_check (now \<ge> 0)) (\<lambda>_.
        if changes \<noteq> 1 then Inl ''authority_owner_version_race''
        else and_then (readAuthorityVersionVector db1) (\<lambda>vector.
          Inr (next, db1\<lparr>barrier := map_option
            (\<lambda>b. b\<lparr>b_vector_json := vector_value vector, b_updated := now\<rparr>) (barrier db1)\<rparr>))))"

definition advanceCanonicalOwnerVersionInTransaction ::
  "canonical_owner \<Rightarrow> string \<Rightarrow> int option \<Rightarrow> authority_db \<Rightarrow> (int \<times> authority_db) throws" where
  "advanceCanonicalOwnerVersionInTransaction w changeId nowMs db =
     (if blank changeId then Inl ''authority_change_id_required''
      else (case nowMs of
          None \<Rightarrow> Inl ''authority_version_time_invalid''
        | Some now \<Rightarrow>
            if \<not> in_transition db then Inl ''authority_transition_required''
            else (case find_owner db w of
                None \<Rightarrow> Inl (''authority_owner_missing:'' @ owner_name w)
              | Some existing \<Rightarrow>
                  if o_version existing < 0
                  then Inl (''authority_owner_version_invalid:'' @ owner_name w)
                  else if o_change existing = changeId then Inr (o_version existing, db)
                  else store_owner_version w (o_version existing) changeId now db)))"

section \<open>The transition barrier\<close>

record barrier_snapshot =
  s_state :: barrier_state
  s_epoch :: int
  s_revision :: int
  s_vector :: version_vector
  s_transition :: "string option"
  s_reason :: "string option"

record currentness_binding =
  barrierId :: string
  barrierEpoch :: int
  barrierRevision :: int
  ownerVersions :: js_value

text \<open>The \<open>Pick\<close> of a snapshot an operation may be given as its expectation.\<close>

record expected_barrier =
  e_epoch :: int
  e_revision :: int
  e_vector :: js_value

type_synonym transition_token = "barrier_snapshot \<times> string"

definition read_barrier_row :: "authority_db \<Rightarrow> barrier_row throws" where
  "read_barrier_row db =
     (case barrier db of
        None \<Rightarrow> Inl ''authority_barrier_missing''
      | Some b \<Rightarrow> if b_epoch b < 0 then Inl ''authority_barrier_epoch_invalid''
                  else if b_revision b < 0 then Inl ''authority_barrier_revision_invalid''
                  else Inr b)"

definition barrier_snapshot_of :: "barrier_row \<Rightarrow> barrier_snapshot throws" where
  "barrier_snapshot_of b =
     and_then (canonicalizeAuthorityVersionVector (b_vector_json b)) (\<lambda>vector.
       Inr \<lparr>s_state = b_state b, s_epoch = b_epoch b, s_revision = b_revision b,
         s_vector = vector, s_transition = b_transition b, s_reason = b_reason b\<rparr>)"

definition readAuthorityBarrier :: "authority_db \<Rightarrow> barrier_snapshot throws" where
  "readAuthorityBarrier db = and_then (read_barrier_row db) barrier_snapshot_of"

definition expectation_met ::
  "barrier_snapshot \<Rightarrow> int \<Rightarrow> int \<Rightarrow> js_value \<Rightarrow> string \<Rightarrow> unit throws" where
  "expectation_met current epoch revision vector err =
     (if s_epoch current \<noteq> epoch \<or> s_revision current \<noteq> revision then Inl err
      else and_then (authorityVersionVectorsEqual (vector_value (s_vector current)) vector) (\<lambda>same.
        if same then Inr () else Inl err))"

definition requireStableExpected ::
  "barrier_snapshot \<Rightarrow> expected_barrier option \<Rightarrow> unit throws" where
  "requireStableExpected current expected =
     (if s_state current \<noteq> Stable then Inl ''authority_barrier_not_stable''
      else (case expected of
          None \<Rightarrow> Inr ()
        | Some e \<Rightarrow> expectation_met current (e_epoch e) (e_revision e) (e_vector e)
            ''authority_barrier_vector_mismatch''))"

definition requireStableAuthorityBarrier ::
  "expected_barrier option \<Rightarrow> authority_db \<Rightarrow> barrier_snapshot throws" where
  "requireStableAuthorityBarrier expected db =
     and_then (readAuthorityBarrier db) (\<lambda>current.
     and_then (requireStableExpected current expected) (\<lambda>_. Inr current))"

definition captureAuthorityCurrentness :: "authority_db \<Rightarrow> currentness_binding throws" where
  "captureAuthorityCurrentness db =
     and_then (requireStableAuthorityBarrier None db) (\<lambda>current.
       Inr \<lparr>barrierId = ''global'', barrierEpoch = s_epoch current,
         barrierRevision = s_revision current,
         ownerVersions = vector_value (s_vector current)\<rparr>)"

definition requireCurrentAuthorityBinding ::
  "currentness_binding \<Rightarrow> authority_db \<Rightarrow> barrier_snapshot throws" where
  "requireCurrentAuthorityBinding expected db =
     and_then (requireStableAuthorityBarrier None db) (\<lambda>current.
     and_then (expectation_met current (barrierEpoch expected) (barrierRevision expected)
       (ownerVersions expected) ''authority_vector_stale'') (\<lambda>_. Inr current))"

definition set_barrier :: "(barrier_row \<Rightarrow> barrier_row) \<Rightarrow> authority_db \<Rightarrow> authority_db" where
  "set_barrier f db = db\<lparr>barrier := map_option f (barrier db)\<rparr>"

text \<open>
  The \<open>UPDATE\<close>s keep their \<open>WHERE\<close> clauses; they always change the row, since the state was
  read just before in the same transaction.
\<close>

definition beginAuthorityTransitionInTransaction ::
  "string \<Rightarrow> string \<Rightarrow> int option \<Rightarrow> expected_barrier option \<Rightarrow> authority_db \<Rightarrow>
   (transition_token \<times> authority_db) throws" where
  "beginAuthorityTransitionInTransaction uuid reasonCode nowMs expected db =
     (if blank reasonCode then Inl ''authority_transition_reason_missing''
      else (case nowMs of
          None \<Rightarrow> Inl ''authority_barrier_time_invalid''
        | Some now \<Rightarrow>
            and_then (readAuthorityBarrier db) (\<lambda>current.
            if s_state current = Transitioning then Inl ''authority_transition_active''
            else and_then (requireStableExpected current expected) (\<lambda>_.
              let transitionId = ''authority-transition:'' @ uuid;
                  db1 = set_barrier (\<lambda>b. if b_state b = Stable
                    then b\<lparr>b_state := Transitioning, b_epoch := b_epoch b + 1,
                      b_revision := b_revision b + 1, b_transition := Some transitionId,
                      b_reason := Some reasonCode, b_updated := now\<rparr> else b) db
              in and_then (sql_check (now \<ge> 0)) (\<lambda>_.
                 and_then (readAuthorityBarrier db1) (\<lambda>token.
                   Inr ((token, transitionId), db1)))))))"

definition beginAuthorityTransition ::
  "string \<Rightarrow> string \<Rightarrow> int option \<Rightarrow> expected_barrier option \<Rightarrow> authority_db \<Rightarrow>
   transition_token throws \<times> authority_db" where
  "beginAuthorityTransition uuid reasonCode nowMs expected =
     in_immediate_transaction (beginAuthorityTransitionInTransaction uuid reasonCode nowMs expected)"

text \<open>A missing and an empty \<open>transitionId\<close> are both falsy, and match any transition.\<close>

definition token_mismatch :: "string option \<Rightarrow> barrier_snapshot \<Rightarrow> bool" where
  "token_mismatch transitionId current \<longleftrightarrow>
     (case transitionId of None \<Rightarrow> False
      | Some t \<Rightarrow> t \<noteq> [] \<and> s_transition current \<noteq> Some t)"

definition stabilizeInTransaction ::
  "js_value \<Rightarrow> int option \<Rightarrow> string option \<Rightarrow> authority_db \<Rightarrow>
   (barrier_snapshot \<times> authority_db) throws" where
  "stabilizeInTransaction vector nowMs transitionId db =
     (case nowMs of
        None \<Rightarrow> Inl ''authority_barrier_time_invalid''
      | Some now \<Rightarrow>
          and_then (canonicalizeAuthorityVersionVector vector) (\<lambda>normalized.
          and_then (readAuthorityBarrier db) (\<lambda>current.
          if s_state current \<noteq> Reconciling \<and> s_state current \<noteq> Transitioning
          then Inl ''authority_barrier_already_stable''
          else if token_mismatch transitionId current
          then Inl ''authority_transition_token_mismatch''
          else let db1 = set_barrier (\<lambda>b. b\<lparr>b_state := Stable,
                   b_vector_json := vector_value normalized, b_transition := None,
                   b_reason := None, b_updated := now\<rparr>) db
            in and_then (sql_check (now \<ge> 0)) (\<lambda>_.
               and_then (readAuthorityBarrier db1) (\<lambda>after. Inr (after, db1))))))"

definition stabilizeAuthorityBarrier ::
  "js_value \<Rightarrow> int option \<Rightarrow> string option \<Rightarrow> authority_db \<Rightarrow>
   barrier_snapshot throws \<times> authority_db" where
  "stabilizeAuthorityBarrier vector nowMs transitionId =
     in_immediate_transaction (stabilizeInTransaction vector nowMs transitionId)"

definition markReconcilingInTransaction ::
  "string \<Rightarrow> int option \<Rightarrow> authority_db \<Rightarrow> (barrier_snapshot \<times> authority_db) throws" where
  "markReconcilingInTransaction reasonCode nowMs db =
     (if blank reasonCode then Inl ''authority_reconcile_reason_missing''
      else (case nowMs of
          None \<Rightarrow> Inl ''authority_barrier_time_invalid''
        | Some now \<Rightarrow>
            and_then (readAuthorityBarrier db) (\<lambda>current.
            if s_state current = Stable then Inl ''authority_barrier_reconcile_source_invalid''
            else let db1 = set_barrier (\<lambda>b. if b_state b = Transitioning \<or> b_state b = Reconciling
                     then b\<lparr>b_state := Reconciling, b_reason := Some reasonCode, b_updated := now\<rparr>
                     else b) db
              in and_then (sql_check (now \<ge> 0)) (\<lambda>_.
                 and_then (readAuthorityBarrier db1) (\<lambda>after. Inr (after, db1))))))"

definition markAuthorityBarrierReconciling ::
  "string \<Rightarrow> int option \<Rightarrow> authority_db \<Rightarrow> barrier_snapshot throws \<times> authority_db" where
  "markAuthorityBarrierReconciling reasonCode nowMs =
     in_immediate_transaction (markReconcilingInTransaction reasonCode nowMs)"

definition pending_invalidation :: "journal_row \<Rightarrow> bool" where
  "pending_invalidation r \<longleftrightarrow> j_state r = J_pending \<or> j_state r = J_leased"

text \<open>\<open>nowMs\<close> is \<open>options.nowMs ?? Date.now()\<close>.\<close>

definition reconcileAuthorityBarrierOnStartup ::
  "bool option \<Rightarrow> int option \<Rightarrow> authority_db \<Rightarrow> barrier_snapshot throws \<times> authority_db" where
  "reconcileAuthorityBarrierOnStartup projectionReady nowMs db =
     (case readAuthorityBarrier db of
        Inl err \<Rightarrow> (Inl err, db)
      | Inr current \<Rightarrow>
          if s_state current = Stable then (Inr current, db)
          else if sql_changes pending_invalidation (journal db) > 0 \<and> projectionReady \<noteq> Some True
          then markAuthorityBarrierReconciling ''pending_derived_reconciliation'' nowMs db
          else (case readAuthorityVersionVector db of
              Inl err \<Rightarrow> (Inl err, db)
            | Inr vector \<Rightarrow>
                stabilizeAuthorityBarrier (vector_value vector) nowMs (s_transition current) db))"

section \<open>The journal of derived invalidations\<close>

record journal_entry =
  changeId :: string
  ownerId :: string
  conversationId :: "string option"
  sourceRefs :: "string list"
  invalidationKind :: invalidation_kind
  canonicalOwner :: canonical_owner
  canonicalVersion :: int
  targetGeneration :: int
  journalState :: journal_state

text \<open>The columns' CHECKs leave \<open>mapEntry\<close> no row to refuse.\<close>

definition mapEntry :: "journal_row \<Rightarrow> journal_entry" where
  "mapEntry r =
     \<lparr>changeId = j_change r, ownerId = j_owner r, conversationId = j_conversation r,
      sourceRefs = js_uniq (filter (\<lambda>s. s \<noteq> []) (j_source_refs r)),
      invalidationKind = j_kind r, canonicalOwner = j_canonical_owner r,
      canonicalVersion = j_version r, targetGeneration = j_generation r, journalState = j_state r\<rparr>"

record invalidation_input =
  i_changeId :: "string option"
  i_ownerId :: string
  i_conversationId :: "string option"
  i_sourceRefs :: "string list"
  i_kind :: invalidation_kind
  i_owner :: canonical_owner
  i_generation :: js_num
  i_nowMs :: "int option"

definition validateInput :: "invalidation_input \<Rightarrow> unit throws" where
  "validateInput i =
     (if blank (i_ownerId i) then Inl ''derived_journal_owner_required''
      else if (case i_changeId i of None \<Rightarrow> False | Some c \<Rightarrow> blank c)
      then Inl ''derived_journal_change_required''
      else if \<not> nonNegativeInteger (JNum (i_generation i))
      then Inl ''derived_journal_generation_invalid''
      else if list_ex blank (i_sourceRefs i) then Inl ''derived_journal_source_ref_invalid''
      else Inr ())"

definition find_change :: "authority_db \<Rightarrow> string \<Rightarrow> journal_row option" where
  "find_change db c = sql_get (\<lambda>r. j_change r = c) (journal db)"

definition new_journal_row ::
  "invalidation_input \<Rightarrow> string \<Rightarrow> int \<Rightarrow> int \<Rightarrow> journal_row" where
  "new_journal_row i c version now =
     \<lparr>j_change = c, j_owner = i_ownerId i, j_conversation = i_conversationId i,
      j_source_refs = js_uniq (i_sourceRefs i), j_kind = i_kind i, j_canonical_owner = i_owner i,
      j_version = version, j_generation = the_int (JNum (i_generation i)), j_state = J_pending,
      j_lease_owner = None, j_lease_expires = None, j_attempts = 0, j_error = None,
      j_created = now, j_updated = now\<rparr>"

definition recordDerivedInvalidationInTransaction ::
  "string \<Rightarrow> invalidation_input \<Rightarrow> authority_db \<Rightarrow> (journal_entry \<times> authority_db) throws" where
  "recordDerivedInvalidationInTransaction uuid i db =
     and_then (validateInput i) (\<lambda>_.
     and_then (readAuthorityBarrier db) (\<lambda>current.
     if s_state current \<noteq> Transitioning \<and> s_state current \<noteq> Reconciling
     then Inl ''authority_transition_required''
     else let c = (case i_changeId i of None \<Rightarrow> ''derived-change:'' @ uuid | Some c \<Rightarrow> c) in
       case find_change db c of
         Some existing \<Rightarrow>
           if ownerId (mapEntry existing) \<noteq> i_ownerId i \<or>
             invalidationKind (mapEntry existing) \<noteq> i_kind i
           then Inl ''derived_journal_change_collision''
           else Inr (mapEntry existing, db)
       | None \<Rightarrow>
           and_then (advanceCanonicalOwnerVersionInTransaction (i_owner i) c (i_nowMs i) db)
             (\<lambda>(version, db1).
             let row = new_journal_row i c version (the (i_nowMs i)) in
             and_then (sql_check (version \<ge> 0 \<and> the (i_nowMs i) \<ge> 0)) (\<lambda>_.
               Inr (mapEntry row, db1\<lparr>journal := journal db1 @ [row]\<rparr>)))))"

text \<open>\<open>ORDER BY created_at_ms ASC, change_id ASC\<close>.\<close>

definition listPendingDerivedInvalidations :: "authority_db \<Rightarrow> journal_entry list" where
  "listPendingDerivedInvalidations db =
     map mapEntry (sort_key j_created (sort_key j_change (filter pending_invalidation (journal db))))"

definition hasPendingDerivedInvalidation ::
  "string option \<Rightarrow> string option \<Rightarrow> string option \<Rightarrow> authority_db \<Rightarrow> bool" where
  "hasPendingDerivedInvalidation sourceRef conversation ignoredChangeId db \<longleftrightarrow>
     list_ex (\<lambda>entry.
       if (case ignoredChangeId of None \<Rightarrow> False | Some c \<Rightarrow> c \<noteq> [] \<and> changeId entry = c) then False
       else if conversation \<noteq> None \<and> conversationId entry \<noteq> None \<and>
         conversationId entry \<noteq> conversation then False
       else (case sourceRef of None \<Rightarrow> True | Some s \<Rightarrow> List.member (sourceRefs entry) s))
     (listPendingDerivedInvalidations db)"

definition settle_journal ::
  "(journal_row \<Rightarrow> journal_row) \<Rightarrow> string \<Rightarrow> int \<Rightarrow> authority_db \<Rightarrow>
   (bool \<times> authority_db) throws" where
  "settle_journal f c now db =
     (let match = (\<lambda>r. j_change r = c \<and> pending_invalidation r) in
      and_then (sql_check (now \<ge> 0 \<or> sql_changes match (journal db) = 0)) (\<lambda>_.
        Inr (sql_changes match (journal db) = 1,
          db\<lparr>journal := sql_update match f (journal db)\<rparr>)))"

definition markDerivedInvalidationApplied ::
  "string \<Rightarrow> int \<Rightarrow> authority_db \<Rightarrow> (bool \<times> authority_db) throws" where
  "markDerivedInvalidationApplied c now =
     settle_journal (\<lambda>r. r\<lparr>j_state := J_applied, j_lease_owner := None, j_lease_expires := None,
       j_updated := now\<rparr>) c now"

definition markDerivedInvalidationQuarantined ::
  "string \<Rightarrow> string \<Rightarrow> int \<Rightarrow> authority_db \<Rightarrow> (bool \<times> authority_db) throws" where
  "markDerivedInvalidationQuarantined c errorCode now =
     settle_journal (\<lambda>r. r\<lparr>j_state := J_quarantined, j_error := Some errorCode,
       j_lease_owner := None, j_lease_expires := None, j_updated := now\<rparr>) c now"

definition readDerivedInvalidation :: "authority_db \<Rightarrow> string \<Rightarrow> journal_entry option" where
  "readDerivedInvalidation db c = map_option mapEntry (find_change db c)"

end
