(* ===== verification/Authority_Currentness.thy ===== *)
theory Authority_Currentness
  imports Authority_Store
begin

text \<open>
  What the authority coordinator guarantees: the effect of each operation, the invariant of the
  three tables, and the currentness of a captured binding over any sequence of operations.
\<close>

section \<open>Vectors\<close>

definition vector_ok :: "version_vector \<Rightarrow> bool" where
  "vector_ok v \<longleftrightarrow> 0 \<le> vv_nuclear v \<and> 0 \<le> vv_continuity v \<and> 0 \<le> vv_cognitive_sidecar v"

lemma nonNegativeInteger_iff: "nonNegativeInteger v \<longleftrightarrow> (\<exists>i. v = JNum (NInt i) \<and> 0 \<le> i)"
  by (cases v rule: nonNegativeInteger.cases) auto

lemma check_owners_iff:
  "check_owners input ws = Inr () \<longleftrightarrow> (\<forall>w \<in> set ws. nonNegativeInteger (js_prop input (owner_name w)))"
  by (induction ws) auto

lemma canonicalize_ok:
  "canonicalizeAuthorityVersionVector x = Inr v \<Longrightarrow> vector_ok v"
  by (auto simp: canonicalizeAuthorityVersionVector_def and_then_eq_Inr check_owners_iff
      CANONICAL_AUTHORITY_OWNERS_def nonNegativeInteger_iff vector_ok_def split: if_splits)

lemma canonicalize_vector_value:
  assumes "vector_ok v"
  shows "canonicalizeAuthorityVersionVector (vector_value v) = Inr v"
proof -
  have "js_join '','' (sort (object_keys (vector_value v))) =
      js_join '','' (sort (map owner_name CANONICAL_AUTHORITY_OWNERS))"
    unfolding vector_value_def CANONICAL_AUTHORITY_OWNERS_def object_keys.simps list.map fst_conv
      owner_name.simps
    by code_simp
  with assms show ?thesis
    by (simp add: canonicalizeAuthorityVersionVector_def CANONICAL_AUTHORITY_OWNERS_def
        vector_value_def vector_ok_def)
qed

lemma vector_value_inject [simp]: "vector_value v = vector_value w \<longleftrightarrow> v = w"
  by (cases v; cases w) (auto simp: vector_value_def)

lemma vectors_equal_iff:
  "authorityVersionVectorsEqual l r = Inr b \<longleftrightarrow>
    (\<exists>v w. canonicalizeAuthorityVersionVector l = Inr v \<and>
      canonicalizeAuthorityVersionVector r = Inr w \<and> b = (v = w))"
  by (auto simp: authorityVersionVectorsEqual_def and_then_eq_Inr)

section \<open>What each operation does\<close>

lemma read_barrier_Inr:
  "readAuthorityBarrier db = Inr s \<longleftrightarrow>
    (\<exists>b v. barrier db = Some b \<and> 0 \<le> b_epoch b \<and> 0 \<le> b_revision b \<and>
      canonicalizeAuthorityVersionVector (b_vector_json b) = Inr v \<and>
      s = \<lparr>s_state = b_state b, s_epoch = b_epoch b, s_revision = b_revision b,
         s_vector = v, s_transition = b_transition b, s_reason = b_reason b\<rparr>)"
  by (cases "barrier db")
    (auto simp: readAuthorityBarrier_def read_barrier_row_def barrier_snapshot_of_def and_then_eq_Inr)

lemma begin_effect:
  assumes "beginAuthorityTransitionInTransaction uuid reason now expected db = Inr (tok, db')"
  shows "\<exists>b n s. barrier db = Some b \<and> b_state b = Stable \<and> now = Some n \<and> 0 \<le> n \<and>
    readAuthorityBarrier db = Inr s \<and> requireStableExpected s expected = Inr () \<and>
    db' = db\<lparr>barrier := Some (b\<lparr>b_state := Transitioning, b_epoch := b_epoch b + 1,
      b_revision := b_revision b + 1, b_transition := Some (''authority-transition:'' @ uuid),
      b_reason := Some reason, b_updated := n\<rparr>)\<rparr> \<and>
    snd tok = ''authority-transition:'' @ uuid \<and> readAuthorityBarrier db' = Inr (fst tok)"
proof -
  from assms obtain n s where *: "now = Some n" "readAuthorityBarrier db = Inr s"
    "requireStableExpected s expected = Inr ()" "0 \<le> n"
    by (auto simp: beginAuthorityTransitionInTransaction_def and_then_eq_Inr Let_def
        split: if_splits option.splits)
  from *(2) obtain b where b: "barrier db = Some b" "s_state s = b_state b"
    by (auto simp: read_barrier_Inr)
  from *(3) have st: "s_state s = Stable"
    by (auto simp: requireStableExpected_def split: if_splits)
  show ?thesis
    using assms * b st
    by (auto simp: beginAuthorityTransitionInTransaction_def and_then_eq_Inr Let_def set_barrier_def
        split: if_splits)
qed

lemma stabilize_effect:
  assumes "stabilizeInTransaction vector now t db = Inr (s', db')"
  shows "\<exists>b n v. barrier db = Some b \<and> b_state b \<noteq> Stable \<and>
    (\<forall>i. t = Some i \<longrightarrow> i \<noteq> [] \<longrightarrow> b_transition b = Some i) \<and>
    canonicalizeAuthorityVersionVector vector = Inr v \<and>
    db' = db\<lparr>barrier := Some (b\<lparr>b_state := Stable, b_vector_json := vector_value v,
      b_transition := None, b_reason := None, b_updated := n\<rparr>)\<rparr> \<and>
    readAuthorityBarrier db' = Inr s'"
proof -
  from assms obtain n v s where *: "now = Some n"
    "canonicalizeAuthorityVersionVector vector = Inr v" "readAuthorityBarrier db = Inr s"
    "s_state s \<noteq> Stable" "\<not> token_mismatch t s"
    by (auto simp: stabilizeInTransaction_def and_then_eq_Inr Let_def
        split: if_splits option.splits)
  from *(3) obtain b where b: "barrier db = Some b" "s_state s = b_state b"
    "s_transition s = b_transition b"
    by (auto simp: read_barrier_Inr)
  have "\<forall>i. t = Some i \<longrightarrow> i \<noteq> [] \<longrightarrow> b_transition b = Some i"
    using *(5) b(3) by (auto simp: token_mismatch_def split: option.splits)
  then show ?thesis
    using assms * b
    by (auto simp: stabilizeInTransaction_def and_then_eq_Inr Let_def set_barrier_def
        split: if_splits)
qed

lemma reconciling_effect:
  assumes "markReconcilingInTransaction reason now db = Inr (s', db')"
  shows "\<exists>b n. barrier db = Some b \<and> b_state b \<noteq> Stable \<and>
    db' = db\<lparr>barrier := Some (b\<lparr>b_state := Reconciling, b_reason := Some reason,
      b_updated := n\<rparr>)\<rparr> \<and> readAuthorityBarrier db' = Inr s'"
proof -
  from assms obtain n s where *: "now = Some n" "readAuthorityBarrier db = Inr s" "s_state s \<noteq> Stable"
    by (auto simp: markReconcilingInTransaction_def and_then_eq_Inr Let_def
        split: if_splits option.splits)
  from *(2) obtain b where b: "barrier db = Some b" "s_state s = b_state b"
    by (auto simp: read_barrier_Inr)
  with *(3) have "b_state b = Transitioning \<or> b_state b = Reconciling"
    by (cases "b_state b") auto
  then show ?thesis
    using assms * b
    by (auto simp: markReconcilingInTransaction_def and_then_eq_Inr Let_def set_barrier_def
        split: if_splits)
qed

lemma advance_effect:
  assumes "advanceCanonicalOwnerVersionInTransaction w c now db = Inr (n, db')"
  shows "\<exists>r b. find_owner db w = Some r \<and> 0 \<le> o_version r \<and> barrier db = Some b \<and>
    b_state b \<noteq> Stable \<and>
    (o_change r = c \<and> n = o_version r \<and> db' = db \<or>
     o_change r \<noteq> c \<and> n = o_version r + 1 \<and> (\<exists>t v. 0 \<le> t \<and> now = Some t \<and>
       db' = db\<lparr>owner_versions := sql_update (\<lambda>q. o_owner q = w \<and> o_version q = o_version r)
           (\<lambda>q. q\<lparr>o_version := o_version r + 1, o_change := c, o_updated := t\<rparr>) (owner_versions db),
         barrier := Some (b\<lparr>b_vector_json := vector_value v, b_updated := t\<rparr>)\<rparr> \<and>
       vector_ok v))"
proof -
  from assms obtain t r where *: "now = Some t" "in_transition db" "find_owner db w = Some r"
    "0 \<le> o_version r"
    by (auto simp: advanceCanonicalOwnerVersionInTransaction_def split: if_splits option.splits)
  from *(2) obtain b where b: "barrier db = Some b" "b_state b \<noteq> Stable"
    by (auto simp: in_transition_def split: option.splits)
  show ?thesis
  proof (cases "o_change r = c")
    case True
    with assms * b show ?thesis
      by (auto simp: advanceCanonicalOwnerVersionInTransaction_def split: if_splits)
  next
    case False
    with assms * have "store_owner_version w (o_version r) c t db = Inr (n, db')"
      by (auto simp: advanceCanonicalOwnerVersionInTransaction_def split: if_splits)
    with False * b show ?thesis
      by (auto simp: store_owner_version_def and_then_eq_Inr Let_def readAuthorityVersionVector_def
          dest: canonicalize_ok split: if_splits)
  qed
qed

lemma record_effect:
  assumes "recordDerivedInvalidationInTransaction uuid i db = Inr (e, db')"
  shows "(\<exists>r. r \<in> set (journal db) \<and> e = mapEntry r \<and> db' = db) \<or>
    (\<exists>c n t db1. find_change db c = None \<and> i_nowMs i = Some t \<and> 0 \<le> n \<and>
      advanceCanonicalOwnerVersionInTransaction (i_owner i) c (i_nowMs i) db = Inr (n, db1) \<and>
      db' = db1\<lparr>journal := journal db1 @ [new_journal_row i c n t]\<rparr> \<and>
      e = mapEntry (new_journal_row i c n t))"
proof -
  let ?c = "case i_changeId i of None \<Rightarrow> ''derived-change:'' @ uuid | Some c \<Rightarrow> c"
  show ?thesis
  proof (cases "find_change db ?c")
    case (Some r)
    then have "r \<in> set (journal db)"
      by (auto simp: find_change_def dest: sql_get_SomeD)
    with Some assms show ?thesis
      by (auto simp: recordDerivedInvalidationInTransaction_def and_then_eq_Inr Let_def
          split: if_splits)
  next
    case None
    with assms obtain n db1 where *:
      "advanceCanonicalOwnerVersionInTransaction (i_owner i) ?c (i_nowMs i) db = Inr (n, db1)"
      "0 \<le> n" "db' = db1\<lparr>journal := journal db1 @ [new_journal_row i ?c n (the (i_nowMs i))]\<rparr>"
      "e = mapEntry (new_journal_row i ?c n (the (i_nowMs i)))"
      by (auto simp: recordDerivedInvalidationInTransaction_def and_then_eq_Inr Let_def
          split: if_splits)
    from *(1) obtain t where "i_nowMs i = Some t"
      by (auto simp: advanceCanonicalOwnerVersionInTransaction_def split: if_splits option.splits)
    with None * show ?thesis by auto
  qed
qed

lemma settle_effect:
  "settle_journal f c now db = Inr (done, db') \<Longrightarrow>
    db' = db\<lparr>journal := sql_update (\<lambda>r. j_change r = c \<and> pending_invalidation r) f (journal db)\<rparr>"
  by (auto simp: settle_journal_def and_then_eq_Inr Let_def)

section \<open>Steps of the coordinator\<close>

text \<open>
  A committed operation, with any arguments. The transactions of \<^verbatim>\<open>barrier.ts\<close> that throw roll
  back and change nothing.
\<close>

inductive authority_step :: "authority_db \<Rightarrow> authority_db \<Rightarrow> bool" where
  step_begin: "beginAuthorityTransitionInTransaction uuid reason now expected db = Inr (tok, db') \<Longrightarrow>
     authority_step db db'"
| step_stabilize: "stabilizeInTransaction vector now t db = Inr (s, db') \<Longrightarrow> authority_step db db'"
| step_reconciling: "markReconcilingInTransaction reason now db = Inr (s, db') \<Longrightarrow>
     authority_step db db'"
| step_advance: "advanceCanonicalOwnerVersionInTransaction w c now db = Inr (n, db') \<Longrightarrow>
     authority_step db db'"
| step_record: "recordDerivedInvalidationInTransaction uuid i db = Inr (e, db') \<Longrightarrow>
     authority_step db db'"
| step_applied: "markDerivedInvalidationApplied c m db = Inr (done, db') \<Longrightarrow> authority_step db db'"
| step_quarantined: "markDerivedInvalidationQuarantined c err m db = Inr (done, db') \<Longrightarrow>
     authority_step db db'"

inductive_cases authority_step_cases: "authority_step db db'"

lemma transaction_step:
  assumes "\<And>x db'. body db = Inr (x, db') \<Longrightarrow> authority_step db db'"
  shows "authority_step\<^sup>*\<^sup>* db (snd (in_immediate_transaction body db))"
  using assms by (cases "body db") (auto simp: in_immediate_transaction_def)

lemma startup_steps:
  "authority_step\<^sup>*\<^sup>* db (snd (reconcileAuthorityBarrierOnStartup ready now db))"
  unfolding reconcileAuthorityBarrierOnStartup_def markAuthorityBarrierReconciling_def
    stabilizeAuthorityBarrier_def
  by (auto intro!: transaction_step intro: step_reconciling step_stabilize split: sum.splits)

text \<open>Every step acts on the barrier, the owner rows and the journal in one of few ways.\<close>

definition barrier_move :: "barrier_row \<Rightarrow> barrier_row \<Rightarrow> bool" where
  "barrier_move b b' \<longleftrightarrow>
     b' = b \<or>
     (\<exists>i r n. b_state b = Stable \<and> b' = b\<lparr>b_state := Transitioning, b_epoch := b_epoch b + 1,
        b_revision := b_revision b + 1, b_transition := Some i, b_reason := Some r, b_updated := n\<rparr>) \<or>
     (\<exists>v n. b_state b \<noteq> Stable \<and> vector_ok v \<and> b' = b\<lparr>b_state := Stable,
        b_vector_json := vector_value v, b_transition := None, b_reason := None, b_updated := n\<rparr>) \<or>
     (\<exists>r n. b_state b \<noteq> Stable \<and> b' = b\<lparr>b_state := Reconciling, b_reason := Some r,
        b_updated := n\<rparr>) \<or>
     (\<exists>v n. b_state b \<noteq> Stable \<and> vector_ok v \<and>
        b' = b\<lparr>b_vector_json := vector_value v, b_updated := n\<rparr>)"

lemma advance_moves:
  assumes "advanceCanonicalOwnerVersionInTransaction w c now db = Inr (n, db')"
  shows "\<exists>b b'. barrier db = Some b \<and> barrier db' = Some b' \<and> barrier_move b b'"
  using advance_effect [OF assms] unfolding barrier_move_def by fastforce

lemma step_barrier:
  assumes "authority_step db db'"
  shows "barrier db' = barrier db \<or>
    (\<exists>b b'. barrier db = Some b \<and> barrier db' = Some b' \<and> barrier_move b b')"
  using assms
proof cases
  case (step_begin uuid reason now expected tok)
  from begin_effect [OF this] show ?thesis unfolding barrier_move_def by fastforce
next
  case (step_stabilize vector now t s)
  from stabilize_effect [OF this] show ?thesis
    unfolding barrier_move_def by (fastforce dest: canonicalize_ok)
next
  case (step_reconciling reason now s)
  from reconciling_effect [OF this] show ?thesis unfolding barrier_move_def by fastforce
next
  case (step_advance w c now n)
  from advance_moves [OF this] show ?thesis by blast
next
  case (step_record uuid i e)
  from record_effect [OF this] show ?thesis by (auto dest: advance_moves)
qed (auto simp: markDerivedInvalidationApplied_def markDerivedInvalidationQuarantined_def
    dest: settle_effect)

lemma advance_journal:
  "advanceCanonicalOwnerVersionInTransaction w c now db = Inr (n, db') \<Longrightarrow> journal db' = journal db"
  by (auto dest!: advance_effect)

section \<open>Counters and lifecycles\<close>

definition barrier_epoch :: "authority_db \<Rightarrow> int" where
  "barrier_epoch db = (case barrier db of None \<Rightarrow> 0 | Some b \<Rightarrow> b_epoch b)"

definition owner_version :: "canonical_owner \<Rightarrow> authority_db \<Rightarrow> int" where
  "owner_version w db = (case find_owner db w of None \<Rightarrow> -1 | Some r \<Rightarrow> o_version r)"

interpretation epochs: growing_counter authority_step barrier_epoch
proof
  fix db db' assume "authority_step db db'"
  from step_barrier [OF this] show "barrier_epoch db \<le> barrier_epoch db'"
    by (auto simp: barrier_epoch_def barrier_move_def)
qed

lemma advance_grows:
  assumes "advanceCanonicalOwnerVersionInTransaction w c now db = Inr (n, db')"
  shows "owner_version u db \<le> owner_version u db'"
proof -
  have get: "find_owner (db\<lparr>owner_versions := sql_update P f (owner_versions db), barrier := B\<rparr>) u =
      map_option (\<lambda>r. if P r then f r else r) (find_owner db u)"
    if "\<And>r. P r \<Longrightarrow> o_owner (f r) = o_owner r" for P f B
    using that by (simp add: find_owner_def sql_get_update)
  from advance_effect [OF assms] show ?thesis
    by (auto simp: owner_version_def get split: option.splits)
qed

lemma step_grows_owner:
  assumes "authority_step db db'"
  shows "owner_version w db \<le> owner_version w db'"
  using assms
proof cases
  case (step_record uuid i e)
  from record_effect [OF this] show ?thesis
    using advance_grows [of _ _ _ db] by (fastforce simp: owner_version_def find_owner_def)
qed (auto simp: markDerivedInvalidationApplied_def markDerivedInvalidationQuarantined_def
    owner_version_def find_owner_def advance_grows [unfolded owner_version_def find_owner_def]
    dest!: settle_effect begin_effect stabilize_effect reconciling_effect)

interpretation owners: growing_counter authority_step "owner_version w" for w
  by unfold_locales (rule step_grows_owner)

definition journal_status :: "authority_db \<Rightarrow> string \<Rightarrow> journal_state option" where
  "journal_status db c = map_option j_state (find_change db c)"

fun journal_edge :: "journal_state \<Rightarrow> journal_state \<Rightarrow> bool" where
  "journal_edge s t \<longleftrightarrow> (s = J_pending \<or> s = J_leased) \<and> (t = J_applied \<or> t = J_quarantined)"

lemma settle_status:
  assumes "settle_journal f c m db = Inr (done, db')" and "journal_status db k = Some s"
    and "\<And>r. j_change (f r) = j_change r" and "\<And>r. j_state (f r) = t"
    and "t = J_applied \<or> t = J_quarantined"
  shows "\<exists>s'. journal_status db' k = Some s' \<and> journal_edge\<^sup>*\<^sup>* s s'"
proof -
  from settle_effect [OF assms(1)] have "find_change db' k =
      map_option (\<lambda>r. if j_change r = c \<and> pending_invalidation r then f r else r) (find_change db k)"
    using assms(3) by (simp add: find_change_def sql_get_update)
  moreover from assms(2) obtain r where r: "find_change db k = Some r" "j_state r = s"
    by (auto simp: journal_status_def)
  ultimately have new: "journal_status db' k =
      Some (if j_change r = c \<and> pending_invalidation r then t else s)"
    using assms(4) by (simp add: journal_status_def)
  moreover have "journal_edge s t" if "pending_invalidation r"
    using that r(2) assms(5) by (auto simp: pending_invalidation_def)
  ultimately show ?thesis
    by (metis r_into_rtranclp rtranclp.rtrancl_refl)
qed

lemma step_journal:
  assumes "authority_step db db'" and "journal_status db k = Some s"
  shows "\<exists>s'. journal_status db' k = Some s' \<and> journal_edge\<^sup>*\<^sup>* s s'"
  using assms(1)
proof cases
  case (step_record uuid i e)
  have "\<exists>rows. journal db' = journal db @ rows"
    using record_effect [OF step_record] advance_journal by fastforce
  then have "journal_status db' k = Some s"
    using assms(2) by (auto simp: journal_status_def find_change_def sql_get_append)
  then show ?thesis by blast
next
  case (step_applied c m fin)
  show ?thesis
    by (rule settle_status [OF step_applied [unfolded markDerivedInvalidationApplied_def] assms(2),
        of J_applied]) simp_all
next
  case (step_quarantined c err m fin)
  show ?thesis
    by (rule settle_status [OF step_quarantined [unfolded markDerivedInvalidationQuarantined_def] assms(2),
        of J_quarantined]) simp_all
next
  case (step_advance w c now n)
  with assms(2) show ?thesis
    by (auto simp: journal_status_def find_change_def dest!: advance_journal)
qed (use assms(2) in \<open>auto simp: journal_status_def find_change_def
    dest!: begin_effect stabilize_effect reconciling_effect\<close>)

interpretation invalidations: record_lifecycle authority_step journal_status journal_edge
  by unfold_locales (rule step_journal)

section \<open>The invariant of the tables\<close>

definition barrier_wf :: "barrier_row \<Rightarrow> bool" where
  "barrier_wf b \<longleftrightarrow> 0 \<le> b_epoch b \<and> b_revision b = b_epoch b \<and>
     (\<exists>v. canonicalizeAuthorityVersionVector (b_vector_json b) = Inr v) \<and>
     (b_state b = Stable \<longrightarrow> b_transition b = None \<and> b_reason b = None) \<and>
     (b_state b = Transitioning \<longrightarrow> b_transition b \<noteq> None \<and> b_reason b \<noteq> None)"

definition owners_wf :: "owner_row list \<Rightarrow> bool" where
  "owners_wf rows \<longleftrightarrow> distinct (map o_owner rows) \<and>
     set (map o_owner rows) = set CANONICAL_AUTHORITY_OWNERS \<and> (\<forall>r \<in> set rows. 0 \<le> o_version r)"

definition journal_wf :: "owner_row list \<Rightarrow> journal_row list \<Rightarrow> bool" where
  "journal_wf rows js \<longleftrightarrow> distinct (map j_change js) \<and>
     (\<forall>j \<in> set js. 0 \<le> j_version j \<and>
       (\<exists>r \<in> set rows. o_owner r = j_canonical_owner j \<and> j_version j \<le> o_version r))"

definition authority_inv :: "authority_db \<Rightarrow> bool" where
  "authority_inv db \<longleftrightarrow> (\<exists>b. barrier db = Some b \<and> barrier_wf b) \<and>
     owners_wf (owner_versions db) \<and> journal_wf (owner_versions db) (journal db)"

text \<open>The database \<^verbatim>\<open>migration-44.ts\<close> creates.\<close>

definition authority_initial :: authority_db where
  "authority_initial =
     \<lparr>barrier = Some \<lparr>b_state = Reconciling, b_epoch = 0, b_revision = 0,
        b_vector_json = vector_value emptyAuthorityVersionVector, b_transition = None,
        b_reason = None, b_updated = 0\<rparr>,
      owner_versions = map (\<lambda>w. \<lparr>o_owner = w, o_version = 0, o_change = ''migration-44'',
        o_updated = 0\<rparr>) CANONICAL_AUTHORITY_OWNERS,
      journal = []\<rparr>"

lemma initial_inv: "authority_inv authority_initial"
  by (auto simp: authority_inv_def authority_initial_def barrier_wf_def owners_wf_def journal_wf_def
      CANONICAL_AUTHORITY_OWNERS_def canonicalize_vector_value vector_ok_def
      emptyAuthorityVersionVector_def)

lemma barrier_move_wf:
  "barrier_wf b \<Longrightarrow> barrier_move b b' \<Longrightarrow> barrier_wf b'"
  by (cases "b_state b")
    (auto simp: barrier_move_def barrier_wf_def canonicalize_vector_value)

lemma advance_tables:
  assumes "advanceCanonicalOwnerVersionInTransaction w c now db = Inr (n, db')"
    and "owners_wf (owner_versions db)" and "journal_wf (owner_versions db) (journal db)"
  shows "owners_wf (owner_versions db') \<and> journal_wf (owner_versions db') (journal db') \<and>
    (\<exists>r \<in> set (owner_versions db'). o_owner r = w \<and> o_version r = n)"
proof -
  from advance_effect [OF assms(1)] obtain r where r: "find_owner db w = Some r" "0 \<le> o_version r"
    by blast
  then have mem: "r \<in> set (owner_versions db)" "o_owner r = w"
    by (auto simp: find_owner_def dest: sql_get_SomeD)
  show ?thesis
  proof (cases "o_change r = c")
    case True
    with advance_effect [OF assms(1)] r(1) have "db' = db" "n = o_version r" by auto
    with assms(2,3) mem show ?thesis by auto
  next
    case False
    let ?P = "\<lambda>q. o_owner q = w \<and> o_version q = o_version r"
    from False advance_effect [OF assms(1)] r(1) obtain t where
      new: "n = o_version r + 1" "journal db' = journal db"
        "owner_versions db' = sql_update ?P
          (\<lambda>q. q\<lparr>o_version := o_version r + 1, o_change := c, o_updated := t\<rparr>) (owner_versions db)"
      by auto
    have rewritten: "p \<in> set (owner_versions db) \<Longrightarrow>
        (if ?P p then p\<lparr>o_version := o_version r + 1, o_change := c, o_updated := t\<rparr> else p)
        \<in> set (owner_versions db')" for p
      unfolding new(3) by simp
    have keys: "map o_owner (owner_versions db') = map o_owner (owner_versions db)"
      unfolding new(3) by (rule map_key_sql_update) simp
    then have keyset: "o_owner ` set (owner_versions db') = o_owner ` set (owner_versions db)"
      by (metis set_map)
    have "owners_wf (owner_versions db')"
      using assms(2) r(2) unfolding owners_wf_def set_map keys keyset by (auto simp: new(3))
    moreover have "\<exists>q \<in> set (owner_versions db'). o_owner q = o_owner p \<and> o_version p \<le> o_version q"
      if "p \<in> set (owner_versions db)" for p
      by (rule bexI [OF _ rewritten [OF that]]) simp
    then have "journal_wf (owner_versions db') (journal db')"
      using assms(3) unfolding journal_wf_def new(2) by (metis order_trans)
    moreover have "\<exists>q \<in> set (owner_versions db'). o_owner q = w \<and> o_version q = n"
      by (rule bexI [OF _ rewritten [OF mem(1)]]) (simp add: mem new(1))
    ultimately show ?thesis by blast
  qed
qed

lemma settle_inv:
  assumes "settle_journal f c m db = Inr (d, db')" and "authority_inv db"
    and "\<And>r. j_change (f r) = j_change r \<and> j_canonical_owner (f r) = j_canonical_owner r \<and>
      j_version (f r) = j_version r"
  shows "authority_inv db'"
proof -
  have "map j_change (sql_update P f js) = map j_change js" for P js
    using assms(3) by (intro map_key_sql_update) simp
  with settle_effect [OF assms(1)] assms(2,3) show ?thesis
    by (auto simp: authority_inv_def journal_wf_def)
qed

lemma step_authority_inv:
  assumes "authority_inv db" and "authority_step db db'"
  shows "authority_inv db'"
proof -
  have barrier: "\<exists>b. barrier db' = Some b \<and> barrier_wf b"
    using step_barrier [OF assms(2)] assms(1) by (auto simp: authority_inv_def dest: barrier_move_wf)
  have tables: "owners_wf (owner_versions db)" "journal_wf (owner_versions db) (journal db)"
    using assms(1) by (auto simp: authority_inv_def)
  from assms(2) show ?thesis
  proof cases
    case (step_advance w c now n)
    from advance_tables [OF this tables] barrier show ?thesis by (simp add: authority_inv_def)
  next
    case (step_record uuid i e)
    from record_effect [OF this] show ?thesis
    proof (elim disjE exE conjE)
      fix c n t db1
      assume *: "find_change db c = None" "0 \<le> n"
        "advanceCanonicalOwnerVersionInTransaction (i_owner i) c (i_nowMs i) db = Inr (n, db1)"
        "db' = db1\<lparr>journal := journal db1 @ [new_journal_row i c n t]\<rparr>"
      have "c \<notin> j_change ` set (journal db1)"
        using *(1) advance_journal [OF *(3)] by (auto simp: find_change_def)
      with advance_tables [OF *(3) tables] *(2) barrier show ?thesis
        by (auto simp: authority_inv_def journal_wf_def *(4) new_journal_row_def)
    qed (use assms(1) in simp)
  next
    case (step_applied c m d)
    then show ?thesis
      unfolding markDerivedInvalidationApplied_def by (rule settle_inv) (simp_all add: assms(1))
  next
    case (step_quarantined c err m d)
    then show ?thesis
      unfolding markDerivedInvalidationQuarantined_def by (rule settle_inv) (simp_all add: assms(1))
  qed (use barrier tables in \<open>auto simp: authority_inv_def
      dest!: begin_effect stabilize_effect reconciling_effect\<close>)
qed

interpretation tables: preserved authority_step authority_inv
  by unfold_locales (rule step_authority_inv)

section \<open>Reading the owner rows\<close>

fun vv_of :: "version_vector \<Rightarrow> canonical_owner \<Rightarrow> int" where
  "vv_of v Owner_nuclear = vv_nuclear v"
| "vv_of v Owner_continuity = vv_continuity v"
| "vv_of v Owner_cognitive_sidecar = vv_cognitive_sidecar v"

lemma owner_name_inject [simp]: "owner_name w = owner_name u \<longleftrightarrow> w = u"
  by (cases w; cases u) simp_all

lemma all_owners [simp]: "w \<in> set CANONICAL_AUTHORITY_OWNERS"
  by (cases w) (simp_all add: CANONICAL_AUTHORITY_OWNERS_def)

lemma collect_owner_rows:
  "distinct (map fst acc @ map (\<lambda>r. owner_name (o_owner r)) rows) \<Longrightarrow>
    collect_owner_rows rows acc =
      Inr (acc @ map (\<lambda>r. (owner_name (o_owner r), JNum (NInt (o_version r)))) rows)"
  by (induction rows arbitrary: acc) auto

lemma owner_row:
  assumes "owners_wf rows"
  shows "\<exists>r \<in> set rows. sql_get (\<lambda>r. o_owner r = w) rows = Some r \<and> o_owner r = w \<and> 0 \<le> o_version r"
proof -
  have "w \<in> set (map o_owner rows)"
    using assms all_owners [of w] unfolding owners_wf_def by blast
  then obtain r where "r \<in> set rows" "o_owner r = w" by auto
  with assms show ?thesis
    by (auto simp: owners_wf_def sql_get_key)
qed

lemma read_vector_ok:
  assumes "owners_wf (owner_versions db)"
  shows "\<exists>v. readAuthorityVersionVector db = Inr v \<and> vector_ok v \<and> (\<forall>w. vv_of v w = owner_version w db)"
proof -
  define rows where "rows = sort_key (\<lambda>r. owner_name (o_owner r)) (owner_versions db)"
  define fs where "fs = map (\<lambda>r. (owner_name (o_owner r), JNum (NInt (o_version r)))) rows"
  note wf = assms [unfolded owners_wf_def]
  have sets: "set rows = set (owner_versions db)" by (simp add: rows_def)
  have "inj_on o_owner (set rows)" "distinct rows"
    using wf by (simp_all add: sets rows_def distinct_map)
  then have dist: "distinct (map (\<lambda>r. owner_name (o_owner r)) rows)"
    by (auto simp: distinct_map inj_on_def)
  have names: "set (map fst fs) = set (map owner_name CANONICAL_AUTHORITY_OWNERS)"
    using wf by (simp add: fs_def sets image_image) (metis image_image)
  have fsd: "distinct (map fst fs)"
    using dist by (simp add: fs_def comp_def)
  have "distinct (map owner_name CANONICAL_AUTHORITY_OWNERS)"
    by code_simp
  then have keys: "sort (map fst fs) = sort (map owner_name CANONICAL_AUTHORITY_OWNERS)"
    using fsd names by (intro sorted_distinct_set_unique) simp_all
  have len: "length rows = length CANONICAL_AUTHORITY_OWNERS"
    using arg_cong [OF keys, of length] by (simp add: fs_def)
  have field: "js_prop (JObj fs) (owner_name w) = JNum (NInt (owner_version w db)) \<and>
      0 \<le> owner_version w db" for w
  proof -
    from owner_row [OF assms] obtain r where r: "r \<in> set (owner_versions db)" "o_owner r = w"
      "find_owner db w = Some r"
      unfolding find_owner_def by blast
    moreover have "map_of fs (owner_name w) = Some (JNum (NInt (o_version r)))"
      using r(1,2) fsd by (auto simp: fs_def sets)
    ultimately show ?thesis
      using wf r by (simp add: owner_version_def)
  qed
  have "readAuthorityVersionVector db = canonicalizeAuthorityVersionVector (JObj fs)"
    using len collect_owner_rows [of "[]" rows] dist
    by (simp add: readAuthorityVersionVector_def rows_def [symmetric] fs_def)
  moreover have "check_owners (JObj fs) CANONICAL_AUTHORITY_OWNERS = Inr ()"
    unfolding check_owners_iff by (simp only: field nonNegativeInteger.simps) simp
  ultimately have "readAuthorityVersionVector db = Inr
      \<lparr>vv_nuclear = owner_version Owner_nuclear db, vv_continuity = owner_version Owner_continuity db,
        vv_cognitive_sidecar = owner_version Owner_cognitive_sidecar db\<rparr>"
    using keys field [of Owner_nuclear] field [of Owner_continuity] field [of Owner_cognitive_sidecar]
    by (simp add: canonicalizeAuthorityVersionVector_def del: js_prop.simps)
  moreover have "vv_of \<lparr>vv_nuclear = owner_version Owner_nuclear db,
      vv_continuity = owner_version Owner_continuity db,
      vv_cognitive_sidecar = owner_version Owner_cognitive_sidecar db\<rparr> w = owner_version w db" for w
    by (cases w) simp_all
  ultimately show ?thesis
    using field by (auto simp: vector_ok_def simp del: js_prop.simps)
qed

lemma advance_succeeds:
  assumes "authority_inv db" and "in_transition db" and "\<not> blank c" and "0 \<le> t"
  shows "\<exists>n db' r. advanceCanonicalOwnerVersionInTransaction w c (Some t) db = Inr (n, db') \<and>
    authority_inv db' \<and> in_transition db' \<and> find_owner db w = Some r \<and>
    n = (if o_change r = c then o_version r else o_version r + 1) \<and>
    (\<exists>r'. find_owner db' w = Some r' \<and> o_version r' = n \<and> o_change r' = c)"
proof -
  from assms(1) have wf: "owners_wf (owner_versions db)" "journal_wf (owner_versions db) (journal db)"
    by (auto simp: authority_inv_def)
  from owner_row [OF wf(1)] obtain r where r: "find_owner db w = Some r" "0 \<le> o_version r"
    unfolding find_owner_def by blast
  show ?thesis
  proof (cases "o_change r = c")
    case True
    with assms r show ?thesis
      by (auto simp: advanceCanonicalOwnerVersionInTransaction_def)
  next
    case False
    let ?P = "\<lambda>q. o_owner q = w \<and> o_version q = o_version r"
    let ?f = "\<lambda>q. q\<lparr>o_version := o_version r + 1, o_change := c, o_updated := t\<rparr>"
    let ?db1 = "db\<lparr>owner_versions := sql_update ?P ?f (owner_versions db)\<rparr>"
    have keys: "map o_owner (sql_update ?P ?f (owner_versions db)) = map o_owner (owner_versions db)"
      by (rule map_key_sql_update) simp
    have "owners_wf (owner_versions ?db1)"
      using wf(1) r(2) arg_cong [OF keys, of set] by (auto simp: owners_wf_def keys)
    then obtain v where v: "readAuthorityVersionVector ?db1 = Inr v"
      using read_vector_ok by blast
    have "sql_changes ?P (owner_versions db) = 1"
      using sql_changes_key [of o_owner "owner_versions db" w "\<lambda>q. o_version q = o_version r"] wf(1) r(1)
      by (simp add: owners_wf_def find_owner_def)
    with v assms r False obtain db' where adv:
      "advanceCanonicalOwnerVersionInTransaction w c (Some t) db = Inr (o_version r + 1, db')"
      by (simp add: advanceCanonicalOwnerVersionInTransaction_def store_owner_version_def Let_def)
    from step_advance [OF adv] have "authority_inv db'"
      using assms(1) step_authority_inv by blast
    moreover have "in_transition db' \<and>
        find_owner db' w = map_option (\<lambda>q. if ?P q then ?f q else q) (find_owner db w)"
      using advance_effect [OF adv] r(1) assms(2) False
      by (auto simp: in_transition_def find_owner_def sql_get_update)
    moreover have "o_owner r = w"
      using r(1) by (auto simp: find_owner_def dest: sql_get_SomeD)
    ultimately show ?thesis
      using adv r False by auto
  qed
qed

section \<open>Properties\<close>

text \<open>
  C19. A captured currentness binding authorizes exactly until the next authority transition
  begins. Right after its capture it is current; once a transition has begun, no sequence of
  committed operations (stabilizations, reconciliations, version advances, invalidations, further
  transitions) ever makes it current again, whatever the vectors are.
\<close>

theorem captured_binding_stale:
  assumes "captureAuthorityCurrentness db = Inr b"
    and "beginAuthorityTransitionInTransaction uuid reason now expected db = Inr (tok, db1)"
    and "authority_step\<^sup>*\<^sup>* db1 db2"
  shows "(\<exists>s. requireCurrentAuthorityBinding b db = Inr s) \<and>
    (\<exists>err. requireCurrentAuthorityBinding b db2 = Inl err)"
proof
  from assms(1) obtain s where s: "readAuthorityBarrier db = Inr s" "s_state s = Stable"
    "b = \<lparr>barrierId = ''global'', barrierEpoch = s_epoch s, barrierRevision = s_revision s,
         ownerVersions = vector_value (s_vector s)\<rparr>"
    by (auto simp: captureAuthorityCurrentness_def requireStableAuthorityBarrier_def
        requireStableExpected_def and_then_eq_Inr split: if_splits)
  have "canonicalizeAuthorityVersionVector (vector_value (s_vector s)) = Inr (s_vector s)"
  proof (rule canonicalize_vector_value)
    show "vector_ok (s_vector s)"
      using s(1) by (auto simp: read_barrier_Inr dest: canonicalize_ok)
  qed
  with s show "\<exists>s. requireCurrentAuthorityBinding b db = Inr s"
    by (simp add: requireCurrentAuthorityBinding_def requireStableAuthorityBarrier_def
        requireStableExpected_def expectation_met_def authorityVersionVectorsEqual_def)
  from s(1,3) have "barrier_epoch db = barrierEpoch b"
    by (auto simp: read_barrier_Inr barrier_epoch_def)
  moreover have "barrier_epoch db < barrier_epoch db1"
    using begin_effect [OF assms(2)] by (auto simp: barrier_epoch_def)
  ultimately have "barrier_epoch db2 \<noteq> barrierEpoch b"
    using epochs.past_value_gone [OF _ assms(3)] by metis
  then have "requireCurrentAuthorityBinding b db2 \<noteq> Inr t" for t
    by (auto simp: requireCurrentAuthorityBinding_def requireStableAuthorityBarrier_def
        expectation_met_def and_then_eq_Inr read_barrier_Inr barrier_epoch_def split: if_splits)
  then show "\<exists>err. requireCurrentAuthorityBinding b db2 = Inl err"
    by (cases "requireCurrentAuthorityBinding b db2") auto
qed

definition example_vector :: js_value where
  "example_vector = vector_value \<lparr>vv_nuclear = 2, vv_continuity = 0, vv_cognitive_sidecar = 1\<rparr>"

definition example_stable :: authority_db where
  "example_stable = snd (stabilizeAuthorityBarrier example_vector (Some 5) None authority_initial)"

definition example_begun :: authority_db where
  "example_begun = snd (beginAuthorityTransition ''u'' ''forget'' (Some 6) None example_stable)"

theorem captured_binding_stale_witness:
  "\<exists>b err. captureAuthorityCurrentness example_stable = Inr b \<and>
    requireCurrentAuthorityBinding b
      (snd (stabilizeAuthorityBarrier example_vector (Some 7) None example_begun)) = Inl err"
proof -
  obtain b where b: "captureAuthorityCurrentness example_stable = Inr b"
    by (cases "captureAuthorityCurrentness example_stable") (code_simp, blast)
  obtain tok where t: "beginAuthorityTransitionInTransaction ''u'' ''forget'' (Some 6) None
      example_stable = Inr (tok, example_begun)"
    unfolding example_begun_def beginAuthorityTransition_def in_immediate_transaction_def
    by (cases "beginAuthorityTransitionInTransaction ''u'' ''forget'' (Some 6) None example_stable")
      (code_simp, auto)
  have "authority_step\<^sup>*\<^sup>* example_begun
      (snd (stabilizeAuthorityBarrier example_vector (Some 7) None example_begun))"
    unfolding stabilizeAuthorityBarrier_def by (rule transaction_step) (rule step_stabilize)
  from captured_binding_stale [OF b t this] b show ?thesis by blast
qed

text \<open>
  C29. Every database the coordinator can reach from the one the migration creates satisfies the
  tables' invariant: one barrier row whose revision is its epoch and whose vector column parses,
  a transition id and a reason exactly as the state demands, one row per canonical owner with a
  version that is not negative, change ids without duplicates, and no journalled canonical
  version ahead of its owner's.
\<close>

theorem authority_reachable_inv:
  "authority_step\<^sup>*\<^sup>* authority_initial db \<Longrightarrow> authority_inv db"
  using tables.steps_inv initial_inv by blast

theorem authority_reachable_inv_witness:
  "authority_inv example_stable"
proof (rule authority_reachable_inv)
  show "authority_step\<^sup>*\<^sup>* authority_initial example_stable"
    unfolding example_stable_def stabilizeAuthorityBarrier_def
    by (rule transaction_step) (rule step_stabilize)
qed

text \<open>
  Startup recovery always ends: from any database satisfying the invariant, at any time, it
  returns, never leaves the barrier transitioning, and leaves it stable exactly when it was
  stable, the projection is ready or no invalidation is pending. A barrier it stabilizes carries
  the versions of the owner rows, so that what a crash left half done is closed from them.
\<close>

theorem startup_recovers:
  assumes "authority_inv db" and "0 \<le> n"
  shows "\<exists>s db'. reconcileAuthorityBarrierOnStartup ready (Some n) db = (Inr s, db') \<and>
    s_state s \<noteq> Transitioning \<and>
    (s_state s = Stable \<longleftrightarrow> (\<exists>b. barrier db = Some b \<and> b_state b = Stable) \<or> ready = Some True \<or>
      (\<forall>r \<in> set (journal db). \<not> pending_invalidation r)) \<and>
    (s_state s = Stable \<longrightarrow> (\<exists>b. barrier db = Some b \<and> b_state b \<noteq> Stable) \<longrightarrow>
      (\<forall>w. vv_of (s_vector s) w = owner_version w db))"
proof -
  from assms(1) obtain b v where b: "barrier db = Some b" "barrier_wf b"
    "canonicalizeAuthorityVersionVector (b_vector_json b) = Inr v"
    by (auto simp: authority_inv_def barrier_wf_def)
  from assms(1) obtain w where w: "readAuthorityVersionVector db = Inr w" "vector_ok w"
    "\<forall>u. vv_of w u = owner_version u db"
    using read_vector_ok by (auto simp: authority_inv_def)
  have pos: "sql_changes pending_invalidation (journal db) > 0 \<longleftrightarrow>
      (\<exists>r \<in> set (journal db). pending_invalidation r)"
    by (metis neq0_conv sql_changes_0)
  show ?thesis
  proof (cases "b_state b = Stable")
    case True
    with b show ?thesis
      by (auto simp: reconcileAuthorityBarrierOnStartup_def readAuthorityBarrier_def
          read_barrier_row_def barrier_snapshot_of_def barrier_wf_def)
  next
    case False
    have reason: "\<not> blank ''pending_derived_reconciliation''" by code_simp
    have canon: "canonicalizeAuthorityVersionVector (vector_value w) = Inr w"
      using w(2) by (rule canonicalize_vector_value)
    from False have "b_state b = Transitioning \<or> b_state b = Reconciling"
      by (cases "b_state b") auto
    with b False w reason canon assms(2) pos show ?thesis
      by (auto simp: reconcileAuthorityBarrierOnStartup_def readAuthorityBarrier_def
          read_barrier_row_def barrier_snapshot_of_def barrier_wf_def set_barrier_def
          markAuthorityBarrierReconciling_def stabilizeAuthorityBarrier_def token_mismatch_def
          in_immediate_transaction_def markReconcilingInTransaction_def stabilizeInTransaction_def
          split: option.splits)
  qed
qed

theorem startup_recovers_witness:
  "\<exists>s db'. reconcileAuthorityBarrierOnStartup None (Some 9) authority_initial = (Inr s, db') \<and>
    s_state s = Stable"
proof -
  have "\<forall>r \<in> set (journal authority_initial). \<not> pending_invalidation r"
    by (simp add: authority_initial_def)
  with startup_recovers [OF initial_inv, of 9 None] show ?thesis by auto
qed

text \<open>
  A version advance is idempotent for a repeated change id only while that change is the
  owner's last one. Repeating it at once returns the same version and changes nothing; once
  another change has advanced the owner, repeating the first change advances the version again.
\<close>

theorem advance_idempotent_last_only:
  assumes "authority_inv db" and "in_transition db" and "\<not> blank c" and "\<not> blank c'"
    and "c' \<noteq> c" and "0 \<le> t"
  shows "\<exists>n db1 db2 db3.
    advanceCanonicalOwnerVersionInTransaction w c (Some t) db = Inr (n, db1) \<and>
    advanceCanonicalOwnerVersionInTransaction w c (Some t) db1 = Inr (n, db1) \<and>
    advanceCanonicalOwnerVersionInTransaction w c' (Some t) db1 = Inr (n + 1, db2) \<and>
    advanceCanonicalOwnerVersionInTransaction w c (Some t) db2 = Inr (n + 2, db3)"
proof -
  from advance_succeeds [OF assms(1-3,6)] obtain n db1 r1 where 1:
    "advanceCanonicalOwnerVersionInTransaction w c (Some t) db = Inr (n, db1)"
    "authority_inv db1" "in_transition db1"
    "find_owner db1 w = Some r1" "o_version r1 = n" "o_change r1 = c" by blast
  from advance_succeeds [OF 1(2,3) assms(3,6), of w] obtain n' db' where
    rep: "advanceCanonicalOwnerVersionInTransaction w c (Some t) db1 = Inr (n', db')" by blast
  from advance_effect [OF rep] 1(4-6) have "n' = n" "db' = db1" by auto
  with rep have again: "advanceCanonicalOwnerVersionInTransaction w c (Some t) db1 = Inr (n, db1)"
    by simp
  from advance_succeeds [OF 1(2,3) assms(4,6), of w] 1(4-6) assms(5) obtain db2 r2 where 2:
    "advanceCanonicalOwnerVersionInTransaction w c' (Some t) db1 = Inr (n + 1, db2)"
    "authority_inv db2" "in_transition db2"
    "find_owner db2 w = Some r2" "o_version r2 = n + 1" "o_change r2 = c'" by auto
  from advance_succeeds [OF 2(2,3) assms(3,6), of w] 2(4-6) assms(5) obtain db3 where
    "advanceCanonicalOwnerVersionInTransaction w c (Some t) db2 = Inr (n + 2, db3)" by auto
  with 1(1) again 2(1) show ?thesis by blast
qed

theorem advance_idempotent_last_only_witness:
  "\<exists>n db3. advanceCanonicalOwnerVersionInTransaction Owner_nuclear ''a'' (Some 1) authority_initial =
     Inr (n, db3)"
proof -
  have "in_transition authority_initial" "\<not> blank ''a''" "\<not> blank ''b''" by code_simp+
  from advance_idempotent_last_only [OF initial_inv this, of 1 Owner_nuclear] show ?thesis by auto
qed

text \<open>
  A settled invalidation stays settled: once \<open>markDerivedInvalidationApplied\<close> has reported
  that it applied a change, then after any operations the change is still applied, it can no
  longer be quarantined, a replay of its record neither reopens it nor changes the database, and
  it never blocks again.
\<close>

theorem applied_invalidation_final:
  assumes "authority_inv db"
    and "markDerivedInvalidationApplied c m db = Inr (True, db1)"
    and "authority_step\<^sup>*\<^sup>* db1 db2"
  shows "journal_status db2 c = Some J_applied \<and>
    (0 \<le> m' \<longrightarrow> markDerivedInvalidationQuarantined c err m' db2 = Inr (False, db2)) \<and>
    (\<forall>e \<in> set (listPendingDerivedInvalidations db2). changeId e \<noteq> c) \<and>
    (\<forall>uuid i e db3. i_changeId i = Some c \<longrightarrow>
       recordDerivedInvalidationInTransaction uuid i db2 = Inr (e, db3) \<longrightarrow>
       db3 = db2 \<and> journalState e = J_applied)"
proof -
  let ?P = "\<lambda>r. j_change r = c \<and> pending_invalidation r"
  have dist: "distinct (map j_change (journal db))"
    using assms(1) by (simp add: authority_inv_def journal_wf_def)
  from assms(2) have "sql_changes ?P (journal db) = 1"
    by (auto simp: markDerivedInvalidationApplied_def settle_journal_def and_then_eq_Inr Let_def)
  then obtain r where "sql_get (\<lambda>r. j_change r = c) (journal db) = Some r" "pending_invalidation r"
    unfolding sql_changes_key [OF dist, of c pending_invalidation]
    by (cases "sql_get (\<lambda>r. j_change r = c) (journal db)") (simp_all split: if_splits)
  moreover have "j_change r = c"
    using calculation(1) by (auto dest: sql_get_SomeD)
  ultimately have "journal_status db1 c = Some J_applied"
    using settle_effect [OF assms(2) [unfolded markDerivedInvalidationApplied_def]]
    by (simp add: journal_status_def find_change_def sql_get_update)
  then have applied: "journal_status db2 c = Some J_applied"
    by (rule invalidations.terminal_forever [OF assms(3)]) simp
  then obtain q where q: "find_change db2 c = Some q" "j_state q = J_applied"
    by (auto simp: journal_status_def)
  have "authority_inv db2"
    using assms step_applied tables.step_inv tables.steps_inv by metis
  then have dist2: "distinct (map j_change (journal db2))"
    by (simp add: authority_inv_def journal_wf_def)
  have none: "\<not> ?P r" if "r \<in> set (journal db2)" for r
    using q sql_get_key [OF dist2 that, of c] by (auto simp: find_change_def pending_invalidation_def)
  then have "sql_update ?P f (journal db2) = journal db2" for f
    unfolding sql_update_def by (intro map_idI if_not_P) (rule none)
  moreover have "sql_changes ?P (journal db2) = 0"
    using none by simp
  ultimately have quarantine: "0 \<le> m' \<longrightarrow>
      markDerivedInvalidationQuarantined c err m' db2 = Inr (False, db2)"
    by (simp add: markDerivedInvalidationQuarantined_def settle_journal_def Let_def del: sql_changes_0)
  have "\<forall>e \<in> set (listPendingDerivedInvalidations db2). changeId e \<noteq> c"
    using none by (auto simp: listPendingDerivedInvalidations_def mapEntry_def)
  moreover have "db3 = db2 \<and> journalState e = J_applied"
    if "i_changeId i = Some c" "recordDerivedInvalidationInTransaction uuid i db2 = Inr (e, db3)"
    for uuid i e db3
    using that q
    by (auto simp: recordDerivedInvalidationInTransaction_def and_then_eq_Inr Let_def mapEntry_def
        split: if_splits)
  ultimately show ?thesis
    using applied quarantine by blast
qed

definition example_invalidation :: invalidation_input where
  "example_invalidation = \<lparr>i_changeId = Some ''c'', i_ownerId = ''o'', i_conversationId = None,
     i_sourceRefs = [''s''], i_kind = Kind_forget, i_owner = Owner_continuity,
     i_generation = NInt 1, i_nowMs = Some 4\<rparr>"

definition example_journalled :: authority_db where
  "example_journalled =
     (case recordDerivedInvalidationInTransaction ''u'' example_invalidation authority_initial of
        Inl err \<Rightarrow> authority_initial | Inr (e, db) \<Rightarrow> db)"

theorem applied_invalidation_final_witness:
  "\<exists>db1. markDerivedInvalidationApplied ''c'' 6 example_journalled = Inr (True, db1) \<and>
     journal_status db1 ''c'' = Some J_applied"
proof -
  have "authority_inv example_journalled"
    unfolding example_journalled_def
    using initial_inv step_authority_inv step_record by (auto split: sum.splits)
  moreover obtain db1 where "markDerivedInvalidationApplied ''c'' 6 example_journalled = Inr (True, db1)"
    unfolding markDerivedInvalidationApplied_def settle_journal_def Let_def
    by (cases "sql_changes (\<lambda>r. j_change r = ''c'' \<and> pending_invalidation r) (journal example_journalled) = 1")
      (simp, code_simp)
  ultimately show ?thesis
    using applied_invalidation_final [OF _ _ rtranclp.rtrancl_refl] by blast
qed

end
