(* ===== verification/Effect_Ledger.thy ===== *)
theory Effect_Ledger
  imports Sql_Tables Transition_Systems
begin

text \<open>
  The durable ledger of effects the agent has dispatched,
  \<^verbatim>\<open>apps/agent-service/src/core/cognitive-v021/effect/in-flight.ts\<close>: the in-flight rows, the
  receipts and the occupancy of a wake, with the unique indexes of
  \<^verbatim>\<open>sidecar/schema.ts\<close>. JSON columns hold the value that \<open>JSON.parse\<close> gives of what
  \<open>JSON.stringify\<close> stored (\<open>json_norm\<close>). The statements are not wrapped in a transaction, so an
  operation returns the database also when it throws. Calls of \<open>recordHostFriction\<close>, which
  never throws, are logged in order in \<open>frictions\<close>.
\<close>

section \<open>JSON storage\<close>

fun json_norm :: "js_value \<Rightarrow> js_value" and norm_fields :: "(string \<times> js_value) list \<Rightarrow> (string \<times> js_value) list"
where
  "json_norm JUndefined = JNull"
| "json_norm (JNum (NOther s)) =
     (if List.member [''NaN'', ''Infinity'', ''-Infinity''] s then JNull else JNum (NOther s))"
| "json_norm (JArr vs) = JArr (map json_norm vs)"
| "json_norm (JObj fs) = JObj (norm_fields fs)"
| "json_norm v = v"
| "norm_fields [] = []"
| "norm_fields ((k, v) # fs) =
     (if v = JUndefined then filter (\<lambda>e. fst e \<noteq> k) (norm_fields fs)
      else (k, json_norm v) # norm_fields fs)"

fun is_record :: "js_value \<Rightarrow> bool" where
  "is_record (JObj fs) = True"
| "is_record _ = False"

fun js_fields :: "js_value \<Rightarrow> (string \<times> js_value) list" where
  "js_fields (JObj fs) = fs"
| "js_fields _ = []"

text \<open>\<open>{ ...obj, k: v }\<close> and \<open>a ?? b\<close>.\<close>

definition js_spread_set :: "js_value \<Rightarrow> string \<Rightarrow> js_value \<Rightarrow> js_value" where
  "js_spread_set obj k v = JObj ((k, v) # filter (\<lambda>e. fst e \<noteq> k) (js_fields obj))"

definition js_or :: "js_value \<Rightarrow> js_value \<Rightarrow> js_value" where
  "js_or a b = (if a = JUndefined \<or> a = JNull then b else a)"

section \<open>Tables\<close>

datatype effect_state = In_flight | Receipted | Unknown

record in_flight_row =
  if_effect :: string
  if_cycle :: string
  if_generation :: int
  if_wake :: "string option"
  if_correlation :: string
  if_key :: string
  if_state :: effect_state
  if_payload :: js_value
  if_dispatched :: int
  if_job :: "string option"
  if_event :: "string option"
  if_attempt :: "string option"

record effect_receipt =
  rc_id :: string
  rc_effect :: string
  rc_key :: string
  rc_outcome :: string
  rc_claims :: js_value
  rc_at :: int
  rc_class :: string
  rc_secret :: bool

record cycle_row =
  c_cycle :: string
  c_conversation :: string
  c_generation :: int
  c_wake :: "string option"
  c_trigger :: "string option"
  c_preempted :: "int option"
  c_state :: string
  c_trigger_kind :: string
  c_occupant :: "string option"
  c_authority_epoch :: int
  c_architecture :: string
  c_admitted :: int
  c_updated :: int

record friction_call =
  fr_kind :: string
  fr_subject :: string
  fr_at :: int
  fr_cycle :: "string option"

record effect_db =
  in_flight_effects :: "in_flight_row list"
  effect_receipts :: "effect_receipt list"
  cycle_records :: "cycle_row list"
  frictions :: "friction_call list"

section \<open>In-flight records\<close>

definition HOST_EFFECT_PAYLOAD_SCHEMA :: string where
  "HOST_EFFECT_PAYLOAD_SCHEMA = ''ashley.effect_payload.v1''"

definition nonblank_str :: "js_value \<Rightarrow> bool" where
  "nonblank_str v \<longleftrightarrow> is_str v \<and> \<not> blank (the_str v)"

text \<open>\<open>JUndefined\<close> for a missing scope, \<open>JNull\<close> for one that is not understood.\<close>

definition audienceScope :: "js_value \<Rightarrow> js_value" where
  "audienceScope v =
     (if v = JUndefined then JUndefined
      else if \<not> is_record v then JNull
      else let kind = js_prop v ''kind'' in
        if kind = JStr ''owner_private'' then JObj [(''kind'', JStr ''owner_private'')]
        else if kind = JStr ''owner_dm'' \<and> nonblank_str (js_prop v ''threadId'')
        then JObj [(''kind'', JStr ''owner_dm''), (''threadId'', js_prop v ''threadId'')]
        else if kind = JStr ''dm'' \<and> nonblank_str (js_prop v ''principalId'')
        then JObj [(''kind'', JStr ''dm''), (''principalId'', js_prop v ''principalId'')]
        else if kind = JStr ''room'' \<and> nonblank_str (js_prop v ''roomId'')
        then JObj [(''kind'', JStr ''room''), (''roomId'', js_prop v ''roomId'')]
        else JNull)"

record in_flight_record =
  effectId :: string
  cycleId :: string
  effectGeneration :: int
  wakeId :: "string option"
  correlationId :: string
  idempotencyKey :: string
  effectStatus :: effect_state
  dispatchedAtMs :: int
  originJobId :: "string option"
  originEventId :: "string option"
  originAttemptId :: "string option"
  recordScope :: js_value
  operationKind :: "string option"
  request :: js_value
  payloadRedacted :: bool

definition mapInFlight :: "in_flight_row \<Rightarrow> in_flight_record" where
  "mapInFlight r =
     (let payload = (if is_record (if_payload r) then if_payload r else JObj []);
          hostMetadata = js_prop payload ''__ashleyBclp'';
          isHostEnvelope = (is_record hostMetadata \<and>
            js_prop hostMetadata ''schema'' = JStr HOST_EFFECT_PAYLOAD_SCHEMA \<and>
            is_str (js_prop hostMetadata ''semanticOperationKind'') \<and>
            ''request'' \<in> set (map fst (js_fields payload)));
          req = (if isHostEnvelope then js_prop payload ''request'' else payload);
          requestRecord = (if is_record req then req else JUndefined)
      in \<lparr>effectId = if_effect r, cycleId = if_cycle r, effectGeneration = if_generation r,
          wakeId = if_wake r, correlationId = if_correlation r, idempotencyKey = if_key r,
          effectStatus = if_state r, dispatchedAtMs = if_dispatched r, originJobId = if_job r,
          originEventId = if_event r, originAttemptId = if_attempt r,
          recordScope = audienceScope
            (js_or (js_prop requestRecord ''audienceScope'') (js_prop payload ''audienceScope'')),
          operationKind = (if isHostEnvelope
            then Some (the_str (js_prop hostMetadata ''semanticOperationKind'')) else None),
          request = req,
          payloadRedacted = (js_prop requestRecord ''redacted'' = JBool True \<or>
            js_prop payload ''redacted'' = JBool True)\<rparr>)"

definition find_effect :: "effect_db \<Rightarrow> string \<Rightarrow> in_flight_row option" where
  "find_effect db e = sql_get (\<lambda>r. if_effect r = e) (in_flight_effects db)"

definition find_effect_key :: "effect_db \<Rightarrow> string \<Rightarrow> in_flight_row option" where
  "find_effect_key db k = sql_get (\<lambda>r. if_key r = k) (in_flight_effects db)"

definition getInFlightByEffectId :: "effect_db \<Rightarrow> string \<Rightarrow> in_flight_record option" where
  "getInFlightByEffectId db e = map_option mapInFlight (find_effect db e)"

definition getInFlightByIdempotencyKey :: "effect_db \<Rightarrow> string \<Rightarrow> in_flight_record option" where
  "getInFlightByIdempotencyKey db k = map_option mapInFlight (find_effect_key db k)"

definition getInFlight :: "effect_db \<Rightarrow> string \<Rightarrow> in_flight_record option" where
  "getInFlight db k =
     (case getInFlightByEffectId db k of
        Some r \<Rightarrow> Some r | None \<Rightarrow> getInFlightByIdempotencyKey db k)"

definition unresolved :: "in_flight_row \<Rightarrow> bool" where
  "unresolved r \<longleftrightarrow> if_state r = In_flight \<or> if_state r = Unknown"

definition getUnresolvedInFlightForWake :: "effect_db \<Rightarrow> string \<Rightarrow> in_flight_record option" where
  "getUnresolvedInFlightForWake db w = map_option mapInFlight
     (sql_get (\<lambda>r. if_wake r = Some w \<and> unresolved r) (in_flight_effects db))"

definition cycle_wake :: "effect_db \<Rightarrow> string \<Rightarrow> string option" where
  "cycle_wake db c =
     (case sql_get (\<lambda>r. c_cycle r = c) (cycle_records db) of None \<Rightarrow> None | Some r \<Rightarrow> c_wake r)"

definition getUnresolvedInFlightForCycle :: "effect_db \<Rightarrow> string \<Rightarrow> in_flight_record option" where
  "getUnresolvedInFlightForCycle db c =
     (case cycle_wake db c of
        None \<Rightarrow> None | Some w \<Rightarrow> getUnresolvedInFlightForWake db w)"

text \<open>The partial unique index on \<open>wake_id\<close>, and the two other unique columns.\<close>

definition occupancy_ok :: "in_flight_row list \<Rightarrow> bool" where
  "occupancy_ok rows \<longleftrightarrow> distinct (map if_wake (filter (\<lambda>r. if_wake r \<noteq> None \<and> unresolved r) rows))"

definition in_flight_indexes :: "in_flight_row list \<Rightarrow> bool" where
  "in_flight_indexes rows \<longleftrightarrow> distinct (map if_effect rows) \<and> distinct (map if_key rows) \<and>
     occupancy_ok rows"

definition store_in_flight :: "in_flight_row list \<Rightarrow> effect_db \<Rightarrow> unit throws \<times> effect_db" where
  "store_in_flight rows db =
     (if in_flight_indexes rows then (Inr (), db\<lparr>in_flight_effects := rows\<rparr>)
      else (Inl ''UNIQUE constraint failed'', db))"

record put_input =
  p_effectId :: "string option"
  p_cycleId :: string
  p_generation :: int
  p_wakeId :: "string option"
  p_correlationId :: string
  p_idempotencyKey :: string
  p_dispatchedAtMs :: int
  p_originJobId :: "string option"
  p_payload :: js_value
  p_originEventId :: string
  p_originAttemptId :: "string option"
  p_audienceScope :: js_value
  p_operationKind :: "string option"

definition stored_payload :: "put_input \<Rightarrow> js_value" where
  "stored_payload i =
     (let requestPayload =
        (if p_audienceScope i = JUndefined then js_or (p_payload i) (JObj [])
         else if is_record (p_payload i)
         then js_spread_set (p_payload i) ''audienceScope'' (p_audienceScope i)
         else JObj [(''value'', js_or (p_payload i) JNull), (''audienceScope'', p_audienceScope i)])
      in case p_operationKind i of
           Some (c # cs) \<Rightarrow> JObj
             [(''__ashleyBclp'', JObj [(''schema'', JStr HOST_EFFECT_PAYLOAD_SCHEMA),
                (''semanticOperationKind'', JStr (c # cs))]),
              (''request'', requestPayload)]
         | _ \<Rightarrow> requestPayload)"

definition new_in_flight :: "put_input \<Rightarrow> string \<Rightarrow> string \<Rightarrow> in_flight_row" where
  "new_in_flight i effect w =
     \<lparr>if_effect = effect, if_cycle = p_cycleId i, if_generation = p_generation i,
      if_wake = Some w, if_correlation = p_correlationId i, if_key = p_idempotencyKey i,
      if_state = In_flight, if_payload = json_norm (stored_payload i),
      if_dispatched = p_dispatchedAtMs i, if_job = p_originJobId i,
      if_event = Some (p_originEventId i), if_attempt = p_originAttemptId i\<rparr>"

definition put_wake :: "put_input \<Rightarrow> effect_db \<Rightarrow> string option" where
  "put_wake i db = (case p_wakeId i of Some w \<Rightarrow> Some w | None \<Rightarrow> cycle_wake db (p_cycleId i))"

text \<open>
  \<open>fk\<close> says whether the rows a new row references exist; \<open>uuid\<close> is the random effect id;
  \<open>p_dispatchedAtMs\<close> is \<open>dispatchedAtMs ?? Date.now()\<close>.
\<close>

definition putInFlight ::
  "(in_flight_row \<Rightarrow> bool) \<Rightarrow> string \<Rightarrow> put_input \<Rightarrow> effect_db \<Rightarrow>
   in_flight_record throws \<times> effect_db" where
  "putInFlight fk uuid i db =
     (case getInFlightByIdempotencyKey db (p_idempotencyKey i) of
        Some existing \<Rightarrow> (Inr existing, db)
      | None \<Rightarrow>
          if blank (p_originEventId i) then (Inl ''origin_event_id_required'', db)
          else (case put_wake i db of
              None \<Rightarrow> (Inl ''wake_required'', db)
            | Some w \<Rightarrow>
                if w = [] then (Inl ''wake_required'', db)
                else if getUnresolvedInFlightForWake db w \<noteq> None
                then (Inl ''wake_effect_occupancy_held'', db)
                else let effect = (case p_effectId i of Some e \<Rightarrow> e | None \<Rightarrow> uuid);
                         row = new_in_flight i effect w
                  in if \<not> fk row then (Inl ''FOREIGN KEY constraint failed'', db)
                     else (case store_in_flight (in_flight_effects db @ [row]) db of
                         (Inl err, db1) \<Rightarrow> (Inl err, db1)
                       | (Inr _, db1) \<Rightarrow>
                           (case getInFlightByEffectId db1 effect of
                              None \<Rightarrow> (Inl ''in_flight_insert_lost'', db1)
                            | Some r \<Rightarrow> (Inr r, db1)))))"

definition recordHostFriction ::
  "string \<Rightarrow> string \<Rightarrow> int \<Rightarrow> string option \<Rightarrow> effect_db \<Rightarrow> effect_db" where
  "recordHostFriction kind subject at c db =
     db\<lparr>frictions := frictions db @ [\<lparr>fr_kind = kind, fr_subject = subject, fr_at = at, fr_cycle = c\<rparr>]\<rparr>"

text \<open>\<open>UPDATE in_flight_effects SET state = s WHERE effect_id = e AND guard\<close>.\<close>

definition set_effect_state ::
  "effect_state \<Rightarrow> string \<Rightarrow> (in_flight_row \<Rightarrow> bool) \<Rightarrow> effect_db \<Rightarrow> unit throws \<times> effect_db" where
  "set_effect_state s e guard db = store_in_flight
     (sql_update (\<lambda>r. if_effect r = e \<and> guard r) (\<lambda>r. r\<lparr>if_state := s\<rparr>) (in_flight_effects db)) db"

definition markInFlightUnknown :: "string \<Rightarrow> int \<Rightarrow> effect_db \<Rightarrow> in_flight_record throws \<times> effect_db" where
  "markInFlightUnknown e at db =
     (case set_effect_state Unknown e (\<lambda>r. if_state r = In_flight) db of
        (Inl err, db1) \<Rightarrow> (Inl err, db1)
      | (Inr _, db1) \<Rightarrow>
          (case getInFlightByEffectId db1 e of
             None \<Rightarrow> (Inl ''in_flight_missing'', db1)
           | Some r \<Rightarrow>
               (Inr r, if effectStatus r = Unknown
                  then recordHostFriction ''outcome_unknown'' e at (Some (cycleId r)) db1 else db1)))"

section \<open>Receipts\<close>

definition mapReceipt :: "effect_receipt \<Rightarrow> effect_receipt" where
  "mapReceipt r = r
     \<lparr>rc_outcome := (if rc_outcome r = ''unknown'' then ''outcome_unknown'' else rc_outcome r),
      rc_claims := (if is_record (rc_claims r) then rc_claims r else JObj [])\<rparr>"

definition getEffectReceipt :: "effect_db \<Rightarrow> string \<Rightarrow> effect_receipt option" where
  "getEffectReceipt db e = map_option mapReceipt (sql_get (\<lambda>r. rc_effect r = e) (effect_receipts db))"

definition getEffectReceiptByIdempotencyKey :: "effect_db \<Rightarrow> string \<Rightarrow> effect_receipt option" where
  "getEffectReceiptByIdempotencyKey db k =
     map_option mapReceipt (sql_get (\<lambda>r. rc_key r = k) (effect_receipts db))"

definition executionTruth :: "effect_receipt \<Rightarrow> js_value" where
  "executionTruth r = js_prop (rc_claims r) ''executionTruth''"

definition effectStateForReceipt :: "effect_receipt \<Rightarrow> effect_state" where
  "effectStateForReceipt r =
     (if executionTruth r = JStr ''effect_unknown'' \<or> executionTruth r = JStr ''effect_partial'' \<or>
        executionTruth r = JStr ''effect_indeterminate'' then Unknown
      else if rc_outcome r = ''succeeded'' \<or> rc_outcome r = ''not_attempted'' then Receipted
      else if rc_outcome r = ''in_progress'' then In_flight
      else if rc_outcome r = ''failed'' \<and>
        (executionTruth r = JStr ''no_effect_proven'' \<or> executionTruth r = JStr ''effect_verified'')
      then Receipted
      else Unknown)"

definition markInFlightReceipted :: "string \<Rightarrow> effect_db \<Rightarrow> in_flight_record throws \<times> effect_db" where
  "markInFlightReceipted e db =
     (let s = (case getEffectReceipt db e of Some r \<Rightarrow> effectStateForReceipt r | None \<Rightarrow> Unknown) in
      case set_effect_state s e (\<lambda>_. True) db of
        (Inl err, db1) \<Rightarrow> (Inl err, db1)
      | (Inr _, db1) \<Rightarrow>
          (case getInFlightByEffectId db1 e of
             None \<Rightarrow> (Inl ''in_flight_missing'', db1) | Some r \<Rightarrow> (Inr r, db1)))"

definition updateInFlightOccupancyFromReceipt ::
  "effect_receipt \<Rightarrow> effect_db \<Rightarrow> unit throws \<times> effect_db" where
  "updateInFlightOccupancyFromReceipt r db =
     (case set_effect_state (effectStateForReceipt r) (rc_effect r) (\<lambda>_. True) db of
        (Inl err, db1) \<Rightarrow> (Inl err, db1)
      | (Inr _, db1) \<Rightarrow>
          let c = map_option cycleId (getInFlightByEffectId db1 (rc_effect r));
              db2 = (if effectStateForReceipt r = Unknown
                then recordHostFriction ''outcome_unknown'' (rc_effect r) (rc_at r) c db1 else db1);
              db3 = (if rc_outcome r = ''failed''
                then recordHostFriction ''effect_failed'' (rc_effect r) (rc_at r) c db2 else db2)
          in (Inr (), db3))"

definition VALID_RECEIPT_OUTCOMES :: "string list" where
  "VALID_RECEIPT_OUTCOMES =
     [''succeeded'', ''failed'', ''outcome_unknown'', ''not_attempted'', ''in_progress'']"

definition receipt_indexes :: "effect_receipt list \<Rightarrow> bool" where
  "receipt_indexes rs \<longleftrightarrow> distinct (map rc_id rs) \<and> distinct (map rc_effect rs) \<and>
     distinct (map rc_key rs)"

definition promote_receipts :: "effect_receipt \<Rightarrow> effect_receipt list \<Rightarrow> effect_receipt list" where
  "promote_receipts r = sql_update (\<lambda>q. rc_effect q = rc_effect r \<and> rc_outcome q = ''in_progress'')
     (\<lambda>q. q\<lparr>rc_outcome := rc_outcome r, rc_claims := json_norm (rc_claims r), rc_at := rc_at r,
       rc_class := rc_class r, rc_secret := rc_secret r\<rparr>)"

definition or_else :: "'a option \<Rightarrow> 'a option \<Rightarrow> 'a option" where
  "or_else a b = (case a of Some x \<Rightarrow> Some x | None \<Rightarrow> b)"

definition recordEffectReceipt ::
  "effect_receipt \<Rightarrow> effect_db \<Rightarrow> effect_receipt throws \<times> effect_db" where
  "recordEffectReceipt r db =
     (if \<not> List.member VALID_RECEIPT_OUTCOMES (rc_outcome r)
      then (Inl (''invalid_receipt_outcome:'' @ rc_outcome r), db)
      else (case or_else (getEffectReceipt db (rc_effect r))
              (getEffectReceiptByIdempotencyKey db (rc_key r)) of
          Some existing \<Rightarrow>
            if rc_effect existing = rc_effect r \<and> rc_outcome existing = ''in_progress'' \<and>
              rc_outcome r \<noteq> ''in_progress''
            then let db1 = db\<lparr>effect_receipts := promote_receipts r (effect_receipts db)\<rparr>;
                     promoted = the (or_else (getEffectReceipt db1 (rc_effect r)) (Some existing))
              in (case updateInFlightOccupancyFromReceipt promoted db1 of
                  (Inl err, db2) \<Rightarrow> (Inl err, db2) | (Inr _, db2) \<Rightarrow> (Inr promoted, db2))
            else if rc_effect existing = rc_effect r
            then (case updateInFlightOccupancyFromReceipt existing db of
                (Inl err, db2) \<Rightarrow> (Inl err, db2) | (Inr _, db2) \<Rightarrow> (Inr existing, db2))
            else (Inr existing, db)
        | None \<Rightarrow>
            let rows = effect_receipts db @ [r\<lparr>rc_claims := json_norm (rc_claims r)\<rparr>] in
            if \<not> receipt_indexes rows then (Inl ''UNIQUE constraint failed'', db)
            else let db1 = db\<lparr>effect_receipts := rows\<rparr> in
              (case updateInFlightOccupancyFromReceipt r db1 of
                  (Inl err, db2) \<Rightarrow> (Inl err, db2)
                | (Inr _, db2) \<Rightarrow>
                    (Inr (the (or_else (getEffectReceipt db2 (rc_effect r)) (Some r))), db2))))"

end
