(* ===== verification/Authority_Check.thy ===== *)
theory Authority_Check
  imports Authority_Store Effect_Ledger Js_Regex
begin

text \<open>
  The authority verdicts of \<^verbatim>\<open>cognitive-v021/authority/check.ts\<close>, with the effect references of
  \<^verbatim>\<open>effect/effect-ref.ts\<close>: a settlement is checked against the host's truth about its effects,
  a dispatch against the epoch, the withdrawal and the currentness binding. SHA-256, hex encoded,
  is the parameter \<open>sha\<close>. Records hold the fields the checks read.
\<close>

section \<open>Types\<close>

datatype authority_code =
    CURRENTNESS_UNVERIFIED | RECEIPT_REQUIRED | RECEIPT_CONTRADICTS_CLAIM | IN_FLIGHT_UNKNOWN
  | CAPABILITY_UNAVAILABLE | EFFECT_NOT_AUTHORIZED | RELATIONAL_BOUNDARY | RELATIONAL_WITHDRAWAL
  | SOURCE_CLASS_INSUFFICIENT | STALE_STATE | IDENTITY_MUTATION_FORBIDDEN | SECRET_OR_CREDENTIAL
  | REVISION_BUDGET_EXHAUSTED | DISPATCH_EPOCH_CHANGED | STALE_GENERATION
  | DRAFT_COMMITMENT_CONFLICT | EMPTY_COMMITMENTS_WITH_DRAFT | Commitment_contract_failure
  | AUTHORITY_TRANSITION_ACTIVE | AUTHORITY_PACK_INCOMPLETE | AUTHORITY_VECTOR_STALE
  | DERIVED_SCOPE_INVALIDATED | DERIVED_SCOPE_UNAVAILABLE | OPERATIONAL_CLAIM_STATE_MISMATCH
  | OPERATIONAL_CLAIM_EFFECTREF_UNKNOWN

datatype authority_stage = Stage_proposal | Stage_settlement | Stage_dispatch

datatype claim_state =
  Claim_not_attempted | Claim_in_progress | Claim_outcome_unknown | Claim_failed | Claim_succeeded

datatype host_truth =
    Truth_missing | Truth_not_attempted | Truth_in_progress | Truth_outcome_unknown
  | Truth_failed | Truth_succeeded

text \<open>\<open>[]\<close> is \<open>ok: true\<close>.\<close>

type_synonym verdict = "authority_code list"

record operational_claim =
  oc_effectRef :: string
  oc_state :: claim_state

record epistemic_claim =
  ec_statement :: string
  ec_time :: string

record settlement =
  st_cycleId :: string
  st_generation :: int
  st_authorityEpoch :: int
  st_epistemic :: "epistemic_claim list option"
  st_operational :: "operational_claim list option"
  st_speechMode :: string
  st_mustSay :: "string list option"
  st_surfaceDraft :: "string option"
  st_observationsConsumed :: "string list"
  st_effectsCompleted :: "string list option"
  st_revisionCount :: int
  st_objectionsApplied :: "string list"

record authority_packs =
  requireObservationForLatest :: bool
  observedObservationIds :: "string list option"
  pack_binding :: "currentness_binding option"
  pack_complete :: "bool option"
  receiptsByEffectId :: "(string \<times> effect_receipt) list"
  withdrawalActive :: bool
  neverMention :: "string list"
  pack_authorityEpoch :: int

text \<open>An effect proposal or an observation request, which has no epoch.\<close>

record authority_subject =
  sb_authorityEpoch :: "int option"
  sb_kind :: string
  sb_currentness :: "currentness_binding option"

definition MAX_AUTHORITY_REVISIONS :: int where "MAX_AUTHORITY_REVISIONS = 2"

definition or_empty :: "'a list option \<Rightarrow> 'a list" where
  "or_empty x = (case x of None \<Rightarrow> [] | Some ys \<Rightarrow> ys)"

section \<open>Effect references\<close>

definition EFFECT_REF_DOMAIN_SEPARATOR :: string where
  "EFFECT_REF_DOMAIN_SEPARATOR = ''ashley:effect:v1:''"

definition mintEffectRef :: "(string \<Rightarrow> string) \<Rightarrow> string \<Rightarrow> int \<Rightarrow> string \<Rightarrow> string" where
  "mintEffectRef sha cycle generation effect = ''effect:'' @ sha (EFFECT_REF_DOMAIN_SEPARATOR @
     cycle @ '':'' @ int_to_string generation @ '':'' @ effect)"

definition allowedOperationalEffectRefs :: "string list \<Rightarrow> string list" where
  "allowedOperationalEffectRefs refs = sort (js_uniq (filter (\<lambda>r. length r > 0) refs))"

text \<open>\<open>refToId\<close> (a later effect with the same reference wins) and the allowlist.\<close>

definition buildEffectRefMap ::
  "(string \<Rightarrow> string) \<Rightarrow> string \<Rightarrow> int \<Rightarrow> string list \<Rightarrow> (string \<rightharpoonup> string) \<times> string list" where
  "buildEffectRefMap sha cycle generation ids =
     (fold (\<lambda>e m. m(mintEffectRef sha cycle generation e \<mapsto> e)) (sort (js_uniq ids)) Map.empty,
      allowedOperationalEffectRefs (map (mintEffectRef sha cycle generation) ids))"

section \<open>Host truth and the claim matrix\<close>

definition receiptFor ::
  "string \<Rightarrow> authority_packs \<Rightarrow> effect_db option \<Rightarrow> effect_receipt option" where
  "receiptFor effect packs receiptDb =
     or_else (map_of (receiptsByEffectId packs) effect)
       (case receiptDb of None \<Rightarrow> None | Some db \<Rightarrow> getEffectReceipt db effect)"

definition receipt_truth :: "effect_receipt \<Rightarrow> host_truth option" where
  "receipt_truth r =
     (if rc_outcome r = ''succeeded'' then Some Truth_succeeded
      else if rc_outcome r = ''failed'' then Some Truth_failed
      else if rc_outcome r = ''in_progress'' then Some Truth_in_progress
      else if rc_outcome r = ''not_attempted'' then Some Truth_not_attempted
      else if rc_outcome r = ''outcome_unknown'' then Some Truth_outcome_unknown
      else None)"

definition active_truth :: "string \<Rightarrow> in_flight_record list \<Rightarrow> host_truth" where
  "active_truth effect active =
     (case find (\<lambda>e. effectId e = effect) active of
        None \<Rightarrow> Truth_missing
      | Some e \<Rightarrow>
          (case effectStatus e of
             In_flight \<Rightarrow> Truth_in_progress
           | Unknown \<Rightarrow> Truth_outcome_unknown
           | Receipted \<Rightarrow> Truth_missing))"

definition resolveHostEffectTruth ::
  "string \<Rightarrow> authority_packs \<Rightarrow> in_flight_record list \<Rightarrow> effect_db option \<Rightarrow> host_truth" where
  "resolveHostEffectTruth effect packs active receiptDb =
     (case receiptFor effect packs receiptDb of
        None \<Rightarrow> active_truth effect active
      | Some r \<Rightarrow> (case receipt_truth r of Some t \<Rightarrow> t | None \<Rightarrow> active_truth effect active))"

fun claim_truth :: "claim_state \<Rightarrow> host_truth" where
  "claim_truth Claim_not_attempted = Truth_not_attempted"
| "claim_truth Claim_in_progress = Truth_in_progress"
| "claim_truth Claim_outcome_unknown = Truth_outcome_unknown"
| "claim_truth Claim_failed = Truth_failed"
| "claim_truth Claim_succeeded = Truth_succeeded"

text \<open>\<open>None\<close> is \<open>ok: true\<close>.\<close>

definition evaluateClaimMatrix :: "claim_state \<Rightarrow> host_truth \<Rightarrow> authority_code option" where
  "evaluateClaimMatrix c t =
     (if t = Truth_missing then Some RECEIPT_REQUIRED
      else if claim_truth c = t then None
      else (case c of
          Claim_not_attempted \<Rightarrow>
            if t = Truth_in_progress \<or> t = Truth_outcome_unknown
            then Some OPERATIONAL_CLAIM_STATE_MISMATCH
            else if t = Truth_failed \<or> t = Truth_succeeded then Some RECEIPT_CONTRADICTS_CLAIM
            else Some OPERATIONAL_CLAIM_STATE_MISMATCH
        | Claim_in_progress \<Rightarrow>
            if t = Truth_not_attempted then Some RECEIPT_REQUIRED
            else if t = Truth_outcome_unknown then Some IN_FLIGHT_UNKNOWN
            else if t = Truth_failed \<or> t = Truth_succeeded then Some RECEIPT_CONTRADICTS_CLAIM
            else Some OPERATIONAL_CLAIM_STATE_MISMATCH
        | Claim_outcome_unknown \<Rightarrow>
            if t = Truth_not_attempted then Some RECEIPT_REQUIRED
            else if t = Truth_in_progress then Some IN_FLIGHT_UNKNOWN
            else if t = Truth_failed \<or> t = Truth_succeeded then Some RECEIPT_CONTRADICTS_CLAIM
            else Some OPERATIONAL_CLAIM_STATE_MISMATCH
        | Claim_failed \<Rightarrow>
            if t = Truth_not_attempted then Some RECEIPT_REQUIRED
            else if t = Truth_in_progress \<or> t = Truth_outcome_unknown then Some IN_FLIGHT_UNKNOWN
            else if t = Truth_succeeded then Some RECEIPT_CONTRADICTS_CLAIM
            else Some OPERATIONAL_CLAIM_STATE_MISMATCH
        | Claim_succeeded \<Rightarrow>
            if t = Truth_not_attempted then Some RECEIPT_REQUIRED
            else if t = Truth_in_progress \<or> t = Truth_outcome_unknown then Some IN_FLIGHT_UNKNOWN
            else if t = Truth_failed then Some RECEIPT_CONTRADICTS_CLAIM
            else Some OPERATIONAL_CLAIM_STATE_MISMATCH))"

section \<open>Settlements\<close>

definition code_if :: "bool \<Rightarrow> authority_code \<Rightarrow> authority_code list" where
  "code_if b c = (if b then [c] else [])"

definition settlementText :: "settlement \<Rightarrow> string" where
  "settlementText s = js_join '' '' (map ec_statement (or_empty (st_epistemic s)) @
     or_empty (st_mustSay s) @ [case st_surfaceDraft s of None \<Rightarrow> [] | Some d \<Rightarrow> d])"

definition uncertain_truth :: "effect_receipt \<Rightarrow> bool" where
  "uncertain_truth r \<longleftrightarrow> executionTruth r = JStr ''effect_unknown'' \<or>
     executionTruth r = JStr ''effect_partial'' \<or> executionTruth r = JStr ''effect_indeterminate''"

definition terminal_outcome :: "effect_receipt \<Rightarrow> bool" where
  "terminal_outcome r \<longleftrightarrow> rc_outcome r = ''succeeded'' \<or> rc_outcome r = ''failed''"

text \<open>One round of the loop over the operational claims: the codes pushed for a claim.\<close>

definition claim_codes ::
  "settlement \<Rightarrow> authority_packs \<Rightarrow> in_flight_record list \<Rightarrow> effect_db option \<Rightarrow> claim_state \<Rightarrow>
   string \<Rightarrow> authority_code list" where
  "claim_codes s packs active receiptDb claimed effect =
     (let hostTruth = resolveHostEffectTruth effect packs active receiptDb;
          receipt = receiptFor effect packs receiptDb;
          contradicts = (claimed = Claim_succeeded \<and>
            (case receipt of None \<Rightarrow> False
             | Some r \<Rightarrow> rc_outcome r = ''succeeded'' \<and> uncertain_truth r));
          evaluation = evaluateClaimMatrix claimed hostTruth
      in (if contradicts then [RECEIPT_CONTRADICTS_CLAIM]
          else (case evaluation of Some c \<Rightarrow> [c] | None \<Rightarrow> [])) @
         code_if (\<not> contradicts \<and> evaluation = None \<and>
             (case receipt of None \<Rightarrow> False | Some r \<Rightarrow> terminal_outcome r) \<and>
             \<not> List.member (or_empty (st_effectsCompleted s)) effect)
           RECEIPT_REQUIRED)"

fun claims_codes ::
  "(string \<rightharpoonup> string) \<times> string list \<Rightarrow> settlement \<Rightarrow> authority_packs \<Rightarrow> in_flight_record list \<Rightarrow>
   effect_db option \<Rightarrow> operational_claim list \<Rightarrow> authority_code list \<times> string list" where
  "claims_codes refs s packs active receiptDb [] = ([], [])"
| "claims_codes refs s packs active receiptDb (c # cs) =
     (case claims_codes refs s packs active receiptDb cs of (codes, licensed) \<Rightarrow>
        if \<not> List.member (snd refs) (oc_effectRef c)
        then (OPERATIONAL_CLAIM_EFFECTREF_UNKNOWN # codes, licensed)
        else let effect = the (fst refs (oc_effectRef c)) in
          (claim_codes s packs active receiptDb (oc_state c) effect @ codes, effect # licensed))"

definition active_codes ::
  "authority_packs \<Rightarrow> effect_db option \<Rightarrow> string list \<Rightarrow> in_flight_record \<Rightarrow> authority_code list" where
  "active_codes packs receiptDb licensed e =
     (if List.member licensed (effectId e) then []
      else (case receiptFor (effectId e) packs receiptDb of
          None \<Rightarrow> code_if (effectStatus e = Unknown \<or> effectStatus e = In_flight) IN_FLIGHT_UNKNOWN
        | Some r \<Rightarrow> code_if (rc_outcome r = ''outcome_unknown'') IN_FLIGHT_UNKNOWN))"

definition completed_codes ::
  "authority_packs \<Rightarrow> effect_db option \<Rightarrow> string \<Rightarrow> authority_code list" where
  "completed_codes packs receiptDb effect =
     (case receiptFor effect packs receiptDb of
        None \<Rightarrow> [RECEIPT_REQUIRED]
      | Some r \<Rightarrow> code_if (rc_outcome r \<noteq> ''succeeded'' \<and> rc_outcome r \<noteq> ''failed'') IN_FLIGHT_UNKNOWN)"

definition settlement_effect_ids ::
  "settlement \<Rightarrow> authority_packs \<Rightarrow> in_flight_record list \<Rightarrow> string list" where
  "settlement_effect_ids s packs active = map effectId active @
     js_uniq (map fst (receiptsByEffectId packs)) @ or_empty (st_effectsCompleted s)"

definition checkSettlement ::
  "(string \<Rightarrow> string) \<Rightarrow> settlement \<Rightarrow> authority_packs \<Rightarrow> int \<Rightarrow> in_flight_record list \<Rightarrow>
   effect_db option \<Rightarrow> verdict" where
  "checkSettlement sha s packs authorityEpoch active receiptDb =
     (let refs = buildEffectRefMap sha (st_cycleId s) (st_generation s)
            (settlement_effect_ids s packs active);
          claims = claims_codes refs s packs active receiptDb (or_empty (st_operational s))
      in js_uniq (
        code_if (st_authorityEpoch s \<noteq> authorityEpoch) DISPATCH_EPOCH_CHANGED @
        code_if (st_speechMode s = ''draft'' \<and> withdrawalActive packs) RELATIONAL_WITHDRAWAL @
        code_if (requireObservationForLatest packs \<and>
            list_ex (\<lambda>c. ec_time c = ''current'') (or_empty (st_epistemic s)) \<and>
            \<not> list_ex (List.member (or_empty (observedObservationIds packs)))
                (st_observationsConsumed s))
          CURRENTNESS_UNVERIFIED @
        fst claims @
        concat (map (active_codes packs receiptDb (snd claims)) active) @
        concat (map (completed_codes packs receiptDb) (or_empty (st_effectsCompleted s))) @
        code_if (st_revisionCount s \<ge> MAX_AUTHORITY_REVISIONS \<and>
            length (st_objectionsApplied s) > 0)
          REVISION_BUDGET_EXHAUSTED @
        code_if (list_ex (\<lambda>term. js_includes (js_lower (settlementText s)) (js_lower term))
            (neverMention packs))
          RELATIONAL_BOUNDARY))"

section \<open>Currentness, dispatch and the verdict\<close>

definition binding_differs :: "currentness_binding \<Rightarrow> currentness_binding \<Rightarrow> bool" where
  "binding_differs b e \<longleftrightarrow> barrierId b \<noteq> barrierId e \<or> barrierEpoch b \<noteq> barrierEpoch e \<or>
     barrierRevision b \<noteq> barrierRevision e \<or>
     json_norm (ownerVersions b) \<noteq> json_norm (ownerVersions e)"

definition currentnessCodes ::
  "authority_packs \<Rightarrow> authority_db option \<Rightarrow> currentness_binding option \<Rightarrow> authority_code list" where
  "currentnessCodes packs authorityDb expected =
     (if authorityDb = None \<and> pack_binding packs = None then []
      else (case pack_binding packs of
          None \<Rightarrow> [AUTHORITY_PACK_INCOMPLETE]
        | Some binding \<Rightarrow>
            if pack_complete packs \<noteq> Some True then [AUTHORITY_PACK_INCOMPLETE]
            else if (case expected of None \<Rightarrow> False | Some e \<Rightarrow> binding_differs binding e)
            then [AUTHORITY_VECTOR_STALE]
            else (case authorityDb of
                None \<Rightarrow> []
              | Some db \<Rightarrow>
                  (case requireCurrentAuthorityBinding binding db of
                     Inr _ \<Rightarrow> []
                   | Inl message \<Rightarrow>
                       if message = ''authority_barrier_not_stable''
                       then [AUTHORITY_TRANSITION_ACTIVE] else [AUTHORITY_VECTOR_STALE]))))"

definition EFFECTFUL_KIND :: rx where
  "EFFECTFUL_KIND = rx_ci (rx_alts (rx_str ''send'') (map rx_str
     [''notify'', ''discord'', ''message'', ''write'', ''delete'', ''execute'', ''operate'']))"

definition checkDispatch :: "authority_subject \<Rightarrow> authority_packs \<Rightarrow> int \<Rightarrow> verdict" where
  "checkDispatch p packs authorityEpoch = js_uniq (
     code_if (pack_authorityEpoch packs \<noteq> authorityEpoch) DISPATCH_EPOCH_CHANGED @
     code_if (case sb_authorityEpoch p of None \<Rightarrow> False | Some e \<Rightarrow> e \<noteq> authorityEpoch)
       DISPATCH_EPOCH_CHANGED @
     code_if (rx_test EFFECTFUL_KIND (sb_kind p) \<and> withdrawalActive packs) RELATIONAL_WITHDRAWAL)"

record authority_input =
  ai_settlement :: "settlement option"
  ai_proposal :: "authority_subject option"
  ai_packs :: authority_packs
  ai_authorityEpoch :: int
  ai_authorityDb :: "authority_db option"
  ai_receiptDb :: "effect_db option"
  ai_expectedCurrentness :: "currentness_binding option"
  ai_activeEffects :: "in_flight_record list option"

definition combine_verdict :: "verdict \<Rightarrow> authority_code list \<Rightarrow> verdict" where
  "combine_verdict result currentness =
     (if result = [] \<and> currentness = [] then result else js_uniq (currentness @ result))"

definition checkAuthority ::
  "(string \<Rightarrow> string) \<Rightarrow> authority_stage \<Rightarrow> authority_input \<Rightarrow> verdict" where
  "checkAuthority sha stage i =
     (let proposalCurrentness = (case ai_proposal i of None \<Rightarrow> None | Some p \<Rightarrow> sb_currentness p);
          currentness = currentnessCodes (ai_packs i) (ai_authorityDb i)
            (or_else (ai_expectedCurrentness i) proposalCurrentness)
      in case (stage = Stage_settlement, ai_settlement i) of
           (True, Some s) \<Rightarrow> combine_verdict
             (checkSettlement sha s (ai_packs i) (ai_authorityEpoch i)
               (or_empty (ai_activeEffects i)) (ai_receiptDb i)) currentness
         | _ \<Rightarrow>
             (case (stage = Stage_dispatch \<or> stage = Stage_proposal, ai_proposal i) of
                (True, Some p) \<Rightarrow>
                  combine_verdict (checkDispatch p (ai_packs i) (ai_authorityEpoch i)) currentness
              | _ \<Rightarrow> if length currentness > 0 then currentness else [STALE_STATE]))"

end
