(* ===== verification/Authority_Soundness.thy ===== *)
theory Authority_Soundness
  imports Authority_Check Authority_Currentness
begin

text \<open>
  What a positive authority verdict means: which claims a settlement may make about effects, and
  what holds when a dispatch is allowed.
\<close>

lemma code_if_Nil [simp]: "code_if b c = [] \<longleftrightarrow> \<not> b"
  by (simp add: code_if_def)

lemma combine_verdict_Nil: "combine_verdict r c = [] \<longleftrightarrow> r = [] \<and> c = []"
  by (auto simp: combine_verdict_def)

section \<open>Effect references\<close>

lemma fold_refs:
  "fold (\<lambda>e m. m(f e \<mapsto> e)) es m r = Some e \<Longrightarrow> e \<in> set es \<and> f e = r \<or> m r = Some e"
  by (induction es arbitrary: m) (fastforce split: if_splits)+

lemma fold_refs_dom:
  "fold (\<lambda>e m. m(f e \<mapsto> e)) es m r \<noteq> None \<longleftrightarrow> r \<in> f ` set es \<or> m r \<noteq> None"
  by (induction es arbitrary: m) auto

text \<open>Every allowlisted reference resolves, to an effect of the list that mints it.\<close>

lemma effect_ref_resolves:
  assumes "List.member (snd (buildEffectRefMap sha c g ids)) r"
  shows "\<exists>e \<in> set ids. fst (buildEffectRefMap sha c g ids) r = Some e \<and> mintEffectRef sha c g e = r"
proof -
  from assms have "r \<in> mintEffectRef sha c g ` set (sort (js_uniq ids))"
    by (auto simp: buildEffectRefMap_def allowedOperationalEffectRefs_def)
  then have "fold (\<lambda>e m. m(mintEffectRef sha c g e \<mapsto> e)) (sort (js_uniq ids)) Map.empty r \<noteq> None"
    using fold_refs_dom by fast
  then obtain e where e: "fold (\<lambda>e m. m(mintEffectRef sha c g e \<mapsto> e)) (sort (js_uniq ids)) Map.empty r = Some e"
    by blast
  with fold_refs [OF e] show ?thesis
    by (auto simp: buildEffectRefMap_def)
qed

section \<open>Claims\<close>

lemma matrix_iff: "evaluateClaimMatrix c t = None \<longleftrightarrow> claim_truth c = t"
  by (cases c; cases t) (simp_all add: evaluateClaimMatrix_def)

lemma claims_codes_Nil:
  assumes "fst (claims_codes refs s packs active rdb cs) = []" and "c \<in> set cs"
  shows "List.member (snd refs) (oc_effectRef c) \<and>
    claim_codes s packs active rdb (oc_state c) (the (fst refs (oc_effectRef c))) = [] \<and>
    the (fst refs (oc_effectRef c)) \<in> set (snd (claims_codes refs s packs active rdb cs))"
  using assms
proof (induction cs)
  case (Cons d cs)
  then show ?case
    by (auto simp: Let_def split: prod.splits if_splits)
qed simp

lemma claims_codes_licensed:
  assumes "fst (claims_codes refs s packs active rdb cs) = []"
    and "e \<in> set (snd (claims_codes refs s packs active rdb cs))"
  shows "\<exists>c \<in> set cs. the (fst refs (oc_effectRef c)) = e"
  using assms
  by (induction cs) (auto simp: Let_def split: prod.splits if_splits)

text \<open>\<open>effect_settled\<close>: a receipt says how the effect ended.\<close>

definition effect_settled :: "string \<Rightarrow> authority_packs \<Rightarrow> effect_db option \<Rightarrow> bool" where
  "effect_settled e packs rdb \<longleftrightarrow> (\<exists>r. receiptFor e packs rdb = Some r \<and> terminal_outcome r)"

definition effect_open :: "string \<Rightarrow> authority_packs \<Rightarrow> in_flight_record list \<Rightarrow> effect_db option \<Rightarrow> bool" where
  "effect_open e packs active rdb \<longleftrightarrow>
     (case receiptFor e packs rdb of
        None \<Rightarrow> \<exists>a \<in> set active. effectId a = e \<and> effectStatus a \<noteq> Receipted
      | Some r \<Rightarrow> rc_outcome r = ''outcome_unknown'')"

lemma completed_codes_Nil: "completed_codes packs rdb e = [] \<longleftrightarrow> effect_settled e packs rdb"
  by (auto simp: completed_codes_def effect_settled_def terminal_outcome_def split: option.splits)

lemma active_codes_Nil:
  assumes "active_codes packs rdb licensed a = []" and "effectId a \<notin> set licensed"
  shows "(case receiptFor (effectId a) packs rdb of None \<Rightarrow> effectStatus a = Receipted
    | Some r \<Rightarrow> rc_outcome r \<noteq> ''outcome_unknown'')"
  using assms by (cases "effectStatus a") (auto simp: active_codes_def split: option.splits)

section \<open>Properties\<close>

text \<open>
  C21. A settlement that passes authority tells the truth about effects. Each operational claim
  names an effect of the cycle and claims exactly the state the host holds for it; a claimed
  success is not one whose execution is uncertain; a claimed effect with a terminal receipt is
  listed as completed; every effect listed as completed has a terminal receipt; and an active
  effect that is still open is not passed over in silence, it carries a claim. The epoch is the
  current one, nothing is drafted under a withdrawal and no forbidden term is spoken.
\<close>

theorem settlement_verdict_sound:
  assumes "checkAuthority sha Stage_settlement i = []" and "ai_settlement i = Some s"
  shows "let packs = ai_packs i; active = or_empty (ai_activeEffects i); rdb = ai_receiptDb i in
    (\<forall>c \<in> set (or_empty (st_operational s)).
       \<exists>e \<in> set (settlement_effect_ids s packs active).
         oc_effectRef c = mintEffectRef sha (st_cycleId s) (st_generation s) e \<and>
         resolveHostEffectTruth e packs active rdb = claim_truth (oc_state c) \<and>
         (effect_settled e packs rdb \<longrightarrow> e \<in> set (or_empty (st_effectsCompleted s))) \<and>
         (oc_state c = Claim_succeeded \<longrightarrow>
           (\<forall>r. receiptFor e packs rdb = Some r \<longrightarrow> rc_outcome r = ''succeeded'' \<longrightarrow> \<not> uncertain_truth r))) \<and>
    (\<forall>e \<in> set (or_empty (st_effectsCompleted s)). effect_settled e packs rdb) \<and>
    (\<forall>a \<in> set active. effect_open (effectId a) packs [a] rdb \<longrightarrow>
       (\<exists>c \<in> set (or_empty (st_operational s)).
         oc_effectRef c = mintEffectRef sha (st_cycleId s) (st_generation s) (effectId a))) \<and>
    st_authorityEpoch s = ai_authorityEpoch i \<and>
    (withdrawalActive packs \<longrightarrow> st_speechMode s \<noteq> ''draft'') \<and>
    (\<forall>term \<in> set (neverMention packs). \<not> js_includes (js_lower (settlementText s)) (js_lower term))"
proof -
  let ?packs = "ai_packs i" and ?active = "or_empty (ai_activeEffects i)" and ?rdb = "ai_receiptDb i"
  let ?ids = "settlement_effect_ids s ?packs ?active"
  let ?mint = "mintEffectRef sha (st_cycleId s) (st_generation s)"
  let ?refs = "buildEffectRefMap sha (st_cycleId s) (st_generation s) ?ids"
  let ?claims = "claims_codes ?refs s ?packs ?active ?rdb (or_empty (st_operational s))"
  from assms have "checkSettlement sha s ?packs (ai_authorityEpoch i) ?active ?rdb = []"
    by (simp add: checkAuthority_def combine_verdict_Nil Let_def)
  then have ok: "st_authorityEpoch s = ai_authorityEpoch i"
    "withdrawalActive ?packs \<longrightarrow> st_speechMode s \<noteq> ''draft''"
    "fst ?claims = []" "\<forall>a \<in> set ?active. active_codes ?packs ?rdb (snd ?claims) a = []"
    "\<forall>e \<in> set (or_empty (st_effectsCompleted s)). completed_codes ?packs ?rdb e = []"
    "\<forall>term \<in> set (neverMention ?packs). \<not> js_includes (js_lower (settlementText s)) (js_lower term)"
    by (auto simp: checkSettlement_def Let_def list_ex_iff)
  have resolves: "\<exists>e \<in> set ?ids. the (fst ?refs (oc_effectRef c)) = e \<and> ?mint e = oc_effectRef c"
    if "c \<in> set (or_empty (st_operational s))" for c
    using claims_codes_Nil [OF ok(3) that] effect_ref_resolves [of sha "st_cycleId s" "st_generation s" ?ids]
    by fastforce
  have "\<exists>e \<in> set ?ids. oc_effectRef c = ?mint e \<and>
         resolveHostEffectTruth e ?packs ?active ?rdb = claim_truth (oc_state c) \<and>
         (effect_settled e ?packs ?rdb \<longrightarrow> e \<in> set (or_empty (st_effectsCompleted s))) \<and>
         (oc_state c = Claim_succeeded \<longrightarrow>
           (\<forall>r. receiptFor e ?packs ?rdb = Some r \<longrightarrow> rc_outcome r = ''succeeded'' \<longrightarrow> \<not> uncertain_truth r))"
    if c: "c \<in> set (or_empty (st_operational s))" for c
  proof -
    from resolves [OF c] obtain e where e: "e \<in> set ?ids" "the (fst ?refs (oc_effectRef c)) = e"
      "?mint e = oc_effectRef c" by blast
    from claims_codes_Nil [OF ok(3) c] e(2) have codes:
      "claim_codes s ?packs ?active ?rdb (oc_state c) e = []" by simp
    then have "evaluateClaimMatrix (oc_state c) (resolveHostEffectTruth e ?packs ?active ?rdb) = None"
      by (simp add: claim_codes_def Let_def split: if_splits option.splits)
    with codes e show ?thesis
      by (intro bexI [of _ e])
        (auto simp: claim_codes_def Let_def effect_settled_def matrix_iff split: if_splits)
  qed
  moreover have "\<exists>c \<in> set (or_empty (st_operational s)). oc_effectRef c = ?mint (effectId a)"
    if a: "a \<in> set ?active" "effect_open (effectId a) ?packs [a] ?rdb" for a
  proof -
    have "effectId a \<in> set (snd ?claims)"
      using active_codes_Nil [of ?packs ?rdb "snd ?claims" a] ok(4) a
      by (auto simp: effect_open_def split: option.splits)
    from claims_codes_licensed [OF ok(3) this] resolves show ?thesis by metis
  qed
  ultimately show ?thesis
    using ok(1,2,5,6) by (simp add: Let_def completed_codes_Nil)
qed

definition example_packs :: authority_packs where
  "example_packs = \<lparr>requireObservationForLatest = True, observedObservationIds = None,
     pack_binding = None, pack_complete = None,
     receiptsByEffectId = [(''e'', \<lparr>rc_id = ''r'', rc_effect = ''e'', rc_key = ''k'',
       rc_outcome = ''succeeded'', rc_claims = JObj [], rc_at = 1, rc_class = ''never_public'',
       rc_secret = False\<rparr>)],
     withdrawalActive = False, neverMention = [''password''], pack_authorityEpoch = 3\<rparr>"

definition example_settlement :: settlement where
  "example_settlement = \<lparr>st_cycleId = ''c'', st_generation = 1, st_authorityEpoch = 3,
     st_epistemic = None,
     st_operational = Some [\<lparr>oc_effectRef = ''effect:ashley:effect:v1:c:1:e'', oc_state = Claim_succeeded\<rparr>],
     st_speechMode = ''draft'', st_mustSay = None, st_surfaceDraft = Some ''done'',
     st_observationsConsumed = [], st_effectsCompleted = Some [''e''], st_revisionCount = 0,
     st_objectionsApplied = []\<rparr>"

definition example_check :: authority_input where
  "example_check = \<lparr>ai_settlement = Some example_settlement, ai_proposal = None,
     ai_packs = example_packs, ai_authorityEpoch = 3, ai_authorityDb = None, ai_receiptDb = None,
     ai_expectedCurrentness = None, ai_activeEffects = None\<rparr>"

theorem settlement_verdict_sound_witness:
  "effect_settled ''e'' example_packs None"
proof -
  have "checkAuthority (\<lambda>s. s) Stage_settlement example_check = []"
    by code_simp
  from settlement_verdict_sound [OF this, of example_settlement] show ?thesis
    by (auto simp: example_check_def Let_def example_settlement_def or_empty_def)
qed

text \<open>
  The claim matrix: a claimed state passes exactly when it is the state the host holds; no
  claim passes without any host record; a claim a terminal receipt disproves is reported as
  contradicted, and nothing else is.
\<close>

theorem claim_matrix_exact:
  "(evaluateClaimMatrix c t = None \<longleftrightarrow> t = claim_truth c) \<and>
   (t = Truth_missing \<longrightarrow> evaluateClaimMatrix c t = Some RECEIPT_REQUIRED) \<and>
   (evaluateClaimMatrix c t = Some RECEIPT_CONTRADICTS_CLAIM \<longleftrightarrow>
     (t = Truth_succeeded \<or> t = Truth_failed) \<and> t \<noteq> claim_truth c) \<and>
   evaluateClaimMatrix c t \<in> {None, Some RECEIPT_REQUIRED, Some RECEIPT_CONTRADICTS_CLAIM,
     Some IN_FLIGHT_UNKNOWN, Some OPERATIONAL_CLAIM_STATE_MISMATCH}"
  by (cases c; cases t) (simp_all add: evaluateClaimMatrix_def)

theorem claim_matrix_exact_witness:
  "evaluateClaimMatrix Claim_succeeded Truth_missing = Some RECEIPT_REQUIRED"
  using claim_matrix_exact [of Claim_succeeded Truth_missing] by simp

lemma dispatch_currentness:
  assumes "checkAuthority sha Stage_dispatch i = []" and "ai_authorityDb i = Some db"
  shows "\<exists>b s. pack_binding (ai_packs i) = Some b \<and> pack_complete (ai_packs i) = Some True \<and>
    requireCurrentAuthorityBinding b db = Inr s \<and>
    (\<forall>e. or_else (ai_expectedCurrentness i)
        (case ai_proposal i of None \<Rightarrow> None | Some p \<Rightarrow> sb_currentness p) = Some e \<longrightarrow>
      \<not> binding_differs b e)"
proof -
  from assms(1) have "currentnessCodes (ai_packs i) (ai_authorityDb i) (or_else (ai_expectedCurrentness i)
      (case ai_proposal i of None \<Rightarrow> None | Some p \<Rightarrow> sb_currentness p)) = []"
    by (auto simp: checkAuthority_def combine_verdict_Nil Let_def split: option.splits if_splits)
  with assms(2) show ?thesis
    by (auto simp: currentnessCodes_def split: option.splits if_splits sum.splits)
qed

text \<open>
  No dispatch on superseded authority: if the packs of a dispatch carry a binding captured
  from some authority database, and an authority transition has begun since, then on every
  database any operations lead to afterwards the dispatch is refused, whatever is proposed and
  whatever the epoch; a dispatch that is allowed has a complete binding that is current there, and
  is not an effectful operation under a withdrawal.
\<close>

theorem dispatch_needs_current_authority:
  assumes "captureAuthorityCurrentness db = Inr b"
    and "beginAuthorityTransitionInTransaction uuid reason now expected db = Inr (tok, db1)"
    and "authority_step\<^sup>*\<^sup>* db1 db2"
    and "ai_authorityDb i = Some db2" and "ai_proposal i = Some p"
  shows "(pack_binding (ai_packs i) = Some b \<longrightarrow> checkAuthority sha Stage_dispatch i \<noteq> []) \<and>
    (checkAuthority sha Stage_dispatch i = [] \<longrightarrow>
      (\<exists>c. pack_binding (ai_packs i) = Some c \<and> pack_complete (ai_packs i) = Some True \<and>
        barrierEpoch c = barrier_epoch db2 \<and> barrierEpoch c > barrierEpoch b) \<and>
      (sb_authorityEpoch p \<noteq> None \<longrightarrow> sb_authorityEpoch p = Some (ai_authorityEpoch i)) \<and>
      (rx_test EFFECTFUL_KIND (sb_kind p) \<longrightarrow> \<not> withdrawalActive (ai_packs i)))"
proof -
  have eb: "barrierEpoch b = barrier_epoch db"
    using assms(1) by (auto simp: captureAuthorityCurrentness_def requireStableAuthorityBarrier_def
        and_then_eq_Inr read_barrier_Inr barrier_epoch_def)
  moreover have "barrier_epoch db < barrier_epoch db1"
    using begin_effect [OF assms(2)] by (auto simp: barrier_epoch_def)
  moreover have "barrier_epoch db1 \<le> barrier_epoch db2"
    using epochs.steps_grow [OF assms(3)] .
  ultimately have later: "barrierEpoch b < barrier_epoch db2" by simp
  have epoch: "barrierEpoch c = barrier_epoch db2"
    if "requireCurrentAuthorityBinding c db2 = Inr s" for c s
    using that by (auto simp: requireCurrentAuthorityBinding_def requireStableAuthorityBarrier_def
        expectation_met_def and_then_eq_Inr read_barrier_Inr barrier_epoch_def split: if_splits)
  show ?thesis
  proof (cases "checkAuthority sha Stage_dispatch i = []")
    case True
    from dispatch_currentness [OF this assms(4)] obtain c s where c:
      "pack_binding (ai_packs i) = Some c" "pack_complete (ai_packs i) = Some True"
      "requireCurrentAuthorityBinding c db2 = Inr s" by blast
    from True assms(5) have "checkDispatch p (ai_packs i) (ai_authorityEpoch i) = []"
      by (simp add: checkAuthority_def combine_verdict_Nil Let_def)
    then have "sb_authorityEpoch p \<noteq> None \<longrightarrow> sb_authorityEpoch p = Some (ai_authorityEpoch i)"
      "rx_test EFFECTFUL_KIND (sb_kind p) \<longrightarrow> \<not> withdrawalActive (ai_packs i)"
      by (auto simp: checkDispatch_def split: option.splits)
    with c epoch [OF c(3)] later show ?thesis by auto
  qed simp
qed

definition example_stale_dispatch :: authority_input where
  "example_stale_dispatch = example_check\<lparr>ai_authorityDb := Some example_begun,
     ai_proposal := Some \<lparr>sb_authorityEpoch = Some 3, sb_kind = ''web.search'', sb_currentness = None\<rparr>\<rparr>"

theorem dispatch_needs_current_authority_witness:
  "\<exists>b. captureAuthorityCurrentness example_stable = Inr b \<and>
    checkAuthority (\<lambda>s. s) Stage_dispatch (example_stale_dispatch
      \<lparr>ai_packs := example_packs\<lparr>pack_binding := Some b\<rparr>\<rparr>) \<noteq> []"
proof -
  obtain b where b: "captureAuthorityCurrentness example_stable = Inr b"
    by (cases "captureAuthorityCurrentness example_stable") (code_simp, blast)
  obtain tok where t: "beginAuthorityTransitionInTransaction ''u'' ''forget'' (Some 6) None
      example_stable = Inr (tok, example_begun)"
    unfolding example_begun_def beginAuthorityTransition_def in_immediate_transaction_def
    by (cases "beginAuthorityTransitionInTransaction ''u'' ''forget'' (Some 6) None example_stable")
      (code_simp, auto)
  let ?i = "example_stale_dispatch\<lparr>ai_packs := example_packs\<lparr>pack_binding := Some b\<rparr>\<rparr>"
  have "ai_authorityDb ?i = Some example_begun" "ai_proposal ?i =
      Some \<lparr>sb_authorityEpoch = Some 3, sb_kind = ''web.search'', sb_currentness = None\<rparr>"
    "pack_binding (ai_packs ?i) = Some b"
    by (simp_all add: example_stale_dispatch_def)
  with dispatch_needs_current_authority [OF b t rtranclp.rtrancl_refl this(1,2), of "\<lambda>s. s"] b
  show ?thesis by blast
qed

end
