(* ===== verification/Effect_Occupancy.thy ===== *)
theory Effect_Occupancy
  imports Effect_Ledger
begin

text \<open>
  What the effect ledger guarantees: JSON storage keeps the fields the readers look at, the
  unique indexes and the licence of every released effect are invariants, no receipt operation
  fails on an index, and a receipt that is not in progress is final.
\<close>

section \<open>JSON storage\<close>

lemma json_norm_str [simp]: "json_norm v = JStr s \<longleftrightarrow> v = JStr s"
  by (cases v rule: json_norm.cases) auto

lemma map_of_norm_fields:
  "map_of (norm_fields fs) k =
     (case map_of fs k of None \<Rightarrow> None | Some v \<Rightarrow> if v = JUndefined then None else Some (json_norm v))"
proof (induction fs)
  case (Cons e fs)
  obtain k' v where e: "e = (k', v)" by (cases e)
  have "map_of (filter (\<lambda>e. fst e \<noteq> k') xs) k = (if k = k' then None else map_of xs k)" for xs :: "(string \<times> js_value) list"
    by (induction xs) auto
  with Cons show ?case by (auto simp: e)
qed simp

lemma js_prop_norm:
  "js_prop (json_norm v) k = (if js_prop v k = JUndefined then JUndefined else json_norm (js_prop v k))"
  by (cases v rule: json_norm.cases) (auto simp: map_of_norm_fields split: option.splits)

lemma js_prop_norm_str [simp]: "js_prop (json_norm v) k = JStr s \<longleftrightarrow> js_prop v k = JStr s"
  by (auto simp: js_prop_norm)

lemma is_record_norm [simp]: "is_record (json_norm v) \<longleftrightarrow> is_record v"
  by (cases v rule: json_norm.cases) auto

lemma nonblank_norm: "nonblank_str (json_norm v) \<longleftrightarrow> nonblank_str v"
  by (cases v rule: json_norm.cases) (auto simp: nonblank_str_def)

lemma nonblank_prop_norm:
  "nonblank_str (js_prop (json_norm v) k) \<longleftrightarrow> nonblank_str (js_prop v k)"
  "nonblank_str (js_prop v k) \<Longrightarrow> js_prop (json_norm v) k = js_prop v k"
  by (auto simp: js_prop_norm nonblank_norm nonblank_str_def is_str_iff)

lemma json_norm_neq_undefined [simp]: "json_norm v \<noteq> JUndefined"
  by (cases v rule: json_norm.cases) auto

lemma audienceScope_norm: "v \<noteq> JUndefined \<Longrightarrow> audienceScope (json_norm v) = audienceScope v"
  by (simp add: audienceScope_def Let_def nonblank_prop_norm)

lemma effect_state_norm:
  "effectStateForReceipt (r\<lparr>rc_claims := json_norm (rc_claims r)\<rparr>) = effectStateForReceipt r"
  by (simp add: effectStateForReceipt_def executionTruth_def)

section \<open>Steps\<close>

inductive effect_step :: "effect_db \<Rightarrow> effect_db \<Rightarrow> bool" where
  step_put: "putInFlight fk uuid i db = (res, db') \<Longrightarrow> effect_step db db'"
| step_unknown: "markInFlightUnknown e at db = (res, db') \<Longrightarrow> effect_step db db'"
| step_receipted: "markInFlightReceipted e db = (res, db') \<Longrightarrow> effect_step db db'"
| step_receipt: "recordEffectReceipt r db = (res', db') \<Longrightarrow> effect_step db db'"

definition effect_inv :: "effect_db \<Rightarrow> bool" where
  "effect_inv db \<longleftrightarrow> in_flight_indexes (in_flight_effects db) \<and> receipt_indexes (effect_receipts db) \<and>
     (\<forall>r \<in> set (effect_receipts db). rc_outcome r \<in> set VALID_RECEIPT_OUTCOMES) \<and>
     (\<forall>f \<in> set (in_flight_effects db). if_state f = Receipted \<longrightarrow>
       (\<exists>r \<in> set (effect_receipts db). rc_effect r = if_effect f \<and> effectStateForReceipt r = Receipted))"

text \<open>A write of one row's state that frees occupancy, or leaves an occupying row occupying.\<close>

lemma distinct_map_filter_mono:
  assumes "distinct (map f (filter P xs))" and "\<And>x. x \<in> set xs \<Longrightarrow> Q x \<Longrightarrow> P x"
  shows "distinct (map f (filter Q xs))"
  using assms by (induction xs) (auto split: if_splits)

lemma set_state_indexes:
  assumes "in_flight_indexes rows"
    and "\<And>r. r \<in> set rows \<Longrightarrow> if_effect r = e \<Longrightarrow> guard r \<Longrightarrow> s \<noteq> Receipted \<Longrightarrow> unresolved r"
  shows "in_flight_indexes (sql_update (\<lambda>r. if_effect r = e \<and> guard r) (\<lambda>r. r\<lparr>if_state := s\<rparr>) rows)"
proof -
  let ?u = "\<lambda>r. if if_effect r = e \<and> guard r then r\<lparr>if_state := s\<rparr> else r"
  let ?P = "\<lambda>r. if_wake r \<noteq> None \<and> unresolved r"
  have "map if_wake (filter ?P (map ?u rows)) = map if_wake (filter (\<lambda>r. ?P (?u r)) rows)"
    by (induction rows) auto
  moreover have "distinct (map if_wake (filter (\<lambda>r. ?P (?u r)) rows))"
  proof (rule distinct_map_filter_mono)
    show "distinct (map if_wake (filter ?P rows))"
      using assms(1) by (simp add: in_flight_indexes_def occupancy_ok_def)
  qed (use assms(2) in \<open>auto simp: unresolved_def split: if_splits\<close>)
  ultimately have "occupancy_ok (map ?u rows)"
    by (simp add: occupancy_ok_def)
  moreover have "map if_effect (sql_update P (\<lambda>r. r\<lparr>if_state := s\<rparr>) rows) = map if_effect rows"
    "map if_key (sql_update P (\<lambda>r. r\<lparr>if_state := s\<rparr>) rows) = map if_key rows" for P
    by (intro map_key_sql_update, simp)+
  ultimately show ?thesis
    using assms(1) by (simp add: in_flight_indexes_def sql_update_def [symmetric])
qed

lemma mapReceipt_valid:
  "rc_outcome r \<in> set VALID_RECEIPT_OUTCOMES \<Longrightarrow> rc_outcome (mapReceipt r) = rc_outcome r"
  by (auto simp: mapReceipt_def VALID_RECEIPT_OUTCOMES_def)

lemma executionTruth_mapReceipt: "executionTruth (mapReceipt r) = executionTruth r"
  by (cases "rc_claims r") (simp_all add: mapReceipt_def executionTruth_def)

lemma state_mapReceipt:
  "rc_outcome r \<in> set VALID_RECEIPT_OUTCOMES \<Longrightarrow>
     effectStateForReceipt (mapReceipt r) = effectStateForReceipt r"
  by (simp add: effectStateForReceipt_def executionTruth_mapReceipt mapReceipt_valid)

lemma mapReceipt_effect [simp]: "rc_effect (mapReceipt r) = rc_effect r"
  by (simp add: mapReceipt_def)

lemma in_progress_occupies:
  "rc_outcome r = ''in_progress'' \<Longrightarrow> effectStateForReceipt r \<noteq> Receipted"
  by (simp add: effectStateForReceipt_def)

lemma getEffectReceipt_unique:
  assumes "effect_inv db" and "r \<in> set (effect_receipts db)"
  shows "getEffectReceipt db (rc_effect r) = Some (mapReceipt r)"
  using assms sql_get_key [of rc_effect "effect_receipts db" r]
  by (simp add: getEffectReceipt_def effect_inv_def receipt_indexes_def)

lemma effect_inv_frictions [simp]: "effect_inv (recordHostFriction k s t c db) = effect_inv db"
  by (simp add: recordHostFriction_def effect_inv_def)

text \<open>The occupancy statement succeeds and keeps the invariant when its state is licensed.\<close>

lemma set_effect_state_inv:
  assumes "effect_inv db"
    and "\<And>r. r \<in> set (in_flight_effects db) \<Longrightarrow> if_effect r = e \<Longrightarrow> guard r \<Longrightarrow> s \<noteq> Receipted \<Longrightarrow> unresolved r"
    and "s = Receipted \<Longrightarrow>
      \<exists>q \<in> set (effect_receipts db). rc_effect q = e \<and> effectStateForReceipt q = Receipted"
  shows "\<exists>db'. set_effect_state s e guard db = (Inr (), db') \<and> effect_inv db' \<and>
    effect_receipts db' = effect_receipts db"
proof -
  let ?rows = "sql_update (\<lambda>r. if_effect r = e \<and> guard r) (\<lambda>r. r\<lparr>if_state := s\<rparr>) (in_flight_effects db)"
  have idx: "in_flight_indexes ?rows"
    using assms(1,2) by (intro set_state_indexes) (auto simp: effect_inv_def)
  have "\<exists>q \<in> set (effect_receipts db). rc_effect q = if_effect f \<and> effectStateForReceipt q = Receipted"
    if f: "f \<in> set ?rows" "if_state f = Receipted" for f
  proof -
    from f(1) obtain r where r: "r \<in> set (in_flight_effects db)"
      "f = (if if_effect r = e \<and> guard r then r\<lparr>if_state := s\<rparr> else r)" by auto
    then have "if_effect f = if_effect r" by simp
    show ?thesis
    proof (cases "if_effect r = e \<and> guard r")
      case True
      with f(2) r assms(3) show ?thesis by auto
    next
      case False
      with f(2) r have "f = r" by auto
      with f(2) r(1) assms(1) show ?thesis by (auto simp: effect_inv_def)
    qed
  qed
  with idx assms(1) show ?thesis
    by (auto simp: set_effect_state_def store_in_flight_def effect_inv_def)
qed

lemma occupancy_from_receipt_inv:
  assumes "effect_inv db" and "q \<in> set (effect_receipts db)" and "rc_effect q = rc_effect r"
    and "effectStateForReceipt r = effectStateForReceipt q"
    and "effectStateForReceipt q \<noteq> Receipted \<Longrightarrow>
      (\<And>f. f \<in> set (in_flight_effects db) \<Longrightarrow> if_effect f = rc_effect q \<Longrightarrow> unresolved f)"
  shows "\<exists>db'. updateInFlightOccupancyFromReceipt r db = (Inr (), db') \<and> effect_inv db' \<and>
    effect_receipts db' = effect_receipts db"
proof -
  obtain db1 where "set_effect_state (effectStateForReceipt r) (rc_effect r) (\<lambda>_. True) db = (Inr (), db1)"
    "effect_inv db1" "effect_receipts db1 = effect_receipts db"
    using set_effect_state_inv [OF assms(1), of "rc_effect r" "\<lambda>_. True" "effectStateForReceipt r"]
      assms(2-5) by auto
  then show ?thesis
    by (simp add: updateInFlightOccupancyFromReceipt_def Let_def recordHostFriction_def effect_inv_def)
qed

text \<open>Without a licensing receipt, the rows of an effect are still occupying.\<close>

lemma unlicensed_unresolved:
  assumes "effect_inv db" and "f \<in> set (in_flight_effects db)"
    and "\<And>q. q \<in> set (effect_receipts db) \<Longrightarrow> rc_effect q = if_effect f \<Longrightarrow>
      effectStateForReceipt q \<noteq> Receipted"
  shows "unresolved f"
  using assms by (cases "if_state f") (auto simp: effect_inv_def unresolved_def)

lemma receipt_unique_effect:
  assumes "effect_inv db" and "q \<in> set (effect_receipts db)" and "q' \<in> set (effect_receipts db)"
    and "rc_effect q = rc_effect q'"
  shows "q = q'"
proof -
  have "distinct (map rc_effect (effect_receipts db))"
    using assms(1) by (simp add: effect_inv_def receipt_indexes_def)
  with assms(2-4) show ?thesis by (auto simp: distinct_map inj_on_def)
qed

text \<open>A receipt recorded again only rewrites the state its stored receipt already gives.\<close>

lemma rerecord_inv:
  assumes "effect_inv db" and "q \<in> set (effect_receipts db)"
  shows "\<exists>db'. updateInFlightOccupancyFromReceipt (mapReceipt q) db = (Inr (), db') \<and> effect_inv db' \<and>
    effect_receipts db' = effect_receipts db"
proof (rule occupancy_from_receipt_inv [OF assms])
  show "effectStateForReceipt (mapReceipt q) = effectStateForReceipt q"
    using assms by (intro state_mapReceipt) (auto simp: effect_inv_def)
  fix f assume "effectStateForReceipt q \<noteq> Receipted" "f \<in> set (in_flight_effects db)"
    "if_effect f = rc_effect q"
  then show "unresolved f"
    using receipt_unique_effect [OF assms(1) _ assms(2)]
    by (intro unlicensed_unresolved [OF assms(1)]) auto
qed simp

text \<open>Promotion of an in-progress receipt.\<close>

lemma promote_inv:
  assumes "effect_inv db" and "q \<in> set (effect_receipts db)" and "rc_effect q = rc_effect r"
    and "rc_outcome q = ''in_progress''" and "rc_outcome r \<in> set VALID_RECEIPT_OUTCOMES"
  shows "\<exists>p. p \<in> set (promote_receipts r (effect_receipts db)) \<and> rc_effect p = rc_effect r \<and>
    rc_outcome p = rc_outcome r \<and> effectStateForReceipt p = effectStateForReceipt r \<and>
    effect_inv (db\<lparr>effect_receipts := promote_receipts r (effect_receipts db)\<rparr>) \<and>
    (\<forall>f \<in> set (in_flight_effects db). if_effect f = rc_effect r \<longrightarrow> unresolved f)"
proof -
  let ?P = "\<lambda>q :: effect_receipt. rc_effect q = rc_effect r \<and> rc_outcome q = ''in_progress''"
  let ?f = "\<lambda>q :: effect_receipt. q\<lparr>rc_outcome := rc_outcome r, rc_claims := json_norm (rc_claims r), rc_at := rc_at r,
       rc_class := rc_class r, rc_secret := rc_secret r\<rparr>"
  have rows: "promote_receipts r = sql_update ?P ?f"
    by (simp add: promote_receipts_def fun_eq_iff)
  have "receipt_indexes (sql_update ?P ?f (effect_receipts db))"
  proof -
    have "map rc_id (sql_update ?P ?f rs) = map rc_id rs" "map rc_effect (sql_update ?P ?f rs) = map rc_effect rs"
      "map rc_key (sql_update ?P ?f rs) = map rc_key rs" for rs
      by (intro map_key_sql_update, simp)+
    with assms(1) show ?thesis by (simp add: receipt_indexes_def effect_inv_def)
  qed
  moreover have busy: "unresolved f"
    if "f \<in> set (in_flight_effects db)" "if_effect f = rc_effect r" for f
    using that receipt_unique_effect [OF assms(1) _ assms(2)] assms(3) in_progress_occupies [OF assms(4)]
    by (intro unlicensed_unresolved [OF assms(1)]) auto
  moreover have "\<exists>p \<in> set (sql_update ?P ?f (effect_receipts db)).
      rc_effect p = if_effect f \<and> effectStateForReceipt p = Receipted"
    if f: "f \<in> set (in_flight_effects db)" "if_state f = Receipted" for f
  proof -
    from f assms(1) obtain p where p: "p \<in> set (effect_receipts db)" "rc_effect p = if_effect f"
      "effectStateForReceipt p = Receipted" by (auto simp: effect_inv_def)
    moreover have "\<not> ?P p"
      using p(3) in_progress_occupies by auto
    ultimately show ?thesis by (auto intro!: bexI [of _ p])
  qed
  moreover have "\<forall>p \<in> set (sql_update ?P ?f (effect_receipts db)). rc_outcome p \<in> set VALID_RECEIPT_OUTCOMES"
    using assms(1,5) by (auto simp: effect_inv_def)
  moreover have "?f q \<in> set (sql_update ?P ?f (effect_receipts db))"
    using assms(2-4) by force
  moreover have "effectStateForReceipt (?f q) = effectStateForReceipt r"
    by (simp add: effectStateForReceipt_def executionTruth_def)
  ultimately show ?thesis
    using assms(1,3) unfolding rows
    by (intro exI [of _ "?f q"]) (auto simp: effect_inv_def)
qed

section \<open>Recording a receipt\<close>

lemma getEffectReceipt_Some:
  "getEffectReceipt db e = Some x \<Longrightarrow>
     \<exists>q \<in> set (effect_receipts db). rc_effect q = e \<and> x = mapReceipt q"
  by (auto simp: getEffectReceipt_def dest!: sql_get_SomeD)

lemma getEffectReceipt_None:
  "getEffectReceipt db e = None \<longleftrightarrow> (\<forall>q \<in> set (effect_receipts db). rc_effect q \<noteq> e)"
  by (simp add: getEffectReceipt_def)

lemma getByKey_None:
  "getEffectReceiptByIdempotencyKey db k = None \<longleftrightarrow> (\<forall>q \<in> set (effect_receipts db). rc_key q \<noteq> k)"
  by (simp add: getEffectReceiptByIdempotencyKey_def)

lemma insert_receipt_inv:
  assumes "effect_inv db" and "getEffectReceipt db (rc_effect r) = None"
    and "getEffectReceiptByIdempotencyKey db (rc_key r) = None"
    and "rc_id r \<notin> rc_id ` set (effect_receipts db)"
    and "rc_outcome r \<in> set VALID_RECEIPT_OUTCOMES"
  shows "receipt_indexes (effect_receipts db @ [r\<lparr>rc_claims := json_norm (rc_claims r)\<rparr>]) \<and>
    (\<exists>db'. updateInFlightOccupancyFromReceipt r
      (db\<lparr>effect_receipts := effect_receipts db @ [r\<lparr>rc_claims := json_norm (rc_claims r)\<rparr>]\<rparr>) = (Inr (), db') \<and>
      effect_inv db')"
proof
  let ?q = "r\<lparr>rc_claims := json_norm (rc_claims r)\<rparr>"
  let ?db1 = "db\<lparr>effect_receipts := effect_receipts db @ [?q]\<rparr>"
  show idx: "receipt_indexes (effect_receipts db @ [?q])"
    using assms(1-4) unfolding getEffectReceipt_None getByKey_None
    by (auto simp: receipt_indexes_def effect_inv_def)
  have inv: "effect_inv ?db1"
    using assms(1,5) idx by (auto simp: effect_inv_def)
  have busy: "unresolved f" if "f \<in> set (in_flight_effects db)" "if_effect f = rc_effect r" for f
    using that assms(2) by (intro unlicensed_unresolved [OF assms(1)]) (auto simp: getEffectReceipt_None)
  have "effectStateForReceipt r = effectStateForReceipt ?q"
    by (simp add: effect_state_norm)
  then show "\<exists>db'. updateInFlightOccupancyFromReceipt r ?db1 = (Inr (), db') \<and> effect_inv db'"
    using occupancy_from_receipt_inv [OF inv, of ?q r] busy by auto
qed

lemma record_total:
  assumes "effect_inv db" and "rc_outcome r \<in> set VALID_RECEIPT_OUTCOMES"
    and "rc_id r \<notin> rc_id ` set (effect_receipts db) \<or> getEffectReceipt db (rc_effect r) \<noteq> None \<or>
      getEffectReceiptByIdempotencyKey db (rc_key r) \<noteq> None"
  shows "\<exists>q db'. recordEffectReceipt r db = (Inr q, db') \<and> effect_inv db'"
proof (cases "getEffectReceipt db (rc_effect r)")
  case (Some x)
  then obtain q where q: "q \<in> set (effect_receipts db)" "rc_effect q = rc_effect r" "x = mapReceipt q"
    by (auto dest: getEffectReceipt_Some)
  with assms(1) have out: "rc_outcome x = rc_outcome q" "rc_effect x = rc_effect r"
    by (auto simp: effect_inv_def mapReceipt_valid)
  show ?thesis
  proof (cases "rc_outcome q = ''in_progress'' \<and> rc_outcome r \<noteq> ''in_progress''")
    case True
    let ?db1 = "db\<lparr>effect_receipts := promote_receipts r (effect_receipts db)\<rparr>"
    from True promote_inv [OF assms(1) q(1,2) _ assms(2)] obtain p where
      p: "p \<in> set (effect_receipts ?db1)" "rc_effect p = rc_effect r" "effect_inv ?db1" by auto
    from rerecord_inv [OF p(3,1)] getEffectReceipt_unique [OF p(3,1)] p(2) True Some out assms(2)
    show ?thesis
      by (auto simp: recordEffectReceipt_def or_else_def)
  next
    case False
    with rerecord_inv [OF assms(1) q(1)] Some out q(3) assms(2) show ?thesis
      by (auto simp: recordEffectReceipt_def or_else_def)
  qed
next
  case None
  show ?thesis
  proof (cases "getEffectReceiptByIdempotencyKey db (rc_key r)")
    case (Some x)
    then have "rc_effect x \<noteq> rc_effect r"
      using None unfolding getEffectReceipt_None
      by (auto simp: getEffectReceiptByIdempotencyKey_def dest!: sql_get_SomeD)
    with None Some assms(1,2) show ?thesis
      by (simp add: recordEffectReceipt_def or_else_def)
  next
    case none: None
    with None assms(3) have "rc_id r \<notin> rc_id ` set (effect_receipts db)" by simp
    from insert_receipt_inv [OF assms(1) None none this assms(2)] None none assms(2) show ?thesis
      by (auto simp: recordEffectReceipt_def or_else_def Let_def)
  qed
qed

text \<open>What recording does to the receipts, whether or not it throws.\<close>

lemma set_effect_state_receipts:
  "set_effect_state s e guard db = (res, db') \<Longrightarrow> effect_receipts db' = effect_receipts db"
  by (auto simp: set_effect_state_def store_in_flight_def split: if_splits)

lemma update_occupancy_receipts:
  "updateInFlightOccupancyFromReceipt r db = (res, db') \<Longrightarrow> effect_receipts db' = effect_receipts db"
  by (auto simp: updateInFlightOccupancyFromReceipt_def Let_def recordHostFriction_def
      dest: set_effect_state_receipts split: prod.splits sum.splits if_splits)

lemma record_receipts:
  assumes "recordEffectReceipt r db = (res, db')"
  shows "effect_receipts db' = effect_receipts db \<or>
    (\<exists>q. effect_receipts db' = effect_receipts db @ [q] \<and> getEffectReceipt db (rc_effect q) = None) \<or>
    effect_receipts db' = promote_receipts r (effect_receipts db) \<and> rc_outcome r \<noteq> ''in_progress''"
proof (cases "or_else (getEffectReceipt db (rc_effect r)) (getEffectReceiptByIdempotencyKey db (rc_key r))")
  case None
  then have "getEffectReceipt db (rc_effect r) = None"
    by (simp add: or_else_def split: option.splits)
  with None assms show ?thesis
    by (auto simp: recordEffectReceipt_def Let_def
        dest!: update_occupancy_receipts split: if_splits prod.splits sum.splits)
next
  case (Some x)
  with assms show ?thesis
    by (auto simp: recordEffectReceipt_def Let_def
        dest!: update_occupancy_receipts split: if_splits prod.splits sum.splits)
qed

lemma put_receipts:
  "putInFlight fk uuid i db = (res, db') \<Longrightarrow> effect_receipts db' = effect_receipts db"
  by (auto simp: putInFlight_def store_in_flight_def Let_def
      split: option.splits if_splits prod.splits sum.splits)

lemma unknown_receipts:
  "markInFlightUnknown e at db = (res, db') \<Longrightarrow> effect_receipts db' = effect_receipts db"
  by (auto simp: markInFlightUnknown_def recordHostFriction_def dest: set_effect_state_receipts
      split: option.splits if_splits prod.splits sum.splits)

lemma receipted_receipts:
  "markInFlightReceipted e db = (res, db') \<Longrightarrow> effect_receipts db' = effect_receipts db"
  by (auto simp: markInFlightReceipted_def Let_def dest: set_effect_state_receipts
      split: option.splits if_splits prod.splits sum.splits)

section \<open>Receipts are final\<close>

definition stored_receipt :: "effect_db \<Rightarrow> string \<Rightarrow> effect_receipt option" where
  "stored_receipt db e = sql_get (\<lambda>r. rc_effect r = e) (effect_receipts db)"

definition receipt_edge :: "effect_receipt \<Rightarrow> effect_receipt \<Rightarrow> bool" where
  "receipt_edge q q' \<longleftrightarrow> rc_outcome q = ''in_progress'' \<and> rc_outcome q' \<noteq> ''in_progress'' \<and>
     rc_id q' = rc_id q \<and> rc_effect q' = rc_effect q \<and> rc_key q' = rc_key q"

lemma step_receipt_edge:
  assumes "effect_step db db'" and "stored_receipt db e = Some q"
  shows "\<exists>q'. stored_receipt db' e = Some q' \<and> receipt_edge\<^sup>*\<^sup>* q q'"
  using assms(1)
proof cases
  case (step_receipt r res)
  from record_receipts [OF this] show ?thesis
  proof (elim disjE exE conjE)
    fix x assume "effect_receipts db' = effect_receipts db @ [x]"
    with assms(2) have "stored_receipt db' e = Some q"
      by (simp add: stored_receipt_def sql_get_append)
    then show ?thesis by blast
  next
    assume *: "effect_receipts db' = promote_receipts r (effect_receipts db)" "rc_outcome r \<noteq> ''in_progress''"
    let ?P = "\<lambda>q :: effect_receipt. rc_effect q = rc_effect r \<and> rc_outcome q = ''in_progress''"
    let ?f = "\<lambda>q :: effect_receipt. q\<lparr>rc_outcome := rc_outcome r, rc_claims := json_norm (rc_claims r),
      rc_at := rc_at r, rc_class := rc_class r, rc_secret := rc_secret r\<rparr>"
    have "stored_receipt db' e = Some (if ?P q then ?f q else q)"
      using assms(2) unfolding stored_receipt_def *(1) promote_receipts_def
      by (subst sql_get_update) simp_all
    moreover have "receipt_edge\<^sup>*\<^sup>* q (if ?P q then ?f q else q)"
      using *(2) by (auto simp: receipt_edge_def)
    ultimately show ?thesis by blast
  qed (use assms(2) in \<open>auto simp: stored_receipt_def\<close>)
qed (use assms(2) in \<open>auto simp: stored_receipt_def dest!: put_receipts unknown_receipts receipted_receipts\<close>)

interpretation receipts: record_lifecycle effect_step stored_receipt receipt_edge
  by unfold_locales (rule step_receipt_edge)

section \<open>The invariant\<close>

lemma put_effects:
  assumes "putInFlight fk uuid i db = (res, db')"
  shows "db' = db \<or> (\<exists>row. find_effect_key db (if_key row) = None \<and> if_key row = p_idempotencyKey i \<and>
    if_state row = In_flight \<and> in_flight_indexes (in_flight_effects db @ [row]) \<and>
    db' = db\<lparr>in_flight_effects := in_flight_effects db @ [row]\<rparr>)"
proof (cases "find_effect_key db (p_idempotencyKey i)")
  case None
  with assms have "db' = db \<or> (\<exists>e w. in_flight_indexes (in_flight_effects db @ [new_in_flight i e w]) \<and>
      db' = db\<lparr>in_flight_effects := in_flight_effects db @ [new_in_flight i e w]\<rparr>)"
    by (auto simp: putInFlight_def getInFlightByIdempotencyKey_def store_in_flight_def Let_def
        split: option.splits if_splits prod.splits sum.splits)
  then show ?thesis
  proof (elim disjE exE conjE)
    fix e w
    have "if_key (new_in_flight i e w) = p_idempotencyKey i" "if_state (new_in_flight i e w) = In_flight"
      by (simp_all add: new_in_flight_def)
    moreover assume "in_flight_indexes (in_flight_effects db @ [new_in_flight i e w])"
      "db' = db\<lparr>in_flight_effects := in_flight_effects db @ [new_in_flight i e w]\<rparr>"
    ultimately show ?thesis
      using None by metis
  qed simp
next
  case (Some r)
  with assms show ?thesis
    by (auto simp: putInFlight_def getInFlightByIdempotencyKey_def)
qed

lemma put_inv:
  assumes "putInFlight fk uuid i db = (res, db')" and "effect_inv db"
  shows "effect_inv db'"
  using put_effects [OF assms(1)] assms(2) by (auto simp: effect_inv_def)

lemma unknown_inv:
  assumes "markInFlightUnknown e at db = (res, db')" and "effect_inv db"
  shows "effect_inv db'"
proof -
  obtain db1 where "set_effect_state Unknown e (\<lambda>r. if_state r = In_flight) db = (Inr (), db1)"
    "effect_inv db1"
    using set_effect_state_inv [OF assms(2), of e "\<lambda>r. if_state r = In_flight" Unknown]
    by (auto simp: unresolved_def)
  with assms(1) show ?thesis
    by (auto simp: markInFlightUnknown_def split: option.splits)
qed

lemma receipted_inv:
  assumes "markInFlightReceipted e db = (res, db')" and "effect_inv db"
  shows "effect_inv db'"
proof -
  let ?s = "case getEffectReceipt db e of Some r \<Rightarrow> effectStateForReceipt r | None \<Rightarrow> Unknown"
  have s: "\<exists>q \<in> set (effect_receipts db). rc_effect q = e \<and> effectStateForReceipt q = ?s"
    if "getEffectReceipt db e \<noteq> None"
    using that assms(2) by (force simp: effect_inv_def state_mapReceipt dest: getEffectReceipt_Some)
  have "\<exists>db1. set_effect_state ?s e (\<lambda>_. True) db = (Inr (), db1) \<and> effect_inv db1 \<and>
      effect_receipts db1 = effect_receipts db"
  proof (rule set_effect_state_inv [OF assms(2)])
    fix f assume f: "f \<in> set (in_flight_effects db)" "if_effect f = e" "?s \<noteq> Receipted"
    show "unresolved f"
    proof (rule unlicensed_unresolved [OF assms(2) f(1)])
      fix q assume "q \<in> set (effect_receipts db)" "rc_effect q = if_effect f"
      then show "effectStateForReceipt q \<noteq> Receipted"
        using f(2,3) s getEffectReceipt_None receipt_unique_effect [OF assms(2)] by metis
    qed
  next
    assume "?s = Receipted"
    with s show "\<exists>q \<in> set (effect_receipts db). rc_effect q = e \<and> effectStateForReceipt q = Receipted"
      by (cases "getEffectReceipt db e") auto
  qed
  with assms(1) show ?thesis
    by (auto simp: markInFlightReceipted_def Let_def split: option.splits)
qed

lemma record_inv:
  assumes "recordEffectReceipt r db = (res, db')" and "effect_inv db"
  shows "effect_inv db'"
proof (cases "rc_outcome r \<in> set VALID_RECEIPT_OUTCOMES \<and>
    (rc_id r \<notin> rc_id ` set (effect_receipts db) \<or> getEffectReceipt db (rc_effect r) \<noteq> None \<or>
      getEffectReceiptByIdempotencyKey db (rc_key r) \<noteq> None)")
  case True
  with record_total [OF assms(2)] assms(1) show ?thesis by fastforce
next
  case False
  then consider "rc_outcome r \<notin> set VALID_RECEIPT_OUTCOMES"
    | "rc_id r \<in> rc_id ` set (effect_receipts db)" "getEffectReceipt db (rc_effect r) = None"
      "getEffectReceiptByIdempotencyKey db (rc_key r) = None" by blast
  then have "db' = db"
    using assms(1)
    by cases (simp_all add: recordEffectReceipt_def or_else_def Let_def receipt_indexes_def split: if_splits)
  with assms(2) show ?thesis by simp
qed

interpretation ledger: preserved effect_step effect_inv
  by unfold_locales (auto elim!: effect_step.cases dest: put_inv unknown_inv receipted_inv record_inv)

section \<open>Released effects and bound keys\<close>

definition released :: "string \<Rightarrow> effect_db \<Rightarrow> bool" where
  "released e db \<longleftrightarrow> (\<exists>f \<in> set (in_flight_effects db). if_effect f = e \<and> if_state f = Receipted)"

lemma set_effect_state_released:
  assumes "set_effect_state s e' guard db = (res, db')" and "released e db"
    and "\<And>f. f \<in> set (in_flight_effects db) \<Longrightarrow> if_effect f = e \<Longrightarrow> if_state f = Receipted \<Longrightarrow>
      e' = e \<Longrightarrow> guard f \<Longrightarrow> s = Receipted"
  shows "released e db'"
proof -
  from assms(2) obtain f where f: "f \<in> set (in_flight_effects db)" "if_effect f = e" "if_state f = Receipted"
    by (auto simp: released_def)
  let ?f = "if if_effect f = e' \<and> guard f then f\<lparr>if_state := s\<rparr> else f"
  have "if_effect ?f = e" "if_state ?f = Receipted"
    using f assms(3) by auto
  moreover have "?f \<in> set (sql_update (\<lambda>r. if_effect r = e' \<and> guard r) (\<lambda>r. r\<lparr>if_state := s\<rparr>)
      (in_flight_effects db))"
    using f(1) by simp
  ultimately have "released e (db\<lparr>in_flight_effects := sql_update (\<lambda>r. if_effect r = e' \<and> guard r)
      (\<lambda>r. r\<lparr>if_state := s\<rparr>) (in_flight_effects db)\<rparr>)"
    unfolding released_def by (intro bexI [of _ ?f]) simp_all
  then show ?thesis
    using assms(1,2) by (auto simp: set_effect_state_def store_in_flight_def split: if_splits)
qed

lemma update_occupancy_released:
  assumes "updateInFlightOccupancyFromReceipt r db = (res, db')" and "released e db"
    and "rc_effect r = e \<Longrightarrow> effectStateForReceipt r = Receipted"
  shows "released e db'"
proof -
  obtain res1 db1 where 1: "set_effect_state (effectStateForReceipt r) (rc_effect r) (\<lambda>_. True) db = (res1, db1)"
    by (meson surj_pair)
  then have "released e db1"
    using assms(2,3) by (rule set_effect_state_released) auto
  with 1 assms(1) show ?thesis
    by (auto simp: updateInFlightOccupancyFromReceipt_def Let_def recordHostFriction_def released_def
        split: sum.splits if_splits)
qed

text \<open>A released effect has a receipt that is final and licenses the release.\<close>

lemma released_receipt:
  assumes "effect_inv db" and "released e db"
  shows "\<exists>q. q \<in> set (effect_receipts db) \<and> rc_effect q = e \<and> effectStateForReceipt q = Receipted \<and>
    getEffectReceipt db e = Some (mapReceipt q) \<and> rc_outcome (mapReceipt q) \<noteq> ''in_progress'' \<and>
    effectStateForReceipt (mapReceipt q) = Receipted"
proof -
  from assms obtain q where q: "q \<in> set (effect_receipts db)" "rc_effect q = e"
    "effectStateForReceipt q = Receipted" by (auto simp: effect_inv_def released_def)
  then have "getEffectReceipt db e = Some (mapReceipt q)"
    using getEffectReceipt_unique [OF assms(1) q(1)] by simp
  moreover have "effectStateForReceipt (mapReceipt q) = Receipted"
    using assms(1) q by (auto simp: effect_inv_def state_mapReceipt)
  ultimately show ?thesis
    using q in_progress_occupies by blast
qed

lemma record_shape:
  assumes "recordEffectReceipt r db = (res, db')"
  shows "db' = db \<or> (\<exists>x rs res'. updateInFlightOccupancyFromReceipt x (db\<lparr>effect_receipts := rs\<rparr>) = (res', db') \<and>
    rc_effect x = rc_effect r)"
proof (cases "or_else (getEffectReceipt db (rc_effect r)) (getEffectReceiptByIdempotencyKey db (rc_key r))")
  case None
  with assms show ?thesis
    by (auto simp: recordEffectReceipt_def Let_def split: if_splits prod.splits sum.splits)
next
  case (Some x)
  let ?db1 = "db\<lparr>effect_receipts := promote_receipts r (effect_receipts db)\<rparr>"
  let ?p = "the (or_else (getEffectReceipt ?db1 (rc_effect r)) (Some x))"
  have p: "rc_effect ?p = rc_effect r" if "rc_effect x = rc_effect r"
    using that by (cases "getEffectReceipt ?db1 (rc_effect r)")
      (auto simp: or_else_def dest: getEffectReceipt_Some)
  have same: "db = db\<lparr>effect_receipts := effect_receipts db\<rparr>" by simp
  show ?thesis
  proof (cases "rc_effect x = rc_effect r")
    case True
    with Some assms have "db' = db \<or> (\<exists>res'. updateInFlightOccupancyFromReceipt ?p ?db1 = (res', db')) \<or>
        (\<exists>res'. updateInFlightOccupancyFromReceipt x db = (res', db'))"
      by (auto simp: recordEffectReceipt_def Let_def split: if_splits prod.splits sum.splits)
    with True p same show ?thesis by metis
  next
    case False
    with Some assms show ?thesis
      by (auto simp: recordEffectReceipt_def split: if_splits)
  qed
qed

lemma record_released:
  assumes "recordEffectReceipt r db = (res, db')" and "effect_inv db" and "released e db"
  shows "released e db'"
proof -
  from released_receipt [OF assms(2,3)] obtain q where q: "getEffectReceipt db e = Some (mapReceipt q)"
    "rc_outcome (mapReceipt q) \<noteq> ''in_progress''" "effectStateForReceipt (mapReceipt q) = Receipted"
    by blast
  have keep: "released e (db\<lparr>effect_receipts := rs\<rparr>)" for rs
    using assms(3) by (simp add: released_def)
  show ?thesis
  proof (cases "rc_effect r = e")
    case True
    with assms(1) q have "db' = db \<or> (\<exists>res'. updateInFlightOccupancyFromReceipt (mapReceipt q) db = (res', db'))"
      by (auto simp: recordEffectReceipt_def or_else_def split: if_splits prod.splits sum.splits)
    with assms(3) q(3) show ?thesis
      by (auto dest: update_occupancy_released)
  next
    case False
    from record_shape [OF assms(1)] show ?thesis
    proof (elim disjE exE conjE)
      fix x rs res'
      assume "updateInFlightOccupancyFromReceipt x (db\<lparr>effect_receipts := rs\<rparr>) = (res', db')"
        "rc_effect x = rc_effect r"
      from this(1) keep show ?thesis
        by (rule update_occupancy_released) (use False \<open>rc_effect x = rc_effect r\<close> in simp)
    qed (simp add: assms(3))
  qed
qed

lemma put_released:
  "putInFlight fk uuid i db = (res, db') \<Longrightarrow> released e db \<Longrightarrow> released e db'"
  by (auto simp: released_def dest!: put_effects)

lemma unknown_released:
  assumes "markInFlightUnknown k at db = (res, db')" and "released e db"
  shows "released e db'"
proof -
  obtain res1 db1 where 1: "set_effect_state Unknown k (\<lambda>r. if_state r = In_flight) db = (res1, db1)"
    by (meson surj_pair)
  then have "released e db1"
    using assms(2) by (rule set_effect_state_released) auto
  with 1 assms(1) show ?thesis
    by (auto simp: markInFlightUnknown_def recordHostFriction_def released_def
        split: sum.splits if_splits option.splits)
qed

lemma receipted_released:
  assumes "markInFlightReceipted k db = (res, db')" and "effect_inv db" and "released e db"
  shows "released e db'"
proof -
  let ?s = "case getEffectReceipt db k of Some r \<Rightarrow> effectStateForReceipt r | None \<Rightarrow> Unknown"
  obtain res1 db1 where 1: "set_effect_state ?s k (\<lambda>_. True) db = (res1, db1)"
    by (meson surj_pair)
  then have "released e db1"
    using assms(3) by (rule set_effect_state_released) (use released_receipt [OF assms(2,3)] in auto)
  with 1 assms(1) show ?thesis
    by (auto simp: markInFlightReceipted_def Let_def split: sum.splits option.splits)
qed

interpretation releases: preserved effect_step "\<lambda>db. effect_inv db \<and> released e db" for e
  by unfold_locales
    (auto elim!: effect_step.cases dest: put_inv unknown_inv receipted_inv record_inv
      put_released unknown_released receipted_released record_released)

text \<open>The effect an idempotency key is bound to.\<close>

definition key_effect :: "effect_db \<Rightarrow> string \<Rightarrow> string option" where
  "key_effect db k = map_option if_effect (find_effect_key db k)"

lemma set_effect_state_keys:
  "set_effect_state s e guard db = (res, db') \<Longrightarrow> key_effect db' k = key_effect db k"
  by (cases "sql_get (\<lambda>r. if_key r = k) (in_flight_effects db)")
    (auto simp: set_effect_state_def store_in_flight_def key_effect_def find_effect_key_def
      sql_get_update simp del: sql_get_None_iff split: if_splits)

lemma step_keys:
  assumes "effect_step db db'" and "key_effect db k = Some e"
  shows "\<exists>e'. key_effect db' k = Some e' \<and> (\<lambda>_ _. False)\<^sup>*\<^sup>* e e'"
proof -
  have "key_effect db' k = Some e"
    using assms(1)
  proof cases
    case (step_put fk uuid i res)
    from put_effects [OF this] assms(2) show ?thesis
      by (auto simp: key_effect_def find_effect_key_def sql_get_append)
  next
    case (step_unknown u at res)
    then show ?thesis
      using assms(2)
      by (auto simp: markInFlightUnknown_def recordHostFriction_def key_effect_def find_effect_key_def
          dest!: set_effect_state_keys [of _ _ _ _ _ _ k] split: prod.splits sum.splits if_splits option.splits)
  next
    case (step_receipted u res)
    then show ?thesis
      using assms(2)
      by (auto simp: markInFlightReceipted_def Let_def
          dest!: set_effect_state_keys [of _ _ _ _ _ _ k] split: prod.splits sum.splits option.splits)
  next
    case (step_receipt r res)
    have "updateInFlightOccupancyFromReceipt x (db\<lparr>effect_receipts := rs\<rparr>) = (res', db') \<Longrightarrow>
        key_effect db' k = key_effect db k" for x rs res'
      by (auto simp: updateInFlightOccupancyFromReceipt_def recordHostFriction_def key_effect_def
          find_effect_key_def Let_def
          dest!: set_effect_state_keys [of _ _ _ _ _ _ k] split: prod.splits sum.splits if_splits)
    with record_shape [OF step_receipt] assms(2) show ?thesis by metis
  qed
  then show ?thesis by blast
qed

interpretation keys: record_lifecycle effect_step key_effect "\<lambda>_ _. False"
  by unfold_locales (rule step_keys)

section \<open>Properties\<close>

definition empty_ledger :: "cycle_row list \<Rightarrow> effect_db" where
  "empty_ledger cycles =
     \<lparr>in_flight_effects = [], effect_receipts = [], cycle_records = cycles, frictions = []\<rparr>"

lemma empty_inv: "effect_inv (empty_ledger cycles)"
  by (simp add: effect_inv_def empty_ledger_def in_flight_indexes_def occupancy_ok_def
      receipt_indexes_def)


definition example_put :: put_input where
  "example_put = \<lparr>p_effectId = Some ''e'', p_cycleId = ''c'', p_generation = 1, p_wakeId = Some ''w'',
     p_correlationId = ''e'', p_idempotencyKey = ''k'', p_dispatchedAtMs = 10, p_originJobId = None,
     p_payload = JObj [(''q'', JStr ''x'')], p_originEventId = ''ev'', p_originAttemptId = None,
     p_audienceScope = JObj [(''kind'', JStr ''room''), (''roomId'', JStr ''r'')],
     p_operationKind = Some ''web.search''\<rparr>"

definition example_receipt :: effect_receipt where
  "example_receipt = \<lparr>rc_id = ''r'', rc_effect = ''e'', rc_key = ''k'', rc_outcome = ''succeeded'',
     rc_claims = JObj [], rc_at = 20, rc_class = ''never_public'', rc_secret = False\<rparr>"

definition example_in_flight :: effect_db where
  "example_in_flight = snd (putInFlight (\<lambda>_. True) ''u'' example_put (empty_ledger []))"

definition example_receipted :: effect_db where
  "example_receipted = snd (recordEffectReceipt example_receipt example_in_flight)"

lemma example_steps: "effect_step\<^sup>*\<^sup>* (empty_ledger []) example_receipted"
proof -
  have "effect_step (empty_ledger []) example_in_flight"
    unfolding example_in_flight_def by (rule step_put [OF prod.collapse [symmetric]])
  moreover have "effect_step example_in_flight example_receipted"
    unfolding example_receipted_def by (rule step_receipt [OF prod.collapse [symmetric]])
  ultimately show ?thesis
    by (metis (no_types) converse_rtranclp_into_rtranclp r_into_rtranclp)
qed


text \<open>
  Recording a receipt never fails on the ledger: in every reachable ledger a receipt with a
  valid outcome and a fresh receipt id is recorded, or answered by the receipt already stored for
  its effect or its idempotency key, without any index of the occupancy being violated.
\<close>

theorem receipt_recording_total:
  assumes "effect_inv db" and "rc_outcome r \<in> set VALID_RECEIPT_OUTCOMES"
    and "\<forall>q \<in> set (effect_receipts db). rc_id q \<noteq> rc_id r"
  shows "\<exists>q db'. recordEffectReceipt r db = (Inr q, db') \<and> effect_inv db'"
  using assms by (intro record_total) auto

theorem receipt_recording_total_witness:
  "\<exists>q db'. recordEffectReceipt (example_receipt\<lparr>rc_id := ''r2''\<rparr>) example_receipted = (Inr q, db')"
proof -
  have "effect_inv example_receipted"
    using ledger.steps_inv [OF example_steps] empty_inv by blast
  moreover have "rc_outcome (example_receipt\<lparr>rc_id := ''r2''\<rparr>) \<in> set VALID_RECEIPT_OUTCOMES"
    by (simp add: example_receipt_def VALID_RECEIPT_OUTCOMES_def)
  moreover have "\<forall>q \<in> set (effect_receipts example_receipted).
      rc_id q \<noteq> rc_id (example_receipt\<lparr>rc_id := ''r2''\<rparr>)"
    by code_simp
  ultimately show ?thesis
    using receipt_recording_total by blast
qed

text \<open>
  Receipts and releases are final. A stored receipt whose outcome is not in-progress is the
  stored receipt for its effect for ever, whatever is recorded later, and an effect whose
  occupancy has been released is never in flight or unknown again.
\<close>

theorem receipt_final:
  assumes "effect_inv db" and "effect_step\<^sup>*\<^sup>* db db'"
  shows "(\<forall>q. stored_receipt db e = Some q \<longrightarrow> rc_outcome q \<noteq> ''in_progress'' \<longrightarrow>
      stored_receipt db' e = Some q) \<and>
    (released e db \<longrightarrow> (\<forall>f \<in> set (in_flight_effects db'). if_effect f = e \<longrightarrow> if_state f = Receipted))"
proof (intro conjI allI impI)
  fix q assume "stored_receipt db e = Some q" "rc_outcome q \<noteq> ''in_progress''"
  then show "stored_receipt db' e = Some q"
    by (intro receipts.terminal_forever [OF assms(2)]) (auto simp: receipt_edge_def)
next
  assume "released e db"
  then have "effect_inv db' \<and> released e db'"
    using releases.steps_inv [OF assms(2)] assms(1) by blast
  then obtain f where f: "f \<in> set (in_flight_effects db')" "if_effect f = e" "if_state f = Receipted"
    and "distinct (map if_effect (in_flight_effects db'))"
    by (auto simp: released_def effect_inv_def in_flight_indexes_def)
  then show "\<forall>f \<in> set (in_flight_effects db'). if_effect f = e \<longrightarrow> if_state f = Receipted"
    by (auto simp: distinct_map inj_on_def)
qed

theorem receipt_final_witness:
  "filter (\<lambda>f. if_effect f = ''e'' \<and> if_state f \<noteq> Receipted)
     (in_flight_effects (snd (markInFlightUnknown ''e'' 30 example_receipted))) = []"
proof -
  have "effect_inv example_receipted"
    using ledger.steps_inv [OF example_steps] empty_inv by blast
  moreover have "effect_step\<^sup>*\<^sup>* example_receipted (snd (markInFlightUnknown ''e'' 30 example_receipted))"
    by (rule r_into_rtranclp, rule step_unknown [OF prod.collapse [symmetric]])
  moreover have "released ''e'' example_receipted"
    unfolding released_def by code_simp
  ultimately show ?thesis
    using receipt_final unfolding filter_empty_conv by blast
qed

text \<open>
  The stored envelope round-trips: an effect put in flight with an operation kind reads back
  with that kind, with the audience scope it was given and with its request's fields, whatever
  the request contains, so that a request cannot forge the operation kind or the scope.
\<close>

theorem in_flight_roundtrip:
  assumes "putInFlight fk uuid i db = (Inr rec, db')"
    and "getInFlightByIdempotencyKey db (p_idempotencyKey i) = None"
    and "p_operationKind i = Some kind" and "kind \<noteq> []" and "is_record (p_audienceScope i)"
  shows "operationKind rec = Some kind \<and> recordScope rec = audienceScope (p_audienceScope i) \<and>
    effectStatus rec = In_flight \<and> idempotencyKey rec = p_idempotencyKey i \<and>
    cycleId rec = p_cycleId i \<and> (\<exists>w. wakeId rec = Some w \<and> w \<noteq> []) \<and>
    (\<forall>key s. is_record (p_payload i) \<longrightarrow> key \<noteq> ''audienceScope'' \<longrightarrow>
      (js_prop (request rec) key = JStr s \<longleftrightarrow> js_prop (p_payload i) key = JStr s))"
proof -
  from assms(1,2) obtain e w where w: "w \<noteq> []" "in_flight_indexes (in_flight_effects db @ [new_in_flight i e w])"
    "getInFlightByEffectId (db\<lparr>in_flight_effects := in_flight_effects db @ [new_in_flight i e w]\<rparr>) e = Some rec"
    by (auto simp: putInFlight_def store_in_flight_def Let_def
        split: option.splits if_splits prod.splits sum.splits)
  have "if_effect (new_in_flight i e w) = e" by (simp add: new_in_flight_def)
  with w(2,3) have rec: "rec = mapInFlight (new_in_flight i e w)"
    using sql_get_key [of if_effect "in_flight_effects db @ [new_in_flight i e w]" "new_in_flight i e w" e]
    by (simp add: getInFlightByEffectId_def find_effect_def in_flight_indexes_def)
  have given: "p_audienceScope i \<noteq> JUndefined"
    using assms(5) by (cases "p_audienceScope i") auto
  obtain c cs where kind: "kind = c # cs" using assms(4) by (cases kind) auto
  let ?req = "if is_record (p_payload i) then js_spread_set (p_payload i) ''audienceScope'' (p_audienceScope i)
    else JObj [(''value'', js_or (p_payload i) JNull), (''audienceScope'', p_audienceScope i)]"
  define q where "q = json_norm ?req"
  have payload: "if_payload (new_in_flight i e w) = JObj
      [(''__ashleyBclp'', JObj [(''schema'', JStr HOST_EFFECT_PAYLOAD_SCHEMA),
          (''semanticOperationKind'', JStr kind)]), (''request'', q)]"
    using assms(3) given kind
    by (simp add: new_in_flight_def stored_payload_def Let_def js_spread_set_def q_def)
  have scope: "js_prop q ''audienceScope'' = json_norm (p_audienceScope i)"
    unfolding q_def using given by (auto simp: js_prop_norm js_spread_set_def)
  have rec_ok: "is_record q" by (auto simp: js_spread_set_def q_def)
  have "json_norm (p_audienceScope i) \<noteq> JNull"
    using assms(5) by (cases "p_audienceScope i") auto
  then have "recordScope rec = audienceScope (json_norm (p_audienceScope i))"
    unfolding rec mapInFlight_def payload by (simp add: Let_def js_or_def scope rec_ok)
  then have "recordScope rec = audienceScope (p_audienceScope i)"
    using given by (simp add: audienceScope_norm)
  moreover have "js_prop q key = JStr s \<longleftrightarrow> js_prop (p_payload i) key = JStr s"
    if "is_record (p_payload i)" "key \<noteq> ''audienceScope''" for key s
  proof -
    have "map_of (filter (\<lambda>e. fst e \<noteq> ''audienceScope'') fs) key = map_of fs key" for fs :: "(string \<times> js_value) list"
      using that(2) by (induction fs) auto
    with that have "js_prop ?req key = js_prop (p_payload i) key"
      by (cases "p_payload i") (simp_all add: js_spread_set_def)
    then show ?thesis
      unfolding q_def js_prop_norm_str by simp
  qed
  moreover have "request rec = q" "operationKind rec = Some kind"
    unfolding rec mapInFlight_def payload by (simp_all add: Let_def)
  moreover have "effectStatus rec = In_flight \<and> idempotencyKey rec = p_idempotencyKey i \<and>
      cycleId rec = p_cycleId i \<and> wakeId rec = Some w"
    unfolding rec mapInFlight_def by (simp add: Let_def new_in_flight_def)
  ultimately show ?thesis
    using w(1) by simp
qed

theorem in_flight_roundtrip_witness:
  "\<exists>rec db'. putInFlight (\<lambda>_. True) ''u'' example_put (empty_ledger []) = (Inr rec, db') \<and>
     operationKind rec = Some ''web.search''"
proof -
  have "\<not> isl (fst (putInFlight (\<lambda>_. True) ''u'' example_put (empty_ledger [])))"
    by code_simp
  then obtain rec db' where r: "putInFlight (\<lambda>_. True) ''u'' example_put (empty_ledger []) = (Inr rec, db')"
    by (cases "putInFlight (\<lambda>_. True) ''u'' example_put (empty_ledger [])") 
      (metis fst_conv sum.collapse(2))
  have "getInFlightByIdempotencyKey (empty_ledger []) (p_idempotencyKey example_put) = None"
    by code_simp
  from in_flight_roundtrip [OF r this, where kind = "''web.search''"]
  have "operationKind rec = Some ''web.search''"
    by (simp add: example_put_def)
  with r show ?thesis by blast
qed

end
