(* ===== verification/Effect_Dispatch.thy ===== *)
theory Effect_Dispatch
  imports Authority_Soundness Effect_Occupancy
begin

text \<open>
  The dispatch of an effect, \<^verbatim>\<open>cognitive-v021/effect/proposal.ts\<close>. \<open>dispatchEffect\<close> runs
  synchronously up to the call of \<open>execute\<close>, which is the admission; the receipt is recorded when
  \<open>execute\<close> has settled, which is the completion. Other operations may run in between. What
  \<open>reload\<close> and \<open>packs\<close> answer before the first and before the second authority check are
  arguments, as are the clock, random UUIDs and what \<open>execute\<close> did. The callback of a
  continuation's terminal receipt is not modelled, whether \<open>onAccepted\<close> returns is an argument.
\<close>

section \<open>Admission\<close>

record effect_proposal =
  pr_effectId :: string
  pr_cycleId :: string
  pr_generation :: int
  pr_idempotencyKey :: string
  pr_kind :: string
  pr_request :: js_value
  pr_audienceScope :: js_value
  pr_authorityEpoch :: int
  pr_currentness :: "currentness_binding option"
  pr_originEventId :: "string option"
  pr_originAttemptId :: "string option"

record dispatch_snapshot =
  sn_authorityEpoch :: int
  sn_generation :: "int option"
  sn_packs :: "authority_packs option"
  sn_authorityDb :: "authority_db option"

datatype dispatch_origin = Origin_authority | Origin_dispatch

datatype dispatch_result =
    Not_dispatched "authority_code list" dispatch_origin
  | Fenced string
  | Dispatched effect_receipt bool
  | Pending string

datatype admission = Settled dispatch_result | Execute in_flight_record

definition default_packs :: "int \<Rightarrow> authority_packs" where
  "default_packs epoch = \<lparr>requireObservationForLatest = True, observedObservationIds = None,
     pack_binding = None, pack_complete = None, receiptsByEffectId = [], withdrawalActive = False,
     neverMention = [], pack_authorityEpoch = epoch\<rparr>"

definition dispatch_verdict ::
  "(string \<Rightarrow> string) \<Rightarrow> effect_proposal \<Rightarrow> authority_packs \<Rightarrow> dispatch_snapshot \<Rightarrow> verdict" where
  "dispatch_verdict sha p packs snap = checkAuthority sha Stage_dispatch
     \<lparr>ai_settlement = None,
      ai_proposal = Some \<lparr>sb_authorityEpoch = Some (pr_authorityEpoch p), sb_kind = pr_kind p,
        sb_currentness = pr_currentness p\<rparr>,
      ai_packs = packs, ai_authorityEpoch = sn_authorityEpoch snap,
      ai_authorityDb = sn_authorityDb snap, ai_receiptDb = None, ai_expectedCurrentness = None,
      ai_activeEffects = None\<rparr>"

definition stale_generation :: "effect_proposal \<Rightarrow> dispatch_snapshot \<Rightarrow> bool" where
  "stale_generation p snap \<longleftrightarrow>
     (case sn_generation snap of None \<Rightarrow> False | Some g \<Rightarrow> pr_generation p \<noteq> g)"

definition proposal_put :: "effect_proposal \<Rightarrow> string \<Rightarrow> int \<Rightarrow> put_input" where
  "proposal_put p originEvent now =
     \<lparr>p_effectId = Some (pr_effectId p), p_cycleId = pr_cycleId p, p_generation = pr_generation p,
      p_wakeId = None, p_correlationId = pr_effectId p, p_idempotencyKey = pr_idempotencyKey p,
      p_dispatchedAtMs = now, p_originJobId = None, p_payload = pr_request p,
      p_originEventId = originEvent, p_originAttemptId = pr_originAttemptId p,
      p_audienceScope = pr_audienceScope p, p_operationKind = Some (pr_kind p)\<rparr>"

text \<open>A refusal after the effect was put in flight marks it unknown first.\<close>

definition refuse_in_flight ::
  "string \<Rightarrow> int \<Rightarrow> dispatch_result \<Rightarrow> effect_db \<Rightarrow> admission throws \<times> effect_db" where
  "refuse_in_flight e now res db =
     (case markInFlightUnknown e now db of
        (Inl err, db1) \<Rightarrow> (Inl err, db1) | (Inr _, db1) \<Rightarrow> (Inr (Settled res), db1))"

definition recheck_in_flight ::
  "(string \<Rightarrow> string) \<Rightarrow> effect_proposal \<Rightarrow> authority_packs \<Rightarrow> dispatch_snapshot \<Rightarrow> int \<Rightarrow>
   in_flight_record \<Rightarrow> effect_db \<Rightarrow> admission throws \<times> effect_db" where
  "recheck_in_flight sha p packs snap now rec db =
     (let verdict = dispatch_verdict sha p packs snap in
      if verdict \<noteq> []
      then refuse_in_flight (effectId rec) now (Not_dispatched verdict Origin_authority) db
      else if stale_generation p snap
      then refuse_in_flight (effectId rec) now (Not_dispatched [STALE_GENERATION] Origin_dispatch) db
      else (Inr (Execute rec), db))"

definition dispatch_admission ::
  "(string \<Rightarrow> string) \<Rightarrow> (in_flight_row \<Rightarrow> bool) \<Rightarrow> string \<Rightarrow> int \<Rightarrow>
   dispatch_snapshot \<Rightarrow> authority_packs option \<Rightarrow> dispatch_snapshot \<Rightarrow> authority_packs option \<Rightarrow>
   effect_proposal \<Rightarrow> effect_db \<Rightarrow> admission throws \<times> effect_db" where
  "dispatch_admission sha fk uuid now initial packs0 beforeExecute packs1 p db =
     (let authorityPacks = the (or_else packs0 (or_else (sn_packs initial)
            (Some (default_packs (sn_authorityEpoch initial)))));
          verdict = dispatch_verdict sha p authorityPacks initial
      in if verdict \<noteq> [] then (Inr (Settled (Not_dispatched verdict Origin_authority)), db)
      else if stale_generation p initial
      then (Inr (Settled (Not_dispatched [STALE_GENERATION] Origin_dispatch)), db)
      else (case or_else (getEffectReceipt db (pr_effectId p))
              (getEffectReceiptByIdempotencyKey db (pr_idempotencyKey p)) of
          Some existing \<Rightarrow> (Inr (Settled (Dispatched existing True)), db)
        | None \<Rightarrow>
            if getInFlightByIdempotencyKey db (pr_idempotencyKey p) \<noteq> None
            then (Inr (Settled (Not_dispatched [IN_FLIGHT_UNKNOWN] Origin_dispatch)), db)
            else (case pr_originEventId p of
                None \<Rightarrow> (Inl ''origin_event_id_required'', db)
              | Some originEvent \<Rightarrow>
                  if blank originEvent then (Inl ''origin_event_id_required'', db)
                  else (case putInFlight fk uuid (proposal_put p originEvent now) db of
                      (Inl err, db1) \<Rightarrow>
                        if getUnresolvedInFlightForCycle db1 (pr_cycleId p) \<noteq> None
                        then (Inr (Settled (Not_dispatched [IN_FLIGHT_UNKNOWN] Origin_dispatch)), db1)
                        else (Inl err, db1)
                    | (Inr rec, db1) \<Rightarrow>
                        recheck_in_flight sha p
                          (the (or_else packs1 (or_else (sn_packs beforeExecute) (Some authorityPacks))))
                          beforeExecute now rec db1))))"

section \<open>Completion\<close>

text \<open>What \<open>execute\<close> did: it returned a value, lost the ownership, or threw another error.\<close>

datatype execution = Returned js_value | Ownership_lost string | Threw string

definition isReceipt :: "js_value \<Rightarrow> bool" where
  "isReceipt v \<longleftrightarrow> is_str (js_prop v ''outcome'') \<and> is_str (js_prop v ''receiptId'')"

definition cancellationCode :: "string \<Rightarrow> bool" where
  "cancellationCode code \<longleftrightarrow> code = ''command_code_cancelled'' \<or> code = ''effect_ownership_lost'' \<or>
     code = ''preempt'' \<or> code = ''compose''"

text \<open>A missing \<open>atMs\<close> is the clock; a value that is not an integer is outside the model.\<close>

definition raw_receipt :: "effect_proposal \<Rightarrow> string \<Rightarrow> int \<Rightarrow> js_value \<Rightarrow> effect_receipt" where
  "raw_receipt p uuid now output =
     (if isReceipt output then
        \<lparr>rc_id = the_str (js_prop output ''receiptId''), rc_effect = pr_effectId p,
         rc_key = pr_idempotencyKey p, rc_outcome = the_str (js_prop output ''outcome''),
         rc_claims = js_or (js_prop output ''claims'') (JObj []),
         rc_at = the_int (js_or (js_prop output ''atMs'') (JNum (NInt now))),
         rc_class = the_str (js_or (js_prop output ''dataClassification'') (JStr ''never_public'')),
         rc_secret = (js_prop output ''secretOmitted'' = JBool True)\<rparr>
      else
        \<lparr>rc_id = uuid, rc_effect = pr_effectId p, rc_key = pr_idempotencyKey p,
         rc_outcome = (if ''error'' \<in> set (map fst (js_fields output)) then ''failed'' else ''succeeded''),
         rc_claims = (case output of JObj _ \<Rightarrow> output | JArr _ \<Rightarrow> output
           | _ \<Rightarrow> JObj [(''result'', output)]),
         rc_at = now, rc_class = ''never_public'', rc_secret = False\<rparr>)"

definition keep_string :: "js_value \<Rightarrow> string \<Rightarrow> js_value" where
  "keep_string v fallback = (if is_str v then v else JStr fallback)"

definition dispatch_receipt :: "bool \<Rightarrow> effect_proposal \<Rightarrow> string \<Rightarrow> int \<Rightarrow> js_value \<Rightarrow> effect_receipt" where
  "dispatch_receipt detach p uuid now output =
     (let r = raw_receipt p uuid now output; claims = rc_claims r in
      if detach \<and> js_prop claims ''terminationClass'' = JStr ''CANCELLED'' \<and>
        rc_outcome r = ''succeeded''
      then r\<lparr>rc_outcome := ''outcome_unknown'', rc_claims := js_spread_set claims ''errorCode''
        (keep_string (js_prop claims ''errorCode'') ''cancelled_effect_cannot_be_success'')\<rparr>
      else if detach \<and> rc_outcome r = ''in_progress''
      then r\<lparr>rc_outcome := ''outcome_unknown'', rc_claims := js_spread_set
        (js_spread_set (js_spread_set claims ''executionTruth'' (JStr ''effect_unknown''))
          ''terminationClass'' (keep_string (js_prop claims ''terminationClass'') ''FAILED''))
        ''errorCode'' (JStr ''continuation_worker_returned_in_progress'')\<rparr>
      else r)"

definition fenced_output :: "effect_proposal \<Rightarrow> int \<Rightarrow> string \<Rightarrow> js_value" where
  "fenced_output p now code = JObj
     [(''outcome'', JStr ''outcome_unknown''),
      (''receiptId'', JStr (''v021:effect:'' @ pr_effectId p @ '':fenced'')),
      (''effectId'', JStr (pr_effectId p)), (''idempotencyKey'', JStr (pr_idempotencyKey p)),
      (''claims'', JObj [(''executionTruth'', JStr ''effect_unknown''),
        (''terminationClass'', JStr (if cancellationCode code then ''CANCELLED'' else ''RESOURCE_EXHAUSTED'')),
        (''errorCode'', JStr code)]),
      (''atMs'', JNum (NInt now)), (''dataClassification'', JStr ''never_public''),
      (''secretOmitted'', JBool True)]"

fun execution_output :: "effect_proposal \<Rightarrow> int \<Rightarrow> execution \<Rightarrow> js_value" where
  "execution_output p now (Returned v) = v"
| "execution_output p now (Ownership_lost code) = fenced_output p now code"
| "execution_output p now (Threw msg) = JObj [(''error'', JStr msg)]"

definition record_dispatched ::
  "effect_receipt \<Rightarrow> effect_db \<Rightarrow> dispatch_result throws \<times> effect_db" where
  "record_dispatched r db =
     (case recordEffectReceipt r db of
        (Inl err, db1) \<Rightarrow> (Inl err, db1) | (Inr q, db1) \<Rightarrow> (Inr (Dispatched q False), db1))"

text \<open>The completion of an awaited execution.\<close>

definition dispatch_completion ::
  "effect_proposal \<Rightarrow> in_flight_record \<Rightarrow> string \<Rightarrow> int \<Rightarrow> execution \<Rightarrow> effect_db \<Rightarrow>
   dispatch_result throws \<times> effect_db" where
  "dispatch_completion p rec uuid now out db =
     (case out of
        Ownership_lost code \<Rightarrow>
          (case markInFlightUnknown (effectId rec) now db of
             (Inl err, db1) \<Rightarrow> (Inl err, db1) | (Inr _, db1) \<Rightarrow> (Inr (Fenced code), db1))
      | _ \<Rightarrow> record_dispatched (dispatch_receipt False p uuid now (execution_output p now out)) db)"

text \<open>A continuation: the transfer after admission, and the detached completion.\<close>

definition not_attempted_receipt :: "effect_proposal \<Rightarrow> int \<Rightarrow> effect_receipt" where
  "not_attempted_receipt p now =
     \<lparr>rc_id = ''v021:effect:'' @ pr_effectId p @ '':not-attempted'', rc_effect = pr_effectId p,
      rc_key = pr_idempotencyKey p, rc_outcome = ''not_attempted'',
      rc_claims = JObj [(''executionTruth'', JStr ''no_effect_proven''),
        (''terminationClass'', JStr ''FAILED''),
        (''errorCode'', JStr ''effect_continuation_transfer_failed'')],
      rc_at = now, rc_class = ''never_public'', rc_secret = True\<rparr>"

definition dispatch_transfer ::
  "bool \<Rightarrow> effect_proposal \<Rightarrow> int \<Rightarrow> effect_db \<Rightarrow> dispatch_result throws \<times> effect_db" where
  "dispatch_transfer accepted p now db =
     (if pr_kind p \<noteq> ''candidate.develop'' \<or> \<not> accepted
      then record_dispatched (not_attempted_receipt p now) db
      else (Inr (Pending (pr_effectId p)), db))"

definition dispatch_detached_completion ::
  "effect_proposal \<Rightarrow> string \<Rightarrow> int \<Rightarrow> execution \<Rightarrow> effect_db \<Rightarrow> dispatch_result throws \<times> effect_db" where
  "dispatch_detached_completion p uuid now out db =
     record_dispatched (dispatch_receipt True p uuid now (execution_output p now out)) db"

section \<open>Traces of dispatches\<close>

text \<open>
  A step is labelled with the idempotency key and the effect for which it calls \<open>execute\<close>.
  A detached dispatch calls it in its transfer, directly after its own admission.
\<close>

inductive dispatch_step :: "effect_db \<Rightarrow> (string \<times> string) option \<Rightarrow> effect_db \<Rightarrow> bool" where
  dispatch_execute:
    "dispatch_admission sha fk uuid now s0 k0 s1 k1 p db = (Inr (Execute rec), db') \<Longrightarrow>
     dispatch_step db (Some (pr_idempotencyKey p, pr_effectId p)) db'"
| dispatch_settled:
    "dispatch_admission sha fk uuid now s0 k0 s1 k1 p db = (res, db') \<Longrightarrow>
     (\<forall>rec. res \<noteq> Inr (Execute rec)) \<Longrightarrow> dispatch_step db None db'"
| dispatch_complete: "dispatch_completion p rec uuid now out db = (r, db') \<Longrightarrow> dispatch_step db None db'"
| dispatch_refused_transfer: "dispatch_transfer accepted p now db = (r, db') \<Longrightarrow> dispatch_step db None db'"
| dispatch_detached: "dispatch_detached_completion p uuid now out db = (r, db') \<Longrightarrow> dispatch_step db None db'"
| dispatch_other: "effect_step db db' \<Longrightarrow> dispatch_step db None db'"

lemma refuse_steps:
  "refuse_in_flight e now res db = (out, db') \<Longrightarrow> effect_step\<^sup>*\<^sup>* db db' \<and> (\<forall>rec. out \<noteq> Inr (Execute rec))"
  by (cases "markInFlightUnknown e now db")
    (auto simp: refuse_in_flight_def intro: step_unknown split: sum.splits)

lemma recheck_steps:
  assumes "recheck_in_flight sha p packs snap now rec db = (out, db')"
  shows "effect_step\<^sup>*\<^sup>* db db' \<and> (\<forall>r. out = Inr (Execute r) \<longrightarrow> r = rec \<and> db' = db \<and>
    dispatch_verdict sha p packs snap = [] \<and> \<not> stale_generation p snap)"
  using assms by (auto simp: recheck_in_flight_def Let_def dest: refuse_steps split: if_splits)

text \<open>The shape of an admission that executes, and what any admission does to the ledger.\<close>

lemma admission_execute:
  assumes "dispatch_admission sha fk uuid now s0 k0 s1 k1 p db = (Inr (Execute rec), db')"
  shows "\<exists>ev packs0 packs1. putInFlight fk uuid (proposal_put p ev now) db = (Inr rec, db') \<and>
    getInFlightByIdempotencyKey db (pr_idempotencyKey p) = None \<and>
    getEffectReceipt db (pr_effectId p) = None \<and>
    dispatch_verdict sha p packs0 s0 = [] \<and> dispatch_verdict sha p packs1 s1 = [] \<and>
    \<not> stale_generation p s0 \<and> \<not> stale_generation p s1"
proof -
  from assms obtain ev db1 rec1 packs0 packs1 where *:
    "putInFlight fk uuid (proposal_put p ev now) db = (Inr rec1, db1)"
    "recheck_in_flight sha p packs1 s1 now rec1 db1 = (Inr (Execute rec), db')"
    "dispatch_verdict sha p packs0 s0 = []" "\<not> stale_generation p s0"
    "getInFlightByIdempotencyKey db (pr_idempotencyKey p) = None"
    "or_else (getEffectReceipt db (pr_effectId p))
      (getEffectReceiptByIdempotencyKey db (pr_idempotencyKey p)) = None"
    by (auto simp: dispatch_admission_def Let_def
        split: if_splits option.splits prod.splits sum.splits)
  from recheck_steps [OF *(2)] have "rec = rec1" "db' = db1" "dispatch_verdict sha p packs1 s1 = []"
    "\<not> stale_generation p s1" by auto
  with * show ?thesis
    by (fastforce simp: or_else_def split: option.splits)
qed

lemma admission_steps:
  assumes "dispatch_admission sha fk uuid now s0 k0 s1 k1 p db = (out, db')"
  shows "effect_step\<^sup>*\<^sup>* db db'"
proof -
  consider "db' = db"
    | ev res where "putInFlight fk uuid (proposal_put p ev now) db = (res, db')"
    | ev r db1 packs where "putInFlight fk uuid (proposal_put p ev now) db = (Inr r, db1)"
      "recheck_in_flight sha p packs s1 now r db1 = (out, db')"
    using assms by (auto simp: dispatch_admission_def Let_def
        split: if_splits option.splits prod.splits sum.splits)
  then show ?thesis
  proof cases
    case 3
    from step_put [OF 3(1)] recheck_steps [OF 3(2)] show ?thesis
      by (meson converse_rtranclp_into_rtranclp)
  qed (auto intro: step_put)
qed

lemma record_dispatched_steps:
  "record_dispatched r db = (out, db') \<Longrightarrow> effect_step\<^sup>*\<^sup>* db db'"
  by (cases "recordEffectReceipt r db")
    (auto simp: record_dispatched_def intro: step_receipt split: sum.splits)

lemma completion_steps:
  "dispatch_completion p rec uuid now out db = (r, db') \<Longrightarrow> effect_step\<^sup>*\<^sup>* db db'"
  by (cases out; cases "markInFlightUnknown (effectId rec) now db")
    (auto simp: dispatch_completion_def intro: step_unknown dest: record_dispatched_steps
      split: sum.splits)

lemma dispatch_steps: "dispatch_step db l db' \<Longrightarrow> effect_step\<^sup>*\<^sup>* db db'"
  by (induction rule: dispatch_step.induct)
    (auto simp: dispatch_transfer_def dispatch_detached_completion_def
      dest: admission_steps completion_steps record_dispatched_steps split: if_splits)

lemma dispatches_steps: "(\<lambda>x y. \<exists>l. dispatch_step x l y)\<^sup>*\<^sup>* db db' \<Longrightarrow> effect_step\<^sup>*\<^sup>* db db'"
  by (induction rule: rtranclp_induct) (auto dest: dispatch_steps)

lemma put_binds_key:
  assumes "putInFlight fk uuid i db = (Inr rec, db')"
    and "getInFlightByIdempotencyKey db (p_idempotencyKey i) = None" and "p_effectId i = Some e"
  shows "key_effect db (p_idempotencyKey i) = None \<and> key_effect db' (p_idempotencyKey i) = Some e"
proof -
  from assms obtain w where "db' = db\<lparr>in_flight_effects := in_flight_effects db @ [new_in_flight i e w]\<rparr>"
    by (auto simp: putInFlight_def store_in_flight_def Let_def
        split: option.splits if_splits prod.splits sum.splits)
  moreover from assms(2) have "sql_get (\<lambda>r. if_key r = p_idempotencyKey i) (in_flight_effects db) = None"
    by (simp add: getInFlightByIdempotencyKey_def find_effect_key_def)
  ultimately show ?thesis
    by (simp add: key_effect_def find_effect_key_def sql_get_append new_in_flight_def
        del: sql_get_None_iff)
qed

lemma execute_binds_key:
  assumes "dispatch_step db (Some (k, e)) db'"
  shows "key_effect db k = None \<and> key_effect db' k = Some e"
  using assms
proof cases
  case (dispatch_execute sha fk uuid now s0 k0 s1 k1 p rec)
  from admission_execute [OF this(3)] obtain ev where
    "putInFlight fk uuid (proposal_put p ev now) db = (Inr rec, db')"
    "getInFlightByIdempotencyKey db (pr_idempotencyKey p) = None" by blast
  with put_binds_key [OF this(1)] dispatch_execute(1,2) show ?thesis
    by (simp add: proposal_put_def)
qed

section \<open>Properties\<close>

text \<open>
  C1. An effect is executed at most once per idempotency key. Once a dispatch has called
  \<open>execute\<close> for a key, then after any dispatches, completions, fencings, recorded receipts and
  recoveries, no dispatch calls it for that key again, and the key still belongs to the effect of
  the first call.
\<close>

theorem execute_at_most_once:
  assumes "dispatch_step db (Some (k, e)) db1"
    and "(\<lambda>x y. \<exists>l. dispatch_step x l y)\<^sup>*\<^sup>* db1 db2"
  shows "key_effect db2 k = Some e \<and> (\<forall>e' db3. \<not> dispatch_step db2 (Some (k, e')) db3)"
proof -
  from execute_binds_key [OF assms(1)] have "key_effect db1 k = Some e" by simp
  then have "key_effect db2 k = Some e"
    by (rule keys.terminal_forever [OF dispatches_steps [OF assms(2)]]) simp
  with execute_binds_key show ?thesis by fastforce
qed

definition example_proposal :: effect_proposal where
  "example_proposal = \<lparr>pr_effectId = ''e'', pr_cycleId = ''c'', pr_generation = 1,
     pr_idempotencyKey = ''k'', pr_kind = ''web.search'', pr_request = JObj [],
     pr_audienceScope = JUndefined, pr_authorityEpoch = 3, pr_currentness = None,
     pr_originEventId = Some ''ev'', pr_originAttemptId = None\<rparr>"

definition example_snapshot :: dispatch_snapshot where
  "example_snapshot = \<lparr>sn_authorityEpoch = 3, sn_generation = Some 1, sn_packs = None,
     sn_authorityDb = None\<rparr>"

definition example_cycles :: "cycle_row list" where
  "example_cycles = [\<lparr>c_cycle = ''c'', c_conversation = ''v'', c_generation = 1, c_wake = Some ''w'',
     c_trigger = None, c_preempted = None, c_state = ''admitted'', c_trigger_kind = ''owner_message'',
     c_occupant = None, c_authority_epoch = 1, c_architecture = ''v0.2.1'', c_admitted = 0,
     c_updated = 0\<rparr>]"

definition example_admission :: "admission throws \<times> effect_db" where
  "example_admission = dispatch_admission (\<lambda>s. s) (\<lambda>_. True) ''u'' 10 example_snapshot None
     example_snapshot None example_proposal (empty_ledger example_cycles)"

lemma example_executes:
  "dispatch_step (empty_ledger example_cycles) (Some (''k'', ''e'')) (snd example_admission)"
proof -
  have "(case fst example_admission of Inr (Execute rec) \<Rightarrow> True | _ \<Rightarrow> False)"
    by code_simp
  then obtain rec where "fst example_admission = Inr (Execute rec)"
    by (cases "fst example_admission") (auto split: admission.splits)
  then have "dispatch_admission (\<lambda>s. s) (\<lambda>_. True) ''u'' 10 example_snapshot None
      example_snapshot None example_proposal (empty_ledger example_cycles) =
      (Inr (Execute rec), snd example_admission)"
    unfolding example_admission_def by (simp add: prod_eq_iff)
  from dispatch_execute [OF this] show ?thesis
    by (simp add: example_proposal_def)
qed

theorem execute_at_most_once_witness:
  "\<forall>db3. \<not> dispatch_step (snd example_admission) (Some (''k'', ''e2'')) db3"
  using execute_at_most_once [OF example_executes rtranclp.rtrancl_refl] by blast



end
