(* ===== verification/Frontier_Ledger.thy ===== *)
theory Frontier_Ledger
  imports Sql_Tables
begin

text \<open>
  Deferred reactive frontiers, \<^verbatim>\<open>cognitive-v021/frontier/ledger.ts\<close>: turns that wait for
  capacity, one active one per conversation (the partial unique index of \<^verbatim>\<open>sidecar/schema.ts\<close>),
  and the coordinator's decision after a turn, \<^verbatim>\<open>frontier/coordinator.ts\<close>. The table is the list
  of its rows; every time is an argument. The coordinator's calls to other ledgers are returned
  as a list of actions.
\<close>

section \<open>The table\<close>

datatype frontier_state = F_waiting | F_running | F_resolved | F_exhausted

record frontier_row =
  ft_id :: string
  ft_conversation :: string
  ft_cycle :: string
  ft_generation :: int
  ft_state :: frontier_state
  ft_next :: int
  ft_deadline :: int
  ft_evidence :: string
  ft_token :: "string option"
  ft_lease :: "int option"
  ft_attempts :: int
  ft_created :: int
  ft_updated :: int
  ft_reason :: "string option"

definition CAPACITY_WAIT_MAX_DURATION_MS :: int where
  "CAPACITY_WAIT_MAX_DURATION_MS = 120000"

definition f_active :: "frontier_row \<Rightarrow> bool" where
  "f_active r \<longleftrightarrow> ft_state r = F_waiting \<or> ft_state r = F_running"

definition frontier_indexes :: "frontier_row list \<Rightarrow> bool" where
  "frontier_indexes rows \<longleftrightarrow> distinct (map ft_id rows) \<and>
     distinct (map ft_conversation (filter f_active rows))"

text \<open>A record is its row; a row with an empty id reads as \<open>null\<close>.\<close>

definition mapFrontier :: "frontier_row option \<Rightarrow> frontier_row option" where
  "mapFrontier r = (case r of None \<Rightarrow> None | Some f \<Rightarrow> if ft_id f = [] then None else Some f)"

definition getDeferredFrontier :: "frontier_row list \<Rightarrow> string \<Rightarrow> frontier_row option" where
  "getDeferredFrontier rows fid = mapFrontier (sql_get (\<lambda>r. ft_id r = fid) rows)"

definition getActiveDeferredFrontier :: "frontier_row list \<Rightarrow> string \<Rightarrow> frontier_row option" where
  "getActiveDeferredFrontier rows conv =
     mapFrontier (sql_get (\<lambda>r. ft_conversation r = conv \<and> f_active r) rows)"

record frontier_input =
  fi_frontierId :: "string option"
  fi_conversationId :: string
  fi_cycleId :: string
  fi_generation :: int
  fi_nextEligibleAtMs :: int
  fi_latestEvidenceRowId :: string

definition new_frontier :: "frontier_input \<Rightarrow> string \<Rightarrow> int \<Rightarrow> frontier_row" where
  "new_frontier i fid now =
     \<lparr>ft_id = fid, ft_conversation = fi_conversationId i, ft_cycle = fi_cycleId i,
      ft_generation = fi_generation i, ft_state = F_waiting, ft_next = fi_nextEligibleAtMs i,
      ft_deadline = now + CAPACITY_WAIT_MAX_DURATION_MS, ft_evidence = fi_latestEvidenceRowId i,
      ft_token = None, ft_lease = None, ft_attempts = 0, ft_created = now, ft_updated = now,
      ft_reason = None\<rparr>"

definition insertDeferredFrontierRecord ::
  "string \<Rightarrow> frontier_input \<Rightarrow> int \<Rightarrow> frontier_row list \<Rightarrow> frontier_row throws \<times> frontier_row list" where
  "insertDeferredFrontierRecord uuid i now rows =
     (let fid = (case fi_frontierId i of None \<Rightarrow> uuid | Some f \<Rightarrow> f) in
      if fi_nextEligibleAtMs i \<le> now
      then (Inl (''invalid_frontier_schedule:non_forward_hint:'' @
        int_to_string (fi_nextEligibleAtMs i) @ ''<='' @ int_to_string now), rows)
      else let rows1 = rows @ [new_frontier i fid now] in
        if \<not> frontier_indexes rows1 then (Inl ''UNIQUE constraint failed'', rows)
        else (case getDeferredFrontier rows1 fid of
            None \<Rightarrow> (Inl ''frontier_creation_failed'', rows1)
          | Some f \<Rightarrow> (Inr f, rows1)))"

definition f_match :: "string \<Rightarrow> frontier_row \<Rightarrow> bool" where
  "f_match fid r \<longleftrightarrow> ft_id r = fid \<and> f_active r"

definition advanceDeferredFrontierEvidence ::
  "string \<Rightarrow> string \<Rightarrow> int \<Rightarrow> frontier_row list \<Rightarrow> bool \<times> frontier_row list" where
  "advanceDeferredFrontierEvidence fid evidence now rows =
     (sql_changes (f_match fid) rows = 1,
      sql_update (f_match fid) (\<lambda>r. r\<lparr>ft_evidence := evidence, ft_updated := now\<rparr>) rows)"

definition lease_over :: "int \<Rightarrow> frontier_row \<Rightarrow> bool" where
  "lease_over now r \<longleftrightarrow> (case ft_lease r of None \<Rightarrow> False | Some l \<Rightarrow> l \<le> now)"

definition f_due :: "int \<Rightarrow> frontier_row \<Rightarrow> bool" where
  "f_due now r \<longleftrightarrow> ft_state r = F_waiting \<and> ft_next r \<le> now \<or> ft_state r = F_running \<and> lease_over now r"

definition claimDueDeferredFrontier ::
  "string \<Rightarrow> string \<Rightarrow> int \<Rightarrow> int \<Rightarrow> frontier_row list \<Rightarrow>
   (bool \<times> frontier_row option) \<times> frontier_row list" where
  "claimDueDeferredFrontier fid token leaseMs now rows =
     (let match = (\<lambda>r. ft_id r = fid \<and> f_due now r);
          rows1 = sql_update match (\<lambda>r. r\<lparr>ft_state := F_running, ft_token := Some token,
            ft_lease := Some (now + leaseMs), ft_attempts := ft_attempts r + 1,
            ft_updated := now\<rparr>) rows
      in if sql_changes match rows \<noteq> 1 then ((False, None), rows1)
         else ((True, getDeferredFrontier rows1 fid), rows1))"

definition exhaustDeferredFrontier ::
  "string \<Rightarrow> int \<Rightarrow> string option \<Rightarrow> frontier_row list \<Rightarrow> bool \<times> frontier_row list" where
  "exhaustDeferredFrontier fid now reason rows =
     (sql_changes (f_match fid) rows = 1,
      sql_update (f_match fid) (\<lambda>r. r\<lparr>ft_state := F_exhausted, ft_reason := reason,
        ft_token := None, ft_lease := None, ft_updated := now\<rparr>) rows)"

definition resolveDeferredFrontier ::
  "string \<Rightarrow> int \<Rightarrow> frontier_row list \<Rightarrow> bool \<times> frontier_row list" where
  "resolveDeferredFrontier fid now rows =
     (let match = (\<lambda>r. ft_id r = fid \<and> ft_state r = F_running) in
      (sql_changes match rows = 1,
       sql_update match (\<lambda>r. r\<lparr>ft_state := F_resolved, ft_token := None, ft_lease := None,
         ft_updated := now\<rparr>) rows))"

datatype reschedule_outcome = Rescheduled | Exhausted string

fun f_state_name :: "frontier_state \<Rightarrow> string" where
  "f_state_name F_waiting = ''waiting''"
| "f_state_name F_running = ''running''"
| "f_state_name F_resolved = ''resolved''"
| "f_state_name F_exhausted = ''exhausted''"

text \<open>The frontier a result carries is the row with the id, read after the update.\<close>

definition rescheduleDeferredFrontier ::
  "string \<Rightarrow> int \<Rightarrow> int \<Rightarrow> frontier_row list \<Rightarrow> reschedule_outcome throws \<times> frontier_row list" where
  "rescheduleDeferredFrontier fid next now rows =
     (case getDeferredFrontier rows fid of
        None \<Rightarrow> (Inl ''frontier_not_found'', rows)
      | Some current \<Rightarrow>
          if ft_state current \<noteq> F_running \<and> ft_state current \<noteq> F_waiting
          then (Inl (''frontier_reschedule_invalid_state:'' @ f_state_name (ft_state current)), rows)
          else if now \<ge> ft_deadline current \<or> next > ft_deadline current
          then (Inr (Exhausted ''capacity_wait_max_duration_exceeded''), snd
            (exhaustDeferredFrontier fid now (Some ''capacity_wait_max_duration_exceeded'') rows))
          else if next \<le> now
          then (Inr (Exhausted ''non_forward_scheduling_hint''), snd
            (exhaustDeferredFrontier fid now (Some ''non_forward_scheduling_hint'') rows))
          else let rows1 = sql_update (f_match fid) (\<lambda>r. r\<lparr>ft_state := F_waiting, ft_next := next,
                 ft_token := None, ft_lease := None, ft_updated := now\<rparr>) rows
            in if sql_changes (f_match fid) rows \<noteq> 1 then (Inl ''frontier_reschedule_lost'', rows1)
               else (Inr Rescheduled, rows1))"

definition listDueDeferredFrontiers :: "int \<Rightarrow> frontier_row list \<Rightarrow> frontier_row list" where
  "listDueDeferredFrontiers now rows = filter (\<lambda>r. ft_id r \<noteq> [])
     (sort_key ft_next (sort_key ft_created (filter (f_due now) rows)))"

definition getNextDueFrontierDelayMs :: "int \<Rightarrow> frontier_row list \<Rightarrow> int option" where
  "getNextDueFrontierDelayMs now rows =
     (case map ft_next (filter (\<lambda>r. ft_state r = F_waiting) rows) of
        [] \<Rightarrow> None
      | t # ts \<Rightarrow> Some (max 0 (fold min ts t - now)))"

section \<open>The coordinator's decision after a turn\<close>

datatype turn_result = Turn_published | Turn_deferred "int option" | Turn_not_deferred | Turn_threw

datatype coordinator_action =
  Cycle_silent string | Expire_wake string | Record_c3_failure string | Settle_reservation string

definition CLAIM_LEASE_MS :: int where "CLAIM_LEASE_MS = 30000"

text \<open>
  What follows \<open>runLiveCognitiveTurn\<close> for a claimed frontier. Rescheduling may throw, which the
  enclosing \<open>catch\<close> turns into an exhaustion.
\<close>

definition exhaust_and_settle ::
  "frontier_row \<Rightarrow> int \<Rightarrow> frontier_row list \<Rightarrow> frontier_row list \<times> coordinator_action list" where
  "exhaust_and_settle f now rows =
     (snd (exhaustDeferredFrontier (ft_id f) now None rows), [Settle_reservation (ft_conversation f)])"

definition settle_turn ::
  "frontier_row \<Rightarrow> turn_result \<Rightarrow> int \<Rightarrow> frontier_row list \<Rightarrow>
   frontier_row list \<times> coordinator_action list" where
  "settle_turn f result now rows =
     (case result of
        Turn_published \<Rightarrow> (snd (resolveDeferredFrontier (ft_id f) now rows), [])
      | Turn_deferred (Some next) \<Rightarrow>
          (case rescheduleDeferredFrontier (ft_id f) next now rows of
             (Inl err, rows1) \<Rightarrow> exhaust_and_settle f now rows1
           | (Inr Rescheduled, rows1) \<Rightarrow> (rows1, [])
           | (Inr (Exhausted reason), rows1) \<Rightarrow>
               (rows1, [Cycle_silent (ft_cycle f)] @
                 (if reason = ''capacity_wait_max_duration_exceeded''
                  then [Expire_wake (ft_cycle f), Record_c3_failure (ft_id f)] else []) @
                 [Settle_reservation (ft_conversation f)]))
      | Turn_deferred None \<Rightarrow> (rows, [])
      | Turn_not_deferred \<Rightarrow> exhaust_and_settle f now rows
      | Turn_threw \<Rightarrow> exhaust_and_settle f now rows)"

text \<open>The claim of a due frontier and the refusal of one whose cycle is over.\<close>

definition claim_for_turn ::
  "(string \<Rightarrow> string option) \<Rightarrow> string \<Rightarrow> frontier_row \<Rightarrow> int \<Rightarrow> frontier_row list \<Rightarrow>
   frontier_row option \<times> frontier_row list \<times> coordinator_action list" where
  "claim_for_turn cycleState workerId due now rows =
     (case claimDueDeferredFrontier (ft_id due) workerId CLAIM_LEASE_MS now rows of
        ((True, Some f), rows1) \<Rightarrow>
          if List.member [None, Some ''silent'', Some ''idle'', Some ''sending''] (cycleState (ft_cycle f))
          then let (rows2, acts) = exhaust_and_settle f now rows1 in (None, rows2, acts)
          else (Some f, rows1, [])
      | (_, rows1) \<Rightarrow> (None, rows1, []))"

end
