(* ===== verification/Frontier_Lifecycle.thy ===== *)
theory Frontier_Lifecycle
  imports Frontier_Ledger Transition_Systems
begin

text \<open>
  What the frontier table guarantees: at most one active frontier per conversation, a claim
  token and a lease exactly while running, a capacity deadline fixed at creation, terminal rows
  final, a lease that excludes other workers until it runs out, and that every turn's end but a
  deferral without a time settles its frontier.
\<close>

section \<open>Steps\<close>

inductive frontier_step :: "frontier_row list \<Rightarrow> frontier_row list \<Rightarrow> bool" where
  step_insert: "insertDeferredFrontierRecord uuid i now rows = (res, rows') \<Longrightarrow> frontier_step rows rows'"
| step_evidence: "advanceDeferredFrontierEvidence fid ev now rows = (b, rows') \<Longrightarrow> frontier_step rows rows'"
| step_claim: "claimDueDeferredFrontier fid token leaseMs now rows = (c, rows') \<Longrightarrow> frontier_step rows rows'"
| step_exhaust: "exhaustDeferredFrontier fid now reason rows = (b, rows') \<Longrightarrow> frontier_step rows rows'"
| step_resolve: "resolveDeferredFrontier fid now rows = (b, rows') \<Longrightarrow> frontier_step rows rows'"
| step_reschedule: "rescheduleDeferredFrontier fid next now rows = (r, rows') \<Longrightarrow> frontier_step rows rows'"

text \<open>Every step appends a fresh waiting row or row_moves rows as one of these moves.\<close>

inductive f_move :: "frontier_row \<Rightarrow> frontier_row \<Rightarrow> bool" where
  move_evidence: "f_active r \<Longrightarrow> f_move r (r\<lparr>ft_evidence := e, ft_updated := n\<rparr>)"
| move_claim: "f_due n r \<Longrightarrow> f_move r (r\<lparr>ft_state := F_running, ft_token := Some t,
     ft_lease := Some l, ft_attempts := ft_attempts r + 1, ft_updated := n\<rparr>)"
| move_exhaust: "f_active r \<Longrightarrow> f_move r (r\<lparr>ft_state := F_exhausted, ft_reason := x,
     ft_token := None, ft_lease := None, ft_updated := n\<rparr>)"
| move_resolve: "ft_state r = F_running \<Longrightarrow> f_move r (r\<lparr>ft_state := F_resolved, ft_token := None,
     ft_lease := None, ft_updated := n\<rparr>)"
| move_wait: "f_active r \<Longrightarrow> m < ft_deadline r \<Longrightarrow> m < t \<Longrightarrow> t \<le> ft_deadline r \<Longrightarrow>
     f_move r (r\<lparr>ft_state := F_waiting, ft_next := t, ft_token := None, ft_lease := None, ft_updated := n\<rparr>)"

inductive_cases f_move_cases: "f_move r r'"

abbreviation row_moves :: "frontier_row list \<Rightarrow> frontier_row list \<Rightarrow> bool" where
  "row_moves \<equiv> rows_move f_move"

lemma f_match_active: "f_match fid r \<Longrightarrow> f_active r"
  by (simp add: f_match_def)

lemma f_move_facts:
  "f_move r r' \<Longrightarrow> ft_id r' = ft_id r \<and> ft_conversation r' = ft_conversation r \<and>
     ft_deadline r' = ft_deadline r \<and> ft_created r' = ft_created r \<and> f_active r \<and>
     ft_attempts r \<le> ft_attempts r'"
  by (induction rule: f_move.induct) (auto simp: f_active_def f_due_def)

lemma reschedule_shape:
  assumes "rescheduleDeferredFrontier fid next now rows = (res, rows')" and "distinct (map ft_id rows)"
  shows "row_moves rows rows'"
proof (cases "getDeferredFrontier rows fid")
  case (Some c)
  then have c: "c \<in> set rows" "ft_id c = fid"
    by (auto simp: getDeferredFrontier_def mapFrontier_def split: option.splits if_splits
        dest: sql_get_SomeD)
  have only: "r = c" if "r \<in> set rows" "f_match fid r" for r
    using that c assms(2) by (auto simp: f_match_def distinct_map inj_on_def)
  consider "rows' = rows" | x where "rows' = snd (exhaustDeferredFrontier fid now x rows)"
    | "now < ft_deadline c" "now < next" "next \<le> ft_deadline c"
      "rows' = sql_update (f_match fid) (\<lambda>r. r\<lparr>ft_state := F_waiting, ft_next := next,
        ft_token := None, ft_lease := None, ft_updated := now\<rparr>) rows"
    using assms(1) Some
    by (auto simp: rescheduleDeferredFrontier_def Let_def split: if_splits)
  then show ?thesis
  proof cases
    case 2
    then show ?thesis
      by (auto simp: exhaustDeferredFrontier_def intro!: rows_move_update move_exhaust dest: f_match_active)
  next
    case 3
    show ?thesis
      unfolding 3(4)
    proof (rule rows_move_update)
      fix r assume r: "r \<in> set rows" "f_match fid r"
      with only have "r = c" by blast
      with r(2) 3 show "f_move r (r\<lparr>ft_state := F_waiting, ft_next := next, ft_token := None,
          ft_lease := None, ft_updated := now\<rparr>)"
        by (intro move_wait) (auto dest: f_match_active)
    qed
  qed simp
qed (use assms(1) in \<open>simp add: rescheduleDeferredFrontier_def\<close>)

lemma step_shape:
  assumes "frontier_step rows rows'" and "distinct (map ft_id rows)"
  shows "row_moves rows rows' \<or>
    (\<exists>i fid n. rows' = rows @ [new_frontier i fid n] \<and> frontier_indexes rows' \<and> n < fi_nextEligibleAtMs i)"
  using assms(1)
proof cases
  case (step_insert uuid i now res)
  define fid where "fid = (case fi_frontierId i of None \<Rightarrow> uuid | Some f \<Rightarrow> f)"
  from step_insert have "rows' = rows \<or>
      rows' = rows @ [new_frontier i fid now] \<and> frontier_indexes rows' \<and> now < fi_nextEligibleAtMs i"
    by (auto simp: insertDeferredFrontierRecord_def Let_def fid_def [symmetric]
        split: if_splits option.splits)
  then show ?thesis by auto
next
  case (step_evidence fid ev now b)
  then show ?thesis
    by (auto simp: advanceDeferredFrontierEvidence_def intro!: rows_move_update move_evidence
        dest: f_match_active)
next
  case (step_claim fid token leaseMs now c)
  then show ?thesis
    by (auto simp: claimDueDeferredFrontier_def Let_def intro!: rows_move_update move_claim split: if_splits)
next
  case (step_exhaust fid now reason b)
  then show ?thesis
    by (auto simp: exhaustDeferredFrontier_def intro!: rows_move_update move_exhaust dest: f_match_active)
next
  case (step_resolve fid now b)
  then show ?thesis
    by (auto simp: resolveDeferredFrontier_def Let_def intro!: rows_move_update move_resolve)
next
  case (step_reschedule fid nxt now r)
  from reschedule_shape [OF this assms(2)] show ?thesis by simp
qed

section \<open>The invariant\<close>

definition frontier_row_ok :: "frontier_row \<Rightarrow> bool" where
  "frontier_row_ok r \<longleftrightarrow> (ft_token r = None) = (ft_state r \<noteq> F_running) \<and>
     (ft_lease r = None) = (ft_state r \<noteq> F_running) \<and>
     ft_deadline r = ft_created r + CAPACITY_WAIT_MAX_DURATION_MS"

definition frontier_inv :: "frontier_row list \<Rightarrow> bool" where
  "frontier_inv rows \<longleftrightarrow> frontier_indexes rows \<and> (\<forall>r \<in> set rows. frontier_row_ok r)"

lemma move_row_ok: "f_move r r' \<Longrightarrow> frontier_row_ok r \<Longrightarrow> frontier_row_ok r'"
  by (induction rule: f_move.induct) (auto simp: frontier_row_ok_def f_due_def)

lemma row_moves_inv:
  assumes "row_moves rows rows'" and "frontier_inv rows"
  shows "frontier_inv rows'"
proof -
  have "map ft_id rows' = map ft_id rows"
    using assms(1) by (rule rows_move_key) (auto dest: f_move_facts)
  moreover have "distinct (map ft_conversation (filter f_active rows'))"
    using assms(1) by (rule rows_move_partial_unique)
      (use assms(2) in \<open>auto simp: frontier_inv_def frontier_indexes_def dest: f_move_facts\<close>)
  moreover have "\<forall>r \<in> set rows'. frontier_row_ok r"
    using assms(1) by (rule rows_move_all)
      (use assms(2) in \<open>auto simp: frontier_inv_def intro: move_row_ok\<close>)
  ultimately show ?thesis
    using assms(2) by (simp add: frontier_inv_def frontier_indexes_def)
qed

lemma new_row_ok: "frontier_row_ok (new_frontier i fid now)"
  by (simp add: frontier_row_ok_def new_frontier_def)

lemma step_frontier_inv:
  assumes "frontier_inv rows" and "frontier_step rows rows'"
  shows "frontier_inv rows'"
proof -
  have "distinct (map ft_id rows)"
    using assms(1) by (simp add: frontier_inv_def frontier_indexes_def)
  from step_shape [OF assms(2) this] show ?thesis
  proof
    assume "\<exists>i fid n. rows' = rows @ [new_frontier i fid n] \<and> frontier_indexes rows' \<and>
      n < fi_nextEligibleAtMs i"
    with assms(1) show ?thesis
      by (auto simp: frontier_inv_def new_row_ok)
  qed (use assms(1) row_moves_inv in blast)
qed

interpretation frontiers: preserved frontier_step frontier_inv
  by unfold_locales (rule step_frontier_inv)

section \<open>Terminal rows\<close>

definition frontier_status :: "frontier_row list \<Rightarrow> string \<Rightarrow> frontier_row option" where
  "frontier_status rows fid = sql_get (\<lambda>r. ft_id r = fid) rows"

lemma row_moves_status:
  "row_moves rows rows' \<Longrightarrow> frontier_status rows fid = Some r \<Longrightarrow>
     \<exists>r'. frontier_status rows' fid = Some r' \<and> (r' = r \<or> f_move r r')"
  unfolding frontier_status_def by (rule rows_move_get) (auto dest: f_move_facts)

lemma step_frontier_status:
  assumes "frontier_step rows rows'" and "frontier_inv rows" and "frontier_status rows fid = Some r"
  shows "\<exists>r'. frontier_status rows' fid = Some r' \<and> (r' = r \<or> f_move r r')"
proof -
  have "distinct (map ft_id rows)"
    using assms(2) by (simp add: frontier_inv_def frontier_indexes_def)
  from step_shape [OF assms(1) this] show ?thesis
    using row_moves_status [OF _ assms(3)] assms(3)
    by (auto simp: frontier_status_def sql_get_append)
qed

text \<open>The steps from the tables that satisfy the invariant.\<close>

definition inv_step :: "frontier_row list \<Rightarrow> frontier_row list \<Rightarrow> bool" where
  "inv_step rows rows' \<longleftrightarrow> frontier_inv rows \<and> frontier_step rows rows'"

interpretation frontier_rows: record_lifecycle inv_step frontier_status f_move
  by unfold_locales (auto simp: inv_step_def dest!: step_frontier_status intro: r_into_rtranclp)

lemma steps_inv_steps: "frontier_step\<^sup>*\<^sup>* rows rows' \<Longrightarrow> frontier_inv rows \<Longrightarrow> inv_step\<^sup>*\<^sup>* rows rows'"
proof (induction rule: rtranclp_induct)
  case (step rows1 rows2)
  then show ?case
    using frontiers.steps_inv [of rows rows1] by (metis inv_step_def rtranclp.rtrancl_into_rtrancl)
qed simp

lemma terminal_no_move: "\<not> f_active r \<Longrightarrow> \<not> f_move r r'"
  using f_move_facts by blast

section \<open>One row by its id\<close>

lemma inv_unique:
  "frontier_inv rows \<Longrightarrow> r \<in> set rows \<Longrightarrow> r' \<in> set rows \<Longrightarrow> ft_id r' = ft_id r \<Longrightarrow> r' = r"
  by (auto simp: frontier_inv_def frontier_indexes_def distinct_map inj_on_def)

lemma inv_get:
  assumes "frontier_inv rows" and "r \<in> set rows"
  shows "frontier_status rows (ft_id r) = Some r"
  using assms unfolding frontier_status_def frontier_inv_def frontier_indexes_def
  by (intro sql_get_key) auto

lemma get_frontier:
  "frontier_status rows fid = Some r \<Longrightarrow> ft_id r \<noteq> [] \<Longrightarrow> getDeferredFrontier rows fid = Some r"
  by (simp add: frontier_status_def getDeferredFrontier_def mapFrontier_def)

lemma status_id: "frontier_status rows fid = Some r \<Longrightarrow> ft_id r = fid \<and> r \<in> set rows"
  unfolding frontier_status_def by (auto dest: sql_get_SomeD)

lemma changes_one:
  assumes "frontier_inv rows" and "frontier_status rows fid = Some r"
  shows "sql_changes (\<lambda>x. ft_id x = fid \<and> Q x) rows = (if Q r then 1 else 0)"
  using sql_changes_key [of ft_id rows fid Q] assms
  by (simp add: frontier_inv_def frontier_indexes_def frontier_status_def)

lemma status_update:
  assumes "frontier_status rows fid = Some r" and "\<And>x. ft_id (f x) = ft_id x"
  shows "frontier_status (sql_update (\<lambda>x. ft_id x = fid \<and> Q x) f rows) fid = Some (if Q r then f r else r)"
  using assms sql_get_update [of "\<lambda>x. ft_id x = fid \<and> Q x" ft_id f fid rows] status_id [OF assms(1)]
  by (simp add: frontier_status_def)

lemma f_match_eq: "f_match fid = (\<lambda>x. ft_id x = fid \<and> f_active x)"
  by (simp add: f_match_def fun_eq_iff)

lemma exhaust_status:
  assumes "frontier_status rows fid = Some r" and "f_active r"
  shows "frontier_status (snd (exhaustDeferredFrontier fid now x rows)) fid =
    Some (r\<lparr>ft_state := F_exhausted, ft_reason := x, ft_token := None, ft_lease := None, ft_updated := now\<rparr>)"
  using status_update [OF assms(1), of "\<lambda>r. r\<lparr>ft_state := F_exhausted, ft_reason := x,
      ft_token := None, ft_lease := None, ft_updated := now\<rparr>" f_active] assms(2)
  by (simp add: exhaustDeferredFrontier_def f_match_eq)

lemma resolve_status:
  assumes "frontier_status rows fid = Some r" and "ft_state r = F_running"
  shows "frontier_status (snd (resolveDeferredFrontier fid now rows)) fid =
    Some (r\<lparr>ft_state := F_resolved, ft_token := None, ft_lease := None, ft_updated := now\<rparr>)"
  using status_update [OF assms(1), of "\<lambda>r. r\<lparr>ft_state := F_resolved, ft_token := None,
      ft_lease := None, ft_updated := now\<rparr>" "\<lambda>r. ft_state r = F_running"] assms(2)
  by (simp add: resolveDeferredFrontier_def Let_def)

definition exhausted_row :: "string option \<Rightarrow> int \<Rightarrow> frontier_row \<Rightarrow> frontier_row" where
  "exhausted_row x now r = r\<lparr>ft_state := F_exhausted, ft_reason := x, ft_token := None,
     ft_lease := None, ft_updated := now\<rparr>"

lemma reschedule_exact:
  assumes "frontier_inv rows" and "frontier_status rows fid = Some r" and "fid \<noteq> []" and "f_active r"
  shows "case rescheduleDeferredFrontier fid t now rows of (res, rows') \<Rightarrow>
    if now < t \<and> t \<le> ft_deadline r
    then res = Inr Rescheduled \<and> frontier_status rows' fid = Some (r\<lparr>ft_state := F_waiting,
      ft_next := t, ft_token := None, ft_lease := None, ft_updated := now\<rparr>)
    else if now < ft_deadline r \<and> t \<le> now
    then res = Inr (Exhausted ''non_forward_scheduling_hint'') \<and> frontier_status rows' fid =
      Some (exhausted_row (Some ''non_forward_scheduling_hint'') now r)
    else res = Inr (Exhausted ''capacity_wait_max_duration_exceeded'') \<and> frontier_status rows' fid =
      Some (exhausted_row (Some ''capacity_wait_max_duration_exceeded'') now r)"
proof -
  have get: "getDeferredFrontier rows fid = Some r"
    using assms(2,3) status_id [OF assms(2)] by (intro get_frontier) auto
  have active: "\<not> (ft_state r \<noteq> F_running \<and> ft_state r \<noteq> F_waiting)"
    using assms(4) by (auto simp: f_active_def)
  have changes: "sql_changes (f_match fid) rows = 1"
    using changes_one [OF assms(1,2), of f_active] assms(4) by (simp add: f_match_eq)
  note waits = status_update [OF assms(2), of "\<lambda>r. r\<lparr>ft_state := F_waiting, ft_next := t,
    ft_token := None, ft_lease := None, ft_updated := now\<rparr>" f_active]
  show ?thesis
    using active assms(4) waits exhaust_status [OF assms(2,4)] changes
    by (auto simp: rescheduleDeferredFrontier_def get Let_def f_match_eq exhausted_row_def)
qed

section \<open>Claims\<close>

definition claimed_row :: "string \<Rightarrow> int \<Rightarrow> int \<Rightarrow> frontier_row \<Rightarrow> frontier_row" where
  "claimed_row t l n r = r\<lparr>ft_state := F_running, ft_token := Some t, ft_lease := Some (n + l),
     ft_attempts := ft_attempts r + 1, ft_updated := n\<rparr>"

lemma claimed_row_simps [simp]:
  "ft_id (claimed_row t l n r) = ft_id r"
  "ft_token (claimed_row t l n r) = Some t"
  "ft_attempts (claimed_row t l n r) = ft_attempts r + 1"
  "ft_state (claimed_row t l n r) = F_running"
  by (simp_all add: claimed_row_def)

lemma due_claimed [simp]: "f_due m (claimed_row t l n r) \<longleftrightarrow> n + l \<le> m"
  by (simp add: f_due_def claimed_row_def lease_over_def)

lemma claim_unfold:
  "claimDueDeferredFrontier fid t l n rows =
     (let m = (\<lambda>r. ft_id r = fid \<and> f_due n r); rows1 = sql_update m (claimed_row t l n) rows in
      if sql_changes m rows \<noteq> 1 then ((False, None), rows1)
      else ((True, getDeferredFrontier rows1 fid), rows1))"
  by (simp add: claimDueDeferredFrontier_def claimed_row_def [abs_def] Let_def)

lemma claim_due:
  assumes "frontier_inv rows" and "frontier_status rows fid = Some r" and "fid \<noteq> []" and "f_due n r"
  shows "fst (claimDueDeferredFrontier fid t l n rows) = (True, Some (claimed_row t l n r))"
proof -
  have "ft_id r = fid" using status_id [OF assms(2)] by simp
  then show ?thesis
    using changes_one [OF assms(1,2), of "f_due n"] assms(3,4)
      status_update [OF assms(2), of "claimed_row t l n" "f_due n"]
      get_frontier [of _ fid "claimed_row t l n r"]
    by (simp add: claim_unfold Let_def)
qed

lemma claim_not_due:
  assumes "frontier_inv rows" and "frontier_status rows fid = Some r" and "\<not> f_due n r"
  shows "claimDueDeferredFrontier fid t l n rows = ((False, None), rows)"
proof -
  have zero: "sql_changes (\<lambda>x. ft_id x = fid \<and> f_due n x) rows = 0"
    using changes_one [OF assms(1,2), of "f_due n"] assms(3) by (simp del: sql_changes_0)
  moreover have "sql_update (\<lambda>x. ft_id x = fid \<and> f_due n x) g rows = rows" for g
    using zero [unfolded sql_changes_0] unfolding sql_update_def by (intro map_idI) auto
  ultimately show ?thesis by (simp add: claim_unfold Let_def del: sql_changes_0)
qed

lemma claim_won:
  assumes "frontier_inv rows" and "fid \<noteq> []"
    and "claimDueDeferredFrontier fid t l n rows = ((True, Some f), rows1)"
  shows "\<exists>r. f = claimed_row t l n r \<and> frontier_status rows1 fid = Some f"
proof -
  have one: "sql_changes (\<lambda>r. ft_id r = fid \<and> f_due n r) rows = 1"
    and rows1: "rows1 = sql_update (\<lambda>r. ft_id r = fid \<and> f_due n r) (claimed_row t l n) rows"
    using assms(3) by (auto simp: claim_unfold Let_def split: if_splits)
  have "\<exists>r. frontier_status rows fid = Some r \<and> f_due n r"
  proof (cases "frontier_status rows fid")
    case None
    then show ?thesis
      using one sql_changes_key [of ft_id rows fid "f_due n"] assms(1)
      by (simp add: frontier_inv_def frontier_indexes_def frontier_status_def del: sql_get_None_iff)
  next
    case (Some r)
    have "f_due n r"
      using one changes_one [OF assms(1) Some, of "f_due n"] by (metis zero_neq_one)
    with Some show ?thesis by blast
  qed
  then obtain r where r: "frontier_status rows fid = Some r" "f_due n r" by blast
  have "f = claimed_row t l n r"
    using claim_due [OF assms(1) r(1) assms(2) r(2), of t l] assms(3) by simp
  moreover have "frontier_status rows1 fid = Some (claimed_row t l n r)"
    unfolding rows1 using status_update [OF r(1), of "claimed_row t l n" "f_due n"] r(2) by simp
  ultimately show ?thesis by blast
qed

section \<open>Properties\<close>

text \<open>
  C33. In every table the frontier operations can build from the empty one, ids are unique, a
  conversation has at most one waiting or running frontier, a row carries a claim token and a
  lease exactly while it is running, and its capacity deadline is 120 seconds after its creation.
\<close>

theorem frontier_reachable_inv:
  assumes "frontier_step\<^sup>*\<^sup>* [] rows"
  shows "distinct (map ft_id rows) \<and> distinct (map ft_conversation (filter f_active rows)) \<and>
    (\<forall>r \<in> set rows. (ft_token r \<noteq> None) = (ft_state r = F_running) \<and>
      (ft_lease r \<noteq> None) = (ft_state r = F_running) \<and> ft_deadline r = ft_created r + 120000)"
proof -
  have "frontier_inv []"
    by (simp add: frontier_inv_def frontier_indexes_def)
  with frontiers.steps_inv [OF assms] have "frontier_inv rows" .
  then show ?thesis
    by (auto simp: frontier_inv_def frontier_indexes_def frontier_row_ok_def
        CAPACITY_WAIT_MAX_DURATION_MS_def)
qed

text \<open>A frontier that waits until 1000, claimed at 1000.\<close>

definition sample_input :: frontier_input where
  "sample_input = \<lparr>fi_frontierId = Some ''f'', fi_conversationId = ''c'', fi_cycleId = ''y'',
     fi_generation = 1, fi_nextEligibleAtMs = 1000, fi_latestEvidenceRowId = ''e''\<rparr>"

definition sample_waiting :: "frontier_row list" where
  "sample_waiting = snd (insertDeferredFrontierRecord [] sample_input 0 [])"

definition sample_running :: "frontier_row list" where
  "sample_running = snd (claimDueDeferredFrontier ''f'' ''w'' CLAIM_LEASE_MS 1000 sample_waiting)"

lemma sample_reach: "frontier_step\<^sup>*\<^sup>* [] sample_running"
proof -
  have "frontier_step [] sample_waiting"
    unfolding sample_waiting_def by (rule step_insert) (rule prod.collapse [symmetric])
  moreover have "frontier_step sample_waiting sample_running"
    unfolding sample_running_def by (rule step_claim) (rule prod.collapse [symmetric])
  ultimately show ?thesis by (rule converse_rtranclp_into_rtranclp [OF _ r_into_rtranclp])
qed

lemma sample_inv: "frontier_inv sample_running" "frontier_inv sample_waiting"
  by code_simp+

theorem frontier_reachable_inv_witness:
  "distinct (map ft_id sample_running) \<and>
   filter (\<lambda>r. (ft_lease r \<noteq> None) \<noteq> (ft_state r = F_running)) sample_running = []"
  unfolding filter_empty_conv using frontier_reachable_inv [OF sample_reach] by blast

text \<open>
  A resolved or exhausted frontier of a table the operations built stays in the table as it
  is, field by field, whatever operations follow.
\<close>

theorem frontier_terminal_final:
  assumes "frontier_step\<^sup>*\<^sup>* [] rows" and "frontier_step\<^sup>*\<^sup>* rows rows'"
    and "r \<in> set rows" and "ft_state r = F_resolved \<or> ft_state r = F_exhausted"
  shows "r \<in> set rows'"
proof -
  have "frontier_inv []"
    by (simp add: frontier_inv_def frontier_indexes_def)
  with frontiers.steps_inv [OF assms(1)] have inv: "frontier_inv rows" .
  have "\<not> f_move r x" for x
    using assms(4) by (intro terminal_no_move) (auto simp: f_active_def)
  then have "frontier_status rows' (ft_id r) = Some r"
    using frontier_rows.terminal_forever [OF steps_inv_steps [OF assms(2) inv] inv_get [OF inv assms(3)]]
    by blast
  then show ?thesis by (simp add: status_id)
qed

theorem frontier_terminal_final_witness:
  "\<exists>r \<in> set (snd (resolveDeferredFrontier ''f'' 1001 sample_running)).
     r \<in> set (snd (claimDueDeferredFrontier ''f'' ''other'' 1 5000
       (snd (resolveDeferredFrontier ''f'' 1001 sample_running))))"
proof -
  let ?rows = "snd (resolveDeferredFrontier ''f'' 1001 sample_running)"
  have reach: "frontier_step\<^sup>*\<^sup>* [] ?rows"
    using sample_reach step_resolve [OF prod.collapse [symmetric]] by (rule rtranclp.rtrancl_into_rtrancl)
  have step: "frontier_step\<^sup>*\<^sup>* ?rows (snd (claimDueDeferredFrontier ''f'' ''other'' 1 5000 ?rows))"
    by (intro r_into_rtranclp step_claim [OF prod.collapse [symmetric]])
  have "list_ex (\<lambda>r. ft_state r = F_resolved) ?rows" by code_simp
  then obtain r where "r \<in> set ?rows" "ft_state r = F_resolved" by (auto simp: list_ex_iff)
  with frontier_terminal_final [OF reach step this(1)] show ?thesis by blast
qed

text \<open>
  C27. Once a worker has claimed a frontier with a lease, every other claim before the lease runs
  out is refused and changes nothing, whatever token it carries; from then on the next claim
  takes the frontier over and counts one more attempt.
\<close>

theorem claim_excludes_until_lease_over:
  assumes "frontier_inv rows" and "fid \<noteq> []"
    and "claimDueDeferredFrontier fid token leaseMs now rows = ((True, Some f), rows1)"
  shows "(now' < now + leaseMs \<longrightarrow>
      claimDueDeferredFrontier fid token' leaseMs' now' rows1 = ((False, None), rows1)) \<and>
    (now + leaseMs \<le> now' \<longrightarrow> (\<exists>g. fst (claimDueDeferredFrontier fid token' leaseMs' now' rows1) = (True, Some g) \<and>
      ft_token g = Some token' \<and> ft_attempts g = ft_attempts f + 1))"
proof -
  obtain r where f: "f = claimed_row token leaseMs now r" and st: "frontier_status rows1 fid = Some f"
    using claim_won [OF assms] by blast
  have inv: "frontier_inv rows1"
    using step_frontier_inv [OF assms(1) step_claim [OF assms(3)]] .
  show ?thesis
    using claim_not_due [OF inv st, of now'] claim_due [OF inv st assms(2), of now'] by (auto simp: f)
qed

theorem claim_excludes_until_lease_over_witness:
  "fst (claimDueDeferredFrontier ''f'' ''late'' 5 30999 sample_running) = (False, None) \<and>
   (\<exists>g. fst (claimDueDeferredFrontier ''f'' ''late'' 5 31000 sample_running) = (True, Some g) \<and> ft_attempts g = 2)"
proof -
  obtain x where x: "claimDueDeferredFrontier ''f'' ''w'' CLAIM_LEASE_MS 1000 sample_waiting = (x, sample_running)"
    by (metis prod.collapse sample_running_def)
  have "(case fst (claimDueDeferredFrontier ''f'' ''w'' CLAIM_LEASE_MS 1000 sample_waiting) of
      (b, Some f) \<Rightarrow> b \<and> ft_attempts f = 1 | (b, None) \<Rightarrow> False)"
    by code_simp
  then obtain f where f: "claimDueDeferredFrontier ''f'' ''w'' CLAIM_LEASE_MS 1000 sample_waiting =
      ((True, Some f), sample_running)" "ft_attempts f = 1"
    using x by (auto split: prod.splits option.splits)
  show ?thesis
    using claim_excludes_until_lease_over [OF sample_inv(2) _ f(1), of 30999 "''late''" 5]
      claim_excludes_until_lease_over [OF sample_inv(2) _ f(1), of 31000 "''late''" 5] f(2)
    by (auto simp: CLAIM_LEASE_MS_def)
qed

text \<open>
  When a claimed frontier's turn ends, published, deferred to a time, not deferred or with an
  exception, the frontier stops running: a published turn resolves it; a deferral to a time after
  now and not after the capacity deadline makes it wait until then; everything else exhausts it
  and settles the reservation, with the wake expired and a failure recorded exactly when the
  deferral ran past the deadline.
\<close>

theorem turn_settles_frontier:
  assumes "frontier_inv rows" and "frontier_status rows fid = Some f" and "fid \<noteq> []"
    and "ft_state f = F_running" and "result \<noteq> Turn_deferred None"
    and "settle_turn f result now rows = (rows', acts)"
  shows "\<exists>g. frontier_status rows' fid = Some g \<and>
    (case result of
       Turn_published \<Rightarrow> ft_state g = F_resolved \<and> acts = []
     | Turn_deferred (Some t) \<Rightarrow>
         if now < t \<and> t \<le> ft_deadline f then ft_state g = F_waiting \<and> ft_next g = t \<and> acts = []
         else ft_state g = F_exhausted \<and> Settle_reservation (ft_conversation f) \<in> set acts \<and>
           (Expire_wake (ft_cycle f) \<in> set acts) = (ft_deadline f \<le> now \<or> ft_deadline f < t) \<and>
           (Record_c3_failure fid \<in> set acts) = (ft_deadline f \<le> now \<or> ft_deadline f < t)
     | _ \<Rightarrow> ft_state g = F_exhausted \<and> acts = [Settle_reservation (ft_conversation f)])"
proof -
  have id: "ft_id f = fid" and act: "f_active f"
    using status_id [OF assms(2)] assms(4) by (simp_all add: f_active_def)
  note exhaust = exhaust_status [OF assms(2) act]
  show ?thesis
  proof (cases result)
    case Turn_published
    with assms(6) resolve_status [OF assms(2,4)] show ?thesis
      by (auto simp: settle_turn_def id)
  next
    case (Turn_deferred w)
    then obtain t where t: "result = Turn_deferred (Some t)" using assms(5) by auto
    obtain res rows1 where r: "rescheduleDeferredFrontier fid t now rows = (res, rows1)"
      by (metis prod.collapse)
    note exact = reschedule_exact [OF assms(1-3) act, where t = t and now = now, unfolded r prod.case]
    have turn: "(rows', acts) = (case res of Inl err \<Rightarrow> exhaust_and_settle f now rows1
        | Inr Rescheduled \<Rightarrow> (rows1, [])
        | Inr (Exhausted reason) \<Rightarrow> (rows1, [Cycle_silent (ft_cycle f)] @
            (if reason = ''capacity_wait_max_duration_exceeded''
             then [Expire_wake (ft_cycle f), Record_c3_failure (ft_id f)] else []) @
            [Settle_reservation (ft_conversation f)]))"
      using assms(6) by (simp add: t settle_turn_def id r split: sum.splits reschedule_outcome.splits)
    consider "now < t \<and> t \<le> ft_deadline f" | "t \<le> now \<and> now < ft_deadline f"
      | "ft_deadline f \<le> now \<or> ft_deadline f < t" by linarith
    then show ?thesis
      using exact turn by cases (auto simp: t id exhausted_row_def)
  next
    case Turn_not_deferred
    with assms(6) exhaust show ?thesis
      by (auto simp: settle_turn_def exhaust_and_settle_def id)
  next
    case Turn_threw
    with assms(6) exhaust show ?thesis
      by (auto simp: settle_turn_def exhaust_and_settle_def id)
  qed
qed

theorem turn_settles_frontier_witness:
  "\<exists>f g. frontier_status sample_running ''f'' = Some f \<and>
     frontier_status (fst (settle_turn f (Turn_deferred (Some 5000)) 2000 sample_running)) ''f'' = Some g \<and>
     ft_state g = F_waiting \<and> ft_next g = 5000"
proof -
  have "case frontier_status sample_running ''f'' of None \<Rightarrow> False
      | Some f \<Rightarrow> ft_state f = F_running \<and> ft_deadline f = 120000"
    by code_simp
  then obtain f where f: "frontier_status sample_running ''f'' = Some f" "ft_state f = F_running"
    "ft_deadline f = 120000"
    by (auto split: option.splits)
  show ?thesis
    using turn_settles_frontier [OF sample_inv(1) f(1) _ f(2) _ prod.collapse [symmetric],
        of "Turn_deferred (Some 5000)" 2000] f
    by auto
qed

end
