(* ===== verification/Wake_Ledger.thy ===== *)
theory Wake_Ledger
  imports Authority_Store Effect_Ledger Frontier_Ledger
begin

text \<open>
  The wakes of the cognitive kernel, \<^verbatim>\<open>cognitive-v021/wake/ledger.ts\<close> and
  \<^verbatim>\<open>wake/identity.ts\<close>, over the table of \<^verbatim>\<open>sidecar/schema.ts\<close> (version 12): admission with
  the cycle it creates, claims and leases, authorization, the consequence, termination,
  cancellation and recovery. An \<open>InTransaction\<close> operation returns its result and the new
  database, or throws; a throw leaves the database as it was, since every caller rolls back.
  A \<open>WakeRecord\<close> is its row. SHA-256 and random UUIDs are arguments.
\<close>

section \<open>The table\<close>

datatype wake_source = Src_inbox | Src_future_trigger | Src_idle | Src_subscription

datatype wake_state =
  W_pending | W_claimed | W_authorized | W_consequence_pending | W_reconciling | W_terminal

datatype wake_reason =
    R_completed | R_no_action | R_refused | R_cancelled | R_expired | R_quarantined | R_superseded

record wake_row =
  w_id :: string
  w_occurrence :: string
  w_trigger :: string
  w_source :: wake_source
  w_conversation :: string
  w_cycle :: string
  w_state :: wake_state
  w_reason :: "wake_reason option"
  w_trigger_generation :: "int option"
  w_authority_revision :: int
  w_chain :: "string option"
  w_owner :: "string option"
  w_token :: "string option"
  w_expires :: "int option"
  w_cancellation :: "string option"
  w_created :: int
  w_updated :: int

record wake_db =
  wakes :: "wake_row list"
  effects :: effect_db
  frontiers :: "frontier_row list"

text \<open>Unique columns; \<open>NULL\<close>s do not collide.\<close>

definition unique_column :: "('r \<Rightarrow> string option) \<Rightarrow> 'r list \<Rightarrow> bool" where
  "unique_column f rows \<longleftrightarrow> distinct (map f (filter (\<lambda>r. f r \<noteq> None) rows))"

definition wake_indexes :: "wake_row list \<Rightarrow> bool" where
  "wake_indexes rows \<longleftrightarrow> distinct (map w_id rows) \<and> distinct (map w_occurrence rows) \<and>
     distinct (map w_cycle rows) \<and> unique_column w_chain rows \<and> unique_column w_token rows"

definition cycle_indexes :: "cycle_row list \<Rightarrow> bool" where
  "cycle_indexes rows \<longleftrightarrow> distinct (map c_cycle rows) \<and> unique_column c_wake rows"

definition store_wakes :: "wake_row list \<Rightarrow> wake_db \<Rightarrow> wake_db throws" where
  "store_wakes rows db =
     (if wake_indexes rows then Inr (db\<lparr>wakes := rows\<rparr>) else Inl ''UNIQUE constraint failed'')"

definition store_cycles :: "cycle_row list \<Rightarrow> wake_db \<Rightarrow> wake_db throws" where
  "store_cycles rows db =
     (if cycle_indexes rows then Inr (db\<lparr>effects := (effects db)\<lparr>cycle_records := rows\<rparr>\<rparr>)
      else Inl ''UNIQUE constraint failed'')"

definition wakeIdFor :: "(string \<Rightarrow> string) \<Rightarrow> string \<Rightarrow> string" where
  "wakeIdFor sha occurrence = ''wake:'' @ sha occurrence"

definition cycleIdFor :: "(string \<Rightarrow> string) \<Rightarrow> string \<Rightarrow> string" where
  "cycleIdFor sha wake = ''cycle:'' @ sha wake"

fun sourceTriggerKind :: "wake_source \<Rightarrow> string" where
  "sourceTriggerKind Src_future_trigger = ''future_trigger_due''"
| "sourceTriggerKind Src_idle = ''idle_opportunity''"
| "sourceTriggerKind Src_subscription = ''subscription_item''"
| "sourceTriggerKind Src_inbox = ''owner_message''"

definition getWake :: "wake_db \<Rightarrow> string \<Rightarrow> wake_row option" where
  "getWake db w = sql_get (\<lambda>r. w_id r = w) (wakes db)"

definition getWakeRequired :: "wake_db \<Rightarrow> string \<Rightarrow> wake_row throws" where
  "getWakeRequired db w = (case getWake db w of None \<Rightarrow> Inl ''wake_missing'' | Some r \<Rightarrow> Inr r)"

definition getWakeForCycle :: "wake_db \<Rightarrow> string \<Rightarrow> wake_row option" where
  "getWakeForCycle db c = sql_get (\<lambda>r. w_cycle r = c) (wakes db)"

definition find_cycle :: "wake_db \<Rightarrow> string \<Rightarrow> cycle_row option" where
  "find_cycle db c = sql_get (\<lambda>r. c_cycle r = c) (cycle_records (effects db))"

section \<open>Admission\<close>

record wake_admission =
  wi_occurrenceId :: string
  wi_triggerRef :: string
  wi_sourceKind :: wake_source
  wi_conversationId :: string
  wi_cycleId :: "string option"
  wi_generation :: "int option"
  wi_triggerKind :: "string option"
  wi_occupantId :: "string option"
  wi_authorityEpoch :: "int option"
  wi_architectureEpoch :: "string option"
  wi_preemptedGeneration :: "int option"
  wi_triggerGeneration :: "int option"
  wi_authorityRevision :: js_num
  wi_nowMs :: int

datatype admission_kind = Wake_created | Wake_existing | Wake_stale | Wake_cancelled

definition ARCHITECTURE_EPOCH :: string where "ARCHITECTURE_EPOCH = ''v0.2.1''"

text \<open>
  The row's \<open>cycle_id\<close> reads as the empty string when the wake does not exist, so that the last
  \<open>??\<close> of the source never applies.
\<close>

definition cycleIdFromWake :: "wake_db \<Rightarrow> string \<Rightarrow> string option \<Rightarrow> string throws" where
  "cycleIdFromWake db w requested =
     (let existing = (case getWake db w of None \<Rightarrow> [] | Some r \<Rightarrow> w_cycle r) in
      if text_of requested \<noteq> [] \<and> existing \<noteq> [] \<and> text_of requested \<noteq> existing
      then Inl ''wake_cycle_conflict''
      else Inr (case requested of Some c \<Rightarrow> c | None \<Rightarrow> existing))"

definition max_generation :: "string \<Rightarrow> cycle_row list \<Rightarrow> int" where
  "max_generation conv rows =
     (case map c_generation (filter (\<lambda>r. c_conversation r = conv) rows) of
        [] \<Rightarrow> 0 | g # gs \<Rightarrow> fold max gs g)"

definition new_cycle :: "wake_admission \<Rightarrow> string \<Rightarrow> string \<Rightarrow> int \<Rightarrow> cycle_row" where
  "new_cycle i w c generation =
     \<lparr>c_cycle = c, c_conversation = wi_conversationId i, c_generation = generation,
      c_wake = Some w, c_trigger = Some (wi_triggerRef i), c_preempted = wi_preemptedGeneration i,
      c_state = ''admitted'',
      c_trigger_kind = (case wi_triggerKind i of None \<Rightarrow> sourceTriggerKind (wi_sourceKind i) | Some k \<Rightarrow> k),
      c_occupant = wi_occupantId i,
      c_authority_epoch = (case wi_authorityEpoch i of None \<Rightarrow> 1 | Some e \<Rightarrow> e),
      c_architecture = (case wi_architectureEpoch i of None \<Rightarrow> ARCHITECTURE_EPOCH | Some a \<Rightarrow> a),
      c_admitted = wi_nowMs i, c_updated = wi_nowMs i\<rparr>"

definition ensureCycleInTransaction ::
  "wake_admission \<Rightarrow> string \<Rightarrow> wake_db \<Rightarrow> wake_db throws" where
  "ensureCycleInTransaction i w db =
     and_then (cycleIdFromWake db w (wi_cycleId i)) (\<lambda>c.
     (case find_cycle db c of
        Some existing \<Rightarrow>
          if text_of (c_wake existing) \<noteq> [] \<and> text_of (c_wake existing) \<noteq> w
          then Inl ''wake_cycle_conflict''
          else if c_conversation existing \<noteq> wi_conversationId i
          then Inl ''wake_conversation_conflict''
          else if text_of (c_wake existing) = []
          then store_cycles (sql_update (\<lambda>r. c_cycle r = c \<and> c_wake r = None)
            (\<lambda>r. r\<lparr>c_wake := Some w\<rparr>) (cycle_records (effects db))) db
          else Inr db
      | None \<Rightarrow>
          if (case getActiveDeferredFrontier (frontiers db) (wi_conversationId i) of
                None \<Rightarrow> False | Some f \<Rightarrow> ft_cycle f \<noteq> c)
          then Inl ''conversation_occupied_by_frontier''
          else let rows = cycle_records (effects db);
                   generation = (case wi_generation i of Some g \<Rightarrow> g
                     | None \<Rightarrow> max_generation (wi_conversationId i) rows + 1)
            in store_cycles (rows @ [new_cycle i w c generation]) db))"

definition new_wake :: "wake_admission \<Rightarrow> string \<Rightarrow> string \<Rightarrow> wake_row" where
  "new_wake i w c =
     \<lparr>w_id = w, w_occurrence = wi_occurrenceId i, w_trigger = wi_triggerRef i,
      w_source = wi_sourceKind i, w_conversation = wi_conversationId i, w_cycle = c,
      w_state = W_pending, w_reason = None, w_trigger_generation = wi_triggerGeneration i,
      w_authority_revision = the_int (JNum (wi_authorityRevision i)), w_chain = None,
      w_owner = None, w_token = None, w_expires = None, w_cancellation = None,
      w_created = wi_nowMs i, w_updated = wi_nowMs i\<rparr>"

definition validate_admission :: "wake_admission \<Rightarrow> unit throws" where
  "validate_admission i =
     (if blank (wi_occurrenceId i) then Inl ''occurrence_required''
      else if blank (wi_triggerRef i) then Inl ''trigger_ref_required''
      else if blank (wi_conversationId i) then Inl ''conversation_required''
      else if \<not> nonNegativeInteger (JNum (wi_authorityRevision i)) then Inl ''authority_revision_invalid''
      else Inr ())"

definition readmit_wake ::
  "wake_admission \<Rightarrow> wake_row \<Rightarrow> wake_db \<Rightarrow> ((admission_kind \<times> wake_row) \<times> wake_db) throws" where
  "readmit_wake i existing db =
     (if w_trigger existing \<noteq> wi_triggerRef i \<or> w_source existing \<noteq> wi_sourceKind i \<or>
        w_conversation existing \<noteq> wi_conversationId i \<or>
        (case wi_cycleId i of None \<Rightarrow> False | Some c \<Rightarrow> w_cycle existing \<noteq> c)
      then Inl ''occurrence_conflict''
      else and_then (ensureCycleInTransaction i (w_id existing) db) (\<lambda>db1.
        and_then (getWakeRequired db1 (w_id existing)) (\<lambda>wake.
          Inr ((if w_state existing = W_terminal \<and> w_reason existing = Some R_cancelled
                then Wake_cancelled
                else if w_state existing = W_terminal \<and>
                  List.member [Some R_no_action, Some R_expired, Some R_quarantined, Some R_superseded]
                    (w_reason existing)
                then Wake_stale else Wake_existing, wake), db1))))"

definition admitWakeInTransaction ::
  "(string \<Rightarrow> string) \<Rightarrow> wake_admission \<Rightarrow> wake_db \<Rightarrow>
   ((admission_kind \<times> wake_row) \<times> wake_db) throws" where
  "admitWakeInTransaction sha i db =
     and_then (validate_admission i) (\<lambda>_.
     (case sql_get (\<lambda>r. w_occurrence r = wi_occurrenceId i) (wakes db) of
        Some existing \<Rightarrow> readmit_wake i existing db
      | None \<Rightarrow>
          let w = wakeIdFor sha (wi_occurrenceId i);
              c = (case wi_cycleId i of Some c \<Rightarrow> c | None \<Rightarrow> cycleIdFor sha w)
          in if (case getWake db w of None \<Rightarrow> False | Some r \<Rightarrow> w_occurrence r \<noteq> wi_occurrenceId i)
             then Inl ''occurrence_conflict''
             else if (case find_cycle db c of None \<Rightarrow> False
                | Some r \<Rightarrow> text_of (c_wake r) \<noteq> [] \<and> text_of (c_wake r) \<noteq> w)
             then Inl ''wake_cycle_conflict''
             else and_then (store_wakes (wakes db @ [new_wake i w c]) db) (\<lambda>db1.
               and_then (ensureCycleInTransaction i w db1) (\<lambda>db2.
               and_then (getWakeRequired db2 w) (\<lambda>wake. Inr ((Wake_created, wake), db2))))))"

definition admitWake ::
  "(string \<Rightarrow> string) \<Rightarrow> wake_admission \<Rightarrow> wake_db \<Rightarrow> (admission_kind \<times> wake_row) throws \<times> wake_db" where
  "admitWake sha i = in_immediate_transaction (admitWakeInTransaction sha i)"

section \<open>Claims and leases\<close>

text \<open>One statement on the wake with the given id: the number of changed rows, and the table.\<close>

definition update_wake ::
  "string \<Rightarrow> (wake_row \<Rightarrow> bool) \<Rightarrow> (wake_row \<Rightarrow> wake_row) \<Rightarrow> wake_db \<Rightarrow> (nat \<times> wake_db) throws" where
  "update_wake w guard f db =
     (let match = (\<lambda>r. w_id r = w \<and> guard r) in
      and_then (store_wakes (sql_update match f (wakes db)) db) (\<lambda>db1.
        Inr (sql_changes match (wakes db), db1)))"

definition hasAmbiguousEffect :: "wake_db \<Rightarrow> string \<Rightarrow> bool" where
  "hasAmbiguousEffect db w \<longleftrightarrow> getUnresolvedInFlightForWake (effects db) w \<noteq> None"

definition wake_lease_over :: "int \<Rightarrow> wake_row \<Rightarrow> bool" where
  "wake_lease_over now r \<longleftrightarrow> (case w_expires r of None \<Rightarrow> False | Some e \<Rightarrow> e \<le> now)"

definition lease_running :: "int \<Rightarrow> wake_row \<Rightarrow> bool" where
  "lease_running now r \<longleftrightarrow> (case w_expires r of None \<Rightarrow> False | Some e \<Rightarrow> e > now)"

definition clear_lease :: "wake_row \<Rightarrow> wake_row" where
  "clear_lease r = r\<lparr>w_owner := None, w_token := None, w_expires := None\<rparr>"

definition to_pending :: "int \<Rightarrow> wake_row \<Rightarrow> wake_row" where
  "to_pending now r = (clear_lease r)\<lparr>w_state := W_pending, w_updated := now\<rparr>"

text \<open>An authorized wake whose lease ran out goes back to pending first.\<close>

definition release_authorized :: "string \<Rightarrow> int \<Rightarrow> wake_row \<Rightarrow> wake_db \<Rightarrow> wake_db throws" where
  "release_authorized w now current db =
     (if w_state current \<noteq> W_authorized then Inr db
      else if \<not> wake_lease_over now current then Inl ''wake_not_claimable''
      else if hasAmbiguousEffect db w then Inl ''receipt_reconciliation_required''
      else and_then (update_wake w (\<lambda>r. w_state r = W_authorized) (to_pending now) db) (\<lambda>(_, db1).
        Inr db1))"

definition claimable :: "int \<Rightarrow> wake_row \<Rightarrow> bool" where
  "claimable now r \<longleftrightarrow> (w_state r = W_pending \<or> w_state r = W_claimed) \<and>
     (w_state r = W_pending \<or> \<not> lease_running now r)"

definition claimWakeInTransaction ::
  "string \<Rightarrow> string \<Rightarrow> string \<Rightarrow> int \<Rightarrow> int \<Rightarrow> wake_db \<Rightarrow> ((string \<times> wake_row) \<times> wake_db) throws" where
  "claimWakeInTransaction uuid w worker now leaseMs db =
     and_then (getWakeRequired db w) (\<lambda>current.
     if w_state current = W_terminal then Inl ''wake_terminal''
     else if w_state current = W_reconciling \<or> w_state current = W_consequence_pending
     then Inl ''wake_reconciliation_required''
     else and_then (release_authorized w now current db) (\<lambda>db1.
       if w_state current = W_claimed \<and> lease_running now current then Inl ''lease_held''
       else let token = ''wake-lease:'' @ uuid in
         and_then (update_wake w (claimable now) (\<lambda>r. r\<lparr>w_state := W_claimed,
             w_owner := Some worker, w_token := Some token, w_expires := Some (now + leaseMs),
             w_updated := now\<rparr>) db1) (\<lambda>(changes, db2).
           if changes \<noteq> 1 then Inl ''wake_claim_lost''
           else and_then (getWakeRequired db2 w) (\<lambda>wake. Inr ((token, wake), db2)))))"

definition claimWake ::
  "string \<Rightarrow> string \<Rightarrow> string \<Rightarrow> int \<Rightarrow> int \<Rightarrow> wake_db \<Rightarrow> (string \<times> wake_row) throws \<times> wake_db" where
  "claimWake uuid w worker now leaseMs db =
     (if blank worker then (Inl ''worker_required'', db)
      else in_immediate_transaction
        (claimWakeInTransaction uuid w worker now (max 1 (min (15 * 60000) leaseMs))) db)"

record lease_renewal =
  rn_wake :: string
  rn_conversation :: string
  rn_cycle :: string
  rn_worker :: string
  rn_token :: string
  rn_now :: int
  rn_lease :: int

definition renewWakeLeaseInTransaction :: "lease_renewal \<Rightarrow> wake_db \<Rightarrow> (bool \<times> wake_db) throws" where
  "renewWakeLeaseInTransaction i db =
     (if blank (rn_wake i) \<or> blank (rn_conversation i) \<or> blank (rn_cycle i) \<or>
        blank (rn_worker i) \<or> blank (rn_token i) \<or> \<not> safe_integer (rn_now i) \<or> rn_now i < 0 \<or>
        \<not> safe_integer (rn_lease i) \<or> rn_lease i \<le> 0
      then Inr (False, db)
      else and_then (update_wake (rn_wake i) (\<lambda>r. w_conversation r = rn_conversation i \<and>
          w_cycle r = rn_cycle i \<and> w_state r = W_authorized \<and> w_owner r = Some (rn_worker i) \<and>
          w_token r = Some (rn_token i) \<and> w_cancellation r = None \<and> lease_running (rn_now i) r)
        (\<lambda>r. r\<lparr>w_expires := Some (rn_now i + min (15 * 60000) (rn_lease i)), w_updated := rn_now i\<rparr>) db)
        (\<lambda>(changes, db1). Inr (changes = 1, db1)))"

section \<open>Authorization and consequence\<close>

definition authorizeWakeInTransaction ::
  "string \<Rightarrow> string \<Rightarrow> int \<Rightarrow> wake_db \<Rightarrow> (wake_row \<times> wake_db) throws" where
  "authorizeWakeInTransaction w token now db =
     and_then (getWakeRequired db w) (\<lambda>current.
     if w_state current = W_terminal then Inl ''wake_terminal''
     else if w_state current \<noteq> W_claimed \<or> w_token current \<noteq> Some token then Inl ''lease_lost''
     else if wake_lease_over now current then Inl ''lease_expired''
     else and_then (update_wake w (\<lambda>r. w_state r = W_claimed \<and> w_token r = Some token \<and>
         \<not> wake_lease_over now r) (\<lambda>r. r\<lparr>w_state := W_authorized, w_updated := now\<rparr>) db)
       (\<lambda>(changes, db1). if changes \<noteq> 1 then Inl ''lease_lost''
         else and_then (getWakeRequired db1 w) (\<lambda>wake. Inr (wake, db1))))"

definition authorizeWake :: "string \<Rightarrow> string \<Rightarrow> int \<Rightarrow> wake_db \<Rightarrow> wake_row throws \<times> wake_db" where
  "authorizeWake w token now = in_immediate_transaction (authorizeWakeInTransaction w token now)"

definition beginConsequenceInTransaction ::
  "string \<Rightarrow> string \<Rightarrow> string \<Rightarrow> js_num \<Rightarrow> int \<Rightarrow> wake_db \<Rightarrow> ((string \<times> wake_row) \<times> wake_db) throws" where
  "beginConsequenceInTransaction uuid w token semanticPass now db =
     (if \<not> (case semanticPass of NInt i \<Rightarrow> i \<ge> 1 | NOther _ \<Rightarrow> False) then Inl ''semantic_pass_invalid''
      else and_then (getWakeRequired db w) (\<lambda>current.
        if w_state current = W_terminal then Inl ''wake_terminal''
        else if w_state current = W_consequence_pending \<and> text_of (w_chain current) \<noteq> []
        then Inr ((text_of (w_chain current), current), db)
        else if w_state current = W_reconciling then Inl ''receipt_reconciliation_required''
        else if w_state current \<noteq> W_authorized \<or> w_token current \<noteq> Some token then Inl ''lease_lost''
        else if wake_lease_over now current then Inl ''lease_expired''
        else let chain = ''consequence:'' @ uuid in
          and_then (update_wake w (\<lambda>r. w_state r = W_authorized \<and> w_token r = Some token)
            (\<lambda>r. r\<lparr>w_state := W_consequence_pending, w_chain := Some chain, w_updated := now\<rparr>) db)
          (\<lambda>(changes, db1). if changes \<noteq> 1 then Inl ''consequence_exists''
            else and_then (getWakeRequired db1 w) (\<lambda>wake. Inr ((chain, wake), db1)))))"

definition beginConsequence ::
  "string \<Rightarrow> string \<Rightarrow> string \<Rightarrow> js_num \<Rightarrow> int \<Rightarrow> wake_db \<Rightarrow> (string \<times> wake_row) throws \<times> wake_db" where
  "beginConsequence uuid w token semanticPass now =
     in_immediate_transaction (beginConsequenceInTransaction uuid w token semanticPass now)"

section \<open>Termination, cancellation, reconciliation\<close>

definition to_terminal :: "wake_reason \<Rightarrow> int \<Rightarrow> wake_row \<Rightarrow> wake_row" where
  "to_terminal reason now r =
     (clear_lease r)\<lparr>w_state := W_terminal, w_reason := Some reason, w_updated := now\<rparr>"

definition finish_refusal :: "wake_row \<Rightarrow> string option \<Rightarrow> wake_reason \<Rightarrow> int \<Rightarrow> unit throws" where
  "finish_refusal current token reason now =
     (if w_state current = W_claimed \<or> w_state current = W_authorized \<or>
        w_state current = W_consequence_pending
      then if text_of token = [] \<or> w_token current \<noteq> token then Inl ''lease_lost''
        else if wake_lease_over now current \<and> reason = R_completed then Inl ''lease_expired''
        else Inr ()
      else if w_state current \<noteq> W_pending then Inl ''wake_finish_lost'' else Inr ())"

definition finishWakeInTransaction ::
  "string \<Rightarrow> string option \<Rightarrow> wake_reason \<Rightarrow> int \<Rightarrow> wake_db \<Rightarrow> (wake_row \<times> wake_db) throws" where
  "finishWakeInTransaction w token reason now db =
     and_then (getWakeRequired db w) (\<lambda>current.
     if w_state current = W_terminal
     then if w_reason current = Some reason then Inr (current, db) else Inl ''terminal_immutable''
     else if w_state current = W_reconciling then Inl ''wake_reconciliation_required''
     else and_then (finish_refusal current token reason now) (\<lambda>_.
       and_then (update_wake w (\<lambda>r. w_state r \<noteq> W_terminal \<and>
           (token \<noteq> None \<and> w_token r = token \<or> w_state r = W_pending \<and> w_token r = None))
         (to_terminal reason now) db)
       (\<lambda>(changes, db1). if changes \<noteq> 1 then Inl ''wake_finish_lost''
         else and_then (getWakeRequired db1 w) (\<lambda>wake. Inr (wake, db1)))))"

definition finishWake ::
  "string \<Rightarrow> string option \<Rightarrow> wake_reason \<Rightarrow> int \<Rightarrow> wake_db \<Rightarrow> wake_row throws \<times> wake_db" where
  "finishWake w token reason now = in_immediate_transaction (finishWakeInTransaction w token reason now)"

definition recordWakeCancellationInTransaction ::
  "string \<Rightarrow> string \<Rightarrow> string option \<Rightarrow> int \<Rightarrow> wake_db \<Rightarrow> (wake_row \<times> wake_db) throws" where
  "recordWakeCancellationInTransaction uuid w cancellation now db =
     (let cid = (case cancellation of None \<Rightarrow> ''cancellation:'' @ uuid | Some c \<Rightarrow> c) in
      and_then (getWakeRequired db w) (\<lambda>current.
      if w_state current = W_terminal then Inr (current, db)
      else and_then (update_wake w (\<lambda>_. True) (\<lambda>r. r\<lparr>w_cancellation :=
          (case w_cancellation r of None \<Rightarrow> Some cid | Some c \<Rightarrow> Some c), w_updated := now\<rparr>) db)
        (\<lambda>(_, db1). and_then (getWakeRequired db1 w) (\<lambda>wake. Inr (wake, db1)))))"

definition recordWakeCancellation ::
  "string \<Rightarrow> string \<Rightarrow> string option \<Rightarrow> int \<Rightarrow> wake_db \<Rightarrow> wake_row throws \<times> wake_db" where
  "recordWakeCancellation uuid w cancellation now =
     in_immediate_transaction (recordWakeCancellationInTransaction uuid w cancellation now)"

definition reconcileWakeInTransaction ::
  "string \<Rightarrow> int \<Rightarrow> wake_db \<Rightarrow> (wake_row \<times> wake_db) throws" where
  "reconcileWakeInTransaction w now db =
     and_then (getWakeRequired db w) (\<lambda>current.
     if w_state current = W_terminal \<or> w_state current = W_reconciling then Inr (current, db)
     else and_then (update_wake w (\<lambda>r. w_state r \<noteq> W_terminal)
         (\<lambda>r. (clear_lease r)\<lparr>w_state := W_reconciling, w_reason := None, w_updated := now\<rparr>) db)
       (\<lambda>(_, db1). and_then (getWakeRequired db1 w) (\<lambda>wake. Inr (wake, db1))))"

definition cancelWakeInTransaction ::
  "string \<Rightarrow> string \<Rightarrow> string option \<Rightarrow> int \<Rightarrow> wake_db \<Rightarrow> (wake_row \<times> wake_db) throws" where
  "cancelWakeInTransaction uuid w cancellation now db =
     and_then (recordWakeCancellationInTransaction uuid w cancellation now db) (\<lambda>(current, db1).
       if w_state current = W_reconciling \<or> w_state current = W_consequence_pending
       then Inr (current, db1)
       else finishWakeInTransaction w (w_token current) R_cancelled now db1)"

definition cancelWake ::
  "string \<Rightarrow> string \<Rightarrow> string option \<Rightarrow> int \<Rightarrow> wake_db \<Rightarrow> wake_row throws \<times> wake_db" where
  "cancelWake uuid w cancellation now =
     in_immediate_transaction (cancelWakeInTransaction uuid w cancellation now)"

section \<open>Recovery\<close>

record recovery_counts =
  rv_reclaimed :: nat
  rv_reconciling :: nat
  rv_quarantined :: nat

definition recover_wake ::
  "int \<Rightarrow> string \<Rightarrow> recovery_counts \<times> wake_db \<Rightarrow> (recovery_counts \<times> wake_db) throws" where
  "recover_wake now w s =
     (case s of (counts, db) \<Rightarrow>
      (case getWake db w of
         None \<Rightarrow> Inr (counts, db)
       | Some current \<Rightarrow>
           if w_state current = W_terminal then Inr (counts, db)
           else if (case find_cycle db (w_cycle current) of
               None \<Rightarrow> True | Some c \<Rightarrow> text_of (c_wake c) \<noteq> w)
           then and_then (update_wake w (\<lambda>r. w_state r \<noteq> W_terminal) (to_terminal R_quarantined now) db)
             (\<lambda>(changes, db1). Inr (if changes = 1
               then counts\<lparr>rv_quarantined := rv_quarantined counts + 1\<rparr> else counts, db1))
           else if w_state current = W_consequence_pending \<or> w_state current = W_reconciling
           then if w_state current = W_reconciling then Inr (counts, db)
             else and_then (update_wake w (\<lambda>r. w_state r = W_consequence_pending)
                 (\<lambda>r. r\<lparr>w_state := W_reconciling, w_updated := now\<rparr>) db)
               (\<lambda>(changes, db1). Inr (if changes = 1
                 then counts\<lparr>rv_reconciling := rv_reconciling counts + 1\<rparr> else counts, db1))
           else if (w_state current = W_claimed \<or> w_state current = W_authorized) \<and>
             wake_lease_over now current
           then if hasAmbiguousEffect db w
             then and_then (update_wake w (\<lambda>r. w_state r = W_claimed \<or> w_state r = W_authorized)
                 (\<lambda>r. r\<lparr>w_state := W_reconciling, w_updated := now\<rparr>) db)
               (\<lambda>(changes, db1). Inr (if changes = 1
                 then counts\<lparr>rv_reconciling := rv_reconciling counts + 1\<rparr> else counts, db1))
             else and_then (update_wake w (\<lambda>r. w_state r = W_claimed \<or> w_state r = W_authorized)
                 (to_pending now) db)
               (\<lambda>(changes, db1). Inr (if changes = 1
                 then counts\<lparr>rv_reclaimed := rv_reclaimed counts + 1\<rparr> else counts, db1))
           else Inr (counts, db)))"

text \<open>Each wake is recovered in its own transaction; an error stops the loop and is rethrown.\<close>

fun recover_loop ::
  "int \<Rightarrow> string list \<Rightarrow> recovery_counts \<times> wake_db \<Rightarrow> recovery_counts throws \<times> wake_db" where
  "recover_loop now [] s = (Inr (fst s), snd s)"
| "recover_loop now (w # ws) s =
     (if w = [] then recover_loop now ws s
      else (case recover_wake now w s of
          Inl err \<Rightarrow> (Inl err, snd s)
        | Inr s1 \<Rightarrow> recover_loop now ws s1))"

definition recoverWakes :: "int \<Rightarrow> wake_db \<Rightarrow> recovery_counts throws \<times> wake_db" where
  "recoverWakes now db = recover_loop now
     (map w_id (sort_key w_created (sort_key w_id (filter (\<lambda>r. w_state r \<noteq> W_terminal) (wakes db)))))
     (\<lparr>rv_reclaimed = 0, rv_reconciling = 0, rv_quarantined = 0\<rparr>, db)"

end
