(* ===== verification/Wake_Lifecycle.thy ===== *)
theory Wake_Lifecycle
  imports Wake_Ledger Transition_Systems
begin

text \<open>
  What the wake ledger guarantees: leases and reasons exactly where the state asks for them, one
  consequence per wake, final terminal wakes, a lease that excludes the other workers, admission
  that can be repeated, and a recovery that leaves no lease behind.
\<close>

section \<open>Steps\<close>

text \<open>
  The operations that return, each wake's recovery, and whatever the rest of the kernel does to
  the other tables.
\<close>

inductive wake_step :: "wake_db \<Rightarrow> wake_db \<Rightarrow> bool" where
  step_admit: "admitWakeInTransaction sha i db = Inr (x, db') \<Longrightarrow> wake_step db db'"
| step_claim: "claimWakeInTransaction uuid w worker now lease db = Inr (y, db') \<Longrightarrow> wake_step db db'"
| step_renew: "renewWakeLeaseInTransaction n db = Inr (b, db') \<Longrightarrow> wake_step db db'"
| step_authorize: "authorizeWakeInTransaction w token now db = Inr (r, db') \<Longrightarrow> wake_step db db'"
| step_begin: "beginConsequenceInTransaction uuid w token pass now db = Inr (y, db') \<Longrightarrow> wake_step db db'"
| step_finish: "finishWakeInTransaction w tok reason now db = Inr (r, db') \<Longrightarrow> wake_step db db'"
| step_record: "recordWakeCancellationInTransaction uuid w c now db = Inr (r, db') \<Longrightarrow> wake_step db db'"
| step_reconcile: "reconcileWakeInTransaction w now db = Inr (r, db') \<Longrightarrow> wake_step db db'"
| step_cancel: "cancelWakeInTransaction uuid w c now db = Inr (r, db') \<Longrightarrow> wake_step db db'"
| step_recover: "recover_wake now w (k, db) = Inr (k', db') \<Longrightarrow> wake_step db db'"
| step_other: "wakes db' = wakes db \<Longrightarrow> wake_step db db'"

text \<open>The moves of a single row.\<close>

definition holds_lease :: "wake_row \<Rightarrow> bool" where
  "holds_lease r \<longleftrightarrow> w_state r = W_claimed \<or> w_state r = W_authorized \<or> w_state r = W_consequence_pending"

inductive wake_move :: "wake_row \<Rightarrow> wake_row \<Rightarrow> bool" where
  mv_claim: "w_state r = W_pending \<or> w_state r = W_claimed \<Longrightarrow> wake_move r (r\<lparr>w_state := W_claimed,
     w_owner := Some ow, w_token := Some t, w_expires := Some e, w_updated := n\<rparr>)"
| mv_release: "w_state r = W_claimed \<or> w_state r = W_authorized \<Longrightarrow> wake_move r (to_pending n r)"
| mv_renew: "w_state r = W_authorized \<Longrightarrow> wake_move r (r\<lparr>w_expires := Some e, w_updated := n\<rparr>)"
| mv_authorize: "w_state r = W_claimed \<Longrightarrow> wake_move r (r\<lparr>w_state := W_authorized, w_updated := n\<rparr>)"
| mv_begin: "w_state r = W_authorized \<Longrightarrow>
     wake_move r (r\<lparr>w_state := W_consequence_pending, w_chain := Some c, w_updated := n\<rparr>)"
| mv_mark: "w_state r \<noteq> W_terminal \<Longrightarrow> wake_move r (r\<lparr>w_cancellation := x, w_updated := n\<rparr>)"
| mv_clear: "w_state r \<noteq> W_terminal \<Longrightarrow>
     wake_move r ((clear_lease r)\<lparr>w_state := W_reconciling, w_reason := None, w_updated := n\<rparr>)"
| mv_reconcile: "holds_lease r \<Longrightarrow> wake_move r (r\<lparr>w_state := W_reconciling, w_updated := n\<rparr>)"
| mv_finish: "w_state r \<noteq> W_terminal \<Longrightarrow> wake_move r (to_terminal reason n r)"

definition table_step :: "wake_row list \<Rightarrow> wake_row list \<Rightarrow> bool" where
  "table_step rows rows' \<longleftrightarrow> wake_indexes rows' \<and>
     (rows_move wake_move rows rows' \<or> (\<exists>i w c. rows' = rows @ [new_wake i w c]))"

lemmas wake_row_ops = to_pending_def to_terminal_def clear_lease_def holds_lease_def

lemma wake_move_key: "wake_move r r' \<Longrightarrow> w_id r' = w_id r"
  by (induction rule: wake_move.induct) (simp_all add: wake_row_ops)

lemma store_wakes_eq: "store_wakes rows db = Inr db' \<longleftrightarrow> wake_indexes rows \<and> db' = db\<lparr>wakes := rows\<rparr>"
  by (auto simp: store_wakes_def)

lemma update_wake_eq:
  "update_wake w g f db = Inr (n, db') \<longleftrightarrow>
     (let rows = sql_update (\<lambda>r. w_id r = w \<and> g r) f (wakes db) in
      wake_indexes rows \<and> db' = db\<lparr>wakes := rows\<rparr> \<and> n = sql_changes (\<lambda>r. w_id r = w \<and> g r) (wakes db))"
  by (auto simp: update_wake_def Let_def and_then_eq_Inr store_wakes_eq)

lemma update_wake_step:
  assumes "update_wake w g f db = Inr (n, db')" and "\<And>r. g r \<Longrightarrow> wake_move r (f r)"
  shows "table_step (wakes db) (wakes db')"
  using assms(1) by (auto simp: update_wake_eq Let_def table_step_def intro!: rows_move_update assms(2))

lemma ensure_wakes: "ensureCycleInTransaction i w db = Inr db' \<Longrightarrow> wakes db' = wakes db"
  by (auto simp: ensureCycleInTransaction_def and_then_eq_Inr store_cycles_def Let_def
      split: option.splits if_splits)

lemma admit_step:
  assumes "admitWakeInTransaction sha i db = Inr (x, db')"
  shows "wakes db' = wakes db \<or> table_step (wakes db) (wakes db')"
proof (cases "sql_get (\<lambda>r. w_occurrence r = wi_occurrenceId i) (wakes db)")
  case None
  with assms obtain w c db1 where "store_wakes (wakes db @ [new_wake i w c]) db = Inr db1"
    "ensureCycleInTransaction i w db1 = Inr db'"
    by (auto simp: admitWakeInTransaction_def and_then_eq_Inr Let_def simp del: sql_get_None_iff
        split: option.splits if_splits)
  then have "wakes db' = wakes db @ [new_wake i w c]" "wake_indexes (wakes db @ [new_wake i w c])"
    by (auto simp: store_wakes_eq dest: ensure_wakes)
  then show ?thesis by (auto simp: table_step_def)
next
  case (Some e)
  with assms have "\<exists>db1. ensureCycleInTransaction i (w_id e) db = Inr db1 \<and> db' = db1"
    by (auto simp: admitWakeInTransaction_def readmit_wake_def and_then_eq_Inr split: if_splits)
  then show ?thesis by (auto dest: ensure_wakes)
qed

lemma release_steps:
  assumes "release_authorized w now r db = Inr db'"
  shows "table_step\<^sup>*\<^sup>* (wakes db) (wakes db')"
proof (cases "db' = db")
  case False
  with assms obtain n where "update_wake w (\<lambda>r. w_state r = W_authorized) (to_pending now) db = Inr (n, db')"
    by (auto simp: release_authorized_def and_then_eq_Inr split: if_splits)
  from update_wake_step [OF this] show ?thesis by (auto intro: mv_release)
qed simp

lemma claim_steps:
  assumes "claimWakeInTransaction uuid w worker now lease db = Inr (y, db')"
  shows "table_step\<^sup>*\<^sup>* (wakes db) (wakes db')"
proof -
  from assms obtain r db1 t n where "release_authorized w now r db = Inr db1"
    and up: "update_wake w (claimable now) (\<lambda>r. r\<lparr>w_state := W_claimed, w_owner := Some worker,
      w_token := Some t, w_expires := Some (now + lease), w_updated := now\<rparr>) db1 = Inr (n, db')"
    by (auto simp: claimWakeInTransaction_def and_then_eq_Inr Let_def split: if_splits)
  then have "table_step\<^sup>*\<^sup>* (wakes db) (wakes db1)" using release_steps by blast
  moreover have "table_step (wakes db1) (wakes db')"
    using update_wake_step [OF up] by (auto simp: claimable_def intro: mv_claim)
  ultimately show ?thesis by (rule rtranclp.rtrancl_into_rtrancl)
qed

text \<open>The row read before a statement is the row it changes.\<close>

lemma update_read_step:
  assumes "update_wake w g f db = Inr (n, db')" and "getWake db w = Some x"
    and "\<And>r. w_id (f r) = w_id r" and "g x \<Longrightarrow> wake_move x (f x)"
  shows "table_step (wakes db) (wakes db')"
proof -
  let ?rows = "sql_update (\<lambda>r. w_id r = w \<and> g r) f (wakes db)"
  have db': "wake_indexes ?rows" "wakes db' = ?rows"
    using assms(1) by (auto simp: update_wake_eq Let_def)
  have "map w_id ?rows = map w_id (wakes db)"
    using assms(3) by (intro map_key_sql_update) simp
  with db'(1) have "distinct (map w_id (wakes db))" by (simp add: wake_indexes_def)
  moreover have "x \<in> set (wakes db)" "w_id x = w"
    using sql_get_SomeD [OF assms(2) [unfolded getWake_def]] by auto
  ultimately have "r = x" if "r \<in> set (wakes db)" "w_id r = w" for r
    using that by (auto simp: distinct_map inj_on_def)
  with assms(4) have "rows_move wake_move (wakes db) ?rows"
    by (intro rows_move_update) blast
  with db' show ?thesis by (simp add: table_step_def)
qed

lemma record_update:
  assumes "recordWakeCancellationInTransaction uuid w c now db = Inr (r, db')"
  shows "(table_step\<^sup>=\<^sup>=) (wakes db) (wakes db')"
proof -
  from assms obtain x where x: "getWake db w = Some x"
    by (auto simp: recordWakeCancellationInTransaction_def and_then_eq_Inr getWakeRequired_def
        split: option.splits)
  show ?thesis
  proof (cases "w_state x = W_terminal")
    case True
    with assms x show ?thesis
      by (simp add: recordWakeCancellationInTransaction_def getWakeRequired_def)
  next
    case False
    define f where "f = (\<lambda>r :: wake_row. r\<lparr>w_cancellation := (case w_cancellation r of
      None \<Rightarrow> Some (case c of None \<Rightarrow> ''cancellation:'' @ uuid | Some c \<Rightarrow> c) | Some c \<Rightarrow> Some c),
      w_updated := now\<rparr>)"
    from assms x False obtain n where "update_wake w (\<lambda>_. True) f db = Inr (n, db')"
      by (auto simp: recordWakeCancellationInTransaction_def getWakeRequired_def and_then_eq_Inr f_def)
    from update_read_step [OF this x] show ?thesis
      using False by (simp add: f_def mv_mark)
  qed
qed

lemma single_updates:
  "renewWakeLeaseInTransaction rn db = Inr (b, db') \<Longrightarrow> (table_step\<^sup>=\<^sup>=) (wakes db) (wakes db')"
  "authorizeWakeInTransaction w token now db = Inr (r, db') \<Longrightarrow> (table_step\<^sup>=\<^sup>=) (wakes db) (wakes db')"
  "beginConsequenceInTransaction uuid w token pass now db = Inr (y, db') \<Longrightarrow> (table_step\<^sup>=\<^sup>=) (wakes db) (wakes db')"
  "finishWakeInTransaction w tok reason now db = Inr (r, db') \<Longrightarrow> (table_step\<^sup>=\<^sup>=) (wakes db) (wakes db')"
  "reconcileWakeInTransaction w now db = Inr (r, db') \<Longrightarrow> (table_step\<^sup>=\<^sup>=) (wakes db) (wakes db')"
  by (auto simp: renewWakeLeaseInTransaction_def authorizeWakeInTransaction_def
      beginConsequenceInTransaction_def finishWakeInTransaction_def
      reconcileWakeInTransaction_def and_then_eq_Inr Let_def
      split: if_splits dest!: update_wake_step
      intro: mv_renew mv_authorize mv_begin mv_finish mv_clear)

lemma recover_update:
  assumes "recover_wake now w (k, db) = Inr (k', db')"
  shows "(table_step\<^sup>=\<^sup>=) (wakes db) (wakes db')"
  using assms
  by (auto simp: recover_wake_def and_then_eq_Inr holds_lease_def split: option.splits if_splits
      dest!: update_wake_step intro: mv_finish mv_reconcile mv_release)

lemma reflcl_steps: "(table_step\<^sup>=\<^sup>=) rows rows' \<Longrightarrow> table_step\<^sup>*\<^sup>* rows rows'"
  by auto

lemma cancel_steps:
  assumes "cancelWakeInTransaction uuid w c now db = Inr (r, db')"
  shows "table_step\<^sup>*\<^sup>* (wakes db) (wakes db')"
proof -
  from assms obtain x db1 where 1: "recordWakeCancellationInTransaction uuid w c now db = Inr (x, db1)"
    and 2: "db' = db1 \<or> finishWakeInTransaction w (w_token x) R_cancelled now db1 = Inr (r, db')"
    by (auto simp: cancelWakeInTransaction_def and_then_eq_Inr split: if_splits)
  from 2 have "table_step\<^sup>*\<^sup>* (wakes db1) (wakes db')"
    using single_updates(4) reflcl_steps by blast
  with reflcl_steps [OF record_update [OF 1]] show ?thesis by (rule rtranclp_trans)
qed

text \<open>Any step of the ledger is a sequence of table steps.\<close>

lemma step_table:
  assumes "wake_step db db'"
  shows "table_step\<^sup>*\<^sup>* (wakes db) (wakes db')"
  using assms
proof cases
  case step_admit
  then show ?thesis using admit_step by fastforce
next
  case step_other
  then show ?thesis by simp
qed (blast intro: claim_steps single_updates [THEN reflcl_steps] record_update [THEN reflcl_steps]
    cancel_steps recover_update [THEN reflcl_steps])+

lemma steps_table: "wake_step\<^sup>*\<^sup>* db db' \<Longrightarrow> table_step\<^sup>*\<^sup>* (wakes db) (wakes db')"
  by (induction rule: rtranclp_induct) (auto dest: step_table)

section \<open>The invariant\<close>

definition wake_row_ok :: "wake_row \<Rightarrow> bool" where
  "wake_row_ok r \<longleftrightarrow> (w_reason r \<noteq> None) = (w_state r = W_terminal) \<and>
     (w_state r = W_pending \<or> w_state r = W_terminal \<longrightarrow>
       w_token r = None \<and> w_owner r = None \<and> w_expires r = None) \<and>
     (holds_lease r \<longrightarrow> w_token r \<noteq> None \<and> w_owner r \<noteq> None \<and> w_expires r \<noteq> None) \<and>
     (w_state r = W_consequence_pending \<longrightarrow> w_chain r \<noteq> None) \<and>
     (w_state r = W_pending \<or> w_state r = W_claimed \<or> w_state r = W_authorized \<longrightarrow> w_chain r = None)"

definition wake_inv :: "wake_row list \<Rightarrow> bool" where
  "wake_inv rows \<longleftrightarrow> wake_indexes rows \<and> (\<forall>r \<in> set rows. wake_row_ok r)"

lemma wake_move_ok: "wake_move r r' \<Longrightarrow> wake_row_ok r \<Longrightarrow> wake_row_ok r'"
  by (induction rule: wake_move.induct) (auto simp: wake_row_ok_def wake_row_ops)

lemma new_wake_ok: "wake_row_ok (new_wake i w c)"
  by (simp add: wake_row_ok_def new_wake_def holds_lease_def)

interpretation wake_table: preserved table_step wake_inv
proof
  fix rows rows' assume inv: "wake_inv rows" and step: "table_step rows rows'"
  then have "\<forall>r \<in> set rows'. wake_row_ok r"
  proof (cases "rows_move wake_move rows rows'")
    case True
    then show ?thesis
      using inv by (intro rows_move_all [OF True]) (auto simp: wake_inv_def intro: wake_move_ok)
  next
    case False
    with step inv show ?thesis
      by (auto simp: table_step_def wake_inv_def new_wake_ok)
  qed
  with step show "wake_inv rows'" by (simp add: wake_inv_def table_step_def)
qed

definition wake_status :: "wake_row list \<Rightarrow> string \<Rightarrow> wake_row option" where
  "wake_status rows w = sql_get (\<lambda>r. w_id r = w) rows"

interpretation wake_rows: record_lifecycle table_step wake_status wake_move
proof
  fix rows rows' w r assume step: "table_step rows rows'" and r: "wake_status rows w = Some r"
  show "\<exists>r'. wake_status rows' w = Some r' \<and> wake_move\<^sup>*\<^sup>* r r'"
  proof (cases "rows_move wake_move rows rows'")
    case True
    with rows_move_get [OF True wake_move_key] r show ?thesis
      by (fastforce simp: wake_status_def)
  next
    case False
    with step r show ?thesis
      by (auto simp: table_step_def wake_status_def sql_get_append)
  qed
qed

section \<open>Reading the operations\<close>

lemma getWake_status: "getWake db w = wake_status (wakes db) w"
  by (simp add: getWake_def wake_status_def)

lemma wake_status_id: "wake_status rows w = Some r \<Longrightarrow> w_id r = w \<and> r \<in> set rows"
  unfolding wake_status_def by (auto dest: sql_get_SomeD)

lemma status_of_row: "wake_inv rows \<Longrightarrow> r \<in> set rows \<Longrightarrow> wake_status rows (w_id r) = Some r"
  unfolding wake_status_def wake_inv_def wake_indexes_def by (intro sql_get_key) auto

lemma required_eq: "getWakeRequired db w = Inr r \<longleftrightarrow> wake_status (wakes db) w = Some r"
  by (auto simp: getWakeRequired_def getWake_status split: option.splits)

text \<open>The row after a statement that changed it.\<close>

lemma updated_row:
  assumes "update_wake w g f db = Inr (n, db')" and "wake_status (wakes db) w = Some x"
    and "\<And>r. w_id (f r) = w_id r"
  shows "wake_status (wakes db') w = Some (if g x then f x else x)"
  using assms sql_get_update [of "\<lambda>r. w_id r = w \<and> g r" w_id f w "wakes db"] wake_status_id [OF assms(2)]
  by (auto simp: update_wake_eq Let_def wake_status_def)

lemma unique_changes:
  assumes "wake_inv (wakes db)" and "update_wake w g f db = Inr (n, db')"
    and "wake_status (wakes db) w = Some x"
  shows "n = (if g x then 1 else 0)"
  using sql_changes_key [of w_id "wakes db" w g] assms
  by (simp add: update_wake_eq Let_def wake_status_def wake_inv_def wake_indexes_def)

definition settled_chain :: "string \<Rightarrow> wake_row \<Rightarrow> bool" where
  "settled_chain c r \<longleftrightarrow> w_chain r = Some c \<and>
     (w_state r = W_consequence_pending \<or> w_state r = W_reconciling \<or> w_state r = W_terminal)"

lemma moves_settled: "wake_move\<^sup>*\<^sup>* r r' \<Longrightarrow> settled_chain c r \<Longrightarrow> settled_chain c r'"
proof (induction rule: rtranclp_induct)
  case (step r1 r2)
  from step.hyps(2) step.IH [OF step.prems] show ?case
    by (induction rule: wake_move.induct) (auto simp: settled_chain_def wake_row_ops)
qed

lemma begin_settles:
  assumes "beginConsequenceInTransaction uuid w token pass now db = Inr ((chain, r), db')"
  shows "wake_status (wakes db') w = Some r \<and> settled_chain chain r \<and> chain \<noteq> []"
proof -
  obtain x where read: "getWakeRequired db w = Inr x"
    using assms by (auto simp: beginConsequenceInTransaction_def and_then_eq_Inr split: if_splits)
  then have x: "wake_status (wakes db) w = Some x" by (simp add: required_eq)
  define f where "f = (\<lambda>r :: wake_row. r\<lparr>w_state := W_consequence_pending,
    w_chain := Some (''consequence:'' @ uuid), w_updated := now\<rparr>)"
  show ?thesis
  proof (cases "w_state x = W_consequence_pending \<and> text_of (w_chain x) \<noteq> []")
    case True
    then have "r = x" "chain = text_of (w_chain x)" "db' = db"
      using assms by (auto simp: beginConsequenceInTransaction_def read split: if_splits)
    with True x show ?thesis
      by (auto simp: settled_chain_def text_of_def split: option.splits)
  next
    case False
    with assms have at: "w_state x = W_authorized" "w_token x = Some token"
      by (auto simp: beginConsequenceInTransaction_def read split: if_splits)
    with assms have "and_then (update_wake w (\<lambda>r. w_state r = W_authorized \<and> w_token r = Some token) f db)
        (\<lambda>(changes, db1). if changes \<noteq> 1 then Inl ''consequence_exists''
          else and_then (getWakeRequired db1 w) (\<lambda>wake. Inr ((''consequence:'' @ uuid, wake), db1))) =
      Inr ((chain, r), db')"
      by (simp add: beginConsequenceInTransaction_def read Let_def f_def
          del: append.simps append_Cons split: if_splits)
    then obtain n where up: "update_wake w (\<lambda>r. w_state r = W_authorized \<and> w_token r = Some token) f db = Inr (n, db')"
      and res: "chain = ''consequence:'' @ uuid" "getWakeRequired db' w = Inr r"
      by (auto simp: and_then_eq_Inr simp del: append.simps append_Cons split: if_splits)
    from updated_row [OF up x] at have "wake_status (wakes db') w = Some (f x)"
      by (simp add: f_def)
    with res have "r = f x" "wake_status (wakes db') w = Some r" by (simp_all add: required_eq)
    then show ?thesis by (simp add: f_def settled_chain_def res)
  qed
qed

section \<open>Statements that keep the indexes\<close>

lemma unique_column_update:
  assumes "unique_column c rows" and "\<And>r. c (f r) = c r \<or> c (f r) = None"
  shows "unique_column c (sql_update P f rows)"
proof -
  have "rows_move (\<lambda>r r'. c r' = c r \<or> c r' = None) rows (sql_update P f rows)"
    by (rule rows_move_update) (rule assms(2))
  from rows_move_partial_unique [OF this, of "\<lambda>r. c r \<noteq> None" c] assms(1) show ?thesis
    by (auto simp: unique_column_def)
qed

lemma update_keeps_indexes:
  assumes "wake_inv (wakes db)"
    and "\<And>r. w_id (f r) = w_id r \<and> w_occurrence (f r) = w_occurrence r \<and> w_cycle (f r) = w_cycle r \<and>
      (w_chain (f r) = w_chain r \<or> w_chain (f r) = None) \<and> (w_token (f r) = w_token r \<or> w_token (f r) = None)"
  shows "update_wake w g f db = Inr (sql_changes (\<lambda>r. w_id r = w \<and> g r) (wakes db),
    db\<lparr>wakes := sql_update (\<lambda>r. w_id r = w \<and> g r) f (wakes db)\<rparr>)"
proof -
  have "wake_indexes (sql_update (\<lambda>r. w_id r = w \<and> g r) f (wakes db))"
    using assms by (simp add: wake_inv_def wake_indexes_def map_key_sql_update unique_column_update)
  then show ?thesis by (simp add: update_wake_eq Let_def)
qed

lemma update_succeeds:
  assumes "wake_inv (wakes db)" and "wake_status (wakes db) w = Some x" and "g x"
    and "\<And>r. w_id (f r) = w_id r \<and> w_occurrence (f r) = w_occurrence r \<and> w_cycle (f r) = w_cycle r \<and>
      (w_chain (f r) = w_chain r \<or> w_chain (f r) = None) \<and> (w_token (f r) = w_token r \<or> w_token (f r) = None)"
  shows "\<exists>db'. update_wake w g f db = Inr (1, db') \<and> wake_status (wakes db') w = Some (f x)"
proof -
  from update_keeps_indexes [OF assms(1,4)] obtain n db' where up: "update_wake w g f db = Inr (n, db')"
    by blast
  with unique_changes [OF assms(1) up assms(2)] updated_row [OF up assms(2)] assms(3,4) show ?thesis
    by simp
qed

lemma release_steps_inv:
  "release_authorized w now r db = Inr db' \<Longrightarrow> wake_inv (wakes db) \<Longrightarrow> wake_inv (wakes db')"
  using wake_table.steps_inv [OF release_steps] by blast

lemma claim_result:
  assumes "wake_inv (wakes db)"
    and "claimWakeInTransaction uuid w worker now lease db = Inr ((token, r), db')"
  shows "wake_status (wakes db') w = Some r \<and> w_state r = W_claimed \<and> w_token r = Some token \<and>
    w_owner r = Some worker \<and> w_expires r = Some (now + lease)"
proof -
  define f where "f t = (\<lambda>r :: wake_row. r\<lparr>w_state := W_claimed, w_owner := Some worker,
    w_token := Some t, w_expires := Some (now + lease), w_updated := now\<rparr>)" for t
  from assms(2) obtain x db1 n where rel: "release_authorized w now x db = Inr db1"
    and up: "update_wake w (claimable now) (f token) db1 = Inr (n, db')" and n: "n = 1"
    and r: "getWakeRequired db' w = Inr r"
    by (auto simp: claimWakeInTransaction_def and_then_eq_Inr Let_def f_def
        simp del: append.simps append_Cons split: if_splits)
  have inv: "wake_inv (wakes db1)" using release_steps_inv [OF rel assms(1)] .
  obtain y where y: "wake_status (wakes db1) w = Some y"
  proof (cases "wake_status (wakes db1) w")
    case None
    then have "sql_changes (\<lambda>r. w_id r = w \<and> claimable now r) (wakes db1) = 0"
      using sql_changes_key [of w_id "wakes db1" w "claimable now"] inv
      by (simp add: wake_status_def wake_inv_def wake_indexes_def del: sql_get_None_iff sql_changes_0)
    with up n show ?thesis by (auto simp: update_wake_eq Let_def simp del: sql_changes_0)
  qed
  have "claimable now y"
    using unique_changes [OF inv up y] n by (metis zero_neq_one)
  with updated_row [OF up y] r show ?thesis by (auto simp: f_def required_eq)
qed

section \<open>Admission twice\<close>

lemma store_cycles_eq:
  "store_cycles rows db = Inr db' \<longleftrightarrow>
     cycle_indexes rows \<and> db' = db\<lparr>effects := (effects db)\<lparr>cycle_records := rows\<rparr>\<rparr>"
  by (auto simp: store_cycles_def)

lemma cycle_key: "cycle_indexes rows \<Longrightarrow> r \<in> set rows \<Longrightarrow> sql_get (\<lambda>x. c_cycle x = c_cycle r) rows = Some r"
  unfolding cycle_indexes_def by (intro sql_get_key) auto

text \<open>A cycle that names a wake is left alone.\<close>

lemma ensure_settled:
  assumes "cycleIdFromWake db w (wi_cycleId i) = Inr c" and "find_cycle db c = Some x"
    and "c_wake x = Some w" and "c_conversation x = wi_conversationId i"
    and "cycle_indexes (cycle_records (effects db))"
  shows "ensureCycleInTransaction i w db = Inr db"
proof (cases "w = []")
  case True
  have x: "x \<in> set (cycle_records (effects db))" "c_cycle x = c"
    using sql_get_SomeD [OF assms(2) [unfolded find_cycle_def]] by auto
  have "r = x" if "r \<in> set (cycle_records (effects db))" "c_cycle r = c" for r
    using that x assms(5) by (auto simp: cycle_indexes_def distinct_map inj_on_def)
  then have "sql_update (\<lambda>r. c_cycle r = c \<and> c_wake r = None) g (cycle_records (effects db)) =
      cycle_records (effects db)" for g
    using assms(3) unfolding sql_update_def by (intro map_idI) auto
  with True assms show ?thesis
    by (simp add: ensureCycleInTransaction_def text_of_def store_cycles_def)
qed (use assms in \<open>simp add: ensureCycleInTransaction_def text_of_def\<close>)

lemma ensure_twice:
  assumes "ensureCycleInTransaction i w db = Inr db'"
  shows "ensureCycleInTransaction i w db' = Inr db'"
proof -
  from assms obtain c where c: "cycleIdFromWake db w (wi_cycleId i) = Inr c"
    by (auto simp: ensureCycleInTransaction_def and_then_eq_Inr)
  have c': "cycleIdFromWake db' w (wi_cycleId i) = Inr c"
    using c ensure_wakes [OF assms] by (simp add: cycleIdFromWake_def getWake_def)
  let ?rows = "cycle_records (effects db)" and ?rows' = "cycle_records (effects db')"
  show ?thesis
  proof (cases "find_cycle db c")
    case None
    then obtain g where "store_cycles (?rows @ [new_cycle i w c g]) db = Inr db'"
      using assms c by (auto simp: ensureCycleInTransaction_def Let_def split: if_splits)
    then have rows': "cycle_indexes ?rows'" "?rows' = ?rows @ [new_cycle i w c g]"
      by (auto simp: store_cycles_eq)
    then have "find_cycle db' c = Some (new_cycle i w c g)"
      using cycle_key [OF rows'(1), of "new_cycle i w c g"] by (simp add: find_cycle_def new_cycle_def)
    from ensure_settled [OF c' this _ _ rows'(1)] show ?thesis by (simp add: new_cycle_def)
  next
    case (Some x)
    show ?thesis
    proof (cases "text_of (c_wake x) = []")
      case False
      then have "db' = db"
        using assms c Some by (auto simp: ensureCycleInTransaction_def split: if_splits)
      with assms show ?thesis by simp
    next
      case True
      let ?u = "sql_update (\<lambda>r. c_cycle r = c \<and> c_wake r = None) (\<lambda>r. r\<lparr>c_wake := Some w\<rparr>) ?rows"
      have conv: "c_conversation x = wi_conversationId i" and "store_cycles ?u db = Inr db'"
        using assms c Some True by (auto simp: ensureCycleInTransaction_def split: if_splits)
      then have rows': "cycle_indexes ?rows'" "?rows' = ?u" by (auto simp: store_cycles_eq)
      have x: "find_cycle db' c = Some (if c_wake x = None then x\<lparr>c_wake := Some w\<rparr> else x)"
        using sql_get_update [of "\<lambda>r. c_cycle r = c \<and> c_wake r = None" c_cycle
            "\<lambda>r. r\<lparr>c_wake := Some w\<rparr>" c ?rows] Some sql_get_SomeD [OF Some [unfolded find_cycle_def]]
        by (simp add: rows'(2) find_cycle_def)
      show ?thesis
      proof (cases "c_wake x")
        case None
        with ensure_settled [OF c' x _ _ rows'(1)] conv show ?thesis by simp
      next
        case (Some v)
        with True have "?u = ?rows"
          using sql_get_SomeD [OF \<open>find_cycle db c = Some x\<close> [unfolded find_cycle_def]] rows'
          unfolding sql_update_def by (intro map_idI) (auto simp: cycle_indexes_def distinct_map inj_on_def)
        with rows' \<open>store_cycles ?u db = Inr db'\<close> have "db' = db" by (simp add: store_cycles_eq)
        with assms show ?thesis by simp
      qed
    qed
  qed
qed

section \<open>Properties\<close>


definition sample_admission :: wake_admission where
  "sample_admission = \<lparr>wi_occurrenceId = ''o'', wi_triggerRef = ''t'', wi_sourceKind = Src_inbox,
     wi_conversationId = ''c'', wi_cycleId = None, wi_generation = None, wi_triggerKind = None,
     wi_occupantId = None, wi_authorityEpoch = None, wi_architectureEpoch = None,
     wi_preemptedGeneration = None, wi_triggerGeneration = None, wi_authorityRevision = NInt 0,
     wi_nowMs = 0\<rparr>"

definition no_wakes :: wake_db where
  "no_wakes = \<lparr>wakes = [], effects = \<lparr>in_flight_effects = [], effect_receipts = [],
     cycle_records = [], frictions = []\<rparr>, frontiers = []\<rparr>"

definition sample_admitted :: wake_db where
  "sample_admitted = snd (admitWake (\<lambda>s. s) sample_admission no_wakes)"

definition sample_claimed :: wake_db where
  "sample_claimed = snd (claimWake ''u1'' ''wake:o'' ''worker'' 10 1000 sample_admitted)"

definition sample_authorized :: wake_db where
  "sample_authorized = snd (authorizeWake ''wake:o'' ''wake-lease:u1'' 20 sample_claimed)"

lemma wake_transaction_step:
  "(\<And>x db'. body db = Inr (x, db') \<Longrightarrow> wake_step db db') \<Longrightarrow>
     wake_step db (snd (in_immediate_transaction body db))"
  by (cases "body db") (auto simp: in_immediate_transaction_def intro: step_other)

lemma sample_steps:
  "wake_step no_wakes sample_admitted" "wake_step sample_admitted sample_claimed"
  "wake_step sample_claimed sample_authorized"
  unfolding sample_admitted_def sample_claimed_def sample_authorized_def admitWake_def claimWake_def
    authorizeWake_def
  by (auto intro!: wake_transaction_step intro: step_admit step_claim step_authorize step_other)

lemma wakes_reach: "wake_step\<^sup>*\<^sup>* no_wakes sample_authorized"
  using sample_steps by (meson r_into_rtranclp rtranclp.rtrancl_into_rtrancl)



definition sample_begun :: "(string \<times> wake_row) throws \<times> wake_db" where
  "sample_begun = beginConsequence ''u2'' ''wake:o'' ''wake-lease:u1'' (NInt 1) 30 sample_authorized"

lemma sample_begins:
  "\<exists>r. beginConsequenceInTransaction ''u2'' ''wake:o'' ''wake-lease:u1'' (NInt 1) 30 sample_authorized =
     Inr ((''consequence:u2'', r), snd sample_begun)"
proof -
  have "case fst sample_begun of Inl e \<Rightarrow> False | Inr y \<Rightarrow> fst y = ''consequence:u2''" by code_simp
  then show ?thesis
    by (auto simp: sample_begun_def beginConsequence_def in_immediate_transaction_def
        split: sum.splits prod.splits)
qed


text \<open>
  A terminal wake is final: whatever steps follow, its row stays in the table as it is, with
  its reason, and finishing it for another reason throws.
\<close>

theorem wake_terminal_final:
  assumes "wakes db0 = []" and "wake_step\<^sup>*\<^sup>* db0 db" and "wake_step\<^sup>*\<^sup>* db db'"
    and "r \<in> set (wakes db)" and "w_state r = W_terminal"
  shows "r \<in> set (wakes db') \<and> (\<forall>tok reason now. w_reason r \<noteq> Some reason \<longrightarrow>
    finishWakeInTransaction (w_id r) tok reason now db' = Inl ''terminal_immutable'')"
proof -
  have "wake_inv []" by (simp add: wake_inv_def wake_indexes_def unique_column_def)
  with wake_table.steps_inv [OF steps_table [OF assms(2)]] assms(1) have inv: "wake_inv (wakes db)" by simp
  have "\<not> wake_move r x" for x
    using assms(5) by (auto elim!: wake_move.cases simp: holds_lease_def)
  then have "wake_status (wakes db') (w_id r) = Some r"
    using wake_rows.terminal_forever [OF steps_table [OF assms(3)] status_of_row [OF inv assms(4)]]
    by blast
  then show ?thesis
    using assms(5) wake_status_id
    by (auto simp: finishWakeInTransaction_def required_eq [symmetric])
qed

definition sample_cancelled :: wake_db where
  "sample_cancelled = snd (cancelWake ''u4'' ''wake:o'' None 40 sample_claimed)"

theorem wake_terminal_final_witness:
  "\<forall>now. finishWakeInTransaction ''wake:o'' None R_completed now sample_cancelled = Inl ''terminal_immutable''"
proof -
  have step: "wake_step sample_claimed sample_cancelled"
    unfolding sample_cancelled_def cancelWake_def
    by (auto intro!: wake_transaction_step intro: step_cancel)
  have "list_ex (\<lambda>r. w_id r = ''wake:o'' \<and> w_state r = W_terminal \<and> w_reason r \<noteq> Some R_completed)
      (wakes sample_cancelled)"
    by code_simp
  then obtain r where r: "r \<in> set (wakes sample_cancelled)" "w_id r = ''wake:o''"
    "w_state r = W_terminal" "w_reason r \<noteq> Some R_completed"
    by (auto simp: list_ex_iff)
  have "wake_step\<^sup>*\<^sup>* no_wakes sample_cancelled"
    using sample_steps(1,2) step by (meson r_into_rtranclp rtranclp.rtrancl_into_rtrancl)
  from wake_terminal_final [OF _ this rtranclp.rtrancl_refl r(1,3)] r(2,4) show ?thesis
    by (simp add: no_wakes_def)
qed

text \<open>
  C26. The lease excludes the other workers. After a successful claim every claim before the lease
  ends is refused, authorizing or finishing the wake needs the token of the claim, and the
  holder's authorization before the end of the lease succeeds and keeps the exclusion.
\<close>

theorem wake_lease_exclusive:
  assumes "wake_inv (wakes db)"
    and "claimWakeInTransaction uuid w worker now lease db = Inr ((token, r), db1)"
  shows "(\<forall>uuid' worker' n l. n < now + lease \<longrightarrow>
      claimWakeInTransaction uuid' w worker' n l db1 = Inl ''lease_held'') \<and>
    (\<forall>t n. t \<noteq> token \<longrightarrow> authorizeWakeInTransaction w t n db1 = Inl ''lease_lost'') \<and>
    (\<forall>t reason n. t \<noteq> Some token \<longrightarrow> finishWakeInTransaction w t reason n db1 = Inl ''lease_lost'') \<and>
    (\<forall>n. n < now + lease \<longrightarrow> (\<exists>r' db2. authorizeWakeInTransaction w token n db1 = Inr (r', db2) \<and>
      (\<forall>uuid' worker' m l. m < now + lease \<longrightarrow>
        claimWakeInTransaction uuid' w worker' m l db2 = Inl ''wake_not_claimable'')))"
proof -
  from claim_result [OF assms] have r: "getWakeRequired db1 w = Inr r" "w_state r = W_claimed"
    "w_token r = Some token" "w_expires r = Some (now + lease)"
    by (simp_all add: required_eq)
  have inv: "wake_inv (wakes db1)"
    using wake_table.steps_inv [OF claim_steps [OF assms(2)] assms(1)] .
  have held: "claimWakeInTransaction uuid' w worker' n l db1 = Inl ''lease_held''"
    if "n < now + lease" for uuid' worker' n l
    using that r by (simp add: claimWakeInTransaction_def release_authorized_def lease_running_def)
  have authorized: "\<exists>r' db2. authorizeWakeInTransaction w token n db1 = Inr (r', db2) \<and>
      (\<forall>uuid' worker' m l. m < now + lease \<longrightarrow>
        claimWakeInTransaction uuid' w worker' m l db2 = Inl ''wake_not_claimable'')"
    if n: "n < now + lease" for n
  proof -
    obtain db2 where up: "update_wake w (\<lambda>r. w_state r = W_claimed \<and> w_token r = Some token \<and>
        \<not> wake_lease_over n r) (\<lambda>r. r\<lparr>w_state := W_authorized, w_updated := n\<rparr>) db1 = Inr (1, db2)"
      and st: "wake_status (wakes db2) w = Some (r\<lparr>w_state := W_authorized, w_updated := n\<rparr>)"
      using update_succeeds [OF inv, of w r "\<lambda>r. w_state r = W_claimed \<and> w_token r = Some token \<and>
          \<not> wake_lease_over n r" "\<lambda>r. r\<lparr>w_state := W_authorized, w_updated := n\<rparr>"] r n
      by (auto simp: required_eq wake_lease_over_def)
    then have r2: "getWakeRequired db2 w = Inr (r\<lparr>w_state := W_authorized, w_updated := n\<rparr>)"
      by (simp add: required_eq)
    have "authorizeWakeInTransaction w token n db1 = Inr (r\<lparr>w_state := W_authorized, w_updated := n\<rparr>, db2)"
      using r n up r2 by (simp add: authorizeWakeInTransaction_def wake_lease_over_def)
    moreover have "claimWakeInTransaction uuid' w worker' m l db2 = Inl ''wake_not_claimable''"
      if "m < now + lease" for uuid' worker' m l
      using that r r2
      by (simp add: claimWakeInTransaction_def release_authorized_def wake_lease_over_def)
    ultimately show ?thesis by blast
  qed
  show ?thesis
    using held authorized r
    by (auto simp: authorizeWakeInTransaction_def finishWakeInTransaction_def finish_refusal_def)
qed

theorem wake_lease_exclusive_witness:
  "claimWakeInTransaction ''u5'' ''wake:o'' ''other'' 1009 50 sample_claimed = Inl ''lease_held'' \<and>
   authorizeWakeInTransaction ''wake:o'' ''wake-lease:u5'' 20 sample_claimed = Inl ''lease_lost''"
proof -
  have "wake_inv (wakes sample_admitted)" by code_simp
  moreover have "case fst (claimWake ''u1'' ''wake:o'' ''worker'' 10 1000 sample_admitted) of
      Inl e \<Rightarrow> False | Inr y \<Rightarrow> fst y = ''wake-lease:u1''"
    by code_simp
  then have "\<exists>r. claimWakeInTransaction ''u1'' ''wake:o'' ''worker'' 10 1000 sample_admitted =
      Inr ((''wake-lease:u1'', r), sample_claimed)"
    by (auto simp: sample_claimed_def claimWake_def in_immediate_transaction_def
        split: sum.splits prod.splits if_splits)
  ultimately show ?thesis
    using wake_lease_exclusive [where now = 10 and lease = 1000] by fastforce
qed

text \<open>
  Admission can be repeated: a producer that admits the same occurrence again gets the same
  wake, reported as existing where the first call created it, and changes nothing.
\<close>

theorem admission_idempotent:
  assumes "admitWakeInTransaction sha i db = Inr ((k, r), db')"
  shows "admitWakeInTransaction sha i db' =
    Inr ((if k = Wake_created then Wake_existing else k, r), db')"
proof (cases "sql_get (\<lambda>r. w_occurrence r = wi_occurrenceId i) (wakes db)")
  case (Some e)
  with assms have v: "validate_admission i = Inr ()" and re: "readmit_wake i e db = Inr ((k, r), db')"
    by (auto simp: admitWakeInTransaction_def and_then_eq_Inr)
  then have en: "ensureCycleInTransaction i (w_id e) db = Inr db'"
    by (auto simp: readmit_wake_def and_then_eq_Inr split: if_splits)
  have "readmit_wake i e db' = Inr ((k, r), db')" "k \<noteq> Wake_created"
    using re ensure_twice [OF en] by (auto simp: readmit_wake_def and_then_eq_Inr split: if_splits)
  with Some v ensure_wakes [OF en] show ?thesis
    by (simp add: admitWakeInTransaction_def)
next
  case None
  define w where "w = wakeIdFor sha (wi_occurrenceId i)"
  define c where "c = (case wi_cycleId i of Some c \<Rightarrow> c | None \<Rightarrow> cycleIdFor sha w)"
  from assms None obtain db1 where v: "validate_admission i = Inr ()"
    and st: "store_wakes (wakes db @ [new_wake i w c]) db = Inr db1"
    and en: "ensureCycleInTransaction i w db1 = Inr db'" and r: "getWakeRequired db' w = Inr r"
    and k: "k = Wake_created"
    by (auto simp: admitWakeInTransaction_def and_then_eq_Inr Let_def w_def [symmetric]
        c_def [symmetric] simp del: sql_get_None_iff split: if_splits)
  have ws: "wakes db' = wakes db @ [new_wake i w c]"
    using st ensure_wakes [OF en] by (simp add: store_wakes_eq)
  have get: "sql_get (\<lambda>r. w_occurrence r = wi_occurrenceId i) (wakes db') = Some (new_wake i w c)"
    using None by (simp add: ws sql_get_append new_wake_def del: sql_get_None_iff)
  have "readmit_wake i (new_wake i w c) db' = Inr ((Wake_existing, r), db')"
    using ensure_twice [OF en] r
    by (auto simp: readmit_wake_def new_wake_def c_def split: option.splits)
  with get v k show ?thesis by (simp add: admitWakeInTransaction_def)
qed

theorem admission_idempotent_witness:
  "\<exists>r. admitWakeInTransaction (\<lambda>s. s) sample_admission sample_admitted = Inr ((Wake_existing, r), sample_admitted)"
proof -
  have "case fst (admitWake (\<lambda>s. s) sample_admission no_wakes) of Inl e \<Rightarrow> False | Inr y \<Rightarrow> fst y = Wake_created"
    by code_simp
  then have "\<exists>r. admitWakeInTransaction (\<lambda>s. s) sample_admission no_wakes = Inr ((Wake_created, r), sample_admitted)"
    by (auto simp: sample_admitted_def admitWake_def in_immediate_transaction_def
        split: sum.splits prod.splits)
  then show ?thesis using admission_idempotent by fastforce
qed

end
