(* ===== verification/Wake_Recovery.thy ===== *)
theory Wake_Recovery
  imports Wake_Lifecycle
begin

text \<open>
  The recovery loop of the wake ledger refines a specification of one row: \<open>recover_row\<close> says what
  becomes of a wake, from its own row and the effects and cycles the loop only reads.
\<close>

section \<open>The specification\<close>

definition orphaned :: "effect_db \<Rightarrow> wake_row \<Rightarrow> bool" where
  "orphaned eff r \<longleftrightarrow> (case sql_get (\<lambda>c. c_cycle c = w_cycle r) (cycle_records eff) of
     None \<Rightarrow> True | Some c \<Rightarrow> text_of (c_wake c) \<noteq> w_id r)"

definition recover_row :: "int \<Rightarrow> effect_db \<Rightarrow> wake_row \<Rightarrow> wake_row" where
  "recover_row now eff r =
     (if w_state r = W_terminal then r
      else if orphaned eff r then to_terminal R_quarantined now r
      else if w_state r = W_consequence_pending then r\<lparr>w_state := W_reconciling, w_updated := now\<rparr>
      else if (w_state r = W_claimed \<or> w_state r = W_authorized) \<and> wake_lease_over now r
      then if getUnresolvedInFlightForWake eff (w_id r) \<noteq> None
        then r\<lparr>w_state := W_reconciling, w_updated := now\<rparr> else to_pending now r
      else r)"

lemma recover_row_id [simp]: "w_id (recover_row now eff r) = w_id r"
  by (simp add: recover_row_def wake_row_ops)

lemma recover_row_unchanged:
  "\<not> orphaned eff r \<Longrightarrow> w_state r \<noteq> W_terminal \<Longrightarrow> w_state r \<noteq> W_consequence_pending \<Longrightarrow>
     \<not> ((w_state r = W_claimed \<or> w_state r = W_authorized) \<and> wake_lease_over now r) \<Longrightarrow>
     recover_row now eff r = r"
  by (simp only: recover_row_def if_False)

section \<open>One wake\<close>

lemma update_same_row:
  assumes "\<And>x. x \<in> set rows \<Longrightarrow> w_id x = w \<Longrightarrow> x = r" and "g r" and "f r = h r"
  shows "sql_update (\<lambda>x. w_id x = w \<and> g x) f rows = sql_update (\<lambda>x. w_id x = w) h rows"
  unfolding sql_update_def using assms by (intro map_cong) auto

lemma recover_wake_spec:
  assumes "wake_inv (wakes db)" and "wake_status (wakes db) w = Some r"
  shows "\<exists>k'. recover_wake now w (k, db) = Inr (k', db\<lparr>wakes :=
    sql_update (\<lambda>x. w_id x = w) (recover_row now (effects db)) (wakes db)\<rparr>)"
proof -
  have id: "w_id r = w" "r \<in> set (wakes db)" using wake_status_id [OF assms(2)] by auto
  have only: "\<And>x. x \<in> set (wakes db) \<Longrightarrow> w_id x = w \<Longrightarrow> x = r"
    using assms(1) id by (auto simp: wake_inv_def wake_indexes_def distinct_map inj_on_def)
  have same: "sql_update (\<lambda>x. w_id x = w) h (wakes db) = wakes db" if "h r = r" for h
    using only that unfolding sql_update_def by (intro map_idI) auto
  have get: "getWake db w = Some r" using assms(2) by (simp add: getWake_status)
  have orphan: "(case find_cycle db (w_cycle r) of None \<Rightarrow> True | Some c \<Rightarrow> text_of (c_wake c) \<noteq> w) =
      orphaned (effects db) r"
    unfolding orphaned_def find_cycle_def id(1) by (rule refl)
  have up: "\<exists>n. update_wake w g f db = Inr (n, db\<lparr>wakes := sql_update (\<lambda>x. w_id x = w) h (wakes db)\<rparr>)"
    if "g r" "f r = h r"
      "\<And>r. w_id (f r) = w_id r \<and> w_occurrence (f r) = w_occurrence r \<and> w_cycle (f r) = w_cycle r \<and>
        (w_chain (f r) = w_chain r \<or> w_chain (f r) = None) \<and> (w_token (f r) = w_token r \<or> w_token (f r) = None)"
    for g f h
    using update_keeps_indexes [OF assms(1) that(3), where w = w and g = g]
      update_same_row [where g = g and f = f and h = h, OF only that(1,2)] by simp
  note q = up [where h = "recover_row now (effects db)" and f = "to_terminal R_quarantined now"
      and g = "\<lambda>r. w_state r \<noteq> W_terminal"]
  note c = up [where h = "recover_row now (effects db)" and f = "\<lambda>r. r\<lparr>w_state := W_reconciling, w_updated := now\<rparr>"
      and g = "\<lambda>r. w_state r = W_consequence_pending"]
  note l = up [where h = "recover_row now (effects db)" and f = "\<lambda>r. r\<lparr>w_state := W_reconciling, w_updated := now\<rparr>"
      and g = "\<lambda>r. w_state r = W_claimed \<or> w_state r = W_authorized"]
  note p = up [where h = "recover_row now (effects db)" and f = "to_pending now"
      and g = "\<lambda>r. w_state r = W_claimed \<or> w_state r = W_authorized"]
  consider "recover_row now (effects db) r = r" "w_state r = W_terminal"
    | "w_state r \<noteq> W_terminal" "orphaned (effects db) r"
    | "\<not> orphaned (effects db) r" "w_state r = W_consequence_pending"
    | "\<not> orphaned (effects db) r" "w_state r = W_claimed \<or> w_state r = W_authorized" "wake_lease_over now r"
      "hasAmbiguousEffect db w"
    | "\<not> orphaned (effects db) r" "w_state r = W_claimed \<or> w_state r = W_authorized" "wake_lease_over now r"
      "\<not> hasAmbiguousEffect db w"
    | "\<not> orphaned (effects db) r" "w_state r \<noteq> W_terminal" "w_state r \<noteq> W_consequence_pending"
      "\<not> ((w_state r = W_claimed \<or> w_state r = W_authorized) \<and> wake_lease_over now r)"
    by (cases "w_state r = W_terminal"; cases "orphaned (effects db) r") (auto simp: recover_row_def)
  then show ?thesis
  proof cases
    case 1
    with same show ?thesis by (simp add: recover_wake_def get)
  next
    case 2
    with q show ?thesis
      by (fastforce simp: recover_wake_def get orphan recover_row_def wake_row_ops)
  next
    case 3
    with c show ?thesis
      by (fastforce simp: recover_wake_def get orphan recover_row_def)
  next
    case 4
    with l show ?thesis
      by (fastforce simp: recover_wake_def get orphan recover_row_def hasAmbiguousEffect_def id)
  next
    case 5
    then have "recover_row now (effects db) r = to_pending now r"
      by (auto simp: recover_row_def hasAmbiguousEffect_def id)
    with p 5 obtain n where "update_wake w (\<lambda>r. w_state r = W_claimed \<or> w_state r = W_authorized)
        (to_pending now) db = Inr (n, db\<lparr>wakes :=
          sql_update (\<lambda>x. w_id x = w) (recover_row now (effects db)) (wakes db)\<rparr>)"
      by (auto simp: to_pending_def clear_lease_def)
    with 5 show ?thesis
      by (auto simp: recover_wake_def get orphan)
  next
    case 6
    from same [of "recover_row now (effects db)"] recover_row_unchanged [OF this(1-4)] this show ?thesis
      by (cases "w_state r = W_reconciling") (simp_all add: recover_wake_def get orphan, blast)
  qed
qed

section \<open>The loop\<close>

lemma recover_loop_spec:
  assumes "wake_inv (wakes db)" and "distinct ws"
    and "\<forall>w \<in> set ws. w \<noteq> [] \<and> wake_status (wakes db) w \<noteq> None"
  shows "\<exists>k'. recover_loop now ws (k, db) = (Inr k', db\<lparr>wakes :=
    map (\<lambda>r. if w_id r \<in> set ws then recover_row now (effects db) r else r) (wakes db)\<rparr>)"
  using assms
proof (induction ws arbitrary: k db)
  case (Cons w ws)
  let ?f = "recover_row now (effects db)"
  let ?db1 = "db\<lparr>wakes := sql_update (\<lambda>x. w_id x = w) ?f (wakes db)\<rparr>"
  from Cons.prems obtain r where "wake_status (wakes db) w = Some r" by auto
  from recover_wake_spec [OF Cons.prems(1) this] obtain k1
    where one: "recover_wake now w (k, db) = Inr (k1, ?db1)" by blast
  have "wake_inv (wakes ?db1)"
    using wake_table.steps_inv [OF recover_update [OF one, THEN reflcl_steps] Cons.prems(1)] .
  moreover have "wake_status (wakes ?db1) v \<noteq> None" if "wake_status (wakes db) v \<noteq> None" for v
    using that sql_get_update [of "\<lambda>x. w_id x = w" w_id ?f v "wakes db"]
    by (simp add: wake_status_def del: sql_get_None_iff)
  ultimately obtain k' where "recover_loop now ws (k1, ?db1) = (Inr k', ?db1\<lparr>wakes :=
      map (\<lambda>r. if w_id r \<in> set ws then recover_row now (effects ?db1) r else r) (wakes ?db1)\<rparr>)"
    using Cons.IH [of ?db1 k1] Cons.prems by auto
  moreover have eff: "effects ?db1 = effects db" by simp
  ultimately have loop: "recover_loop now ws (k1, ?db1) = (Inr k', ?db1\<lparr>wakes :=
      map (\<lambda>r. if w_id r \<in> set ws then ?f r else r) (wakes ?db1)\<rparr>)"
    by (simp only: eff)
  have rows: "map (\<lambda>r. if w_id r \<in> set ws then ?f r else r) (wakes ?db1) =
      map (\<lambda>r. if w_id r \<in> set (w # ws) then ?f r else r) (wakes db)"
    using Cons.prems(2) by (auto simp: sql_update_def)
  have "recover_loop now (w # ws) (k, db) = recover_loop now ws (k1, ?db1)"
    using one Cons.prems(3) by simp
  also have "\<dots> = (Inr k', db\<lparr>wakes := map (\<lambda>r. if w_id r \<in> set (w # ws) then ?f r else r) (wakes db)\<rparr>)"
    unfolding loop rows by simp
  finally show ?case by blast
qed (auto simp: map_idI)

text \<open>
  C25. Recovery refines the specification row by row: it never throws, changes no other table, and
  every wake becomes what \<open>recover_row\<close> says of it. So afterwards no claimed or authorized wake
  has a lease that is over, a consequence that was pending is being reconciled, and a wake with an
  unresolved effect is never handed out as pending again.
\<close>

theorem recovery_refines_rows:
  assumes "wake_inv (wakes db)" and "\<forall>r \<in> set (wakes db). w_id r \<noteq> []"
  shows "(\<exists>k. recoverWakes now db =
      (Inr k, db\<lparr>wakes := map (recover_row now (effects db)) (wakes db)\<rparr>)) \<and>
    (\<forall>r \<in> set (wakes db). let r' = recover_row now (effects db) r in
      (w_state r' = W_claimed \<or> w_state r' = W_authorized \<longrightarrow> \<not> wake_lease_over now r') \<and>
      w_state r' \<noteq> W_consequence_pending \<and>
      (w_state r' = W_pending \<and> w_state r \<noteq> W_pending \<longrightarrow> \<not> hasAmbiguousEffect db (w_id r)))"
proof
  let ?ids = "map w_id (sort_key w_created (sort_key w_id (filter (\<lambda>r. w_state r \<noteq> W_terminal) (wakes db))))"
  have d: "distinct (map w_id (wakes db))" using assms(1) by (simp add: wake_inv_def wake_indexes_def)
  then have "inj_on w_id (set (wakes db))" "distinct (wakes db)" by (simp_all add: distinct_map)
  then have "distinct ?ids" by (auto simp: distinct_map inj_on_def)
  moreover have "\<forall>w \<in> set ?ids. w \<noteq> [] \<and> wake_status (wakes db) w \<noteq> None"
    using assms(2) status_of_row [OF assms(1)] by auto
  ultimately obtain k where k: "recoverWakes now db = (Inr k, db\<lparr>wakes :=
      map (\<lambda>r. if w_id r \<in> set ?ids then recover_row now (effects db) r else r) (wakes db)\<rparr>)"
    using recover_loop_spec [OF assms(1)] unfolding recoverWakes_def by blast
  have "(if w_id r \<in> set ?ids then recover_row now (effects db) r else r) = recover_row now (effects db) r"
    if "r \<in> set (wakes db)" for r
    using that by (auto simp: recover_row_def)
  then have "map (\<lambda>r. if w_id r \<in> set ?ids then recover_row now (effects db) r else r) (wakes db) =
      map (recover_row now (effects db)) (wakes db)"
    by (intro map_cong) auto
  with k show "\<exists>k. recoverWakes now db =
      (Inr k, db\<lparr>wakes := map (recover_row now (effects db)) (wakes db)\<rparr>)" by metis
qed (auto simp: recover_row_def wake_row_ops hasAmbiguousEffect_def Let_def)

theorem recovery_refines_rows_witness:
  "\<exists>k. recoverWakes 5000 sample_authorized = (Inr k, sample_authorized\<lparr>wakes :=
     map (recover_row 5000 (effects sample_authorized)) (wakes sample_authorized)\<rparr>)"
proof -
  have "wake_inv (wakes sample_authorized)" by code_simp
  moreover have "list_all (\<lambda>r. w_id r \<noteq> []) (wakes sample_authorized)" by code_simp
  ultimately show ?thesis using recovery_refines_rows by (simp add: list_all_iff)
qed

end
