(* ===== verification/Json_Text.thy ===== *)
theory Json_Text
  imports Prelude
begin

text \<open>
  The texts the program signs and hashes: the decimal text of an integer, the quoted text of a
  string, and \<open>stableJson\<close> of \<^verbatim>\<open>model-fabric/hash.ts\<close>, with the facts that make them readable
  again: each text ends where it says it ends, so a text that follows it can be split off.
  Integers are printed in full, as JavaScript does below \<open>1e21\<close>.
\<close>

section \<open>Integers\<close>

function digits_text :: "int \<Rightarrow> string" where
  "digits_text n = (if n < 10 then [char_of (48 + n)] else digits_text (n div 10) @ [char_of (48 + n mod 10)])"
  by pat_completeness auto

termination digits_text
  by (relation "measure nat") auto

declare digits_text.simps [simp del]

definition int_text :: "int \<Rightarrow> string" where
  "int_text i = (if i < 0 then CHR ''-'' # digits_text (- i) else digits_text i)"

fun num_text :: "js_num \<Rightarrow> string" where
  "num_text (NInt i) = int_text i"
| "num_text (NOther s) = s"

fun finite_num :: "js_num \<Rightarrow> bool" where
  "finite_num (NInt i) = True"
| "finite_num (NOther s) = (s \<noteq> ''NaN'' \<and> s \<noteq> ''Infinity'' \<and> s \<noteq> ''-Infinity'')"

section \<open>Strings\<close>

definition hex_digit :: "nat \<Rightarrow> char" where
  "hex_digit n = char_of (if n < 10 then 48 + n else 87 + n)"

text \<open>The characters of a string inside \<open>JSON.stringify\<close>.\<close>

definition json_char :: "char \<Rightarrow> string" where
  "json_char c = (let n = of_char c :: nat in
     if c = CHR 0x22 then [CHR 0x5C, CHR 0x22] else if c = CHR 0x5C then [CHR 0x5C, CHR 0x5C]
     else if n = 8 then [CHR 0x5C, CHR ''b''] else if n = 9 then [CHR 0x5C, CHR ''t'']
     else if n = 10 then [CHR 0x5C, CHR ''n''] else if n = 12 then [CHR 0x5C, CHR ''f'']
     else if n = 13 then [CHR 0x5C, CHR ''r'']
     else if n < 32 then [CHR 0x5C, CHR ''u'', CHR ''0'', CHR ''0'', hex_digit (n div 16), hex_digit (n mod 16)]
     else [c])"

definition json_string_text :: "string \<Rightarrow> string" where
  "json_string_text s = [CHR 0x22] @ concat (map json_char s) @ [CHR 0x22]"

section \<open>Values\<close>

definition field_text :: "string \<Rightarrow> string \<Rightarrow> string" where
  "field_text k t = json_string_text k @ '':'' @ t"

definition list_text :: "string list \<Rightarrow> string" where
  "list_text ts = ''['' @ js_join '','' ts @ '']''"

definition object_text :: "string list \<Rightarrow> string" where
  "object_text ts = ''{'' @ js_join '','' ts @ ''}''"

text \<open>The string order is the order of the code units, that of \<open>Array.prototype.sort\<close>.\<close>

function stableJson :: "js_value \<Rightarrow> string" where
  "stableJson JNull = ''null''"
| "stableJson (JStr s) = json_string_text s"
| "stableJson (JBool b) = (if b then ''true'' else ''false'')"
| "stableJson (JNum n) = (if finite_num n then num_text n else ''null'')"
| "stableJson JUndefined = ''null''"
| "stableJson (JArr vs) = list_text (map stableJson vs)"
| "stableJson (JObj fs) = object_text (map (\<lambda>f. field_text (fst f) (stableJson (snd f)))
     (sort_key fst (filter (\<lambda>f. snd f \<noteq> JUndefined) fs)))"
  by pat_completeness auto

lemma size_field: "f \<in> set fs \<Longrightarrow> size (snd f) < Suc (size_list (size_prod (\<lambda>_. 0) size) fs)"
  using size_list_estimation' [of f fs "size (snd f)" "size_prod (\<lambda>_. 0) size"]
  by (cases f) simp

termination stableJson
proof (relation "measure size")
  show "(v, JArr vs) \<in> measure size" if "v \<in> set vs" for v vs
    using size_list_estimation' [OF that order_refl, of size] by simp
  show "(snd f, JObj fs) \<in> measure size"
    if "f \<in> set (sort_key fst (filter (\<lambda>f. snd f \<noteq> JUndefined) fs))" for f fs
    using that size_field [of f fs] by simp
qed simp

definition sha256 :: "(string \<Rightarrow> string) \<Rightarrow> js_value \<Rightarrow> string" where
  "sha256 sha v = sha (stableJson v)"

section \<open>Where a text ends\<close>

text \<open>What may follow a value inside a list or an object, or at the end of the text.\<close>

definition delimited :: "string \<Rightarrow> bool" where
  "delimited r \<longleftrightarrow> r = [] \<or> hd r \<in> {CHR '','', CHR '']'', CHR ''}''}"

lemma delimited_simps [simp]:
  "delimited []" "delimited (CHR '','' # r)" "delimited (CHR '']'' # r)" "delimited (CHR ''}'' # r)"
  by (simp_all add: delimited_def)

definition digit_chars :: "char set" where
  "digit_chars = set ''0123456789''"

definition num_chars :: "char set" where
  "num_chars = digit_chars \<union> set ''-+.e''"

text \<open>The text of a number that is no integer: it has a fraction or an exponent.\<close>

definition other_number :: "string \<Rightarrow> bool" where
  "other_number s \<longleftrightarrow> set s \<subseteq> num_chars \<and> (CHR ''.'' \<in> set s \<or> CHR ''e'' \<in> set s)"

fun wf_num :: "js_num \<Rightarrow> bool" where
  "wf_num (NInt i) = True"
| "wf_num (NOther s) = other_number s"

definition digits_value :: "string \<Rightarrow> int" where
  "digits_value = foldl (\<lambda>a c. 10 * a + (of_char c - 48)) 0"

lemma digit_char_simps:
  assumes "0 \<le> n" and "n < (10::int)"
  shows "char_of (48 + n) \<in> digit_chars" and "(of_char (char_of (48 + n) :: char) :: int) = 48 + n"
proof -
  have "list_all (\<lambda>n. char_of (48 + n :: int) \<in> set ''0123456789'') [0, 1, 2, 3, 4, 5, 6, 7, 8, 9]"
    by code_simp
  moreover from assms have "n \<in> set [0, 1, 2, 3, 4, 5, 6, 7, 8, 9]"
    unfolding list.set insert_iff empty_iff by presburger
  ultimately show "char_of (48 + n) \<in> digit_chars"
    unfolding digit_chars_def list_all_iff by (rule bspec)
  show "(of_char (char_of (48 + n) :: char) :: int) = 48 + n"
    using assms by simp
qed

lemma digits_value_text: "0 \<le> n \<Longrightarrow> digits_value (digits_text n) = n"
proof (induction n rule: digits_text.induct)
  case (1 n)
  then show ?case
    using digit_char_simps [of n] digit_char_simps [of "n mod 10"]
    by (subst digits_text.simps) (auto simp: digits_value_def)
qed

lemma set_digits_text: "0 \<le> n \<Longrightarrow> set (digits_text n) \<subseteq> digit_chars"
proof (induction n rule: digits_text.induct)
  case (1 n)
  then show ?case
    using digit_char_simps [of n] digit_char_simps [of "n mod 10"]
    by (subst digits_text.simps) auto
qed

lemma int_text_inj: "int_text i = int_text j \<Longrightarrow> i = j"
proof -
  have minus: "CHR ''-'' # s \<noteq> digits_text n" if "0 \<le> n" for s n
  proof
    assume "CHR ''-'' # s = digits_text n"
    then have "CHR ''-'' \<in> set (digits_text n)" by (metis list.set_intros(1))
    with set_digits_text [OF that] show False by (auto simp: digit_chars_def)
  qed
  assume "int_text i = int_text j"
  then consider "i < 0" "j < 0" "digits_text (- i) = digits_text (- j)"
    | "0 \<le> i" "0 \<le> j" "digits_text i = digits_text j"
    using minus [of j] minus [of i] by (auto simp: int_text_def split: if_splits)
  then show "i = j"
    using digits_value_text by cases (metis neg_0_le_iff_le order_less_imp_le neg_equal_iff_equal, metis)
qed

lemma set_int_text: "set (int_text i) \<subseteq> insert (CHR ''-'') digit_chars"
  using set_digits_text [of i] set_digits_text [of "- i"] by (auto simp: int_text_def)

lemma set_num_text: "wf_num n \<Longrightarrow> set (num_text n) \<subseteq> num_chars"
  using set_int_text by (cases n) (fastforce simp: num_chars_def other_number_def)+

lemma num_text_inj:
  assumes "wf_num n" and "wf_num m" and "num_text n = num_text m"
  shows "n = m"
proof -
  have no: "\<not> other_number (int_text i)" for i
    using set_int_text [of i] by (auto simp: other_number_def digit_chars_def)
  show ?thesis
    using assms no by (cases n; cases m) (auto dest: int_text_inj)
qed

lemma split_number:
  assumes "wf_num n" and "wf_num m" and "num_text n @ r = num_text m @ s"
    and "delimited r" and "delimited s"
  shows "n = m \<and> r = s"
proof -
  have stop: "takeWhile (\<lambda>c. c \<in> num_chars) (num_text k @ t) = num_text k"
    if "wf_num k" and "delimited t" for k t
  proof -
    have "takeWhile (\<lambda>c. c \<in> num_chars) t = []"
      using that(2) by (cases t) (auto simp: delimited_def num_chars_def digit_chars_def)
    then show ?thesis
      using set_num_text [OF that(1)] by (subst takeWhile_append2) auto
  qed
  from stop [OF assms(1,4)] stop [OF assms(2,5)] assms(3)
  have "num_text n = num_text m" by simp
  with assms num_text_inj show ?thesis by force
qed

section \<open>Where a quoted text ends\<close>

definition escaped :: "char list" where
  "escaped = CHR 0x22 # CHR 0x5C # map char_of [0..<32::nat]"

lemma plain_char: "c \<notin> set escaped \<Longrightarrow> json_char c = [c] \<and> c \<noteq> CHR 0x22 \<and> c \<noteq> CHR 0x5C"
proof -
  assume c: "c \<notin> set escaped"
  have "\<not> (of_char c :: nat) < 32"
  proof
    assume "(of_char c :: nat) < 32"
    then have "char_of (of_char c :: nat) \<in> char_of ` {0..<32::nat}" by (intro imageI) simp
    with c show False by (simp add: escaped_def del: image_iff)
  qed
  with c show ?thesis by (simp add: json_char_def escaped_def Let_def)
qed

lemma escaped_chars:
  "c \<in> set escaped \<Longrightarrow> hd (json_char c) = CHR 0x5C \<and> json_char c \<noteq> []"
proof -
  have "list_all (\<lambda>c. hd (json_char c) = CHR 0x5C \<and> json_char c \<noteq> []) escaped" by code_simp
  then show "c \<in> set escaped \<Longrightarrow> ?thesis" by (simp add: list_all_iff)
qed

lemma escaped_length:
  "c \<in> set escaped \<Longrightarrow> length (json_char c) = (if json_char c ! 1 = CHR ''u'' then 6 else 2)"
proof -
  have "list_all (\<lambda>c. length (json_char c) = (if json_char c ! 1 = CHR ''u'' then 6 else 2)) escaped"
    by code_simp
  then show "c \<in> set escaped \<Longrightarrow> ?thesis" unfolding list_all_iff by blast
qed

lemma escaped_distinct: "inj_on json_char (set escaped)"
proof -
  have "distinct (map json_char escaped)" by code_simp
  then show ?thesis by (simp add: distinct_map)
qed

lemma escaped_prefix_free:
  assumes "c \<in> set escaped" and "d \<in> set escaped" and "json_char c @ r = json_char d @ s"
  shows "c = d"
proof -
  have second: "(json_char b @ t) ! 1 = json_char b ! 1" if "b \<in> set escaped" for b t
    using escaped_length [OF that] by (simp add: nth_append split: if_splits)
  have "json_char c ! 1 = json_char d ! 1"
    using second [OF assms(1), of r] second [OF assms(2), of s] assms(3) by simp
  then have "length (json_char c) = length (json_char d)"
    using escaped_length [OF assms(1)] escaped_length [OF assms(2)] by simp
  with assms escaped_distinct show ?thesis by (auto dest: inj_onD)
qed

lemma json_char_start: "\<exists>x xs. json_char c = x # xs \<and> x \<noteq> CHR 0x22"
  using plain_char [of c] escaped_chars [of c] by (cases "c \<in> set escaped"; cases "json_char c") auto

lemma split_json_char:
  assumes "json_char c @ r = json_char d @ s"
  shows "c = d \<and> r = s"
proof -
  have "c = d"
  proof (cases "c \<in> set escaped"; cases "d \<in> set escaped")
    assume "c \<in> set escaped" "d \<in> set escaped"
    with escaped_prefix_free assms show ?thesis by blast
  next
    assume "c \<in> set escaped" "d \<notin> set escaped"
    with assms plain_char [of d] escaped_chars [of c] show ?thesis by (cases "json_char c") auto
  next
    assume "c \<notin> set escaped" "d \<in> set escaped"
    with assms plain_char [of c] escaped_chars [of d] show ?thesis by (cases "json_char d") auto
  next
    assume "c \<notin> set escaped" "d \<notin> set escaped"
    with assms plain_char show ?thesis by simp
  qed
  with assms show ?thesis by simp
qed

lemma split_quoted:
  "concat (map json_char s) @ CHR 0x22 # r = concat (map json_char t) @ CHR 0x22 # u \<Longrightarrow> s = t \<and> r = u"
proof (induction s arbitrary: t)
  case Nil
  then show ?case using json_char_start by (cases t) (auto, metis append_Cons list.inject)
next
  case (Cons c s)
  show ?case
  proof (cases t)
    case Nil
    with Cons.prems json_char_start [of c] show ?thesis by auto
  next
    case (Cons d t')
    with Cons.prems have "json_char c @ (concat (map json_char s) @ CHR 0x22 # r) =
        json_char d @ (concat (map json_char t') @ CHR 0x22 # u)" by simp
    from split_json_char [OF this] Cons.IH [of t'] Cons show ?thesis by simp
  qed
qed

lemma split_string: "json_string_text s @ r = json_string_text t @ u \<Longrightarrow> s = t \<and> r = u"
  using split_quoted [of s r t u] by (simp add: json_string_text_def)

lemma split_field:
  "field_text k p @ r = field_text l q @ s \<Longrightarrow> k = l \<and> p @ r = q @ s"
  using split_string [of k "CHR '':'' # p @ r" l "CHR '':'' # q @ s"] by (simp add: field_text_def)

section \<open>Where a list of texts ends\<close>

lemma js_join_Cons: "js_join [d] (t # ts) = t @ concat (map (Cons d) ts)"
  by (induction ts arbitrary: t) auto

definition splits :: "('a \<Rightarrow> string \<Rightarrow> bool) \<Rightarrow> ('a \<Rightarrow> 'b) \<Rightarrow> 'a \<Rightarrow> bool" where
  "splits T e x \<longleftrightarrow> (\<forall>y t u r s. T x t \<longrightarrow> T y u \<longrightarrow> t @ r = u @ s \<longrightarrow> delimited r \<longrightarrow> delimited s \<longrightarrow>
     e x = e y \<and> r = s)"

lemma splitsD:
  "splits T e x \<Longrightarrow> T x t \<Longrightarrow> T y u \<Longrightarrow> t @ r = u @ s \<Longrightarrow> delimited r \<Longrightarrow> delimited s \<Longrightarrow> e x = e y \<and> r = s"
  unfolding splits_def by blast

text \<open>
  \<open>T x t\<close> says that \<open>t\<close> is a text for the element \<open>x\<close>, and \<open>e x\<close> is what the text tells of it;
  the list is closed by a character no element starts with. If the elements' texts can be split
  off, so can the list's.
\<close>

locale list_format =
  fixes T :: "'a \<Rightarrow> string \<Rightarrow> bool" and e :: "'a \<Rightarrow> 'b" and close :: char
  assumes close_delimits: "delimited [close]"
    and close_no_comma: "close \<noteq> CHR '',''"
    and starts: "T x t \<Longrightarrow> t \<noteq> [] \<and> hd t \<noteq> close"
begin

lemma tail_delimited: "delimited (concat (map (Cons (CHR '','')) ts) @ close # r)"
  using close_delimits by (cases ts) (auto simp: delimited_def)

lemma split_tail:
  assumes "list_all2 T xs ts" and "list_all2 T ys us" and "\<forall>x \<in> set xs. splits T e x"
    and "concat (map (Cons (CHR '','')) ts) @ close # r = concat (map (Cons (CHR '','')) us) @ close # s"
  shows "map e xs = map e ys \<and> r = s"
  using assms
proof (induction arbitrary: ys us rule: list_all2_induct)
  case Nil
  then show ?case using close_no_comma by (cases us) auto
next
  case (Cons x xs t ts)
  then obtain u us' where us: "us = u # us'" using close_no_comma by (cases us) auto
  with Cons.prems obtain y ys' where ys: "ys = y # ys'" "T y u" "list_all2 T ys' us'"
    by (auto simp: list_all2_Cons2)
  have "t @ (concat (map (Cons (CHR '','')) ts) @ close # r) =
      u @ (concat (map (Cons (CHR '','')) us') @ close # s)"
    using Cons.prems us by simp
  moreover have "splits T e x" "T x t" using Cons.prems Cons.hyps by auto
  ultimately have "e x = e y" "concat (map (Cons (CHR '','')) ts) @ close # r =
      concat (map (Cons (CHR '','')) us') @ close # s"
    using splitsD [of T e x t y u] ys(2) tail_delimited by blast+
  with Cons.IH [OF ys(3)] Cons.prems us ys(1) show ?case by simp
qed

lemma split_join:
  assumes "list_all2 T xs ts" and "list_all2 T ys us" and "\<forall>x \<in> set xs. splits T e x"
    and "js_join '','' ts @ close # r = js_join '','' us @ close # s"
  shows "map e xs = map e ys \<and> r = s"
proof (cases ts; cases us)
  assume "ts = []" "us = []"
  with assms show ?thesis by simp
next
  fix u us' assume us: "us = u # us'" and "ts = []"
  with assms(2) starts obtain y where "T y u" by (auto simp: list_all2_Cons2)
  with starts [of y u] assms(4) us \<open>ts = []\<close> show ?thesis by (cases u) (auto simp: js_join_Cons)
next
  fix t ts' assume ts: "ts = t # ts'" and "us = []"
  with assms(1) obtain x where "T x t" by (auto simp: list_all2_Cons2)
  with starts [of x t] assms(4) ts \<open>us = []\<close> show ?thesis by (cases t) (auto simp: js_join_Cons)
next
  fix t ts' u us' assume ts: "ts = t # ts'" and us: "us = u # us'"
  with assms show ?thesis
    using split_tail [of xs ts ys us r s] by (simp add: js_join_Cons)
qed

end

end
