(* ===== verification/Budget_Policies.thy ===== *)
theory Budget_Policies
  imports Wake_Ledger Json_Text
begin

text \<open>
  The private Thought budget, first part: its tables (\<^verbatim>\<open>sidecar/schema.ts\<close>, versions 5, 9, 10 and
  53), the versioned policies of \<^verbatim>\<open>private-budget/policies.ts\<close> and the policy clock of
  \<^verbatim>\<open>policy-time.ts\<close> and \<^verbatim>\<open>policy-time-ledger.ts\<close>. SHA-256 is an argument. Times are integers
  of milliseconds, as \<open>Date.now()\<close> yields them; on these \<open>Math.floor\<close> is the identity and
  \<open>Number.isFinite\<close> holds.
\<close>

section \<open>Tables\<close>

record budget_policy =
  bp_policyId :: string
  bp_version :: int
  bp_limit :: int
  bp_windowMs :: int
  bp_clockDiscontinuityMs :: int

record policy_row =
  pw_policy :: budget_policy
  pw_fingerprint :: string
  pw_current :: bool

datatype clock_state = Clock_stable | Clock_reconciliation

record clock_row =
  ck_policy :: string
  ck_last :: int
  ck_state :: clock_state
  ck_discrepancy :: int
  ck_reconciled :: "int option"
  ck_ref :: "string option"

datatype reservation_state = Rv_held | Rv_committed | Rv_released | Rv_reconcile_required | Rv_expired

datatype dispatch_truth = T_not_bound | T_not_started | T_attempted | T_responded | T_unknown

record reservation_row =
  rv_id :: string
  rv_admission :: string
  rv_wake :: string
  rv_conversation :: string
  rv_policy :: string
  rv_state :: reservation_state
  rv_time :: int
  rv_invocation :: "string option"
  rv_attempt :: "string option"
  rv_truth :: dispatch_truth
  rv_proof :: "string option"
  rv_created :: int
  rv_updated :: int
  rv_fingerprint :: "string option"

record binding_row =
  ab_id :: string
  ab_reservation :: string
  ab_invocation :: string
  ab_attempt :: string
  ab_ordinal :: int
  ab_reason :: string
  ab_truth :: dispatch_truth
  ab_request :: "string option"
  ab_proof :: "string option"
  ab_created :: int
  ab_updated :: int

record budget_db =
  bd_kernel :: wake_db
  bd_policies :: "policy_row list"
  bd_clocks :: "clock_row list"
  bd_reservations :: "reservation_row list"
  bd_bindings :: "binding_row list"

text \<open>Primary keys, unique columns and indexes, and CHECK constraints.\<close>

definition policy_indexes :: "policy_row list \<Rightarrow> bool" where
  "policy_indexes rows \<longleftrightarrow>
     distinct (map (\<lambda>r. (bp_policyId (pw_policy r), bp_version (pw_policy r))) rows) \<and>
     distinct (map pw_fingerprint rows) \<and>
     distinct (map (\<lambda>r. bp_policyId (pw_policy r)) (filter pw_current rows)) \<and>
     list_all (\<lambda>r. 1 \<le> bp_version (pw_policy r) \<and> 1 \<le> bp_limit (pw_policy r) \<and>
       1 \<le> bp_windowMs (pw_policy r) \<and> 0 \<le> bp_clockDiscontinuityMs (pw_policy r)) rows"

definition reservation_indexes :: "reservation_row list \<Rightarrow> bool" where
  "reservation_indexes rows \<longleftrightarrow> distinct (map rv_id rows) \<and> distinct (map rv_admission rows) \<and>
     unique_column rv_invocation rows \<and>
     list_all (\<lambda>r. (rv_state r = Rv_released \<longrightarrow> rv_proof r \<noteq> None) \<and>
       (rv_state r = Rv_committed \<longrightarrow> rv_invocation r \<noteq> None)) rows"

definition binding_indexes :: "binding_row list \<Rightarrow> bool" where
  "binding_indexes rows \<longleftrightarrow> distinct (map ab_id rows) \<and> distinct (map ab_invocation rows) \<and>
     distinct (map (\<lambda>r. (ab_reservation r, ab_ordinal r)) rows) \<and>
     list_all (\<lambda>r. 2 \<le> ab_ordinal r \<and> ab_ordinal r \<le> 12 \<and>
       (ab_reason r = ''structural_repair'' \<or> ab_reason r = ''cycle_continuation'') \<and>
       ab_truth r \<noteq> T_not_bound) rows"

definition store_policies :: "policy_row list \<Rightarrow> budget_db \<Rightarrow> budget_db throws" where
  "store_policies rows db =
     (if policy_indexes rows then Inr (db\<lparr>bd_policies := rows\<rparr>) else Inl ''constraint failed'')"

definition store_reservations :: "reservation_row list \<Rightarrow> budget_db \<Rightarrow> budget_db throws" where
  "store_reservations rows db =
     (if reservation_indexes rows then Inr (db\<lparr>bd_reservations := rows\<rparr>) else Inl ''constraint failed'')"

definition store_bindings :: "binding_row list \<Rightarrow> budget_db \<Rightarrow> budget_db throws" where
  "store_bindings rows db =
     (if binding_indexes rows then Inr (db\<lparr>bd_bindings := rows\<rparr>) else Inl ''constraint failed'')"

section \<open>Policies\<close>

definition PRIVATE_THOUGHT_POLICY_ID :: string where
  "PRIVATE_THOUGHT_POLICY_ID = ''ashley.private_thought.v1''"

definition CONFIGURED_PRIVATE_THOUGHT_POLICY_ID :: string where
  "CONFIGURED_PRIVATE_THOUGHT_POLICY_ID = ''ashley.private_thought.configured''"

definition PRIVATE_THOUGHT_WINDOW_MS :: int where "PRIVATE_THOUGHT_WINDOW_MS = 3600000"
definition PRIVATE_THOUGHT_CLOCK_DISCONTINUITY_MS :: int where
  "PRIVATE_THOUGHT_CLOCK_DISCONTINUITY_MS = 300000"
definition PRIVATE_THOUGHT_MAX_CALLS_PER_HOUR :: int where "PRIVATE_THOUGHT_MAX_CALLS_PER_HOUR = 12"

definition DEFAULT_PRIVATE_THOUGHT_POLICY :: budget_policy where
  "DEFAULT_PRIVATE_THOUGHT_POLICY =
     \<lparr>bp_policyId = PRIVATE_THOUGHT_POLICY_ID, bp_version = 1, bp_limit = PRIVATE_THOUGHT_MAX_CALLS_PER_HOUR,
      bp_windowMs = PRIVATE_THOUGHT_WINDOW_MS,
      bp_clockDiscontinuityMs = PRIVATE_THOUGHT_CLOCK_DISCONTINUITY_MS\<rparr>"

definition valid_policy :: "budget_policy \<Rightarrow> bool" where
  "valid_policy p \<longleftrightarrow> \<not> blank (bp_policyId p) \<and>
     list_all safe_integer [bp_version p, bp_limit p, bp_windowMs p, bp_clockDiscontinuityMs p] \<and>
     1 \<le> bp_version p \<and> 1 \<le> bp_limit p \<and> 1 \<le> bp_windowMs p \<and> 0 \<le> bp_clockDiscontinuityMs p"

definition policy_digest :: "(string \<Rightarrow> string) \<Rightarrow> budget_policy \<Rightarrow> string" where
  "policy_digest sha p = ''sha256:'' @ sha (''['' @ js_join '',''
     [json_string_text (bp_policyId p), int_text (bp_version p), int_text (bp_limit p),
      int_text (bp_windowMs p), int_text (bp_clockDiscontinuityMs p)] @ '']'')"

definition budgetPolicyFingerprint :: "(string \<Rightarrow> string) \<Rightarrow> budget_policy \<Rightarrow> string throws" where
  "budgetPolicyFingerprint sha p =
     (if valid_policy p then Inr (policy_digest sha p) else Inl ''private_budget_policy_invalid'')"

definition DEFAULT_BUDGET_SNAPSHOT :: "(string \<Rightarrow> string) \<Rightarrow> policy_row" where
  "DEFAULT_BUDGET_SNAPSHOT sha = \<lparr>pw_policy = DEFAULT_PRIVATE_THOUGHT_POLICY,
     pw_fingerprint = policy_digest sha DEFAULT_PRIVATE_THOUGHT_POLICY, pw_current = True\<rparr>"

text \<open>A \<open>BudgetPolicySnapshot\<close> is the row, once its content is checked.\<close>

definition policy_snapshot :: "(string \<Rightarrow> string) \<Rightarrow> policy_row \<Rightarrow> policy_row throws" where
  "policy_snapshot sha row =
     and_then (budgetPolicyFingerprint sha (pw_policy row)) (\<lambda>fingerprint.
       if fingerprint \<noteq> pw_fingerprint row then Inl ''private_budget_policy_fingerprint_invalid''
       else Inr row)"

definition current_policy :: "budget_db \<Rightarrow> string \<Rightarrow> policy_row option" where
  "current_policy db pid = sql_get (\<lambda>r. bp_policyId (pw_policy r) = pid \<and> pw_current r) (bd_policies db)"

text \<open>The statements between the savepoint and its release.\<close>

definition install_policy ::
  "(string \<Rightarrow> string) \<Rightarrow> budget_policy \<Rightarrow> string \<Rightarrow> budget_db \<Rightarrow> (policy_row \<times> budget_db) throws" where
  "install_policy sha p fingerprint db =
     (let install = (let row = \<lparr>pw_policy = p, pw_fingerprint = fingerprint, pw_current = True\<rparr> in
            and_then (store_policies (sql_update (\<lambda>r. bp_policyId (pw_policy r) = bp_policyId p)
                (\<lambda>r. r\<lparr>pw_current := False\<rparr>) (bd_policies db) @ [row]) db)
              (\<lambda>db1. Inr (row, db1)))
      in case current_policy db (bp_policyId p) of
           None \<Rightarrow> install
         | Some c \<Rightarrow>
             if pw_fingerprint c = fingerprint
             then and_then (policy_snapshot sha c) (\<lambda>s. Inr (s, db))
             else if bp_version p \<le> bp_version (pw_policy c)
             then Inl ''private_budget_policy_revision_invalid''
             else install)"

definition configureBudgetPolicy ::
  "(string \<Rightarrow> string) \<Rightarrow> budget_policy \<Rightarrow> budget_db \<Rightarrow> policy_row throws \<times> budget_db" where
  "configureBudgetPolicy sha p db =
     (case budgetPolicyFingerprint sha p of
        Inl err \<Rightarrow> (Inl err, db)
      | Inr fingerprint \<Rightarrow>
          if bp_policyId p = PRIVATE_THOUGHT_POLICY_ID \<and>
             fingerprint \<noteq> pw_fingerprint (DEFAULT_BUDGET_SNAPSHOT sha)
          then (Inl ''private_budget_default_policy_immutable'', db)
          else in_immediate_transaction (install_policy sha p fingerprint) db)"

definition configurePrivateThoughtBudget ::
  "(string \<Rightarrow> string) \<Rightarrow> int \<Rightarrow> int \<Rightarrow> budget_db \<Rightarrow> policy_row throws \<times> budget_db" where
  "configurePrivateThoughtBudget sha limit version = configureBudgetPolicy sha
     \<lparr>bp_policyId = CONFIGURED_PRIVATE_THOUGHT_POLICY_ID, bp_version = version, bp_limit = limit,
      bp_windowMs = PRIVATE_THOUGHT_WINDOW_MS,
      bp_clockDiscontinuityMs = PRIVATE_THOUGHT_CLOCK_DISCONTINUITY_MS\<rparr>"

definition activePrivateThoughtPolicyId :: "budget_db \<Rightarrow> string" where
  "activePrivateThoughtPolicyId db =
     (if current_policy db CONFIGURED_PRIVATE_THOUGHT_POLICY_ID \<noteq> None
      then CONFIGURED_PRIVATE_THOUGHT_POLICY_ID else PRIVATE_THOUGHT_POLICY_ID)"

text \<open>An absent and an empty fingerprint both select the current policy.\<close>

definition resolveBudgetPolicy ::
  "(string \<Rightarrow> string) \<Rightarrow> budget_db \<Rightarrow> string \<Rightarrow> string option \<Rightarrow> policy_row throws" where
  "resolveBudgetPolicy sha db pid fingerprint =
     (let bound = text_of fingerprint \<noteq> [] in
      case (if bound then sql_get (\<lambda>r. bp_policyId (pw_policy r) = pid \<and>
              Some (pw_fingerprint r) = fingerprint) (bd_policies db)
            else current_policy db pid) of
        None \<Rightarrow> Inl (if bound then ''private_budget_policy_binding_unavailable''
                    else ''private_budget_policy_unconfigured'')
      | Some row \<Rightarrow> policy_snapshot sha row)"

definition reservationBudgetPolicy ::
  "(string \<Rightarrow> string) \<Rightarrow> budget_db \<Rightarrow> reservation_row \<Rightarrow> policy_row throws" where
  "reservationBudgetPolicy sha db r =
     (if rv_fingerprint r = None then Inl ''private_budget_policy_binding_unavailable''
      else resolveBudgetPolicy sha db (rv_policy r) (rv_fingerprint r))"

section \<open>Active reservations\<close>

definition consuming_state :: "reservation_state \<Rightarrow> bool" where
  "consuming_state s \<longleftrightarrow> s = Rv_held \<or> s = Rv_committed \<or> s = Rv_reconcile_required"

definition consuming_rows :: "budget_db \<Rightarrow> string \<Rightarrow> reservation_row list" where
  "consuming_rows db pid =
     filter (\<lambda>r. rv_policy r = pid \<and> consuming_state (rv_state r)) (bd_reservations db)"

fun inside_window ::
  "(string \<Rightarrow> string) \<Rightarrow> budget_db \<Rightarrow> int \<Rightarrow> reservation_row list \<Rightarrow> reservation_row list throws" where
  "inside_window sha db time [] = Inr []"
| "inside_window sha db time (r # rows) =
     and_then (reservationBudgetPolicy sha db r) (\<lambda>p.
     and_then (inside_window sha db time rows) (\<lambda>rest.
       Inr (if time - bp_windowMs (pw_policy p) < rv_time r then r # rest else rest)))"

definition activeBudgetRows ::
  "(string \<Rightarrow> string) \<Rightarrow> budget_db \<Rightarrow> string \<Rightarrow> int \<Rightarrow> reservation_row list throws" where
  "activeBudgetRows sha db pid time = inside_window sha db time (consuming_rows db pid)"

definition assertCurrentBudgetPolicy ::
  "(string \<Rightarrow> string) \<Rightarrow> budget_db \<Rightarrow> policy_row \<Rightarrow> int \<Rightarrow> unit throws" where
  "assertCurrentBudgetPolicy sha db p time =
     and_then (activeBudgetRows sha db (bp_policyId (pw_policy p)) time) (\<lambda>rows.
       if list_ex (\<lambda>r. rv_fingerprint r \<noteq> Some (pw_fingerprint p)) rows
       then Inl ''private_budget_policy_revision_incompatible'' else Inr ())"

section \<open>The policy clock\<close>

definition computePolicyTime :: "int \<Rightarrow> int \<Rightarrow> int \<Rightarrow> int \<times> clock_state \<times> int" where
  "computePolicyTime previous wall threshold =
     (max previous wall, if threshold < previous - wall then Clock_reconciliation else Clock_stable,
      \<bar>wall - previous\<bar>)"

definition clockRow :: "budget_db \<Rightarrow> string \<Rightarrow> clock_row option" where
  "clockRow db pid = sql_get (\<lambda>c. ck_policy c = pid) (bd_clocks db)"

definition reconcile_clock ::
  "string \<Rightarrow> int \<Rightarrow> string \<Rightarrow> budget_db \<Rightarrow> (int \<times> budget_db) throws" where
  "reconcile_clock pid wall ref db =
     (let time = max (case clockRow db pid of None \<Rightarrow> 0 | Some c \<Rightarrow> ck_last c) wall;
          set_row = (\<lambda>c :: clock_row. c\<lparr>ck_last := time, ck_state := Clock_stable, ck_discrepancy := 0,
            ck_reconciled := Some wall, ck_ref := Some ref\<rparr>)
      in Inr (time, db\<lparr>bd_clocks := (if clockRow db pid = None
           then bd_clocks db @ [\<lparr>ck_policy = pid, ck_last = time, ck_state = Clock_stable, ck_discrepancy = 0,
             ck_reconciled = Some wall, ck_ref = Some ref\<rparr>]
           else sql_update (\<lambda>c. ck_policy c = pid) set_row (bd_clocks db))\<rparr>))"

definition reconcilePolicyClock ::
  "(string \<Rightarrow> string) \<Rightarrow> string \<Rightarrow> int \<Rightarrow> string \<Rightarrow> budget_db \<Rightarrow> int throws \<times> budget_db" where
  "reconcilePolicyClock sha pid wall ref db =
     (if blank pid then (Inl ''policy_id_required'', db)
      else if wall < 0 then (Inl ''policy_clock_invalid'', db)
      else if blank ref then (Inl ''policy_reconciliation_authorization_required'', db)
      else (case resolveBudgetPolicy sha db pid None of
              Inl err \<Rightarrow> (Inl err, db)
            | Inr _ \<Rightarrow> in_immediate_transaction (reconcile_clock pid wall ref) db))"

definition advancePolicyClock ::
  "(string \<Rightarrow> string) \<Rightarrow> string \<Rightarrow> int \<Rightarrow> string option \<Rightarrow> budget_db \<Rightarrow>
   ((int \<times> clock_state \<times> int) \<times> budget_db) throws" where
  "advancePolicyClock sha pid wall fingerprint db =
     (if blank pid then Inl ''policy_id_required''
      else if wall < 0 then Inl ''policy_clock_invalid''
      else (case clockRow db pid of
              None \<Rightarrow> Inl ''policy_clock_missing''
            | Some c \<Rightarrow>
                and_then (resolveBudgetPolicy sha db pid fingerprint) (\<lambda>p.
                  let (time, state, discrepancy) =
                        computePolicyTime (ck_last c) wall (bp_clockDiscontinuityMs (pw_policy p))
                  in Inr ((time, state, discrepancy), db\<lparr>bd_clocks := sql_update (\<lambda>c. ck_policy c = pid)
                       (\<lambda>c. c\<lparr>ck_last := time, ck_state := state, ck_discrepancy := discrepancy\<rparr>)
                       (bd_clocks db)\<rparr>))))"

end
