(* ===== verification/Budget_Ledger.thy ===== *)
theory Budget_Ledger
  imports Budget_Policies
begin

text \<open>
  The private Thought budget, second part: the reservations of \<^verbatim>\<open>private-budget/ledger.ts\<close> up to
  \<open>getPrivateBudgetProjection\<close>. Every writing operation runs in its own immediate transaction; its
  body returns the result with the new database, or throws. A \<open>PrivateBudgetReservation\<close> is the row
  of the table. \<open>nowMs\<close> is given by the caller (or the clock); random UUIDs are arguments.
\<close>

section \<open>Reading and writing one reservation\<close>

definition required_text :: "string \<Rightarrow> string \<Rightarrow> unit throws" where
  "required_text s code = (if blank s then Inl code else Inr ())"

definition valid_time :: "int \<Rightarrow> string \<Rightarrow> int throws" where
  "valid_time t code = (if t < 0 then Inl code else Inr t)"

definition getPrivateReservation :: "budget_db \<Rightarrow> string \<Rightarrow> reservation_row option" where
  "getPrivateReservation db rid = sql_get (\<lambda>r. rv_id r = rid) (bd_reservations db)"

definition reservationRequired :: "budget_db \<Rightarrow> string \<Rightarrow> reservation_row throws" where
  "reservationRequired db rid =
     (case getPrivateReservation db rid of None \<Rightarrow> Inl ''reservation_missing'' | Some r \<Rightarrow> Inr r)"

definition getPrivateReservationRequired :: "budget_db \<Rightarrow> string \<Rightarrow> reservation_row throws" where
  "getPrivateReservationRequired db rid =
     and_then (required_text rid ''reservation_id_required'') (\<lambda>_. reservationRequired db rid)"

definition getPrivateReservationForWake :: "budget_db \<Rightarrow> string \<Rightarrow> reservation_row option throws" where
  "getPrivateReservationForWake db w =
     and_then (required_text w ''wake_id_required'') (\<lambda>_.
       case filter (\<lambda>r. rv_wake r = w) (bd_reservations db) of
         [] \<Rightarrow> Inr None
       | [r] \<Rightarrow> Inr (Some r)
       | _ \<Rightarrow> Inl ''private_budget_wake_reservation_ambiguous'')"

definition requireReservationBudgetPolicy ::
  "(string \<Rightarrow> string) \<Rightarrow> budget_db \<Rightarrow> string \<Rightarrow> unit throws" where
  "requireReservationBudgetPolicy sha db rid =
     and_then (reservationRequired db rid) (\<lambda>r.
     and_then (resolveBudgetPolicy sha db (rv_policy r) None) (\<lambda>_.
     and_then (reservationBudgetPolicy sha db r) (\<lambda>_. Inr ())))"

text \<open>One UPDATE of the reservation with the given id: the number of changed rows, and the table.\<close>

definition update_reservation ::
  "string \<Rightarrow> (reservation_row \<Rightarrow> bool) \<Rightarrow> (reservation_row \<Rightarrow> reservation_row) \<Rightarrow> budget_db \<Rightarrow>
   (nat \<times> budget_db) throws" where
  "update_reservation rid guard f db =
     (let match = (\<lambda>r. rv_id r = rid \<and> guard r) in
      and_then (store_reservations (sql_update match f (bd_reservations db)) db) (\<lambda>db1.
        Inr (sql_changes match (bd_reservations db), db1)))"

text \<open>The same, followed by the check of the change count and the reload.\<close>

definition change_reservation ::
  "string \<Rightarrow> string \<Rightarrow> (reservation_row \<Rightarrow> bool) \<Rightarrow> (reservation_row \<Rightarrow> reservation_row) \<Rightarrow> budget_db \<Rightarrow>
   (reservation_row \<times> budget_db) throws" where
  "change_reservation code rid guard f db =
     and_then (update_reservation rid guard f db) (\<lambda>(changes, db1).
       if changes \<noteq> 1 then Inl code
       else and_then (reservationRequired db1 rid) (\<lambda>r. Inr (r, db1)))"

section \<open>Admission\<close>

record budget_admission =
  bi_admissionId :: string
  bi_wakeId :: string
  bi_conversationId :: string
  bi_policyId :: string
  bi_wallClockNowMs :: int

datatype admission_result =
    Adm_reserved reservation_row int
  | Adm_existing reservation_row int
  | Adm_refused string

definition consumingCount ::
  "(string \<Rightarrow> string) \<Rightarrow> budget_db \<Rightarrow> string \<Rightarrow> int \<Rightarrow> int throws" where
  "consumingCount sha db pid time =
     and_then (activeBudgetRows sha db pid time) (\<lambda>rows. Inr (int (length rows)))"

fun expire_loop ::
  "(string \<Rightarrow> string) \<Rightarrow> int \<Rightarrow> reservation_row list \<Rightarrow> nat \<Rightarrow> budget_db \<Rightarrow> (nat \<times> budget_db) throws" where
  "expire_loop sha time [] n db = Inr (n, db)"
| "expire_loop sha time (r # rows) n db =
     and_then (reservationBudgetPolicy sha db r) (\<lambda>p.
       if rv_time r \<le> time - bp_windowMs (pw_policy p)
       then and_then (update_reservation (rv_id r) (\<lambda>_. True)
                (\<lambda>r. r\<lparr>rv_state := Rv_expired, rv_updated := time\<rparr>) db)
              (\<lambda>(changes, db1). expire_loop sha time rows (n + changes) db1)
       else expire_loop sha time rows n db)"

definition expireInTransaction ::
  "(string \<Rightarrow> string) \<Rightarrow> string \<Rightarrow> int \<Rightarrow> budget_db \<Rightarrow> (nat \<times> budget_db) throws" where
  "expireInTransaction sha pid time db = expire_loop sha time (consuming_rows db pid) 0 db"

definition verifyWakeForAdmission :: "budget_db \<Rightarrow> string \<Rightarrow> string \<Rightarrow> unit throws" where
  "verifyWakeForAdmission db w conversation =
     (case getWake (bd_kernel db) w of
        None \<Rightarrow> Inl ''wake_missing''
      | Some r \<Rightarrow>
          if w_conversation r \<noteq> conversation then Inl ''wake_conversation_conflict''
          else if w_state r \<in> {W_terminal, W_reconciling, W_consequence_pending}
          then Inl ''wake_not_dispatchable''
          else Inr ())"

definition validateAdmission :: "budget_admission \<Rightarrow> int throws" where
  "validateAdmission i =
     and_then (required_text (bi_admissionId i) ''admission_id_required'') (\<lambda>_.
     and_then (required_text (bi_wakeId i) ''wake_id_required'') (\<lambda>_.
     and_then (required_text (bi_conversationId i) ''conversation_id_required'') (\<lambda>_.
     and_then (required_text (bi_policyId i) ''policy_id_required'') (\<lambda>_.
       valid_time (bi_wallClockNowMs i) ''policy_clock_invalid''))))"

text \<open>An admission seen before: its reservation, and what is left at the latest known time.\<close>

definition readmit_reservation ::
  "(string \<Rightarrow> string) \<Rightarrow> budget_admission \<Rightarrow> reservation_row \<Rightarrow> budget_db \<Rightarrow> admission_result throws" where
  "readmit_reservation sha i e db =
     (if rv_wake e \<noteq> bi_wakeId i \<or> rv_conversation e \<noteq> bi_conversationId i \<or> rv_policy e \<noteq> bi_policyId i
      then Inl ''admission_identity_conflict''
      else let known = (case clockRow db (bi_policyId i) of None \<Rightarrow> rv_time e | Some c \<Rightarrow> ck_last c);
               time = max (rv_time e) (max known (bi_wallClockNowMs i))
           in and_then (reservationBudgetPolicy sha db e) (\<lambda>p.
              and_then (consumingCount sha db (bi_policyId i) time) (\<lambda>n.
                Inr (Adm_existing e (max 0 (bp_limit (pw_policy p) - n))))))"

text \<open>
  The clock of a policy without one starts at the wall clock when the policy has no reservation;
  with reservations the missing clock is an anomaly and the admission is refused (\<open>None\<close>).
\<close>

definition bootstrap_clock :: "string \<Rightarrow> int \<Rightarrow> budget_db \<Rightarrow> budget_db option" where
  "bootstrap_clock pid wall db =
     (case clockRow db pid of
        Some _ \<Rightarrow> Some db
      | None \<Rightarrow>
          if list_ex (\<lambda>r. rv_policy r = pid) (bd_reservations db) then None
          else Some (db\<lparr>bd_clocks := bd_clocks db @ [\<lparr>ck_policy = pid, ck_last = wall,
            ck_state = Clock_stable, ck_discrepancy = 0, ck_reconciled = None, ck_ref = None\<rparr>]\<rparr>))"

definition budget_friction :: "string \<Rightarrow> int \<Rightarrow> budget_db \<Rightarrow> budget_db" where
  "budget_friction subject at db = (let k = bd_kernel db in
     db\<lparr>bd_kernel := k\<lparr>effects := recordHostFriction ''budget_refused'' subject at None (effects k)\<rparr>\<rparr>)"

definition new_reservation :: "string \<Rightarrow> budget_admission \<Rightarrow> int \<Rightarrow> string \<Rightarrow> reservation_row" where
  "new_reservation uuid i time fingerprint =
     \<lparr>rv_id = ''private-reservation:'' @ uuid, rv_admission = bi_admissionId i, rv_wake = bi_wakeId i,
      rv_conversation = bi_conversationId i, rv_policy = bi_policyId i, rv_state = Rv_held,
      rv_time = time, rv_invocation = None, rv_attempt = None, rv_truth = T_not_bound, rv_proof = None,
      rv_created = bi_wallClockNowMs i, rv_updated = bi_wallClockNowMs i,
      rv_fingerprint = Some fingerprint\<rparr>"

text \<open>What follows a stable clock: currentness of the policy, expiry, the count and the insertion.\<close>

definition take_capacity ::
  "(string \<Rightarrow> string) \<Rightarrow> string \<Rightarrow> budget_admission \<Rightarrow> policy_row \<Rightarrow> int \<Rightarrow> budget_db \<Rightarrow>
   (admission_result \<times> budget_db) throws" where
  "take_capacity sha uuid i p time db =
     and_then (assertCurrentBudgetPolicy sha db p time) (\<lambda>_.
     and_then (expireInTransaction sha (bi_policyId i) time db) (\<lambda>(_, db1).
     and_then (consumingCount sha db1 (bi_policyId i) time) (\<lambda>used.
       if bp_limit (pw_policy p) \<le> used
       then Inr (Adm_refused ''capacity_exhausted'',
                 budget_friction (bi_admissionId i) (bi_wallClockNowMs i) db1)
       else let row = new_reservation uuid i time (pw_fingerprint p) in
            and_then (store_reservations (bd_reservations db1 @ [row]) db1) (\<lambda>db2.
            and_then (reservationRequired db2 (rv_id row)) (\<lambda>r.
              Inr (Adm_reserved r (bp_limit (pw_policy p) - used - 1), db2))))))"

definition admit_reservation ::
  "(string \<Rightarrow> string) \<Rightarrow> string \<Rightarrow> budget_admission \<Rightarrow> budget_db \<Rightarrow> (admission_result \<times> budget_db) throws" where
  "admit_reservation sha uuid i db =
     and_then (resolveBudgetPolicy sha db (bi_policyId i) None) (\<lambda>p.
       case sql_get (\<lambda>r. rv_admission r = bi_admissionId i) (bd_reservations db) of
         Some e \<Rightarrow> and_then (readmit_reservation sha i e db) (\<lambda>a. Inr (a, db))
       | None \<Rightarrow>
           and_then (verifyWakeForAdmission db (bi_wakeId i) (bi_conversationId i)) (\<lambda>_.
             case bootstrap_clock (bi_policyId i) (bi_wallClockNowMs i) db of
               None \<Rightarrow> Inr (Adm_refused ''clock_reconciliation'', db)
             | Some db1 \<Rightarrow>
                 and_then (advancePolicyClock sha (bi_policyId i) (bi_wallClockNowMs i)
                   (Some (pw_fingerprint p)) db1) (\<lambda>((time, state, _), db2).
                   if state \<noteq> Clock_stable then Inr (Adm_refused ''clock_reconciliation'', db2)
                   else take_capacity sha uuid i p time db2)))"

definition reservePrivateThought ::
  "(string \<Rightarrow> string) \<Rightarrow> string \<Rightarrow> budget_admission \<Rightarrow> budget_db \<Rightarrow> admission_result throws \<times> budget_db" where
  "reservePrivateThought sha uuid i db =
     (case validateAdmission i of
        Inl err \<Rightarrow> (Inl err, db)
      | Inr _ \<Rightarrow> in_immediate_transaction (admit_reservation sha uuid i) db)"

section \<open>Binding, dispatch and release\<close>

record attempt_ref =
  at_reservationId :: string
  at_invocationId :: string
  at_attemptId :: string
  at_nowMs :: int

definition is_bound_to :: "attempt_ref \<Rightarrow> reservation_row \<Rightarrow> bool" where
  "is_bound_to a r \<longleftrightarrow> rv_invocation r = Some (at_invocationId a) \<and> rv_attempt r = Some (at_attemptId a)"

definition validate_attempt :: "attempt_ref \<Rightarrow> unit throws" where
  "validate_attempt a =
     and_then (valid_time (at_nowMs a) ''private_budget_time_invalid'') (\<lambda>_.
     and_then (required_text (at_reservationId a) ''reservation_id_required'') (\<lambda>_.
     and_then (required_text (at_invocationId a) ''invocation_id_required'') (\<lambda>_.
       required_text (at_attemptId a) ''attempt_id_required'')))"

definition validated ::
  "unit throws \<Rightarrow> (budget_db \<Rightarrow> ('a \<times> budget_db) throws) \<Rightarrow> budget_db \<Rightarrow> 'a throws \<times> budget_db" where
  "validated check body db =
     (case check of Inl err \<Rightarrow> (Inl err, db) | Inr _ \<Rightarrow> in_immediate_transaction body db)"

text \<open>Every failure of the UPDATE of a binding is reported as a binding conflict.\<close>

definition bind_reservation ::
  "(string \<Rightarrow> string) \<Rightarrow> attempt_ref \<Rightarrow> budget_db \<Rightarrow> (reservation_row \<times> budget_db) throws" where
  "bind_reservation sha a db =
     and_then (requireReservationBudgetPolicy sha db (at_reservationId a)) (\<lambda>_.
     and_then (reservationRequired db (at_reservationId a)) (\<lambda>r.
       if rv_state r = Rv_committed \<and> is_bound_to a r then Inr (r, db)
       else if rv_state r \<noteq> Rv_held then Inl ''reservation_state_conflict''
       else if rv_invocation r \<noteq> None
       then (if is_bound_to a r then Inr (r, db) else Inl ''invocation_binding_conflict'')
       else (case update_reservation (at_reservationId a)
                 (\<lambda>r. rv_state r = Rv_held \<and> rv_invocation r = None)
                 (\<lambda>r. r\<lparr>rv_invocation := Some (at_invocationId a), rv_attempt := Some (at_attemptId a),
                        rv_truth := T_not_started, rv_updated := at_nowMs a\<rparr>) db of
               Inl _ \<Rightarrow> Inl ''invocation_binding_conflict''
             | Inr (changes, db1) \<Rightarrow>
                 if changes \<noteq> 1 then Inl ''invocation_binding_conflict''
                 else and_then (reservationRequired db1 (at_reservationId a)) (\<lambda>r1. Inr (r1, db1)))))"

definition bindPrivateReservationInvocation ::
  "(string \<Rightarrow> string) \<Rightarrow> attempt_ref \<Rightarrow> budget_db \<Rightarrow> reservation_row throws \<times> budget_db" where
  "bindPrivateReservationInvocation sha a = validated (validate_attempt a) (bind_reservation sha a)"

definition commit_dispatch :: "attempt_ref \<Rightarrow> budget_db \<Rightarrow> (reservation_row \<times> budget_db) throws" where
  "commit_dispatch a db =
     and_then (reservationRequired db (at_reservationId a)) (\<lambda>r.
       if rv_state r = Rv_committed \<and> is_bound_to a r then Inr (r, db)
       else if \<not> (rv_state r = Rv_held \<or> rv_state r = Rv_reconcile_required \<and> rv_truth r = T_unknown)
       then Inl ''dispatch_without_reservation''
       else if \<not> is_bound_to a r then Inl ''dispatch_without_reservation''
       else change_reservation ''dispatch_without_reservation'' (at_reservationId a)
              (\<lambda>r. (rv_state r = Rv_held \<or> rv_state r = Rv_reconcile_required) \<and>
                   (rv_truth r = T_not_started \<or> rv_truth r = T_unknown) \<and> is_bound_to a r)
              (\<lambda>r. r\<lparr>rv_state := Rv_committed, rv_truth := T_attempted, rv_updated := at_nowMs a\<rparr>) db)"

definition commitPrivateDispatch :: "attempt_ref \<Rightarrow> budget_db \<Rightarrow> reservation_row throws \<times> budget_db" where
  "commitPrivateDispatch a = validated (validate_attempt a) (commit_dispatch a)"

definition record_response :: "attempt_ref \<Rightarrow> budget_db \<Rightarrow> (reservation_row \<times> budget_db) throws" where
  "record_response a db =
     and_then (reservationRequired db (at_reservationId a)) (\<lambda>r.
       if rv_state r = Rv_committed \<and> is_bound_to a r \<and> rv_truth r = T_responded then Inr (r, db)
       else if rv_state r \<noteq> Rv_committed \<or> \<not> is_bound_to a r then Inl ''reservation_state_conflict''
       else and_then (update_reservation (at_reservationId a)
                (\<lambda>r. rv_state r = Rv_committed \<and> is_bound_to a r)
                (\<lambda>r. r\<lparr>rv_truth := T_responded, rv_updated := at_nowMs a\<rparr>) db) (\<lambda>(_, db1).
              and_then (reservationRequired db1 (at_reservationId a)) (\<lambda>r1. Inr (r1, db1))))"

definition recordPrivateProviderResponse ::
  "attempt_ref \<Rightarrow> budget_db \<Rightarrow> reservation_row throws \<times> budget_db" where
  "recordPrivateProviderResponse a = validated
     (and_then (valid_time (at_nowMs a) ''private_budget_time_invalid'') (\<lambda>_. Inr ())) (record_response a)"

record release_input =
  rl_reservationId :: string
  rl_proofRef :: string
  rl_dispatchTruth :: "dispatch_truth option"
  rl_invocationId :: "string option"
  rl_attemptId :: "string option"
  rl_nowMs :: int

definition differs :: "string option \<Rightarrow> string option \<Rightarrow> bool" where
  "differs x y \<longleftrightarrow> x \<noteq> None \<and> y \<noteq> None \<and> x \<noteq> y"

definition release_reservation :: "release_input \<Rightarrow> budget_db \<Rightarrow> (reservation_row \<times> budget_db) throws" where
  "release_reservation i db =
     and_then (reservationRequired db (rl_reservationId i)) (\<lambda>r.
       if rv_state r = Rv_released
       then (if rv_proof r = Some (rl_proofRef i) then Inr (r, db) else Inl ''release_proof_conflict'')
       else if rv_state r \<noteq> Rv_held \<and> rv_state r \<noteq> Rv_reconcile_required
       then Inl ''reservation_state_conflict''
       else if differs (rv_invocation r) (rl_invocationId i) \<or> differs (rv_attempt r) (rl_attemptId i)
       then Inl ''release_proof_conflict''
       else change_reservation ''reservation_state_conflict'' (rl_reservationId i)
              (\<lambda>r. rv_state r = Rv_held \<or> rv_state r = Rv_reconcile_required)
              (\<lambda>r. r\<lparr>rv_state := Rv_released, rv_truth := T_not_started,
                     rv_invocation := coalesce (rv_invocation r) (rl_invocationId i),
                     rv_attempt := coalesce (rv_attempt r) (rl_attemptId i),
                     rv_proof := Some (rl_proofRef i), rv_updated := rl_nowMs i\<rparr>) db)"

definition releasePrivateReservation ::
  "release_input \<Rightarrow> budget_db \<Rightarrow> reservation_row throws \<times> budget_db" where
  "releasePrivateReservation i = validated
     (and_then (valid_time (rl_nowMs i) ''private_budget_time_invalid'') (\<lambda>_.
        if rl_dispatchTruth i \<noteq> Some T_not_started then Inl ''release_proof_missing''
        else required_text (rl_proofRef i) ''release_proof_missing''))
     (release_reservation i)"

definition record_no_dispatch ::
  "attempt_ref \<Rightarrow> string \<Rightarrow> budget_db \<Rightarrow> (reservation_row \<times> budget_db) throws" where
  "record_no_dispatch a proofRef db =
     and_then (reservationRequired db (at_reservationId a)) (\<lambda>r.
       if rv_state r \<noteq> Rv_held then Inl ''reservation_state_conflict''
       else if \<not> is_bound_to a r then Inl ''invocation_binding_conflict''
       else if rv_truth r \<noteq> T_not_started then Inl ''contradictory_dispatch_truth''
       else if rv_proof r \<noteq> None
       then (if rv_proof r = Some proofRef then Inr (r, db) else Inl ''proof_ref_conflict'')
       else change_reservation ''proof_recording_failed'' (at_reservationId a)
              (\<lambda>r. rv_state r = Rv_held \<and> rv_truth r = T_not_started \<and> rv_proof r = None)
              (\<lambda>r. r\<lparr>rv_proof := Some proofRef, rv_updated := at_nowMs a\<rparr>) db)"

definition recordPrivateReservationNoDispatchProof ::
  "attempt_ref \<Rightarrow> string \<Rightarrow> budget_db \<Rightarrow> reservation_row throws \<times> budget_db" where
  "recordPrivateReservationNoDispatchProof a proofRef = validated
     (and_then (validate_attempt a) (\<lambda>_. required_text proofRef ''proof_ref_required''))
     (record_no_dispatch a proofRef)"

definition mark_unknown :: "string \<Rightarrow> int \<Rightarrow> budget_db \<Rightarrow> (reservation_row \<times> budget_db) throws" where
  "mark_unknown rid now db =
     and_then (reservationRequired db rid) (\<lambda>r.
       if rv_state r \<in> {Rv_reconcile_required, Rv_released, Rv_expired} then Inr (r, db)
       else if rv_state r \<noteq> Rv_held then Inl ''contradictory_dispatch_truth''
       else and_then (update_reservation rid (\<lambda>r. rv_state r = Rv_held)
                (\<lambda>r. r\<lparr>rv_state := Rv_reconcile_required, rv_truth := T_unknown, rv_updated := now\<rparr>) db)
              (\<lambda>(_, db1). and_then (reservationRequired db1 rid) (\<lambda>r1. Inr (r1, db1))))"

definition markPrivateReservationUnknown ::
  "string \<Rightarrow> int \<Rightarrow> budget_db \<Rightarrow> reservation_row throws \<times> budget_db" where
  "markPrivateReservationUnknown rid now = validated
     (and_then (valid_time now ''private_budget_time_invalid'') (\<lambda>_.
        required_text rid ''reservation_id_required''))
     (mark_unknown rid now)"

section \<open>Expiry and projection\<close>

definition expire_policy ::
  "(string \<Rightarrow> string) \<Rightarrow> string \<Rightarrow> int \<Rightarrow> policy_row \<Rightarrow> budget_db \<Rightarrow> ((int \<times> nat) \<times> budget_db) throws" where
  "expire_policy sha pid wall p db =
     (if clockRow db pid = None then Inr ((wall, 0), db)
      else and_then (advancePolicyClock sha pid wall (Some (pw_fingerprint p)) db) (\<lambda>((time, _, _), db1).
           and_then (expireInTransaction sha pid time db1) (\<lambda>(n, db2). Inr ((time, n), db2))))"

definition expirePrivateReservations ::
  "(string \<Rightarrow> string) \<Rightarrow> string \<Rightarrow> int \<Rightarrow> budget_db \<Rightarrow> (int \<times> nat) throws \<times> budget_db" where
  "expirePrivateReservations sha pid wall db =
     (case and_then (valid_time wall ''policy_clock_invalid'') (\<lambda>_.
           and_then (required_text pid ''policy_id_required'') (\<lambda>_. resolveBudgetPolicy sha db pid None)) of
        Inl err \<Rightarrow> (Inl err, db)
      | Inr p \<Rightarrow> in_immediate_transaction (expire_policy sha pid wall p) db)"

datatype projected_clock = Pc_stable | Pc_clock_reconciliation | Pc_migration_epoch_required

record budget_projection =
  bj_limit :: int
  bj_windowMs :: int
  bj_policyTimeMs :: "int option"
  bj_lowerBoundMs :: "int option"
  bj_clockState :: projected_clock
  bj_discrepancyMs :: "int option"
  bj_consumingCount :: int
  bj_remaining :: int
  bj_stateCounts :: "(reservation_state \<times> nat) list"

definition projected_clock_state :: "budget_db \<Rightarrow> string \<Rightarrow> int \<Rightarrow> policy_row \<Rightarrow> projected_clock" where
  "projected_clock_state db pid wall p =
     (case clockRow db pid of
        None \<Rightarrow> if list_ex (\<lambda>r. rv_policy r = pid) (bd_reservations db)
                then Pc_clock_reconciliation else Pc_migration_epoch_required
      | Some c \<Rightarrow> if bp_clockDiscontinuityMs (pw_policy p) < ck_last c - wall
                  then Pc_clock_reconciliation else Pc_stable)"

definition state_counts :: "budget_db \<Rightarrow> string \<Rightarrow> (reservation_state \<times> nat) list" where
  "state_counts db pid =
     map (\<lambda>s. (s, length (filter (\<lambda>r. rv_policy r = pid \<and> rv_state r = s) (bd_reservations db))))
       [Rv_held, Rv_committed, Rv_released, Rv_reconcile_required, Rv_expired]"

definition projected_remaining :: "projected_clock \<Rightarrow> policy_row \<Rightarrow> int \<Rightarrow> int" where
  "projected_remaining state p consuming = (case state of
       Pc_clock_reconciliation \<Rightarrow> 0
     | Pc_migration_epoch_required \<Rightarrow> bp_limit (pw_policy p)
     | Pc_stable \<Rightarrow> max 0 (bp_limit (pw_policy p) - consuming))"

definition getPrivateBudgetProjection ::
  "(string \<Rightarrow> string) \<Rightarrow> string \<Rightarrow> int \<Rightarrow> budget_db \<Rightarrow> budget_projection throws" where
  "getPrivateBudgetProjection sha pid wall db =
     and_then (required_text pid ''policy_id_required'') (\<lambda>_.
     and_then (valid_time wall ''private_budget_time_invalid'') (\<lambda>_.
     and_then (resolveBudgetPolicy sha db pid None) (\<lambda>p.
       let clock = clockRow db pid;
           time = map_option (\<lambda>c. max (ck_last c) wall) clock;
           state = projected_clock_state db pid wall p
       in and_then (case time of None \<Rightarrow> Inr () | Some t \<Rightarrow> assertCurrentBudgetPolicy sha db p t) (\<lambda>_.
          and_then (case time of None \<Rightarrow> Inr 0 | Some t \<Rightarrow> consumingCount sha db pid t) (\<lambda>consuming.
            Inr \<lparr>bj_limit = bp_limit (pw_policy p), bj_windowMs = bp_windowMs (pw_policy p),
                 bj_policyTimeMs = time, bj_lowerBoundMs = map_option (\<lambda>t. t - bp_windowMs (pw_policy p)) time,
                 bj_clockState = state, bj_discrepancyMs = map_option (\<lambda>c. \<bar>wall - ck_last c\<bar>) clock,
                 bj_consumingCount = consuming, bj_remaining = projected_remaining state p consuming,
                 bj_stateCounts = state_counts db pid\<rparr>)))))"

definition privateBudgetRecoveryStatus :: "budget_projection \<Rightarrow> string" where
  "privateBudgetRecoveryStatus j = (if bj_clockState j = Pc_stable then ''ready'' else ''blocked'')"

end
