(* ===== verification/Budget_Attempts.thy ===== *)
theory Budget_Attempts
  imports Budget_Ledger
begin

text \<open>
  The private Thought budget, third part: the attempts a reservation authorizes after its first
  one, in \<^verbatim>\<open>private-budget/ledger.ts\<close> from \<open>nextPrivateRepairOrdinal\<close> on. A
  \<open>PrivateBudgetAttemptBinding\<close> is its row.
\<close>

section \<open>Reading and writing one binding\<close>

definition MAX_THOUGHT_MODEL_ATTEMPTS :: int where "MAX_THOUGHT_MODEL_ATTEMPTS = 12"

definition repairBindingRow :: "budget_db \<Rightarrow> string \<Rightarrow> string \<Rightarrow> binding_row option" where
  "repairBindingRow db rid ivk =
     sql_get (\<lambda>b. ab_reservation b = rid \<and> ab_invocation b = ivk) (bd_bindings db)"

definition max_ordinal :: "budget_db \<Rightarrow> string \<Rightarrow> int" where
  "max_ordinal db rid =
     foldr (\<lambda>b m. max (ab_ordinal b) m) (filter (\<lambda>b. ab_reservation b = rid) (bd_bindings db)) 0"

definition nextPrivateRepairOrdinal :: "budget_db \<Rightarrow> string \<Rightarrow> int throws" where
  "nextPrivateRepairOrdinal db rid =
     and_then (required_text rid ''reservation_id_required'') (\<lambda>_. Inr (max 2 (max_ordinal db rid + 1)))"

definition getPrivateRepairBinding :: "budget_db \<Rightarrow> string \<Rightarrow> string \<Rightarrow> binding_row option throws" where
  "getPrivateRepairBinding db rid ivk =
     and_then (required_text rid ''reservation_id_required'') (\<lambda>_.
     and_then (required_text ivk ''invocation_id_required'') (\<lambda>_. Inr (repairBindingRow db rid ivk)))"

text \<open>One UPDATE of the binding of an invocation, and the reload.\<close>

definition update_binding ::
  "string \<Rightarrow> string \<Rightarrow> (binding_row \<Rightarrow> bool) \<Rightarrow> (binding_row \<Rightarrow> binding_row) \<Rightarrow> budget_db \<Rightarrow>
   (nat \<times> budget_db) throws" where
  "update_binding rid ivk guard f db =
     (let match = (\<lambda>b. ab_reservation b = rid \<and> ab_invocation b = ivk \<and> guard b) in
      and_then (store_bindings (sql_update match f (bd_bindings db)) db) (\<lambda>db1.
        Inr (sql_changes match (bd_bindings db), db1)))"

definition reload_binding :: "string \<Rightarrow> string \<Rightarrow> budget_db \<Rightarrow> (binding_row \<times> budget_db) throws" where
  "reload_binding rid ivk db =
     (case repairBindingRow db rid ivk of
        None \<Rightarrow> Inl ''repair_binding_missing''
      | Some b \<Rightarrow> Inr (b, db))"

definition set_binding ::
  "string \<Rightarrow> string \<Rightarrow> (binding_row \<Rightarrow> bool) \<Rightarrow> (binding_row \<Rightarrow> binding_row) \<Rightarrow> budget_db \<Rightarrow>
   (binding_row \<times> budget_db) throws" where
  "set_binding rid ivk guard f db =
     and_then (update_binding rid ivk guard f db) (\<lambda>(_, db1). reload_binding rid ivk db1)"

definition change_binding ::
  "string \<Rightarrow> string \<Rightarrow> string \<Rightarrow> (binding_row \<Rightarrow> bool) \<Rightarrow> (binding_row \<Rightarrow> binding_row) \<Rightarrow> budget_db \<Rightarrow>
   (binding_row \<times> budget_db) throws" where
  "change_binding code rid ivk guard f db =
     and_then (update_binding rid ivk guard f db) (\<lambda>(changes, db1).
       if changes \<noteq> 1 then Inl code else reload_binding rid ivk db1)"

text \<open>The row of the invocation, for the operations that change it.\<close>

definition binding_required ::
  "string \<Rightarrow> budget_db \<Rightarrow> string \<Rightarrow> string \<Rightarrow> string option \<Rightarrow> binding_row throws" where
  "binding_required code db rid ivk attempt =
     (case repairBindingRow db rid ivk of
        None \<Rightarrow> Inl code
      | Some b \<Rightarrow> if attempt \<noteq> None \<and> attempt \<noteq> Some (ab_attempt b) then Inl code else Inr b)"

section \<open>Binding a further attempt\<close>

record repair_input =
  rp_reservationId :: string
  rp_invocationId :: string
  rp_attemptId :: string
  rp_wakeId :: string
  rp_conversationId :: string
  rp_ordinal :: int
  rp_reason :: string
  rp_nowMs :: int

definition child_reason :: "string \<Rightarrow> bool" where
  "child_reason s \<longleftrightarrow> s = ''structural_repair'' \<or> s = ''cycle_continuation''"

text \<open>A held parent that may be continued: bound, not dispatched, with a durable proof of it.\<close>

definition proven_not_dispatched :: "reservation_row \<Rightarrow> bool" where
  "proven_not_dispatched r \<longleftrightarrow> rv_truth r = T_not_started \<and> \<not> blank (text_of (rv_proof r)) \<and>
     rv_invocation r \<noteq> None \<and> rv_attempt r \<noteq> None"

definition continuable_parent :: "reservation_row \<Rightarrow> bool" where
  "continuable_parent r \<longleftrightarrow>
     rv_state r = Rv_committed \<or> rv_state r = Rv_held \<and> proven_not_dispatched r"

text \<open>The attempt before the given ordinal: its truth, and whether a no-dispatch proof is recorded.\<close>

definition previous_attempt ::
  "budget_db \<Rightarrow> reservation_row \<Rightarrow> int \<Rightarrow> (dispatch_truth \<times> bool) throws" where
  "previous_attempt db parent ordinal =
     (if ordinal = 2 then Inr (rv_truth parent, rv_proof parent \<noteq> None)
      else (case sql_get (\<lambda>b. ab_reservation b = rv_id parent \<and> ab_ordinal b = ordinal - 1) (bd_bindings db) of
              None \<Rightarrow> Inl ''repair_previous_attempt_missing''
            | Some b \<Rightarrow> Inr (ab_truth b, ab_proof b \<noteq> None)))"

definition attempt_over :: "dispatch_truth \<Rightarrow> bool \<Rightarrow> bool" where
  "attempt_over truth released \<longleftrightarrow> truth = T_responded \<or> truth = T_not_started \<and> released"

definition new_binding :: "string \<Rightarrow> repair_input \<Rightarrow> binding_row" where
  "new_binding uuid i =
     \<lparr>ab_id = ''private-attempt-binding:'' @ uuid, ab_reservation = rp_reservationId i,
      ab_invocation = rp_invocationId i, ab_attempt = rp_attemptId i, ab_ordinal = rp_ordinal i,
      ab_reason = rp_reason i, ab_truth = T_not_started, ab_request = None, ab_proof = None,
      ab_created = rp_nowMs i, ab_updated = rp_nowMs i\<rparr>"

definition insert_binding ::
  "string \<Rightarrow> repair_input \<Rightarrow> reservation_row \<Rightarrow> budget_db \<Rightarrow> (binding_row \<times> budget_db) throws" where
  "insert_binding uuid i parent db =
     (if sql_get (\<lambda>b. ab_reservation b = rp_reservationId i \<and> ab_ordinal b = rp_ordinal i) (bd_bindings db)
         \<noteq> None
      then Inl ''repair_ordinal_conflict''
      else and_then (previous_attempt db parent (rp_ordinal i)) (\<lambda>(truth, released).
           if \<not> attempt_over truth released then Inl ''repair_requires_response_evidence''
           else (case store_bindings (bd_bindings db @ [new_binding uuid i]) db of
                   Inl _ \<Rightarrow> Inl ''repair_ordinal_conflict''
                 | Inr db1 \<Rightarrow> reload_binding (rp_reservationId i) (rp_invocationId i) db1)))"

definition bind_repair ::
  "(string \<Rightarrow> string) \<Rightarrow> string \<Rightarrow> repair_input \<Rightarrow> budget_db \<Rightarrow> (binding_row \<times> budget_db) throws" where
  "bind_repair sha uuid i db =
     and_then (requireReservationBudgetPolicy sha db (rp_reservationId i)) (\<lambda>_.
     and_then (reservationRequired db (rp_reservationId i)) (\<lambda>parent.
       if \<not> continuable_parent parent
       then Inl (if rv_state parent = Rv_held then ''repair_parent_held_unproven''
                 else ''repair_parent_not_committed'')
       else if rv_wake parent \<noteq> rp_wakeId i \<or> rv_conversation parent \<noteq> rp_conversationId i
       then Inl ''repair_identity_conflict''
       else if rp_ordinal i < 2 then Inl ''repair_ordinal_reserved''
       else if MAX_THOUGHT_MODEL_ATTEMPTS < rp_ordinal i then Inl ''repair_ordinal_exceeded''
       else (case sql_get (\<lambda>b. ab_invocation b = rp_invocationId i) (bd_bindings db) of
               Some b \<Rightarrow> if ab_reservation b \<noteq> rp_reservationId i then Inl ''repair_invocation_conflict''
                         else Inr (b, db)
             | None \<Rightarrow> insert_binding uuid i parent db)))"

definition bindPrivateRepairAttempt ::
  "(string \<Rightarrow> string) \<Rightarrow> string \<Rightarrow> repair_input \<Rightarrow> budget_db \<Rightarrow> binding_row throws \<times> budget_db" where
  "bindPrivateRepairAttempt sha uuid i = validated
     (and_then (valid_time (rp_nowMs i) ''private_budget_time_invalid'') (\<lambda>_.
      and_then (required_text (rp_reservationId i) ''reservation_id_required'') (\<lambda>_.
      and_then (required_text (rp_invocationId i) ''invocation_id_required'') (\<lambda>_.
      and_then (required_text (rp_attemptId i) ''attempt_id_required'') (\<lambda>_.
      and_then (required_text (rp_wakeId i) ''wake_id_required'') (\<lambda>_.
      and_then (required_text (rp_conversationId i) ''conversation_id_required'') (\<lambda>_.
        if child_reason (rp_reason i) then Inr () else Inl ''repair_reason_invalid'')))))))
     (bind_repair sha uuid i)"

datatype bound_attempt = Bound_parent reservation_row | Bound_child binding_row int

definition bind_child ::
  "(string \<Rightarrow> string) \<Rightarrow> string \<Rightarrow> attempt_ref \<Rightarrow> string option \<Rightarrow> string option \<Rightarrow> string option \<Rightarrow>
   budget_db \<Rightarrow> bound_attempt throws \<times> budget_db" where
  "bind_child sha uuid a wake conversation reason db =
     (if \<not> child_reason (text_of reason) then (Inl ''private_budget_child_reason_unavailable'', db)
      else if text_of wake = [] \<or> text_of conversation = [] then (Inl ''repair_identity_unavailable'', db)
      else (case nextPrivateRepairOrdinal db (at_reservationId a) of
              Inl err \<Rightarrow> (Inl err, db)
            | Inr ordinal \<Rightarrow>
                (case bindPrivateRepairAttempt sha uuid
                    \<lparr>rp_reservationId = at_reservationId a, rp_invocationId = at_invocationId a,
                     rp_attemptId = at_attemptId a, rp_wakeId = text_of wake,
                     rp_conversationId = text_of conversation, rp_ordinal = ordinal,
                     rp_reason = text_of reason, rp_nowMs = at_nowMs a\<rparr> db of
                   (Inl err, db1) \<Rightarrow> (Inl err, db1)
                 | (Inr b, db1) \<Rightarrow> (Inr (Bound_child b (ab_ordinal b)), db1))))"

definition bindPrivateReservationOrRepairAttempt ::
  "(string \<Rightarrow> string) \<Rightarrow> string \<Rightarrow> attempt_ref \<Rightarrow> string option \<Rightarrow> string option \<Rightarrow> string option \<Rightarrow>
   budget_db \<Rightarrow> bound_attempt throws \<times> budget_db" where
  "bindPrivateReservationOrRepairAttempt sha uuid a wake conversation reason db =
     (case and_then (required_text (at_reservationId a) ''reservation_id_required'') (\<lambda>_.
           and_then (required_text (at_invocationId a) ''invocation_id_required'') (\<lambda>_.
             required_text (at_attemptId a) ''attempt_id_required'')) of
        Inl err \<Rightarrow> (Inl err, db)
      | Inr _ \<Rightarrow>
          if (case getPrivateReservation db (at_reservationId a) of
                None \<Rightarrow> False
              | Some r \<Rightarrow> continuable_parent r \<and> rv_invocation r \<noteq> None \<and> \<not> is_bound_to a r)
          then bind_child sha uuid a wake conversation reason db
          else (case bindPrivateReservationInvocation sha a db of
                  (Inl err, db1) \<Rightarrow> (Inl err, db1)
                | (Inr r, db1) \<Rightarrow> (Inr (Bound_parent r), db1)))"

section \<open>Dispatch, response, release and recovery of an attempt\<close>

text \<open>The parent a child dispatch needs: committed, or held and proven not dispatched.\<close>

definition commit_parent :: "string \<Rightarrow> int \<Rightarrow> budget_db \<Rightarrow> budget_db throws" where
  "commit_parent rid now db =
     and_then (reservationRequired db rid) (\<lambda>parent.
       if rv_state parent = Rv_held
       then (if \<not> proven_not_dispatched parent \<or> blank (text_of (rv_invocation parent)) \<or>
                blank (text_of (rv_attempt parent))
             then Inl ''child_commit_unproven_held_parent''
             else and_then (update_reservation rid
                    (\<lambda>r. rv_state r = Rv_held \<and> rv_truth r = T_not_started \<and> rv_proof r \<noteq> None \<and>
                         rv_invocation r \<noteq> None \<and> rv_attempt r \<noteq> None)
                    (\<lambda>r. r\<lparr>rv_state := Rv_committed, rv_updated := now\<rparr>) db) (\<lambda>(changes, db1).
                  if changes \<noteq> 1 then Inl ''child_commit_unproven_held_parent'' else Inr db1))
       else if rv_state parent \<noteq> Rv_committed then Inl ''dispatch_without_reservation''
       else Inr db)"

definition commit_repair ::
  "string \<Rightarrow> string \<Rightarrow> string option \<Rightarrow> int \<Rightarrow> budget_db \<Rightarrow> (binding_row \<times> budget_db) throws" where
  "commit_repair rid ivk attempt now db =
     and_then (binding_required ''dispatch_without_reservation'' db rid ivk attempt) (\<lambda>b.
       if ab_truth b \<noteq> T_attempted \<and> ab_truth b \<noteq> T_not_started then Inl ''dispatch_without_reservation''
       else and_then (commit_parent rid now db) (\<lambda>db1.
            if ab_truth b = T_attempted then Inr (b, db1)
            else change_binding ''dispatch_without_reservation'' rid ivk
                   (\<lambda>b. ab_truth b = T_not_started)
                   (\<lambda>b. b\<lparr>ab_truth := T_attempted, ab_updated := now\<rparr>) db1))"

definition validate_repair :: "string \<Rightarrow> string \<Rightarrow> int \<Rightarrow> unit throws" where
  "validate_repair rid ivk now =
     and_then (valid_time now ''private_budget_time_invalid'') (\<lambda>_.
     and_then (required_text rid ''reservation_id_required'') (\<lambda>_.
       required_text ivk ''invocation_id_required''))"

definition commitPrivateRepairDispatch ::
  "string \<Rightarrow> string \<Rightarrow> string option \<Rightarrow> int \<Rightarrow> budget_db \<Rightarrow> binding_row throws \<times> budget_db" where
  "commitPrivateRepairDispatch rid ivk attempt now =
     validated (validate_repair rid ivk now) (commit_repair rid ivk attempt now)"

definition repair_response ::
  "string \<Rightarrow> string \<Rightarrow> string option \<Rightarrow> string option \<Rightarrow> int \<Rightarrow> budget_db \<Rightarrow>
   (binding_row \<times> budget_db) throws" where
  "repair_response rid ivk attempt requestId now db =
     and_then (binding_required ''reservation_state_conflict'' db rid ivk attempt) (\<lambda>b.
       if ab_truth b = T_responded then Inr (b, db)
       else if ab_truth b \<noteq> T_attempted then Inl ''reservation_state_conflict''
       else set_binding rid ivk (\<lambda>b. ab_truth b = T_attempted)
              (\<lambda>b. b\<lparr>ab_truth := T_responded, ab_request := coalesce (ab_request b) requestId,
                     ab_updated := now\<rparr>) db)"

definition recordPrivateRepairResponse ::
  "string \<Rightarrow> string \<Rightarrow> string option \<Rightarrow> string option \<Rightarrow> int \<Rightarrow> budget_db \<Rightarrow>
   binding_row throws \<times> budget_db" where
  "recordPrivateRepairResponse rid ivk attempt requestId now =
     validated (validate_repair rid ivk now) (repair_response rid ivk attempt requestId now)"

definition release_repair ::
  "string \<Rightarrow> string \<Rightarrow> string \<Rightarrow> int \<Rightarrow> budget_db \<Rightarrow> (binding_row \<times> budget_db) throws" where
  "release_repair rid ivk proofRef now db =
     and_then (binding_required ''reservation_state_conflict'' db rid ivk None) (\<lambda>b.
       if ab_truth b \<noteq> T_not_started then Inl ''reservation_state_conflict''
       else if ab_proof b \<noteq> None
       then (if ab_proof b = Some proofRef then Inr (b, db) else Inl ''release_proof_conflict'')
       else change_binding ''reservation_state_conflict'' rid ivk
              (\<lambda>b. ab_truth b = T_not_started \<and> ab_proof b = None)
              (\<lambda>b. b\<lparr>ab_proof := Some proofRef, ab_updated := now\<rparr>) db)"

definition releasePrivateRepairAttempt ::
  "string \<Rightarrow> string \<Rightarrow> string \<Rightarrow> int \<Rightarrow> budget_db \<Rightarrow> binding_row throws \<times> budget_db" where
  "releasePrivateRepairAttempt rid ivk proofRef now = validated
     (and_then (validate_repair rid ivk now) (\<lambda>_. required_text proofRef ''release_proof_missing''))
     (release_repair rid ivk proofRef now)"

definition repair_unknown :: "string \<Rightarrow> string \<Rightarrow> int \<Rightarrow> budget_db \<Rightarrow> (binding_row \<times> budget_db) throws" where
  "repair_unknown rid ivk now db =
     and_then (binding_required ''reservation_state_conflict'' db rid ivk None) (\<lambda>b.
       if ab_truth b = T_unknown then Inr (b, db)
       else if ab_truth b \<noteq> T_attempted then Inl ''contradictory_dispatch_truth''
       else set_binding rid ivk (\<lambda>b. ab_truth b = T_attempted)
              (\<lambda>b. b\<lparr>ab_truth := T_unknown, ab_updated := now\<rparr>) db)"

definition markPrivateRepairAttemptUnknown ::
  "string \<Rightarrow> string \<Rightarrow> int \<Rightarrow> budget_db \<Rightarrow> binding_row throws \<times> budget_db" where
  "markPrivateRepairAttemptUnknown rid ivk now =
     validated (validate_repair rid ivk now) (repair_unknown rid ivk now)"

definition reconcile_responded ::
  "string \<Rightarrow> string \<Rightarrow> string option \<Rightarrow> int \<Rightarrow> binding_row \<Rightarrow> budget_db \<Rightarrow>
   (binding_row \<times> budget_db) throws" where
  "reconcile_responded rid ivk requestId now b db =
     (if ab_truth b = T_responded
      then (if text_of requestId \<noteq> [] \<and> text_of (ab_request b) = []
            then set_binding rid ivk (\<lambda>_. True)
                   (\<lambda>b. b\<lparr>ab_request := requestId, ab_updated := now\<rparr>) db
            else Inr (b, db))
      else if ab_truth b \<notin> {T_not_started, T_attempted, T_unknown} then Inl ''reservation_state_conflict''
      else set_binding rid ivk (\<lambda>b. ab_truth b \<in> {T_not_started, T_attempted, T_unknown})
             (\<lambda>b. b\<lparr>ab_truth := T_responded, ab_request := coalesce (ab_request b) requestId,
                    ab_updated := now\<rparr>) db)"

definition reconcile_repair ::
  "string \<Rightarrow> string \<Rightarrow> dispatch_truth \<Rightarrow> string option \<Rightarrow> int \<Rightarrow> budget_db \<Rightarrow>
   (binding_row \<times> budget_db) throws" where
  "reconcile_repair rid ivk target requestId now db =
     and_then (binding_required ''reservation_state_conflict'' db rid ivk None) (\<lambda>b.
       if ab_proof b \<noteq> None then Inl ''reservation_state_conflict''
       else if target = T_attempted
       then (if ab_truth b = T_attempted then Inr (b, db)
             else if ab_truth b = T_responded then Inl ''contradictory_dispatch_truth''
             else if ab_truth b \<notin> {T_not_started, T_unknown} then Inl ''reservation_state_conflict''
             else set_binding rid ivk (\<lambda>b. ab_truth b \<in> {T_not_started, T_unknown})
                    (\<lambda>b. b\<lparr>ab_truth := T_attempted, ab_updated := now\<rparr>) db)
       else reconcile_responded rid ivk requestId now b db)"

definition reconcilePrivateRepairAttempt ::
  "string \<Rightarrow> string \<Rightarrow> dispatch_truth \<Rightarrow> string option \<Rightarrow> int \<Rightarrow> budget_db \<Rightarrow>
   binding_row throws \<times> budget_db" where
  "reconcilePrivateRepairAttempt rid ivk target requestId now = validated
     (and_then (validate_repair rid ivk now) (\<lambda>_.
        if target \<noteq> T_attempted \<and> target \<noteq> T_responded then Inl ''contradictory_dispatch_truth'' else Inr ()))
     (reconcile_repair rid ivk target requestId now)"

section \<open>The attempt history\<close>

record attempt_record =
  ar_ordinal :: int
  ar_reason :: string
  ar_invocation :: string
  ar_attempt :: string
  ar_truth :: dispatch_truth
  ar_request :: "string option"
  ar_proof :: "string option"

definition parent_records :: "reservation_row option \<Rightarrow> attempt_record list" where
  "parent_records p =
     (case p of
        None \<Rightarrow> []
      | Some r \<Rightarrow>
          (case (rv_invocation r, rv_attempt r) of
             (Some ivk, Some attempt) \<Rightarrow>
               if rv_truth r = T_not_bound then []
               else [\<lparr>ar_ordinal = 1, ar_reason = ''initial_dispatch'', ar_invocation = ivk,
                      ar_attempt = attempt, ar_truth = rv_truth r, ar_request = None, ar_proof = rv_proof r\<rparr>]
           | _ \<Rightarrow> []))"

definition child_record :: "binding_row \<Rightarrow> attempt_record" where
  "child_record b = \<lparr>ar_ordinal = ab_ordinal b, ar_reason = ab_reason b, ar_invocation = ab_invocation b,
     ar_attempt = ab_attempt b, ar_truth = ab_truth b, ar_request = ab_request b, ar_proof = ab_proof b\<rparr>"

definition listPrivateAttemptHistory :: "budget_db \<Rightarrow> string \<Rightarrow> attempt_record list throws" where
  "listPrivateAttemptHistory db rid =
     and_then (required_text rid ''reservation_id_required'') (\<lambda>_.
       Inr (parent_records (getPrivateReservation db rid) @
            map child_record (sort_key ab_ordinal (filter (\<lambda>b. ab_reservation b = rid) (bd_bindings db)))))"

end
