(* ===== verification/Budget_Window.thy ===== *)
theory Budget_Window
  imports Budget_Attempts Transition_Systems
begin

text \<open>
  The lifecycle of the private Thought budget. Every operation is a sequence of single changes
  of one table (\<open>budget_change\<close>); the invariants are proved once per change. They give the
  capacity bound of the rolling window, the fate of a committed reservation, and the shape of
  the attempt history.
\<close>

section \<open>Single changes\<close>

definition clock_last :: "clock_row list \<Rightarrow> string \<Rightarrow> int option" where
  "clock_last cs pid = map_option ck_last (sql_get (\<lambda>c. ck_policy c = pid) cs)"

definition clocks_grow :: "clock_row list \<Rightarrow> clock_row list \<Rightarrow> bool" where
  "clocks_grow cs cs' \<longleftrightarrow> (\<forall>pid t. clock_last cs pid = Some t \<longrightarrow>
     (\<exists>t'. clock_last cs' pid = Some t' \<and> t \<le> t'))"

definition policy_core :: "policy_row \<Rightarrow> budget_policy \<times> string" where
  "policy_core p = (pw_policy p, pw_fingerprint p)"

text \<open>The policy a reservation is bound to, and the time after which it no longer counts.\<close>

definition binds :: "policy_row list \<Rightarrow> reservation_row \<Rightarrow> policy_row \<Rightarrow> bool" where
  "binds ps r p \<longleftrightarrow> p \<in> set ps \<and> bp_policyId (pw_policy p) = rv_policy r \<and>
     rv_fingerprint r = Some (pw_fingerprint p)"

definition window_over :: "policy_row list \<Rightarrow> clock_row list \<Rightarrow> reservation_row \<Rightarrow> bool" where
  "window_over ps cs r \<longleftrightarrow> (\<exists>p t. binds ps r p \<and> clock_last cs (rv_policy r) = Some t \<and>
     rv_time r \<le> t - bp_windowMs (pw_policy p))"

definition fully_bound :: "reservation_row \<Rightarrow> bool" where
  "fully_bound r \<longleftrightarrow> rv_invocation r \<noteq> None \<and> rv_attempt r \<noteq> None \<and> rv_truth r \<noteq> T_not_bound"

definition rv_edge :: "reservation_state \<Rightarrow> reservation_state \<Rightarrow> bool" where
  "rv_edge s t \<longleftrightarrow>
     s = Rv_held \<and> t \<in> {Rv_committed, Rv_released, Rv_reconcile_required, Rv_expired} \<or>
     s = Rv_committed \<and> t = Rv_expired \<or>
     s = Rv_reconcile_required \<and> t \<in> {Rv_committed, Rv_released, Rv_expired}"

definition rv_move :: "budget_db \<Rightarrow> reservation_row \<Rightarrow> reservation_row \<Rightarrow> bool" where
  "rv_move db r r' \<longleftrightarrow>
     rv_id r' = rv_id r \<and> rv_policy r' = rv_policy r \<and> rv_time r' = rv_time r \<and>
     rv_fingerprint r' = rv_fingerprint r \<and>
     (rv_state r' = rv_state r \<or> rv_edge (rv_state r) (rv_state r')) \<and>
     (rv_state r' = Rv_expired \<longrightarrow> window_over (bd_policies db) (bd_clocks db) r) \<and>
     (rv_state r' = Rv_committed \<longrightarrow> rv_state r = Rv_committed \<or> fully_bound r) \<and>
     (rv_truth r \<noteq> T_not_bound \<longrightarrow> rv_truth r' \<noteq> T_not_bound) \<and>
     (rv_invocation r \<noteq> None \<longrightarrow> rv_invocation r' = rv_invocation r \<and>
        (rv_attempt r \<noteq> None \<longrightarrow> rv_attempt r' = rv_attempt r))"

definition ab_move :: "binding_row \<Rightarrow> binding_row \<Rightarrow> bool" where
  "ab_move b b' \<longleftrightarrow> ab_id b' = ab_id b \<and> ab_reservation b' = ab_reservation b \<and>
     ab_invocation b' = ab_invocation b \<and> ab_attempt b' = ab_attempt b \<and> ab_ordinal b' = ab_ordinal b"

text \<open>The reservations of one policy version that count in the window of the given length before \<open>t\<close>.\<close>

definition counted :: "string option \<Rightarrow> int \<Rightarrow> int \<Rightarrow> reservation_row \<Rightarrow> bool" where
  "counted fingerprint window t r \<longleftrightarrow> rv_fingerprint r = fingerprint \<and> rv_state r \<noteq> Rv_released \<and>
     t - window < rv_time r \<and> rv_time r \<le> t"

definition still_active :: "string option \<Rightarrow> int \<Rightarrow> int \<Rightarrow> reservation_row \<Rightarrow> bool" where
  "still_active fingerprint window t r \<longleftrightarrow> rv_fingerprint r = fingerprint \<and>
     consuming_state (rv_state r) \<and> t - window < rv_time r"

inductive budget_change :: "budget_db \<Rightarrow> budget_db \<Rightarrow> bool" where
  change_kernel: "budget_change db (db\<lparr>bd_kernel := k\<rparr>)"
| change_clocks: "clocks_grow (bd_clocks db) cs \<Longrightarrow> budget_change db (db\<lparr>bd_clocks := cs\<rparr>)"
| change_policies: "policy_indexes ps \<Longrightarrow> \<forall>p \<in> set ps. pw_fingerprint p \<noteq> [] \<Longrightarrow>
    map policy_core ps = map policy_core (bd_policies db) @ new \<Longrightarrow>
    budget_change db (db\<lparr>bd_policies := ps\<rparr>)"
| change_rows: "rows_move (rv_move db) (bd_reservations db) rows \<Longrightarrow> reservation_indexes rows \<Longrightarrow>
    budget_change db (db\<lparr>bd_reservations := rows\<rparr>)"
| change_insert: "binds (bd_policies db) row p \<Longrightarrow>
    clock_last (bd_clocks db) (rv_policy row) = Some (rv_time row) \<Longrightarrow>
    length (filter (still_active (rv_fingerprint row) (bp_windowMs (pw_policy p)) (rv_time row))
      (bd_reservations db)) < nat (bp_limit (pw_policy p)) \<Longrightarrow>
    rv_state row = Rv_held \<Longrightarrow> reservation_indexes (bd_reservations db @ [row]) \<Longrightarrow>
    budget_change db (db\<lparr>bd_reservations := bd_reservations db @ [row]\<rparr>)"
| change_bindings: "rows_move ab_move (bd_bindings db) bs \<Longrightarrow> binding_indexes bs \<Longrightarrow>
    budget_change db (db\<lparr>bd_bindings := bs\<rparr>)"
| change_bind: "r \<in> set (bd_reservations db) \<Longrightarrow> rv_id r = ab_reservation b \<Longrightarrow> fully_bound r \<Longrightarrow>
    ab_ordinal b = 2 \<or> (\<exists>b' \<in> set (bd_bindings db). ab_reservation b' = ab_reservation b \<and>
      ab_ordinal b' = ab_ordinal b - 1) \<Longrightarrow>
    binding_indexes (bd_bindings db @ [b]) \<Longrightarrow>
    budget_change db (db\<lparr>bd_bindings := bd_bindings db @ [b]\<rparr>)"

section \<open>The capacity invariant\<close>

definition bound_row :: "budget_db \<Rightarrow> reservation_row \<Rightarrow> bool" where
  "bound_row db r \<longleftrightarrow> (\<exists>p. binds (bd_policies db) r p) \<and>
     (\<exists>t. clock_last (bd_clocks db) (rv_policy r) = Some t \<and> rv_time r \<le> t) \<and>
     (rv_state r = Rv_expired \<longrightarrow> window_over (bd_policies db) (bd_clocks db) r)"

definition within_limit :: "reservation_row list \<Rightarrow> policy_row \<Rightarrow> bool" where
  "within_limit rows p \<longleftrightarrow> (\<forall>t. int (length (filter
     (counted (Some (pw_fingerprint p)) (bp_windowMs (pw_policy p)) t) rows)) \<le> bp_limit (pw_policy p))"

definition capacity_inv :: "budget_db \<Rightarrow> bool" where
  "capacity_inv db \<longleftrightarrow> policy_indexes (bd_policies db) \<and> reservation_indexes (bd_reservations db) \<and>
     (\<forall>p \<in> set (bd_policies db). pw_fingerprint p \<noteq> []) \<and>
     (\<forall>r \<in> set (bd_reservations db). bound_row db r) \<and>
     (\<forall>p \<in> set (bd_policies db). within_limit (bd_reservations db) p)"

lemma binds_core: "binds ps r p \<Longrightarrow> policy_core ` set ps \<subseteq> policy_core ` set ps' \<Longrightarrow>
  \<exists>p'. binds ps' r p' \<and> pw_policy p' = pw_policy p"
  by (fastforce simp: binds_def policy_core_def image_subset_iff image_iff)

lemma window_over_mono:
  assumes "window_over ps cs r" and "policy_core ` set ps \<subseteq> policy_core ` set ps'" and "clocks_grow cs cs'"
  shows "window_over ps' cs' r"
proof -
  from assms(1) obtain p t where p: "binds ps r p" "clock_last cs (rv_policy r) = Some t"
      "rv_time r \<le> t - bp_windowMs (pw_policy p)"
    by (auto simp: window_over_def)
  from binds_core [OF p(1) assms(2)] obtain p' where "binds ps' r p'" "pw_policy p' = pw_policy p" by blast
  moreover from assms(3) p(2) obtain t' where "clock_last cs' (rv_policy r) = Some t'" "t \<le> t'"
    by (auto simp: clocks_grow_def)
  ultimately show ?thesis using p(3) by (force simp: window_over_def)
qed

lemma clocks_grow_refl [simp]: "clocks_grow cs cs"
  by (simp add: clocks_grow_def)

lemma bound_row_mono:
  assumes "bound_row db r" and "policy_core ` set (bd_policies db) \<subseteq> policy_core ` set (bd_policies db')"
    and "clocks_grow (bd_clocks db) (bd_clocks db')"
  shows "bound_row db' r"
proof -
  from assms(1) obtain p t where "binds (bd_policies db) r p"
      and t: "clock_last (bd_clocks db) (rv_policy r) = Some t" "rv_time r \<le> t"
      and w: "rv_state r = Rv_expired \<longrightarrow> window_over (bd_policies db) (bd_clocks db) r"
    by (auto simp: bound_row_def)
  moreover from assms(3) t obtain t' where "clock_last (bd_clocks db') (rv_policy r) = Some t'" "rv_time r \<le> t'"
    by (fastforce simp: clocks_grow_def)
  moreover from binds_core [OF \<open>binds _ _ _\<close> assms(2)] obtain p' where "binds (bd_policies db') r p'" by blast
  ultimately show ?thesis
    using window_over_mono [OF _ assms(2,3)] unfolding bound_row_def by blast
qed

text \<open>A fingerprint names one policy.\<close>

lemma policy_unique:
  "policy_indexes ps \<Longrightarrow> p \<in> set ps \<Longrightarrow> q \<in> set ps \<Longrightarrow> pw_fingerprint p = pw_fingerprint q \<Longrightarrow> p = q"
  by (auto simp: policy_indexes_def distinct_map inj_on_def)

lemma filter_length_mono:
  "(\<And>x. x \<in> set xs \<Longrightarrow> P x \<Longrightarrow> Q x) \<Longrightarrow> length (filter P xs) \<le> length (filter Q xs)"
  by (induction xs) force+

lemma rows_move_count:
  assumes "rows_move M rows rows'" and "\<And>r r'. M r r' \<Longrightarrow> P r' \<Longrightarrow> P r"
  shows "length (filter P rows') \<le> length (filter P rows)"
  using assms(1) unfolding rows_move_def
  by (induction rule: list_all2_induct) (auto dest: assms(2))

lemma counted_move: "rv_move db r r' \<Longrightarrow> counted f w t r' \<Longrightarrow> counted f w t r"
  by (auto simp: rv_move_def counted_def rv_edge_def)

lemma bound_row_move: "rv_move db r r' \<Longrightarrow> bound_row db r \<Longrightarrow> bound_row db r'"
  by (auto simp: rv_move_def bound_row_def window_over_def binds_def)

lemma change_rows_capacity:
  assumes "capacity_inv db" and "rows_move (rv_move db) (bd_reservations db) rows" and "reservation_indexes rows"
  shows "capacity_inv (db\<lparr>bd_reservations := rows\<rparr>)"
proof -
  have "\<forall>r \<in> set rows. bound_row db r"
    using rows_move_all [OF assms(2), of "bound_row db"] bound_row_move assms(1)
    by (auto simp: capacity_inv_def)
  moreover have "within_limit rows p" if "p \<in> set (bd_policies db)" for p
  proof -
    have "length (filter (counted f w t) rows) \<le> length (filter (counted f w t) (bd_reservations db))" for f w t
      by (rule rows_move_count [OF assms(2)]) (rule counted_move)
    moreover have "within_limit (bd_reservations db) p" using assms(1) that by (simp add: capacity_inv_def)
    ultimately show ?thesis unfolding within_limit_def by (meson of_nat_mono order_trans)
  qed
  ultimately show ?thesis using assms(1,3) by (simp add: capacity_inv_def bound_row_def)
qed

text \<open>A reservation that counts in a window that reaches to the new one is still active now.\<close>

lemma counted_still_active:
  assumes inv: "capacity_inv db" and "r \<in> set (bd_reservations db)" and "p \<in> set (bd_policies db)"
    and "clock_last (bd_clocks db) (bp_policyId (pw_policy p)) = Some t" and "t \<le> t'"
    and c: "counted (Some (pw_fingerprint p)) (bp_windowMs (pw_policy p)) t' r"
  shows "still_active (Some (pw_fingerprint p)) (bp_windowMs (pw_policy p)) t r"
proof -
  have row: "bound_row db r" and ps: "policy_indexes (bd_policies db)"
    using inv assms(2) by (auto simp: capacity_inv_def)
  have same: "q = p" if "binds (bd_policies db) r q" for q
    using that c policy_unique [OF ps _ assms(3)] by (auto simp: binds_def counted_def)
  with row have pid: "rv_policy r = bp_policyId (pw_policy p)" by (auto simp: bound_row_def binds_def)
  have "rv_state r \<noteq> Rv_expired"
  proof
    assume "rv_state r = Rv_expired"
    with row same pid assms(4) have "rv_time r \<le> t - bp_windowMs (pw_policy p)"
      by (auto simp: bound_row_def window_over_def)
    with c assms(5) show False by (simp add: counted_def)
  qed
  with c have "consuming_state (rv_state r)"
    by (cases "rv_state r") (auto simp: counted_def consuming_state_def)
  with c assms(5) show ?thesis by (simp add: still_active_def counted_def)
qed

lemma change_insert_capacity:
  assumes inv: "capacity_inv db" and b: "binds (bd_policies db) row p"
    and clock: "clock_last (bd_clocks db) (rv_policy row) = Some (rv_time row)"
    and room: "length (filter (still_active (rv_fingerprint row) (bp_windowMs (pw_policy p)) (rv_time row))
      (bd_reservations db)) < nat (bp_limit (pw_policy p))"
    and held: "rv_state row = Rv_held" and ix: "reservation_indexes (bd_reservations db @ [row])"
  shows "capacity_inv (db\<lparr>bd_reservations := bd_reservations db @ [row]\<rparr>)"
proof -
  have p: "p \<in> set (bd_policies db)" "bp_policyId (pw_policy p) = rv_policy row"
      "rv_fingerprint row = Some (pw_fingerprint p)"
    using b by (auto simp: binds_def)
  have "within_limit (bd_reservations db @ [row]) q" if q: "q \<in> set (bd_policies db)" for q
    unfolding within_limit_def
  proof
    fix t
    let ?f = "Some (pw_fingerprint q)" and ?w = "bp_windowMs (pw_policy q)"
    have old: "int (length (filter (counted ?f ?w t) (bd_reservations db))) \<le> bp_limit (pw_policy q)"
      using inv q by (simp add: capacity_inv_def within_limit_def)
    show "int (length (filter (counted ?f ?w t) (bd_reservations db @ [row]))) \<le> bp_limit (pw_policy q)"
    proof (cases "counted ?f ?w t row")
      case True
      then have "pw_fingerprint q = pw_fingerprint p" and t: "rv_time row \<le> t"
        using p(3) by (simp_all add: counted_def)
      moreover have "policy_indexes (bd_policies db)" using inv by (simp add: capacity_inv_def)
      ultimately have "q = p" using policy_unique q p(1) by blast
      with t have "length (filter (counted ?f ?w t) (bd_reservations db)) \<le>
          length (filter (still_active ?f ?w (rv_time row)) (bd_reservations db))"
        using counted_still_active [OF inv _ p(1)] clock p(2) by (intro filter_length_mono) auto
      with room \<open>q = p\<close> p(3) have "length (filter (counted ?f ?w t) (bd_reservations db)) < nat (bp_limit (pw_policy q))"
        by simp
      with True show ?thesis by simp
    qed (use old in simp)
  qed
  moreover have "bound_row db row" using b clock held unfolding bound_row_def by auto
  moreover have "bound_row (db\<lparr>bd_reservations := rows\<rparr>) r = bound_row db r" for rows r
    by (simp add: bound_row_def)
  ultimately show ?thesis using inv ix by (simp add: capacity_inv_def)
qed

lemma change_policies_capacity:
  assumes inv: "capacity_inv db" and ix: "policy_indexes ps" and "\<forall>p \<in> set ps. pw_fingerprint p \<noteq> []"
    and core: "map policy_core ps = map policy_core (bd_policies db) @ new"
  shows "capacity_inv (db\<lparr>bd_policies := ps\<rparr>)"
proof -
  have "set (map policy_core ps) = set (map policy_core (bd_policies db) @ new)" by (simp only: core)
  then have sub: "policy_core ` set (bd_policies db) \<subseteq> policy_core ` set ps" by auto
  have "within_limit (bd_reservations db) p" if p: "p \<in> set ps" for p
  proof (cases "\<exists>r \<in> set (bd_reservations db). rv_fingerprint r = Some (pw_fingerprint p)")
    case True
    then obtain r q where r: "r \<in> set (bd_reservations db)" "rv_fingerprint r = Some (pw_fingerprint p)"
        and q: "binds (bd_policies db) r q"
      using inv by (auto simp: capacity_inv_def bound_row_def)
    from q sub obtain q' where "q' \<in> set ps" "policy_core q' = policy_core q"
      by (auto simp: binds_def image_subset_iff image_iff)
    moreover from this q r have "q' = p"
      by (intro policy_unique [OF ix _ p]) (auto simp: policy_core_def binds_def)
    moreover have "within_limit (bd_reservations db) q" using inv q by (simp add: capacity_inv_def binds_def)
    ultimately show ?thesis by (simp add: within_limit_def policy_core_def)
  next
    case False
    then have "filter (counted (Some (pw_fingerprint p)) w t) (bd_reservations db) = []" for w t
      by (auto simp: filter_empty_conv counted_def)
    moreover have "0 \<le> bp_limit (pw_policy p)"
      using ix p by (auto simp: policy_indexes_def list_all_iff)
    ultimately show ?thesis by (simp add: within_limit_def)
  qed
  moreover have "\<forall>r \<in> set (bd_reservations db). bound_row (db\<lparr>bd_policies := ps\<rparr>) r"
    using inv sub bound_row_mono [of db _ "db\<lparr>bd_policies := ps\<rparr>"] by (simp add: capacity_inv_def)
  ultimately show ?thesis using inv ix assms(3) by (simp add: capacity_inv_def)
qed

interpretation capacity: preserved budget_change capacity_inv
proof (unfold_locales, goal_cases)
  case (1 db db')
  from 1(2) show ?case
  proof cases
    case (change_clocks cs)
    with 1(1) have "\<forall>r \<in> set (bd_reservations db). bound_row db' r"
      using bound_row_mono [of db _ db'] by (simp add: capacity_inv_def)
    with change_clocks 1(1) show ?thesis by (simp add: capacity_inv_def)
  next
    case change_policies
    with 1(1) show ?thesis by (simp add: change_policies_capacity)
  next
    case change_rows
    with 1(1) show ?thesis by (simp add: change_rows_capacity)
  next
    case change_insert
    with 1(1) show ?thesis by (simp add: change_insert_capacity)
  qed (use 1(1) in \<open>simp_all add: capacity_inv_def bound_row_def\<close>)
qed

section \<open>Reservation states\<close>

definition rv_status :: "budget_db \<Rightarrow> string \<Rightarrow> reservation_state option" where
  "rv_status db rid = map_option rv_state (getPrivateReservation db rid)"

interpretation reservation_states: record_lifecycle budget_change rv_status rv_edge
proof (unfold_locales, goal_cases)
  case (1 db db' rid s)
  then obtain r where r: "sql_get (\<lambda>r. rv_id r = rid) (bd_reservations db) = Some r" "rv_state r = s"
    by (auto simp: rv_status_def getPrivateReservation_def simp del: sql_get_None_iff)
  from 1(1) show ?case
  proof cases
    case (change_rows rows)
    then obtain r' where "sql_get (\<lambda>r. rv_id r = rid) rows = Some r'" "r' = r \<or> rv_move db r r'"
      using rows_move_get [OF change_rows(2) _ r(1)] by (auto simp: rv_move_def)
    with r(2) change_rows(1) show ?thesis
      by (auto simp: rv_status_def getPrivateReservation_def rv_move_def)
  qed (use r in \<open>auto simp: rv_status_def getPrivateReservation_def sql_get_append\<close>)
qed

section \<open>The shape of the attempt history\<close>

definition parent_bound :: "reservation_row list \<Rightarrow> string \<Rightarrow> bool" where
  "parent_bound rows rid \<longleftrightarrow> (\<exists>r \<in> set rows. rv_id r = rid \<and> fully_bound r)"

definition gapless :: "binding_row list \<Rightarrow> binding_row \<Rightarrow> bool" where
  "gapless bs b \<longleftrightarrow> ab_ordinal b = 2 \<or>
     (\<exists>b' \<in> set bs. ab_reservation b' = ab_reservation b \<and> ab_ordinal b' = ab_ordinal b - 1)"

definition attempts_inv :: "budget_db \<Rightarrow> bool" where
  "attempts_inv db \<longleftrightarrow> binding_indexes (bd_bindings db) \<and>
     (\<forall>r \<in> set (bd_reservations db). rv_state r = Rv_committed \<longrightarrow> fully_bound r) \<and>
     (\<forall>b \<in> set (bd_bindings db). parent_bound (bd_reservations db) (ab_reservation b) \<and>
        gapless (bd_bindings db) b)"

lemma fully_bound_move: "rv_move db r r' \<Longrightarrow> fully_bound r \<Longrightarrow> fully_bound r'"
  by (auto simp: rv_move_def fully_bound_def)

lemma rv_move_id: "rv_move db r r' \<Longrightarrow> rv_id r' = rv_id r"
  by (simp add: rv_move_def)

lemma rv_move_committed: "rv_move db r r' \<Longrightarrow> rv_state r' = Rv_committed \<Longrightarrow>
  rv_state r = Rv_committed \<or> fully_bound r"
  by (simp add: rv_move_def)

lemma rows_move_image:
  "rows_move M rows rows' \<Longrightarrow> r \<in> set rows \<Longrightarrow> \<exists>r' \<in> set rows'. r' = r \<or> M r r'"
  unfolding rows_move_def by (induction rule: list_all2_induct) auto

lemma rows_move_origin:
  "rows_move M rows rows' \<Longrightarrow> r' \<in> set rows' \<Longrightarrow> \<exists>r \<in> set rows. r' = r \<or> M r r'"
  unfolding rows_move_def by (induction rule: list_all2_induct) auto

lemma parent_bound_move:
  assumes "rows_move (rv_move db) rows rows'" and "parent_bound rows rid"
  shows "parent_bound rows' rid"
proof -
  from assms(2) obtain r where r: "r \<in> set rows" "rv_id r = rid" "fully_bound r" by (auto simp: parent_bound_def)
  from rows_move_image [OF assms(1) r(1)] obtain r' where "r' \<in> set rows'" "r' = r \<or> rv_move db r r'" by blast
  with r(2,3) have "rv_id r' = rid \<and> fully_bound r'" using fully_bound_move rv_move_id by blast
  with \<open>r' \<in> set rows'\<close> show ?thesis by (auto simp: parent_bound_def)
qed

lemma committed_move:
  assumes "rows_move (rv_move db) rows rows'" and "\<forall>r \<in> set rows. rv_state r = Rv_committed \<longrightarrow> fully_bound r"
  shows "\<forall>r \<in> set rows'. rv_state r = Rv_committed \<longrightarrow> fully_bound r"
proof (intro ballI impI)
  fix r' assume r': "r' \<in> set rows'" "rv_state r' = Rv_committed"
  from rows_move_origin [OF assms(1) this(1)] obtain r where "r \<in> set rows" "r' = r \<or> rv_move db r r'" by blast
  with assms(2) r'(2) show "fully_bound r'"
    using fully_bound_move rv_move_committed by blast
qed

lemma gapless_move:
  assumes "rows_move ab_move bs bs'" and "\<forall>b \<in> set bs. gapless bs b" and "b' \<in> set bs'"
  shows "gapless bs' b'"
proof -
  from rows_move_origin [OF assms(1,3)] obtain b where b: "b \<in> set bs" "b' = b \<or> ab_move b b'" by blast
  then have same: "ab_reservation b' = ab_reservation b" "ab_ordinal b' = ab_ordinal b" by (auto simp: ab_move_def)
  from assms(2) b(1) consider "ab_ordinal b = 2"
    | a where "a \<in> set bs" "ab_reservation a = ab_reservation b" "ab_ordinal a = ab_ordinal b - 1"
    by (auto simp: gapless_def)
  then show ?thesis
  proof cases
    case 2
    from rows_move_image [OF assms(1) 2(1)] obtain a' where "a' \<in> set bs'" "a' = a \<or> ab_move a a'" by blast
    with 2 same show ?thesis by (auto simp: gapless_def ab_move_def)
  qed (simp add: gapless_def same)
qed

interpretation attempts: preserved budget_change attempts_inv
proof (unfold_locales, goal_cases)
  case (1 db db')
  from 1(2) show ?case
  proof cases
    case (change_rows rows)
    with 1(1) parent_bound_move [OF change_rows(2)] committed_move [OF change_rows(2)] show ?thesis
      by (simp add: attempts_inv_def)
  next
    case (change_insert row p)
    with 1(1) show ?thesis by (auto simp: attempts_inv_def parent_bound_def)
  next
    case (change_bindings bs)
    have "parent_bound (bd_reservations db) (ab_reservation b)" if "b \<in> set bs" for b
      using rows_move_origin [OF change_bindings(2) that] 1(1) by (auto simp: attempts_inv_def ab_move_def)
    with 1(1) change_bindings gapless_move [OF change_bindings(2)] show ?thesis
      by (simp add: attempts_inv_def)
  next
    case (change_bind r b)
    then have "parent_bound (bd_reservations db) (ab_reservation b)" by (auto simp: parent_bound_def)
    moreover have "gapless (bd_bindings db @ [b]) x" if "x \<in> set (bd_bindings db @ [b])" for x
      using 1(1) change_bind(5) that by (auto simp: gapless_def attempts_inv_def)
    ultimately show ?thesis using 1(1) change_bind(1,6) by (auto simp: attempts_inv_def)
  qed (use 1(1) in \<open>simp_all add: attempts_inv_def\<close>)
qed

text \<open>The ordinals of the attempts of a reservation are consecutive from 2 and at most 12.\<close>

lemma gapless_down:
  assumes inv: "attempts_inv db" and "b \<in> set (bd_bindings db)" and "2 \<le> k" and "k \<le> ab_ordinal b"
  shows "\<exists>a \<in> set (bd_bindings db). ab_reservation a = ab_reservation b \<and> ab_ordinal a = k"
  using assms(2-)
proof (induction "nat (ab_ordinal b - k)" arbitrary: b)
  case 0
  then show ?case by auto
next
  case (Suc n)
  from Suc.hyps(2) Suc.prems have "ab_ordinal b \<noteq> 2" by linarith
  with inv Suc.prems(1) obtain a where a: "a \<in> set (bd_bindings db)" "ab_reservation a = ab_reservation b"
      "ab_ordinal a = ab_ordinal b - 1"
    by (auto simp: attempts_inv_def gapless_def)
  with Suc.hyps(2) Suc.hyps(1) [of a] Suc.prems show ?case by auto
qed

definition ordinals :: "budget_db \<Rightarrow> string \<Rightarrow> int list" where
  "ordinals db rid =
     map ab_ordinal (sort_key ab_ordinal (filter (\<lambda>b. ab_reservation b = rid) (bd_bindings db)))"

lemma ordinals_consecutive:
  assumes inv: "attempts_inv db"
  shows "\<exists>n \<le> 12. ordinals db rid = [2..n]"
proof -
  let ?bs = "filter (\<lambda>b. ab_reservation b = rid) (bd_bindings db)"
  let ?S = "ab_ordinal ` set ?bs"
  have ix: "distinct (map (\<lambda>b. (ab_reservation b, ab_ordinal b)) (bd_bindings db))"
      and range: "\<forall>b \<in> set (bd_bindings db). 2 \<le> ab_ordinal b \<and> ab_ordinal b \<le> 12"
    using inv by (auto simp: attempts_inv_def binding_indexes_def list_all_iff)
  have "distinct (map ab_ordinal ?bs)"
    using ix by (auto simp: distinct_map inj_on_def)
  then have d: "distinct (ordinals db rid)"
    unfolding ordinals_def by (metis distinct_map distinct_sort set_sort)
  have s: "sorted (ordinals db rid)" by (simp add: ordinals_def)
  have set: "set (ordinals db rid) = ?S" by (simp add: ordinals_def)
  show ?thesis
  proof (cases "?S = {}")
    case True
    then have "ordinals db rid = []" using set by simp
    then show ?thesis by (intro exI [of _ 1]) simp
  next
    case False
    define n where "n = Max ?S"
    have fin: "finite ?S" by simp
    then have n: "n \<in> ?S" "\<forall>k \<in> ?S. k \<le> n" using False Max_in Max_ge by (auto simp: n_def simp del: set_filter)
    then obtain b where b: "b \<in> set (bd_bindings db)" "ab_reservation b = rid" "ab_ordinal b = n" by auto
    have "?S = {2..n}"
    proof (intro equalityI subsetI)
      fix k assume "k \<in> ?S"
      with n(2) range show "k \<in> {2..n}" by auto
    next
      fix k assume "k \<in> {2..n}"
      then obtain a where "a \<in> set (bd_bindings db)" "ab_reservation a = rid" "ab_ordinal a = k"
        using gapless_down [OF inv b(1), of k] b(2,3) by auto
      then show "k \<in> ?S" by force
    qed
    with set have "set (ordinals db rid) = set [2..n]" by simp
    then have "ordinals db rid = [2..n]"
      by (rule sorted_distinct_set_unique [OF s d sorted_upto distinct_upto])
    moreover have "n \<le> 12" using b range by auto
    ultimately show ?thesis by blast
  qed
qed

end
