(* ===== verification/Budget_Steps.thy ===== *)
theory Budget_Steps
  imports Budget_Window
begin

text \<open>
  The operations of the private Thought budget are sequences of the single changes of
  \<open>Budget_Window\<close>; the properties of the budget follow for every sequence of operations.
\<close>

section \<open>Transactions and updates\<close>

definition budget_inv :: "budget_db \<Rightarrow> bool" where
  "budget_inv db \<longleftrightarrow> capacity_inv db \<and> attempts_inv db"

lemma transaction_changes:
  assumes "\<And>x db'. body db = Inr (x, db') \<Longrightarrow> budget_change\<^sup>*\<^sup>* db db'"
  shows "budget_change\<^sup>*\<^sup>* db (snd (in_immediate_transaction body db))"
  using assms by (auto simp: in_immediate_transaction_def split: sum.split prod.split)

lemma validated_changes:
  assumes "\<And>x db'. body db = Inr (x, db') \<Longrightarrow> budget_change\<^sup>*\<^sup>* db db'"
  shows "budget_change\<^sup>*\<^sup>* db (snd (validated c body db))"
  using transaction_changes [of body db, OF assms] by (auto simp: validated_def split: sum.split)

lemma store_reservations_eq:
  "store_reservations rows db = Inr db' \<longleftrightarrow> reservation_indexes rows \<and> db' = db\<lparr>bd_reservations := rows\<rparr>"
  by (auto simp: store_reservations_def)

lemma store_bindings_eq:
  "store_bindings bs db = Inr db' \<longleftrightarrow> binding_indexes bs \<and> db' = db\<lparr>bd_bindings := bs\<rparr>"
  by (auto simp: store_bindings_def)

lemma update_reservation_change:
  assumes "update_reservation rid g f db = Inr (n, db')"
    and "\<And>r. r \<in> set (bd_reservations db) \<Longrightarrow> rv_id r = rid \<Longrightarrow> g r \<Longrightarrow> rv_move db r (f r)"
  shows "budget_change db db'"
proof -
  let ?P = "\<lambda>r. rv_id r = rid \<and> g r"
  from assms(1) have "reservation_indexes (sql_update ?P f (bd_reservations db))"
      and "db' = db\<lparr>bd_reservations := sql_update ?P f (bd_reservations db)\<rparr>"
    by (auto simp: update_reservation_def Let_def and_then_eq_Inr store_reservations_eq)
  then show ?thesis
    using change_rows [OF rows_move_update [of "bd_reservations db" ?P "rv_move db" f]] assms(2) by blast
qed

lemma change_reservation_change:
  assumes "change_reservation code rid g f db = Inr (x, db')"
    and "\<And>r. r \<in> set (bd_reservations db) \<Longrightarrow> rv_id r = rid \<Longrightarrow> g r \<Longrightarrow> rv_move db r (f r)"
  shows "budget_change db db'"
proof -
  from assms(1) obtain n where "update_reservation rid g f db = Inr (n, db')"
    by (auto simp: change_reservation_def and_then_eq_Inr split: if_splits)
  from update_reservation_change [OF this assms(2)] show ?thesis by blast
qed

lemma update_binding_change:
  assumes "update_binding rid ivk g f db = Inr (n, db')" and "\<And>b. ab_move b (f b)"
  shows "budget_change db db'"
proof -
  let ?P = "\<lambda>b. ab_reservation b = rid \<and> ab_invocation b = ivk \<and> g b"
  from assms(1) have "binding_indexes (sql_update ?P f (bd_bindings db))"
      and "db' = db\<lparr>bd_bindings := sql_update ?P f (bd_bindings db)\<rparr>"
    by (auto simp: update_binding_def Let_def and_then_eq_Inr store_bindings_eq)
  then show ?thesis
    using change_bindings [OF rows_move_update [of "bd_bindings db" ?P ab_move f]] assms(2) by blast
qed

lemma reload_binding_eq: "reload_binding rid ivk db = Inr (b, db') \<Longrightarrow> db' = db"
  by (auto simp: reload_binding_def split: option.splits)

lemma set_binding_change:
  assumes "set_binding rid ivk g f db = Inr (x, db')" and "\<And>b. ab_move b (f b)"
  shows "budget_change db db'"
  using assms(1) update_binding_change [OF _ assms(2)] reload_binding_eq
  by (fastforce simp: set_binding_def and_then_eq_Inr)

lemma change_binding_change:
  assumes "change_binding code rid ivk g f db = Inr (x, db')" and "\<And>b. ab_move b (f b)"
  shows "budget_change db db'"
  using assms(1) update_binding_change [OF _ assms(2)] reload_binding_eq
  by (fastforce simp: change_binding_def and_then_eq_Inr split: if_splits)

lemma reservationRequired_eq:
  "reservationRequired db rid = Inr r \<longleftrightarrow> getPrivateReservation db rid = Some r"
  by (auto simp: reservationRequired_def split: option.splits)

lemma getPrivateReservation_row:
  "getPrivateReservation db rid = Some r \<Longrightarrow> r \<in> set (bd_reservations db) \<and> rv_id r = rid"
  by (auto simp: getPrivateReservation_def dest: sql_get_SomeD)

section \<open>The operations on a reservation\<close>

lemmas body_simps = and_then_eq_Inr reservationRequired_eq

lemma bind_changes:
  assumes "bind_reservation sha a db = Inr (x, db')"
  shows "budget_change\<^sup>*\<^sup>* db db'"
proof -
  from assms consider "db' = db"
    | n where "update_reservation (at_reservationId a) (\<lambda>r. rv_state r = Rv_held \<and> rv_invocation r = None)
        (\<lambda>r. r\<lparr>rv_invocation := Some (at_invocationId a), rv_attempt := Some (at_attemptId a),
               rv_truth := T_not_started, rv_updated := at_nowMs a\<rparr>) db = Inr (n, db')"
    by (auto simp: bind_reservation_def body_simps split: if_splits sum.splits)
  then show ?thesis
  proof cases
    case 2
    have "budget_change db db'"
      by (rule update_reservation_change [OF 2]) (auto simp: rv_move_def)
    then show ?thesis by blast
  qed simp
qed

lemma commit_changes:
  assumes "commit_dispatch a db = Inr (x, db')"
  shows "budget_change\<^sup>*\<^sup>* db db'"
proof -
  from assms consider "db' = db"
    | "change_reservation ''dispatch_without_reservation'' (at_reservationId a)
         (\<lambda>r. (rv_state r = Rv_held \<or> rv_state r = Rv_reconcile_required) \<and>
              (rv_truth r = T_not_started \<or> rv_truth r = T_unknown) \<and> is_bound_to a r)
         (\<lambda>r. r\<lparr>rv_state := Rv_committed, rv_truth := T_attempted, rv_updated := at_nowMs a\<rparr>) db = Inr (x, db')"
    by (auto simp: commit_dispatch_def body_simps split: if_splits)
  then show ?thesis
  proof cases
    case 2
    have "budget_change db db'"
      by (rule change_reservation_change [OF 2])
        (auto simp: rv_move_def rv_edge_def fully_bound_def is_bound_to_def)
    then show ?thesis by blast
  qed simp
qed

lemma response_changes:
  assumes "record_response a db = Inr (x, db')"
  shows "budget_change\<^sup>*\<^sup>* db db'"
proof -
  from assms consider "db' = db"
    | n where "update_reservation (at_reservationId a) (\<lambda>r. rv_state r = Rv_committed \<and> is_bound_to a r)
         (\<lambda>r. r\<lparr>rv_truth := T_responded, rv_updated := at_nowMs a\<rparr>) db = Inr (n, db')"
    by (auto simp: record_response_def body_simps split: if_splits)
  then show ?thesis
  proof cases
    case 2
    have "budget_change db db'"
      by (rule update_reservation_change [OF 2]) (auto simp: rv_move_def)
    then show ?thesis by blast
  qed simp
qed

lemma release_changes:
  assumes "release_reservation i db = Inr (x, db')"
  shows "budget_change\<^sup>*\<^sup>* db db'"
proof -
  from assms consider "db' = db"
    | "change_reservation ''reservation_state_conflict'' (rl_reservationId i)
         (\<lambda>r. rv_state r = Rv_held \<or> rv_state r = Rv_reconcile_required)
         (\<lambda>r. r\<lparr>rv_state := Rv_released, rv_truth := T_not_started,
                rv_invocation := coalesce (rv_invocation r) (rl_invocationId i),
                rv_attempt := coalesce (rv_attempt r) (rl_attemptId i),
                rv_proof := Some (rl_proofRef i), rv_updated := rl_nowMs i\<rparr>) db = Inr (x, db')"
    by (auto simp: release_reservation_def body_simps split: if_splits)
  then show ?thesis
  proof cases
    case 2
    have "budget_change db db'"
      by (rule change_reservation_change [OF 2]) (auto simp: rv_move_def rv_edge_def coalesce_def)
    then show ?thesis by blast
  qed simp
qed

lemma no_dispatch_changes:
  assumes "record_no_dispatch a pr db = Inr (x, db')"
  shows "budget_change\<^sup>*\<^sup>* db db'"
proof -
  from assms consider "db' = db"
    | "change_reservation ''proof_recording_failed'' (at_reservationId a)
         (\<lambda>r. rv_state r = Rv_held \<and> rv_truth r = T_not_started \<and> rv_proof r = None)
         (\<lambda>r. r\<lparr>rv_proof := Some pr, rv_updated := at_nowMs a\<rparr>) db = Inr (x, db')"
    by (auto simp: record_no_dispatch_def body_simps split: if_splits)
  then show ?thesis
  proof cases
    case 2
    have "budget_change db db'"
      by (rule change_reservation_change [OF 2]) (auto simp: rv_move_def)
    then show ?thesis by blast
  qed simp
qed

lemma unknown_changes:
  assumes "mark_unknown rid now db = Inr (x, db')"
  shows "budget_change\<^sup>*\<^sup>* db db'"
proof -
  from assms consider "db' = db"
    | n where "update_reservation rid (\<lambda>r. rv_state r = Rv_held)
         (\<lambda>r. r\<lparr>rv_state := Rv_reconcile_required, rv_truth := T_unknown, rv_updated := now\<rparr>) db = Inr (n, db')"
    by (auto simp: mark_unknown_def body_simps split: if_splits)
  then show ?thesis
  proof cases
    case 2
    have "budget_change db db'"
      by (rule update_reservation_change [OF 2]) (auto simp: rv_move_def rv_edge_def)
    then show ?thesis by blast
  qed simp
qed

section \<open>Policies, clock and expiry\<close>

lemma resolve_binds:
  assumes "resolveBudgetPolicy sha db pid fp = Inr p"
  shows "p \<in> set (bd_policies db)" and "bp_policyId (pw_policy p) = pid"
    and "text_of fp \<noteq> [] \<Longrightarrow> fp = Some (pw_fingerprint p)" and "pw_fingerprint p \<noteq> []"
proof -
  from assms obtain row where row: "policy_snapshot sha row = Inr p"
      and get: "(if text_of fp \<noteq> [] then sql_get (\<lambda>r. bp_policyId (pw_policy r) = pid \<and>
              Some (pw_fingerprint r) = fp) (bd_policies db) else current_policy db pid) = Some row"
    by (auto simp: resolveBudgetPolicy_def Let_def simp del: sql_get_None_iff split: option.splits if_splits)
  from row have p: "p = row" "pw_fingerprint p = policy_digest sha (pw_policy p)"
    by (auto simp: policy_snapshot_def budgetPolicyFingerprint_def and_then_eq_Inr split: if_splits)
  from get have row_facts: "row \<in> set (bd_policies db) \<and> bp_policyId (pw_policy row) = pid \<and>
      (text_of fp \<noteq> [] \<longrightarrow> fp = Some (pw_fingerprint row))"
    by (auto simp: current_policy_def split: if_splits dest!: sql_get_SomeD)
  show "p \<in> set (bd_policies db)" "bp_policyId (pw_policy p) = pid" "pw_fingerprint p \<noteq> []"
    and "text_of fp \<noteq> [] \<Longrightarrow> fp = Some (pw_fingerprint p)"
    using p row_facts by (auto simp: policy_digest_def)
qed

lemma install_changes:
  assumes "install_policy sha p f db = Inr (x, db')" and "f \<noteq> []" and "capacity_inv db"
  shows "budget_change\<^sup>*\<^sup>* db db'"
proof -
  let ?upd = "sql_update (\<lambda>r. bp_policyId (pw_policy r) = bp_policyId p) (\<lambda>r. r\<lparr>pw_current := False\<rparr>) (bd_policies db)"
  let ?row = "\<lparr>pw_policy = p, pw_fingerprint = f, pw_current = True\<rparr>"
  from assms consider "db' = db"
    | "policy_indexes (?upd @ [?row])" "db' = db\<lparr>bd_policies := ?upd @ [?row]\<rparr>"
  proof (cases "\<exists>c. current_policy db (bp_policyId p) = Some c \<and> pw_fingerprint c = f")
    case True
    with assms show thesis
      using that(1) by (auto simp: install_policy_def Let_def and_then_eq_Inr)
  next
    case False
    with assms have "and_then (store_policies (?upd @ [?row]) db) (\<lambda>db1. Inr (?row, db1)) = Inr (x, db')"
      by (auto simp: install_policy_def Let_def split: option.splits if_splits)
    then have "policy_indexes (?upd @ [?row])" "db' = db\<lparr>bd_policies := ?upd @ [?row]\<rparr>"
      by (auto simp: and_then_eq_Inr store_policies_def split: if_splits)
    then show thesis by (rule that(2))
  qed
  then show ?thesis
  proof cases
    case 2
    have "map policy_core ?upd = map policy_core (bd_policies db)"
      by (rule map_key_sql_update) (simp add: policy_core_def)
    then have "map policy_core (?upd @ [?row]) = map policy_core (bd_policies db) @ [policy_core ?row]" by simp
    moreover have "\<forall>q \<in> set (?upd @ [?row]). pw_fingerprint q \<noteq> []"
      using assms(2,3) by (auto simp: capacity_inv_def)
    ultimately show ?thesis using change_policies [OF 2(1)] 2(2) by blast
  qed simp
qed

lemma clock_last_update:
  assumes "\<And>c. ck_policy (f c) = ck_policy c" and "\<And>c. ck_last (f c) = t"
  shows "clock_last (sql_update (\<lambda>c. ck_policy c = pid) f cs) k =
    (if k = pid \<and> clock_last cs pid \<noteq> None then Some t else clock_last cs k)"
proof -
  have "sql_get (\<lambda>c. ck_policy c = k) (sql_update (\<lambda>c. ck_policy c = pid) f cs) =
      map_option (\<lambda>c. if ck_policy c = pid then f c else c) (sql_get (\<lambda>c. ck_policy c = k) cs)"
    by (rule sql_get_update) (simp add: assms(1))
  note upd = this
  show ?thesis
  proof (cases "sql_get (\<lambda>c. ck_policy c = k) cs")
    case None
    then have "clock_last cs k = None" "clock_last (sql_update (\<lambda>c. ck_policy c = pid) f cs) k = None"
      using upd by (simp_all only: clock_last_def option.map)
    then show ?thesis by (cases "k = pid") simp_all
  next
    case (Some c)
    then have "ck_policy c = k" using sql_get_SomeD [OF Some] by simp
    have "clock_last (sql_update (\<lambda>c. ck_policy c = pid) f cs) k =
        Some (ck_last (if ck_policy c = pid then f c else c))" "clock_last cs k = Some (ck_last c)"
      unfolding clock_last_def upd Some by simp_all
    with \<open>ck_policy c = k\<close> show ?thesis by (cases "k = pid") (simp_all add: assms(2))
  qed
qed

lemma clock_last_row: "clock_last (bd_clocks db) pid = map_option ck_last (clockRow db pid)"
  by (simp add: clock_last_def clockRow_def)

lemma reconcile_clock_changes:
  assumes "reconcile_clock pid wall ref db = Inr (x, db')"
  shows "budget_change\<^sup>*\<^sup>* db db'"
proof -
  define cs where "cs = bd_clocks db'"
  from assms have db': "db' = db\<lparr>bd_clocks := cs\<rparr>"
    by (auto simp: reconcile_clock_def Let_def cs_def)
  have "clocks_grow (bd_clocks db) cs"
  proof (cases "clockRow db pid")
    case None
    then have "cs = bd_clocks db @ [\<lparr>ck_policy = pid, ck_last = max 0 wall, ck_state = Clock_stable,
        ck_discrepancy = 0, ck_reconciled = Some wall, ck_ref = Some ref\<rparr>]"
      using assms by (auto simp: reconcile_clock_def Let_def cs_def)
    then show ?thesis by (auto simp: clocks_grow_def clock_last_def sql_get_append simp del: sql_get_None_iff)
  next
    case (Some c)
    then have "cs = sql_update (\<lambda>c. ck_policy c = pid) (\<lambda>c. c\<lparr>ck_last := max (ck_last c0) wall,
        ck_state := Clock_stable, ck_discrepancy := 0, ck_reconciled := Some wall, ck_ref := Some ref\<rparr>)
        (bd_clocks db)" if "c0 = c" for c0
      using assms that by (auto simp: reconcile_clock_def Let_def cs_def)
    then have "clock_last cs k = (if k = pid \<and> clock_last (bd_clocks db) pid \<noteq> None
        then Some (max (ck_last c) wall) else clock_last (bd_clocks db) k)" for k
      using clock_last_update [of "\<lambda>x. x\<lparr>ck_last := max (ck_last c) wall,
        ck_state := Clock_stable, ck_discrepancy := 0, ck_reconciled := Some wall, ck_ref := Some ref\<rparr>"] by simp
    then show ?thesis using Some by (auto simp: clocks_grow_def clock_last_row)
  qed
  from change_clocks [OF this] db' show ?thesis by auto
qed

lemma clock_advance_effect:
  assumes "advancePolicyClock sha pid wall fp db = Inr ((time, st, d), db')"
  shows "\<exists>cs p c. db' = db\<lparr>bd_clocks := cs\<rparr> \<and> clocks_grow (bd_clocks db) cs \<and> clock_last cs pid = Some time \<and>
    resolveBudgetPolicy sha db pid fp = Inr p \<and> clockRow db pid = Some c \<and>
    (time, st, d) = computePolicyTime (ck_last c) wall (bp_clockDiscontinuityMs (pw_policy p))"
proof -
  from assms obtain c p where c: "clockRow db pid = Some c" and p: "resolveBudgetPolicy sha db pid fp = Inr p"
      and t: "(time, st, d) = computePolicyTime (ck_last c) wall (bp_clockDiscontinuityMs (pw_policy p))"
      and db': "db' = db\<lparr>bd_clocks := sql_update (\<lambda>c. ck_policy c = pid)
         (\<lambda>c. c\<lparr>ck_last := time, ck_state := st, ck_discrepancy := d\<rparr>) (bd_clocks db)\<rparr>"
    by (auto simp: advancePolicyClock_def and_then_eq_Inr Let_def computePolicyTime_def
        split: if_splits option.splits prod.splits)
  define cs where "cs = sql_update (\<lambda>c. ck_policy c = pid)
         (\<lambda>c. c\<lparr>ck_last := time, ck_state := st, ck_discrepancy := d\<rparr>) (bd_clocks db)"
  have last: "clock_last cs k = (if k = pid \<and> clock_last (bd_clocks db) pid \<noteq> None
      then Some time else clock_last (bd_clocks db) k)" for k
    unfolding cs_def by (rule clock_last_update) simp_all
  have "clocks_grow (bd_clocks db) cs" "clock_last cs pid = Some time"
    using last c t by (auto simp: clocks_grow_def clock_last_row computePolicyTime_def)
  with c p t db' show ?thesis unfolding cs_def by blast
qed

lemma reservation_policy_binds:
  assumes "reservationBudgetPolicy sha db r = Inr p" and "binds (bd_policies db) r q" and "capacity_inv db"
  shows "p = q"
proof -
  have ix: "policy_indexes (bd_policies db)" and "rv_fingerprint r \<noteq> Some []"
    using assms(2,3) by (auto simp: capacity_inv_def binds_def)
  with assms(1) have "Some (pw_fingerprint p) = rv_fingerprint r" "p \<in> set (bd_policies db)"
    using resolve_binds [of sha db "rv_policy r" "rv_fingerprint r" p]
    by (auto simp: reservationBudgetPolicy_def text_of_def split: if_splits option.splits)
  with assms(2) policy_unique [OF ix] show ?thesis by (auto simp: binds_def)
qed

text \<open>Only reservations whose window is over expire.\<close>

lemma expire_changes:
  assumes "expire_loop sha time rows n db = Inr (m, db')" and "capacity_inv db" and "distinct (map rv_id rows)"
    and "\<forall>r \<in> set rows. r \<in> set (bd_reservations db) \<and> consuming_state (rv_state r) \<and>
      clock_last (bd_clocks db) (rv_policy r) = Some time"
  shows "budget_change\<^sup>*\<^sup>* db db' \<and> bd_policies db' = bd_policies db \<and> bd_clocks db' = bd_clocks db"
  using assms
proof (induction rows arbitrary: n db)
  case Nil
  then show ?case by simp
next
  case (Cons r rows)
  have r: "r \<in> set (bd_reservations db)" "consuming_state (rv_state r)"
      "clock_last (bd_clocks db) (rv_policy r) = Some time"
    using Cons.prems(4) by auto
  from Cons.prems(1) obtain p where p: "reservationBudgetPolicy sha db r = Inr p" by (auto simp: and_then_eq_Inr)
  obtain q where q: "binds (bd_policies db) r q" using Cons.prems(2) r(1) by (auto simp: capacity_inv_def bound_row_def)
  then have b: "binds (bd_policies db) r p" using reservation_policy_binds [OF p q Cons.prems(2)] by simp
  show ?case
  proof (cases "rv_time r \<le> time - bp_windowMs (pw_policy p)")
    case False
    with Cons.prems p Cons.IH [of n db] show ?thesis by simp
  next
    case True
    let ?f = "\<lambda>r. r\<lparr>rv_state := Rv_expired, rv_updated := time\<rparr>"
    from Cons.prems(1) True p obtain c db1
      where u: "update_reservation (rv_id r) (\<lambda>_. True) ?f db = Inr (c, db1)"
        and rest: "expire_loop sha time rows (n + c) db1 = Inr (m, db')"
      by (auto simp: and_then_eq_Inr)
    have db1: "db1 = db\<lparr>bd_reservations := sql_update (\<lambda>x. rv_id x = rv_id r \<and> True) ?f (bd_reservations db)\<rparr>"
      using u by (auto simp: update_reservation_def Let_def and_then_eq_Inr store_reservations_eq)
    have ids: "distinct (map rv_id (bd_reservations db))"
      using Cons.prems(2) by (auto simp: capacity_inv_def reservation_indexes_def)
    have "budget_change db db1"
    proof (rule update_reservation_change [OF u])
      fix x assume "x \<in> set (bd_reservations db)" "rv_id x = rv_id r"
      then have "x = r" using ids r(1) by (auto simp: distinct_map dest: inj_onD)
      moreover have "window_over (bd_policies db) (bd_clocks db) r"
        using b r(3) True by (auto simp: window_over_def)
      ultimately show "rv_move db x (?f x)"
        using r(2) by (auto simp: rv_move_def rv_edge_def consuming_state_def)
    qed
    moreover have "budget_change\<^sup>*\<^sup>* db1 db' \<and> bd_policies db' = bd_policies db1 \<and> bd_clocks db' = bd_clocks db1"
    proof (rule Cons.IH [OF rest])
      show "capacity_inv db1" using capacity.step_inv Cons.prems(2) \<open>budget_change db db1\<close> by blast
      show "distinct (map rv_id rows)" using Cons.prems(3) by simp
      show "\<forall>x \<in> set rows. x \<in> set (bd_reservations db1) \<and> consuming_state (rv_state x) \<and>
          clock_last (bd_clocks db1) (rv_policy x) = Some time"
      proof
        fix x assume x: "x \<in> set rows"
        then have "rv_id x \<in> rv_id ` set rows" by (rule imageI)
        with Cons.prems(3) have "rv_id x \<noteq> rv_id r" by (simp del: image_iff) metis
        with x Cons.prems(4) show "x \<in> set (bd_reservations db1) \<and> consuming_state (rv_state x) \<and>
            clock_last (bd_clocks db1) (rv_policy x) = Some time"
          by (auto simp: db1 image_iff)
      qed
    qed
    ultimately show ?thesis
      by (simp add: db1) (meson converse_rtranclp_into_rtranclp)
  qed
qed

lemma expire_transaction_changes:
  assumes "expireInTransaction sha pid time db = Inr (m, db')" and "capacity_inv db"
    and "clock_last (bd_clocks db) pid = Some time"
  shows "budget_change\<^sup>*\<^sup>* db db' \<and> bd_policies db' = bd_policies db \<and> bd_clocks db' = bd_clocks db"
proof (rule expire_changes [OF assms(1) [unfolded expireInTransaction_def] assms(2)])
  have "distinct (map rv_id (bd_reservations db))"
    using assms(2) by (auto simp: capacity_inv_def reservation_indexes_def)
  then show "distinct (map rv_id (consuming_rows db pid))"
    by (auto simp: consuming_rows_def distinct_map inj_on_def)
qed (use assms(3) in \<open>auto simp: consuming_rows_def\<close>)

section \<open>Admission\<close>

lemma inside_window_resolves:
  "inside_window sha db time rows = Inr act \<Longrightarrow> r \<in> set rows \<Longrightarrow> \<exists>p. reservationBudgetPolicy sha db r = Inr p"
  by (induction rows arbitrary: act) (auto simp: and_then_eq_Inr)

lemma inside_window_length:
  assumes "inside_window sha db time rows = Inr act"
    and "\<And>r p. r \<in> set rows \<Longrightarrow> P r \<Longrightarrow> reservationBudgetPolicy sha db r = Inr p \<Longrightarrow>
      time - bp_windowMs (pw_policy p) < rv_time r"
  shows "length (filter P rows) \<le> length act"
  using assms
proof (induction rows arbitrary: act)
  case (Cons r rows)
  from Cons.prems(1) obtain p rest where p: "reservationBudgetPolicy sha db r = Inr p"
      and rest: "inside_window sha db time rows = Inr rest"
      and act: "act = (if time - bp_windowMs (pw_policy p) < rv_time r then r # rest else rest)"
    by (auto simp: and_then_eq_Inr)
  from Cons.IH [OF rest] Cons.prems(2) have "length (filter P rows) \<le> length rest" by simp
  with act Cons.prems(2) [OF _ _ p] show ?case by auto
qed simp

lemma count_bounds_active:
  assumes "consumingCount sha db pid time = Inr used" and inv: "capacity_inv db"
    and p: "p \<in> set (bd_policies db)" "bp_policyId (pw_policy p) = pid"
  shows "int (length (filter (still_active (Some (pw_fingerprint p)) (bp_windowMs (pw_policy p)) time)
    (bd_reservations db))) \<le> used"
proof -
  let ?P = "still_active (Some (pw_fingerprint p)) (bp_windowMs (pw_policy p)) time"
  from assms(1) obtain act where act: "inside_window sha db time (consuming_rows db pid) = Inr act"
      and used: "used = int (length act)"
    by (auto simp: consumingCount_def activeBudgetRows_def and_then_eq_Inr)
  have bound: "binds (bd_policies db) r p" if r: "r \<in> set (bd_reservations db)" "?P r" for r
  proof -
    obtain q where q: "binds (bd_policies db) r q" using inv r(1) by (auto simp: capacity_inv_def bound_row_def)
    then have "q = p"
      using policy_unique [of "bd_policies db" q p] inv p(1) r(2) by (auto simp: capacity_inv_def binds_def still_active_def)
    with q show ?thesis by simp
  qed
  have "filter ?P (bd_reservations db) = filter ?P (consuming_rows db pid)"
    unfolding consuming_rows_def filter_filter
    by (rule filter_cong [OF refl]) (use bound p(2) in \<open>auto simp: still_active_def binds_def\<close>)
  also have "length \<dots> \<le> length act"
  proof (rule inside_window_length [OF act])
    fix r q assume r: "r \<in> set (consuming_rows db pid)" "?P r" and q: "reservationBudgetPolicy sha db r = Inr q"
    then have "q = p" using reservation_policy_binds [OF q bound inv] by (auto simp: consuming_rows_def)
    with r(2) show "time - bp_windowMs (pw_policy q) < rv_time r" by (simp add: still_active_def)
  qed
  finally show ?thesis using used by simp
qed

lemma take_capacity_changes:
  assumes "take_capacity sha uuid i p time db = Inr (x, db')" and inv: "capacity_inv db"
    and clock: "clock_last (bd_clocks db) (bi_policyId i) = Some time"
    and p: "p \<in> set (bd_policies db)" "bp_policyId (pw_policy p) = bi_policyId i"
  shows "budget_change\<^sup>*\<^sup>* db db'"
proof -
  from assms(1) obtain n db1 used where e: "expireInTransaction sha (bi_policyId i) time db = Inr (n, db1)"
      and used: "consumingCount sha db1 (bi_policyId i) time = Inr used"
      and cases: "bp_limit (pw_policy p) \<le> used \<and> db' = budget_friction (bi_admissionId i) (bi_wallClockNowMs i) db1 \<or>
        used < bp_limit (pw_policy p) \<and>
        store_reservations (bd_reservations db1 @ [new_reservation uuid i time (pw_fingerprint p)]) db1 = Inr db'"
    by (auto simp: take_capacity_def and_then_eq_Inr Let_def not_le split: if_splits)
  from expire_transaction_changes [OF e inv clock] have ch: "budget_change\<^sup>*\<^sup>* db db1"
      and same: "bd_policies db1 = bd_policies db" "bd_clocks db1 = bd_clocks db" by auto
  from capacity.steps_inv [OF ch inv] have inv1: "capacity_inv db1" .
  from cases have "budget_change db1 db'"
  proof (elim disjE conjE)
    assume "db' = budget_friction (bi_admissionId i) (bi_wallClockNowMs i) db1"
    then show ?thesis using change_kernel by (simp add: budget_friction_def Let_def)
  next
    let ?row = "new_reservation uuid i time (pw_fingerprint p)"
    assume room: "used < bp_limit (pw_policy p)"
      and "store_reservations (bd_reservations db1 @ [?row]) db1 = Inr db'"
    then have ix: "reservation_indexes (bd_reservations db1 @ [?row])"
        and db': "db' = db1\<lparr>bd_reservations := bd_reservations db1 @ [?row]\<rparr>"
      by (auto simp: store_reservations_eq)
    have "length (filter (still_active (rv_fingerprint ?row) (bp_windowMs (pw_policy p)) (rv_time ?row))
        (bd_reservations db1)) < nat (bp_limit (pw_policy p))"
      using count_bounds_active [OF used inv1, of p] p same room by (simp add: new_reservation_def)
    then show ?thesis
      unfolding db' using p same clock ix
      by (intro change_insert) (auto simp: new_reservation_def binds_def)
  qed
  with ch show ?thesis by (rule rtranclp.rtrancl_into_rtrancl)
qed

lemma bootstrap_changes:
  assumes "bootstrap_clock pid wall db = Some db1"
  shows "budget_change\<^sup>*\<^sup>* db db1 \<and> bd_policies db1 = bd_policies db"
proof (cases "clockRow db pid")
  case (Some c)
  with assms show ?thesis by (simp add: bootstrap_clock_def)
next
  case None
  define cs where "cs = bd_clocks db @ [\<lparr>ck_policy = pid, ck_last = wall, ck_state = Clock_stable,
    ck_discrepancy = 0, ck_reconciled = None, ck_ref = None\<rparr>]"
  have "clocks_grow (bd_clocks db) cs"
    by (auto simp: cs_def clocks_grow_def clock_last_def sql_get_append simp del: sql_get_None_iff)
  from change_clocks [OF this] None assms show ?thesis
    by (auto simp: bootstrap_clock_def cs_def split: if_splits)
qed

lemma admit_changes:
  assumes "admit_reservation sha uuid i db = Inr (x, db')" and inv: "capacity_inv db"
  shows "budget_change\<^sup>*\<^sup>* db db'"
proof (cases "db' = db")
  case False
  from assms(1) obtain p where p: "resolveBudgetPolicy sha db (bi_policyId i) None = Inr p"
    by (auto simp: admit_reservation_def and_then_eq_Inr)
  from assms(1) False p obtain db1 time st d db2
    where boot: "bootstrap_clock (bi_policyId i) (bi_wallClockNowMs i) db = Some db1"
      and adv: "advancePolicyClock sha (bi_policyId i) (bi_wallClockNowMs i) (Some (pw_fingerprint p)) db1
        = Inr ((time, st, d), db2)"
      and rest: "db' = db2 \<or> take_capacity sha uuid i p time db2 = Inr (x, db')"
    by (auto simp: admit_reservation_def and_then_eq_Inr simp del: sql_get_None_iff
        split: option.splits if_splits)
  from bootstrap_changes [OF boot] have b: "budget_change\<^sup>*\<^sup>* db db1" "bd_policies db1 = bd_policies db" by auto
  from clock_advance_effect [OF adv] obtain cs where db2: "db2 = db1\<lparr>bd_clocks := cs\<rparr>"
      and grow: "clocks_grow (bd_clocks db1) cs" and last: "clock_last cs (bi_policyId i) = Some time" by blast
  from change_clocks [OF grow] db2 b(1) have ch: "budget_change\<^sup>*\<^sup>* db db2"
    by (metis rtranclp.rtrancl_into_rtrancl)
  from rest show ?thesis
  proof
    assume t: "take_capacity sha uuid i p time db2 = Inr (x, db')"
    have "budget_change\<^sup>*\<^sup>* db2 db'"
      by (rule take_capacity_changes [OF t capacity.steps_inv [OF ch inv]])
        (use resolve_binds [OF p] db2 b(2) last in simp_all)
    with ch show ?thesis by (rule rtranclp_trans)
  qed (use ch in simp)
qed simp

lemma expire_policy_changes:
  assumes "expire_policy sha pid wall p db = Inr (x, db')" and inv: "capacity_inv db"
  shows "budget_change\<^sup>*\<^sup>* db db'"
proof (cases "clockRow db pid")
  case None
  with assms show ?thesis by (simp add: expire_policy_def)
next
  case (Some c)
  with assms(1) obtain time st d db1 n
    where adv: "advancePolicyClock sha pid wall (Some (pw_fingerprint p)) db = Inr ((time, st, d), db1)"
      and e: "expireInTransaction sha pid time db1 = Inr (n, db')"
    by (auto simp: expire_policy_def and_then_eq_Inr)
  from clock_advance_effect [OF adv] obtain cs where db1: "db1 = db\<lparr>bd_clocks := cs\<rparr>"
      and grow: "clocks_grow (bd_clocks db) cs" and last: "clock_last cs pid = Some time" by blast
  from change_clocks [OF grow] db1 have ch: "budget_change db db1" by simp
  then have "capacity_inv db1" using capacity.step_inv inv by blast
  from expire_transaction_changes [OF e this] db1 last have "budget_change\<^sup>*\<^sup>* db1 db'" by simp
  with ch show ?thesis by (rule converse_rtranclp_into_rtranclp)
qed

end
