(* ===== verification/Budget_Lifecycle.thy ===== *)
theory Budget_Lifecycle
  imports Budget_Steps
begin

text \<open>
  The properties of the private Thought budget: the capacity bound of the rolling window, the
  fate of a dispatched reservation, the shape of the attempt history and the agreement of the
  projection with the admission.
\<close>

section \<open>The operations on the attempts\<close>

lemma binding_required_eq:
  "binding_required code db rid ivk at = Inr b \<Longrightarrow> repairBindingRow db rid ivk = Some b"
  by (auto simp: binding_required_def split: option.splits if_splits)

lemma continuable_bound:
  "continuable_parent r \<Longrightarrow> attempts_inv db \<Longrightarrow> r \<in> set (bd_reservations db) \<Longrightarrow> fully_bound r"
  by (auto simp: continuable_parent_def attempts_inv_def fully_bound_def proven_not_dispatched_def)

lemma bind_repair_changes:
  assumes "bind_repair sha uuid i db = Inr (x, db')" and inv: "attempts_inv db"
  shows "budget_change\<^sup>*\<^sup>* db db'"
proof (cases "db' = db")
  case False
  from assms(1) False obtain parent
    where parent: "getPrivateReservation db (rp_reservationId i) = Some parent" "continuable_parent parent"
      and ins: "insert_binding uuid i parent db = Inr (x, db')"
    by (auto simp: bind_repair_def body_simps simp del: sql_get_None_iff split: if_splits option.splits)
  from ins obtain prev where prev: "previous_attempt db parent (rp_ordinal i) = Inr prev"
      and "store_bindings (bd_bindings db @ [new_binding uuid i]) db = Inr db'"
    by (auto simp: insert_binding_def and_then_eq_Inr dest: reload_binding_eq split: if_splits sum.splits)
  then have ix: "binding_indexes (bd_bindings db @ [new_binding uuid i])"
      and db': "db' = db\<lparr>bd_bindings := bd_bindings db @ [new_binding uuid i]\<rparr>"
    by (auto simp: store_bindings_eq)
  have row: "parent \<in> set (bd_reservations db)" "rv_id parent = ab_reservation (new_binding uuid i)"
    using getPrivateReservation_row [OF parent(1)] by (auto simp: new_binding_def)
  have "ab_ordinal (new_binding uuid i) = 2 \<or> (\<exists>b' \<in> set (bd_bindings db).
      ab_reservation b' = ab_reservation (new_binding uuid i) \<and>
      ab_ordinal b' = ab_ordinal (new_binding uuid i) - 1)"
  proof (cases "rp_ordinal i = 2")
    case False
    with prev obtain b where
      "sql_get (\<lambda>b. ab_reservation b = rv_id parent \<and> ab_ordinal b = rp_ordinal i - 1) (bd_bindings db) = Some b"
      by (auto simp: previous_attempt_def simp del: sql_get_None_iff split: option.splits)
    from sql_get_SomeD [OF this] row(2) show ?thesis by (auto simp: new_binding_def)
  qed (simp add: new_binding_def)
  from change_bind [OF row continuable_bound [OF parent(2) inv row(1)] this ix] db' show ?thesis by blast
qed simp

lemma commit_parent_changes:
  assumes "commit_parent rid now db = Inr db'"
  shows "budget_change\<^sup>*\<^sup>* db db'"
proof -
  from assms consider "db' = db"
    | n where "update_reservation rid
        (\<lambda>r. rv_state r = Rv_held \<and> rv_truth r = T_not_started \<and> rv_proof r \<noteq> None \<and>
             rv_invocation r \<noteq> None \<and> rv_attempt r \<noteq> None)
        (\<lambda>r. r\<lparr>rv_state := Rv_committed, rv_updated := now\<rparr>) db = Inr (n, db')"
    by (auto simp: commit_parent_def body_simps split: if_splits)
  then show ?thesis
  proof cases
    case 2
    have "budget_change db db'"
      by (rule update_reservation_change [OF 2]) (auto simp: rv_move_def rv_edge_def fully_bound_def)
    then show ?thesis by blast
  qed simp
qed

lemma commit_repair_changes:
  assumes "commit_repair rid ivk at now db = Inr (x, db')"
  shows "budget_change\<^sup>*\<^sup>* db db'"
proof -
  from assms obtain db1 where p: "commit_parent rid now db = Inr db1"
      and "db' = db1 \<or> change_binding ''dispatch_without_reservation'' rid ivk (\<lambda>b. ab_truth b = T_not_started)
        (\<lambda>b. b\<lparr>ab_truth := T_attempted, ab_updated := now\<rparr>) db1 = Inr (x, db')"
    by (auto simp: commit_repair_def and_then_eq_Inr split: if_splits)
  then have "db' = db1 \<or> budget_change db1 db'"
    using change_binding_change by (fastforce simp: ab_move_def)
  with commit_parent_changes [OF p] show ?thesis by (metis rtranclp.rtrancl_into_rtrancl)
qed

lemma repair_response_changes:
  assumes "repair_response rid ivk at requestId now db = Inr (x, db')"
  shows "budget_change\<^sup>*\<^sup>* db db'"
proof -
  from assms have "db' = db \<or> set_binding rid ivk (\<lambda>b. ab_truth b = T_attempted)
      (\<lambda>b. b\<lparr>ab_truth := T_responded, ab_request := coalesce (ab_request b) requestId, ab_updated := now\<rparr>) db
      = Inr (x, db')"
    by (auto simp: repair_response_def and_then_eq_Inr split: if_splits)
  then show ?thesis using set_binding_change by (fastforce simp: ab_move_def)
qed

lemma release_repair_changes:
  assumes "release_repair rid ivk pr now db = Inr (x, db')"
  shows "budget_change\<^sup>*\<^sup>* db db'"
proof -
  from assms have "db' = db \<or> change_binding ''reservation_state_conflict'' rid ivk
      (\<lambda>b. ab_truth b = T_not_started \<and> ab_proof b = None)
      (\<lambda>b. b\<lparr>ab_proof := Some pr, ab_updated := now\<rparr>) db = Inr (x, db')"
    by (auto simp: release_repair_def and_then_eq_Inr split: if_splits)
  then show ?thesis using change_binding_change by (fastforce simp: ab_move_def)
qed

lemma repair_unknown_changes:
  assumes "repair_unknown rid ivk now db = Inr (x, db')"
  shows "budget_change\<^sup>*\<^sup>* db db'"
proof -
  from assms have "db' = db \<or> set_binding rid ivk (\<lambda>b. ab_truth b = T_attempted)
      (\<lambda>b. b\<lparr>ab_truth := T_unknown, ab_updated := now\<rparr>) db = Inr (x, db')"
    by (auto simp: repair_unknown_def and_then_eq_Inr split: if_splits)
  then show ?thesis using set_binding_change by (fastforce simp: ab_move_def)
qed

lemma reconcile_repair_changes:
  assumes "reconcile_repair rid ivk target requestId now db = Inr (x, db')"
  shows "budget_change\<^sup>*\<^sup>* db db'"
proof -
  from assms obtain g where "db' = db \<or>
      set_binding rid ivk g (\<lambda>b. b\<lparr>ab_truth := T_attempted, ab_updated := now\<rparr>) db = Inr (x, db') \<or>
      set_binding rid ivk g (\<lambda>b. b\<lparr>ab_request := requestId, ab_updated := now\<rparr>) db = Inr (x, db') \<or>
      set_binding rid ivk g (\<lambda>b. b\<lparr>ab_truth := T_responded, ab_request := coalesce (ab_request b) requestId,
        ab_updated := now\<rparr>) db = Inr (x, db')"
    by (auto simp: reconcile_repair_def reconcile_responded_def and_then_eq_Inr split: if_splits)
  then show ?thesis using set_binding_change by (fastforce simp: ab_move_def)
qed

section \<open>Steps\<close>

text \<open>One call of an operation, or a change of the tables the other components keep.\<close>

inductive budget_step :: "(string \<Rightarrow> string) \<Rightarrow> budget_db \<Rightarrow> budget_db \<Rightarrow> bool" for sha where
  step_kernel: "budget_step sha db (db\<lparr>bd_kernel := k\<rparr>)"
| step_configure: "budget_step sha db (snd (configureBudgetPolicy sha p db))"
| step_reconcile_clock: "budget_step sha db (snd (reconcilePolicyClock sha pid wall ref db))"
| step_reserve: "budget_step sha db (snd (reservePrivateThought sha uuid i db))"
| step_bind: "budget_step sha db (snd (bindPrivateReservationInvocation sha a db))"
| step_commit: "budget_step sha db (snd (commitPrivateDispatch a db))"
| step_response: "budget_step sha db (snd (recordPrivateProviderResponse a db))"
| step_release: "budget_step sha db (snd (releasePrivateReservation l db))"
| step_no_dispatch: "budget_step sha db (snd (recordPrivateReservationNoDispatchProof a pr db))"
| step_unknown: "budget_step sha db (snd (markPrivateReservationUnknown rid now db))"
| step_expire: "budget_step sha db (snd (expirePrivateReservations sha pid wall db))"
| step_bind_repair: "budget_step sha db (snd (bindPrivateRepairAttempt sha uuid ri db))"
| step_commit_repair: "budget_step sha db (snd (commitPrivateRepairDispatch rid ivk at now db))"
| step_repair_response: "budget_step sha db (snd (recordPrivateRepairResponse rid ivk at requestId now db))"
| step_release_repair: "budget_step sha db (snd (releasePrivateRepairAttempt rid ivk pr now db))"
| step_repair_unknown: "budget_step sha db (snd (markPrivateRepairAttemptUnknown rid ivk now db))"
| step_reconcile_repair:
    "budget_step sha db (snd (reconcilePrivateRepairAttempt rid ivk target requestId now db))"

lemma configure_changes:
  assumes "capacity_inv db"
  shows "budget_change\<^sup>*\<^sup>* db (snd (configureBudgetPolicy sha p db))"
proof (cases "budgetPolicyFingerprint sha p")
  case (Inr f)
  then have "f \<noteq> []" by (auto simp: budgetPolicyFingerprint_def policy_digest_def split: if_splits)
  then have "budget_change\<^sup>*\<^sup>* db (snd (in_immediate_transaction (install_policy sha p f) db))"
    using install_changes assms by (intro transaction_changes)
  with Inr show ?thesis by (simp add: configureBudgetPolicy_def)
qed (simp add: configureBudgetPolicy_def)

lemma clock_reconciliation_changes:
  "budget_change\<^sup>*\<^sup>* db (snd (in_immediate_transaction (reconcile_clock pid wall ref) db))"
  by (rule transaction_changes) (rule reconcile_clock_changes)

lemma admission_changes:
  "capacity_inv db \<Longrightarrow> budget_change\<^sup>*\<^sup>* db (snd (in_immediate_transaction (admit_reservation sha uuid i) db))"
  by (rule transaction_changes) (rule admit_changes)

lemma expiry_changes:
  "capacity_inv db \<Longrightarrow> budget_change\<^sup>*\<^sup>* db (snd (in_immediate_transaction (expire_policy sha pid wall p) db))"
  by (rule transaction_changes) (rule expire_policy_changes)

lemma step_changes:
  assumes "budget_step sha db db'" and inv: "budget_inv db"
  shows "budget_change\<^sup>*\<^sup>* db db'"
proof -
  have c: "capacity_inv db" and a: "attempts_inv db" using inv by (auto simp: budget_inv_def)
  from assms(1) show ?thesis
  proof cases
    case step_kernel
    then show ?thesis using change_kernel by blast
  next
    case step_reconcile_clock
    then show ?thesis
      by (simp add: reconcilePolicyClock_def clock_reconciliation_changes split: sum.split)
  next
    case step_reserve
    then show ?thesis
      by (simp add: reservePrivateThought_def admission_changes [OF c] split: sum.split)
  next
    case step_expire
    then show ?thesis
      by (simp add: expirePrivateReservations_def expiry_changes [OF c] split: sum.split)
  qed (simp_all add: configure_changes [OF c] bindPrivateReservationInvocation_def commitPrivateDispatch_def
    recordPrivateProviderResponse_def releasePrivateReservation_def
    recordPrivateReservationNoDispatchProof_def markPrivateReservationUnknown_def
    bindPrivateRepairAttempt_def commitPrivateRepairDispatch_def recordPrivateRepairResponse_def
    releasePrivateRepairAttempt_def markPrivateRepairAttemptUnknown_def reconcilePrivateRepairAttempt_def
    validated_changes [OF bind_changes] validated_changes [OF commit_changes]
    validated_changes [OF response_changes] validated_changes [OF release_changes]
    validated_changes [OF no_dispatch_changes] validated_changes [OF unknown_changes]
    validated_changes [OF bind_repair_changes [OF _ a]] validated_changes [OF commit_repair_changes]
    validated_changes [OF repair_response_changes] validated_changes [OF release_repair_changes]
    validated_changes [OF repair_unknown_changes] validated_changes [OF reconcile_repair_changes])
qed

lemma changes_inv: "budget_change\<^sup>*\<^sup>* db db' \<Longrightarrow> budget_inv db \<Longrightarrow> budget_inv db'"
  using capacity.steps_inv attempts.steps_inv by (simp add: budget_inv_def)

interpretation budget: preserved "budget_step sha" budget_inv
  by unfold_locales (blast intro: changes_inv step_changes)

lemma steps_changes: "(budget_step sha)\<^sup>*\<^sup>* db db' \<Longrightarrow> budget_inv db \<Longrightarrow> budget_change\<^sup>*\<^sup>* db db'"
proof (induction rule: rtranclp_induct)
  case (step db1 db2)
  then show ?case using step_changes budget.steps_inv by (metis rtranclp_trans)
qed simp

text \<open>The tables the migrations leave: the default policy, and nothing else.\<close>

definition initial_budget :: "(string \<Rightarrow> string) \<Rightarrow> wake_db \<Rightarrow> budget_db" where
  "initial_budget sha k = \<lparr>bd_kernel = k, bd_policies = [DEFAULT_BUDGET_SNAPSHOT sha], bd_clocks = [],
     bd_reservations = [], bd_bindings = []\<rparr>"

lemma initial_budget_inv: "budget_inv (initial_budget sha k)"
  by (auto simp: budget_inv_def capacity_inv_def attempts_inv_def initial_budget_def
      policy_indexes_def reservation_indexes_def binding_indexes_def within_limit_def unique_column_def
      DEFAULT_BUDGET_SNAPSHOT_def DEFAULT_PRIVATE_THOUGHT_POLICY_def policy_digest_def
      PRIVATE_THOUGHT_MAX_CALLS_PER_HOUR_def PRIVATE_THOUGHT_WINDOW_MS_def
      PRIVATE_THOUGHT_CLOCK_DISCONTINUITY_MS_def)

lemma reachable_changes:
  "(budget_step sha)\<^sup>*\<^sup>* (initial_budget sha k) db \<Longrightarrow> budget_inv db"
  using budget.steps_inv initial_budget_inv by blast

section \<open>Properties\<close>

text \<open>
  C2. The capacity bound of the rolling window, for every policy version and every window, past
  or present: in every reachable budget, at most \<open>limit\<close> reservations admitted under one policy
  version and not released lie in any interval of \<open>windowMs\<close> milliseconds of policy time, across
  reconfigurations, clock reconciliation, expiry, repairs and concurrent admissions. Every
  reservation is bound to one version of its policy and no later than the policy's clock, which
  therefore has never gone back.
\<close>

theorem rolling_window_bound:
  assumes "(budget_step sha)\<^sup>*\<^sup>* (initial_budget sha k) db"
  shows "(\<forall>p \<in> set (bd_policies db). \<forall>t. int (length (filter (\<lambda>r.
        rv_fingerprint r = Some (pw_fingerprint p) \<and> rv_state r \<noteq> Rv_released \<and>
        t - bp_windowMs (pw_policy p) < rv_time r \<and> rv_time r \<le> t) (bd_reservations db)))
      \<le> bp_limit (pw_policy p)) \<and>
    (\<forall>r \<in> set (bd_reservations db).
      (\<exists>p \<in> set (bd_policies db). bp_policyId (pw_policy p) = rv_policy r \<and>
         rv_fingerprint r = Some (pw_fingerprint p)) \<and>
      (\<exists>c. clockRow db (rv_policy r) = Some c \<and> rv_time r \<le> ck_last c))"
proof -
  have inv: "capacity_inv db" using reachable_changes [OF assms] by (simp add: budget_inv_def)
  have "\<exists>c. clockRow db (rv_policy r) = Some c \<and> rv_time r \<le> ck_last c" if "bound_row db r" for r
    using that by (auto simp: bound_row_def clock_last_row)
  with inv show ?thesis
    by (auto simp: capacity_inv_def within_limit_def counted_def [abs_def] bound_row_def binds_def)
qed

text \<open>A budget where one reservation was admitted, bound and dispatched, for the witnesses.\<close>

definition sample_sha :: "string \<Rightarrow> string" where "sample_sha s = ''digest''"

definition sample_kernel :: wake_db where
  "sample_kernel = \<lparr>wakes = [\<lparr>w_id = ''w'', w_occurrence = ''o'', w_trigger = ''t'', w_source = Src_idle,
     w_conversation = ''c'', w_cycle = ''y'', w_state = W_authorized, w_reason = None,
     w_trigger_generation = None, w_authority_revision = 0, w_chain = None, w_owner = Some ''u'',
     w_token = Some ''k'', w_expires = Some 5000, w_cancellation = None, w_created = 0, w_updated = 0\<rparr>],
     effects = \<lparr>in_flight_effects = [], effect_receipts = [], cycle_records = [], frictions = []\<rparr>,
     frontiers = []\<rparr>"

definition sample_attempt :: attempt_ref where
  "sample_attempt = \<lparr>at_reservationId = ''private-reservation:u'', at_invocationId = ''i1'',
     at_attemptId = ''a1'', at_nowMs = 1001\<rparr>"

definition sample_budget_admission :: budget_admission where
  "sample_budget_admission = \<lparr>bi_admissionId = ''adm'', bi_wakeId = ''w'', bi_conversationId = ''c'',
     bi_policyId = PRIVATE_THOUGHT_POLICY_ID, bi_wallClockNowMs = 1000\<rparr>"

definition sample_reserved :: budget_db where
  "sample_reserved =
     snd (reservePrivateThought sample_sha ''u'' sample_budget_admission (initial_budget sample_sha sample_kernel))"

definition sample_dispatched :: budget_db where
  "sample_dispatched = snd (commitPrivateDispatch sample_attempt
     (snd (bindPrivateReservationInvocation sample_sha sample_attempt sample_reserved)))"

lemma sample_dispatched_reachable:
  "(budget_step sample_sha)\<^sup>*\<^sup>* (initial_budget sample_sha sample_kernel) sample_dispatched"
  unfolding sample_dispatched_def sample_reserved_def
  by (meson step_reserve step_bind step_commit rtranclp.rtrancl_into_rtrancl rtranclp.rtrancl_refl)

lemma sample_dispatched_row:
  "map (\<lambda>r. (rv_id r, rv_state r, rv_time r)) (bd_reservations sample_dispatched) =
    [(''private-reservation:u'', Rv_committed, 1000)]"
  by code_simp

theorem rolling_window_bound_witness:
  "\<exists>c. clockRow sample_dispatched PRIVATE_THOUGHT_POLICY_ID = Some c \<and> 1000 \<le> ck_last c"
proof -
  have "bd_reservations sample_dispatched \<noteq> [] \<and> rv_time (hd (bd_reservations sample_dispatched)) = 1000 \<and>
      rv_policy (hd (bd_reservations sample_dispatched)) = PRIVATE_THOUGHT_POLICY_ID"
    by code_simp
  then show ?thesis
    using rolling_window_bound [OF sample_dispatched_reachable] by (metis list.set_sel(1))
qed

text \<open>
  A reservation whose dispatch may have begun is never refunded: once committed, it stays in
  the table with its policy version and its time, and is committed or, after its window is over
  by the policy's clock, expired; it is never released.
\<close>

theorem dispatched_never_refunded:
  assumes "(budget_step sha)\<^sup>*\<^sup>* (initial_budget sha k) db" and "(budget_step sha)\<^sup>*\<^sup>* db db'"
    and "getPrivateReservation db rid = Some r" and "rv_state r = Rv_committed"
  shows "\<exists>r'. getPrivateReservation db' rid = Some r' \<and> (rv_state r' = Rv_committed \<or>
    rv_state r' = Rv_expired \<and> (\<exists>p c. p \<in> set (bd_policies db') \<and>
      rv_fingerprint r' = Some (pw_fingerprint p) \<and> clockRow db' (rv_policy r') = Some c \<and>
      rv_time r' \<le> ck_last c - bp_windowMs (pw_policy p)))"
proof -
  have inv: "budget_inv db" by (rule reachable_changes [OF assms(1)])
  have "rv_status db rid = Some Rv_committed" using assms(3,4) by (simp add: rv_status_def)
  with reservation_states.never_lost [OF steps_changes [OF assms(2) inv]]
  obtain s where s: "rv_status db' rid = Some s" "rv_edge\<^sup>*\<^sup>* Rv_committed s" by blast
  from s(2) have "s = Rv_committed \<or> s = Rv_expired"
    by (induction rule: rtranclp_induct) (auto simp: rv_edge_def)
  moreover obtain r' where r': "getPrivateReservation db' rid = Some r'" "rv_state r' = s"
    using s(1) by (auto simp: rv_status_def)
  moreover have "bound_row db' r'"
    using getPrivateReservation_row [OF r'(1)] budget.steps_inv [OF assms(2) inv]
    by (auto simp: budget_inv_def capacity_inv_def)
  then have "rv_state r' = Rv_expired \<longrightarrow> (\<exists>p c. p \<in> set (bd_policies db') \<and>
      rv_fingerprint r' = Some (pw_fingerprint p) \<and> clockRow db' (rv_policy r') = Some c \<and>
      rv_time r' \<le> ck_last c - bp_windowMs (pw_policy p))"
    by (auto simp: bound_row_def window_over_def binds_def clock_last_row)
  ultimately show ?thesis by auto
qed

definition sample_expired :: budget_db where
  "sample_expired = snd (expirePrivateReservations sample_sha PRIVATE_THOUGHT_POLICY_ID 3601000 sample_dispatched)"

theorem dispatched_never_refunded_witness:
  "\<exists>r. getPrivateReservation sample_expired ''private-reservation:u'' = Some r \<and> rv_state r \<noteq> Rv_released"
proof -
  have "map_option rv_state (getPrivateReservation sample_dispatched ''private-reservation:u'') = Some Rv_committed"
    by code_simp
  then obtain r where "getPrivateReservation sample_dispatched ''private-reservation:u'' = Some r"
      "rv_state r = Rv_committed" by auto
  moreover have "(budget_step sample_sha)\<^sup>*\<^sup>* sample_dispatched sample_expired"
    unfolding sample_expired_def by (rule r_into_rtranclp, rule step_expire)
  ultimately show ?thesis
    using dispatched_never_refunded [OF sample_dispatched_reachable] by fastforce
qed

text \<open>
  The attempt history of a reservation has no gap and is bounded: its ordinals are
  1, 2, .., n in order, with n at most \<open>MAX_THOUGHT_MODEL_ATTEMPTS\<close>, so that the next ordinal is
  always the length plus one and no further attempt fits after the twelfth.
\<close>

theorem attempt_history_consecutive:
  assumes "(budget_step sha)\<^sup>*\<^sup>* (initial_budget sha k) db"
    and "listPrivateAttemptHistory db rid = Inr history"
  shows "map ar_ordinal history = [1..int (length history)] \<and>
    int (length history) \<le> MAX_THOUGHT_MODEL_ATTEMPTS"
proof -
  have inv: "attempts_inv db" and ids: "distinct (map rv_id (bd_reservations db))"
    using reachable_changes [OF assms(1)]
    by (auto simp: budget_inv_def capacity_inv_def reservation_indexes_def)
  define parents where "parents = parent_records (getPrivateReservation db rid)"
  from ordinals_consecutive [OF inv] obtain n where n: "n \<le> 12" "ordinals db rid = [2..n]" by blast
  have history: "map ar_ordinal history = map ar_ordinal parents @ ordinals db rid"
    using assms(2) by (auto simp: listPrivateAttemptHistory_def and_then_eq_Inr ordinals_def parents_def
        child_record_def o_def)
  have parents: "map ar_ordinal parents = [] \<or> map ar_ordinal parents = [1]"
    by (auto simp: parents_def parent_records_def split: option.splits)
  have "map ar_ordinal parents = [1]" if "2 \<le> n"
  proof -
    have "set (ordinals db rid) \<noteq> {}" using that n(2) by simp
    then obtain b where "b \<in> set (bd_bindings db)" "ab_reservation b = rid"
      by (auto simp: ordinals_def)
    with inv obtain r where r: "r \<in> set (bd_reservations db)" "rv_id r = rid" "fully_bound r"
      by (auto simp: attempts_inv_def parent_bound_def)
    have "getPrivateReservation db rid = Some r"
      unfolding getPrivateReservation_def using sql_get_key [OF ids r(1,2)] .
    with r(3) show ?thesis by (auto simp: parents_def parent_records_def fully_bound_def)
  qed
  then consider "2 \<le> n" "map ar_ordinal history = [1..n]" | "map ar_ordinal history = []"
    | "map ar_ordinal history = [1..1]"
    using parents n(2) history by (cases "2 \<le> n") (auto simp: upto_rec1 [of 1 n])
  then show ?thesis
  proof cases
    case 1
    then have "length history = nat n" by (metis length_map length_upto diff_add_cancel)
    with 1 n(1) show ?thesis by (simp add: MAX_THOUGHT_MODEL_ATTEMPTS_def)
  next
    case 2
    then show ?thesis by (simp add: MAX_THOUGHT_MODEL_ATTEMPTS_def)
  next
    case 3
    then have "length history = 1" by (metis length_map length_upto One_nat_def diff_add_cancel nat_one_as_int)
    with 3 show ?thesis by (simp add: MAX_THOUGHT_MODEL_ATTEMPTS_def)
  qed
qed

theorem attempt_history_consecutive_witness:
  "map ar_ordinal (parent_records (getPrivateReservation sample_dispatched ''private-reservation:u'')) = [1]"
proof -
  have "listPrivateAttemptHistory sample_dispatched ''private-reservation:u'' =
      Inr (parent_records (getPrivateReservation sample_dispatched ''private-reservation:u''))"
    and "length (parent_records (getPrivateReservation sample_dispatched ''private-reservation:u'')) = 1"
    by code_simp+
  with attempt_history_consecutive [OF sample_dispatched_reachable this(1)] show ?thesis by simp
qed

end
