(* ===== verification/Budget_Projection.thy ===== *)
theory Budget_Projection
  imports Budget_Lifecycle Wake_Lifecycle
begin

text \<open>
  The read-only projection of the private Thought budget says what the next admission will do.
\<close>

section \<open>The window as a filter\<close>

definition in_window :: "(string \<Rightarrow> string) \<Rightarrow> budget_db \<Rightarrow> int \<Rightarrow> reservation_row \<Rightarrow> bool" where
  "in_window sha db t r = (case reservationBudgetPolicy sha db r of
     Inl _ \<Rightarrow> False | Inr p \<Rightarrow> t - bp_windowMs (pw_policy p) < rv_time r)"

definition resolvable :: "(string \<Rightarrow> string) \<Rightarrow> budget_db \<Rightarrow> reservation_row \<Rightarrow> bool" where
  "resolvable sha db r \<longleftrightarrow> (\<exists>p. reservationBudgetPolicy sha db r = Inr p)"

lemma reservation_policy_cong:
  assumes "bd_policies db' = bd_policies db"
  shows "reservationBudgetPolicy sha db' = reservationBudgetPolicy sha db"
  by (rule ext) (simp only: reservationBudgetPolicy_def resolveBudgetPolicy_def current_policy_def assms)

lemma window_cong:
  assumes "bd_policies db' = bd_policies db"
  shows "in_window sha db' t = in_window sha db t" and "resolvable sha db' = resolvable sha db"
  by (rule ext, simp only: in_window_def resolvable_def reservation_policy_cong [OF assms])+

lemma inside_window_eq:
  "inside_window sha db t rows = Inr act \<longleftrightarrow>
    (\<forall>r \<in> set rows. resolvable sha db r) \<and> act = filter (in_window sha db t) rows"
proof (induction rows arbitrary: act)
  case (Cons r rows)
  show ?case
  proof (cases "reservationBudgetPolicy sha db r")
    case (Inr p)
    then show ?thesis using Cons by (auto simp: and_then_eq_Inr resolvable_def in_window_def)
  qed (auto simp: resolvable_def)
qed auto

lemma filter_map_same:
  "(\<And>x. x \<in> set xs \<Longrightarrow> P (g x) = P x \<and> (P x \<longrightarrow> g x = x)) \<Longrightarrow> filter P (map g xs) = filter P xs"
  by (induction xs) auto

lemma update_reservation_indexes:
  assumes "reservation_indexes rows"
    and f: "\<And>r. rv_id (f r) = rv_id r" "\<And>r. rv_admission (f r) = rv_admission r"
      "\<And>r. rv_invocation (f r) = rv_invocation r" "\<And>r. rv_state (f r) = Rv_expired"
  shows "reservation_indexes (sql_update P f rows)"
proof -
  have "unique_column rv_invocation (sql_update P f rows)"
    using assms(1) f(3) by (intro unique_column_update) (auto simp: reservation_indexes_def)
  with assms show ?thesis
    by (auto simp: reservation_indexes_def list_all_iff map_key_sql_update)
qed

section \<open>Expiry changes nothing that counts\<close>

lemma expire_succeeds:
  assumes "reservation_indexes (bd_reservations db)" and "\<forall>r \<in> set rows. r \<in> set (bd_reservations db)"
    and "distinct (map rv_id rows)" and "\<forall>r \<in> set rows. resolvable sha db r"
  shows "\<exists>m db'. expire_loop sha t rows n db = Inr (m, db') \<and> bd_policies db' = bd_policies db \<and>
    reservation_indexes (bd_reservations db') \<and>
    map rv_id (bd_reservations db') = map rv_id (bd_reservations db) \<and>
    map rv_admission (bd_reservations db') = map rv_admission (bd_reservations db) \<and>
    (\<forall>pid. filter (in_window sha db t) (consuming_rows db' pid) = filter (in_window sha db t) (consuming_rows db pid)) \<and>
    (\<forall>pid. set (consuming_rows db' pid) \<subseteq> set (consuming_rows db pid))"
  using assms
proof (induction rows arbitrary: n db)
  case Nil
  then show ?case by simp
next
  case (Cons r rows)
  from Cons.prems(4) obtain p where p: "reservationBudgetPolicy sha db r = Inr p" by (auto simp: resolvable_def)
  show ?case
  proof (cases "rv_time r \<le> t - bp_windowMs (pw_policy p)")
    case False
    with p Cons.IH [of db n] Cons.prems show ?thesis by simp
  next
    case True
    let ?P = "\<lambda>x. rv_id x = rv_id r \<and> True" and ?f = "\<lambda>r. r\<lparr>rv_state := Rv_expired, rv_updated := t\<rparr>"
    define db1 where "db1 = db\<lparr>bd_reservations := sql_update ?P ?f (bd_reservations db)\<rparr>"
    have ix: "reservation_indexes (sql_update ?P ?f (bd_reservations db))"
      by (rule update_reservation_indexes [OF Cons.prems(1)]) simp_all
    then have u: "update_reservation (rv_id r) (\<lambda>_. True) ?f db = Inr (sql_changes ?P (bd_reservations db), db1)"
      unfolding update_reservation_def store_reservations_def db1_def Let_def by (simp only: if_True and_then_simps)
    have ids: "distinct (map rv_id (bd_reservations db))"
      using Cons.prems(1) by (simp add: reservation_indexes_def)
    have same: "x = r" if "x \<in> set (bd_reservations db)" "rv_id x = rv_id r" for x
      using that Cons.prems(2) ids by (auto simp: distinct_map dest: inj_onD)
    have out: "\<not> in_window sha db t r" using p True by (simp add: in_window_def)
    have "bd_policies db1 = bd_policies db" by (simp add: db1_def)
    note eq = window_cong [OF this]
    have counted_same: "filter (in_window sha db t) (consuming_rows db1 pid) =
        filter (in_window sha db t) (consuming_rows db pid)" for pid
      unfolding consuming_rows_def filter_filter db1_def sql_update_def
      by (simp, rule filter_map_same) (use same out in \<open>auto simp: consuming_state_def\<close>)
    have sub: "set (consuming_rows db1 pid) \<subseteq> set (consuming_rows db pid)" for pid
      by (auto simp: consuming_rows_def db1_def consuming_state_def)
    have keep: "\<forall>x \<in> set rows. x \<in> set (bd_reservations db1)"
    proof
      fix x assume x: "x \<in> set rows"
      then have "rv_id x \<in> rv_id ` set rows" by (rule imageI)
      with Cons.prems(3) have "rv_id x \<noteq> rv_id r" by (simp del: image_iff) metis
      with x Cons.prems(2) show "x \<in> set (bd_reservations db1)" by (auto simp: db1_def image_iff)
    qed
    have "\<exists>m db'. expire_loop sha t rows (n + sql_changes ?P (bd_reservations db)) db1 = Inr (m, db') \<and>
      bd_policies db' = bd_policies db1 \<and> reservation_indexes (bd_reservations db') \<and>
      map rv_id (bd_reservations db') = map rv_id (bd_reservations db1) \<and>
      map rv_admission (bd_reservations db') = map rv_admission (bd_reservations db1) \<and>
      (\<forall>pid. filter (in_window sha db1 t) (consuming_rows db' pid) = filter (in_window sha db1 t) (consuming_rows db1 pid)) \<and>
      (\<forall>pid. set (consuming_rows db' pid) \<subseteq> set (consuming_rows db1 pid))"
      by (rule Cons.IH) (use ix keep Cons.prems(3,4) eq in \<open>simp_all add: db1_def\<close>)
    moreover have "map rv_id (bd_reservations db1) = map rv_id (bd_reservations db)"
        "map rv_admission (bd_reservations db1) = map rv_admission (bd_reservations db)"
      unfolding db1_def by (simp_all add: map_key_sql_update)
    moreover have "bd_policies db1 = bd_policies db" by (simp add: db1_def)
    moreover have "expire_loop sha t (r # rows) n db =
        expire_loop sha t rows (n + sql_changes ?P (bd_reservations db)) db1"
      using p True u by simp
    ultimately show ?thesis
      unfolding eq counted_same using sub by (metis (no_types, lifting) order_trans)
  qed
qed

section \<open>The outcome of an admission\<close>

lemma take_capacity_result:
  assumes inv: "capacity_inv db" and pid: "bp_policyId (pw_policy p) = bi_policyId i"
    and cur: "assertCurrentBudgetPolicy sha db p t = Inr ()"
    and used: "consumingCount sha db (bi_policyId i) t = Inr used"
    and fresh: "\<forall>r \<in> set (bd_reservations db). rv_admission r \<noteq> bi_admissionId i \<and>
      rv_id r \<noteq> ''private-reservation:'' @ uuid"
  shows "\<exists>r db'. take_capacity sha uuid i p t db =
    Inr (if bp_limit (pw_policy p) \<le> used then Adm_refused ''capacity_exhausted''
         else Adm_reserved r (bp_limit (pw_policy p) - used - 1), db')"
proof -
  from used have res: "\<forall>r \<in> set (consuming_rows db (bi_policyId i)). resolvable sha db r"
      and n: "used = int (length (filter (in_window sha db t) (consuming_rows db (bi_policyId i))))"
    by (auto simp: consumingCount_def activeBudgetRows_def and_then_eq_Inr inside_window_eq)
  have ix: "reservation_indexes (bd_reservations db)" using inv by (simp add: capacity_inv_def)
  have "distinct (map rv_id (consuming_rows db (bi_policyId i)))"
    using ix by (auto simp: consuming_rows_def reservation_indexes_def distinct_map inj_on_def)
  then obtain m db1 where e: "expireInTransaction sha (bi_policyId i) t db = Inr (m, db1)"
      and ps: "bd_policies db1 = bd_policies db" and ix1: "reservation_indexes (bd_reservations db1)"
      and ids: "map rv_id (bd_reservations db1) = map rv_id (bd_reservations db)"
      and adm: "map rv_admission (bd_reservations db1) = map rv_admission (bd_reservations db)"
      and act: "filter (in_window sha db t) (consuming_rows db1 (bi_policyId i)) =
        filter (in_window sha db t) (consuming_rows db (bi_policyId i))"
      and sub: "set (consuming_rows db1 (bi_policyId i)) \<subseteq> set (consuming_rows db (bi_policyId i))"
    using expire_succeeds [OF ix _ _ res, of t 0] unfolding expireInTransaction_def
    by (auto simp: consuming_rows_def)
  note eq = window_cong [OF ps]
  have used1: "consumingCount sha db1 (bi_policyId i) t = Inr used"
    using res sub by (auto simp: consumingCount_def activeBudgetRows_def and_then_eq_Inr inside_window_eq eq act n)
  let ?row = "new_reservation uuid i t (pw_fingerprint p)"
  have new_id: "rv_id ?row \<notin> rv_id ` set (bd_reservations db1)" "rv_admission ?row \<notin> rv_admission ` set (bd_reservations db1)"
    using fresh arg_cong [OF ids, of set] arg_cong [OF adm, of set] by (auto simp: new_reservation_def)
  with ix1 have ix2: "reservation_indexes (bd_reservations db1 @ [?row])"
    by (simp add: reservation_indexes_def unique_column_def) (simp add: new_reservation_def)
  have "sql_get (\<lambda>r. rv_id r = rv_id ?row) (bd_reservations db1) = None"
    unfolding sql_get_None_iff
  proof
    fix r assume "r \<in> set (bd_reservations db1)"
    then have "rv_id r \<in> rv_id ` set (bd_reservations db1)" by (rule imageI)
    with new_id(1) show "rv_id r \<noteq> rv_id ?row" by (simp del: image_iff) metis
  qed
  then have get: "reservationRequired (db1\<lparr>bd_reservations := bd_reservations db1 @ [?row]\<rparr>) (rv_id ?row) = Inr ?row"
    by (simp add: reservationRequired_def getPrivateReservation_def sql_get_append del: sql_get_None_iff)
  show ?thesis
  proof (cases "bp_limit (pw_policy p) \<le> used")
    case True
    then show ?thesis using cur e used1 by (simp add: take_capacity_def)
  next
    case False
    then show ?thesis
      using cur e used1 ix2 get by (simp add: take_capacity_def Let_def store_reservations_def)
  qed
qed

lemma resolve_bound_policy:
  assumes "resolveBudgetPolicy sha db pid None = Inr p" and inv: "capacity_inv db"
  shows "resolveBudgetPolicy sha db pid (Some (pw_fingerprint p)) = Inr p"
proof -
  let ?P = "\<lambda>r. bp_policyId (pw_policy r) = pid \<and> Some (pw_fingerprint r) = Some (pw_fingerprint p)"
  note p = resolve_binds [OF assms(1)]
  have "sql_get ?P (bd_policies db) \<noteq> None" using p(1,2) by auto
  then obtain q where q: "sql_get ?P (bd_policies db) = Some q" by blast
  have "q = p"
    using sql_get_SomeD [OF q] p(1) policy_unique [of "bd_policies db" q p] inv by (auto simp: capacity_inv_def)
  moreover have "policy_snapshot sha p = Inr p"
    using assms(1) by (auto simp: resolveBudgetPolicy_def text_of_def policy_snapshot_def and_then_eq_Inr
        split: option.splits if_splits)
  ultimately show ?thesis
    using q p(4) by (simp add: resolveBudgetPolicy_def text_of_def del: sql_get_None_iff)
qed

lemma resolved_limit:
  assumes "resolveBudgetPolicy sha db pid fp = Inr p"
  shows "1 \<le> bp_limit (pw_policy p) \<and> 0 \<le> bp_clockDiscontinuityMs (pw_policy p)"
  using assms
  by (auto simp: resolveBudgetPolicy_def Let_def policy_snapshot_def budgetPolicyFingerprint_def
      valid_policy_def and_then_eq_Inr split: option.splits if_splits)

lemma resolve_cong:
  assumes "bd_policies db' = bd_policies db"
  shows "resolveBudgetPolicy sha db' = resolveBudgetPolicy sha db"
  by (intro ext) (simp only: resolveBudgetPolicy_def current_policy_def assms)

lemma active_cong:
  assumes "bd_policies db' = bd_policies db" and "bd_reservations db' = bd_reservations db"
  shows "activeBudgetRows sha db' = activeBudgetRows sha db"
proof (intro ext)
  fix pid t
  have "inside_window sha db' t rows = inside_window sha db t rows" for rows
    by (induction rows) (simp_all add: reservation_policy_cong [OF assms(1)])
  then show "activeBudgetRows sha db' pid t = activeBudgetRows sha db pid t"
    by (simp add: activeBudgetRows_def consuming_rows_def assms(2))
qed

lemma advance_result:
  assumes "clockRow db pid = Some c" and "\<not> blank pid" and "0 \<le> wall"
    and "resolveBudgetPolicy sha db pid fp = Inr p"
  shows "\<exists>cs. advancePolicyClock sha pid wall fp db =
    Inr (computePolicyTime (ck_last c) wall (bp_clockDiscontinuityMs (pw_policy p)), db\<lparr>bd_clocks := cs\<rparr>)"
  using assms by (auto simp: advancePolicyClock_def computePolicyTime_def Let_def)

lemma admission_inputs:
  assumes "validateAdmission i = Inr w"
  shows "w = bi_wallClockNowMs i" and "0 \<le> w" and "\<not> blank (bi_policyId i)"
  using assms
  by (auto simp: validateAdmission_def required_text_def valid_time_def and_then_eq_Inr split: if_splits)

text \<open>An admission whose clock is known, after the checks of its identity.\<close>

lemma clocked_admission:
  assumes inv: "capacity_inv db" and clock: "clockRow db (bi_policyId i) = Some c"
    and p: "resolveBudgetPolicy sha db (bi_policyId i) None = Inr p"
    and v: "validateAdmission i = Inr w"
    and fresh: "\<forall>r \<in> set (bd_reservations db). rv_admission r \<noteq> bi_admissionId i \<and>
      rv_id r \<noteq> ''private-reservation:'' @ uuid"
    and stable: "ck_last c - w \<le> bp_clockDiscontinuityMs (pw_policy p)"
    and cur: "assertCurrentBudgetPolicy sha db p (max (ck_last c) w) = Inr ()"
    and used: "consumingCount sha db (bi_policyId i) (max (ck_last c) w) = Inr used"
  shows "\<exists>r db'. and_then (advancePolicyClock sha (bi_policyId i) w (Some (pw_fingerprint p)) db)
      (\<lambda>((time, state, _), db2). if state \<noteq> Clock_stable then Inr (Adm_refused ''clock_reconciliation'', db2)
         else take_capacity sha uuid i p time db2) =
    Inr (if bp_limit (pw_policy p) \<le> used then Adm_refused ''capacity_exhausted''
         else Adm_reserved r (bp_limit (pw_policy p) - used - 1), db')"
proof -
  note w = admission_inputs [OF v]
  from advance_result [OF clock w(3,2) resolve_bound_policy [OF p inv]]
  obtain cs where adv: "advancePolicyClock sha (bi_policyId i) w (Some (pw_fingerprint p)) db =
      Inr (computePolicyTime (ck_last c) w (bp_clockDiscontinuityMs (pw_policy p)), db\<lparr>bd_clocks := cs\<rparr>)"
    by blast
  obtain time st d where t: "computePolicyTime (ck_last c) w (bp_clockDiscontinuityMs (pw_policy p)) = (time, st, d)"
    by (cases "computePolicyTime (ck_last c) w (bp_clockDiscontinuityMs (pw_policy p))") blast
  from clock_advance_effect [OF adv [unfolded t]] obtain cs'
    where "db\<lparr>bd_clocks := cs\<rparr> = db\<lparr>bd_clocks := cs'\<rparr>" "clocks_grow (bd_clocks db) cs'" by blast
  moreover from this have "cs' = cs" using arg_cong [where f = bd_clocks] by fastforce
  ultimately have "clocks_grow (bd_clocks db) cs" by simp
  then have "capacity_inv (db\<lparr>bd_clocks := cs\<rparr>)"
    using capacity.step_inv [OF inv change_clocks] by blast
  moreover have same: "activeBudgetRows sha (db\<lparr>bd_clocks := cs\<rparr>) = activeBudgetRows sha db"
    by (rule active_cong) simp_all
  ultimately obtain r db' where "take_capacity sha uuid i p (max (ck_last c) w) (db\<lparr>bd_clocks := cs\<rparr>) =
      Inr (if bp_limit (pw_policy p) \<le> used then Adm_refused ''capacity_exhausted''
         else Adm_reserved r (bp_limit (pw_policy p) - used - 1), db')"
    using take_capacity_result [of "db\<lparr>bd_clocks := cs\<rparr>" p i sha "max (ck_last c) w" used uuid]
      cur used fresh resolve_binds(2) [OF p]
    by (simp add: assertCurrentBudgetPolicy_def consumingCount_def) blast
  with adv stable show ?thesis by (auto simp: computePolicyTime_def)
qed

section \<open>Property\<close>

text \<open>
  C24. The projection never disagrees with the admission: for a fresh admission of a dispatchable
  wake, the projection of the same instant has capacity left exactly when the admission is
  granted, and then one unit less is left after it; with no capacity left the admission is
  refused, and in no case does it throw.
\<close>

theorem projection_agrees_with_admission:
  assumes "(budget_step sha)\<^sup>*\<^sup>* (initial_budget sha k) db"
    and "getPrivateBudgetProjection sha (bi_policyId i) (bi_wallClockNowMs i) db = Inr j"
    and "validateAdmission i = Inr w"
    and "verifyWakeForAdmission db (bi_wakeId i) (bi_conversationId i) = Inr ()"
    and "\<forall>r \<in> set (bd_reservations db). rv_admission r \<noteq> bi_admissionId i \<and>
      rv_id r \<noteq> ''private-reservation:'' @ uuid"
  shows "if 0 < bj_remaining j
    then \<exists>r. fst (reservePrivateThought sha uuid i db) = Inr (Adm_reserved r (bj_remaining j - 1))
    else \<exists>reason. fst (reservePrivateThought sha uuid i db) = Inr (Adm_refused reason)"
proof -
  let ?pid = "bi_policyId i"
  have inv: "capacity_inv db" using reachable_changes [OF assms(1)] by (simp add: budget_inv_def)
  note w = admission_inputs [OF assms(3)]
  from assms(2) obtain p where p: "resolveBudgetPolicy sha db ?pid None = Inr p"
    by (auto simp: getPrivateBudgetProjection_def and_then_eq_Inr)
  have no_adm: "sql_get (\<lambda>r. rv_admission r = bi_admissionId i) (bd_reservations db) = None"
    using assms(5) by auto
  define rest where "rest = (\<lambda>db1. and_then (advancePolicyClock sha ?pid w (Some (pw_fingerprint p)) db1)
      (\<lambda>((time, state, _), db2). if state \<noteq> Clock_stable then Inr (Adm_refused ''clock_reconciliation'', db2)
         else take_capacity sha uuid i p time db2))"
  have admit: "admit_reservation sha uuid i db = (case bootstrap_clock ?pid w db of
      None \<Rightarrow> Inr (Adm_refused ''clock_reconciliation'', db) | Some db1 \<Rightarrow> rest db1)"
    unfolding admit_reservation_def p no_adm assms(4) rest_def w(1) and_then_simps option.case by (rule refl)
  have fst_reserve: "fst (reservePrivateThought sha uuid i db) =
      (case admit_reservation sha uuid i db of Inl err \<Rightarrow> Inl err | Inr (a, _) \<Rightarrow> Inr a)"
    using assms(3) by (auto simp: reservePrivateThought_def in_immediate_transaction_def split: sum.split)
  note lim = resolved_limit [OF p]
  show ?thesis
  proof (cases "clockRow db ?pid")
    case None
    show ?thesis
    proof (cases "list_ex (\<lambda>r. rv_policy r = ?pid) (bd_reservations db)")
      case True
      then have "bj_remaining j = 0"
        using assms(2) None by (auto simp: getPrivateBudgetProjection_def and_then_eq_Inr
            projected_clock_state_def projected_remaining_def p)
      then show ?thesis using None True by (simp add: fst_reserve admit bootstrap_clock_def)
    next
      case False
      then have left: "bj_remaining j = bp_limit (pw_policy p)"
        using assms(2) None p by (auto simp: getPrivateBudgetProjection_def and_then_eq_Inr
            projected_clock_state_def projected_remaining_def)
      define db1 where "db1 = db\<lparr>bd_clocks := bd_clocks db @ [\<lparr>ck_policy = ?pid, ck_last = w,
            ck_state = Clock_stable, ck_discrepancy = 0, ck_reconciled = None, ck_ref = None\<rparr>]\<rparr>"
      have boot: "bootstrap_clock ?pid w db = Some db1"
        using None False by (simp add: bootstrap_clock_def db1_def)
      have inv1: "capacity_inv db1"
        using bootstrap_changes [OF boot] capacity.steps_inv inv by blast
      have clock: "\<exists>c. clockRow db1 ?pid = Some c \<and> ck_last c = w"
        using None by (simp add: db1_def clockRow_def sql_get_append del: sql_get_None_iff)
      then obtain c where c: "clockRow db1 ?pid = Some c" "ck_last c = w" by blast
      have empty: "activeBudgetRows sha db1 ?pid t = Inr []" for t
        using False by (auto simp: activeBudgetRows_def inside_window_eq consuming_rows_def list_ex_iff db1_def)
      have p1: "resolveBudgetPolicy sha db1 ?pid None = Inr p"
        using p resolve_cong [of db1 db] by (simp add: db1_def)
      have "\<exists>r db'. rest db1 = Inr (if bp_limit (pw_policy p) \<le> 0 then Adm_refused ''capacity_exhausted''
         else Adm_reserved r (bp_limit (pw_policy p) - 0 - 1), db')"
        unfolding rest_def
        by (rule clocked_admission [OF inv1 c(1) p1 assms(3)])
          (use assms(5) c(2) lim empty resolve_binds(2) [OF p] in
            \<open>auto simp: db1_def assertCurrentBudgetPolicy_def consumingCount_def\<close>)
      with lim left show ?thesis by (auto simp: fst_reserve admit boot)
    qed
  next
    case (Some c)
    then have boot: "bootstrap_clock ?pid w db = Some db" by (simp add: bootstrap_clock_def)
    show ?thesis
    proof (cases "bp_clockDiscontinuityMs (pw_policy p) < ck_last c - w")
      case True
      then have "bj_remaining j = 0"
        using assms(2) Some p w(1) by (auto simp: getPrivateBudgetProjection_def and_then_eq_Inr
            projected_clock_state_def projected_remaining_def)
      moreover obtain cs where "advancePolicyClock sha ?pid w (Some (pw_fingerprint p)) db =
          Inr (computePolicyTime (ck_last c) w (bp_clockDiscontinuityMs (pw_policy p)), db\<lparr>bd_clocks := cs\<rparr>)"
        using advance_result [OF Some w(3,2) resolve_bound_policy [OF p inv]] by blast
      ultimately show ?thesis
        using True by (simp add: fst_reserve admit boot rest_def computePolicyTime_def)
    next
      case False
      then obtain used where cur: "assertCurrentBudgetPolicy sha db p (max (ck_last c) w) = Inr ()"
          and used: "consumingCount sha db ?pid (max (ck_last c) w) = Inr used"
          and left: "bj_remaining j = max 0 (bp_limit (pw_policy p) - used)"
        using assms(2) Some p w(1) by (auto simp: getPrivateBudgetProjection_def and_then_eq_Inr
            projected_clock_state_def projected_remaining_def)
      have "\<exists>r db'. rest db = Inr (if bp_limit (pw_policy p) \<le> used then Adm_refused ''capacity_exhausted''
         else Adm_reserved r (bp_limit (pw_policy p) - used - 1), db')"
        unfolding rest_def
        by (rule clocked_admission [OF inv Some p assms(3,5) _ cur used]) (use False in simp)
      with left show ?thesis by (auto simp: fst_reserve admit boot max_def)
    qed
  qed
qed

definition sample_second :: budget_admission where
  "sample_second = sample_budget_admission\<lparr>bi_admissionId := ''adm2'', bi_wallClockNowMs := 2000\<rparr>"

theorem projection_agrees_with_admission_witness:
  "\<exists>r. fst (reservePrivateThought sample_sha ''v'' sample_second sample_dispatched) = Inr (Adm_reserved r 10)"
proof -
  have "map_sum id bj_remaining (getPrivateBudgetProjection sample_sha (bi_policyId sample_second)
      (bi_wallClockNowMs sample_second) sample_dispatched) = Inr 11"
    by code_simp
  then obtain j where j: "getPrivateBudgetProjection sample_sha (bi_policyId sample_second)
      (bi_wallClockNowMs sample_second) sample_dispatched = Inr j" "bj_remaining j = 11"
    by (cases "getPrivateBudgetProjection sample_sha (bi_policyId sample_second)
      (bi_wallClockNowMs sample_second) sample_dispatched") auto
  have "validateAdmission sample_second = Inr 2000"
    and "verifyWakeForAdmission sample_dispatched (bi_wakeId sample_second) (bi_conversationId sample_second) = Inr ()"
    and "list_all (\<lambda>r. rv_admission r \<noteq> bi_admissionId sample_second \<and>
      rv_id r \<noteq> ''private-reservation:'' @ ''v'') (bd_reservations sample_dispatched)"
    by code_simp+
  with projection_agrees_with_admission [OF sample_dispatched_reachable j(1), of 2000 "''v''"] j(2)
  show ?thesis by (simp add: list_all_iff)
qed

end
