(* ===== verification/Budget_Recovery.thy ===== *)
theory Budget_Recovery
  imports Budget_Lifecycle
begin

text \<open>
  Recovery of the private Thought budget, \<^verbatim>\<open>private-budget/recovery.ts\<close>, with the owner of a
  continuation of \<^verbatim>\<open>cycle/inbox.ts\<close>. Of the tables of the speech outbox and of the worker
  undertakings, which recovery only reads, the model has the columns that are read.
\<close>

section \<open>The owner of a continuation\<close>

record outbox_row =
  so_cycle :: "string option"
  so_status :: string
  so_suppressed :: bool

record undertaking_row =
  ut_originKind :: string
  ut_conversation :: string
  ut_state :: string
  ut_originCycle :: "string option"

record continuation_tables =
  ct_outbox :: "outbox_row list"
  ct_undertakings :: "undertaking_row list"

definition hasActiveOwnerWorkerUndertaking :: "continuation_tables \<Rightarrow> string \<Rightarrow> string \<Rightarrow> bool" where
  "hasActiveOwnerWorkerUndertaking ct conversation cycle \<longleftrightarrow> \<not> blank conversation \<and>
     list_ex (\<lambda>u. ut_originKind u = ''OWNER_REQUEST'' \<and> ut_conversation u = conversation \<and>
       ut_state u \<in> {''queued'', ''dispatching'', ''running''} \<and>
       (cycle = [] \<or> ut_originCycle u = Some cycle)) (ct_undertakings ct)"

definition undelivered :: "outbox_row \<Rightarrow> bool" where
  "undelivered s \<longleftrightarrow> so_status s \<notin> {''delivered'', ''partially_delivered'', ''send_failure'', ''suppressed'',
     ''suppressed_shadow''} \<and> \<not> so_suppressed s"

definition hasValidDurableContinuationOwner :: "continuation_tables \<Rightarrow> wake_db \<Rightarrow> cycle_row \<Rightarrow> bool" where
  "hasValidDurableContinuationOwner ct k c =
     (if c_state c = ''silent'' \<or> c_state c = ''idle'' then False
      else if hasActiveOwnerWorkerUndertaking ct (c_conversation c) (c_cycle c) then True
      else if c_state c = ''capacity_wait''
      then list_ex (\<lambda>f. ft_cycle f = c_cycle c \<and> (ft_state f = F_waiting \<or> ft_state f = F_running)) (frontiers k)
      else if c_state c = ''sending''
      then list_ex (\<lambda>s. so_cycle s = Some (c_cycle c) \<and> undelivered s) (ct_outbox ct)
      else if text_of (c_wake c) = [] then False
      else (case getWake k (text_of (c_wake c)) of None \<Rightarrow> False | Some w \<Rightarrow> w_state w \<noteq> W_terminal))"

datatype owner_status = Valid_owner | Proven_no_owner | Indeterminate_identity

definition resolveDurableContinuationOwner ::
  "continuation_tables \<Rightarrow> wake_db \<Rightarrow> string \<Rightarrow> string \<Rightarrow> owner_status" where
  "resolveDurableContinuationOwner ct k wake conversation =
     (if wake = [] \<or> conversation = [] then Indeterminate_identity
      else (case getWake k wake of
              None \<Rightarrow> Indeterminate_identity
            | Some w \<Rightarrow>
                if w_cycle w = [] then Indeterminate_identity
                else (case find_cycle k (w_cycle w) of
                        None \<Rightarrow> Indeterminate_identity
                      | Some c \<Rightarrow>
                          if c_conversation c \<noteq> conversation \<or> c_wake c \<noteq> Some wake then Indeterminate_identity
                          else if hasValidDurableContinuationOwner ct k c then Valid_owner
                          else Proven_no_owner)))"

section \<open>Recovery of the reservations\<close>

record budget_receipt =
  rt_truth :: dispatch_truth
  rt_proofRef :: "string option"
  rt_requestId :: "string option"

datatype receipt_subject = Parent_subject reservation_row | Child_subject binding_row

record budget_recovery =
  br_released :: nat
  br_committed :: nat
  br_reconciling :: nat
  br_expired :: nat
  br_releasedRepairs :: nat
  br_committedRepairs :: nat

type_synonym receipt_resolver = "receipt_subject \<Rightarrow> budget_receipt option"

definition expire_for_recovery ::
  "(string \<Rightarrow> string) \<Rightarrow> int \<Rightarrow> string \<Rightarrow> budget_recovery \<times> budget_db \<Rightarrow> budget_recovery \<times> budget_db" where
  "expire_for_recovery sha now pid = (\<lambda>(res, db).
     if pid = [] then (res, db)
     else (case expirePrivateReservations sha pid now db of
             (Inl _, db1) \<Rightarrow> (res, db1)
           | (Inr (_, n), db1) \<Rightarrow> (res\<lparr>br_expired := br_expired res + n\<rparr>, db1)))"

text \<open>\<open>try { release; released += 1 } catch { reconciling += 1 }\<close>\<close>

definition try_release ::
  "release_input \<Rightarrow> budget_recovery \<times> budget_db \<Rightarrow> budget_recovery \<times> budget_db" where
  "try_release i = (\<lambda>(res, db). case releasePrivateReservation i db of
     (Inr _, db1) \<Rightarrow> (res\<lparr>br_released := br_released res + 1\<rparr>, db1)
   | (Inl _, db1) \<Rightarrow> (res\<lparr>br_reconciling := br_reconciling res + 1\<rparr>, db1))"

definition release_of :: "reservation_row \<Rightarrow> string \<Rightarrow> int \<Rightarrow> release_input" where
  "release_of r proofRef now = \<lparr>rl_reservationId = rv_id r, rl_proofRef = proofRef,
     rl_dispatchTruth = Some T_not_started, rl_invocationId = rv_invocation r,
     rl_attemptId = rv_attempt r, rl_nowMs = now\<rparr>"

definition keep_unknown ::
  "string \<Rightarrow> int \<Rightarrow> budget_recovery \<times> budget_db \<Rightarrow> budget_recovery \<times> budget_db" where
  "keep_unknown rid now = (\<lambda>(res, db).
     let db1 = (case getPrivateReservation db rid of
           Some r \<Rightarrow> if rv_state r = Rv_held then snd (markPrivateReservationUnknown rid now db) else db
         | None \<Rightarrow> db)
     in (res\<lparr>br_reconciling := br_reconciling res + 1\<rparr>, db1))"

definition attempt_of :: "reservation_row \<Rightarrow> int \<Rightarrow> attempt_ref" where
  "attempt_of r now = \<lparr>at_reservationId = rv_id r, at_invocationId = text_of (rv_invocation r),
     at_attemptId = text_of (rv_attempt r), at_nowMs = now\<rparr>"

text \<open>A dispatched receipt: the commit and the response, or the unknown state when one throws.\<close>

definition commit_from_receipt ::
  "reservation_row \<Rightarrow> dispatch_truth \<Rightarrow> int \<Rightarrow> budget_recovery \<times> budget_db \<Rightarrow> budget_recovery \<times> budget_db" where
  "commit_from_receipt r truth now = (\<lambda>(res, db).
     let committed = (\<lambda>db1 :: budget_db. (res\<lparr>br_committed := br_committed res + 1\<rparr>, db1)) in
     case commitPrivateDispatch (attempt_of r now) db of
       (Inl _, db1) \<Rightarrow> keep_unknown (rv_id r) now (res, db1)
     | (Inr _, db1) \<Rightarrow>
         if truth = T_responded
         then (case recordPrivateProviderResponse (attempt_of r now) db1 of
                 (Inl _, db2) \<Rightarrow> keep_unknown (rv_id r) now (res, db2)
               | (Inr _, db2) \<Rightarrow> committed db2)
         else committed db1)"

definition settle_by_receipt ::
  "receipt_resolver \<Rightarrow> reservation_row \<Rightarrow> int \<Rightarrow> budget_recovery \<times> budget_db \<Rightarrow>
   budget_recovery \<times> budget_db" where
  "settle_by_receipt resolve r now s =
     (case resolve (Parent_subject r) of
        None \<Rightarrow> keep_unknown (rv_id r) now s
      | Some receipt \<Rightarrow>
          if rt_truth receipt = T_not_started \<and> text_of (rt_proofRef receipt) \<noteq> []
          then try_release (release_of r (text_of (rt_proofRef receipt)) now) s
          else if (rt_truth receipt = T_attempted \<or> rt_truth receipt = T_responded) \<and>
                  text_of (rv_invocation r) \<noteq> [] \<and> text_of (rv_attempt r) \<noteq> []
          then commit_from_receipt r (rt_truth receipt) now s
          else keep_unknown (rv_id r) now s)"

definition unbound_proof :: "string \<Rightarrow> string" where
  "unbound_proof rid = ''recovery:'' @ rid @ '':w0-binding-not-crossed''"

definition recover_reservation ::
  "(string \<Rightarrow> string) \<Rightarrow> receipt_resolver \<Rightarrow> continuation_tables \<Rightarrow> int \<Rightarrow> string \<Rightarrow>
   budget_recovery \<times> budget_db \<Rightarrow> budget_recovery \<times> budget_db" where
  "recover_reservation sha resolve ct now rid = (\<lambda>(res, db).
     let reconciling = (res\<lparr>br_reconciling := br_reconciling res + 1\<rparr>, db) in
     if rid = [] then (res, db)
     else case requireReservationBudgetPolicy sha db rid of
       Inl _ \<Rightarrow> reconciling
     | Inr _ \<Rightarrow>
         (case getPrivateReservation db rid of
            None \<Rightarrow> (res, db)
          | Some r \<Rightarrow>
              if rv_state r \<noteq> Rv_held \<and> rv_state r \<noteq> Rv_reconcile_required then (res, db)
              else if text_of (rv_invocation r) = [] \<and> rv_truth r = T_not_bound
              then try_release ((release_of r (unbound_proof rid) now)
                     \<lparr>rl_invocationId := None, rl_attemptId := None\<rparr>) (res, db)
              else if rv_state r = Rv_held \<and> rv_truth r = T_not_started \<and> rv_proof r \<noteq> None
              then (case resolveDurableContinuationOwner ct (bd_kernel db) (rv_wake r) (rv_conversation r) of
                      Valid_owner \<Rightarrow> (res, db)
                    | Proven_no_owner \<Rightarrow> try_release (release_of r (text_of (rv_proof r)) now) (res, db)
                    | Indeterminate_identity \<Rightarrow> reconciling)
              else settle_by_receipt resolve r now (res, db)))"

section \<open>Recovery of the further attempts\<close>

definition count_released_repair :: "binding_row throws \<times> budget_db \<Rightarrow> budget_recovery \<Rightarrow> budget_recovery \<times> budget_db" where
  "count_released_repair result res = (case result of
     (Inr _, db1) \<Rightarrow> (res\<lparr>br_releasedRepairs := br_releasedRepairs res + 1\<rparr>, db1)
   | (Inl _, db1) \<Rightarrow> (res, db1))"

definition settle_child ::
  "receipt_resolver \<Rightarrow> string \<Rightarrow> string \<Rightarrow> binding_row \<Rightarrow> int \<Rightarrow> budget_recovery \<times> budget_db \<Rightarrow>
   budget_recovery \<times> budget_db" where
  "settle_child resolve rid ivk b now = (\<lambda>(res, db).
     let release = (\<lambda>pr. count_released_repair (releasePrivateRepairAttempt rid ivk pr now db) res);
         without = (if ab_truth b = T_not_started
           then release (''recovery:'' @ rid @ '':'' @ ivk @ '':w0-binding-not-crossed'') else (res, db))
     in case resolve (Child_subject b) of
          None \<Rightarrow> without
        | Some receipt \<Rightarrow>
            if rt_truth receipt = T_not_started \<and> text_of (rt_proofRef receipt) \<noteq> []
            then release (text_of (rt_proofRef receipt))
            else if rt_truth receipt = T_attempted \<or> rt_truth receipt = T_responded
            then (case reconcilePrivateRepairAttempt rid ivk (rt_truth receipt) (rt_requestId receipt) now db of
                    (Inr _, db1) \<Rightarrow> (res\<lparr>br_committedRepairs := br_committedRepairs res + 1\<rparr>, db1)
                  | (Inl _, db1) \<Rightarrow> (res, db1))
            else without)"

definition recover_child ::
  "(string \<Rightarrow> string) \<Rightarrow> receipt_resolver \<Rightarrow> int \<Rightarrow> string \<times> string \<Rightarrow>
   budget_recovery \<times> budget_db \<Rightarrow> budget_recovery \<times> budget_db" where
  "recover_child sha resolve now child s =
     (if fst child = [] \<or> snd child = [] then s
      else case requireReservationBudgetPolicy sha (snd s) (fst child) of
        Inl _ \<Rightarrow> s
      | Inr _ \<Rightarrow>
          (case getPrivateRepairBinding (snd s) (fst child) (snd child) of
             Inr (Some b) \<Rightarrow> if ab_proof b \<noteq> None then s
                             else settle_child resolve (fst child) (snd child) b now s
           | _ \<Rightarrow> s))"

section \<open>The whole recovery\<close>

definition policies_of :: "budget_db \<Rightarrow> string list" where
  "policies_of db = sort (remdups (map rv_policy (bd_reservations db)))"

definition stranded :: "budget_db \<Rightarrow> string list" where
  "stranded db = map rv_id (sort_key rv_created (sort_key rv_id
     (filter (\<lambda>r. rv_state r = Rv_held \<or> rv_state r = Rv_reconcile_required) (bd_reservations db))))"

definition stranded_children :: "budget_db \<Rightarrow> (string \<times> string) list" where
  "stranded_children db = map (\<lambda>b. (ab_reservation b, ab_invocation b)) (sort_key ab_created (sort_key ab_id
     (filter (\<lambda>b. ab_truth b \<in> {T_not_started, T_attempted, T_unknown} \<and> ab_proof b = None)
       (bd_bindings db))))"

definition no_recovery :: budget_recovery where
  "no_recovery = \<lparr>br_released = 0, br_committed = 0, br_reconciling = 0, br_expired = 0,
     br_releasedRepairs = 0, br_committedRepairs = 0\<rparr>"

definition recoverPrivateBudget ::
  "(string \<Rightarrow> string) \<Rightarrow> receipt_resolver \<Rightarrow> continuation_tables \<Rightarrow> int \<Rightarrow> budget_db \<Rightarrow>
   budget_recovery \<times> budget_db" where
  "recoverPrivateBudget sha resolve ct now db =
     (let s1 = fold (expire_for_recovery sha now) (policies_of db) (no_recovery, db);
          s2 = fold (recover_reservation sha resolve ct now) (stranded (snd s1)) s1
      in fold (recover_child sha resolve now) (stranded_children (snd s2)) s2)"

section \<open>What one call leaves alone\<close>

definition only_row :: "string \<Rightarrow> budget_db \<Rightarrow> budget_db \<Rightarrow> bool" where
  "only_row rid db db' \<longleftrightarrow> bd_kernel db' = bd_kernel db \<and>
     (\<forall>x. x \<noteq> rid \<longrightarrow> getPrivateReservation db' x = getPrivateReservation db x)"

lemma only_row_refl [simp]: "only_row rid db db"
  by (simp add: only_row_def)

lemma only_row_trans: "only_row rid db db1 \<Longrightarrow> only_row rid db1 db2 \<Longrightarrow> only_row rid db db2"
  by (simp add: only_row_def)

lemma update_reservation_result:
  assumes "update_reservation rid g f db = Inr (n, db')" and "\<And>r. rv_id (f r) = rv_id r"
  shows "only_row rid db db' \<and> getPrivateReservation db' rid =
    map_option (\<lambda>r. if g r then f r else r) (getPrivateReservation db rid)"
proof -
  let ?P = "\<lambda>r. rv_id r = rid \<and> g r"
  from assms(1) have db': "db' = db\<lparr>bd_reservations := sql_update ?P f (bd_reservations db)\<rparr>"
    by (auto simp: update_reservation_def Let_def and_then_eq_Inr store_reservations_eq)
  have get: "getPrivateReservation db' x =
      map_option (\<lambda>r. if ?P r then f r else r) (getPrivateReservation db x)" for x
    unfolding db' getPrivateReservation_def by (simp, rule sql_get_update) (simp add: assms(2))
  have "getPrivateReservation db' x = getPrivateReservation db x" if "x \<noteq> rid" for x
  proof (cases "getPrivateReservation db x")
    case (Some r)
    then have "rv_id r = x" using getPrivateReservation_row by blast
    with that Some get show ?thesis by simp
  qed (use get in simp)
  moreover have "getPrivateReservation db' rid =
      map_option (\<lambda>r. if g r then f r else r) (getPrivateReservation db rid)"
  proof (cases "getPrivateReservation db rid")
    case (Some r)
    then have "rv_id r = rid" using getPrivateReservation_row by blast
    with Some get show ?thesis by simp
  qed (use get in simp)
  ultimately show ?thesis by (simp add: only_row_def db')
qed

lemma validated_result:
  assumes "validated c body db = (res, db')"
  shows "(\<exists>e. res = Inl e) \<and> db' = db \<or> (\<exists>x. res = Inr x \<and> body db = Inr (x, db'))"
  using assms by (auto simp: validated_def in_immediate_transaction_def split: sum.splits)

text \<open>One call on \<open>rid\<close> after which the state of its row is the old one or in \<open>S\<close>.\<close>

definition state_within :: "reservation_state set \<Rightarrow> string \<Rightarrow> budget_db \<Rightarrow> budget_db \<Rightarrow> bool" where
  "state_within S rid db db' \<longleftrightarrow> only_row rid db db' \<and>
     (\<forall>r. getPrivateReservation db rid = Some r \<longrightarrow>
       (\<exists>r'. getPrivateReservation db' rid = Some r' \<and> rv_state r' \<in> insert (rv_state r) S))"

lemma state_within_refl [simp]: "state_within S rid db db"
  by (simp add: state_within_def)

lemma state_within_trans:
  "state_within S rid db db1 \<Longrightarrow> state_within T rid db1 db2 \<Longrightarrow> state_within (S \<union> T) rid db db2"
  unfolding state_within_def by (fastforce intro: only_row_trans)

lemma state_within_mono: "state_within S rid db db' \<Longrightarrow> S \<subseteq> T \<Longrightarrow> state_within T rid db db'"
  unfolding state_within_def by fastforce

lemma update_within:
  assumes "update_reservation rid g f db = Inr (n, db')" and "\<And>r. rv_id (f r) = rv_id r"
    and "\<And>r. g r \<Longrightarrow> rv_state (f r) \<in> insert (rv_state r) S"
  shows "state_within S rid db db'"
  using update_reservation_result [OF assms(1,2)] assms(3) by (auto simp: state_within_def)

lemma change_within:
  assumes "change_reservation code rid g f db = Inr (x, db')" and "\<And>r. rv_id (f r) = rv_id r"
    and "\<And>r. g r \<Longrightarrow> rv_state (f r) \<in> insert (rv_state r) S"
  shows "state_within S rid db db'"
proof -
  from assms(1) obtain n where "update_reservation rid g f db = Inr (n, db')"
    by (auto simp: change_reservation_def and_then_eq_Inr split: if_splits)
  from update_within [OF this assms(2,3)] show ?thesis .
qed

lemma release_within: "state_within {Rv_released} (rl_reservationId i) db (snd (releasePrivateReservation i db))"
proof (cases "releasePrivateReservation i db")
  case (Pair res db')
  have "state_within {Rv_released} (rl_reservationId i) db db'"
    if "release_reservation i db = Inr (x, db')" for x
  proof (cases "db' = db")
    case False
    with that have "change_reservation ''reservation_state_conflict'' (rl_reservationId i)
              (\<lambda>r. rv_state r = Rv_held \<or> rv_state r = Rv_reconcile_required)
              (\<lambda>r. r\<lparr>rv_state := Rv_released, rv_truth := T_not_started,
                     rv_invocation := coalesce (rv_invocation r) (rl_invocationId i),
                     rv_attempt := coalesce (rv_attempt r) (rl_attemptId i),
                     rv_proof := Some (rl_proofRef i), rv_updated := rl_nowMs i\<rparr>) db = Inr (x, db')"
      by (auto simp: release_reservation_def body_simps split: if_splits)
    then show ?thesis by (rule change_within) simp_all
  qed simp
  with validated_result [OF Pair [unfolded releasePrivateReservation_def]] Pair show ?thesis by auto
qed

lemma commit_within: "state_within {Rv_committed} (at_reservationId a) db (snd (commitPrivateDispatch a db))"
proof (cases "commitPrivateDispatch a db")
  case (Pair res db')
  have "state_within {Rv_committed} (at_reservationId a) db db'" if "commit_dispatch a db = Inr (x, db')" for x
  proof (cases "db' = db")
    case False
    with that have "change_reservation ''dispatch_without_reservation'' (at_reservationId a)
              (\<lambda>r. (rv_state r = Rv_held \<or> rv_state r = Rv_reconcile_required) \<and>
                   (rv_truth r = T_not_started \<or> rv_truth r = T_unknown) \<and> is_bound_to a r)
              (\<lambda>r. r\<lparr>rv_state := Rv_committed, rv_truth := T_attempted, rv_updated := at_nowMs a\<rparr>) db = Inr (x, db')"
      by (auto simp: commit_dispatch_def body_simps split: if_splits)
    then show ?thesis by (rule change_within) simp_all
  qed simp
  with validated_result [OF Pair [unfolded commitPrivateDispatch_def]] Pair show ?thesis by auto
qed

lemma response_within: "state_within {} (at_reservationId a) db (snd (recordPrivateProviderResponse a db))"
proof (cases "recordPrivateProviderResponse a db")
  case (Pair res db')
  have "state_within {} (at_reservationId a) db db'" if "record_response a db = Inr (x, db')" for x
  proof (cases "db' = db")
    case False
    with that obtain n where "update_reservation (at_reservationId a)
                (\<lambda>r. rv_state r = Rv_committed \<and> is_bound_to a r)
                (\<lambda>r. r\<lparr>rv_truth := T_responded, rv_updated := at_nowMs a\<rparr>) db = Inr (n, db')"
      by (auto simp: record_response_def body_simps split: if_splits)
    then show ?thesis by (rule update_within) simp_all
  qed simp
  with validated_result [OF Pair [unfolded recordPrivateProviderResponse_def]] Pair show ?thesis by auto
qed

lemma unknown_within: "state_within {Rv_reconcile_required} rid db (snd (markPrivateReservationUnknown rid now db))"
proof (cases "markPrivateReservationUnknown rid now db")
  case (Pair res db')
  have "state_within {Rv_reconcile_required} rid db db'" if "mark_unknown rid now db = Inr (x, db')" for x
  proof (cases "db' = db")
    case False
    with that obtain n where "update_reservation rid (\<lambda>r. rv_state r = Rv_held)
         (\<lambda>r. r\<lparr>rv_state := Rv_reconcile_required, rv_truth := T_unknown, rv_updated := now\<rparr>) db = Inr (n, db')"
      by (auto simp: mark_unknown_def body_simps split: if_splits)
    then show ?thesis by (rule update_within) simp_all
  qed simp
  with validated_result [OF Pair [unfolded markPrivateReservationUnknown_def]] Pair show ?thesis by auto
qed

section \<open>Recovery of one reservation\<close>

lemma try_release_within: "state_within {Rv_released} (rl_reservationId i) (snd s) (snd (try_release i s))"
  using release_within [of i "snd s"] by (auto simp: try_release_def split: prod.split sum.split)

lemma keep_unknown_within: "state_within {Rv_reconcile_required} rid (snd s) (snd (keep_unknown rid now s))"
  using unknown_within [of rid "snd s" now] by (auto simp: keep_unknown_def Let_def split: prod.split option.split)

lemma commit_from_receipt_within:
  "state_within {Rv_committed, Rv_reconcile_required} (rv_id r) (snd s) (snd (commit_from_receipt r truth now s))"
proof -
  obtain res db where s: "s = (res, db)" by fastforce
  obtain x1 db1 where c: "commitPrivateDispatch (attempt_of r now) db = (x1, db1)" by fastforce
  obtain x2 db2 where p: "recordPrivateProviderResponse (attempt_of r now) db1 = (x2, db2)" by fastforce
  have w1: "state_within {Rv_committed} (rv_id r) db db1"
    using commit_within [of "attempt_of r now" db] c by (simp add: attempt_of_def)
  have w2: "state_within {} (rv_id r) db1 db2"
    using response_within [of "attempt_of r now" db1] p by (simp add: attempt_of_def)
  have w12: "state_within {Rv_committed} (rv_id r) db db2" using state_within_trans [OF w1 w2] by simp
  have k: "state_within {Rv_committed, Rv_reconcile_required} (rv_id r) db
      (snd (keep_unknown (rv_id r) now (res, db')))" if "state_within {Rv_committed} (rv_id r) db db'" for db'
    using state_within_trans [OF that] keep_unknown_within [of "rv_id r" "(res, db')" now] by fastforce
  have m: "state_within {Rv_committed, Rv_reconcile_required} (rv_id r) db db'"
      if "state_within {Rv_committed} (rv_id r) db db'" for db'
    using that by (rule state_within_mono) simp
  show ?thesis
    using c p k [OF w1] k [OF w12] m [OF w1] m [OF w12]
    by (cases x1; cases x2) (simp_all add: s commit_from_receipt_def Let_def)
qed

text \<open>What recovery needs to release or to commit a reservation.\<close>

definition releasable :: "receipt_resolver \<Rightarrow> continuation_tables \<Rightarrow> wake_db \<Rightarrow> reservation_row \<Rightarrow> bool" where
  "releasable resolve ct k r \<longleftrightarrow>
     text_of (rv_invocation r) = [] \<and> rv_truth r = T_not_bound \<or>
     rv_state r = Rv_held \<and> rv_truth r = T_not_started \<and> rv_proof r \<noteq> None \<and>
       resolveDurableContinuationOwner ct k (rv_wake r) (rv_conversation r) = Proven_no_owner \<or>
     (\<exists>receipt. resolve (Parent_subject r) = Some receipt \<and> rt_truth receipt = T_not_started)"

definition dispatched_by_receipt :: "receipt_resolver \<Rightarrow> reservation_row \<Rightarrow> bool" where
  "dispatched_by_receipt resolve r \<longleftrightarrow> (\<exists>receipt. resolve (Parent_subject r) = Some receipt \<and>
     (rt_truth receipt = T_attempted \<or> rt_truth receipt = T_responded))"

definition justified ::
  "receipt_resolver \<Rightarrow> continuation_tables \<Rightarrow> wake_db \<Rightarrow> reservation_row \<Rightarrow> reservation_row \<Rightarrow> bool" where
  "justified resolve ct k r r' \<longleftrightarrow>
     (rv_state r' = Rv_released \<longrightarrow> rv_state r = Rv_released \<or> releasable resolve ct k r) \<and>
     (rv_state r' = Rv_committed \<longrightarrow> rv_state r = Rv_committed \<or> dispatched_by_receipt resolve r)"

lemma within_justified:
  assumes "state_within S rid db db'" and "getPrivateReservation db rid = Some r"
    and "Rv_released \<in> S \<Longrightarrow> releasable resolve ct k r" and "Rv_committed \<in> S \<Longrightarrow> dispatched_by_receipt resolve r"
  shows "only_row rid db db' \<and> (\<exists>r'. getPrivateReservation db' rid = Some r' \<and> justified resolve ct k r r')"
  using assms unfolding state_within_def justified_def by (metis insert_iff)

lemma settle_within:
  assumes "rv_id r = rid"
  shows "\<exists>S. state_within S rid (snd s) (snd (settle_by_receipt resolve r now s)) \<and>
    (Rv_released \<in> S \<longrightarrow> releasable resolve ct k r) \<and> (Rv_committed \<in> S \<longrightarrow> dispatched_by_receipt resolve r)"
proof -
  have keep: "\<exists>S. state_within S rid (snd s) (snd (keep_unknown rid now s)) \<and>
      (Rv_released \<in> S \<longrightarrow> releasable resolve ct k r) \<and> (Rv_committed \<in> S \<longrightarrow> dispatched_by_receipt resolve r)"
    by (rule exI [of _ "{Rv_reconcile_required}"]) (simp add: keep_unknown_within)
  show ?thesis
  proof (cases "resolve (Parent_subject r)")
    case None
    with keep assms show ?thesis by (simp add: settle_by_receipt_def)
  next
    case (Some receipt)
    consider (release) "rt_truth receipt = T_not_started" "text_of (rt_proofRef receipt) \<noteq> []"
      | (commit) "rt_truth receipt = T_attempted \<or> rt_truth receipt = T_responded"
          "text_of (rv_invocation r) \<noteq> []" "text_of (rv_attempt r) \<noteq> []"
      | (unknown) "settle_by_receipt resolve r now s = keep_unknown rid now s"
      using Some assms
      by (cases "rt_truth receipt = T_not_started \<and> text_of (rt_proofRef receipt) \<noteq> []";
          cases "(rt_truth receipt = T_attempted \<or> rt_truth receipt = T_responded) \<and>
            text_of (rv_invocation r) \<noteq> [] \<and> text_of (rv_attempt r) \<noteq> []")
        (auto simp: settle_by_receipt_def)
    then show ?thesis
    proof cases
      case release
      have "state_within {Rv_released} rid (snd s) (snd (settle_by_receipt resolve r now s))"
        using try_release_within [of "release_of r (text_of (rt_proofRef receipt)) now" s] release Some assms
        by (simp add: settle_by_receipt_def release_of_def)
      moreover have "releasable resolve ct k r" using release Some by (auto simp: releasable_def)
      ultimately show ?thesis by (intro exI [of _ "{Rv_released}"]) simp
    next
      case commit
      have "state_within {Rv_committed, Rv_reconcile_required} rid (snd s) (snd (settle_by_receipt resolve r now s))"
        using commit_from_receipt_within [of r s "rt_truth receipt" now] commit Some assms
        by (auto simp: settle_by_receipt_def)
      moreover have "dispatched_by_receipt resolve r" using commit Some by (auto simp: dispatched_by_receipt_def)
      ultimately show ?thesis by (intro exI [of _ "{Rv_committed, Rv_reconcile_required}"]) simp
    next
      case unknown
      with keep show ?thesis by simp
    qed
  qed
qed

lemma recover_reservation_one:
  assumes "getPrivateReservation (snd s) rid = Some r"
  shows "\<exists>S. state_within S rid (snd s) (snd (recover_reservation sha resolve ct now rid s)) \<and>
    (Rv_released \<in> S \<longrightarrow> releasable resolve ct (bd_kernel (snd s)) r) \<and>
    (Rv_committed \<in> S \<longrightarrow> dispatched_by_receipt resolve r)"
proof -
  obtain res db where s: "s = (res, db)" by fastforce
  let ?out = "recover_reservation sha resolve ct now rid s"
  have id: "rv_id r = rid" using getPrivateReservation_row [OF assms] by simp
  have by_release: ?thesis if "?out = try_release i s" "rl_reservationId i = rid" "releasable resolve ct (bd_kernel db) r" for i
    using try_release_within [of i s] that by (intro exI [of _ "{Rv_released}"]) (simp add: s)
  consider "snd ?out = db"
    | i where "?out = try_release i s" "rl_reservationId i = rid" "releasable resolve ct (bd_kernel db) r"
    | "?out = settle_by_receipt resolve r now s"
  proof (cases "rid = [] \<or> (\<exists>e. requireReservationBudgetPolicy sha db rid = Inl e) \<or>
      (rv_state r \<noteq> Rv_held \<and> rv_state r \<noteq> Rv_reconcile_required)")
    case True
    then have "snd ?out = db"
      using assms by (cases "requireReservationBudgetPolicy sha db rid")
        (auto simp: recover_reservation_def s Let_def)
    then show thesis by (rule that(1))
  next
    case False
    then obtain u where pol: "requireReservationBudgetPolicy sha db rid = Inr u" and "rid \<noteq> []"
        and st: "\<not> (rv_state r \<noteq> Rv_held \<and> rv_state r \<noteq> Rv_reconcile_required)"
      by (cases "requireReservationBudgetPolicy sha db rid") auto
    note out = recover_reservation_def s prod.case Let_def pol sum.case if_False st
    show thesis
    proof (cases "text_of (rv_invocation r) = [] \<and> rv_truth r = T_not_bound")
      case True
      let ?i = "(release_of r (unbound_proof rid) now)\<lparr>rl_invocationId := None, rl_attemptId := None\<rparr>"
      have "?out = try_release ?i s"
        using True \<open>rid \<noteq> []\<close> assms st pol by (auto simp: recover_reservation_def s)
      then show thesis
        using True id by (intro that(2) [of ?i]) (simp_all add: release_of_def releasable_def)
    next
      case unbound: False
      show thesis
      proof (cases "rv_state r = Rv_held \<and> rv_truth r = T_not_started \<and> rv_proof r \<noteq> None")
        case True
        show thesis
        proof (cases "resolveDurableContinuationOwner ct (bd_kernel db) (rv_wake r) (rv_conversation r)")
          case Proven_no_owner
          then have "?out = try_release (release_of r (text_of (rv_proof r)) now) s"
            using True unbound \<open>rid \<noteq> []\<close> assms st pol by (auto simp: recover_reservation_def s)
          then show thesis
            using True Proven_no_owner id
            by (intro that(2) [of "release_of r (text_of (rv_proof r)) now"]) (simp_all add: release_of_def releasable_def)
        qed (use True unbound \<open>rid \<noteq> []\<close> assms st pol in
              \<open>intro that(1); auto simp: recover_reservation_def s Let_def\<close>)+
      next
        case False
        then have "?out = settle_by_receipt resolve r now s"
          using unbound \<open>rid \<noteq> []\<close> assms st pol by (auto simp: recover_reservation_def s)
        then show thesis by (rule that(3))
      qed
    qed
  qed
  then show ?thesis
  proof cases
    case 1
    then show ?thesis by (intro exI [of _ "{}"]) (simp add: s)
  next
    case 2
    then show ?thesis by (rule by_release)
  next
    case 3
    with settle_within [OF id, of s resolve now ct "bd_kernel db"] show ?thesis by (simp add: s)
  qed
qed

lemma recover_reservation_missing:
  "getPrivateReservation (snd s) rid = None \<Longrightarrow> snd (recover_reservation sha resolve ct now rid s) = snd s"
  by (auto simp: recover_reservation_def requireReservationBudgetPolicy_def reservationRequired_def
      Let_def split: prod.split)

lemma recover_reservations:
  assumes "distinct ids"
  shows "bd_kernel (snd (fold (recover_reservation sha resolve ct now) ids s)) = bd_kernel (snd s) \<and>
    (\<forall>r rid. getPrivateReservation (snd s) rid = Some r \<longrightarrow>
      (\<exists>r'. getPrivateReservation (snd (fold (recover_reservation sha resolve ct now) ids s)) rid = Some r' \<and>
        (r' = r \<or> rid \<in> set ids \<and> justified resolve ct (bd_kernel (snd s)) r r')))"
  using assms
proof (induction ids arbitrary: s)
  case (Cons x ids)
  define s1 where "s1 = recover_reservation sha resolve ct now x s"
  have only: "only_row x (snd s) (snd s1)"
    using recover_reservation_one [of s x _ sha resolve ct now] recover_reservation_missing [of s x]
    by (cases "getPrivateReservation (snd s) x") (auto simp: s1_def state_within_def)
  have k: "bd_kernel (snd s1) = bd_kernel (snd s)" using only by (simp add: only_row_def)
  from Cons.IH [of s1] Cons.prems
  have kernel: "bd_kernel (snd (fold (recover_reservation sha resolve ct now) ids s1)) = bd_kernel (snd s1)"
    and rest: "\<And>r rid. getPrivateReservation (snd s1) rid = Some r \<Longrightarrow>
      \<exists>r'. getPrivateReservation (snd (fold (recover_reservation sha resolve ct now) ids s1)) rid = Some r' \<and>
        (r' = r \<or> rid \<in> set ids \<and> justified resolve ct (bd_kernel (snd s)) r r')"
    by (auto simp: k)
  have "\<exists>r'. getPrivateReservation (snd (fold (recover_reservation sha resolve ct now) ids s1)) rid = Some r' \<and>
      (r' = r \<or> rid \<in> set (x # ids) \<and> justified resolve ct (bd_kernel (snd s)) r r')"
    if r: "getPrivateReservation (snd s) rid = Some r" for r rid
  proof (cases "rid = x")
    case False
    with only r have "getPrivateReservation (snd s1) rid = Some r" by (simp add: only_row_def)
    from rest [OF this] show ?thesis by auto
  next
    case True
    from recover_reservation_one [of s x r sha resolve ct now] r True obtain S
      where "state_within S x (snd s) (snd s1)" "Rv_released \<in> S \<longrightarrow> releasable resolve ct (bd_kernel (snd s)) r"
        "Rv_committed \<in> S \<longrightarrow> dispatched_by_receipt resolve r" by (auto simp: s1_def)
    with within_justified [of S x "snd s" "snd s1" r] r True obtain r1
      where r1: "getPrivateReservation (snd s1) x = Some r1" "justified resolve ct (bd_kernel (snd s)) r r1" by blast
    from rest [OF r1(1)] Cons.prems r1(2) True show ?thesis by auto
  qed
  with kernel k show ?case by (simp add: s1_def)
qed simp

section \<open>Expiry and the further attempts\<close>

definition expired_only :: "budget_db \<Rightarrow> budget_db \<Rightarrow> bool" where
  "expired_only db db' \<longleftrightarrow> bd_kernel db' = bd_kernel db \<and>
     (\<forall>rid r. getPrivateReservation db rid = Some r \<longrightarrow>
       (\<exists>r'. getPrivateReservation db' rid = Some r' \<and> (r' = r \<or> rv_state r' = Rv_expired)))"

lemma expired_only_refl [simp]: "expired_only db db"
  by (simp add: expired_only_def)

lemma expired_only_trans: "expired_only db db1 \<Longrightarrow> expired_only db1 db2 \<Longrightarrow> expired_only db db2"
  unfolding expired_only_def by metis

lemma expire_loop_only: "expire_loop sha t rows n db = Inr (m, db') \<Longrightarrow> expired_only db db'"
proof (induction rows arbitrary: n db)
  case (Cons r rows)
  let ?f = "\<lambda>r. r\<lparr>rv_state := Rv_expired, rv_updated := t\<rparr>"
  from Cons.prems obtain n1 db1 where rest: "expire_loop sha t rows n1 db1 = Inr (m, db')"
      and "db1 = db \<or> (\<exists>c. update_reservation (rv_id r) (\<lambda>_. True) ?f db = Inr (c, db1))"
    by (auto simp: and_then_eq_Inr split: if_splits)
  moreover have "expired_only db db1" if "update_reservation (rv_id r) (\<lambda>_. True) ?f db = Inr (c, db1)" for c
    using update_reservation_result [OF that] unfolding expired_only_def only_row_def
    by (auto, case_tac "rid = rv_id r") auto
  ultimately have "expired_only db db1" by auto
  with Cons.IH [OF rest] show ?case by (rule expired_only_trans [rotated])
qed simp

lemma expire_private_only: "expired_only db (snd (expirePrivateReservations sha pid wall db))"
proof -
  have "expired_only db db'" if e: "expire_policy sha pid wall p db = Inr (x, db')" for p x db'
  proof (cases "clockRow db pid")
    case None
    with e show ?thesis by (simp add: expire_policy_def)
  next
    case (Some c)
    with e obtain time st d db1 n
      where adv: "advancePolicyClock sha pid wall (Some (pw_fingerprint p)) db = Inr ((time, st, d), db1)"
        and e: "expireInTransaction sha pid time db1 = Inr (n, db')"
      by (auto simp: expire_policy_def and_then_eq_Inr)
    from clock_advance_effect [OF adv] have "expired_only db db1"
      by (auto simp: expired_only_def getPrivateReservation_def)
    with expire_loop_only [OF e [unfolded expireInTransaction_def]] show ?thesis by (rule expired_only_trans [rotated])
  qed
  then show ?thesis
    by (auto simp: expirePrivateReservations_def in_immediate_transaction_def split: sum.split)
qed

lemma update_binding_rows: "update_binding rid ivk g f db = Inr (n, db') \<Longrightarrow> bd_reservations db' = bd_reservations db"
  by (auto simp: update_binding_def Let_def and_then_eq_Inr store_bindings_eq)

lemma binding_writes_rows:
  "set_binding rid ivk g f db = Inr (x, db') \<Longrightarrow> bd_reservations db' = bd_reservations db"
  "change_binding code rid ivk g f db = Inr (x, db') \<Longrightarrow> bd_reservations db' = bd_reservations db"
  by (auto simp: set_binding_def change_binding_def and_then_eq_Inr dest!: update_binding_rows reload_binding_eq
      split: if_splits)

lemma release_repair_rows:
  "bd_reservations (snd (releasePrivateRepairAttempt rid ivk pr now db)) = bd_reservations db"
proof (cases "releasePrivateRepairAttempt rid ivk pr now db")
  case (Pair res db')
  have "bd_reservations db' = bd_reservations db" if "release_repair rid ivk pr now db = Inr (x, db')" for x
    using that by (auto simp: release_repair_def and_then_eq_Inr dest: binding_writes_rows split: if_splits)
  with validated_result [OF Pair [unfolded releasePrivateRepairAttempt_def]] Pair show ?thesis by auto
qed

lemma reconcile_repair_rows:
  "bd_reservations (snd (reconcilePrivateRepairAttempt rid ivk target requestId now db)) = bd_reservations db"
proof (cases "reconcilePrivateRepairAttempt rid ivk target requestId now db")
  case (Pair res db')
  have "bd_reservations db' = bd_reservations db"
    if "reconcile_repair rid ivk target requestId now db = Inr (x, db')" for x
    using that by (auto simp: reconcile_repair_def reconcile_responded_def and_then_eq_Inr
        dest: binding_writes_rows split: if_splits)
  with validated_result [OF Pair [unfolded reconcilePrivateRepairAttempt_def]] Pair show ?thesis by auto
qed

lemma recover_child_rows:
  "bd_reservations (snd (recover_child sha resolve now child s)) = bd_reservations (snd s)"
proof -
  obtain res db where s: "s = (res, db)" by fastforce
  have c: "bd_reservations (snd (count_released_repair (releasePrivateRepairAttempt a b c now db) res)) =
      bd_reservations db" for a b c
    using release_repair_rows [of a b c now db] by (auto simp: count_released_repair_def split: prod.split sum.split)
  have r: "bd_reservations (snd (case reconcilePrivateRepairAttempt a b t d now db of
      (Inr _, db1) \<Rightarrow> (res\<lparr>br_committedRepairs := br_committedRepairs res + 1\<rparr>, db1) | (Inl _, db1) \<Rightarrow> (res, db1))) =
      bd_reservations db" for a b t d
    using reconcile_repair_rows [of a b t d now db] by (auto split: prod.split sum.split)
  have "bd_reservations (snd (settle_child resolve a b x now s)) = bd_reservations db" for a b x
    by (cases "resolve (Child_subject x)") (simp_all add: settle_child_def s Let_def c r)
  then show ?thesis by (auto simp: recover_child_def s split: sum.split option.split)
qed

section \<open>Recovery is a sequence of operations\<close>

lemma steps_try_release: "(budget_step sha)\<^sup>*\<^sup>* (snd s) (snd (try_release i s))"
  using step_release [of sha "snd s" i] by (auto simp: try_release_def split: prod.split sum.split)

lemma steps_keep_unknown: "(budget_step sha)\<^sup>*\<^sup>* (snd s) (snd (keep_unknown rid now s))"
  using step_unknown [of sha "snd s" rid now]
  by (auto simp: keep_unknown_def Let_def split: prod.split option.split)

lemma steps_commit_from_receipt: "(budget_step sha)\<^sup>*\<^sup>* (snd s) (snd (commit_from_receipt r truth now s))"
proof -
  obtain res db where s: "s = (res, db)" by fastforce
  obtain x1 db1 where c: "commitPrivateDispatch (attempt_of r now) db = (x1, db1)" by fastforce
  obtain x2 db2 where p: "recordPrivateProviderResponse (attempt_of r now) db1 = (x2, db2)" by fastforce
  have 1: "(budget_step sha)\<^sup>*\<^sup>* db db1" using step_commit [of sha db "attempt_of r now"] c by auto
  moreover have "budget_step sha db1 db2" using step_response [of sha db1 "attempt_of r now"] p by simp
  ultimately have 2: "(budget_step sha)\<^sup>*\<^sup>* db db2" by simp
  have k: "(budget_step sha)\<^sup>*\<^sup>* db (snd (keep_unknown (rv_id r) now (res, db')))"
    if "(budget_step sha)\<^sup>*\<^sup>* db db'" for db'
    using rtranclp_trans [OF that] steps_keep_unknown [of sha "(res, db')" "rv_id r" now] by simp
  show ?thesis
    using c p 1 2 k [OF 1] k [OF 2] by (cases x1; cases x2) (simp_all add: s commit_from_receipt_def Let_def)
qed

lemma steps_settle: "(budget_step sha)\<^sup>*\<^sup>* (snd s) (snd (settle_by_receipt resolve r now s))"
  by (simp add: settle_by_receipt_def steps_try_release steps_keep_unknown steps_commit_from_receipt
      split: option.split)

lemma steps_recover_reservation:
  "(budget_step sha)\<^sup>*\<^sup>* (snd s) (snd (recover_reservation sha resolve ct now rid s))"
proof -
  obtain res db where s: "s = (res, db)" by fastforce
  have t: "(budget_step sha)\<^sup>*\<^sup>* db (snd (try_release i (res, db)))" for i
    using steps_try_release [of sha "(res, db)" i] by simp
  have u: "(budget_step sha)\<^sup>*\<^sup>* db (snd (settle_by_receipt resolve r now (res, db)))" for r
    using steps_settle [of sha "(res, db)" resolve r now] by simp
  show ?thesis
    by (simp add: recover_reservation_def s Let_def t u split: sum.split option.split owner_status.split)
qed

lemma steps_expire_for_recovery: "(budget_step sha)\<^sup>*\<^sup>* (snd s) (snd (expire_for_recovery sha now pid s))"
  using step_expire [of sha "snd s" pid now]
  by (auto simp: expire_for_recovery_def split: prod.split sum.split)

lemma steps_recover_child: "(budget_step sha)\<^sup>*\<^sup>* (snd s) (snd (recover_child sha resolve now child s))"
proof -
  obtain res db where s: "s = (res, db)" by fastforce
  have c: "(budget_step sha)\<^sup>*\<^sup>* db (snd (count_released_repair (releasePrivateRepairAttempt a b c now db) res))" for a b c
    using step_release_repair [of sha db a b c now] by (auto simp: count_released_repair_def split: prod.split sum.split)
  have r: "(budget_step sha)\<^sup>*\<^sup>* db (snd (case reconcilePrivateRepairAttempt a b t d now db of
      (Inr _, db1) \<Rightarrow> (res\<lparr>br_committedRepairs := br_committedRepairs res + 1\<rparr>, db1) | (Inl _, db1) \<Rightarrow> (res, db1)))"
    for a b t d
    using step_reconcile_repair [of sha db a b t d now] by (auto split: prod.split sum.split)
  have "(budget_step sha)\<^sup>*\<^sup>* db (snd (settle_child resolve a b x now s))" for a b x
    by (cases "resolve (Child_subject x)") (simp_all add: settle_child_def s Let_def c r)
  then show ?thesis by (auto simp: recover_child_def s split: sum.split option.split)
qed

lemma steps_fold:
  assumes "\<And>x s. (budget_step sha)\<^sup>*\<^sup>* (snd s) (snd (f x s))"
  shows "(budget_step sha)\<^sup>*\<^sup>* (snd s) (snd (fold f xs s))"
proof (induction xs arbitrary: s)
  case (Cons x xs)
  from assms [of s x] Cons [of "f x s"] show ?case by (simp add: rtranclp_trans)
qed simp

section \<open>Property\<close>

text \<open>
  C23. Recovery never guesses. It is a sequence of budget operations, so that the bounds hold
  through it, and of every reservation it finds: it releases one only if the reservation was
  never bound to an invocation, or carries a no-dispatch proof and provably has no owner left,
  or a durable receipt says the dispatch never started; it commits one only on a receipt that
  says the dispatch was attempted or answered.
\<close>

theorem recovery_never_guesses:
  assumes "(budget_step sha)\<^sup>*\<^sup>* (initial_budget sha k) db"
    and "recoverPrivateBudget sha resolve ct now db = (res, db')"
    and "getPrivateReservation db rid = Some r"
  shows "(budget_step sha)\<^sup>*\<^sup>* db db' \<and>
    (\<exists>r'. getPrivateReservation db' rid = Some r' \<and>
      (rv_state r' = Rv_released \<longrightarrow> rv_state r = Rv_released \<or> releasable resolve ct (bd_kernel db) r) \<and>
      (rv_state r' = Rv_committed \<longrightarrow> rv_state r = Rv_committed \<or> dispatched_by_receipt resolve r))"
proof -
  define s1 where "s1 = fold (expire_for_recovery sha now) (policies_of db) (no_recovery, db)"
  define s2 where "s2 = fold (recover_reservation sha resolve ct now) (stranded (snd s1)) s1"
  have "(res, db') = fold (recover_child sha resolve now) (stranded_children (snd s2)) s2"
    using assms(2) by (simp add: recoverPrivateBudget_def s1_def s2_def Let_def)
  from arg_cong [OF this, of snd]
  have out: "db' = snd (fold (recover_child sha resolve now) (stranded_children (snd s2)) s2)" by simp
  have steps1: "(budget_step sha)\<^sup>*\<^sup>* db (snd s1)"
    unfolding s1_def using steps_fold [OF steps_expire_for_recovery, of sha "(no_recovery, db)"] by simp
  have steps2: "(budget_step sha)\<^sup>*\<^sup>* (snd s1) (snd s2)"
    unfolding s2_def by (rule steps_fold [OF steps_recover_reservation])
  have "(budget_step sha)\<^sup>*\<^sup>* (snd s2) db'"
    unfolding out by (rule steps_fold [OF steps_recover_child])
  with steps1 steps2 have "(budget_step sha)\<^sup>*\<^sup>* db db'" by simp
  moreover have "bd_reservations (snd (fold (recover_child sha resolve now) cs s)) = bd_reservations (snd s)" for cs s
    by (induction cs arbitrary: s) (simp_all add: recover_child_rows)
  then have same: "getPrivateReservation db' rid = getPrivateReservation (snd s2) rid"
    unfolding out getPrivateReservation_def by simp
  have "expired_only (snd s) (snd (fold (expire_for_recovery sha now) ps s))" for ps s
  proof (induction ps arbitrary: s)
    case (Cons p ps)
    have "expired_only (snd s) (snd (expire_for_recovery sha now p s))"
      using expire_private_only [of "snd s" sha p now]
      by (auto simp: expire_for_recovery_def split: prod.split sum.split)
    with Cons [of "expire_for_recovery sha now p s"] show ?case by (simp add: expired_only_trans)
  qed simp
  from this [of "(no_recovery, db)" "policies_of db"] have ex: "expired_only db (snd s1)" by (simp add: s1_def)
  then obtain r1 where r1: "getPrivateReservation (snd s1) rid = Some r1" "r1 = r \<or> rv_state r1 = Rv_expired"
    using assms(3) by (auto simp: expired_only_def)
  have inv1: "budget_inv (snd s1)" using reachable_changes [OF rtranclp_trans [OF assms(1) steps1]] .
  then have "distinct (map rv_id (bd_reservations (snd s1)))"
    by (simp add: budget_inv_def capacity_inv_def reservation_indexes_def)
  then have d: "distinct (stranded (snd s1))"
    by (auto simp: stranded_def distinct_map inj_on_def)
  from recover_reservations [OF d, of sha resolve ct now s1] r1(1) obtain r2
    where r2: "getPrivateReservation (snd s2) rid = Some r2"
      "r2 = r1 \<or> rid \<in> set (stranded (snd s1)) \<and> justified resolve ct (bd_kernel (snd s1)) r1 r2"
    unfolding s2_def by blast
  have "r1 = r" if "rid \<in> set (stranded (snd s1))"
  proof -
    from that obtain x where "x \<in> set (bd_reservations (snd s1))" "rv_id x = rid"
        "rv_state x = Rv_held \<or> rv_state x = Rv_reconcile_required"
      by (auto simp: stranded_def)
    then have "rv_state r1 \<noteq> Rv_expired"
      using r1(1) sql_get_key [OF \<open>distinct (map rv_id _)\<close>, of x rid] by (auto simp: getPrivateReservation_def)
    with r1(2) show ?thesis by simp
  qed
  moreover have "bd_kernel (snd s1) = bd_kernel db" using ex by (simp add: expired_only_def)
  ultimately show ?thesis
    using r1(2) r2 same by (auto simp: justified_def)
qed

definition no_tables :: continuation_tables where
  "no_tables = \<lparr>ct_outbox = [], ct_undertakings = []\<rparr>"

definition sample_unbound :: "budget_recovery \<times> budget_db" where
  "sample_unbound = recoverPrivateBudget sample_sha (\<lambda>_. None) no_tables 2000 sample_reserved"

theorem recovery_never_guesses_witness:
  "releasable (\<lambda>_. None) no_tables (bd_kernel sample_reserved) (hd (bd_reservations sample_reserved))"
proof -
  let ?rid = "''private-reservation:u''" and ?r = "hd (bd_reservations sample_reserved)"
  have reach: "(budget_step sample_sha)\<^sup>*\<^sup>* (initial_budget sample_sha sample_kernel) sample_reserved"
    unfolding sample_reserved_def by (rule r_into_rtranclp, rule step_reserve)
  have "map_option rv_state (getPrivateReservation sample_reserved ?rid) = Some Rv_held"
    and after: "map_option rv_state (getPrivateReservation (snd sample_unbound) ?rid) = Some Rv_released"
    by code_simp+
  moreover have "map rv_id (bd_reservations sample_reserved) = [?rid]" by code_simp
  ultimately have row: "getPrivateReservation sample_reserved ?rid = Some ?r" and held: "rv_state ?r = Rv_held"
    by (auto simp: getPrivateReservation_def map_eq_Cons_conv)
  from recovery_never_guesses [OF reach _ row, of "\<lambda>_. None" no_tables 2000 "fst sample_unbound" "snd sample_unbound"]
    after held show ?thesis by (auto simp: sample_unbound_def)
qed

end
