(* ===== verification/Canonical_Payload.thy ===== *)
theory Canonical_Payload
  imports Json_Text
begin

text \<open>
  The canonical text of an owner-signed sandbox policy, \<^verbatim>\<open>sandbox-policy/src/canonical-payload.ts\<close>:
  \<open>serialize\<close> with its refusals, and what the signature relies on: the text does not depend on the
  order of the keys, and two payloads with the same text are the same payload. A \<open>js_value\<close> is
  what \<open>JSON.parse\<close> yields, so it is finite and its objects are plain; \<open>serialize\<close> stops at the
  first refusal, so there is exactly one reason.
\<close>

section \<open>The serializer\<close>

definition SANDBOX_POLICY_SIGNATURE_PREFIX :: string where
  "SANDBOX_POLICY_SIGNATURE_PREFIX = ''ASHLEY-SANDBOX-DELEGATED-POLICY-v1'' @ [CHR 10]"

text \<open>The loop over the parts: the first refusal ends it.\<close>

fun collect_parts :: "(string + 'a) list \<Rightarrow> string + 'a list" where
  "collect_parts [] = Inr []"
| "collect_parts (p # ps) =
     and_then p (\<lambda>x. and_then (collect_parts ps) (\<lambda>xs. Inr (x # xs)))"

function serialize :: "js_value \<Rightarrow> string + string" where
  "serialize JNull = Inr ''null''"
| "serialize (JStr s) = Inr (json_string_text s)"
| "serialize (JNum n) = (if finite_num n then Inr (num_text n) else Inl ''non_finite_number'')"
| "serialize (JBool b) = Inr (if b then ''true'' else ''false'')"
| "serialize JUndefined = Inl ''undefined_unsupported''"
| "serialize (JArr vs) = and_then (collect_parts (map serialize vs)) (\<lambda>ps. Inr (list_text ps))"
| "serialize (JObj fs) =
     (if ''__proto__'' \<in> set (map fst fs) then Inl ''reserved_key''
      else and_then (collect_parts (map (\<lambda>f. and_then (serialize (snd f)) (\<lambda>p. Inr (field_text (fst f) p)))
             (sort_key fst fs))) (\<lambda>ps. Inr (object_text ps)))"
  by pat_completeness auto

termination serialize
proof (relation "measure size")
  show "(v, JArr vs) \<in> measure size" if "v \<in> set vs" for v vs
    using size_list_estimation' [OF that order_refl, of size] that by simp
  show "(snd f, JObj fs) \<in> measure size" if "f \<in> set (sort_key fst fs)" for f fs
    using that size_field [of f fs] by simp
qed simp

definition canonicalizeSandboxPolicyPayload :: "js_value \<Rightarrow> string list + string" where
  "canonicalizeSandboxPolicyPayload v =
     (case serialize v of Inl reason \<Rightarrow> Inl [reason] | Inr payload \<Rightarrow> Inr payload)"

section \<open>Specification: the payload up to the order of its keys\<close>

function canonical_value :: "js_value \<Rightarrow> js_value" where
  "canonical_value (JArr vs) = JArr (map canonical_value vs)"
| "canonical_value (JObj fs) = JObj (map (\<lambda>f. (fst f, canonical_value (snd f))) (sort_key fst fs))"
| "canonical_value JUndefined = JUndefined"
| "canonical_value JNull = JNull"
| "canonical_value (JBool b) = JBool b"
| "canonical_value (JNum n) = JNum n"
| "canonical_value (JStr s) = JStr s"
  by pat_completeness auto

termination canonical_value
proof (relation "measure size")
  show "(v, JArr vs) \<in> measure size" if "v \<in> set vs" for v vs
    using size_list_estimation' [OF that order_refl, of size] that by simp
  show "(snd f, JObj fs) \<in> measure size" if "f \<in> set (sort_key fst fs)" for f fs
    using that size_field [of f fs] by simp
qed simp

text \<open>Every number is the integer it prints as, or prints with a fraction or an exponent.\<close>

fun numbers_wf :: "js_value \<Rightarrow> bool" where
  "numbers_wf (JNum (NOther s)) = (finite_num (NOther s) \<longrightarrow> other_number s)"
| "numbers_wf (JArr vs) = list_all numbers_wf vs"
| "numbers_wf (JObj fs) = list_all (\<lambda>f. numbers_wf (snd f)) fs"
| "numbers_wf _ = True"

section \<open>Splitting a payload off\<close>

definition value_text :: "js_value \<Rightarrow> string \<Rightarrow> bool" where
  "value_text v t \<longleftrightarrow> serialize v = Inr t \<and> numbers_wf v"

definition member_text :: "string \<times> js_value \<Rightarrow> string \<Rightarrow> bool" where
  "member_text f t \<longleftrightarrow> (\<exists>p. value_text (snd f) p \<and> t = field_text (fst f) p)"

lemma collect_values:
  "collect_parts (map serialize vs) = Inr ts \<and> list_all numbers_wf vs \<longleftrightarrow> list_all2 value_text vs ts"
  by (induction vs arbitrary: ts) (auto simp: and_then_eq_Inr list_all2_Cons1 value_text_def)

lemma collect_members:
  "collect_parts (map (\<lambda>f. and_then (serialize (snd f)) (\<lambda>p. Inr (field_text (fst f) p))) fs) = Inr ts \<and>
     list_all (\<lambda>f. numbers_wf (snd f)) fs \<longleftrightarrow> list_all2 member_text fs ts"
  by (induction fs arbitrary: ts)
    (auto simp: and_then_eq_Inr list_all2_Cons1 value_text_def member_text_def)

lemma value_text_array:
  "value_text (JArr vs) t \<longleftrightarrow> (\<exists>ts. list_all2 value_text vs ts \<and> t = list_text ts)"
  unfolding collect_values [symmetric] by (auto simp: value_text_def and_then_eq_Inr)

lemma value_text_object:
  "value_text (JObj fs) t \<longleftrightarrow> ''__proto__'' \<notin> set (map fst fs) \<and>
     (\<exists>ts. list_all2 member_text (sort_key fst fs) ts \<and> t = object_text ts)"
proof -
  have "list_all (\<lambda>f. numbers_wf (snd f)) fs = list_all (\<lambda>f. numbers_wf (snd f)) (sort_key fst fs)"
    by (simp add: list_all_iff)
  then show ?thesis
    unfolding collect_members [symmetric] by (auto simp: value_text_def and_then_eq_Inr)
qed

text \<open>The first character of a text tells the kind of the value.\<close>

definition starter :: "js_value \<Rightarrow> char \<Rightarrow> bool" where
  "starter v c \<longleftrightarrow> (case v of JNull \<Rightarrow> c = CHR ''n'' | JBool b \<Rightarrow> c = (if b then CHR ''t'' else CHR ''f'')
     | JNum n \<Rightarrow> c \<in> num_chars | JStr s \<Rightarrow> c = CHR 0x22 | JArr vs \<Rightarrow> c = CHR ''['' | JObj fs \<Rightarrow> c = CHR ''{''
     | JUndefined \<Rightarrow> False)"

lemma num_text_neq_Nil: "wf_num n \<Longrightarrow> num_text n \<noteq> []"
  by (cases n) (auto simp: int_text_def digits_text.simps other_number_def)

lemma value_text_num: "value_text (JNum n) t \<longleftrightarrow> wf_num n \<and> finite_num n \<and> t = num_text n"
  by (cases n) (auto simp: value_text_def)

lemma value_text_start: "value_text v t \<Longrightarrow> \<exists>c cs. t = c # cs \<and> starter v c"
proof (cases v)
  case (JNum n)
  assume "value_text v t"
  with JNum have "wf_num n" "t = num_text n" by (auto simp: value_text_num)
  moreover from this obtain c cs where "num_text n = c # cs"
    using num_text_neq_Nil by (cases "num_text n") auto
  ultimately show ?thesis
    using JNum set_num_text [of n] by (auto simp: starter_def)
qed (auto simp: value_text_array value_text_object starter_def list_text_def object_text_def,
  auto simp: value_text_def json_string_text_def split: if_splits)

lemma starter_kind:
  "starter v c \<Longrightarrow> starter w c \<Longrightarrow>
     (v = JNull \<and> w = JNull) \<or> (\<exists>b. v = JBool b \<and> w = JBool b) \<or> (\<exists>n m. v = JNum n \<and> w = JNum m) \<or>
     (\<exists>s t. v = JStr s \<and> w = JStr t) \<or> (\<exists>vs ws. v = JArr vs \<and> w = JArr ws) \<or>
     (\<exists>fs gs. v = JObj fs \<and> w = JObj gs)"
  by (cases v; cases w) (auto simp: starter_def num_chars_def digit_chars_def split: if_splits)

lemma starter_not_close: "starter v c \<Longrightarrow> c \<noteq> CHR '']'' \<and> c \<noteq> CHR ''}''"
  by (cases v) (auto simp: starter_def num_chars_def digit_chars_def split: if_splits)

interpretation array: list_format value_text canonical_value "CHR '']''"
proof unfold_locales
  show "t \<noteq> [] \<and> hd t \<noteq> CHR '']''" if "value_text v t" for v t
    using value_text_start [OF that] starter_not_close by auto
qed simp_all

interpretation members: list_format member_text "\<lambda>f. (fst f, canonical_value (snd f))" "CHR ''}''"
proof unfold_locales
  show "t \<noteq> [] \<and> hd t \<noteq> CHR ''}''" if "member_text f t" for f t
    using that by (auto simp: member_text_def field_text_def json_string_text_def)
qed simp_all

lemma member_splits:
  assumes "splits value_text canonical_value (snd f)"
  shows "splits member_text (\<lambda>f. (fst f, canonical_value (snd f))) f"
  unfolding splits_def member_text_def
  by (auto dest!: split_field intro: splitsD [OF assms, THEN conjunct1] splitsD [OF assms, THEN conjunct2])

lemma same_kind:
  assumes "value_text v t" and "value_text w u" and "t @ r = u @ s"
  shows "(v = JNull \<and> w = JNull) \<or> (\<exists>b. v = JBool b \<and> w = JBool b) \<or> (\<exists>n m. v = JNum n \<and> w = JNum m) \<or>
     (\<exists>s t. v = JStr s \<and> w = JStr t) \<or> (\<exists>vs ws. v = JArr vs \<and> w = JArr ws) \<or>
     (\<exists>fs gs. v = JObj fs \<and> w = JObj gs)"
proof -
  from value_text_start [OF assms(1)] value_text_start [OF assms(2)] assms(3)
  obtain c where "starter v c" "starter w c" by auto
  then show ?thesis by (rule starter_kind)
qed

lemma split_value: "splits value_text canonical_value v"
proof (induction v rule: serialize.induct)
  case (6 vs)
  show ?case unfolding splits_def
  proof (intro allI impI)
    fix w t u r s
    assume v: "value_text (JArr vs) t" and w: "value_text w u" and eq: "t @ r = u @ s"
    from same_kind [OF v w eq] obtain ws where ws: "w = JArr ws" by auto
    from v w ws obtain ts us where "list_all2 value_text vs ts" "list_all2 value_text ws us"
      "t = list_text ts" "u = list_text us"
      by (auto simp: value_text_array)
    with array.split_join [of vs ts ws us r s] 6 eq ws show "canonical_value (JArr vs) = canonical_value w \<and> r = s"
      by (simp add: list_text_def)
  qed
next
  case (7 fs)
  show ?case unfolding splits_def
  proof (intro allI impI)
    fix w t u r s
    assume v: "value_text (JObj fs) t" and w: "value_text w u" and eq: "t @ r = u @ s"
    from same_kind [OF v w eq] obtain gs where gs: "w = JObj gs" by auto
    from v w gs obtain ts us where texts: "list_all2 member_text (sort_key fst fs) ts"
      "list_all2 member_text (sort_key fst gs) us" "t = object_text ts" "u = object_text us"
      by (auto simp: value_text_object)
    have "''__proto__'' \<notin> set (map fst fs)" using v by (simp add: value_text_object)
    then have "\<forall>f \<in> set (sort_key fst fs). splits member_text (\<lambda>f. (fst f, canonical_value (snd f))) f"
      using 7 member_splits by simp
    with members.split_join [of "sort_key fst fs" ts "sort_key fst gs" us r s] texts eq gs
    show "canonical_value (JObj fs) = canonical_value w \<and> r = s"
      by (simp add: object_text_def)
  qed
next
  case (3 n)
  show ?case unfolding splits_def
  proof (intro allI impI)
    fix w t u r s
    assume v: "value_text (JNum n) t" and w: "value_text w u" and eq: "t @ r = u @ s"
      and "delimited r" "delimited s"
    moreover from same_kind [OF v w eq] obtain m where "w = JNum m" by auto
    ultimately show "canonical_value (JNum n) = canonical_value w \<and> r = s"
      using split_number [of n m r s] by (simp add: value_text_num)
  qed
next
  case (2 k)
  show ?case unfolding splits_def
  proof (intro allI impI)
    fix w t u r s
    assume v: "value_text (JStr k) t" and w: "value_text w u" and eq: "t @ r = u @ s"
    moreover from same_kind [OF v w eq] obtain l where "w = JStr l" by auto
    ultimately show "canonical_value (JStr k) = canonical_value w \<and> r = s"
      using split_string [of k r l s] by (auto simp: value_text_def)
  qed
next
  case 1
  show ?case unfolding splits_def
    using same_kind [of JNull] by (fastforce simp: value_text_def)
next
  case (4 b)
  show ?case unfolding splits_def
    using same_kind [of "JBool b"] by (fastforce simp: value_text_def)
next
  case 5
  show ?case by (simp add: splits_def value_text_def)
qed

section \<open>The order of the keys\<close>

text \<open>A canonical value serializes as the value does: the text only depends on \<open>canonical_value\<close>.\<close>

lemma sort_key_idem [simp]: "sort_key fst (map (\<lambda>f. (fst f, g (snd f))) (sort_key fst fs)) =
    map (\<lambda>f. (fst f, g (snd f))) (sort_key fst fs)"
  by (rule sort_key_id_if_sorted) (simp add: comp_def)

lemma serialize_canonical: "serialize (canonical_value v) = serialize v"
proof (induction v rule: serialize.induct)
  case (6 vs)
  then have "map (serialize \<circ> canonical_value) vs = map serialize vs" by simp
  then show ?case by (simp only: canonical_value.simps serialize.simps map_map)
next
  case (7 fs)
  show ?case
  proof (cases "''__proto__'' \<in> set (map fst fs)")
    case True
    then show ?thesis by (simp add: image_image)
  next
    case False
    then have eq: "map (\<lambda>f. and_then (serialize (canonical_value (snd f))) (\<lambda>p. Inr (field_text (fst f) p)))
        (sort_key fst fs) =
        map (\<lambda>f. and_then (serialize (snd f)) (\<lambda>p. Inr (field_text (fst f) p))) (sort_key fst fs)"
      using 7 by simp
    from False show ?thesis by (simp add: image_image comp_def eq)
  qed
qed auto

section \<open>What is signed\<close>

text \<open>The payloads \<open>serialize\<close> accepts.\<close>

fun signable :: "js_value \<Rightarrow> bool" where
  "signable JUndefined = False"
| "signable (JNum n) = finite_num n"
| "signable (JArr vs) = list_all signable vs"
| "signable (JObj fs) = (''__proto__'' \<notin> set (map fst fs) \<and> list_all (\<lambda>f. signable (snd f)) fs)"
| "signable _ = True"

lemma collect_parts_ok: "(\<exists>xs. collect_parts ps = Inr xs) \<longleftrightarrow> (\<forall>p \<in> set ps. \<exists>x. p = Inr x)"
  by (induction ps) (auto simp: and_then_eq_Inr)

lemma serialize_ok: "(\<exists>t. serialize v = Inr t) \<longleftrightarrow> signable v"
proof (induction v rule: serialize.induct)
  case (6 vs)
  then show ?case
    using collect_parts_ok [of "map serialize vs"] by (auto simp: and_then_eq_Inr list_all_iff)
next
  case (7 fs)
  then show ?case
    using collect_parts_ok [of "map (\<lambda>f. and_then (serialize (snd f)) (\<lambda>p. Inr (field_text (fst f) p)))
      (sort_key fst fs)"]
    by (cases "''__proto__'' \<in> set (map fst fs)") (auto simp: and_then_eq_Inr list_all_iff)
qed auto

lemma collect_parts_map: "\<forall>x \<in> set xs. f x = Inr (g x) \<Longrightarrow> collect_parts (map f xs) = Inr (map g xs)"
  by (induction xs) auto

text \<open>On these, \<open>stableJson\<close> of the other module writes the same text.\<close>

theorem serialize_stableJson: "signable v \<Longrightarrow> serialize v = Inr (stableJson v)"
proof (induction v rule: serialize.induct)
  case (6 vs)
  then show ?case by (simp add: list_all_iff collect_parts_map [of vs serialize stableJson])
next
  case (7 fs)
  then have ok: "''__proto__'' \<notin> set (map fst fs)" "\<forall>f \<in> set fs. signable (snd f)"
    by (auto simp: list_all_iff)
  then have "filter (\<lambda>f. snd f \<noteq> JUndefined) fs = fs" by (auto simp: filter_id_conv)
  moreover have "\<forall>f \<in> set (sort_key fst fs). serialize (snd f) = Inr (stableJson (snd f))"
    using 7 ok by simp
  ultimately show ?case
    using ok by (simp add: collect_parts_map [where g = "\<lambda>f. field_text (fst f) (stableJson (snd f))"])
qed auto

text \<open>
  C36. Two payloads a policy document can carry have the same canonical text, so the same signature
  covers both, exactly when they are the same payload up to the order of the keys of their objects.
\<close>
theorem canonical_payload_faithful:
  assumes "canonicalizeSandboxPolicyPayload v = Inr t" and "numbers_wf v"
    and "canonicalizeSandboxPolicyPayload w = Inr u" and "numbers_wf w"
  shows "t = u \<longleftrightarrow> canonical_value v = canonical_value w"
proof
  have v: "value_text v t" and w: "value_text w u"
    using assms by (auto simp: canonicalizeSandboxPolicyPayload_def value_text_def split: sum.splits)
  show "t = u \<Longrightarrow> canonical_value v = canonical_value w"
    using splitsD [OF split_value v w, of "[]" "[]"] by simp
  show "canonical_value v = canonical_value w \<Longrightarrow> t = u"
    using v w serialize_canonical by (metis value_text_def sum.inject(2))
qed

definition sample_policy :: js_value where
  "sample_policy = JObj [(''signer'', JStr ''ed25519:1''), (''limits'', JArr [JNum (NInt (-3)), JNum (NOther ''0.5'')])]"

definition sample_policy_reordered :: js_value where
  "sample_policy_reordered = JObj [(''limits'', JArr [JNum (NInt (-3)), JNum (NOther ''0.5'')]), (''signer'', JStr ''ed25519:1'')]"

lemma sample_policy_text:
  "canonicalizeSandboxPolicyPayload sample_policy =
     Inr (''{'' @ [CHR 0x22] @ ''limits'' @ [CHR 0x22] @ '':[-3,0.5],'' @ [CHR 0x22] @ ''signer'' @ [CHR 0x22, CHR '':'', CHR 0x22] @
       ''ed25519:1'' @ [CHR 0x22] @ ''}'')"
  by code_simp

lemma sample_policy_reordered_text:
  "canonicalizeSandboxPolicyPayload sample_policy_reordered = canonicalizeSandboxPolicyPayload sample_policy"
  by code_simp

lemma sample_numbers: "numbers_wf sample_policy \<and> numbers_wf sample_policy_reordered"
  by (simp add: sample_policy_def sample_policy_reordered_def other_number_def num_chars_def digit_chars_def)

lemma canonical_payload_faithful_witness:
  "canonical_value sample_policy = canonical_value sample_policy_reordered \<and>
     sample_policy \<noteq> sample_policy_reordered"
proof -
  have "canonical_value sample_policy = canonical_value sample_policy_reordered"
    using canonical_payload_faithful [OF sample_policy_text _ sample_policy_reordered_text [unfolded sample_policy_text]]
      sample_numbers by blast
  then show ?thesis by (simp add: sample_policy_def sample_policy_reordered_def)
qed

end
