(* ===== verification/Retry_Policy.thy ===== *)
theory Retry_Policy
  imports Prelude
begin

text \<open>
  When durable work is retried and which work is served next: \<^verbatim>\<open>cognitive-v021/retry/policy.ts\<close>
  and \<^verbatim>\<open>retry/scheduler.ts\<close>. Times are integers of milliseconds; a \<open>retryAfterMs\<close> that is absent
  or not finite is \<open>None\<close>. \<open>localeCompare\<close> is the argument \<open>collate\<close>.
\<close>

section \<open>Failure classes\<close>

datatype work_truth = D_not_started | D_attempted | D_provider_responded | D_unknown

datatype failure_class =
    Fc_transient_retryable | Fc_rate_limited_retryable | Fc_permanent_terminal
  | Fc_unclassified_internal | Fc_outcome_unknown_reconcile | Fc_stale_or_cancelled

definition classifyDurableFailure :: "string \<Rightarrow> work_truth \<Rightarrow> failure_class" where
  "classifyDurableFailure code truth =
     (if truth = D_unknown then Fc_outcome_unknown_reconcile
      else if code = ''stale'' \<or> code = ''cancelled'' then Fc_stale_or_cancelled
      else if code \<in> {''rate_limited'', ''quota_exhausted'', ''429''} then Fc_rate_limited_retryable
      else if code \<in> {''provider_unavailable'', ''timeout'', ''network_error'', ''5xx''}
      then Fc_transient_retryable
      else if code \<in> {''invalid_request'', ''not_authorized'', ''policy_denied'', ''unsupported''}
      then Fc_permanent_terminal
      else Fc_unclassified_internal)"

definition retryable_class :: "failure_class \<Rightarrow> bool" where
  "retryable_class c \<longleftrightarrow>
     c \<in> {Fc_transient_retryable, Fc_rate_limited_retryable, Fc_unclassified_internal}"

section \<open>The next retry\<close>

datatype retry_stop = Attempts_exhausted | Age_exhausted | Not_retryable

datatype retry_decision = Retry_wait int | Retry_terminal retry_stop

fun stop_name :: "retry_stop \<Rightarrow> string" where
  "stop_name Attempts_exhausted = ''attempts_exhausted''"
| "stop_name Age_exhausted = ''age_exhausted''"
| "stop_name Not_retryable = ''not_retryable''"

definition RETRY_DELAYS_MS :: "int list" where
  "RETRY_DELAYS_MS = [1000, 5000, 30000, 120000]"

definition MAX_ATTEMPTS :: int where "MAX_ATTEMPTS = 5"

definition MAX_RETRY_AGE_MS :: int where "MAX_RETRY_AGE_MS = 15 * 60 * 1000"

text \<open>\<open>RETRY_DELAYS_MS[ordinal - 1] ?? RETRY_DELAYS_MS.at(-1)\<close>: no index outside the array.\<close>

definition retry_delay :: "int \<Rightarrow> int" where
  "retry_delay ordinal =
     (if 1 \<le> ordinal \<and> ordinal \<le> int (length RETRY_DELAYS_MS) then RETRY_DELAYS_MS ! nat (ordinal - 1)
      else last RETRY_DELAYS_MS)"

definition nextRetryAt :: "int \<Rightarrow> int \<Rightarrow> int \<Rightarrow> failure_class \<Rightarrow> int option \<Rightarrow> retry_decision" where
  "nextRetryAt ordinal first now class retryAfter =
     (if \<not> retryable_class class then Retry_terminal Not_retryable
      else if ordinal \<ge> MAX_ATTEMPTS then Retry_terminal Attempts_exhausted
      else let ageDeadline = first + MAX_RETRY_AGE_MS in
        if now \<ge> ageDeadline then Retry_terminal Age_exhausted
        else let hint = (case retryAfter of Some t \<Rightarrow> if t \<ge> 0 then t else 0 | None \<Rightarrow> 0);
                 delay = max (retry_delay ordinal) hint
          in Retry_wait (min (now + delay) ageDeadline))"

lemma retry_delay_pos: "1000 \<le> retry_delay ordinal"
proof (cases "1 \<le> ordinal \<and> ordinal \<le> 4")
  case True
  then have "ordinal \<in> {1, 2, 3, 4}" by auto
  then show ?thesis by (auto simp: retry_delay_def RETRY_DELAYS_MS_def)
next
  case False
  then show ?thesis by (auto simp: retry_delay_def RETRY_DELAYS_MS_def)
qed

lemma nextRetryAt_wait:
  assumes "nextRetryAt ordinal first now class retryAfter = Retry_wait t"
  shows "retryable_class class" "ordinal < MAX_ATTEMPTS" "now < t" "t \<le> first + MAX_RETRY_AGE_MS"
  using assms retry_delay_pos [of ordinal]
  by (auto simp: nextRetryAt_def Let_def split: if_splits)

text \<open>A wait is given exactly when the class is retryable and neither bound is reached.\<close>

lemma nextRetryAt_waits_iff:
  "(\<exists>t. nextRetryAt ordinal first now class retryAfter = Retry_wait t) \<longleftrightarrow>
     retryable_class class \<and> ordinal < MAX_ATTEMPTS \<and> now < first + MAX_RETRY_AGE_MS"
  by (auto simp: nextRetryAt_def Let_def)


section \<open>The fair scheduler\<close>

datatype candidate_state = Cs_pending | Cs_retry_wait | Cs_quarantined | Cs_terminal | Cs_leased

record fair_candidate =
  fw_event :: string
  fw_lane :: string
  fw_conversation :: string
  fw_state :: candidate_state
  fw_next :: "int option"
  fw_created :: int
  fw_served :: int

definition laneRank :: "string \<Rightarrow> int" where
  "laneRank lane =
     (if lane = ''interactive'' \<or> lane = ''owner_interactive'' then 0
      else if lane = ''proactive'' then 1 else if lane = ''background'' then 2 else 3)"

definition lane_key :: "fair_candidate \<Rightarrow> string" where
  "lane_key c = fw_lane c @ [CHR 0x00] @ fw_conversation c"

text \<open>\<open>a || b\<close> on numbers.\<close>

definition num_or :: "int \<Rightarrow> int \<Rightarrow> int" where
  "num_or a b = (if a = 0 then b else a)"

definition compare_candidates ::
  "(string \<Rightarrow> string \<Rightarrow> int) \<Rightarrow> fair_candidate \<Rightarrow> fair_candidate \<Rightarrow> int" where
  "compare_candidates collate l r =
     num_or (laneRank (fw_lane l) - laneRank (fw_lane r))
       (num_or (fw_served l - fw_served r)
         (num_or (fw_created l - fw_created r) (collate (fw_event l) (fw_event r))))"

text \<open>
  \<open>Array.prototype.sort\<close>: the stable sort by a comparator, which the language fixes when the
  comparator is consistent.
\<close>

fun js_insert :: "('a \<Rightarrow> 'a \<Rightarrow> int) \<Rightarrow> 'a \<Rightarrow> 'a list \<Rightarrow> 'a list" where
  "js_insert cmp x [] = [x]"
| "js_insert cmp x (y # ys) = (if cmp x y \<le> 0 then x # y # ys else y # js_insert cmp x ys)"

definition js_sort :: "('a \<Rightarrow> 'a \<Rightarrow> int) \<Rightarrow> 'a list \<Rightarrow> 'a list" where
  "js_sort cmp xs = foldr (js_insert cmp) xs []"

definition activeConversations :: "fair_candidate list \<Rightarrow> string list" where
  "activeConversations cs = map lane_key (filter (\<lambda>c. fw_state c = Cs_leased) cs)"

definition eligible :: "fair_candidate list \<Rightarrow> int \<Rightarrow> fair_candidate \<Rightarrow> bool" where
  "eligible cs now c \<longleftrightarrow> fw_state c = Cs_pending \<and>
     (case fw_next c of None \<Rightarrow> True | Some t \<Rightarrow> t \<le> now) \<and>
     lane_key c \<notin> set (activeConversations cs)"

definition selectFairEligibleHead ::
  "(string \<Rightarrow> string \<Rightarrow> int) \<Rightarrow> fair_candidate list \<Rightarrow> int \<Rightarrow> fair_candidate option" where
  "selectFairEligibleHead collate cs now =
     (case js_sort (compare_candidates collate) (filter (eligible cs now) cs) of
        [] \<Rightarrow> None | c # _ \<Rightarrow> Some c)"

section \<open>Sorting by a comparator\<close>

text \<open>A consistent comparator: a total preorder, with opposite signs for swapped arguments.\<close>

definition consistent :: "('a \<Rightarrow> 'a \<Rightarrow> int) \<Rightarrow> bool" where
  "consistent cmp \<longleftrightarrow> (\<forall>x y. sgn (cmp x y) = - sgn (cmp y x)) \<and>
     (\<forall>x y z. cmp x y \<le> 0 \<longrightarrow> cmp y z \<le> 0 \<longrightarrow> cmp x z \<le> 0)"

lemma opposite_signs: "sgn (a :: int) = - sgn b \<Longrightarrow> (a \<le> 0 \<or> b \<le> 0) \<and> (a = b \<longrightarrow> a = 0)"
  by (auto simp: sgn_if split: if_splits)

lemma consistentD:
  assumes "consistent cmp"
  shows "cmp x x = 0" and "cmp x y \<le> 0 \<or> cmp y x \<le> 0"
    and "cmp x y \<le> 0 \<Longrightarrow> cmp y z \<le> 0 \<Longrightarrow> cmp x z \<le> 0"
proof -
  have s: "sgn (cmp a b) = - sgn (cmp b a)" for a b using assms unfolding consistent_def by blast
  from opposite_signs [OF s [of x x]] show "cmp x x = 0" by blast
  from opposite_signs [OF s [of x y]] show "cmp x y \<le> 0 \<or> cmp y x \<le> 0" by blast
  show "cmp x y \<le> 0 \<Longrightarrow> cmp y z \<le> 0 \<Longrightarrow> cmp x z \<le> 0"
    using assms unfolding consistent_def by blast
qed

lemma set_js_insert [simp]: "set (js_insert cmp x ys) = insert x (set ys)"
  by (induction ys) auto

lemma set_js_sort [simp]: "set (js_sort cmp xs) = set xs"
  by (induction xs) (simp_all add: js_sort_def)

lemma js_insert_sorted:
  assumes "consistent cmp"
  shows "sorted_wrt (\<lambda>x y. cmp x y \<le> 0) ys \<Longrightarrow> sorted_wrt (\<lambda>x y. cmp x y \<le> 0) (js_insert cmp x ys)"
proof (induction ys)
  case (Cons y ys)
  then show ?case
    using consistentD(2) [OF assms, of x y] consistentD(3) [OF assms, of x y] by auto
qed simp

lemma js_sort_sorted: "consistent cmp \<Longrightarrow> sorted_wrt (\<lambda>x y. cmp x y \<le> 0) (js_sort cmp xs)"
  by (induction xs) (simp_all add: js_sort_def js_insert_sorted)

lemma num_or_consistent:
  fixes f :: "'a \<Rightarrow> int"
  assumes "consistent cmp"
  shows "consistent (\<lambda>x y. num_or (f x - f y) (cmp x y))"
  using assms unfolding consistent_def num_or_def
  by (auto simp: sgn_if split: if_splits)

lemma compare_candidates_consistent:
  assumes "consistent collate"
  shows "consistent (compare_candidates collate)"
proof -
  have "consistent (\<lambda>l r. collate (fw_event l) (fw_event r))"
    using assms unfolding consistent_def by blast
  then show ?thesis
    unfolding compare_candidates_def by (intro num_or_consistent)
qed

text \<open>
  The scheduler. For a consistent collation of the event ids, the chosen candidate is one of
  the candidates that may run now (pending, due, and no leased event in its conversation and lane) and
  comes first among them by lane, then by when the conversation was last served, then by age and
  id; nothing is chosen only when no candidate may run.
\<close>

theorem fair_head_correct:
  assumes "consistent collate"
  shows "(case selectFairEligibleHead collate cs now of
      None \<Rightarrow> filter (eligible cs now) cs = []
    | Some c \<Rightarrow> c \<in> set cs \<and> eligible cs now c \<and>
        list_all (\<lambda>d. compare_candidates collate c d \<le> 0) (filter (eligible cs now) cs))"
proof (cases "js_sort (compare_candidates collate) (filter (eligible cs now) cs)")
  case Nil
  then have "set (filter (eligible cs now) cs) = {}" using set_js_sort by (metis list.set(1))
  with Nil show ?thesis by (simp add: selectFairEligibleHead_def filter_empty_conv)
next
  case (Cons c rest)
  note cons = compare_candidates_consistent [OF assms]
  have members: "set (c # rest) = set (filter (eligible cs now) cs)"
    using Cons set_js_sort by metis
  then have c: "c \<in> set cs" "eligible cs now c" by auto
  have "compare_candidates collate c d \<le> 0" if "d \<in> set (c # rest)" for d
    using that js_sort_sorted [OF cons, of "filter (eligible cs now) cs"] Cons consistentD(1) [OF cons, of c]
    by auto
  then have "list_all (\<lambda>d. compare_candidates collate c d \<le> 0) (filter (eligible cs now) cs)"
    unfolding list_all_iff members by blast
  with c Cons show ?thesis by (simp add: selectFairEligibleHead_def)
qed

text \<open>Two conversations in the interactive lane; the second one was served longer ago.\<close>

definition sample_candidate :: "string \<Rightarrow> candidate_state \<Rightarrow> int \<Rightarrow> fair_candidate" where
  "sample_candidate c s served = \<lparr>fw_event = ''e'' @ c, fw_lane = ''interactive'', fw_conversation = c,
     fw_state = s, fw_next = None, fw_created = 0, fw_served = served\<rparr>"

definition by_order :: "string \<Rightarrow> string \<Rightarrow> int" where
  "by_order a b = (if a = b then 0 else if a < b then -1 else 1)"

lemma by_order_consistent: "consistent by_order"
  unfolding consistent_def by_order_def by auto

theorem fair_head_correct_witness:
  "selectFairEligibleHead by_order
     [sample_candidate ''a'' Cs_leased 1, sample_candidate ''a'' Cs_pending 1, sample_candidate ''b'' Cs_pending 7,
      sample_candidate ''c'' Cs_pending 3] 10 = Some (sample_candidate ''c'' Cs_pending 3)"
proof -
  let ?cs = "[sample_candidate ''a'' Cs_leased 1, sample_candidate ''a'' Cs_pending 1,
    sample_candidate ''b'' Cs_pending 7, sample_candidate ''c'' Cs_pending 3]"
  have el: "filter (eligible ?cs 10) ?cs = [sample_candidate ''b'' Cs_pending 7, sample_candidate ''c'' Cs_pending 3]"
    by (simp add: eligible_def activeConversations_def lane_key_def sample_candidate_def)
  have "compare_candidates by_order (sample_candidate ''b'' Cs_pending 7) (sample_candidate ''c'' Cs_pending 3) > 0"
    by (simp add: compare_candidates_def num_or_def sample_candidate_def)
  with fair_head_correct [OF by_order_consistent, of ?cs 10] el show ?thesis
    by (cases "selectFairEligibleHead by_order ?cs 10") (auto simp: filter_eq_Cons_iff eligible_def sample_candidate_def activeConversations_def lane_key_def)
qed

end
