(* ===== verification/Work_Ledger.thy ===== *)
theory Work_Ledger
  imports Budget_Recovery Retry_Policy
begin

text \<open>
  Durable work, \<^verbatim>\<open>cognitive-v021/retry/ledger.ts\<close>, first part: the tables (\<^verbatim>\<open>sidecar/schema.ts\<close>,
  versions 1, 3 and 4), the helpers that move a wake and its cycle with an event, the recovery of
  expired leases, and the claim. An inbox event is a unit of work; its state, lease and attempts
  are kept beside the wake, frontier, effect and budget tables of the other components, which the
  operations change in the same transaction. Random UUIDs and the collation of event ids are
  arguments.
\<close>

section \<open>The tables\<close>

datatype work_state = E_pending | E_leased | E_retry_wait | E_reconciling | E_terminal | E_quarantined

record event_row =
  ev_id :: string
  ev_conversation :: string
  ev_kind :: string
  ev_payload :: js_value
  ev_status :: string
  ev_state :: work_state
  ev_token :: "string option"
  ev_worker :: "string option"
  ev_lease :: "int option"
  ev_attempts :: int
  ev_first :: "int option"
  ev_next :: "int option"
  ev_lane :: string
  ev_priority :: int
  ev_wake :: "string option"
  ev_created :: int
  ev_claimed :: "int option"
  ev_consumed :: "int option"
  ev_error :: "string option"
  ev_failure :: "failure_class option"
  ev_reason :: "string option"
  ev_quarantine :: "string option"
  ev_payload_hash :: "string option"
  ev_repair_of :: "string option"

record attempt_row =
  wa_id :: string
  wa_event :: string
  wa_wake :: "string option"
  wa_ordinal :: int
  wa_worker :: string
  wa_started :: int
  wa_finished :: "int option"
  wa_truth :: work_truth
  wa_failure :: "failure_class option"
  wa_error :: "string option"

record fairness_row =
  lf_lane :: string
  lf_conversation :: string
  lf_served :: int

record repair_row =
  rp_event :: string
  rp_predecessor :: string
  rp_authorization :: string
  rp_created :: int

text \<open>A call of \<open>recordRetryC3TerminalFailure\<close>, which writes a table of its own.\<close>

record c3_call =
  cx_event :: string
  cx_attempt :: string
  cx_wake :: string
  cx_cycle :: string
  cx_generation :: int
  cx_ordinal :: int
  cx_truth :: work_truth
  cx_class :: string
  cx_error :: "string option"
  cx_at :: int

record work_db =
  wd_budget :: budget_db
  wd_events :: "event_row list"
  wd_attempts :: "attempt_row list"
  wd_fairness :: "fairness_row list"
  wd_repairs :: "repair_row list"
  wd_tables :: continuation_tables
  wd_c3 :: "c3_call list"

text \<open>
  Primary keys, unique columns and indexes, CHECK constraints; of these the partial index
  \<open>idx_one_active_conversation_lane\<close> admits one leased event for a conversation and lane.
\<close>

definition lane_of :: "event_row \<Rightarrow> string \<times> string" where
  "lane_of r = (ev_conversation r, ev_lane r)"

definition leased :: "event_row \<Rightarrow> bool" where
  "leased r \<longleftrightarrow> ev_state r = E_leased"

definition event_indexes :: "event_row list \<Rightarrow> bool" where
  "event_indexes rows \<longleftrightarrow> distinct (map ev_id rows) \<and> distinct (map lane_of (filter leased rows))"

definition attempt_indexes :: "attempt_row list \<Rightarrow> bool" where
  "attempt_indexes rows \<longleftrightarrow> distinct (map wa_id rows) \<and>
     distinct (map (\<lambda>a. (wa_event a, wa_ordinal a)) rows) \<and>
     list_all (\<lambda>a. 1 \<le> wa_ordinal a \<and> wa_ordinal a \<le> 5) rows"

definition repair_indexes :: "repair_row list \<Rightarrow> bool" where
  "repair_indexes rows \<longleftrightarrow> distinct (map rp_event rows) \<and>
     distinct (map (\<lambda>p. (rp_predecessor p, rp_authorization p)) rows)"

definition store_events :: "event_row list \<Rightarrow> work_db \<Rightarrow> work_db throws" where
  "store_events rows db =
     (if event_indexes rows then Inr (db\<lparr>wd_events := rows\<rparr>) else Inl ''UNIQUE constraint failed'')"

definition store_attempts :: "attempt_row list \<Rightarrow> work_db \<Rightarrow> work_db throws" where
  "store_attempts rows db =
     (if attempt_indexes rows then Inr (db\<lparr>wd_attempts := rows\<rparr>) else Inl ''constraint failed'')"

definition store_repairs :: "repair_row list \<Rightarrow> work_db \<Rightarrow> work_db throws" where
  "store_repairs rows db =
     (if repair_indexes rows then Inr (db\<lparr>wd_repairs := rows\<rparr>) else Inl ''UNIQUE constraint failed'')"

definition update_events ::
  "(event_row \<Rightarrow> bool) \<Rightarrow> (event_row \<Rightarrow> event_row) \<Rightarrow> work_db \<Rightarrow> (nat \<times> work_db) throws" where
  "update_events match f db =
     and_then (store_events (sql_update match f (wd_events db)) db) (\<lambda>db1.
       Inr (sql_changes match (wd_events db), db1))"

definition kernel :: "work_db \<Rightarrow> wake_db" where
  "kernel db = bd_kernel (wd_budget db)"

definition set_kernel :: "wake_db \<Rightarrow> work_db \<Rightarrow> work_db" where
  "set_kernel k db = db\<lparr>wd_budget := (wd_budget db)\<lparr>bd_kernel := k\<rparr>\<rparr>"

text \<open>An operation of the wake, cycle or frontier tables, inside the same transaction.\<close>

definition on_kernel :: "(wake_db \<Rightarrow> ('a \<times> wake_db) throws) \<Rightarrow> work_db \<Rightarrow> ('a \<times> work_db) throws" where
  "on_kernel work db = and_then (work (kernel db)) (\<lambda>(x, k). Inr (x, set_kernel k db))"

definition run_kernel :: "(wake_db \<Rightarrow> ('a \<times> wake_db) throws) \<Rightarrow> work_db \<Rightarrow> work_db throws" where
  "run_kernel work db = and_then (on_kernel work db) (\<lambda>(_, db1). Inr db1)"

section \<open>Reading\<close>

definition find_event :: "work_db \<Rightarrow> string \<Rightarrow> event_row option" where
  "find_event db e = sql_get (\<lambda>r. ev_id r = e) (wd_events db)"

definition event :: "work_db \<Rightarrow> string \<Rightarrow> event_row throws" where
  "event db e = (case find_event db e of None \<Rightarrow> Inl ''durable_work_missing'' | Some r \<Rightarrow> Inr r)"

definition attempt :: "work_db \<Rightarrow> string \<Rightarrow> string option \<Rightarrow> attempt_row option" where
  "attempt db a e = sql_get (\<lambda>r. wa_id r = a \<and> (case e of None \<Rightarrow> True | Some e \<Rightarrow> wa_event r = e)) (wd_attempts db)"

definition event_attempts :: "work_db \<Rightarrow> string \<Rightarrow> attempt_row list" where
  "event_attempts db e = sort_key wa_ordinal (filter (\<lambda>r. wa_event r = e) (wd_attempts db))"

text \<open>\<open>ORDER BY ordinal DESC LIMIT 1\<close>\<close>

definition latestAttempt :: "work_db \<Rightarrow> string \<Rightarrow> attempt_row option" where
  "latestAttempt db e = (case rev (event_attempts db e) of [] \<Rightarrow> None | a # _ \<Rightarrow> Some a)"

record durable_attempt =
  da_attempt :: string
  da_event :: string
  da_wake :: "string option"
  da_ordinal :: int
  da_token :: string
  da_truth :: work_truth
  da_worker :: string
  da_started :: int
  da_lane :: string
  da_priority :: int

definition valid_ordinal :: "int \<Rightarrow> int throws" where
  "valid_ordinal n = (if n < 1 \<or> n > MAX_ATTEMPTS then Inl ''durable_attempt_ordinal_invalid'' else Inr n)"

definition toDurableAttempt :: "event_row \<Rightarrow> attempt_row \<Rightarrow> durable_attempt throws" where
  "toDurableAttempt current a =
     (if text_of (ev_token current) = [] then Inl ''durable_claim_missing''
      else and_then (valid_ordinal (wa_ordinal a)) (\<lambda>n. Inr
        \<lparr>da_attempt = wa_id a, da_event = wa_event a, da_wake = wa_wake a, da_ordinal = n,
         da_token = text_of (ev_token current), da_truth = wa_truth a, da_worker = wa_worker a,
         da_started = wa_started a, da_lane = ev_lane current, da_priority = ev_priority current\<rparr>))"

definition getOpenDurableAttempt :: "work_db \<Rightarrow> string \<Rightarrow> durable_attempt option throws" where
  "getOpenDurableAttempt db e =
     and_then (event db e) (\<lambda>current.
       case latestAttempt db e of
         None \<Rightarrow> Inr None
       | Some a \<Rightarrow>
           if wa_finished a \<noteq> None \<or> ev_state current \<noteq> E_leased \<or> text_of (ev_token current) = []
           then Inr None
           else and_then (toDurableAttempt current a) (\<lambda>d. Inr (Some d)))"

definition getDurableAttempt :: "work_db \<Rightarrow> string \<Rightarrow> attempt_row option throws" where
  "getDurableAttempt db a =
     (case attempt db a None of
        None \<Rightarrow> Inr None
      | Some r \<Rightarrow> and_then (valid_ordinal (wa_ordinal r)) (\<lambda>_. Inr (Some r)))"

definition hasOtherDurableContinuationForWake :: "work_db \<Rightarrow> string \<Rightarrow> string \<Rightarrow> bool" where
  "hasOtherDurableContinuationForWake db w e \<longleftrightarrow> list_ex (\<lambda>r. ev_wake r = Some w \<and> ev_id r \<noteq> e \<and>
     ev_state r \<in> {E_pending, E_retry_wait, E_leased, E_reconciling}) (wd_events db)"

definition hasOtherClaimableContinuationForWake :: "work_db \<Rightarrow> string \<Rightarrow> string \<Rightarrow> bool" where
  "hasOtherClaimableContinuationForWake db w e \<longleftrightarrow> list_ex (\<lambda>r. ev_wake r = Some w \<and> ev_id r \<noteq> e \<and>
     ev_state r \<in> {E_pending, E_retry_wait}) (wd_events db)"

section \<open>The wake and the cycle of an event\<close>

definition move_wake :: "string \<Rightarrow> (wake_row \<Rightarrow> wake_row) \<Rightarrow> work_db \<Rightarrow> work_db throws" where
  "move_wake w f = run_kernel (update_wake w (\<lambda>r. w_state r \<noteq> W_terminal) f)"

definition wakeToPending :: "string \<Rightarrow> int \<Rightarrow> work_db \<Rightarrow> work_db throws" where
  "wakeToPending w now = move_wake w (\<lambda>r. (to_pending now r)\<lparr>w_reason := None\<rparr>)"

definition wakeToReconciling :: "string \<Rightarrow> int \<Rightarrow> work_db \<Rightarrow> work_db throws" where
  "wakeToReconciling w now = move_wake w
     (\<lambda>r. (clear_lease r)\<lparr>w_state := W_reconciling, w_reason := None, w_updated := now\<rparr>)"

definition lateResultAfterCancellation :: "wake_row \<Rightarrow> wake_reason \<Rightarrow> bool" where
  "lateResultAfterCancellation w reason \<longleftrightarrow> w_reason w = Some R_cancelled \<and> w_cancellation w \<noteq> None \<and>
     (reason = R_completed \<or> reason = R_no_action)"

definition terminal_agrees :: "wake_row \<Rightarrow> wake_reason \<Rightarrow> bool" where
  "terminal_agrees w reason \<longleftrightarrow> w_reason w = Some reason \<or> lateResultAfterCancellation w reason"

definition wakeToTerminal :: "string \<Rightarrow> wake_reason \<Rightarrow> int \<Rightarrow> work_db \<Rightarrow> work_db throws" where
  "wakeToTerminal w reason now db =
     (case getWake (kernel db) w of
        None \<Rightarrow> Inl ''wake_missing''
      | Some current \<Rightarrow>
          if w_state current = W_terminal
          then if terminal_agrees current reason then Inr db else Inl ''wake_terminal_conflict''
          else move_wake w (to_terminal reason now) db)"

definition finishWakeForEvent :: "event_row \<Rightarrow> wake_reason \<Rightarrow> int \<Rightarrow> work_db \<Rightarrow> work_db throws" where
  "finishWakeForEvent current reason now db =
     (let w = text_of (ev_wake current) in
      if w = [] then Inl ''wake_required''
      else (case getWake (kernel db) w of
          None \<Rightarrow> Inl ''wake_missing''
        | Some wake \<Rightarrow>
            if reason = R_quarantined \<and> hasOtherDurableContinuationForWake db w (ev_id current) \<or>
               reason = R_superseded \<and> hasOtherDurableContinuationForWake db w (ev_id current) \<or>
               reason = R_completed \<and> hasOtherClaimableContinuationForWake db w (ev_id current)
            then wakeToPending w now db
            else if w_state wake = W_terminal
            then if terminal_agrees wake reason then Inr db else Inl ''wake_terminal_conflict''
            else if w_state wake = W_reconciling then wakeToTerminal w reason now db
            else run_kernel (finishWakeInTransaction w
              (if ev_token current = None then w_token wake else ev_token current) reason now) db))"

text \<open>A cycle without a wake reads as \<open>null\<close>.\<close>

definition getCycle :: "wake_db \<Rightarrow> string \<Rightarrow> cycle_row option" where
  "getCycle k c = (case find_cycle k c of
     None \<Rightarrow> None | Some r \<Rightarrow> if text_of (c_wake r) = [] then None else Some r)"

definition updateCycleState :: "string \<Rightarrow> string \<Rightarrow> int \<Rightarrow> wake_db \<Rightarrow> (cycle_row \<times> wake_db) throws" where
  "updateCycleState c state now k =
     and_then (store_cycles (sql_update (\<lambda>r. c_cycle r = c)
         (\<lambda>r. r\<lparr>c_state := state, c_updated := now\<rparr>) (cycle_records (effects k))) k) (\<lambda>k1.
       case getCycle k1 c of None \<Rightarrow> Inl ''cycle_missing'' | Some r \<Rightarrow> Inr (r, k1))"

definition isComposableWake :: "wake_row \<Rightarrow> bool" where
  "isComposableWake w \<longleftrightarrow> w_state w \<noteq> W_terminal \<and> w_state w \<noteq> W_reconciling \<and>
     w_state w \<noteq> W_consequence_pending"

definition retireOwnerlessCycleForTerminalEvent ::
  "string option \<Rightarrow> int \<Rightarrow> work_db \<Rightarrow> work_db throws" where
  "retireOwnerlessCycleForTerminalEvent wake now db =
     (if text_of wake = [] then Inr db
      else (case sql_get (\<lambda>r. c_wake r = wake) (cycle_records (effects (kernel db))) of
          None \<Rightarrow> Inr db
        | Some row \<Rightarrow>
            if c_cycle row = [] then Inr db
            else (case getCycle (kernel db) (c_cycle row) of
                None \<Rightarrow> Inr db
              | Some cycle \<Rightarrow>
                  if c_state cycle = ''silent'' \<or> c_state cycle = ''idle'' then Inr db
                  else if hasValidDurableContinuationOwner (wd_tables db) (kernel db) cycle then Inr db
                  else run_kernel (updateCycleState (c_cycle row) ''silent'' now) db)))"

definition release_event :: "event_row \<Rightarrow> event_row" where
  "release_event r = r\<lparr>ev_token := None, ev_worker := None, ev_lease := None\<rparr>"

definition to_quarantined :: "string \<Rightarrow> event_row \<Rightarrow> event_row" where
  "to_quarantined reason r = (release_event r)\<lparr>ev_state := E_quarantined, ev_status := ''failed_terminal'',
     ev_reason := Some reason, ev_quarantine := Some reason, ev_error := Some reason, ev_next := None\<rparr>"

definition quarantineEvent :: "event_row \<Rightarrow> string \<Rightarrow> int \<Rightarrow> work_db \<Rightarrow> work_db throws" where
  "quarantineEvent current reason now db =
     and_then (update_events (\<lambda>r. ev_id r = ev_id current) (to_quarantined reason) db) (\<lambda>(_, db1).
     and_then
       (let w = text_of (ev_wake current) in
        if w \<noteq> [] \<and> getWake (kernel db1) w \<noteq> None \<and>
           \<not> hasOtherDurableContinuationForWake db1 w (ev_id current)
        then wakeToTerminal w R_quarantined now db1 else Inr db1)
       (retireOwnerlessCycleForTerminalEvent (ev_wake current) now))"

definition ensureWakeLineage :: "work_db \<Rightarrow> event_row \<Rightarrow> string throws" where
  "ensureWakeLineage db current =
     (let w = text_of (ev_wake current) in
      if w = [] then Inl ''wake_required''
      else (case getWake (kernel db) w of
          None \<Rightarrow> Inl ''wake_missing''
        | Some wake \<Rightarrow>
            (case find_cycle (kernel db) (w_cycle wake) of
               None \<Rightarrow> Inl ''wake_cycle_lineage_invalid''
             | Some cycle \<Rightarrow>
                 if text_of (c_wake cycle) \<noteq> w then Inl ''wake_cycle_lineage_invalid''
                 else Inr (w_cycle wake))))"

section \<open>Recovery of expired leases\<close>

definition ev_lease_over :: "int \<Rightarrow> event_row \<Rightarrow> bool" where
  "ev_lease_over now r \<longleftrightarrow> (case ev_lease r of None \<Rightarrow> False | Some t \<Rightarrow> t \<le> now)"

text \<open>\<open>eventId == null\<close> or the event with the id.\<close>

definition only_event :: "string option \<Rightarrow> event_row \<Rightarrow> bool" where
  "only_event e r \<longleftrightarrow> (case e of None \<Rightarrow> True | Some e \<Rightarrow> ev_id r = e)"

definition by_creation :: "event_row list \<Rightarrow> event_row list" where
  "by_creation rows = sort_key ev_created (sort_key ev_id rows)"

record work_recovery =
  wk_reclaimed :: nat
  wk_reconciling :: nat
  wk_quarantined :: nat

definition to_reclaimed :: "event_row \<Rightarrow> event_row" where
  "to_reclaimed r = (release_event r)\<lparr>ev_state := E_pending, ev_status := ''pending'',
     ev_error := Some ''recovered_before_dispatch'', ev_next := None\<rparr>"

definition to_reconciling :: "string \<Rightarrow> event_row \<Rightarrow> event_row" where
  "to_reconciling err r = (release_event r)\<lparr>ev_state := E_reconciling, ev_status := ''claimed'',
     ev_failure := Some Fc_outcome_unknown_reconcile, ev_error := Some err, ev_next := None\<rparr>"

definition is_leased :: "string \<Rightarrow> event_row \<Rightarrow> bool" where
  "is_leased e r \<longleftrightarrow> ev_id r = e \<and> ev_state r = E_leased"

definition recover_event ::
  "int \<Rightarrow> string \<Rightarrow> work_recovery \<times> work_db \<Rightarrow> (work_recovery \<times> work_db) throws" where
  "recover_event now e = (\<lambda>(res, db).
     if e = [] then Inr (res, db)
     else and_then (event db e) (\<lambda>current.
       let w = text_of (ev_wake current) in
       case (ensureWakeLineage db current, latestAttempt db e) of
         (Inr _, Some a) \<Rightarrow>
           if wa_truth a = D_not_started \<and> \<not> hasAmbiguousEffect (kernel db) w
           then and_then (update_events (is_leased e) to_reclaimed db) (\<lambda>(_, db1).
                and_then (wakeToPending w now db1) (\<lambda>db2.
                  Inr (res\<lparr>wk_reclaimed := wk_reclaimed res + 1\<rparr>, db2)))
           else and_then (update_events (is_leased e)
                  (to_reconciling ''recovered_after_possible_dispatch'') db) (\<lambda>(_, db1).
                and_then (wakeToReconciling w now db1) (\<lambda>db2.
                  Inr (res\<lparr>wk_reconciling := wk_reconciling res + 1\<rparr>, db2)))
       | _ \<Rightarrow>
           and_then (quarantineEvent current
             (if w = [] then ''wake_missing'' else ''attempt_lineage_unverifiable'') now db) (\<lambda>db1.
             Inr (res\<lparr>wk_quarantined := wk_quarantined res + 1\<rparr>, db1))))"

fun recover_events ::
  "int \<Rightarrow> string list \<Rightarrow> work_recovery \<times> work_db \<Rightarrow> (work_recovery \<times> work_db) throws" where
  "recover_events now [] s = Inr s"
| "recover_events now (e # es) s = and_then (recover_event now e s) (recover_events now es)"

definition no_work_recovery :: work_recovery where
  "no_work_recovery = \<lparr>wk_reclaimed = 0, wk_reconciling = 0, wk_quarantined = 0\<rparr>"

definition recoverExpiredDurableWorkInTransaction ::
  "int \<Rightarrow> string option \<Rightarrow> work_db \<Rightarrow> (work_recovery \<times> work_db) throws" where
  "recoverExpiredDurableWorkInTransaction now e db = recover_events now
     (map ev_id (by_creation (filter (\<lambda>r. ev_state r = E_leased \<and> ev_lease_over now r \<and> only_event e r)
       (wd_events db))))
     (no_work_recovery, db)"

definition recoverDurableWork :: "int \<Rightarrow> work_db \<Rightarrow> work_recovery throws \<times> work_db" where
  "recoverDurableWork now = in_immediate_transaction (recoverExpiredDurableWorkInTransaction now None)"

section \<open>Normalization\<close>

definition ev_due :: "int \<Rightarrow> event_row \<Rightarrow> bool" where
  "ev_due now r \<longleftrightarrow> (case ev_next r of None \<Rightarrow> False | Some t \<Rightarrow> t \<le> now)"

definition normalizeEligibleRetryWait :: "int \<Rightarrow> string option \<Rightarrow> work_db \<Rightarrow> work_db throws" where
  "normalizeEligibleRetryWait now e db =
     and_then (update_events (\<lambda>r. ev_state r = E_retry_wait \<and> ev_due now r \<and> only_event e r)
       (\<lambda>r. r\<lparr>ev_state := E_pending, ev_status := ''pending''\<rparr>) db) (\<lambda>(_, db1). Inr db1)"

definition exhausted :: "int \<Rightarrow> event_row \<Rightarrow> bool" where
  "exhausted now r \<longleftrightarrow> ev_attempts r \<ge> MAX_ATTEMPTS \<or>
     (case ev_first r of None \<Rightarrow> False | Some t \<Rightarrow> t + MAX_RETRY_AGE_MS \<le> now)"

definition quarantine_bounded :: "int \<Rightarrow> string \<Rightarrow> work_db \<Rightarrow> work_db throws" where
  "quarantine_bounded now e db =
     (if e = [] then Inr db
      else and_then (event db e) (\<lambda>current. quarantineEvent current
        (if ev_attempts current \<ge> MAX_ATTEMPTS then ''attempts_exhausted'' else ''age_exhausted'') now db))"

fun quarantine_all :: "int \<Rightarrow> string list \<Rightarrow> work_db \<Rightarrow> work_db throws" where
  "quarantine_all now [] db = Inr db"
| "quarantine_all now (e # es) db = and_then (quarantine_bounded now e db) (quarantine_all now es)"

definition normalizeBoundedRows :: "int \<Rightarrow> string option \<Rightarrow> work_db \<Rightarrow> work_db throws" where
  "normalizeBoundedRows now e db = quarantine_all now
     (map ev_id (by_creation (filter (\<lambda>r. ev_wake r \<noteq> None \<and> ev_state r \<in> {E_pending, E_retry_wait} \<and>
       exhausted now r \<and> only_event e r) (wd_events db)))) db"

section \<open>The claim\<close>

record claim_input =
  ci_worker :: string
  ci_conversation :: "string option"
  ci_event :: "string option"
  ci_lane :: "string option"
  ci_exclude :: "string option"
  ci_lease :: "int option"

definition DURABLE_WORK_COORDINATION_LEASE_MS :: int where
  "DURABLE_WORK_COORDINATION_LEASE_MS = 360000"

definition claim_lease :: "int option \<Rightarrow> int" where
  "claim_lease lease = max 1 (min (15 * 60000)
     (case lease of None \<Rightarrow> DURABLE_WORK_COORDINATION_LEASE_MS | Some l \<Rightarrow> l))"

text \<open>A clause of the query for an argument that is present and not empty.\<close>

definition clause :: "string option \<Rightarrow> (string \<Rightarrow> bool) \<Rightarrow> bool" where
  "clause arg test \<longleftrightarrow> text_of arg = [] \<or> test (text_of arg)"

definition claim_matches :: "claim_input \<Rightarrow> event_row \<Rightarrow> bool" where
  "claim_matches i r \<longleftrightarrow> ev_wake r \<noteq> None \<and> ev_state r \<in> {E_pending, E_leased} \<and>
     clause (ci_conversation i) (\<lambda>c. ev_conversation r = c) \<and> clause (ci_event i) (\<lambda>e. ev_id r = e) \<and>
     clause (ci_lane i) (\<lambda>l. ev_lane r = l) \<and>
     clause (ci_exclude i) (\<lambda>p. take (length p) (ev_conversation r) \<noteq> p)"

definition last_served :: "work_db \<Rightarrow> event_row \<Rightarrow> int" where
  "last_served db r =
     (case sql_get (\<lambda>f. lf_lane f = ev_lane r \<and> lf_conversation f = ev_conversation r) (wd_fairness db) of
        None \<Rightarrow> 0 | Some f \<Rightarrow> lf_served f)"

fun candidate_state_of :: "work_state \<Rightarrow> candidate_state" where
  "candidate_state_of E_pending = Cs_pending"
| "candidate_state_of E_leased = Cs_leased"
| "candidate_state_of E_retry_wait = Cs_retry_wait"
| "candidate_state_of E_quarantined = Cs_quarantined"
| "candidate_state_of E_terminal = Cs_terminal"
| "candidate_state_of E_reconciling = Cs_terminal"

definition to_candidate :: "work_db \<Rightarrow> event_row \<Rightarrow> fair_candidate" where
  "to_candidate db r = \<lparr>fw_event = ev_id r, fw_lane = ev_lane r, fw_conversation = ev_conversation r,
     fw_state = candidate_state_of (ev_state r), fw_next = ev_next r, fw_created = ev_created r,
     fw_served = last_served db r\<rparr>"

definition candidates :: "work_db \<Rightarrow> claim_input \<Rightarrow> fair_candidate list" where
  "candidates db i = map (to_candidate db) (by_creation (filter (claim_matches i) (wd_events db)))"

definition claim_refusal :: "work_db \<Rightarrow> event_row \<Rightarrow> string \<Rightarrow> int \<Rightarrow> unit throws" where
  "claim_refusal db current worker now =
     (if blank worker then Inl ''worker_required''
      else if ev_state current \<noteq> E_pending then Inl ''durable_work_not_eligible''
      else if (case ev_next current of None \<Rightarrow> False | Some t \<Rightarrow> t > now)
      then Inl ''durable_work_not_eligible''
      else and_then (ensureWakeLineage db current) (\<lambda>_.
        if \<not> (case getWake (kernel db) (text_of (ev_wake current)) of
              None \<Rightarrow> False | Some wake \<Rightarrow> isComposableWake wake)
        then Inl ''wake_reconciliation_required''
        else if ev_attempts current + 1 > MAX_ATTEMPTS then Inl ''durable_work_attempts_exhausted''
        else if now \<ge> (case ev_first current of None \<Rightarrow> now | Some t \<Rightarrow> t) + MAX_RETRY_AGE_MS
        then Inl ''durable_work_age_exhausted''
        else Inr ()))"

definition first_attempt :: "event_row \<Rightarrow> int \<Rightarrow> int" where
  "first_attempt current now = (case ev_first current of None \<Rightarrow> now | Some t \<Rightarrow> t)"

definition to_leased :: "event_row \<Rightarrow> string \<Rightarrow> string \<Rightarrow> int \<Rightarrow> int \<Rightarrow> event_row \<Rightarrow> event_row" where
  "to_leased current token worker now leaseMs r = r\<lparr>ev_state := E_leased, ev_status := ''claimed'',
     ev_token := Some token, ev_worker := Some worker, ev_lease := Some (now + leaseMs),
     ev_claimed := Some now, ev_attempts := ev_attempts current + 1,
     ev_first := Some (first_attempt current now), ev_next := None, ev_error := None\<rparr>"

definition new_attempt :: "event_row \<Rightarrow> string \<Rightarrow> string \<Rightarrow> int \<Rightarrow> attempt_row" where
  "new_attempt current attemptId worker now =
     \<lparr>wa_id = attemptId, wa_event = ev_id current, wa_wake = ev_wake current,
      wa_ordinal = ev_attempts current + 1, wa_worker = worker, wa_started = now, wa_finished = None,
      wa_truth = D_not_started, wa_failure = None, wa_error = None\<rparr>"

definition serve_lane :: "event_row \<Rightarrow> int \<Rightarrow> fairness_row list \<Rightarrow> fairness_row list" where
  "serve_lane current now rows =
     (let same = (\<lambda>f. lf_lane f = ev_lane current \<and> lf_conversation f = ev_conversation current) in
      if sql_get same rows = None
      then rows @ [\<lparr>lf_lane = ev_lane current, lf_conversation = ev_conversation current, lf_served = now\<rparr>]
      else sql_update same (\<lambda>f. f\<lparr>lf_served := now\<rparr>) rows)"

definition claimed_attempt :: "event_row \<Rightarrow> string \<Rightarrow> string \<Rightarrow> string \<Rightarrow> int \<Rightarrow> durable_attempt" where
  "claimed_attempt current attemptId token worker now =
     \<lparr>da_attempt = attemptId, da_event = ev_id current, da_wake = ev_wake current,
      da_ordinal = ev_attempts current + 1, da_token = token, da_truth = D_not_started,
      da_worker = worker, da_started = now, da_lane = ev_lane current, da_priority = ev_priority current\<rparr>"

text \<open>The two random UUIDs are those of the lease token and of the attempt id.\<close>

definition claimCandidateInTransaction ::
  "string \<times> string \<Rightarrow> event_row \<Rightarrow> string \<Rightarrow> int \<Rightarrow> int \<Rightarrow> work_db \<Rightarrow> (durable_attempt \<times> work_db) throws" where
  "claimCandidateInTransaction uuids current worker now leaseMs db =
     and_then (claim_refusal db current worker now) (\<lambda>_.
     let w = text_of (ev_wake current); attemptId = ''attempt:'' @ snd uuids in
     and_then (on_kernel (claimWakeInTransaction (fst uuids) w worker now leaseMs) db) (\<lambda>((token, _), db1).
     and_then (on_kernel (authorizeWakeInTransaction w token now) db1) (\<lambda>(authorized, db2).
       if w_token authorized \<noteq> Some token then Inl ''wake_authorization_lost''
       else and_then (update_events (\<lambda>r. ev_id r = ev_id current \<and> ev_state r = E_pending)
           (to_leased current token worker now leaseMs) db2) (\<lambda>(changes, db3).
         if changes \<noteq> 1 then Inl ''durable_work_claim_lost''
         else and_then (store_attempts (wd_attempts db3 @ [new_attempt current attemptId worker now]) db3)
           (\<lambda>db4. Inr (claimed_attempt current attemptId token worker now,
             db4\<lparr>wd_fairness := serve_lane current now (wd_fairness db4)\<rparr>))))))"

definition normalize_work :: "int \<Rightarrow> string option \<Rightarrow> work_db \<Rightarrow> work_db throws" where
  "normalize_work now e db =
     and_then (recoverExpiredDurableWorkInTransaction now e db) (\<lambda>(_, db1).
     and_then (normalizeEligibleRetryWait now e db1) (normalizeBoundedRows now e))"

definition startDurableAttempt ::
  "string \<times> string \<Rightarrow> string \<Rightarrow> string \<Rightarrow> int \<Rightarrow> int option \<Rightarrow> work_db \<Rightarrow> durable_attempt throws \<times> work_db" where
  "startDurableAttempt uuids e worker now lease = in_immediate_transaction (\<lambda>db.
     and_then (normalize_work now (Some e) db) (\<lambda>db1.
     and_then (event db1 e) (\<lambda>current.
       if ev_state current \<noteq> E_pending then Inl ''durable_work_not_eligible''
       else claimCandidateInTransaction uuids current worker now (claim_lease lease) db1)))"

definition claim_next ::
  "string \<times> string \<Rightarrow> (string \<Rightarrow> string \<Rightarrow> int) \<Rightarrow> claim_input \<Rightarrow> int \<Rightarrow> work_db \<Rightarrow>
   (durable_attempt option \<times> work_db) throws" where
  "claim_next uuids collate i now db =
     and_then (normalize_work now None db) (\<lambda>db1.
       case selectFairEligibleHead collate (candidates db1 i) now of
         None \<Rightarrow> Inr (None, db1)
       | Some head \<Rightarrow>
           and_then (event db1 (fw_event head)) (\<lambda>current.
           and_then (claimCandidateInTransaction uuids current (ci_worker i) now (claim_lease (ci_lease i)) db1)
             (\<lambda>(a, db2). Inr (Some a, db2))))"

definition claimNextDurableWork ::
  "string \<times> string \<Rightarrow> (string \<Rightarrow> string \<Rightarrow> int) \<Rightarrow> claim_input \<Rightarrow> int \<Rightarrow> work_db \<Rightarrow>
   durable_attempt option throws \<times> work_db" where
  "claimNextDurableWork uuids collate i now = in_immediate_transaction (claim_next uuids collate i now)"

section \<open>Renewal\<close>

record work_renewal =
  wr_event :: string
  wr_conversation :: string
  wr_wake :: string
  wr_attempt :: string
  wr_worker :: string
  wr_token :: string
  wr_now :: int
  wr_lease :: int

definition renewal_holds :: "work_renewal \<Rightarrow> work_db \<Rightarrow> event_row \<Rightarrow> bool" where
  "renewal_holds i db r \<longleftrightarrow> ev_id r = wr_event i \<and> ev_conversation r = wr_conversation i \<and>
     ev_wake r = Some (wr_wake i) \<and> ev_state r = E_leased \<and> ev_status r = ''claimed'' \<and>
     ev_token r = Some (wr_token i) \<and> ev_worker r = Some (wr_worker i) \<and>
     (case ev_lease r of None \<Rightarrow> False | Some t \<Rightarrow> t > wr_now i) \<and>
     list_ex (\<lambda>a. wa_id a = wr_attempt i \<and> wa_event a = ev_id r \<and> wa_wake a = ev_wake r \<and>
       Some (wa_worker a) = ev_worker r \<and> wa_ordinal a = ev_attempts r \<and> wa_finished a = None)
       (wd_attempts db)"

definition renewDurableWorkClaimInTransaction ::
  "work_renewal \<Rightarrow> work_db \<Rightarrow> (bool \<times> work_db) throws" where
  "renewDurableWorkClaimInTransaction i db =
     (if list_ex blank [wr_event i, wr_conversation i, wr_wake i, wr_attempt i, wr_worker i, wr_token i] \<or>
         \<not> safe_integer (wr_now i) \<or> wr_now i < 0 \<or> \<not> safe_integer (wr_lease i) \<or> wr_lease i \<le> 0
      then Inr (False, db)
      else and_then (update_events (renewal_holds i db)
          (\<lambda>r. r\<lparr>ev_lease := Some (wr_now i + min (15 * 60000) (wr_lease i))\<rparr>) db) (\<lambda>(changes, db1).
        Inr (changes = 1, db1)))"

definition listDurableAttempts :: "work_db \<Rightarrow> string option \<Rightarrow> attempt_row list" where
  "listDurableAttempts db e =
     (case e of
        None \<Rightarrow> sort_key wa_started (sort_key wa_ordinal (wd_attempts db))
      | Some e \<Rightarrow> event_attempts db e)"

end
