(* ===== verification/Work_Settlement.thy ===== *)
theory Work_Settlement
  imports Work_Ledger Json_Text
begin

text \<open>
  Durable work, \<^verbatim>\<open>cognitive-v021/retry/ledger.ts\<close>, second part: the settlement of an attempt with
  its convergence and supersession, and the reconciliation of an outcome that is not known.
\<close>

section \<open>Results\<close>

datatype handler_result =
    H_completed
  | H_deferred string string int int string
  | H_failed failure_class string "work_truth option" "int option"
  | H_superseded string string "string list" "string list" string
  | H_unknown string string

datatype settlement_outcome =
  So_completed | So_retry_wait int | So_reconciling | So_terminal string

fun failureFor :: "handler_result \<Rightarrow> work_truth \<times> failure_class option \<times> string option" where
  "failureFor H_completed = (D_provider_responded, None, None)"
| "failureFor (H_deferred conv c gen nxt ev) = (D_not_started, None, None)"
| "failureFor (H_superseded w e covered uncovered hash) = (D_not_started, None, None)"
| "failureFor (H_unknown oid err) = (D_unknown, Some Fc_outcome_unknown_reconcile, Some err)"
| "failureFor (H_failed class err truth after) =
     (case truth of None \<Rightarrow> D_provider_responded | Some t \<Rightarrow> t, Some class, Some err)"

definition outcomeForSettledEvent :: "event_row \<Rightarrow> settlement_outcome throws" where
  "outcomeForSettledEvent current =
     (if ev_state current = E_retry_wait \<and> ev_next current \<noteq> None
      then Inr (So_retry_wait (the (ev_next current)))
      else if ev_state current = E_reconciling then Inr So_reconciling
      else if ev_state current = E_terminal \<or> ev_state current = E_quarantined
      then Inr (So_terminal (case ev_reason current of Some r \<Rightarrow> r
        | None \<Rightarrow> (case ev_quarantine current of Some q \<Rightarrow> q | None \<Rightarrow> ''completed'')))
      else Inl ''durable_settlement_state_invalid'')"

definition sameSettlement :: "attempt_row \<Rightarrow> handler_result \<Rightarrow> bool" where
  "sameSettlement a result \<longleftrightarrow> (wa_truth a, wa_failure a, wa_error a) = failureFor result"

section \<open>Convergence and supersession\<close>

definition to_consumed :: "string \<Rightarrow> int \<Rightarrow> event_row \<Rightarrow> event_row" where
  "to_consumed reason now r = (release_event r)\<lparr>ev_state := E_terminal, ev_status := ''consumed'',
     ev_reason := Some reason, ev_quarantine := None, ev_consumed := Some now, ev_next := None\<rparr>"

definition clear_failure :: "event_row \<Rightarrow> event_row" where
  "clear_failure r = r\<lparr>ev_error := None, ev_failure := None\<rparr>"

fun converge_siblings ::
  "event_row \<Rightarrow> string list \<Rightarrow> int \<Rightarrow> work_db \<Rightarrow> work_db throws" where
  "converge_siblings current [] now db = Inr db"
| "converge_siblings current (s # ss) now db =
     (if s = [] \<or> s = ev_id current then converge_siblings current ss now db
      else and_then (update_events (\<lambda>r. ev_id r = s \<and> ev_wake r = ev_wake current \<and>
             ev_state r \<in> {E_pending, E_retry_wait, E_leased})
           (\<lambda>r. clear_failure (to_consumed ''completed'' now r)) db) (\<lambda>(_, db1).
         converge_siblings current ss now db1))"

definition convergeCoveredSiblingEvents ::
  "event_row \<Rightarrow> string list \<Rightarrow> int \<Rightarrow> work_db \<Rightarrow> work_db throws" where
  "convergeCoveredSiblingEvents current covered now db =
     (if text_of (ev_wake current) = [] then Inr db
      else converge_siblings current (js_uniq covered) now db)"

definition ownerCoverageHash :: "(string \<Rightarrow> string) \<Rightarrow> string \<Rightarrow> string list \<Rightarrow> string list \<Rightarrow> string" where
  "ownerCoverageHash sha primary covered uncovered = sha256 sha (JObj
     [(''primaryEventId'', JStr primary), (''coveredOwnerEventIds'', JArr (map JStr covered)),
      (''uncoveredOwnerEventIds'', JArr (map JStr uncovered))])"

definition owner_kind :: "event_row \<Rightarrow> bool" where
  "owner_kind r \<longleftrightarrow> ev_kind r = ''owner_message'' \<or> ev_kind r = ''owner_utterance''"

definition valid_successor :: "work_db \<Rightarrow> event_row \<Rightarrow> string \<Rightarrow> string \<Rightarrow> bool" where
  "valid_successor db current w e =
     (case sql_get (\<lambda>r. ev_id r = e \<and> ev_wake r = Some w \<and> getWake (kernel db) w \<noteq> None) (wd_events db) of
        None \<Rightarrow> False
      | Some s \<Rightarrow> ev_conversation s = ev_conversation current \<and> owner_kind s \<and>
          ev_state s \<notin> {E_terminal, E_quarantined} \<and>
          (case getWake (kernel db) w of None \<Rightarrow> False | Some k \<Rightarrow> w_state k \<noteq> W_terminal))"

text \<open>The current event counts as leased whatever its row says.\<close>

definition covered_event_ok :: "work_db \<Rightarrow> event_row \<Rightarrow> string \<Rightarrow> bool" where
  "covered_event_ok db current e =
     (if e = ev_id current then owner_kind current
      else (case find_event db e of
          None \<Rightarrow> False
        | Some r \<Rightarrow> text_of (ev_wake r) = text_of (ev_wake current) \<and> owner_kind r \<and>
            ev_state r \<in> {E_pending, E_retry_wait}))"

definition expected_coverage :: "work_db \<Rightarrow> event_row \<Rightarrow> string list" where
  "expected_coverage db current = map ev_id (filter (\<lambda>r. ev_wake r = ev_wake current \<and> owner_kind r \<and>
     (ev_state r \<in> {E_pending, E_retry_wait} \<or> ev_id r = ev_id current)) (wd_events db))"

definition validateSupersession ::
  "(string \<Rightarrow> string) \<Rightarrow> work_db \<Rightarrow> event_row \<Rightarrow> string \<Rightarrow> string \<Rightarrow> string list \<Rightarrow> string list \<Rightarrow> string \<Rightarrow>
   string list throws" where
  "validateSupersession sha db current sw se covered uncovered hash =
     (let w = text_of (ev_wake current) in
      if w = [] then Inl ''wake_required''
      else if hash \<noteq> ownerCoverageHash sha (ev_id current) covered uncovered
      then Inl ''supersession_coverage_hash_invalid''
      else if ev_id current \<notin> set covered then Inl ''supersession_primary_not_covered''
      else if \<not> distinct covered \<or> \<not> distinct uncovered then Inl ''supersession_coverage_duplicate''
      else if list_ex (\<lambda>e. e \<in> set uncovered) covered then Inl ''supersession_coverage_overlap''
      else if (case getWake (kernel db) w of None \<Rightarrow> True | Some k \<Rightarrow> w_state k = W_terminal)
      then Inl ''supersession_old_wake_invalid''
      else if sw = w then Inl ''supersession_successor_same_wake''
      else if \<not> valid_successor db current sw se then Inl ''supersession_successor_invalid''
      else if \<not> list_all (covered_event_ok db current) (covered @ uncovered)
      then Inl ''supersession_owner_event_invalid''
      else if list_ex (\<lambda>e. e \<notin> set (covered @ uncovered)) (expected_coverage db current)
      then Inl ''supersession_coverage_incomplete''
      else Inr covered)"

definition supersedeDurableAttemptInTransaction ::
  "(string \<Rightarrow> string) \<Rightarrow> event_row \<Rightarrow> string \<Rightarrow> string \<Rightarrow> string list \<Rightarrow> string list \<Rightarrow> string \<Rightarrow> int \<Rightarrow>
   work_db \<Rightarrow> work_db throws" where
  "supersedeDurableAttemptInTransaction sha current sw se covered uncovered hash now db =
     and_then (validateSupersession sha db current sw se covered uncovered hash) (\<lambda>covered.
     and_then (update_events (\<lambda>r. ev_id r \<in> set covered \<and> ev_wake r = ev_wake current)
       (\<lambda>r. clear_failure (to_consumed ''superseded'' now r)) db) (\<lambda>(_, db1).
     and_then (finishWakeForEvent current R_superseded now db1)
       (retireOwnerlessCycleForTerminalEvent (ev_wake current) now)))"

section \<open>The settlement of an attempt\<close>

definition holds_claim :: "string \<Rightarrow> string \<Rightarrow> event_row \<Rightarrow> bool" where
  "holds_claim e token r \<longleftrightarrow> ev_id r = e \<and> ev_state r = E_leased \<and> ev_token r = Some token"

definition finish_attempt ::
  "string \<Rightarrow> string \<Rightarrow> handler_result \<Rightarrow> int \<Rightarrow> work_db \<Rightarrow> work_db throws" where
  "finish_attempt a e result now db =
     (case failureFor result of (truth, class, err) \<Rightarrow>
      store_attempts (sql_update (\<lambda>r. wa_id r = a \<and> wa_event r = e \<and> wa_finished r = None)
        (\<lambda>r. r\<lparr>wa_finished := Some now, wa_truth := truth, wa_failure := class, wa_error := err\<rparr>)
        (wd_attempts db)) db)"

definition contradict ::
  "event_row \<Rightarrow> string \<Rightarrow> int \<Rightarrow> work_db \<Rightarrow> (settlement_outcome \<times> work_db) throws" where
  "contradict current a now db =
     and_then (quarantineEvent current ''contradictory_result'' now db) (\<lambda>db1.
     and_then (store_attempts (sql_update (\<lambda>r. wa_id r = a) (\<lambda>r. r\<lparr>wa_error :=
         (case wa_error r of None \<Rightarrow> Some ''contradictory_result'' | Some x \<Rightarrow> Some x)\<rparr>) (wd_attempts db1)) db1)
       (\<lambda>db2. Inr (So_terminal ''contradictory_result'', db2)))"

definition settle_completed ::
  "event_row \<Rightarrow> string \<Rightarrow> string list \<Rightarrow> int \<Rightarrow> work_db \<Rightarrow> (settlement_outcome \<times> work_db) throws" where
  "settle_completed current token covered now db =
     and_then (update_events (holds_claim (ev_id current) token) (to_consumed ''completed'' now) db) (\<lambda>(_, db1).
     and_then (convergeCoveredSiblingEvents current covered now db1) (\<lambda>db2.
     and_then (finishWakeForEvent current R_completed now db2) (\<lambda>db3. Inr (So_completed, db3))))"

text \<open>The conversation's frontier takes the work over.\<close>

definition kept_rows :: "'a throws \<times> 'r \<Rightarrow> 'r throws" where
  "kept_rows p = and_then (fst p) (\<lambda>_. Inr (snd p))"

definition defer_frontier ::
  "string \<Rightarrow> string \<Rightarrow> string \<Rightarrow> int \<Rightarrow> int \<Rightarrow> string \<Rightarrow> int \<Rightarrow> work_db \<Rightarrow> work_db throws" where
  "defer_frontier uuid conv c gen nxt evidence now db =
     (let fs = frontiers (kernel db) in
      and_then (case getActiveDeferredFrontier fs conv of
          Some f \<Rightarrow> kept_rows (rescheduleDeferredFrontier (ft_id f) nxt now fs)
        | None \<Rightarrow> kept_rows (insertDeferredFrontierRecord uuid
            \<lparr>fi_frontierId = None, fi_conversationId = conv, fi_cycleId = c, fi_generation = gen,
             fi_nextEligibleAtMs = nxt, fi_latestEvidenceRowId = evidence\<rparr> now fs))
        (\<lambda>fs1. Inr (set_kernel ((kernel db)\<lparr>frontiers := fs1\<rparr>) db)))"

definition settle_deferred ::
  "string \<Rightarrow> event_row \<Rightarrow> string \<Rightarrow> string \<Rightarrow> string \<Rightarrow> int \<Rightarrow> int \<Rightarrow> string \<Rightarrow> int \<Rightarrow> work_db \<Rightarrow>
   (settlement_outcome \<times> work_db) throws" where
  "settle_deferred uuid current token conv c gen nxt evidence now db =
     and_then (update_events (holds_claim (ev_id current) token)
       (to_consumed ''deferred_to_frontier'' now) db) (\<lambda>(_, db1).
     and_then (if text_of (ev_wake current) = [] then Inr db1
       else move_wake (text_of (ev_wake current)) (to_pending now) db1) (\<lambda>db2.
     and_then (if c = [] then Inr db2 else run_kernel (updateCycleState c ''capacity_wait'' now) db2) (\<lambda>db3.
     and_then (defer_frontier uuid conv c gen nxt evidence now db3) (\<lambda>db4. Inr (So_completed, db4)))))"

definition settle_unknown ::
  "event_row \<Rightarrow> string \<Rightarrow> string \<Rightarrow> int \<Rightarrow> work_db \<Rightarrow> (settlement_outcome \<times> work_db) throws" where
  "settle_unknown current token err now db =
     and_then (update_events (holds_claim (ev_id current) token) (to_reconciling err) db) (\<lambda>(_, db1).
     if text_of (ev_wake current) = [] then Inl ''wake_required''
     else and_then (wakeToReconciling (text_of (ev_wake current)) now db1) (\<lambda>db2. Inr (So_reconciling, db2)))"

definition to_retry_wait :: "int \<Rightarrow> failure_class \<Rightarrow> string \<Rightarrow> event_row \<Rightarrow> event_row" where
  "to_retry_wait at class err r = (release_event r)\<lparr>ev_state := E_retry_wait,
     ev_status := ''failed_retryable'', ev_next := Some at, ev_failure := Some class, ev_error := Some err\<rparr>"

definition settle_retry ::
  "event_row \<Rightarrow> string \<Rightarrow> int \<Rightarrow> failure_class \<Rightarrow> string \<Rightarrow> int \<Rightarrow> work_db \<Rightarrow>
   (settlement_outcome \<times> work_db) throws" where
  "settle_retry current token at class err now db =
     and_then (update_events (holds_claim (ev_id current) token) (to_retry_wait at class err) db) (\<lambda>(_, db1).
     if text_of (ev_wake current) = [] then Inl ''wake_required''
     else and_then (wakeToPending (text_of (ev_wake current)) now db1) (\<lambda>db2. Inr (So_retry_wait at, db2)))"

text \<open>State, reason, reason of the wake and quarantine reason of a failure that is final.\<close>

definition terminal_disposition ::
  "failure_class \<Rightarrow> string \<Rightarrow> retry_stop \<Rightarrow> work_state \<times> string \<times> wake_reason \<times> string option" where
  "terminal_disposition class err stop =
     (if class = Fc_permanent_terminal then (E_terminal, ''permanent_failure'', R_quarantined, None)
      else if class = Fc_stale_or_cancelled
      then if err = ''cancelled'' then (E_terminal, ''cancelled'', R_cancelled, None)
        else (E_terminal, ''stale'', R_no_action, None)
      else (E_quarantined, stop_name stop, R_quarantined, Some (stop_name stop)))"

definition to_failed ::
  "work_state \<Rightarrow> string \<Rightarrow> string option \<Rightarrow> failure_class \<Rightarrow> string \<Rightarrow> event_row \<Rightarrow> event_row" where
  "to_failed state reason quarantine class err r = (release_event r)\<lparr>ev_state := state,
     ev_status := ''failed_terminal'', ev_reason := Some reason, ev_quarantine := quarantine,
     ev_failure := Some class, ev_error := Some err, ev_next := None\<rparr>"

definition c3_failure_class :: "failure_class \<Rightarrow> string \<Rightarrow> string option" where
  "c3_failure_class class reason =
     (if class = Fc_permanent_terminal then Some ''permanent_terminal''
      else if reason = ''age_exhausted'' \<or> reason = ''attempts_exhausted'' then Some reason else None)"

definition c3_terminal ::
  "work_db \<Rightarrow> event_row \<Rightarrow> attempt_row \<Rightarrow> work_truth \<Rightarrow> string option \<Rightarrow> string \<Rightarrow> int \<Rightarrow> c3_call option" where
  "c3_terminal db current a truth class err now =
     (case (class, getWake (kernel db) (text_of (ev_wake current))) of
        (Some c3, Some wake) \<Rightarrow>
          if text_of (ev_wake current) = [] then None
          else map_option (\<lambda>cycle. \<lparr>cx_event = ev_id current, cx_attempt = wa_id a,
            cx_wake = text_of (ev_wake current), cx_cycle = c_cycle cycle, cx_generation = c_generation cycle,
            cx_ordinal = wa_ordinal a, cx_truth = truth, cx_class = c3, cx_error = Some err, cx_at = now\<rparr>)
            (getCycle (kernel db) (w_cycle wake))
      | _ \<Rightarrow> None)"

definition settle_terminal ::
  "event_row \<Rightarrow> attempt_row \<Rightarrow> string \<Rightarrow> work_truth \<Rightarrow> failure_class \<Rightarrow> string \<Rightarrow> retry_stop \<Rightarrow> int \<Rightarrow> work_db \<Rightarrow>
   ((settlement_outcome \<times> c3_call option) \<times> work_db) throws" where
  "settle_terminal current a token truth class err stop now db =
     (case terminal_disposition class err stop of (state, reason, wakeReason, quarantine) \<Rightarrow>
      and_then (update_events (holds_claim (ev_id current) token)
        (to_failed state reason quarantine class err) db) (\<lambda>(_, db1).
      let c3 = c3_terminal db1 current a truth (c3_failure_class class reason) err now in
      and_then (finishWakeForEvent current wakeReason now db1) (\<lambda>db2.
      and_then (retireOwnerlessCycleForTerminalEvent (ev_wake current) now db2) (\<lambda>db3.
        Inr ((So_terminal reason, c3), db3)))))"

definition no_c3 ::
  "(settlement_outcome \<times> work_db) throws \<Rightarrow> ((settlement_outcome \<times> c3_call option) \<times> work_db) throws" where
  "no_c3 r = and_then r (\<lambda>(outcome, db). Inr ((outcome, None), db))"

definition settle_open ::
  "(string \<Rightarrow> string) \<Rightarrow> string \<Rightarrow> event_row \<Rightarrow> attempt_row \<Rightarrow> string \<Rightarrow> handler_result \<Rightarrow> int \<Rightarrow> string list \<Rightarrow>
   work_db \<Rightarrow> ((settlement_outcome \<times> c3_call option) \<times> work_db) throws" where
  "settle_open sha uuid current a token result now covered db =
     (case result of
        H_superseded sw se cov uncov hash \<Rightarrow> no_c3
          (and_then (supersedeDurableAttemptInTransaction sha current sw se cov uncov hash now db) (\<lambda>db1.
            Inr (So_terminal ''superseded'', db1)))
      | H_completed \<Rightarrow> no_c3 (settle_completed current token covered now db)
      | H_deferred conv c gen nxt evidence \<Rightarrow>
          no_c3 (settle_deferred uuid current token conv c gen nxt evidence now db)
      | H_unknown oid err \<Rightarrow> no_c3 (settle_unknown current token err now db)
      | H_failed class err truth after \<Rightarrow>
          (case nextRetryAt (wa_ordinal a)
              (case ev_first current of None \<Rightarrow> wa_started a | Some t \<Rightarrow> t) now class after of
             Retry_wait at \<Rightarrow> no_c3 (settle_retry current token at class err now db)
           | Retry_terminal stop \<Rightarrow>
               settle_terminal current a token (fst (failureFor result)) class err stop now db))"

record settle_input =
  st_event :: string
  st_attempt :: string
  st_token :: string
  st_result :: handler_result
  st_now :: int
  st_covered :: "string list"

definition settleDurableAttemptInTransaction ::
  "(string \<Rightarrow> string) \<Rightarrow> string \<Rightarrow> settle_input \<Rightarrow> work_db \<Rightarrow>
   ((settlement_outcome \<times> c3_call option) \<times> work_db) throws" where
  "settleDurableAttemptInTransaction sha uuid i db =
     and_then (event db (st_event i)) (\<lambda>current.
       case attempt db (st_attempt i) (Some (st_event i)) of
         None \<Rightarrow> Inl ''durable_attempt_missing''
       | Some a \<Rightarrow>
           if wa_finished a \<noteq> None
           then if sameSettlement a (st_result i)
             then and_then (outcomeForSettledEvent current) (\<lambda>outcome. Inr ((outcome, None), db))
             else no_c3 (contradict current (st_attempt i) (st_now i) db)
           else if ev_state current \<noteq> E_leased \<or> ev_token current \<noteq> Some (st_token i)
           then Inl ''durable_work_claim_lost''
           else and_then (finish_attempt (st_attempt i) (st_event i) (st_result i) (st_now i) db) (\<lambda>db1.
             settle_open sha uuid current a (st_token i) (st_result i) (st_now i) (st_covered i) db1))"

text \<open>The terminal failure is recorded once the transaction is committed.\<close>

definition record_c3 :: "c3_call option \<Rightarrow> work_db \<Rightarrow> work_db" where
  "record_c3 c db = (case c of None \<Rightarrow> db | Some x \<Rightarrow> db\<lparr>wd_c3 := wd_c3 db @ [x]\<rparr>)"

definition settleDurableAttempt ::
  "(string \<Rightarrow> string) \<Rightarrow> string \<Rightarrow> settle_input \<Rightarrow> work_db \<Rightarrow> settlement_outcome throws \<times> work_db" where
  "settleDurableAttempt sha uuid i db =
     (case in_immediate_transaction (settleDurableAttemptInTransaction sha uuid i) db of
        (Inl err, db1) \<Rightarrow> (Inl err, db1)
      | (Inr (outcome, c3), db1) \<Rightarrow> (Inr outcome, record_c3 c3 db1))"

end
