(* ===== verification/Work_Reconcile.thy ===== *)
theory Work_Reconcile
  imports Work_Settlement
begin

text \<open>
  Durable work, third part: the reconciliation of an unknown outcome with the spend of the private
  budget (\<open>reconcileOutcomeUnknown\<close> of \<^verbatim>\<open>retry/ledger.ts\<close>), the mechanical proof that nothing was
  dispatched, and the bounded pass at startup (\<^verbatim>\<open>retry/startup-outcome-recovery.ts\<close>).
\<close>

section \<open>The repair lineage\<close>

text \<open>
  The events whose effects count: the event, what it repairs, what that repairs, and so on, until
  a row is missing or an event comes up again. \<open>eventIds.includes\<close> keeps the loop from running
  forever on a cyclic table.
\<close>

function repair_lineage :: "repair_row list \<Rightarrow> string list \<Rightarrow> string \<Rightarrow> string list" where
  "repair_lineage ps ids cursor =
     (case sql_get (\<lambda>p. rp_event p = cursor) ps of
        None \<Rightarrow> ids
      | Some p \<Rightarrow>
          if rp_predecessor p = [] \<or> rp_predecessor p \<in> set ids then ids
          else repair_lineage ps (ids @ [rp_predecessor p]) (rp_predecessor p))"
  by pat_completeness auto

termination repair_lineage
proof (relation "measure (\<lambda>(ps, ids, cursor). card (set (map rp_predecessor ps) - set ids))")
  fix ps ids cursor p
  assume found: "sql_get (\<lambda>p. rp_event p = cursor) ps = Some p"
    and new: "\<not> (rp_predecessor p = [] \<or> rp_predecessor p \<in> set ids)"
  have "p \<in> set ps" using sql_get_SomeD [OF found] by simp
  then have "rp_predecessor p \<in> set (map rp_predecessor ps) - set ids" using new by simp
  then have "card (set (map rp_predecessor ps) - set ids - {rp_predecessor p}) <
      card (set (map rp_predecessor ps) - set ids)"
    by (intro card_Diff1_less) simp_all
  moreover have "set (map rp_predecessor ps) - set (ids @ [rp_predecessor p]) =
      set (map rp_predecessor ps) - set ids - {rp_predecessor p}" by auto
  ultimately show "((ps, ids @ [rp_predecessor p], rp_predecessor p), ps, ids, cursor)
      \<in> measure (\<lambda>(ps, ids, cursor). card (set (map rp_predecessor ps) - set ids))"
    by simp
qed simp

declare repair_lineage.simps [simp del]

definition lineageEventIds :: "work_db \<Rightarrow> string \<Rightarrow> string list" where
  "lineageEventIds db e = (if e = [] then [e] else repair_lineage (wd_repairs db) [e] e)"

section \<open>What the private budget spent\<close>

definition explicitPrivateReservationId :: "work_db \<Rightarrow> string \<Rightarrow> string option" where
  "explicitPrivateReservationId db e =
     (case find_event db e of
        None \<Rightarrow> None
      | Some r \<Rightarrow> (let v = js_prop (ev_payload r) ''privateBudgetReservationId'' in
          if nonblank_str v then Some (the_str v) else None))"

datatype spend_partition =
    Sp_no_reservation | Sp_not_spent string | Sp_spent string string | Sp_uncertain string

fun rv_state_name :: "reservation_state \<Rightarrow> string" where
  "rv_state_name Rv_held = ''held''"
| "rv_state_name Rv_committed = ''committed''"
| "rv_state_name Rv_released = ''released''"
| "rv_state_name Rv_reconcile_required = ''reconcile_required''"
| "rv_state_name Rv_expired = ''expired''"

fun rv_truth_name :: "dispatch_truth \<Rightarrow> string" where
  "rv_truth_name T_not_bound = ''not_bound''"
| "rv_truth_name T_not_started = ''not_started''"
| "rv_truth_name T_attempted = ''attempted''"
| "rv_truth_name T_responded = ''responded''"
| "rv_truth_name T_unknown = ''unknown''"

definition dispatched_truth :: "dispatch_truth \<Rightarrow> bool" where
  "dispatched_truth t \<longleftrightarrow> t = T_attempted \<or> t = T_responded"

definition partition_reservation :: "reservation_row \<Rightarrow> attempt_record list \<Rightarrow> spend_partition" where
  "partition_reservation r history =
     (if rv_state r = Rv_committed \<or> dispatched_truth (rv_truth r) \<or>
         list_ex (\<lambda>h. ar_ordinal h \<ge> 2 \<and> dispatched_truth (ar_truth h)) history
      then Sp_spent (rv_id r) (if rv_state r = Rv_committed then ''committed''
        else if dispatched_truth (rv_truth r) then ''parent_'' @ rv_truth_name (rv_truth r)
        else ''child_dispatched'')
      else if rv_state r = Rv_held \<and> (rv_truth r = T_not_bound \<or> rv_truth r = T_not_started) \<and>
         list_all (\<lambda>h. ar_ordinal h = 1 \<or> ar_truth h = T_not_started) history
      then Sp_not_spent (rv_id r)
      else Sp_uncertain (''state_'' @ rv_state_name (rv_state r) @ ''_'' @ rv_truth_name (rv_truth r)))"

definition classifyOutcomeUnknownSpend ::
  "work_db \<Rightarrow> string \<Rightarrow> string option \<Rightarrow> spend_partition throws" where
  "classifyOutcomeUnknownSpend db e wake =
     (let explicit = explicitPrivateReservationId db e;
          found = (case explicit of
            Some rid \<Rightarrow> Inr (getPrivateReservation (wd_budget db) rid)
          | None \<Rightarrow> if text_of wake = [] then Inr None
              else getPrivateReservationForWake (wd_budget db) (text_of wake))
      in case found of
           Inl err \<Rightarrow> Inr (Sp_uncertain (case explicit of
             Some rid \<Rightarrow> ''reservation_lookup_failed:'' @ rid | None \<Rightarrow> ''wake_reservation_ambiguous''))
         | Inr None \<Rightarrow> Inr (case explicit of
             Some rid \<Rightarrow> Sp_uncertain (''reservation_missing:'' @ rid) | None \<Rightarrow> Sp_no_reservation)
         | Inr (Some r) \<Rightarrow>
             and_then (listPrivateAttemptHistory (wd_budget db) (rv_id r)) (\<lambda>history.
               Inr (partition_reservation r history)))"

section \<open>Reconciliation\<close>

datatype reconcile_outcome =
  Ro_still_unknown | Ro_safe_to_retry | Ro_terminal string

definition boundEffects :: "work_db \<Rightarrow> string list \<Rightarrow> in_flight_row list" where
  "boundEffects db es = filter (\<lambda>f. case if_event f of None \<Rightarrow> False | Some e \<Rightarrow> e \<in> set es)
     (in_flight_effects (effects (kernel db)))"

definition receipt_outcome :: "work_db \<Rightarrow> in_flight_row \<Rightarrow> string option" where
  "receipt_outcome db f = map_option rc_outcome
     (sql_get (\<lambda>r. rc_effect r = if_effect f) (effect_receipts (effects (kernel db))))"

definition outcome_open :: "string option \<Rightarrow> bool" where
  "outcome_open r \<longleftrightarrow> r \<in> {None, Some ''outcome_unknown'', Some ''unknown'', Some ''in_progress''}"

definition is_reconciling :: "string \<Rightarrow> event_row \<Rightarrow> bool" where
  "is_reconciling e r \<longleftrightarrow> ev_id r = e \<and> ev_state r = E_reconciling"

definition end_reconciling ::
  "event_row \<Rightarrow> (event_row \<Rightarrow> event_row) \<Rightarrow> wake_reason \<Rightarrow> string \<Rightarrow> int \<Rightarrow> work_db \<Rightarrow>
   (reconcile_outcome \<times> work_db) throws" where
  "end_reconciling current f wakeReason reason now db =
     and_then (update_events (is_reconciling (ev_id current)) f db) (\<lambda>(_, db1).
     and_then (wakeToTerminal (text_of (ev_wake current)) wakeReason now db1) (\<lambda>db2.
     and_then (retireOwnerlessCycleForTerminalEvent (ev_wake current) now db2) (\<lambda>db3.
       Inr (Ro_terminal reason, db3))))"

definition to_reconciled :: "int \<Rightarrow> event_row \<Rightarrow> event_row" where
  "to_reconciled now r = r\<lparr>ev_state := E_terminal, ev_status := ''consumed'',
     ev_reason := Some ''completed'', ev_quarantine := None, ev_consumed := Some now\<rparr>"

definition to_failed_reconciled :: "string \<Rightarrow> event_row \<Rightarrow> event_row" where
  "to_failed_reconciled err r = r\<lparr>ev_state := E_terminal, ev_status := ''failed_terminal'',
     ev_reason := Some ''permanent_failure'', ev_quarantine := None, ev_error := Some err\<rparr>"

definition to_safe_retry :: "string \<Rightarrow> event_row \<Rightarrow> event_row" where
  "to_safe_retry proof_ref r = (release_event r)\<lparr>ev_state := E_pending, ev_status := ''pending'',
     ev_error := Some (''safe_to_retry:'' @ js_trim proof_ref), ev_next := None\<rparr>"

definition reconcile_with_receipts ::
  "event_row \<Rightarrow> string option list \<Rightarrow> int \<Rightarrow> work_db \<Rightarrow> (reconcile_outcome \<times> work_db) throws" where
  "reconcile_with_receipts current receipts now db =
     (if list_ex outcome_open receipts then Inr (Ro_still_unknown, db)
      else if list_all (\<lambda>r. r = Some ''succeeded'') receipts
      then end_reconciling current (to_reconciled now) R_completed ''completed'' now db
      else if list_ex (\<lambda>r. r = Some ''failed'') receipts
      then end_reconciling current (to_failed_reconciled ''effect_receipt_failed'') R_quarantined
        ''permanent_failure'' now db
      else Inr (Ro_still_unknown, db))"

definition reconcile_with_proof ::
  "event_row \<Rightarrow> string \<Rightarrow> int \<Rightarrow> work_db \<Rightarrow> (reconcile_outcome \<times> work_db) throws" where
  "reconcile_with_proof current proof_ref now db =
     and_then (classifyOutcomeUnknownSpend db (ev_id current) (ev_wake current)) (\<lambda>spend.
       case spend of
         Sp_spent rid signal \<Rightarrow> end_reconciling current
           (to_failed_reconciled (''private_spent_no_rethought:'' @ signal)) R_quarantined
           ''permanent_failure'' now db
       | Sp_uncertain detail \<Rightarrow> Inr (Ro_still_unknown, db)
       | _ \<Rightarrow>
           and_then (update_events (is_reconciling (ev_id current)) (to_safe_retry proof_ref) db) (\<lambda>(_, db1).
           and_then (wakeToPending (text_of (ev_wake current)) now db1) (\<lambda>db2.
             Inr (Ro_safe_to_retry, db2))))"

definition reconcileOutcomeUnknownInTransaction ::
  "string \<Rightarrow> int \<Rightarrow> bool \<Rightarrow> string option \<Rightarrow> work_db \<Rightarrow> (reconcile_outcome \<times> work_db) throws" where
  "reconcileOutcomeUnknownInTransaction e now noDispatch proof_ref db =
     and_then (event db e) (\<lambda>current.
       if ev_state current = E_terminal \<or> ev_state current = E_quarantined
       then Inr (Ro_terminal (case ev_reason current of Some r \<Rightarrow> r
         | None \<Rightarrow> (case ev_quarantine current of Some q \<Rightarrow> q | None \<Rightarrow> ''completed'')), db)
       else if ev_state current \<noteq> E_reconciling then Inl ''outcome_not_reconciling''
       else if text_of (ev_wake current) = []
       then and_then (quarantineEvent current ''wake_missing'' now db) (\<lambda>db1.
         Inr (Ro_terminal ''wake_missing'', db1))
       else let bound = boundEffects db (lineageEventIds db e) in
         if bound \<noteq> [] then reconcile_with_receipts current (map (receipt_outcome db) bound) now db
         else if noDispatch \<and> \<not> blank (text_of proof_ref)
         then reconcile_with_proof current (text_of proof_ref) now db
         else Inr (Ro_still_unknown, db))"

definition reconcileOutcomeUnknown ::
  "string \<Rightarrow> int \<Rightarrow> bool \<Rightarrow> string option \<Rightarrow> work_db \<Rightarrow> reconcile_outcome throws \<times> work_db" where
  "reconcileOutcomeUnknown e now noDispatch proof_ref =
     in_immediate_transaction (reconcileOutcomeUnknownInTransaction e now noDispatch proof_ref)"

section \<open>The proof that nothing was dispatched\<close>

text \<open>
  The tables only the proof reads: the cycle and wake of each settlement, and the cycle of each
  system notice, or nothing when the query fails.
\<close>

record dispatch_tables =
  dt_settlements :: "(string option \<times> string option) list"
  dt_notices :: "string option list option"

datatype no_dispatch_proof =
    Proven string string int
  | Unproven string

definition cycles_of_wakes :: "work_db \<Rightarrow> string list \<Rightarrow> string list" where
  "cycles_of_wakes db ws = map w_cycle (filter (\<lambda>k. w_id k \<in> set ws) (wakes (kernel db)))"

definition wakes_of_events :: "work_db \<Rightarrow> string list \<Rightarrow> string list" where
  "wakes_of_events db es = filter (\<lambda>w. w \<noteq> [])
     (map (\<lambda>r. text_of (ev_wake r)) (filter (\<lambda>r. ev_id r \<in> set es) (wd_events db)))"

definition in_ids :: "string list \<Rightarrow> string option \<Rightarrow> bool" where
  "in_ids ids v \<longleftrightarrow> (case v of None \<Rightarrow> False | Some x \<Rightarrow> x \<in> set ids)"

definition proof_refusal ::
  "dispatch_tables \<Rightarrow> work_db \<Rightarrow> string \<Rightarrow> string list \<Rightarrow> string list \<Rightarrow> string list \<Rightarrow> string option" where
  "proof_refusal dt db e es ws cs =
     (if list_ex (\<lambda>f. in_ids es (if_event f) \<or> in_ids ws (if_wake f)) (in_flight_effects (effects (kernel db)))
      then Some ''in_flight_effect_present''
      else if list_ex (\<lambda>s. in_ids cs (fst s) \<or> in_ids ws (snd s)) (dt_settlements dt)
      then Some ''settlement_present''
      else if list_ex (\<lambda>s. in_ids cs (so_cycle s)) (ct_outbox (wd_tables db)) then Some ''speech_outbox_present''
      else (case dt_notices dt of
          None \<Rightarrow> Some ''proof_unavailable''
        | Some ns \<Rightarrow>
            if list_ex (in_ids cs) ns then Some ''system_notice_present''
            else if list_ex (\<lambda>a. wa_event a = e \<and> wa_truth a \<notin> {D_unknown, D_not_started}) (wd_attempts db)
            then Some ''dispatch_truth_present''
            else None))"

definition proveNoExternalDispatch ::
  "dispatch_tables \<Rightarrow> work_db \<Rightarrow> string \<Rightarrow> no_dispatch_proof" where
  "proveNoExternalDispatch dt db e =
     (case find_event db e of
        None \<Rightarrow> Unproven ''event_missing''
      | Some r \<Rightarrow>
          let w = text_of (ev_wake r) in
          if w = [] then Unproven ''wake_missing''
          else (case getWake (kernel db) w of
              None \<Rightarrow> Unproven ''wake_missing''
            | Some k \<Rightarrow>
                if w_cycle k = [] then Unproven ''cycle_missing''
                else (case find_cycle (kernel db) (w_cycle k) of
                    None \<Rightarrow> Unproven ''cycle_missing''
                  | Some c \<Rightarrow>
                      let es = lineageEventIds db e;
                          ws = js_uniq (w # wakes_of_events db es);
                          cs = js_uniq (w_cycle k # filter (\<lambda>c. c \<noteq> []) (cycles_of_wakes db ws))
                      in case proof_refusal dt db e es ws cs of
                           Some reason \<Rightarrow> Unproven reason
                         | None \<Rightarrow> Proven w (w_cycle k) (c_generation c))))"

section \<open>The pass at startup\<close>

record startup_recovery =
  su_scanned :: nat
  su_recovered :: nat
  su_left :: nat
  su_ids :: "string list"

definition stranded_event :: "event_row \<Rightarrow> bool" where
  "stranded_event r \<longleftrightarrow> ev_state r = E_reconciling \<and> ev_failure r = Some Fc_outcome_unknown_reconcile"

definition after_cursor :: "(int \<times> string) option \<Rightarrow> event_row \<Rightarrow> bool" where
  "after_cursor cursor r \<longleftrightarrow> (case cursor of None \<Rightarrow> True
     | Some (at, e) \<Rightarrow> ev_created r > at \<or> ev_created r = at \<and> e < ev_id r)"

definition startup_limit :: "int option \<Rightarrow> nat" where
  "startup_limit limit = nat (max 1 (min 500 (case limit of None \<Rightarrow> 100 | Some l \<Rightarrow> l)))"

definition startup_rows :: "(int \<times> string) option \<Rightarrow> int option \<Rightarrow> work_db \<Rightarrow> event_row list" where
  "startup_rows cursor limit db = take (startup_limit limit)
     (by_creation (filter (\<lambda>r. stranded_event r \<and> after_cursor cursor r) (wd_events db)))"

definition startup_proof_ref :: "string \<Rightarrow> int \<Rightarrow> string" where
  "startup_proof_ref e now = ''startup-no-dispatch:'' @ e @ '':'' @ int_text now"

definition startup_event ::
  "dispatch_tables \<Rightarrow> int \<Rightarrow> string \<Rightarrow> startup_recovery \<times> work_db \<Rightarrow> startup_recovery \<times> work_db" where
  "startup_event dt now e = (\<lambda>(res, db).
     if e = [] then (res, db)
     else let res1 = res\<lparr>su_scanned := su_scanned res + 1\<rparr>;
              left = res1\<lparr>su_left := su_left res1 + 1\<rparr>
       in case proveNoExternalDispatch dt db e of
            Unproven reason \<Rightarrow> (left, db)
          | Proven w c gen \<Rightarrow>
              (case reconcileOutcomeUnknown e now True (Some (startup_proof_ref e now)) db of
                 (Inr Ro_safe_to_retry, db1) \<Rightarrow>
                   (res1\<lparr>su_recovered := su_recovered res1 + 1, su_ids := su_ids res1 @ [e]\<rparr>, db1)
               | (_, db1) \<Rightarrow> (left, db1)))"

definition no_startup_recovery :: startup_recovery where
  "no_startup_recovery = \<lparr>su_scanned = 0, su_recovered = 0, su_left = 0, su_ids = []\<rparr>"

definition next_cursor :: "int option \<Rightarrow> event_row list \<Rightarrow> (int \<times> string) option" where
  "next_cursor limit rows =
     (if startup_limit limit \<le> length rows \<and> ev_id (last rows) \<noteq> []
      then Some (ev_created (last rows), ev_id (last rows)) else None)"

definition reconcileStrandedOutcomeUnknownAtStartup ::
  "dispatch_tables \<Rightarrow> int \<Rightarrow> int option \<Rightarrow> (int \<times> string) option \<Rightarrow> work_db \<Rightarrow>
   (startup_recovery \<times> (int \<times> string) option) \<times> work_db" where
  "reconcileStrandedOutcomeUnknownAtStartup dt now limit cursor db =
     (let rows = startup_rows cursor limit db;
          (res, db1) = fold (startup_event dt now) (map ev_id rows) (no_startup_recovery, db)
      in ((res, next_cursor limit rows), db1))"

end
