(* ===== verification/Owner_Principal.thy ===== *)
theory Owner_Principal
  imports Work_Reconcile
begin

text \<open>
  Who the Owner is: \<^verbatim>\<open>cognitive-v021/owner-principal.ts\<close> with \<^verbatim>\<open>owner-auth.ts\<close>. The environment,
  the conversation evidence and the origins of the worker undertakings are arguments, reduced to
  the columns that are read. \<open>toLowerCase\<close> is that of the Latin-1 letters.
\<close>

section \<open>Authorized ids\<close>

record host_env =
  he_owner :: string
  he_eval :: bool

definition isAuthorizedOwnerId :: "host_env \<Rightarrow> string \<Rightarrow> bool" where
  "isAuthorizedOwnerId env uid \<longleftrightarrow> uid \<noteq> [] \<and> he_owner env \<noteq> [] \<and>
     (uid = he_owner env \<or> he_eval env \<and> starts_with uid (he_owner env @ '':persona-eval:''))"

definition owner_placeholder :: "string \<Rightarrow> bool" where
  "owner_placeholder uid \<longleftrightarrow> js_lower uid \<in> {''owner'', ''default'', ''system'', ''user''}"

definition isValidOwnerCandidate :: "host_env \<Rightarrow> string \<Rightarrow> bool" where
  "isValidOwnerCandidate env uid \<longleftrightarrow> uid \<noteq> [] \<and> \<not> owner_placeholder uid \<and> isAuthorizedOwnerId env uid"

definition accept_owner :: "host_env \<Rightarrow> string \<Rightarrow> string option" where
  "accept_owner env uid = (if isValidOwnerCandidate env uid then Some uid else None)"

section \<open>Inputs\<close>

record evidence_row =
  er_id :: string
  er_speaker :: "string option"
  er_role :: string

record owner_tables =
  ow_evidence :: "evidence_row list"
  ow_undertakings :: "(string \<times> string) list"

record owner_query =
  oq_payload :: js_value
  oq_cycleOccupant :: "string option"
  oq_cycleTrigger :: "string option"
  oq_wakeOccupant :: "string option"
  oq_wakeTrigger :: "string option"
  oq_evidence :: "(string \<times> string option) option"
  oq_recovery :: "(string option \<times> js_value list option) option"
  oq_predecessor :: "string option"

text \<open>\<open>text(value)\<close>: the trimmed string, or the empty string.\<close>

definition value_text_of :: "js_value \<Rightarrow> string" where
  "value_text_of v = (if is_str v then js_trim (the_str v) else [])"

definition trimmed :: "string option \<Rightarrow> string" where
  "trimmed s = js_trim (text_of s)"

definition first_text :: "string list \<Rightarrow> string" where
  "first_text ts = (case filter (\<lambda>t. t \<noteq> []) ts of [] \<Rightarrow> [] | t # _ \<Rightarrow> t)"

definition parsePayload :: "js_value \<Rightarrow> js_value" where
  "parsePayload v = (case v of JObj fs \<Rightarrow> v | _ \<Rightarrow> JUndefined)"

definition curiosity_origin :: "string \<Rightarrow> bool" where
  "curiosity_origin s \<longleftrightarrow> s = ''ASHLEY_CURIOSITY'' \<or> s = ''SYSTEM_INITIATIVE''"

definition isAutonomousCuriosityContext :: "owner_tables \<Rightarrow> bool \<Rightarrow> owner_query \<Rightarrow> bool" where
  "isAutonomousCuriosityContext ow has_db q =
     (let p = oq_payload q;
          ref = value_text_of (js_prop p ''triggerRef'');
          undertaking = value_text_of (js_prop p ''workerUndertakingId'');
          kind = first_text [trimmed (oq_cycleTrigger q), trimmed (oq_wakeTrigger q)]
      in curiosity_origin (value_text_of (js_prop p ''originKind'')) \<or>
         starts_with ref ''curiosity:'' \<or> starts_with ref ''initiative:'' \<or>
         undertaking \<noteq> [] \<and> has_db \<and>
           curiosity_origin (trimmed (map_of (ow_undertakings ow) undertaking)) \<or>
         kind \<in> {''idle_opportunity'', ''commitment_due'', ''future_trigger_due'', ''subscription_item''})"

section \<open>The lineage of predecessors\<close>

text \<open>The owner a row of the evidence log names: its speaker, or the configured owner for a row without one.\<close>

definition evidence_owner :: "host_env \<Rightarrow> owner_tables \<Rightarrow> string \<Rightarrow> string option" where
  "evidence_owner env ow ref =
     (if ref = [] then None
      else (case sql_get (\<lambda>e. er_id e = ref) (ow_evidence ow) of
          None \<Rightarrow> None
        | Some e \<Rightarrow>
            if js_trim (er_role e) \<noteq> ''owner'' then None
            else if trimmed (er_speaker e) \<noteq> [] then accept_owner env (trimmed (er_speaker e))
            else accept_owner env (he_owner env)))"

fun first_some :: "('a \<Rightarrow> 'b option) \<Rightarrow> 'a list \<Rightarrow> 'b option" where
  "first_some f [] = None"
| "first_some f (x # xs) = (case f x of Some y \<Rightarrow> Some y | None \<Rightarrow> first_some f xs)"

definition cycle_occupant :: "work_db \<Rightarrow> string \<Rightarrow> string" where
  "cycle_occupant db w =
     (let c = map_option w_cycle (getWake (kernel db) w) in
      case sql_get (\<lambda>r. c_wake r = Some w \<or> c = Some (c_cycle r)) (cycle_records (effects (kernel db))) of
        None \<Rightarrow> [] | Some r \<Rightarrow> trimmed (c_occupant r))"

definition outstanding_refs :: "owner_query \<Rightarrow> js_value list" where
  "outstanding_refs q =
     (case js_prop (js_prop (oq_payload q) ''continuityRecovery'') ''outstandingOwnerEvidenceRefs'' of
        JArr vs \<Rightarrow> vs
      | _ \<Rightarrow> (case oq_recovery q of Some (_, Some vs) \<Rightarrow> vs | _ \<Rightarrow> []))"

text \<open>What one event of the lineage says about the owner.\<close>

definition event_owner ::
  "host_env \<Rightarrow> owner_tables \<Rightarrow> work_db \<Rightarrow> js_value list \<Rightarrow> event_row \<Rightarrow> string option" where
  "event_owner env ow db refs r =
     (let p = parsePayload (ev_payload r); w = trimmed (ev_wake r) in
      first_some id
        [accept_owner env (value_text_of (js_prop p ''ownerId'')),
         if w = [] then None else accept_owner env (cycle_occupant db w),
         evidence_owner env ow (value_text_of (js_prop p ''evidenceRowId'')),
         first_some (\<lambda>v. evidence_owner env ow (value_text_of v)) refs])"

fun lineage_owner ::
  "host_env \<Rightarrow> owner_tables \<Rightarrow> work_db \<Rightarrow> js_value list \<Rightarrow> nat \<Rightarrow> string list \<Rightarrow> string \<Rightarrow> string option" where
  "lineage_owner env ow db refs 0 seen pred = None"
| "lineage_owner env ow db refs (Suc depth) seen pred =
     (if pred = [] \<or> pred \<in> set seen then None
      else (case find_event db pred of
          None \<Rightarrow> None
        | Some r \<Rightarrow>
            (case event_owner env ow db refs r of
               Some uid \<Rightarrow> Some uid
             | None \<Rightarrow> lineage_owner env ow db refs depth (pred # seen)
                 (first_text [value_text_of (js_prop (parsePayload (ev_payload r)) ''repairOfEventId''),
                   trimmed (ev_repair_of r)]))))"

definition first_predecessor :: "owner_query \<Rightarrow> string" where
  "first_predecessor q = first_text
     [trimmed (case oq_recovery q of Some (p, _) \<Rightarrow> p | None \<Rightarrow> None), trimmed (oq_predecessor q),
      value_text_of (js_prop (oq_payload q) ''repairOfEventId''),
      value_text_of (js_prop (js_prop (oq_payload q) ''continuityRecovery'') ''primaryPredecessorEventId'')]"

definition OWNER_LINEAGE_DEPTH :: nat where "OWNER_LINEAGE_DEPTH = 5"

section \<open>The resolution\<close>

definition configured_owner :: "host_env \<Rightarrow> owner_tables \<Rightarrow> bool \<Rightarrow> owner_query \<Rightarrow> string option" where
  "configured_owner env ow has_db q =
     (if isValidOwnerCandidate env (js_trim (he_owner env)) \<and> isAutonomousCuriosityContext ow has_db q
      then Some (js_trim (he_owner env)) else None)"

definition fallback_owner ::
  "host_env \<Rightarrow> owner_tables \<Rightarrow> work_db option \<Rightarrow> owner_query \<Rightarrow> string option" where
  "fallback_owner env ow db q =
     (case (case db of None \<Rightarrow> None
            | Some d \<Rightarrow> lineage_owner env ow d (outstanding_refs q) OWNER_LINEAGE_DEPTH [] (first_predecessor q)) of
        Some uid \<Rightarrow> Some uid
      | None \<Rightarrow> configured_owner env ow (db \<noteq> None) q)"

definition resolveCanonicalOwnerPrincipal ::
  "host_env \<Rightarrow> owner_tables \<Rightarrow> work_db option \<Rightarrow> owner_query \<Rightarrow> string option" where
  "resolveCanonicalOwnerPrincipal env ow db q =
     (let claimed = value_text_of (js_prop (oq_payload q) ''ownerId'');
          cycle_owner = trimmed (oq_cycleOccupant q);
          wake_owner = trimmed (oq_wakeOccupant q)
      in if claimed \<noteq> [] then accept_owner env claimed
         else if cycle_owner \<noteq> [] then accept_owner env cycle_owner
         else if wake_owner \<noteq> [] then accept_owner env wake_owner
         else (case oq_evidence q of
             Some (role, speaker) \<Rightarrow>
               if role \<noteq> ''owner'' then fallback_owner env ow db q
               else if trimmed speaker \<noteq> [] then accept_owner env (trimmed speaker)
               else if isValidOwnerCandidate env (he_owner env) then Some (he_owner env)
               else fallback_owner env ow db q
           | None \<Rightarrow> fallback_owner env ow db q))"

section \<open>Only the Owner\<close>

lemma accept_owner_valid: "accept_owner env uid = Some x \<Longrightarrow> isValidOwnerCandidate env x"
  by (auto simp: accept_owner_def split: if_splits)

lemma evidence_owner_valid: "evidence_owner env ow ref = Some x \<Longrightarrow> isValidOwnerCandidate env x"
  by (auto simp: evidence_owner_def split: if_splits option.splits dest: accept_owner_valid)

lemma first_some_found: "first_some f xs = Some y \<Longrightarrow> \<exists>x \<in> set xs. f x = Some y"
  by (induction xs) (auto split: option.splits)

lemma event_owner_valid: "event_owner env ow db refs r = Some x \<Longrightarrow> isValidOwnerCandidate env x"
  unfolding event_owner_def Let_def
  by (drule first_some_found)
    (auto split: if_splits dest: accept_owner_valid [OF sym] evidence_owner_valid [OF sym]
      first_some_found [OF sym] evidence_owner_valid)

lemma lineage_owner_valid: "lineage_owner env ow db refs n seen p = Some x \<Longrightarrow> isValidOwnerCandidate env x"
  by (induction env ow db refs n seen p rule: lineage_owner.induct)
    (auto split: if_splits option.splits dest: event_owner_valid)

lemma fallback_owner_valid: "fallback_owner env ow db q = Some x \<Longrightarrow> isValidOwnerCandidate env x"
  by (auto simp: fallback_owner_def configured_owner_def split: option.splits if_splits
      dest: lineage_owner_valid)

lemma resolved_owner_valid:
  "resolveCanonicalOwnerPrincipal env ow db q = Some x \<Longrightarrow> isValidOwnerCandidate env x"
  by (auto simp: resolveCanonicalOwnerPrincipal_def Let_def split: if_splits option.splits prod.splits
      dest: accept_owner_valid fallback_owner_valid)

text \<open>
  C38. Whoever the resolution returns is the configured Owner (or, in the evaluation mode, one of the
  Owner's evaluation personas), never a placeholder such as \<open>owner\<close> or \<open>default\<close>; and a payload that
  names an owner is only ever resolved to that name, whatever the cycle, the wake, the evidence and
  the lineage of the event say.
\<close>

theorem owner_principal_sound:
  assumes "resolveCanonicalOwnerPrincipal env ow db q = Some uid"
  shows "(uid = he_owner env \<or> he_eval env \<and> (\<exists>persona. uid = he_owner env @ '':persona-eval:'' @ persona)) \<and>
    he_owner env \<noteq> [] \<and> \<not> owner_placeholder uid \<and>
    (value_text_of (js_prop (oq_payload q) ''ownerId'') \<in> {[], uid})"
proof -
  from resolved_owner_valid [OF assms] have "isValidOwnerCandidate env uid" .
  moreover have "value_text_of (js_prop (oq_payload q) ''ownerId'') \<in> {[], uid}"
    using assms by (auto simp: resolveCanonicalOwnerPrincipal_def Let_def accept_owner_def split: if_splits)
  ultimately show ?thesis
    by (auto simp: isValidOwnerCandidate_def isAuthorizedOwnerId_def starts_with_iff)
qed

definition sample_owner_query :: owner_query where
  "sample_owner_query = \<lparr>oq_payload = JObj [(''ownerId'', JStr '' 42 '')], oq_cycleOccupant = Some ''7'',
     oq_cycleTrigger = None, oq_wakeOccupant = None, oq_wakeTrigger = None, oq_evidence = None,
     oq_recovery = None, oq_predecessor = None\<rparr>"

lemma sample_owner_resolves:
  "resolveCanonicalOwnerPrincipal \<lparr>he_owner = ''42'', he_eval = False\<rparr> \<lparr>ow_evidence = [], ow_undertakings = []\<rparr>
     None sample_owner_query = Some ''42''"
  by code_simp

theorem owner_principal_sound_witness:
  "\<not> owner_placeholder ''42'' \<and> value_text_of (js_prop (oq_payload sample_owner_query) ''ownerId'') \<in> {[], ''42''}"
  using owner_principal_sound [OF sample_owner_resolves] by blast

end
