(* ===== verification/Work_Admission.thy ===== *)
theory Work_Admission
  imports Owner_Principal
begin

text \<open>
  How durable work comes in: the admission of a cycle and of an inbox event (\<^verbatim>\<open>cycle/inbox.ts\<close>) and
  the repair of an event that failed (\<open>createRepairEvent\<close> of \<^verbatim>\<open>retry/ledger.ts\<close>). The calls an
  owner utterance makes to the graduation and quiet tables are left out. \<open>sha\<close> is the hash of a
  text; the wake ledger hashes the occurrence id as \<open>sha256\<close> does.
\<close>

definition triggerKindForInbox :: "string \<Rightarrow> string" where
  "triggerKindForInbox kind =
     (if kind = ''external_message'' \<or> kind = ''external_utterance'' then ''external_message''
      else if kind \<in> {''future_trigger_due'', ''idle_opportunity'', ''commitment_due'', ''subscription_item'',
        ''self_change_result'', ''domus_notification'', ''observation_or_receipt'', ''recovery''} then kind
      else if kind = ''control_settlement_receipt'' then ''observation_or_receipt''
      else ''owner_message'')"

fun source_name :: "wake_source \<Rightarrow> string" where
  "source_name Src_inbox = ''inbox''"
| "source_name Src_future_trigger = ''future_trigger''"
| "source_name Src_idle = ''idle''"
| "source_name Src_subscription = ''subscription''"

definition occurrenceIdFor :: "(string \<Rightarrow> string) \<Rightarrow> wake_source \<Rightarrow> string \<Rightarrow> string \<Rightarrow> string" where
  "occurrenceIdFor sha src ref conv = ''wake-occurrence:'' @ sha256 sha (JObj
     [(''sourceKind'', JStr (source_name src)), (''triggerRef'', JStr ref), (''conversationId'', JStr conv)])"

definition string_hash :: "(string \<Rightarrow> string) \<Rightarrow> string \<Rightarrow> string" where
  "string_hash sha s = sha256 sha (JStr s)"

section \<open>The admission of a cycle\<close>

record cycle_admission =
  cy_conversation :: string
  cy_wake :: "string option"
  cy_cycle :: "string option"
  cy_generation :: "int option"
  cy_triggerKind :: string
  cy_triggerRef :: "string option"
  cy_occupant :: "string option"
  cy_authorityEpoch :: "int option"
  cy_architecture :: "string option"
  cy_now :: int
  cy_preempted :: "int option"

definition or_default :: "'a option \<Rightarrow> 'a \<Rightarrow> 'a" where
  "or_default x d = (case x of None \<Rightarrow> d | Some y \<Rightarrow> y)"

text \<open>A cycle id the caller asks for must be the wake's.\<close>

definition cycle_conflict :: "cycle_admission \<Rightarrow> string \<Rightarrow> bool" where
  "cycle_conflict i c \<longleftrightarrow> text_of (cy_cycle i) \<noteq> [] \<and> text_of (cy_cycle i) \<noteq> c"

definition cycleForWake :: "wake_db \<Rightarrow> string \<Rightarrow> cycle_row option" where
  "cycleForWake k w = (if w = [] then None else sql_get (\<lambda>r. c_wake r = Some w) (cycle_records (effects k)))"

definition admitted_cycle :: "cycle_admission \<Rightarrow> wake_row \<Rightarrow> string \<Rightarrow> int \<Rightarrow> cycle_row" where
  "admitted_cycle i wake c generation =
     \<lparr>c_cycle = c, c_conversation = cy_conversation i, c_generation = generation, c_wake = Some (w_id wake),
      c_trigger = Some (or_default (cy_triggerRef i) (w_trigger wake)), c_preempted = cy_preempted i,
      c_state = ''admitted'', c_trigger_kind = cy_triggerKind i, c_occupant = cy_occupant i,
      c_authority_epoch = or_default (cy_authorityEpoch i) 1,
      c_architecture = or_default (cy_architecture i) ARCHITECTURE_EPOCH,
      c_admitted = cy_now i, c_updated = cy_now i\<rparr>"

definition admit_new_cycle ::
  "cycle_admission \<Rightarrow> wake_row \<Rightarrow> wake_db \<Rightarrow> (cycle_row \<times> wake_db) throws" where
  "admit_new_cycle i wake k =
     (let c = or_default (cy_cycle i) (w_cycle wake) in
      case find_cycle k c of
        Some existing \<Rightarrow>
          if text_of (c_wake existing) \<noteq> w_id wake then Inl ''wake_cycle_conflict''
          else if w_id wake = [] then Inl ''cycle_corrupt'' else Inr (existing, k)
      | None \<Rightarrow>
          if (case getActiveDeferredFrontier (frontiers k) (cy_conversation i) of
                None \<Rightarrow> False | Some f \<Rightarrow> ft_cycle f \<noteq> c)
          then Inl ''conversation_occupied_by_frontier''
          else let rows = cycle_records (effects k);
                   generation = or_default (cy_generation i) (max_generation (cy_conversation i) rows + 1)
            in and_then (store_cycles (rows @ [admitted_cycle i wake c generation]) k) (\<lambda>k1.
                 case getCycle k1 c of
                   None \<Rightarrow> Inl ''cycle_admission_lost'' | Some r \<Rightarrow> Inr (r, k1)))"

definition admitCycleInTransaction ::
  "cycle_admission \<Rightarrow> wake_db \<Rightarrow> (cycle_row \<times> wake_db) throws" where
  "admitCycleInTransaction i k =
     (if blank (cy_conversation i) then Inl ''conversation_id_required''
      else if blank (text_of (cy_wake i)) then Inl ''wake_required''
      else and_then (getWakeRequired k (text_of (cy_wake i))) (\<lambda>wake.
        if w_state wake = W_terminal then Inl ''wake_terminal''
        else if w_conversation wake \<noteq> cy_conversation i then Inl ''wake_conversation_conflict''
        else if cycle_conflict i (w_cycle wake) then Inl ''wake_cycle_conflict''
        else (case cycleForWake k (w_id wake) of
            Some existing \<Rightarrow>
              if cycle_conflict i (c_cycle existing) then Inl ''wake_cycle_conflict''
              else Inr (existing, k)
          | None \<Rightarrow> admit_new_cycle i wake k)))"

section \<open>The admission of an event\<close>

record append_input =
  ap_wake :: "string option"
  ap_conversation :: string
  ap_kind :: string
  ap_payload :: js_value
  ap_created :: int
  ap_revision :: "js_num option"
  ap_terminal :: "string option"

definition getInboxEvent :: "work_db \<Rightarrow> string \<Rightarrow> event_row option" where
  "getInboxEvent db e = (case find_event db e of
     None \<Rightarrow> None | Some r \<Rightarrow> if text_of (ev_wake r) = [] then None else Some r)"

definition payload_string :: "js_value \<Rightarrow> string \<Rightarrow> string option" where
  "payload_string p k = (let v = js_prop p k in if is_str v then Some (the_str v) else None)"

definition payload_epoch :: "js_value \<Rightarrow> int" where
  "payload_epoch p = (case js_prop p ''authorityEpoch'' of JNum (NInt n) \<Rightarrow> n | _ \<Rightarrow> 1)"

definition append_admission ::
  "(string \<Rightarrow> string) \<Rightarrow> append_input \<Rightarrow> string \<Rightarrow> string option \<Rightarrow> wake_admission" where
  "append_admission sha i e cycle =
     (let p = parsePayload (ap_payload i) in
      \<lparr>wi_occurrenceId = occurrenceIdFor sha Src_inbox e (ap_conversation i), wi_triggerRef = e,
       wi_sourceKind = Src_inbox, wi_conversationId = ap_conversation i, wi_cycleId = cycle,
       wi_generation = None, wi_triggerKind = Some (triggerKindForInbox (ap_kind i)),
       wi_occupantId = payload_string p ''occupantId'', wi_authorityEpoch = Some (payload_epoch p),
       wi_architectureEpoch = None, wi_preemptedGeneration = None, wi_triggerGeneration = None,
       wi_authorityRevision = or_default (ap_revision i) (NInt 0), wi_nowMs = ap_created i\<rparr>)"

text \<open>A wake that already ended cannot take new work.\<close>

definition admitted_wake ::
  "(admission_kind \<times> wake_row) \<times> wake_db \<Rightarrow> string \<Rightarrow> (wake_row \<times> wake_db) throws" where
  "admitted_wake a err = (case a of ((kind, wake), k) \<Rightarrow>
     if kind = Wake_cancelled \<or> kind = Wake_stale then Inl err else Inr (wake, k))"

definition append_wake ::
  "(string \<Rightarrow> string) \<Rightarrow> append_input \<Rightarrow> string \<Rightarrow> wake_db \<Rightarrow> (string \<times> wake_db) throws" where
  "append_wake sha i e k =
     (let cycle = payload_string (parsePayload (ap_payload i)) ''cycleId'';
          given = text_of (ap_wake i);
          known = (if given \<noteq> [] then given
            else if text_of cycle \<noteq> []
            then (case getCycle k (text_of cycle) of None \<Rightarrow> [] | Some c \<Rightarrow> text_of (c_wake c)) else [])
      in if known \<noteq> [] then Inr (known, k)
         else and_then (admitWakeInTransaction (string_hash sha) (append_admission sha i e cycle) k) (\<lambda>a.
           and_then (admitted_wake a ''wake_terminal'') (\<lambda>(wake, k1). Inr (w_id wake, k1))))"

definition append_cycle :: "append_input \<Rightarrow> string \<Rightarrow> wake_row \<Rightarrow> cycle_admission" where
  "append_cycle i w wake =
     (let p = parsePayload (ap_payload i) in
      \<lparr>cy_conversation = ap_conversation i, cy_wake = Some w, cy_cycle = payload_string p ''cycleId'',
       cy_generation = None, cy_triggerKind = triggerKindForInbox (ap_kind i),
       cy_triggerRef = Some (or_default (payload_string p ''triggerRef'') (w_trigger wake)),
       cy_occupant = payload_string p ''occupantId'', cy_authorityEpoch = Some (payload_epoch p),
       cy_architecture = None, cy_now = ap_created i, cy_preempted = None\<rparr>)"

definition lineage_payload :: "js_value \<Rightarrow> string \<Rightarrow> string \<Rightarrow> js_value" where
  "lineage_payload p c w =
     (if parsePayload p = JUndefined then p
      else js_spread_set (js_spread_set p ''cycleId'' (JStr c)) ''wakeId'' (JStr w))"

definition new_event :: "append_input \<Rightarrow> string \<Rightarrow> string \<Rightarrow> string \<Rightarrow> event_row" where
  "new_event i e w c =
     (let done_at = text_of (ap_terminal i) \<noteq> [] in
      \<lparr>ev_id = e, ev_conversation = ap_conversation i, ev_kind = ap_kind i,
       ev_payload = json_norm (lineage_payload (ap_payload i) c w),
       ev_status = (if done_at then ''consumed'' else ''pending''),
       ev_state = (if done_at then E_terminal else E_pending), ev_token = None, ev_worker = None,
       ev_lease = None, ev_attempts = 0, ev_first = None, ev_next = None, ev_lane = ''interactive'',
       ev_priority = 0, ev_wake = Some w, ev_created = ap_created i, ev_claimed = None,
       ev_consumed = (if done_at then Some (ap_created i) else None), ev_error = None, ev_failure = None,
       ev_reason = ap_terminal i, ev_quarantine = None, ev_payload_hash = None, ev_repair_of = None\<rparr>)"

definition insert_event :: "event_row \<Rightarrow> work_db \<Rightarrow> work_db throws" where
  "insert_event r db = store_events (wd_events db @ [r]) db"

definition appendInboxEventInTransaction ::
  "(string \<Rightarrow> string) \<Rightarrow> append_input \<Rightarrow> string \<Rightarrow> work_db \<Rightarrow> (event_row \<times> work_db) throws" where
  "appendInboxEventInTransaction sha i e db =
     (case getInboxEvent db e of
        Some existing \<Rightarrow> Inr (existing, db)
      | None \<Rightarrow>
          and_then (on_kernel (append_wake sha i e) db) (\<lambda>(w, db1).
          and_then (getWakeRequired (kernel db1) w) (\<lambda>wake.
            if w_conversation wake \<noteq> ap_conversation i then Inl ''wake_conversation_conflict''
            else and_then (on_kernel (admitCycleInTransaction (append_cycle i w wake)) db1) (\<lambda>(cycle, db2).
              and_then (insert_event (new_event i e w (c_cycle cycle)) db2) (\<lambda>db3.
                case getInboxEvent db3 e of
                  None \<Rightarrow> Inl ''inbox_append_lost'' | Some r \<Rightarrow> Inr (r, db3))))))"

definition appendInboxEvent ::
  "(string \<Rightarrow> string) \<Rightarrow> string \<Rightarrow> append_input \<Rightarrow> string option \<Rightarrow> work_db \<Rightarrow> event_row throws \<times> work_db" where
  "appendInboxEvent sha uuid i e =
     in_immediate_transaction (appendInboxEventInTransaction sha i (or_default e uuid))"

section \<open>Repairs\<close>

record continuity_recovery =
  cr_primary :: string
  cr_refs :: "js_value list"
  cr_reason :: string

record repair_request =
  rq_predecessor :: string
  rq_authorization :: string
  rq_now :: int
  rq_event :: "string option"
  rq_payload :: js_value
  rq_recovery :: "continuity_recovery option"

record repair_event =
  rx_event :: string
  rx_wake :: string
  rx_cycle :: string
  rx_predecessor :: string
  rx_authorization :: string

definition repair_event_id :: "(string \<Rightarrow> string) \<Rightarrow> repair_request \<Rightarrow> string" where
  "repair_event_id sha i = or_default (rq_event i) (''repair:'' @ sha256 sha (JObj
     [(''predecessorEventId'', JStr (rq_predecessor i)), (''authorizationRef'', JStr (rq_authorization i))]))"

text \<open>The join of the repair with its event and the event's wake.\<close>

definition existingRepair :: "work_db \<Rightarrow> string \<Rightarrow> string \<Rightarrow> repair_event option" where
  "existingRepair db predecessor authorization =
     (case sql_get (\<lambda>p. rp_predecessor p = predecessor \<and> rp_authorization p = authorization) (wd_repairs db) of
        None \<Rightarrow> None
      | Some p \<Rightarrow>
          (case find_event db (rp_event p) of
             None \<Rightarrow> None
           | Some r \<Rightarrow>
               (case ev_wake r of
                  None \<Rightarrow> None
                | Some w \<Rightarrow> map_option (\<lambda>wake. \<lparr>rx_event = rp_event p, rx_wake = w, rx_cycle = w_cycle wake,
                    rx_predecessor = predecessor, rx_authorization = authorization\<rparr>) (getWake (kernel db) w))))"

definition repairable :: "event_row \<Rightarrow> bool" where
  "repairable r \<longleftrightarrow> ev_state r = E_reconciling \<or> ev_state r = E_quarantined \<or>
     ev_state r = E_terminal \<and> ev_status r = ''failed_terminal''"

definition recovery_valid :: "continuity_recovery \<Rightarrow> bool" where
  "recovery_valid c \<longleftrightarrow> cr_refs c \<noteq> [] \<and> list_all nonblank_str (cr_refs c) \<and>
     cr_reason c = ''unanswered_owner_obligation_recovery'' \<and> \<not> blank (cr_primary c)"

definition repair_query :: "repair_request \<Rightarrow> owner_query" where
  "repair_query i = \<lparr>oq_payload = JUndefined, oq_cycleOccupant = None, oq_cycleTrigger = None,
     oq_wakeOccupant = None, oq_wakeTrigger = None, oq_evidence = None,
     oq_recovery = map_option (\<lambda>c. (Some (cr_primary c), Some (cr_refs c))) (rq_recovery i),
     oq_predecessor = Some (rq_predecessor i)\<rparr>"

definition repair_payload :: "repair_request \<Rightarrow> string \<Rightarrow> string option \<Rightarrow> js_value" where
  "repair_payload i e owner = JObj
     ([(''referenceOnly'', JBool True), (''repairOfEventId'', JStr (rq_predecessor i)),
       (''authorizationRef'', JStr (rq_authorization i))] @
      (case owner of None \<Rightarrow> [] | Some uid \<Rightarrow> [(''ownerId'', JStr uid)]) @
      (case rq_recovery i of None \<Rightarrow> []
       | Some c \<Rightarrow> [(''continuityRecovery'', JObj
           [(''repairEventId'', JStr e), (''primaryPredecessorEventId'', JStr (cr_primary c)),
            (''outstandingOwnerEvidenceRefs'', JArr (cr_refs c)), (''reason'', JStr (cr_reason c))])]))"

definition repair_admission ::
  "(string \<Rightarrow> string) \<Rightarrow> repair_request \<Rightarrow> string \<Rightarrow> string \<Rightarrow> string option \<Rightarrow> wake_admission" where
  "repair_admission sha i e conv owner =
     \<lparr>wi_occurrenceId = occurrenceIdFor sha Src_inbox e conv, wi_triggerRef = e, wi_sourceKind = Src_inbox,
      wi_conversationId = conv, wi_cycleId = None, wi_generation = None, wi_triggerKind = Some ''recovery'',
      wi_occupantId = owner, wi_authorityEpoch = None, wi_architectureEpoch = None,
      wi_preemptedGeneration = None, wi_triggerGeneration = None, wi_authorityRevision = NInt 0,
      wi_nowMs = rq_now i\<rparr>"

definition new_repair :: "(string \<Rightarrow> string) \<Rightarrow> repair_request \<Rightarrow> string \<Rightarrow> event_row \<Rightarrow> string \<Rightarrow> string option \<Rightarrow> event_row" where
  "new_repair sha i e pred w owner =
     \<lparr>ev_id = e, ev_conversation = ev_conversation pred, ev_kind = ''repair'',
      ev_payload = repair_payload i e owner, ev_status = ''pending'', ev_state = E_pending, ev_token = None,
      ev_worker = None, ev_lease = None, ev_attempts = 0, ev_first = None, ev_next = None,
      ev_lane = ev_lane pred, ev_priority = ev_priority pred, ev_wake = Some w, ev_created = rq_now i,
      ev_claimed = None, ev_consumed = None, ev_error = None, ev_failure = None, ev_reason = None,
      ev_quarantine = None, ev_payload_hash = Some (sha256 sha (js_or (rq_payload i) JNull)),
      ev_repair_of = Some (rq_predecessor i)\<rparr>"

definition create_repair ::
  "host_env \<Rightarrow> owner_tables \<Rightarrow> (string \<Rightarrow> string) \<Rightarrow> repair_request \<Rightarrow> string \<Rightarrow> work_db \<Rightarrow>
   (repair_event \<times> work_db) throws" where
  "create_repair env ow sha i e db =
     and_then (event db (rq_predecessor i)) (\<lambda>pred.
       if \<not> repairable pred then Inl ''repair_predecessor_not_reconciling''
       else if (case rq_recovery i of None \<Rightarrow> False | Some c \<Rightarrow> \<not> recovery_valid c)
       then Inl ''repair_continuity_recovery_invalid''
       else let owner = resolveCanonicalOwnerPrincipal env ow (Some db) (repair_query i) in
         and_then (on_kernel (\<lambda>k. and_then (admitWakeInTransaction (string_hash sha)
             (repair_admission sha i e (ev_conversation pred) owner) k) (\<lambda>a.
             admitted_wake a ''repair_wake_terminal'')) db) (\<lambda>(wake, db1).
         and_then (insert_event (new_repair sha i e pred (w_id wake) owner) db1) (\<lambda>db2.
         and_then (store_repairs (wd_repairs db2 @ [\<lparr>rp_event = e, rp_predecessor = rq_predecessor i,
             rp_authorization = rq_authorization i, rp_created = rq_now i\<rparr>]) db2) (\<lambda>db3.
           Inr (\<lparr>rx_event = e, rx_wake = w_id wake, rx_cycle = w_cycle wake,
             rx_predecessor = rq_predecessor i, rx_authorization = rq_authorization i\<rparr>, db3)))))"

definition createRepairEvent ::
  "host_env \<Rightarrow> owner_tables \<Rightarrow> (string \<Rightarrow> string) \<Rightarrow> repair_request \<Rightarrow> work_db \<Rightarrow>
   repair_event throws \<times> work_db" where
  "createRepairEvent env ow sha i db =
     (if blank (rq_authorization i) then (Inl ''repair_authority_missing'', db)
      else in_immediate_transaction (\<lambda>db.
        case existingRepair db (rq_predecessor i) (rq_authorization i) of
          Some r \<Rightarrow> Inr (r, db)
        | None \<Rightarrow> create_repair env ow sha i (repair_event_id sha i) db) db)"

end
