(* ===== verification/Work_Changes.thy ===== *)
theory Work_Changes
  imports Work_Admission Transition_Systems Wake_Lifecycle
begin

text \<open>
  What the operations on durable work do to the events and their attempts, as a few kinds of
  change: rows that move along the edges of the work states, the claim with its attempt, the end
  of an attempt, an admission. Every operation is a sequence of such changes.
\<close>

section \<open>Rows\<close>

text \<open>The state changes of a row, the claim excepted; a write may leave the state as it is.\<close>

definition work_edge :: "work_state \<Rightarrow> work_state \<Rightarrow> bool" where
  "work_edge s t \<longleftrightarrow> t = s \<or> t = E_quarantined \<or>
     (s, t) \<in> {(E_leased, E_pending), (E_leased, E_retry_wait), (E_leased, E_reconciling),
       (E_leased, E_terminal), (E_pending, E_terminal), (E_retry_wait, E_terminal), (E_retry_wait, E_pending),
       (E_reconciling, E_pending), (E_reconciling, E_terminal)}"

text \<open>The lease, its token and its worker are there exactly while the event is leased.\<close>

definition lease_ok :: "event_row \<Rightarrow> bool" where
  "lease_ok r \<longleftrightarrow> (if leased r then ev_token r \<noteq> None \<and> ev_worker r \<noteq> None \<and> ev_lease r \<noteq> None
     else ev_token r = None \<and> ev_worker r = None \<and> ev_lease r = None)"

definition ev_move :: "event_row \<Rightarrow> event_row \<Rightarrow> bool" where
  "ev_move r r' \<longleftrightarrow> ev_id r' = ev_id r \<and> lane_of r' = lane_of r \<and> ev_wake r' = ev_wake r \<and>
     ev_attempts r' = ev_attempts r \<and> ev_first r' = ev_first r \<and>
     work_edge (ev_state r) (ev_state r') \<and> (lease_ok r \<longrightarrow> lease_ok r')"

lemmas event_row_ops = to_quarantined_def to_reclaimed_def to_reconciling_def to_consumed_def
  clear_failure_def to_retry_wait_def to_failed_def to_reconciled_def to_failed_reconciled_def
  to_safe_retry_def release_event_def

lemma event_moves:
  "ev_move r (to_quarantined reason r)"
  "ev_state r = E_leased \<Longrightarrow> ev_move r (to_reclaimed r)"
  "ev_state r = E_leased \<Longrightarrow> ev_move r (to_reconciling err r)"
  "ev_state r \<in> {E_pending, E_retry_wait, E_leased} \<Longrightarrow> ev_move r (to_consumed reason now r)"
  "ev_state r \<in> {E_pending, E_retry_wait, E_leased} \<Longrightarrow> ev_move r (clear_failure (to_consumed reason now r))"
  "ev_state r = E_leased \<Longrightarrow> ev_move r (to_retry_wait at class err r)"
  "ev_state r = E_leased \<Longrightarrow> state = E_terminal \<or> state = E_quarantined \<Longrightarrow>
     ev_move r (to_failed state reason q class err r)"
  "ev_state r = E_retry_wait \<Longrightarrow> ev_move r (r\<lparr>ev_state := E_pending, ev_status := ''pending''\<rparr>)"
  "ev_state r = E_reconciling \<Longrightarrow> ev_move r (to_reconciled now r)"
  "ev_state r = E_reconciling \<Longrightarrow> ev_move r (to_failed_reconciled err r)"
  "ev_state r = E_reconciling \<Longrightarrow> ev_move r (to_safe_retry p r)"
  "ev_state r = E_leased \<Longrightarrow> ev_move r (r\<lparr>ev_lease := Some t\<rparr>)"
  by (auto simp: ev_move_def event_row_ops work_edge_def lease_ok_def leased_def lane_of_def)

text \<open>An attempt keeps its identity; only its end and its error are written.\<close>

definition at_move :: "attempt_row \<Rightarrow> attempt_row \<Rightarrow> bool" where
  "at_move a a' \<longleftrightarrow> wa_id a' = wa_id a \<and> wa_event a' = wa_event a \<and> wa_wake a' = wa_wake a \<and>
     wa_ordinal a' = wa_ordinal a \<and> wa_worker a' = wa_worker a \<and> wa_started a' = wa_started a \<and>
     (wa_finished a \<noteq> None \<longrightarrow> wa_finished a' = wa_finished a \<and> wa_truth a' = wa_truth a)"

section \<open>Changes\<close>

inductive work_change :: "work_db \<Rightarrow> work_db \<Rightarrow> bool" where
  change_other: "wd_events db' = wd_events db \<Longrightarrow> wd_attempts db' = wd_attempts db \<Longrightarrow> work_change db db'"
| change_rows: "rows_move ev_move (wd_events db) rows \<Longrightarrow> event_indexes rows \<Longrightarrow>
    work_change db (db\<lparr>wd_events := rows\<rparr>)"
| change_attempts: "rows_move at_move (wd_attempts db) rows \<Longrightarrow> attempt_indexes rows \<Longrightarrow>
    work_change db (db\<lparr>wd_attempts := rows\<rparr>)"
| change_claim: "current \<in> set (wd_events db) \<Longrightarrow> ev_state current = E_pending \<Longrightarrow>
    ev_attempts current < MAX_ATTEMPTS \<Longrightarrow> now < first_attempt current now + MAX_RETRY_AGE_MS \<Longrightarrow>
    events = sql_update (\<lambda>r. ev_id r = ev_id current \<and> ev_state r = E_pending)
      (to_leased current token worker now lease) (wd_events db) \<Longrightarrow>
    event_indexes events \<Longrightarrow> attempts = wd_attempts db @ [new_attempt current a worker now] \<Longrightarrow>
    attempt_indexes attempts \<Longrightarrow>
    work_change db (db\<lparr>wd_events := events, wd_attempts := attempts, wd_fairness := f\<rparr>)"
| change_append: "ev_state r \<noteq> E_leased \<Longrightarrow> lease_ok r \<Longrightarrow> ev_attempts r = 0 \<Longrightarrow>
    ev_first r = None \<Longrightarrow> event_indexes (wd_events db @ [r]) \<Longrightarrow>
    work_change db (db\<lparr>wd_events := wd_events db @ [r]\<rparr>)"

abbreviation work_changes :: "work_db \<Rightarrow> work_db \<Rightarrow> bool" where
  "work_changes \<equiv> work_change\<^sup>*\<^sup>*"

text \<open>A transaction's body only makes such changes.\<close>

definition changes_only :: "(work_db \<Rightarrow> ('a \<times> work_db) throws) \<Rightarrow> bool" where
  "changes_only work \<longleftrightarrow> (\<forall>db x db'. work db = Inr (x, db') \<longrightarrow> work_changes db db')"

lemma transaction_work_changes:
  "changes_only work \<Longrightarrow> work_changes db (snd (in_immediate_transaction work db))"
  by (auto simp: in_immediate_transaction_def changes_only_def split: sum.splits prod.splits)

section \<open>The statements\<close>

lemma update_events_eq:
  "update_events match f db = Inr (n, db') \<longleftrightarrow>
     (let rows = sql_update match f (wd_events db) in
      event_indexes rows \<and> db' = db\<lparr>wd_events := rows\<rparr> \<and> n = sql_changes match (wd_events db))"
  by (auto simp: update_events_def store_events_def and_then_eq_Inr Let_def)

lemma update_events_change:
  assumes "update_events match f db = Inr (n, db')"
    and "\<And>r. r \<in> set (wd_events db) \<Longrightarrow> match r \<Longrightarrow> ev_move r (f r)"
  shows "work_change db db'"
  using assms(1) by (auto simp: update_events_eq Let_def intro!: change_rows rows_move_update assms(2))

lemma store_attempts_eq:
  "store_attempts rows db = Inr db' \<longleftrightarrow> attempt_indexes rows \<and> db' = db\<lparr>wd_attempts := rows\<rparr>"
  by (auto simp: store_attempts_def)

lemma update_attempts_change:
  assumes "store_attempts (sql_update match f (wd_attempts db)) db = Inr db'"
    and "\<And>r. match r \<Longrightarrow> at_move r (f r)"
  shows "work_change db db'"
  using assms(1) by (auto simp: store_attempts_eq intro!: change_attempts rows_move_update assms(2))

lemma set_kernel_simps [simp]:
  "wd_events (set_kernel k db) = wd_events db" "wd_attempts (set_kernel k db) = wd_attempts db"
  "wd_repairs (set_kernel k db) = wd_repairs db" "wd_tables (set_kernel k db) = wd_tables db"
  "wd_fairness (set_kernel k db) = wd_fairness db" "wd_c3 (set_kernel k db) = wd_c3 db"
  "kernel (set_kernel k db) = k"
  by (simp_all add: set_kernel_def kernel_def)

lemma on_kernel_eq:
  "on_kernel work db = Inr (x, db') \<longleftrightarrow> (\<exists>k. work (kernel db) = Inr (x, k) \<and> db' = set_kernel k db)"
  by (auto simp: on_kernel_def and_then_eq_Inr)

lemma run_kernel_eq:
  "run_kernel work db = Inr db' \<longleftrightarrow> (\<exists>x k. work (kernel db) = Inr (x, k) \<and> db' = set_kernel k db)"
  by (auto simp: run_kernel_def and_then_eq_Inr on_kernel_eq)

lemma set_kernel_change: "work_change db (set_kernel k db)"
  by (rule change_other) simp_all

text \<open>What only touches the wakes, cycles and frontiers.\<close>

definition kernel_only :: "work_db \<Rightarrow> work_db \<Rightarrow> bool" where
  "kernel_only db db' \<longleftrightarrow> (\<exists>k. db' = set_kernel k db)"

lemma kernel_only_refl: "kernel_only db db"
  by (auto simp: kernel_only_def set_kernel_def kernel_def intro!: exI [of _ "bd_kernel (wd_budget db)"])

lemma kernel_only_set [simp]: "kernel_only db (set_kernel k db)"
  by (auto simp: kernel_only_def)

lemma kernel_only_trans: "kernel_only db db1 \<Longrightarrow> kernel_only db1 db2 \<Longrightarrow> kernel_only db db2"
  by (auto simp: kernel_only_def set_kernel_def)

lemma kernel_only_change: "kernel_only db db' \<Longrightarrow> work_change db db'"
  by (auto simp: kernel_only_def intro: set_kernel_change)

lemma kernel_only_tables:
  assumes "kernel_only db db'"
  shows "wd_events db' = wd_events db" "wd_attempts db' = wd_attempts db" "wd_repairs db' = wd_repairs db"
    "wd_tables db' = wd_tables db"
  using assms by (auto simp: kernel_only_def)

lemma move_wake_kernel: "move_wake w f db = Inr db' \<Longrightarrow> kernel_only db db'"
  by (auto simp: move_wake_def run_kernel_eq)

lemma wake_moves_kernel:
  "wakeToPending w now db = Inr db' \<Longrightarrow> kernel_only db db'"
  "wakeToReconciling w now db = Inr db' \<Longrightarrow> kernel_only db db'"
  "wakeToTerminal w reason now db = Inr db' \<Longrightarrow> kernel_only db db'"
  by (auto simp: wakeToPending_def wakeToReconciling_def wakeToTerminal_def kernel_only_refl
      split: option.splits if_splits dest: move_wake_kernel)

lemma finishWakeForEvent_kernel:
  "finishWakeForEvent current reason now db = Inr db' \<Longrightarrow> kernel_only db db'"
  by (auto simp: finishWakeForEvent_def Let_def run_kernel_eq kernel_only_refl
      split: option.splits if_splits dest: wake_moves_kernel)

lemma retire_kernel:
  "retireOwnerlessCycleForTerminalEvent w now db = Inr db' \<Longrightarrow> kernel_only db db'"
  by (auto simp: retireOwnerlessCycleForTerminalEvent_def run_kernel_eq kernel_only_refl
      split: option.splits if_splits)

lemma two_changes: "work_change db db1 \<Longrightarrow> work_change db1 db2 \<Longrightarrow> work_changes db db2"
  by (meson r_into_rtranclp rtranclp.rtrancl_into_rtrancl)

lemma quarantine_changes:
  assumes "quarantineEvent current reason now db = Inr db'"
  shows "work_changes db db'"
proof -
  from assms obtain n db1 db2 where up: "update_events (\<lambda>r. ev_id r = ev_id current) (to_quarantined reason) db = Inr (n, db1)"
    and k: "db2 = db1 \<or> wakeToTerminal (text_of (ev_wake current)) R_quarantined now db1 = Inr db2"
    and ret: "retireOwnerlessCycleForTerminalEvent (ev_wake current) now db2 = Inr db'"
    by (auto simp: quarantineEvent_def and_then_eq_Inr Let_def split: if_splits)
  have "work_change db db1" using update_events_change [OF up] event_moves(1) by blast
  moreover have "kernel_only db1 db'"
    using k retire_kernel [OF ret] wake_moves_kernel(3) kernel_only_trans by blast
  ultimately show ?thesis using kernel_only_change two_changes by blast
qed

section \<open>Recovery and normalization\<close>

lemma recover_event_changes:
  assumes "recover_event now e (res, db) = Inr (res', db')"
  shows "work_changes db db'"
proof -
  from assms consider "db' = db"
    | w n db1 where "update_events (is_leased e) to_reclaimed db = Inr (n, db1)"
        "wakeToPending w now db1 = Inr db'"
    | w n db1 where "update_events (is_leased e) (to_reconciling ''recovered_after_possible_dispatch'') db = Inr (n, db1)"
        "wakeToReconciling w now db1 = Inr db'"
    | current reason where "quarantineEvent current reason now db = Inr db'"
    unfolding recover_event_def
    by (simp add: Let_def and_then_eq_Inr split: if_splits sum.splits option.splits) blast+
  then show ?thesis
  proof cases
    case 2
    then show ?thesis
      using update_events_change [OF 2(1)] event_moves(2) wake_moves_kernel(1) kernel_only_change two_changes
      by (metis is_leased_def)
  next
    case 3
    then show ?thesis
      using update_events_change [OF 3(1)] event_moves(3) wake_moves_kernel(2) kernel_only_change two_changes
      by (metis is_leased_def)
  next
    case 4
    then show ?thesis by (rule quarantine_changes)
  qed simp
qed

lemma recover_events_changes:
  "recover_events now es s = Inr s' \<Longrightarrow> work_changes (snd s) (snd s')"
proof (induction now es s rule: recover_events.induct)
  case (2 now e es s)
  then obtain s1 where "recover_event now e s = Inr s1" "recover_events now es s1 = Inr s'"
    by (auto simp: and_then_eq_Inr)
  with 2 recover_event_changes [of now e "fst s" "snd s" "fst s1" "snd s1"] show ?case
    by (metis prod.collapse rtranclp_trans)
qed simp

lemma recovery_changes:
  "recoverExpiredDurableWorkInTransaction now e db = Inr (res, db') \<Longrightarrow> work_changes db db'"
  unfolding recoverExpiredDurableWorkInTransaction_def by (drule recover_events_changes) simp

lemma normalize_retry_changes:
  assumes "normalizeEligibleRetryWait now e db = Inr db'"
  shows "work_changes db db'"
proof -
  from assms obtain n where "update_events (\<lambda>r. ev_state r = E_retry_wait \<and> ev_due now r \<and> only_event e r)
      (\<lambda>r. r\<lparr>ev_state := E_pending, ev_status := ''pending''\<rparr>) db = Inr (n, db')"
    by (auto simp: normalizeEligibleRetryWait_def and_then_eq_Inr)
  from update_events_change [OF this] event_moves(8) show ?thesis by blast
qed

lemma quarantine_all_changes: "quarantine_all now es db = Inr db' \<Longrightarrow> work_changes db db'"
proof (induction now es db rule: quarantine_all.induct)
  case (2 now e es db)
  then obtain db1 where b: "quarantine_bounded now e db = Inr db1" and r: "quarantine_all now es db1 = Inr db'"
    by (auto simp: and_then_eq_Inr)
  from b have "work_changes db db1"
    by (auto simp: quarantine_bounded_def and_then_eq_Inr split: if_splits dest: quarantine_changes)
  with 2 b r show ?case by (metis rtranclp_trans)
qed simp

lemma normalize_changes: "normalize_work now e db = Inr db' \<Longrightarrow> work_changes db db'"
  unfolding normalize_work_def normalizeBoundedRows_def
  by (auto simp: and_then_eq_Inr dest!: recovery_changes normalize_retry_changes quarantine_all_changes)

end
