(* ===== verification/Work_Steps.thy ===== *)
theory Work_Steps
  imports Work_Changes
begin

text \<open>
  Every operation on durable work is a sequence of the changes of \<^verbatim>\<open>Work_Changes\<close>: the claim, the
  settlement, the reconciliation, the pass at startup and the admissions.
\<close>

section \<open>The claim\<close>

lemma claim_refusal_none:
  assumes "claim_refusal db current worker now = Inr u"
  shows "ev_state current = E_pending" "ev_attempts current < MAX_ATTEMPTS"
    "now < first_attempt current now + MAX_RETRY_AGE_MS"
    "case ev_next current of None \<Rightarrow> True | Some t \<Rightarrow> t \<le> now"
  using assms by (auto simp: claim_refusal_def and_then_eq_Inr first_attempt_def
      split: if_splits option.splits)

text \<open>The statements of a claim that succeeds.\<close>

lemma claim_parts:
  assumes "claimCandidateInTransaction uuids current worker now lease db = Inr (a, db')"
  obtains u token r k1 k2 n db3 where
    "claim_refusal db current worker now = Inr u"
    "claimWakeInTransaction (fst uuids) (text_of (ev_wake current)) worker now lease (kernel db) = Inr ((token, r), k1)"
    "\<exists>auth. authorizeWakeInTransaction (text_of (ev_wake current)) token now k1 = Inr (auth, k2) \<and> w_token auth = Some token"
    "update_events (\<lambda>r. ev_id r = ev_id current \<and> ev_state r = E_pending)
      (to_leased current token worker now lease) (set_kernel k2 db) = Inr (n, db3)"
    "n = 1" "attempt_indexes (wd_attempts db @ [new_attempt current (''attempt:'' @ snd uuids) worker now])"
    "db' = db3\<lparr>wd_attempts := wd_attempts db @ [new_attempt current (''attempt:'' @ snd uuids) worker now],
       wd_fairness := serve_lane current now (wd_fairness db)\<rparr>"
    "a = claimed_attempt current (''attempt:'' @ snd uuids) token worker now"
proof -
  from assms obtain u token r k1 auth k2 n db3 db4 where parts:
      "claim_refusal db current worker now = Inr u"
      "claimWakeInTransaction (fst uuids) (text_of (ev_wake current)) worker now lease (kernel db) = Inr ((token, r), k1)"
      "authorizeWakeInTransaction (text_of (ev_wake current)) token now k1 = Inr (auth, k2)" "w_token auth = Some token"
    and up: "update_events (\<lambda>r. ev_id r = ev_id current \<and> ev_state r = E_pending)
      (to_leased current token worker now lease) (set_kernel k2 db) = Inr (n, db3)" "n = 1"
    and st: "store_attempts (wd_attempts db3 @ [new_attempt current (''attempt:'' @ snd uuids) worker now]) db3 = Inr db4"
    and out: "a = claimed_attempt current (''attempt:'' @ snd uuids) token worker now"
      "db' = db4\<lparr>wd_fairness := serve_lane current now (wd_fairness db4)\<rparr>"
    unfolding claimCandidateInTransaction_def
    by (auto simp: and_then_eq_Inr Let_def on_kernel_eq set_kernel_def kernel_def split: if_splits)
  have db3: "wd_attempts db3 = wd_attempts db" "wd_fairness db3 = wd_fairness db"
    using up(1) by (auto simp: update_events_eq Let_def)
  show ?thesis
    by (rule that [of u token r k1 k2 n db3])
      (use parts up st out db3 in \<open>auto simp: store_attempts_eq\<close>)
qed

lemma claim_candidate_changes:
  assumes "claimCandidateInTransaction uuids current worker now lease db = Inr (a, db')"
    and current: "current \<in> set (wd_events db)"
  shows "work_changes db db'"
  using assms(1)
proof (rule claim_parts)
  fix u token r k1 k2 n db3
  let ?events = "sql_update (\<lambda>r. ev_id r = ev_id current \<and> ev_state r = E_pending)
    (to_leased current token worker now lease) (wd_events db)"
  let ?attempts = "wd_attempts db @ [new_attempt current (''attempt:'' @ snd uuids) worker now]"
  assume refusal: "claim_refusal db current worker now = Inr u"
    and up: "update_events (\<lambda>r. ev_id r = ev_id current \<and> ev_state r = E_pending)
      (to_leased current token worker now lease) (set_kernel k2 db) = Inr (n, db3)"
    and ix: "attempt_indexes ?attempts"
    and db': "db' = db3\<lparr>wd_attempts := ?attempts, wd_fairness := serve_lane current now (wd_fairness db)\<rparr>"
  let ?db1 = "set_kernel k2 db"
  have ev: "event_indexes ?events" and db3: "db3 = ?db1\<lparr>wd_events := ?events\<rparr>"
    using up by (auto simp: update_events_eq Let_def)
  have "work_change ?db1 (?db1\<lparr>wd_events := ?events, wd_attempts := ?attempts,
      wd_fairness := serve_lane current now (wd_fairness db)\<rparr>)"
    by (rule change_claim [of current _ now _ token worker lease])
      (use current claim_refusal_none [OF refusal] ev ix in simp_all)
  with set_kernel_change db3 db' show ?thesis by (auto intro: two_changes)
qed

lemma event_row: "event db e = Inr r \<Longrightarrow> r \<in> set (wd_events db) \<and> ev_id r = e"
  by (auto simp: event_def find_event_def split: option.splits dest: sql_get_SomeD)

lemma claim_next_changes: "changes_only (claim_next uuids collate i now)"
  unfolding changes_only_def
proof (intro allI impI)
  fix db x db' assume "claim_next uuids collate i now db = Inr (x, db')"
  then obtain db1 where n: "normalize_work now None db = Inr db1" and "db' = db1 \<or> (\<exists>current e a.
      event db1 e = Inr current \<and>
      claimCandidateInTransaction uuids current (ci_worker i) now (claim_lease (ci_lease i)) db1 = Inr (a, db'))"
    by (simp add: claim_next_def and_then_eq_Inr split: option.splits) blast+
  then have "work_changes db1 db'" by (auto dest: event_row claim_candidate_changes)
  with normalize_changes [OF n] show "work_changes db db'" by simp
qed

lemma claimNextDurableWork_changes: "work_changes db (snd (claimNextDurableWork uuids collate i now db))"
  unfolding claimNextDurableWork_def by (rule transaction_work_changes) (rule claim_next_changes)

lemma startDurableAttempt_changes: "work_changes db (snd (startDurableAttempt uuids e worker now lease db))"
  unfolding startDurableAttempt_def
proof (rule transaction_work_changes, unfold changes_only_def, intro allI impI)
  fix db x db'
  assume "and_then (normalize_work now (Some e) db) (\<lambda>db1. and_then (event db1 e) (\<lambda>current.
      if ev_state current \<noteq> E_pending then Inl ''durable_work_not_eligible''
      else claimCandidateInTransaction uuids current worker now (claim_lease lease) db1)) = Inr (x, db')"
  then obtain db1 current where "normalize_work now (Some e) db = Inr db1" "event db1 e = Inr current"
      "claimCandidateInTransaction uuids current worker now (claim_lease lease) db1 = Inr (x, db')"
    by (auto simp: and_then_eq_Inr split: if_splits)
  then show "work_changes db db'"
    using normalize_changes claim_candidate_changes event_row by (metis rtranclp_trans)
qed

lemma recoverDurableWork_changes: "work_changes db (snd (recoverDurableWork now db))"
  unfolding recoverDurableWork_def
  by (rule transaction_work_changes) (auto simp: changes_only_def dest: recovery_changes)

lemma renewal_changes: "renewDurableWorkClaimInTransaction i db = Inr (b, db') \<Longrightarrow> work_changes db db'"
proof (cases "db' = db")
  case False
  assume "renewDurableWorkClaimInTransaction i db = Inr (b, db')"
  with False obtain n where "update_events (renewal_holds i db)
      (\<lambda>r. r\<lparr>ev_lease := Some (wr_now i + min (15 * 60000) (wr_lease i))\<rparr>) db = Inr (n, db')"
    by (auto simp: renewDurableWorkClaimInTransaction_def and_then_eq_Inr split: if_splits)
  then have "work_change db db'"
    by (rule update_events_change) (auto simp: renewal_holds_def intro: event_moves(12))
  then show ?thesis by blast
qed simp

section \<open>The settlement\<close>

lemma kernel_step: "kernel_only db db' \<Longrightarrow> work_changes db db'"
  using kernel_only_change by blast

lemma converge_siblings_changes: "converge_siblings current ss now db = Inr db' \<Longrightarrow> work_changes db db'"
proof (induction current ss now db rule: converge_siblings.induct)
  case (2 current s ss now db)
  show ?case
  proof (cases "s = [] \<or> s = ev_id current")
    case False
    with 2(3) obtain n db1 where
        up: "update_events (\<lambda>r. ev_id r = s \<and> ev_wake r = ev_wake current \<and>
            ev_state r \<in> {E_pending, E_retry_wait, E_leased})
          (\<lambda>r. clear_failure (to_consumed ''completed'' now r)) db = Inr (n, db1)"
        and rest: "converge_siblings current ss now db1 = Inr db'"
      by (auto simp: and_then_eq_Inr)
    have "work_change db db1"
      by (rule update_events_change [OF up]) (blast intro: event_moves(5))
    moreover have "work_changes db1 db'" using 2(2) [OF False] up rest by blast
    ultimately show ?thesis by (rule converse_rtranclp_into_rtranclp)
  qed (use 2 in auto)
qed simp

lemma holds_claim_leased: "holds_claim e token r \<Longrightarrow> ev_state r = E_leased"
  by (simp add: holds_claim_def)

lemma claim_update_change:
  assumes "update_events (holds_claim e token) f db = Inr (n, db')"
    and "\<And>r. ev_state r = E_leased \<Longrightarrow> ev_move r (f r)"
  shows "work_change db db'"
  using assms(1) by (rule update_events_change) (blast intro: assms(2) dest: holds_claim_leased)

lemma settle_completed_changes:
  assumes "settle_completed current token covered now db = Inr (x, db')"
  shows "work_changes db db'"
proof -
  from assms obtain n db1 db2 where
      up: "update_events (holds_claim (ev_id current) token) (to_consumed ''completed'' now) db = Inr (n, db1)"
      and conv: "convergeCoveredSiblingEvents current covered now db1 = Inr db2"
      and fin: "finishWakeForEvent current R_completed now db2 = Inr db'"
    by (auto simp: settle_completed_def and_then_eq_Inr)
  have "work_change db db1" by (rule claim_update_change [OF up]) (simp add: event_moves(4))
  moreover have "work_changes db1 db2"
    using conv by (auto simp: convergeCoveredSiblingEvents_def split: if_splits dest: converge_siblings_changes)
  ultimately show ?thesis
    using kernel_step [OF finishWakeForEvent_kernel [OF fin]] by (meson r_into_rtranclp rtranclp_trans)
qed

lemma settle_deferred_changes:
  assumes "settle_deferred uuid current token conv c gen nxt evidence now db = Inr (x, db')"
  shows "work_changes db db'"
proof -
  from assms obtain n db1 db2 db3 where
      up: "update_events (holds_claim (ev_id current) token) (to_consumed ''deferred_to_frontier'' now) db = Inr (n, db1)"
      and "(if text_of (ev_wake current) = [] then Inr db1
        else move_wake (text_of (ev_wake current)) (to_pending now) db1) = Inr db2"
      and "(if c = [] then Inr db2 else run_kernel (updateCycleState c ''capacity_wait'' now) db2) = Inr db3"
      and "defer_frontier uuid conv c gen nxt evidence now db3 = Inr db'"
    by (auto simp: settle_deferred_def and_then_eq_Inr)
  then have "kernel_only db1 db2" "kernel_only db2 db3" "kernel_only db3 db'"
    by (auto simp: run_kernel_eq defer_frontier_def Let_def and_then_eq_Inr kernel_only_refl
        split: if_splits dest: move_wake_kernel)
  moreover have "work_change db db1" by (rule claim_update_change [OF up]) (simp add: event_moves(4))
  ultimately show ?thesis using kernel_only_change kernel_only_trans two_changes by blast
qed

lemma settle_unknown_changes:
  assumes "settle_unknown current token err now db = Inr (x, db')"
  shows "work_changes db db'"
proof -
  from assms obtain n db1 where
      up: "update_events (holds_claim (ev_id current) token) (to_reconciling err) db = Inr (n, db1)"
      and "wakeToReconciling (text_of (ev_wake current)) now db1 = Inr db'"
    by (auto simp: settle_unknown_def and_then_eq_Inr split: if_splits)
  moreover have "work_change db db1" by (rule claim_update_change [OF up]) (simp add: event_moves(3))
  ultimately show ?thesis using wake_moves_kernel(2) kernel_only_change two_changes by blast
qed

lemma settle_retry_changes:
  assumes "settle_retry current token at class err now db = Inr (x, db')"
  shows "work_changes db db'"
proof -
  from assms obtain n db1 where
      up: "update_events (holds_claim (ev_id current) token) (to_retry_wait at class err) db = Inr (n, db1)"
      and "wakeToPending (text_of (ev_wake current)) now db1 = Inr db'"
    by (auto simp: settle_retry_def and_then_eq_Inr split: if_splits)
  moreover have "work_change db db1" by (rule claim_update_change [OF up]) (simp add: event_moves(6))
  ultimately show ?thesis using wake_moves_kernel(1) kernel_only_change two_changes by blast
qed

lemma terminal_disposition_state:
  "terminal_disposition class err stop = (state, reason, wakeReason, q) \<Longrightarrow>
     state = E_terminal \<or> state = E_quarantined"
  by (auto simp: terminal_disposition_def split: if_splits)

lemma settle_terminal_changes:
  assumes "settle_terminal current a token truth class err stop now db = Inr (x, db')"
  shows "work_changes db db'"
proof -
  obtain state reason wakeReason q where d: "terminal_disposition class err stop = (state, reason, wakeReason, q)"
    by (cases "terminal_disposition class err stop") auto
  with assms obtain n db1 db2 where
      up: "update_events (holds_claim (ev_id current) token) (to_failed state reason q class err) db = Inr (n, db1)"
      and "finishWakeForEvent current wakeReason now db1 = Inr db2"
      and "retireOwnerlessCycleForTerminalEvent (ev_wake current) now db2 = Inr db'"
    by (auto simp: settle_terminal_def and_then_eq_Inr Let_def)
  then have "kernel_only db1 db'"
    using finishWakeForEvent_kernel retire_kernel kernel_only_trans by blast
  moreover have "work_change db db1"
    by (rule claim_update_change [OF up]) (rule event_moves(7) [OF _ terminal_disposition_state [OF d]])
  ultimately show ?thesis using kernel_only_change two_changes by blast
qed

lemma supersede_changes:
  assumes "supersedeDurableAttemptInTransaction sha current sw se cov uncov hash now db = Inr db'"
    and current: "\<And>r. r \<in> set (wd_events db) \<Longrightarrow> ev_id r = ev_id current \<Longrightarrow> ev_state r = E_leased"
    and ids: "distinct (map ev_id (wd_events db))"
  shows "work_changes db db'"
proof -
  from assms(1) obtain n db1 db2 where
      valid: "validateSupersession sha db current sw se cov uncov hash = Inr cov"
      and up: "update_events (\<lambda>r. ev_id r \<in> set cov \<and> ev_wake r = ev_wake current)
        (\<lambda>r. clear_failure (to_consumed ''superseded'' now r)) db = Inr (n, db1)"
      and "finishWakeForEvent current R_superseded now db1 = Inr db2"
      and "retireOwnerlessCycleForTerminalEvent (ev_wake current) now db2 = Inr db'"
    by (auto simp: supersedeDurableAttemptInTransaction_def validateSupersession_def Let_def and_then_eq_Inr
        split: if_splits)
  then have "kernel_only db1 db'"
    using finishWakeForEvent_kernel retire_kernel kernel_only_trans by blast
  moreover have "work_change db db1"
  proof (rule update_events_change [OF up])
    fix r assume r: "r \<in> set (wd_events db)" "ev_id r \<in> set cov \<and> ev_wake r = ev_wake current"
    from valid have "covered_event_ok db current (ev_id r)"
      using r(2) by (auto simp: validateSupersession_def Let_def list_all_iff split: if_splits)
    moreover have "find_event db (ev_id r) = Some r"
      unfolding find_event_def using sql_get_key [OF ids r(1)] by simp
    ultimately have "ev_state r \<in> {E_pending, E_retry_wait, E_leased}"
      using current r(1) by (auto simp: covered_event_ok_def split: if_splits)
    then show "ev_move r (clear_failure (to_consumed ''superseded'' now r))" by (rule event_moves(5))
  qed
  ultimately show ?thesis using kernel_only_change two_changes by blast
qed

lemma finish_attempt_change:
  assumes "finish_attempt a e result now db = Inr db'"
  shows "work_change db db' \<and> wd_events db' = wd_events db"
proof -
  obtain truth cl err where f: "failureFor result = (truth, cl, err)"
    by (cases "failureFor result") auto
  from assms f have st: "store_attempts (sql_update (\<lambda>r. wa_id r = a \<and> wa_event r = e \<and> wa_finished r = None)
      (\<lambda>r. r\<lparr>wa_finished := Some now, wa_truth := truth, wa_failure := cl, wa_error := err\<rparr>)
      (wd_attempts db)) db = Inr db'"
    by (simp add: finish_attempt_def)
  then show ?thesis
    using update_attempts_change [OF st] by (auto simp: at_move_def store_attempts_eq)
qed

lemma contradict_changes:
  assumes "contradict current a now db = Inr (x, db')"
  shows "work_changes db db'"
proof -
  from assms obtain db1 where "quarantineEvent current ''contradictory_result'' now db = Inr db1"
      and st: "store_attempts (sql_update (\<lambda>r. wa_id r = a) (\<lambda>r. r\<lparr>wa_error :=
        (case wa_error r of None \<Rightarrow> Some ''contradictory_result'' | Some x \<Rightarrow> Some x)\<rparr>) (wd_attempts db1)) db1 = Inr db'"
    by (auto simp: contradict_def and_then_eq_Inr)
  then have "work_changes db db1" "work_change db1 db'"
    using quarantine_changes update_attempts_change [OF st] by (auto simp: at_move_def)
  then show ?thesis by (rule rtranclp.rtrancl_into_rtrancl)
qed

lemma settle_open_changes:
  assumes "settle_open sha uuid current a token result now covered db = Inr (x, db')"
    and "\<And>r. r \<in> set (wd_events db) \<Longrightarrow> ev_id r = ev_id current \<Longrightarrow> ev_state r = E_leased"
    and "distinct (map ev_id (wd_events db))"
  shows "work_changes db db'"
proof (cases result)
  case (H_superseded sw se cov uncov hash)
  with assms(1) have "supersedeDurableAttemptInTransaction sha current sw se cov uncov hash now db = Inr db'"
    by (auto simp: settle_open_def no_c3_def and_then_eq_Inr)
  then show ?thesis using assms(2,3) by (rule supersede_changes)
qed (use assms(1) in \<open>auto simp: settle_open_def no_c3_def and_then_eq_Inr split: retry_decision.splits
  dest: settle_completed_changes settle_deferred_changes settle_unknown_changes settle_retry_changes
    settle_terminal_changes\<close>)

lemma settle_transaction_changes:
  assumes "settleDurableAttemptInTransaction sha uuid i db = Inr (x, db')"
    and ids: "distinct (map ev_id (wd_events db))"
  shows "work_changes db db'"
proof -
  from assms(1) obtain current a where current: "event db (st_event i) = Inr current"
      and "attempt db (st_attempt i) (Some (st_event i)) = Some a"
      and cases: "db' = db \<or> contradict current (st_attempt i) (st_now i) db = Inr (fst x, db') \<or>
        (ev_state current = E_leased \<and> (\<exists>db1. finish_attempt (st_attempt i) (st_event i) (st_result i) (st_now i) db = Inr db1 \<and>
          settle_open sha uuid current a (st_token i) (st_result i) (st_now i) (st_covered i) db1 = Inr (x, db')))"
    by (auto simp: settleDurableAttemptInTransaction_def and_then_eq_Inr no_c3_def split: option.splits if_splits)
  have row: "current \<in> set (wd_events db)" using event_row [OF current] by simp
  from cases show ?thesis
  proof (elim disjE conjE exE)
    fix db1 assume leased: "ev_state current = E_leased"
      and fin: "finish_attempt (st_attempt i) (st_event i) (st_result i) (st_now i) db = Inr db1"
      and op: "settle_open sha uuid current a (st_token i) (st_result i) (st_now i) (st_covered i) db1 = Inr (x, db')"
    have "work_changes db1 db'"
    proof (rule settle_open_changes [OF op])
      show "ev_state r = E_leased" if "r \<in> set (wd_events db1)" "ev_id r = ev_id current" for r
        using that row leased ids finish_attempt_change [OF fin] by (metis eq_key_imp_eq_value inj_onD distinct_map)
      show "distinct (map ev_id (wd_events db1))" using ids finish_attempt_change [OF fin] by simp
    qed
    then show ?thesis using finish_attempt_change [OF fin] by (meson converse_rtranclp_into_rtranclp)
  qed (auto dest: contradict_changes)
qed

text \<open>The record of a terminal failure is written after the commit, to a table of its own.\<close>

lemma record_c3_change: "work_change db (record_c3 c db)"
  by (rule change_other) (auto simp: record_c3_def split: option.splits)

lemma settleDurableAttempt_changes:
  assumes "distinct (map ev_id (wd_events db))"
  shows "work_changes db (snd (settleDurableAttempt sha uuid i db))"
proof (cases "settleDurableAttemptInTransaction sha uuid i db")
  case (Inr y)
  then obtain outcome c3 db1 where y: "settleDurableAttemptInTransaction sha uuid i db = Inr ((outcome, c3), db1)"
    by (cases y) auto
  have "work_changes db db1" by (rule settle_transaction_changes [OF y assms])
  with y record_c3_change [of db1 c3] show ?thesis
    by (auto simp: settleDurableAttempt_def in_immediate_transaction_def)
qed (simp add: settleDurableAttempt_def in_immediate_transaction_def)

section \<open>Reconciliation\<close>

lemma reconciling_update_change:
  assumes "update_events (is_reconciling e) f db = Inr (n, db')"
    and "\<And>r. ev_state r = E_reconciling \<Longrightarrow> ev_move r (f r)"
  shows "work_change db db'"
  using assms(1) by (rule update_events_change) (auto intro: assms(2) simp: is_reconciling_def)

lemma end_reconciling_changes:
  assumes "end_reconciling current f wakeReason reason now db = Inr (x, db')"
    and "\<And>r. ev_state r = E_reconciling \<Longrightarrow> ev_move r (f r)"
  shows "work_changes db db'"
proof -
  from assms(1) obtain n db1 db2 where
      up: "update_events (is_reconciling (ev_id current)) f db = Inr (n, db1)"
      and "wakeToTerminal (text_of (ev_wake current)) wakeReason now db1 = Inr db2"
      and "retireOwnerlessCycleForTerminalEvent (ev_wake current) now db2 = Inr db'"
    by (auto simp: end_reconciling_def and_then_eq_Inr)
  then have "kernel_only db1 db'" using wake_moves_kernel(3) retire_kernel kernel_only_trans by blast
  moreover have "work_change db db1" by (rule reconciling_update_change [OF up assms(2)])
  ultimately show ?thesis using kernel_only_change two_changes by blast
qed

lemma safe_retry_changes:
  assumes "update_events (is_reconciling e) (to_safe_retry p) db = Inr (n, db1)"
    and "wakeToPending w now db1 = Inr db'"
  shows "work_changes db db'"
  using reconciling_update_change [OF assms(1) event_moves(11)] wake_moves_kernel(1) [OF assms(2)]
    kernel_only_change two_changes by blast

lemma reconcile_receipts_changes:
  "reconcile_with_receipts current receipts now db = Inr (x, db') \<Longrightarrow> work_changes db db'"
  by (auto simp: reconcile_with_receipts_def event_moves(9,10) split: if_splits
      dest!: end_reconciling_changes)

lemma reconcile_proof_changes:
  assumes "reconcile_with_proof current p now db = Inr (x, db')"
  shows "work_changes db db'"
proof -
  from assms obtain spend where
      "(case spend of
         Sp_spent rid signal \<Rightarrow> end_reconciling current
           (to_failed_reconciled (''private_spent_no_rethought:'' @ signal)) R_quarantined
           ''permanent_failure'' now db
       | Sp_uncertain detail \<Rightarrow> Inr (Ro_still_unknown, db)
       | _ \<Rightarrow>
           and_then (update_events (is_reconciling (ev_id current)) (to_safe_retry p) db) (\<lambda>(_, db1).
           and_then (wakeToPending (text_of (ev_wake current)) now db1) (\<lambda>db2.
             Inr (Ro_safe_to_retry, db2)))) = Inr (x, db')"
    unfolding reconcile_with_proof_def by (auto simp only: and_then_eq_Inr)
  then show ?thesis
    by (cases spend)
      (auto simp only: spend_partition.simps and_then_eq_Inr split: prod.splits
        intro: safe_retry_changes end_reconciling_changes [OF _ event_moves(10)])
qed

lemma reconcile_changes: "changes_only (reconcileOutcomeUnknownInTransaction e now noDispatch p)"
  unfolding changes_only_def
proof (intro allI impI)
  fix db x db' assume "reconcileOutcomeUnknownInTransaction e now noDispatch p db = Inr (x, db')"
  then consider "db' = db"
    | current where "quarantineEvent current ''wake_missing'' now db = Inr db'"
    | current receipts where "reconcile_with_receipts current receipts now db = Inr (x, db')"
    | current q where "reconcile_with_proof current q now db = Inr (x, db')"
    unfolding reconcileOutcomeUnknownInTransaction_def
    by (simp add: and_then_eq_Inr Let_def split: if_splits) blast+
  then show "work_changes db db'"
    by cases (auto dest: quarantine_changes reconcile_receipts_changes reconcile_proof_changes)
qed

lemma reconcileOutcomeUnknown_changes:
  "work_changes db (snd (reconcileOutcomeUnknown e now noDispatch p db))"
  unfolding reconcileOutcomeUnknown_def by (rule transaction_work_changes) (rule reconcile_changes)

lemma startup_event_changes: "work_changes (snd s) (snd (startup_event dt now e s))"
  using reconcileOutcomeUnknown_changes [of "snd s" e now True "Some (startup_proof_ref e now)"]
  by (cases s) (auto simp: startup_event_def Let_def
      split: no_dispatch_proof.split prod.split sum.split reconcile_outcome.split)

lemma startup_fold_changes: "work_changes (snd s) (snd (fold (startup_event dt now) es s))"
proof (induction es arbitrary: s)
  case (Cons e es)
  then show ?case using startup_event_changes [of s dt now e] by (simp, meson rtranclp_trans)
qed simp

lemma startup_result:
  "snd (reconcileStrandedOutcomeUnknownAtStartup dt now limit cursor db) =
     snd (fold (startup_event dt now) (map ev_id (startup_rows cursor limit db)) (no_startup_recovery, db))"
  by (simp add: reconcileStrandedOutcomeUnknownAtStartup_def Let_def case_prod_unfold)

lemma startup_changes:
  "work_changes db (snd (reconcileStrandedOutcomeUnknownAtStartup dt now limit cursor db))"
  using startup_fold_changes [of "(no_startup_recovery, db)"] by (simp add: startup_result)

section \<open>Admission\<close>

lemma insert_event_change:
  assumes "insert_event r db = Inr db'"
    and "ev_state r = E_pending \<or> ev_state r = E_terminal" "lease_ok r" "ev_attempts r = 0" "ev_first r = None"
  shows "work_change db db'"
  using assms by (auto simp: insert_event_def store_events_def split: if_splits intro: change_append)

lemma new_event_ok:
  "ev_state (new_event i e w c) = E_pending \<or> ev_state (new_event i e w c) = E_terminal"
  "lease_ok (new_event i e w c)" "ev_attempts (new_event i e w c) = 0" "ev_first (new_event i e w c) = None"
  by (auto simp: new_event_def Let_def lease_ok_def leased_def)

lemma append_changes: "changes_only (appendInboxEventInTransaction sha i e)"
  unfolding changes_only_def
proof (intro allI impI)
  fix db x db' assume a: "appendInboxEventInTransaction sha i e db = Inr (x, db')"
  show "work_changes db db'"
  proof (cases "getInboxEvent db e")
    case (Some r)
    with a show ?thesis by (simp add: appendInboxEventInTransaction_def)
  next
    case None
    with a obtain k1 k2 w c where "insert_event (new_event i e w c) (set_kernel k2 (set_kernel k1 db)) = Inr db'"
      by (auto simp: appendInboxEventInTransaction_def and_then_eq_Inr on_kernel_eq split: if_splits option.splits)
    then have "work_change (set_kernel k2 (set_kernel k1 db)) db'"
      by (rule insert_event_change) (rule new_event_ok)+
    moreover have "work_change db (set_kernel k2 (set_kernel k1 db))" by (rule change_other) simp_all
    ultimately show ?thesis by (blast intro: two_changes)
  qed
qed

lemma appendInboxEvent_changes: "work_changes db (snd (appendInboxEvent sha uuid i e db))"
  unfolding appendInboxEvent_def by (rule transaction_work_changes) (rule append_changes)

lemma new_repair_ok:
  "ev_state (new_repair sha i e pred w owner) = E_pending \<or> ev_state (new_repair sha i e pred w owner) = E_terminal"
  "lease_ok (new_repair sha i e pred w owner)" "ev_attempts (new_repair sha i e pred w owner) = 0"
  "ev_first (new_repair sha i e pred w owner) = None"
  by (auto simp: new_repair_def lease_ok_def leased_def)

lemma create_repair_changes:
  assumes "create_repair env ow sha i e db = Inr (x, db')"
  shows "work_changes db db'"
proof -
  from assms obtain pred k owner w db2 where
      ins: "insert_event (new_repair sha i e pred w owner) (set_kernel k db) = Inr db2"
      and "\<exists>rows. store_repairs rows db2 = Inr db'"
    by (simp add: create_repair_def and_then_eq_Inr on_kernel_eq Let_def split: if_splits prod.splits) blast
  then have "work_change db2 db'"
    by (auto simp: store_repairs_def split: if_splits intro: change_other)
  moreover have "work_change (set_kernel k db) db2"
    by (rule insert_event_change [OF ins]) (rule new_repair_ok)+
  ultimately show ?thesis
    using set_kernel_change [of db k] by (meson converse_rtranclp_into_rtranclp two_changes)
qed

lemma createRepairEvent_changes: "work_changes db (snd (createRepairEvent env ow sha i db))"
proof -
  have "changes_only (\<lambda>db. case existingRepair db (rq_predecessor i) (rq_authorization i) of
      Some r \<Rightarrow> Inr (r, db) | None \<Rightarrow> create_repair env ow sha i (repair_event_id sha i) db)"
    by (auto simp: changes_only_def split: option.splits dest: create_repair_changes)
  then show ?thesis by (auto simp: createRepairEvent_def intro: transaction_work_changes)
qed

end
