(* ===== verification/Work_Lifecycle.thy ===== *)
theory Work_Lifecycle
  imports Work_Steps
begin

text \<open>
  Durable work as a transition system: the calls of the ledger, the admissions and the statements
  of the other components are the steps. The invariant says who may hold a lease, how attempts are
  numbered and how long work is tried; the lifecycle says that an end is an end.
\<close>

section \<open>The invariant\<close>

definition attempts_of :: "string \<Rightarrow> attempt_row list \<Rightarrow> attempt_row list" where
  "attempts_of e rows = filter (\<lambda>a. wa_event a = e) rows"

definition in_retry_window :: "event_row \<Rightarrow> attempt_row \<Rightarrow> bool" where
  "in_retry_window r a \<longleftrightarrow>
     (case ev_first r of None \<Rightarrow> False | Some t \<Rightarrow> wa_started a < t + MAX_RETRY_AGE_MS)"

text \<open>The attempts of an event are numbered from 1 without a gap, five at most, all in the window.\<close>

definition history_ok :: "attempt_row list \<Rightarrow> event_row \<Rightarrow> bool" where
  "history_ok rows r \<longleftrightarrow> 0 \<le> ev_attempts r \<and> ev_attempts r \<le> MAX_ATTEMPTS \<and>
     wa_ordinal ` set (attempts_of (ev_id r) rows) = {1..ev_attempts r} \<and>
     (\<forall>a \<in> set (attempts_of (ev_id r) rows). in_retry_window r a)"

definition work_inv :: "work_db \<Rightarrow> bool" where
  "work_inv db \<longleftrightarrow> event_indexes (wd_events db) \<and> attempt_indexes (wd_attempts db) \<and>
     wa_event ` set (wd_attempts db) \<subseteq> ev_id ` set (wd_events db) \<and>
     (\<forall>r \<in> set (wd_events db). lease_ok r \<and> history_ok (wd_attempts db) r)"

lemma attempts_of_moved:
  assumes "rows_move at_move rows rows'"
  shows "map (\<lambda>a. (wa_event a, wa_ordinal a, wa_started a)) rows' = map (\<lambda>a. (wa_event a, wa_ordinal a, wa_started a)) rows"
  by (rule rows_move_key [OF assms]) (auto simp: at_move_def)

lemma history_by_shape:
  "history_ok rows r \<longleftrightarrow> 0 \<le> ev_attempts r \<and> ev_attempts r \<le> MAX_ATTEMPTS \<and>
     {n. \<exists>t. (ev_id r, n, t) \<in> set (map (\<lambda>a. (wa_event a, wa_ordinal a, wa_started a)) rows)} = {1..ev_attempts r} \<and>
     (\<forall>(e, n, t) \<in> set (map (\<lambda>a. (wa_event a, wa_ordinal a, wa_started a)) rows). e = ev_id r \<longrightarrow>
       (case ev_first r of None \<Rightarrow> False | Some f \<Rightarrow> t < f + MAX_RETRY_AGE_MS))"
proof -
  have "wa_ordinal ` set (attempts_of (ev_id r) rows) =
      {n. \<exists>t. (ev_id r, n, t) \<in> set (map (\<lambda>a. (wa_event a, wa_ordinal a, wa_started a)) rows)}"
    by (force simp: attempts_of_def)
  moreover have "(\<forall>a \<in> set (attempts_of (ev_id r) rows). in_retry_window r a) \<longleftrightarrow>
      (\<forall>(e, n, t) \<in> set (map (\<lambda>a. (wa_event a, wa_ordinal a, wa_started a)) rows). e = ev_id r \<longrightarrow>
       (case ev_first r of None \<Rightarrow> False | Some f \<Rightarrow> t < f + MAX_RETRY_AGE_MS))"
    by (auto simp: attempts_of_def in_retry_window_def)
  ultimately show ?thesis by (simp add: history_ok_def)
qed

lemma moved_events_ok:
  assumes "rows_move ev_move rows rows'" and "\<forall>r \<in> set rows. lease_ok r \<and> history_ok as r"
  shows "\<forall>r \<in> set rows'. lease_ok r \<and> history_ok as r"
  by (rule rows_move_all [OF assms(1) _ assms(2)])
    (auto simp: ev_move_def history_ok_def in_retry_window_def)

lemma claimed_event_ok:
  assumes "history_ok rows current" "ev_attempts current < MAX_ATTEMPTS"
    and "now < first_attempt current now + MAX_RETRY_AGE_MS" "ev_id r = ev_id current"
  shows "lease_ok (to_leased current token worker now lease r)"
    "history_ok (rows @ [new_attempt current a worker now]) (to_leased current token worker now lease r)"
proof -
  have first: "case ev_first current of None \<Rightarrow> set (attempts_of (ev_id current) rows) = {} | Some f \<Rightarrow> True"
    using assms(1) by (auto simp: history_ok_def in_retry_window_def split: option.split)
  have "insert (ev_attempts current + 1) {1..ev_attempts current} = {1..ev_attempts current + 1}"
    using assms(1) by (auto simp: history_ok_def)
  then show "history_ok (rows @ [new_attempt current a worker now]) (to_leased current token worker now lease r)"
    using assms first
    by (auto simp: history_ok_def attempts_of_def to_leased_def new_attempt_def in_retry_window_def
        first_attempt_def split: option.splits)
qed (simp add: lease_ok_def to_leased_def leased_def)

lemma other_history:
  "ev_id r \<noteq> ev_id current \<Longrightarrow> history_ok (rows @ [new_attempt current a worker now]) r \<longleftrightarrow> history_ok rows r"
  by (simp add: history_ok_def attempts_of_def new_attempt_def)

lemma claim_keeps_ids:
  "map ev_id (sql_update (\<lambda>r. ev_id r = ev_id current \<and> ev_state r = E_pending)
     (to_leased current token worker now lease) rows) = map ev_id rows"
  by (rule map_key_sql_update) (simp add: to_leased_def)

interpretation work: preserved work_change work_inv
proof unfold_locales
  fix db db' assume inv: "work_inv db" and "work_change db db'"
  from this(2) show "work_inv db'"
  proof cases
    case change_other
    with inv show ?thesis by (simp add: work_inv_def)
  next
    case (change_rows rows)
    have "map ev_id rows = map ev_id (wd_events db)"
      by (rule rows_move_key [OF change_rows(2)]) (simp add: ev_move_def)
    then have "ev_id ` set rows = ev_id ` set (wd_events db)" by (metis list.set_map)
    moreover have "\<forall>r \<in> set rows. lease_ok r \<and> history_ok (wd_attempts db) r"
      by (rule moved_events_ok [OF change_rows(2)]) (use inv in \<open>simp add: work_inv_def\<close>)
    ultimately show ?thesis using change_rows inv by (simp add: work_inv_def)
  next
    case (change_attempts rows)
    note shape = attempts_of_moved [OF change_attempts(2)]
    then have "map wa_event rows = map wa_event (wd_attempts db)"
      by (auto simp: list_eq_iff_nth_eq)
    then have "wa_event ` set rows = wa_event ` set (wd_attempts db)" by (metis list.set_map)
    moreover have "history_ok rows r \<longleftrightarrow> history_ok (wd_attempts db) r" for r
      by (simp only: history_by_shape shape)
    ultimately show ?thesis using change_attempts inv by (simp add: work_inv_def)
  next
    case (change_claim current now events token worker lease attempts a f)
    have ids: "distinct (map ev_id (wd_events db))" using inv by (simp add: work_inv_def event_indexes_def)
    have "lease_ok r \<and> history_ok attempts r" if "r \<in> set events" for r
    proof -
      from that obtain q where q: "q \<in> set (wd_events db)"
        and r: "r = (if ev_id q = ev_id current \<and> ev_state q = E_pending
          then to_leased current token worker now lease q else q)"
        by (auto simp: change_claim)
      show ?thesis
      proof (cases "ev_id q = ev_id current")
        case True
        with ids q change_claim(2) have "q = current" by (metis eq_key_imp_eq_value inj_onD distinct_map)
        with r change_claim inv claimed_event_ok [of "wd_attempts db" current now current]
        show ?thesis by (simp add: work_inv_def)
      next
        case False
        with q r inv other_history show ?thesis by (simp add: work_inv_def change_claim)
      qed
    qed
    moreover have "ev_id ` set events = ev_id ` set (wd_events db)"
      using claim_keeps_ids [of current token worker now lease "wd_events db"] change_claim(6)
      by (metis list.set_map)
    ultimately show ?thesis using change_claim inv by (auto simp: work_inv_def new_attempt_def)
  next
    case (change_append r)
    then have "ev_id r \<notin> ev_id ` set (wd_events db)" by (auto simp: event_indexes_def)
    then have "attempts_of (ev_id r) (wd_attempts db) = []"
      using inv unfolding work_inv_def attempts_of_def filter_empty_conv by (metis image_eqI subsetD)
    with change_append inv show ?thesis by (auto simp: work_inv_def history_ok_def MAX_ATTEMPTS_def)
  qed
qed

section \<open>The calls\<close>

text \<open>
  The first three steps are the rest of the program: anything on the other tables, and on the table
  of events what the modules outside the ledger do to it (\<^verbatim>\<open>cycle/reconcile.ts\<close>, \<^verbatim>\<open>cycle/inbox-consumer.ts\<close>,
  \<^verbatim>\<open>retry/owner-recovery.ts\<close>, \<^verbatim>\<open>commands.ts\<close>, \<^verbatim>\<open>thalamus/execution.ts\<close>, \<^verbatim>\<open>growth/self-change-results.ts\<close>,
  \<^verbatim>\<open>ingress/http.ts\<close>): writes that keep identity, lane and attempts and move the state along the same
  edges, and inserts of events that are not leased.
\<close>

inductive work_step :: "(string \<Rightarrow> string) \<Rightarrow> work_db \<Rightarrow> work_db \<Rightarrow> bool" for sha where
  ws_other: "wd_events db' = wd_events db \<Longrightarrow> wd_attempts db' = wd_attempts db \<Longrightarrow> work_step sha db db'"
| ws_rows: "rows_move ev_move (wd_events db) rows \<Longrightarrow> event_indexes rows \<Longrightarrow>
    work_step sha db (db\<lparr>wd_events := rows\<rparr>)"
| ws_insert: "ev_state r \<noteq> E_leased \<Longrightarrow> lease_ok r \<Longrightarrow> ev_attempts r = 0 \<Longrightarrow> ev_first r = None \<Longrightarrow>
    event_indexes (wd_events db @ [r]) \<Longrightarrow> work_step sha db (db\<lparr>wd_events := wd_events db @ [r]\<rparr>)"
| ws_append: "work_step sha db (snd (appendInboxEvent sha uuid ai e db))"
| ws_repair: "work_step sha db (snd (createRepairEvent env ow sha rq db))"
| ws_claim: "work_step sha db (snd (claimNextDurableWork uuids collate ci now db))"
| ws_start: "work_step sha db (snd (startDurableAttempt uuids ev worker now lease db))"
| ws_renew: "work_step sha db (snd (in_immediate_transaction (renewDurableWorkClaimInTransaction wr) db))"
| ws_settle: "work_step sha db (snd (settleDurableAttempt sha uuid st db))"
| ws_recover: "work_step sha db (snd (recoverDurableWork now db))"
| ws_reconcile: "work_step sha db (snd (reconcileOutcomeUnknown ev now noDispatch pr db))"
| ws_startup: "work_step sha db (snd (reconcileStrandedOutcomeUnknownAtStartup dt now limit cursor db))"

lemma work_step_changes:
  assumes "work_step sha db db'" and "work_inv db"
  shows "work_changes db db'"
  using assms(1)
proof cases
  case ws_other
  then show ?thesis by (auto intro!: r_into_rtranclp change_other)
next
  case ws_rows
  then show ?thesis by (auto intro!: r_into_rtranclp change_rows)
next
  case ws_insert
  then show ?thesis by (auto intro!: r_into_rtranclp change_append)
next
  case ws_renew
  then show ?thesis
    by (auto simp: changes_only_def intro!: transaction_work_changes dest: renewal_changes)
next
  case ws_settle
  have "distinct (map ev_id (wd_events db))" using assms(2) by (simp add: work_inv_def event_indexes_def)
  with ws_settle show ?thesis using settleDurableAttempt_changes by blast
qed (auto intro: appendInboxEvent_changes createRepairEvent_changes claimNextDurableWork_changes
    startDurableAttempt_changes recoverDurableWork_changes reconcileOutcomeUnknown_changes startup_changes)

interpretation ledger: preserved "work_step sha" work_inv for sha
  by unfold_locales (blast dest: work_step_changes work.steps_inv)

lemma work_steps_changes: "(work_step sha)\<^sup>*\<^sup>* db db' \<Longrightarrow> work_inv db \<Longrightarrow> work_changes db db'"
proof (induction rule: rtranclp_induct)
  case (step db1 db2)
  then show ?case using ledger.steps_inv work_step_changes by (meson rtranclp_trans)
qed simp

section \<open>The lifecycle of an event\<close>

definition event_status :: "work_db \<Rightarrow> string \<Rightarrow> (work_state \<times> int) option" where
  "event_status db e = map_option (\<lambda>r. (ev_state r, ev_attempts r)) (find_event db e)"

fun event_edge :: "work_state \<times> int \<Rightarrow> work_state \<times> int \<Rightarrow> bool" where
  "event_edge (s, n) (t, m) \<longleftrightarrow> work_edge s t \<and> m = n \<or> s = E_pending \<and> t = E_leased \<and> m = n + 1"

text \<open>The table after a claim still has its keys, so the claimed row was the only one with its key.\<close>

lemma claim_key_unique:
  assumes "current \<in> set rows" "r \<in> set rows" "ev_id r = ev_id current"
    and "event_indexes (sql_update (\<lambda>r. ev_id r = ev_id current \<and> ev_state r = E_pending)
      (to_leased current token worker now lease) rows)"
  shows "r = current"
proof -
  have "distinct (map ev_id rows)"
    using assms(4) by (simp only: event_indexes_def claim_keeps_ids)
  with assms(1-3) show ?thesis by (metis eq_key_imp_eq_value inj_onD distinct_map)
qed

interpretation events: record_lifecycle work_change event_status event_edge
proof unfold_locales
  fix db db' k s
  assume change: "work_change db db'" and "event_status db k = Some s"
  then obtain r where r: "sql_get (\<lambda>r. ev_id r = k) (wd_events db) = Some r" and s: "s = (ev_state r, ev_attempts r)"
    by (auto simp: event_status_def find_event_def)
  from change show "\<exists>s'. event_status db' k = Some s' \<and> event_edge\<^sup>*\<^sup>* s s'"
  proof cases
    case (change_rows rows)
    from rows_move_get [OF change_rows(2) _ r]
    obtain r' where "sql_get (\<lambda>r. ev_id r = k) rows = Some r'" "r' = r \<or> ev_move r r'"
      by (auto simp: ev_move_def)
    then show ?thesis using change_rows s
      by (auto simp: event_status_def find_event_def ev_move_def)
  next
    case (change_claim current now events token worker lease attempts a f)
    have "sql_get (\<lambda>r. ev_id r = k) events = Some (if ev_id r = ev_id current \<and> ev_state r = E_pending
        then to_leased current token worker now lease r else r)"
      using r unfolding change_claim
      by (subst sql_get_update) (auto simp: to_leased_def)
    moreover have "ev_id r = ev_id current \<Longrightarrow> ev_state r = E_pending \<Longrightarrow> r = current"
      using claim_key_unique [of current] change_claim sql_get_SomeD [OF r] by blast
    ultimately show ?thesis using change_claim s
      by (auto simp: event_status_def find_event_def to_leased_def)
  qed (use r s in \<open>auto simp: event_status_def find_event_def sql_get_append\<close>)
qed

lemma ended_edges:
  assumes "event_edge\<^sup>*\<^sup>* s s'" and "fst s = E_terminal \<or> fst s = E_quarantined"
  shows "(fst s' = E_terminal \<or> fst s' = E_quarantined) \<and> snd s' = snd s"
  using assms
proof (induction rule: rtranclp_induct)
  case (step t u)
  then show ?case by (cases t; cases u) (auto simp: work_edge_def)
qed simp

section \<open>The claim\<close>

lemma authorize_result:
  assumes "authorizeWakeInTransaction w token now k = Inr (auth, k')"
  shows "getWake k' w = Some auth" "w_state auth = W_authorized" "w_token auth = Some token"
proof -
  from assms obtain x n where x: "wake_status (wakes k) w = Some x" "w_state x = W_claimed" "w_token x = Some token"
      "\<not> wake_lease_over now x"
    and up: "update_wake w (\<lambda>r. w_state r = W_claimed \<and> w_token r = Some token \<and> \<not> wake_lease_over now r)
      (\<lambda>r. r\<lparr>w_state := W_authorized, w_updated := now\<rparr>) k = Inr (n, k')"
    and auth: "wake_status (wakes k') w = Some auth"
    by (auto simp: authorizeWakeInTransaction_def and_then_eq_Inr required_eq split: if_splits)
  have "auth = x\<lparr>w_state := W_authorized, w_updated := now\<rparr>"
    using updated_row [OF up x(1)] x auth by simp
  with x auth show "getWake k' w = Some auth" "w_state auth = W_authorized" "w_token auth = Some token"
    by (simp_all add: getWake_status)
qed

lemma unique_in_group:
  "distinct (map f xs) \<Longrightarrow> r \<in> set xs \<Longrightarrow> filter (\<lambda>q. f q = f r) xs = [r]"
  by (induction xs) (auto simp: filter_empty_conv, metis image_eqI)

text \<open>What a claim leaves in the tables.\<close>

definition claim_holds :: "durable_attempt \<Rightarrow> string \<Rightarrow> int \<Rightarrow> work_db \<Rightarrow> bool" where
  "claim_holds a worker until db \<longleftrightarrow>
     (\<exists>r k. find_event db (da_event a) = Some r \<and> ev_state r = E_leased \<and>
        ev_token r = Some (da_token a) \<and> ev_worker r = Some worker \<and> ev_lease r = Some until \<and>
        ev_attempts r = da_ordinal a \<and> ev_wake r = da_wake a \<and>
        filter (\<lambda>q. leased q \<and> lane_of q = lane_of r) (wd_events db) = [r] \<and>
        getWake (kernel db) (text_of (da_wake a)) = Some k \<and> w_state k = W_authorized \<and>
        w_token k = Some (da_token a)) \<and>
     (\<exists>h \<in> set (wd_attempts db). wa_id h = da_attempt a \<and> wa_event h = da_event a \<and>
        wa_ordinal h = da_ordinal a \<and> wa_finished h = None \<and> wa_truth h = D_not_started)"

lemma claim_candidate_holds:
  assumes claim: "claimCandidateInTransaction uuids current worker now lease db = Inr (a, db')"
    and current: "current \<in> set (wd_events db)"
  shows "claim_holds a worker (now + lease) db' \<and> da_event a = ev_id current \<and> ev_state current = E_pending \<and>
    da_ordinal a \<le> MAX_ATTEMPTS"
  using claim
proof (rule claim_parts)
  fix u token r k1 k2 n db3
  let ?f = "to_leased current token worker now lease"
  let ?events = "sql_update (\<lambda>r. ev_id r = ev_id current \<and> ev_state r = E_pending) ?f (wd_events db)"
  let ?new = "new_attempt current (''attempt:'' @ snd uuids) worker now"
  assume refusal: "claim_refusal db current worker now = Inr u"
    and auth: "\<exists>auth. authorizeWakeInTransaction (text_of (ev_wake current)) token now k1 = Inr (auth, k2) \<and>
      w_token auth = Some token"
    and up: "update_events (\<lambda>r. ev_id r = ev_id current \<and> ev_state r = E_pending) ?f (set_kernel k2 db) = Inr (n, db3)"
    and db': "db' = db3\<lparr>wd_attempts := wd_attempts db @ [?new], wd_fairness := serve_lane current now (wd_fairness db)\<rparr>"
    and a: "a = claimed_attempt current (''attempt:'' @ snd uuids) token worker now"
  note pending = claim_refusal_none [OF refusal]
  have ix: "event_indexes ?events" and events: "wd_events db' = ?events" and k: "kernel db' = k2"
    using up db' by (auto simp: update_events_eq Let_def set_kernel_def kernel_def)
  have "distinct (map ev_id (wd_events db))" using ix by (simp only: event_indexes_def claim_keeps_ids)
  then have "find_event db (ev_id current) = Some current"
    unfolding find_event_def using current by (rule sql_get_key) simp
  then have find: "find_event db' (ev_id current) = Some (?f current)"
    using pending(1) unfolding find_event_def events by (subst sql_get_update) (auto simp: to_leased_def)
  then have "?f current \<in> set (filter leased ?events)"
    using sql_get_SomeD [OF find [unfolded find_event_def]] events by (simp add: leased_def to_leased_def)
  then have "filter (\<lambda>q. lane_of q = lane_of (?f current)) (filter leased ?events) = [?f current]"
    using ix by (intro unique_in_group) (auto simp: event_indexes_def)
  then have "filter (\<lambda>q. leased q \<and> lane_of q = lane_of (?f current)) (wd_events db') = [?f current]"
    by (simp add: events conj_commute)
  moreover from auth obtain w where "getWake k2 (text_of (ev_wake current)) = Some w" "w_state w = W_authorized"
      "w_token w = Some token"
    using authorize_result by blast
  ultimately have "\<exists>r k. find_event db' (da_event a) = Some r \<and> ev_state r = E_leased \<and>
        ev_token r = Some (da_token a) \<and> ev_worker r = Some worker \<and> ev_lease r = Some (now + lease) \<and>
        ev_attempts r = da_ordinal a \<and> ev_wake r = da_wake a \<and>
        filter (\<lambda>q. leased q \<and> lane_of q = lane_of r) (wd_events db') = [r] \<and>
        getWake (kernel db') (text_of (da_wake a)) = Some k \<and> w_state k = W_authorized \<and>
        w_token k = Some (da_token a)"
    using find by (intro exI [of _ "?f current"] exI [of _ w])
      (simp add: a claimed_attempt_def k, simp add: to_leased_def)
  moreover have "?new \<in> set (wd_attempts db')" using db' by simp
  ultimately show ?thesis using pending
    by (auto simp: claim_holds_def a claimed_attempt_def new_attempt_def intro!: bexI [of _ ?new])
qed

lemma claim_next_holds:
  assumes "claim_next uuids collate i now db = Inr (Some a, db')"
  shows "claim_holds a (ci_worker i) (now + claim_lease (ci_lease i)) db' \<and> da_ordinal a \<le> MAX_ATTEMPTS"
proof -
  from assms obtain db1 e current where "event db1 e = Inr current"
      "claimCandidateInTransaction uuids current (ci_worker i) now (claim_lease (ci_lease i)) db1 = Inr (a, db')"
    by (auto simp: claim_next_def and_then_eq_Inr split: option.splits)
  then show ?thesis using claim_candidate_holds event_row by blast
qed

section \<open>Properties\<close>

text \<open>The tables at first use, and a conversation with one message for the witnesses.\<close>

definition no_work :: "(string \<Rightarrow> string) \<Rightarrow> work_db" where
  "no_work sha = \<lparr>wd_budget = initial_budget sha no_wakes, wd_events = [], wd_attempts = [], wd_fairness = [],
     wd_repairs = [], wd_tables = \<lparr>ct_outbox = [], ct_undertakings = []\<rparr>, wd_c3 = []\<rparr>"

lemma no_work_inv: "work_inv (no_work sha)"
  by (simp add: work_inv_def no_work_def event_indexes_def attempt_indexes_def)

lemma reachable_work_inv: "(work_step sha)\<^sup>*\<^sup>* (no_work sha) db \<Longrightarrow> work_inv db"
  using ledger.steps_inv no_work_inv by blast

definition sample_digest :: "string \<Rightarrow> string" where
  "sample_digest s = rev (take 6 (rev (filter (\<lambda>c. c \<noteq> CHR 0x22 \<and> c \<noteq> CHR 0x5C) s)))"

definition sample_message :: append_input where
  "sample_message = \<lparr>ap_wake = None, ap_conversation = ''c'', ap_kind = ''owner_message'',
     ap_payload = JObj [(''text'', JStr ''hi'')], ap_created = 0, ap_revision = None, ap_terminal = None\<rparr>"

definition sample_collate :: "string \<Rightarrow> string \<Rightarrow> int" where
  "sample_collate a b = (if a = b then 0 else if a < b then -1 else 1)"

definition sample_worker :: claim_input where
  "sample_worker = \<lparr>ci_worker = ''worker'', ci_conversation = None, ci_event = None, ci_lane = None,
     ci_exclude = None, ci_lease = None\<rparr>"

definition sample_queued :: work_db where
  "sample_queued = snd (appendInboxEvent sample_digest ''u0'' sample_message (Some ''e'') (no_work sample_digest))"

definition sample_run :: "durable_attempt option throws \<times> work_db" where
  "sample_run = claimNextDurableWork (''u1'', ''u2'') sample_collate sample_worker 10 sample_queued"

lemma sample_queued_reachable: "(work_step sample_digest)\<^sup>*\<^sup>* (no_work sample_digest) sample_queued"
  unfolding sample_queued_def by (blast intro: ws_append)

lemma sample_run_reachable: "(work_step sample_digest)\<^sup>*\<^sup>* (no_work sample_digest) (snd sample_run)"
  using sample_queued_reachable unfolding sample_run_def
  by (meson ws_claim rtranclp.rtrancl_into_rtrancl)

lemma sample_run_events:
  "map (\<lambda>r. (ev_id r, ev_state r, ev_attempts r)) (wd_events (snd sample_run)) = [(''e'', E_leased, 1)]"
  by code_simp

lemma sample_run_claim:
  "(case fst sample_run of Inr (Some a) \<Rightarrow> da_event a = ''e'' | _ \<Rightarrow> False)"
  by code_simp



text \<open>
  C6. The claim. When a worker is given an attempt, the event is leased to that worker until the
  end of the lease, with the token of the attempt; the event's wake is authorized under the same
  token; the event is the only leased one of its conversation and lane; and the attempt is on
  record, open, with nothing dispatched, at the attempt count of the event.
\<close>

theorem claim_is_exclusive:
  assumes "claimNextDurableWork uuids collate i now db = (Inr (Some a), db')"
  shows "claim_holds a (ci_worker i) (now + claim_lease (ci_lease i)) db' \<and> da_ordinal a \<le> 5"
  using assms claim_next_holds [of uuids collate i now db a db']
  by (auto simp: claimNextDurableWork_def in_immediate_transaction_def MAX_ATTEMPTS_def split: sum.splits prod.splits)

theorem claim_is_exclusive_witness:
  "(\<exists>a. fst sample_run = Inr (Some a) \<and> da_event a = ''e'' \<and>
     claim_holds a ''worker'' (10 + 360000) (snd sample_run))"
proof -
  obtain a where a: "fst sample_run = Inr (Some a)" "da_event a = ''e''"
    using sample_run_claim by (auto split: sum.splits option.splits)
  then have "claimNextDurableWork (''u1'', ''u2'') sample_collate sample_worker 10 sample_queued =
      (Inr (Some a), snd sample_run)"
    by (metis sample_run_def prod.collapse)
  from claim_is_exclusive [OF this] a show ?thesis
    by (auto simp: sample_worker_def claim_lease_def DURABLE_WORK_COORDINATION_LEASE_MS_def)
qed

end
