(* ===== verification/Work_Safety.thy ===== *)
theory Work_Safety
  imports Work_Lifecycle
begin

text \<open>
  What the ledger does with work whose outcome is in doubt: the lineage of a repair, the recovery of
  expired leases, the replay of a settlement, and the pass at startup.
\<close>

section \<open>The lineage of a repair\<close>

definition lineage_link :: "repair_row list \<Rightarrow> string \<Rightarrow> string \<Rightarrow> bool" where
  "lineage_link ps x y \<longleftrightarrow> x \<noteq> [] \<and> y \<noteq> [] \<and>
     (\<exists>p. sql_get (\<lambda>p. rp_event p = x) ps = Some p \<and> rp_predecessor p = y)"

lemma repair_lineage_facts:
  assumes "distinct ids" "cursor \<in> set ids" "cursor \<noteq> []"
    and "\<And>x y. x \<in> set ids \<Longrightarrow> x \<noteq> cursor \<Longrightarrow> lineage_link ps x y \<Longrightarrow> y \<in> set ids"
  shows "distinct (repair_lineage ps ids cursor)"
    "\<exists>more. repair_lineage ps ids cursor = ids @ more \<and> (\<forall>x \<in> set more. (lineage_link ps)\<^sup>*\<^sup>* cursor x)"
    "\<And>x y. x \<in> set (repair_lineage ps ids cursor) \<Longrightarrow> lineage_link ps x y \<Longrightarrow>
       y \<in> set (repair_lineage ps ids cursor)"
proof -
  have "distinct (repair_lineage ps ids cursor) \<and>
    (\<exists>more. repair_lineage ps ids cursor = ids @ more \<and> (\<forall>x \<in> set more. (lineage_link ps)\<^sup>*\<^sup>* cursor x)) \<and>
    (\<forall>x y. x \<in> set (repair_lineage ps ids cursor) \<longrightarrow> lineage_link ps x y \<longrightarrow>
       y \<in> set (repair_lineage ps ids cursor))"
    using assms
  proof (induction ps ids cursor rule: repair_lineage.induct)
    case (1 ps ids cursor)
    show ?case
    proof (cases "\<exists>y. lineage_link ps cursor y \<and> y \<notin> set ids")
      case True
      then obtain p where p: "sql_get (\<lambda>p. rp_event p = cursor) ps = Some p"
        and new: "rp_predecessor p \<noteq> []" "rp_predecessor p \<notin> set ids"
        by (auto simp: lineage_link_def)
      have link: "lineage_link ps cursor (rp_predecessor p)"
        using p new 1(4) by (simp add: lineage_link_def)
      have unfold: "repair_lineage ps ids cursor = repair_lineage ps (ids @ [rp_predecessor p]) (rp_predecessor p)"
        using p new by (subst repair_lineage.simps) simp
      have closed: "y \<in> set (ids @ [rp_predecessor p])"
        if "x \<in> set (ids @ [rp_predecessor p])" "x \<noteq> rp_predecessor p" "lineage_link ps x y" for x y
      proof (cases "x = cursor")
        case True
        with that p show ?thesis by (auto simp: lineage_link_def)
      next
        case False
        with that 1(5) show ?thesis by auto
      qed
      have "distinct (ids @ [rp_predecessor p])" using 1(2) new by simp
      note IH = 1(1) [OF p _ this _ new(1) closed]
      have ih: "distinct (repair_lineage ps ids cursor)"
        "\<exists>more. repair_lineage ps ids cursor = (ids @ [rp_predecessor p]) @ more \<and>
          (\<forall>x \<in> set more. (lineage_link ps)\<^sup>*\<^sup>* (rp_predecessor p) x)"
        "\<forall>x y. x \<in> set (repair_lineage ps ids cursor) \<longrightarrow> lineage_link ps x y \<longrightarrow>
           y \<in> set (repair_lineage ps ids cursor)"
        using IH new unfolding unfold by auto
      from ih(2) obtain more where more: "repair_lineage ps ids cursor = ids @ (rp_predecessor p # more)"
        "\<forall>x \<in> set more. (lineage_link ps)\<^sup>*\<^sup>* (rp_predecessor p) x" by auto
      then have "\<forall>x \<in> set (rp_predecessor p # more). (lineage_link ps)\<^sup>*\<^sup>* cursor x"
        using link by (auto intro: converse_rtranclp_into_rtranclp)
      with more(1) ih(1,3) show ?thesis by blast
    next
      case False
      then have "repair_lineage ps ids cursor = ids"
        using 1(4) by (subst repair_lineage.simps) (auto simp: lineage_link_def split: option.split)
      moreover have "\<forall>x y. x \<in> set ids \<longrightarrow> lineage_link ps x y \<longrightarrow> y \<in> set ids"
        using False 1(5) by metis
      ultimately show ?thesis using 1(2) by simp
    qed
  qed
  then show "distinct (repair_lineage ps ids cursor)"
    "\<exists>more. repair_lineage ps ids cursor = ids @ more \<and> (\<forall>x \<in> set more. (lineage_link ps)\<^sup>*\<^sup>* cursor x)"
    "\<And>x y. x \<in> set (repair_lineage ps ids cursor) \<Longrightarrow> lineage_link ps x y \<Longrightarrow>
       y \<in> set (repair_lineage ps ids cursor)"
    by blast+
qed

text \<open>
  C39. The walk over the repairs ends on every table, a cyclic one included, and returns each event
  once: exactly the event asked for and those the predecessor links lead to.
\<close>

theorem repair_lineage_terminates:
  "distinct (lineageEventIds db e) \<and>
   set (lineageEventIds db e) = {x. (lineage_link (wd_repairs db))\<^sup>*\<^sup>* e x}"
proof (cases "e = []")
  case True
  then have "(lineage_link (wd_repairs db))\<^sup>*\<^sup>* e x \<longleftrightarrow> x = e" for x
    by (auto simp: lineage_link_def elim: converse_rtranclpE)
  with True show ?thesis by (simp add: lineageEventIds_def)
next
  case False
  note facts = repair_lineage_facts [of "[e]" e "wd_repairs db"]
  have ids: "lineageEventIds db e = repair_lineage (wd_repairs db) [e] e"
    using False by (simp add: lineageEventIds_def)
  have "x \<in> set (lineageEventIds db e)" if "(lineage_link (wd_repairs db))\<^sup>*\<^sup>* e x" for x
    using that
  proof (induction rule: rtranclp_induct)
    case base
    with facts(2) False ids show ?case by auto
  next
    case (step y z)
    have "z \<in> set (repair_lineage (wd_repairs db) [e] e)"
      by (rule facts(3) [OF _ _ False _ _ step.hyps(2)]) (use step.IH ids in auto)
    then show ?case by (simp add: ids)
  qed
  moreover have "distinct (lineageEventIds db e)" using facts(1) False ids by auto
  moreover have "\<exists>more. lineageEventIds db e = [e] @ more \<and>
      (\<forall>x \<in> set more. (lineage_link (wd_repairs db))\<^sup>*\<^sup>* e x)"
    using facts(2) False ids by auto
  ultimately show ?thesis by auto
qed

section \<open>Recovery\<close>

text \<open>What only moves wakes and cycle states leaves the effects alone.\<close>

definition quiet :: "work_db \<Rightarrow> work_db \<Rightarrow> bool" where
  "quiet db db' \<longleftrightarrow> kernel_only db db' \<and>
     in_flight_effects (effects (kernel db')) = in_flight_effects (effects (kernel db)) \<and>
     effect_receipts (effects (kernel db')) = effect_receipts (effects (kernel db))"

lemma quiet_refl [simp]: "quiet db db"
  by (simp add: quiet_def kernel_only_refl)

lemma quiet_trans: "quiet db db1 \<Longrightarrow> quiet db1 db2 \<Longrightarrow> quiet db db2"
  by (auto simp: quiet_def intro: kernel_only_trans)

lemma move_wake_quiet: "move_wake w f db = Inr db' \<Longrightarrow> quiet db db'"
  by (auto simp: quiet_def move_wake_def run_kernel_eq update_wake_eq Let_def)

lemma wake_moves_quiet:
  "wakeToPending w now db = Inr db' \<Longrightarrow> quiet db db'"
  "wakeToReconciling w now db = Inr db' \<Longrightarrow> quiet db db'"
  "wakeToTerminal w reason now db = Inr db' \<Longrightarrow> quiet db db'"
  by (auto simp: wakeToPending_def wakeToReconciling_def wakeToTerminal_def
      split: option.splits if_splits dest: move_wake_quiet)

lemma retire_quiet:
  "retireOwnerlessCycleForTerminalEvent w now db = Inr db' \<Longrightarrow> quiet db db'"
  by (auto simp: retireOwnerlessCycleForTerminalEvent_def run_kernel_eq quiet_def updateCycleState_def
      and_then_eq_Inr store_cycles_eq Let_def kernel_only_refl split: option.splits if_splits)

lemma quiet_tables:
  assumes "quiet db db'"
  shows "wd_events db' = wd_events db" "wd_attempts db' = wd_attempts db" "wd_repairs db' = wd_repairs db"
    "wd_tables db' = wd_tables db" "hasAmbiguousEffect (kernel db') w = hasAmbiguousEffect (kernel db) w"
    "boundEffects db' es = boundEffects db es"
  using assms kernel_only_tables [of db db']
  by (auto simp: quiet_def hasAmbiguousEffect_def getUnresolvedInFlightForWake_def boundEffects_def)

text \<open>One event is written, the others stay; what the attempts and effects say stays as well.\<close>

definition only_event_written :: "string \<Rightarrow> (event_row \<Rightarrow> event_row \<Rightarrow> bool) \<Rightarrow> work_db \<Rightarrow> work_db \<Rightarrow> bool" where
  "only_event_written e P db db' \<longleftrightarrow> map ev_id (wd_events db') = map ev_id (wd_events db) \<and>
     wd_attempts db' = wd_attempts db \<and> wd_repairs db' = wd_repairs db \<and>
     in_flight_effects (effects (kernel db')) = in_flight_effects (effects (kernel db)) \<and>
     (\<forall>x. x \<noteq> e \<longrightarrow> find_event db' x = find_event db x) \<and>
     (\<forall>r. find_event db e = Some r \<longrightarrow> (\<exists>r'. find_event db' e = Some r' \<and> P r r'))"

lemma one_event_update:
  assumes "update_events match f db = Inr (n, db1)" and "quiet db1 db'"
    and "\<And>r. match r \<Longrightarrow> ev_id r = e" "\<And>r. ev_id (f r) = ev_id r"
    and "\<And>r. find_event db e = Some r \<Longrightarrow> P r (if match r then f r else r)"
  shows "only_event_written e P db db'"
proof -
  have up: "wd_events db' = sql_update match f (wd_events db)" "wd_attempts db' = wd_attempts db"
      "wd_repairs db' = wd_repairs db" "in_flight_effects (effects (kernel db')) = in_flight_effects (effects (kernel db))"
    using assms(1) quiet_tables [OF assms(2)] assms(2)
    by (auto simp: update_events_eq Let_def quiet_def kernel_def)
  have find: "find_event db' x = map_option (\<lambda>r. if match r then f r else r) (find_event db x)" for x
    unfolding find_event_def up by (rule sql_get_update) (simp add: assms(4))
  have "find_event db' x = find_event db x" if "x \<noteq> e" for x
  proof (cases "find_event db x")
    case (Some r)
    then have "ev_id r = x" using sql_get_SomeD [OF Some [unfolded find_event_def]] by simp
    with that assms(3) have "\<not> match r" by blast
    with Some find [of x] show ?thesis by simp
  qed (simp add: find)
  moreover have "map ev_id (wd_events db') = map ev_id (wd_events db)"
    unfolding up by (rule map_key_sql_update) (rule assms(4))
  moreover have "\<exists>r'. find_event db' e = Some r' \<and> P r r'" if "find_event db e = Some r" for r
    using assms(5) [OF that] find [of e] that by simp
  ultimately show ?thesis using up(2-4) by (simp add: only_event_written_def)
qed

text \<open>
  A recovered event: taken back to be tried again only when its last attempt dispatched nothing and
  its wake has no effect that is in flight or unknown; else it waits for reconciliation; work
  whose history cannot be read is quarantined.
\<close>

definition recovered_to :: "work_db \<Rightarrow> event_row \<Rightarrow> event_row \<Rightarrow> bool" where
  "recovered_to db r r' \<longleftrightarrow>
     (case latestAttempt db (ev_id r) of
        None \<Rightarrow> ev_state r' = E_quarantined
      | Some a \<Rightarrow> ev_state r' = E_quarantined \<or>
          (if wa_truth a = D_not_started \<and>
              getUnresolvedInFlightForWake (effects (kernel db)) (text_of (ev_wake r)) = None
           then r' = to_reclaimed r else r' = to_reconciling ''recovered_after_possible_dispatch'' r))"

lemma quarantine_writes:
  assumes "quarantineEvent current reason now db = Inr db'"
  shows "only_event_written (ev_id current) (\<lambda>r r'. ev_state r' = E_quarantined) db db'"
proof -
  from assms obtain n db1 db2 where up: "update_events (\<lambda>r. ev_id r = ev_id current) (to_quarantined reason) db = Inr (n, db1)"
    and k: "db2 = db1 \<or> wakeToTerminal (text_of (ev_wake current)) R_quarantined now db1 = Inr db2"
    and ret: "retireOwnerlessCycleForTerminalEvent (ev_wake current) now db2 = Inr db'"
    by (auto simp: quarantineEvent_def and_then_eq_Inr Let_def split: if_splits)
  have "quiet db1 db'" using k retire_quiet [OF ret] wake_moves_quiet(3) quiet_trans by blast
  from up this show ?thesis
    by (rule one_event_update) (auto simp: to_quarantined_def release_event_def find_event_def dest: sql_get_SomeD)
qed

lemma recover_event_writes:
  assumes "recover_event now e (res, db) = Inr (res', db')" and "e \<noteq> []"
    and leased: "\<And>r. find_event db e = Some r \<Longrightarrow> ev_state r = E_leased"
  shows "only_event_written e (recovered_to db) db db'"
proof -
  from assms(1,2) obtain current where current: "find_event db e = Some current"
    by (auto simp: recover_event_def and_then_eq_Inr event_def split: option.splits)
  have id: "ev_id current = e" using sql_get_SomeD [OF current [unfolded find_event_def]] by simp
  let ?w = "text_of (ev_wake current)"
  have amb: "hasAmbiguousEffect (kernel db) w \<longleftrightarrow> getUnresolvedInFlightForWake (effects (kernel db)) w \<noteq> None" for w
    by (simp add: hasAmbiguousEffect_def)
  from assms(1,2) current consider
      a n db1 where "latestAttempt db e = Some a" "wa_truth a = D_not_started" "\<not> hasAmbiguousEffect (kernel db) ?w"
        "update_events (is_leased e) to_reclaimed db = Inr (n, db1)" "wakeToPending ?w now db1 = Inr db'"
    | a n db1 where "latestAttempt db e = Some a" "\<not> (wa_truth a = D_not_started \<and> \<not> hasAmbiguousEffect (kernel db) ?w)"
        "update_events (is_leased e) (to_reconciling ''recovered_after_possible_dispatch'') db = Inr (n, db1)"
        "wakeToReconciling ?w now db1 = Inr db'"
    | reason where "quarantineEvent current reason now db = Inr db'"
    unfolding recover_event_def
    by (simp add: Let_def and_then_eq_Inr event_def split: if_splits sum.splits option.splits) blast+
  then show ?thesis
  proof cases
    case 1
    show ?thesis
      by (rule one_event_update [OF 1(4) wake_moves_quiet(1) [OF 1(5)]])
        (use 1 current id leased amb in \<open>auto simp: is_leased_def to_reclaimed_def release_event_def recovered_to_def\<close>)
  next
    case 2
    show ?thesis
      by (rule one_event_update [OF 2(3) wake_moves_quiet(2) [OF 2(4)]])
        (use 2 current id leased amb in \<open>auto simp: is_leased_def to_reconciling_def release_event_def recovered_to_def\<close>)
  next
    case 3
    from quarantine_writes [OF this] show ?thesis
      unfolding id by (auto simp: only_event_written_def recovered_to_def split: option.split)
  qed
qed

lemma recovered_to_cong:
  "wd_attempts db' = wd_attempts db \<Longrightarrow>
   in_flight_effects (effects (kernel db')) = in_flight_effects (effects (kernel db)) \<Longrightarrow>
   recovered_to db' = recovered_to db"
proof (intro ext)
  fix r r' :: event_row
  assume same: "wd_attempts db' = wd_attempts db"
    "in_flight_effects (effects (kernel db')) = in_flight_effects (effects (kernel db))"
  have "latestAttempt db' (ev_id r) = latestAttempt db (ev_id r)"
    using same by (simp add: latestAttempt_def event_attempts_def)
  moreover have "getUnresolvedInFlightForWake (effects (kernel db')) (text_of (ev_wake r)) =
      getUnresolvedInFlightForWake (effects (kernel db)) (text_of (ev_wake r))"
    using same by (simp add: getUnresolvedInFlightForWake_def)
  ultimately show "recovered_to db' r r' = recovered_to db r r'" by (simp only: recovered_to_def)
qed

lemma recover_events_rows:
  assumes "recover_events now es (res, db) = Inr (res', db')" "distinct es"
    and "\<forall>e \<in> set es. \<forall>r. find_event db e = Some r \<longrightarrow> ev_state r = E_leased"
  shows "\<forall>r. find_event db x = Some r \<longrightarrow>
      (\<exists>r'. find_event db' x = Some r' \<and> (if x \<in> set es \<and> x \<noteq> [] then recovered_to db r r' else r' = r))"
  using assms
proof (induction es arbitrary: res db)
  case (Cons e es)
  then obtain res1 db1 where s: "recover_event now e (res, db) = Inr (res1, db1)"
    and rest: "recover_events now es (res1, db1) = Inr (res', db')"
    by (auto simp: and_then_eq_Inr)
  show ?case
  proof (cases "e = []")
    case True
    with s have db1: "db1 = db" by (simp add: recover_event_def)
    have mem: "x \<in> set (e # es) \<and> x \<noteq> [] \<longleftrightarrow> x \<in> set es \<and> x \<noteq> []" using True by auto
    show ?thesis unfolding mem using Cons.IH [OF rest] Cons.prems(2,3) unfolding db1 by simp
  next
    case False
    have written: "only_event_written e (recovered_to db) db db1"
      by (rule recover_event_writes [OF s False]) (use Cons.prems in auto)
    then have same: "recovered_to db1 = recovered_to db"
      by (intro recovered_to_cong) (simp_all add: only_event_written_def)
    have "\<forall>e' \<in> set es. \<forall>r. find_event db1 e' = Some r \<longrightarrow> ev_state r = E_leased"
      using written Cons.prems by (auto simp: only_event_written_def)
    with Cons.IH [OF rest] Cons.prems have IH: "\<forall>r. find_event db1 x = Some r \<longrightarrow>
        (\<exists>r'. find_event db' x = Some r' \<and> (if x \<in> set es \<and> x \<noteq> [] then recovered_to db1 r r' else r' = r))"
      by simp
    show ?thesis
    proof (cases "x = e")
      case True
      with written IH Cons.prems(2) False show ?thesis by (fastforce simp: only_event_written_def)
    next
      case False
      then have find: "find_event db1 x = find_event db x" using written by (simp add: only_event_written_def)
      have mem: "x \<in> set (e # es) \<and> x \<noteq> [] \<longleftrightarrow> x \<in> set es \<and> x \<noteq> []" using False by auto
      show ?thesis unfolding mem using IH unfolding same find .
    qed
  qed
qed simp

lemma set_by_creation [simp]: "set (by_creation rows) = set rows"
  by (simp add: by_creation_def)

lemma distinct_by_creation: "distinct (map ev_id rows) \<Longrightarrow> distinct (map ev_id (by_creation rows))"
  by (simp add: by_creation_def distinct_map)

text \<open>
  C7. Recovery never replays what may have been dispatched. An expired lease is taken back for a
  new attempt only if the last attempt dispatched nothing and the wake has no effect in flight or
  unknown; otherwise the event waits for reconciliation or is quarantined. Every other event is
  left as it is.
\<close>

theorem recovery_never_replays_dispatch:
  assumes "(work_step sha)\<^sup>*\<^sup>* (no_work sha) db" and "recoverDurableWork now db = (Inr res, db')"
    and "find_event db e = Some r"
  shows "\<exists>r'. find_event db' e = Some r' \<and>
    (if ev_state r = E_leased \<and> ev_lease_over now r \<and> e \<noteq> []
     then (case latestAttempt db e of
         None \<Rightarrow> ev_state r' = E_quarantined
       | Some a \<Rightarrow> ev_state r' = E_quarantined \<or>
           (if wa_truth a = D_not_started \<and>
               getUnresolvedInFlightForWake (effects (kernel db)) (text_of (ev_wake r)) = None
            then r' = to_reclaimed r else r' = to_reconciling ''recovered_after_possible_dispatch'' r))
     else r' = r)"
proof -
  have ids: "distinct (map ev_id (wd_events db))"
    using reachable_work_inv [OF assms(1)] by (simp add: work_inv_def event_indexes_def)
  have r: "r \<in> set (wd_events db)" "ev_id r = e"
    using sql_get_SomeD [OF assms(3) [unfolded find_event_def]] by auto
  let ?sel = "filter (\<lambda>r. ev_state r = E_leased \<and> ev_lease_over now r \<and> only_event None r) (wd_events db)"
  let ?es = "map ev_id (by_creation ?sel)"
  have rec: "recover_events now ?es (no_work_recovery, db) = Inr (res, db')"
    using assms(2) by (auto simp: recoverDurableWork_def in_immediate_transaction_def
        recoverExpiredDurableWorkInTransaction_def split: sum.splits prod.splits)
  have "distinct ?es" by (rule distinct_by_creation) (use ids in \<open>simp add: distinct_map_filter\<close>)
  moreover have same: "q = q'" if "q \<in> set (wd_events db)" "q' \<in> set (wd_events db)" "ev_id q = ev_id q'" for q q'
    using ids that by (meson distinct_map inj_onD)
  have "\<forall>e \<in> set ?es. \<forall>r. find_event db e = Some r \<longrightarrow> ev_state r = E_leased"
    using same by (auto simp: find_event_def dest!: sql_get_SomeD)
  ultimately have rows: "\<forall>r. find_event db e = Some r \<longrightarrow> (\<exists>r'. find_event db' e = Some r' \<and>
      (if e \<in> set ?es \<and> e \<noteq> [] then recovered_to db r r' else r' = r))"
    by (rule recover_events_rows [OF rec])
  have "e \<in> set ?es \<longleftrightarrow> ev_state r = E_leased \<and> ev_lease_over now r"
    using r same by (auto simp: only_event_def)
  with rows assms(3) have "\<exists>r'. find_event db' e = Some r' \<and>
      (if ev_state r = E_leased \<and> ev_lease_over now r \<and> e \<noteq> [] then recovered_to db r r' else r' = r)"
    by simp
  then show ?thesis by (simp only: recovered_to_def r(2))
qed

text \<open>The sample's worker is gone for seven minutes: its work is taken back.\<close>

definition sample_recovered :: "work_recovery throws \<times> work_db" where
  "sample_recovered = recoverDurableWork 420000 (snd sample_run)"

lemma sample_recovered_facts:
  "(case fst sample_recovered of Inr res \<Rightarrow> wk_reclaimed res = 1 | Inl _ \<Rightarrow> False)"
  "find_event (snd sample_run) ''e'' \<noteq> None"
  by code_simp+

theorem recovery_never_replays_dispatch_witness:
  "\<exists>r r'. find_event (snd sample_run) ''e'' = Some r \<and> find_event (snd sample_recovered) ''e'' = Some r'"
proof -
  from sample_recovered_facts obtain res r where "fst sample_recovered = Inr res"
    and r: "find_event (snd sample_run) ''e'' = Some r"
    by (auto split: sum.splits)
  then have "recoverDurableWork 420000 (snd sample_run) = (Inr res, snd sample_recovered)"
    by (metis sample_recovered_def prod.collapse)
  from recovery_never_replays_dispatch [OF sample_run_reachable this r] r show ?thesis by blast
qed

end
