(* ===== verification/Work_Settled.thy ===== *)
theory Work_Settled
  imports Work_Safety
begin

text \<open>
  The settlement of an attempt told twice: the same result again changes nothing, another result
  quarantines the event.
\<close>

section \<open>The row of the settled event\<close>

lemma row_after_update:
  assumes "update_events match f db = Inr (n, db')" and "\<And>r. ev_id (f r) = ev_id r"
  shows "find_event db' e = map_option (\<lambda>r. if match r then f r else r) (find_event db e)"
    "wd_attempts db' = wd_attempts db"
proof -
  have up: "wd_events db' = sql_update match f (wd_events db)" "wd_attempts db' = wd_attempts db"
    using assms(1) by (auto simp: update_events_eq Let_def)
  show "find_event db' e = map_option (\<lambda>r. if match r then f r else r) (find_event db e)"
    unfolding find_event_def up by (rule sql_get_update) (simp add: assms(2))
  show "wd_attempts db' = wd_attempts db" by (rule up)
qed

lemma row_after_kernel:
  "kernel_only db db' \<Longrightarrow> find_event db' e = find_event db e \<and> wd_attempts db' = wd_attempts db"
  using kernel_only_tables [of db db'] by (simp add: find_event_def)

lemma settled_rows_keep_id:
  "ev_id (to_consumed reason now r) = ev_id r" "ev_id (clear_failure r) = ev_id r"
  "ev_id (to_reconciling err r) = ev_id r" "ev_id (to_retry_wait at cl err r) = ev_id r"
  "ev_id (to_failed state reason q cl err r) = ev_id r" "ev_id (to_quarantined reason r) = ev_id r"
  by (simp_all add: event_row_ops)

lemma row_after_siblings:
  "converge_siblings current ss now db = Inr db' \<Longrightarrow>
   find_event db' (ev_id current) = find_event db (ev_id current) \<and> wd_attempts db' = wd_attempts db"
proof (induction current ss now db rule: converge_siblings.induct)
  case (2 current s ss now db)
  show ?case
  proof (cases "s = [] \<or> s = ev_id current")
    case False
    let ?match = "\<lambda>r. ev_id r = s \<and> ev_wake r = ev_wake current \<and> ev_state r \<in> {E_pending, E_retry_wait, E_leased}"
    from 2(3) False obtain n db1 where
        up: "update_events ?match (\<lambda>r. clear_failure (to_consumed ''completed'' now r)) db = Inr (n, db1)"
        and rest: "converge_siblings current ss now db1 = Inr db'"
      by (auto simp: and_then_eq_Inr)
    have "find_event db1 (ev_id current) = find_event db (ev_id current)"
    proof (cases "find_event db (ev_id current)")
      case (Some r)
      then have "ev_id r = ev_id current" using sql_get_SomeD [OF Some [unfolded find_event_def]] by simp
      then have "ev_id r \<noteq> s" using False by metis
      with Some show ?thesis by (simp add: row_after_update(1) [OF up] settled_rows_keep_id)
    qed (simp add: row_after_update(1) [OF up] settled_rows_keep_id)
    moreover have "wd_attempts db1 = wd_attempts db"
      by (rule row_after_update(2) [OF up]) (simp add: settled_rows_keep_id)
    ultimately show ?thesis using 2(2) [OF False rest] by simp
  qed (use 2 in auto)
qed simp

text \<open>The answer to the same result told again; a completion is then reported as an end.\<close>

definition replayed :: "settlement_outcome \<Rightarrow> settlement_outcome \<Rightarrow> bool" where
  "replayed out out' \<longleftrightarrow> (if out = So_completed
     then out' = So_terminal ''completed'' \<or> out' = So_terminal ''deferred_to_frontier'' else out' = out)"

definition settled_as :: "string \<Rightarrow> settlement_outcome \<Rightarrow> work_db \<Rightarrow> work_db \<Rightarrow> bool" where
  "settled_as e out db db' \<longleftrightarrow> wd_attempts db' = wd_attempts db \<and>
     (\<exists>r out'. find_event db' e = Some r \<and> outcomeForSettledEvent r = Inr out' \<and> replayed out out')"

lemma settled_by_update:
  assumes up: "update_events (holds_claim (ev_id current) token) f db = Inr (n, db1)"
    and rest: "find_event db' (ev_id current) = find_event db1 (ev_id current)" "wd_attempts db' = wd_attempts db1"
    and id: "\<And>r. ev_id (f r) = ev_id r" and held: "find_event db (ev_id current) = Some current"
      "holds_claim (ev_id current) token current"
    and out: "outcomeForSettledEvent (f current) = Inr out'" "replayed out out'"
  shows "settled_as (ev_id current) out db db'"
  using row_after_update [OF up id] rest held out by (auto simp: settled_as_def)

lemmas quiet_row = row_after_kernel [THEN conjunct1] row_after_kernel [THEN conjunct2]

lemma settle_completed_row:
  assumes "settle_completed current token covered now db = Inr (out, db')"
    and held: "find_event db (ev_id current) = Some current" "holds_claim (ev_id current) token current"
  shows "settled_as (ev_id current) out db db'"
proof -
  from assms(1) obtain n db1 db2 where
      up: "update_events (holds_claim (ev_id current) token) (to_consumed ''completed'' now) db = Inr (n, db1)"
      and conv: "convergeCoveredSiblingEvents current covered now db1 = Inr db2"
      and fin: "finishWakeForEvent current R_completed now db2 = Inr db'" and out: "out = So_completed"
    by (auto simp: settle_completed_def and_then_eq_Inr)
  have "find_event db2 (ev_id current) = find_event db1 (ev_id current) \<and> wd_attempts db2 = wd_attempts db1"
    using conv by (auto simp: convergeCoveredSiblingEvents_def split: if_splits dest: row_after_siblings)
  with quiet_row [OF finishWakeForEvent_kernel [OF fin]]
  show ?thesis
    by (intro settled_by_update [OF up _ _ _ held])
      (auto simp: settled_rows_keep_id release_event_def outcomeForSettledEvent_def to_consumed_def replayed_def out)
qed

lemma settle_deferred_row:
  assumes "settle_deferred uuid current token conv c gen nxt evidence now db = Inr (out, db')"
    and held: "find_event db (ev_id current) = Some current" "holds_claim (ev_id current) token current"
  shows "settled_as (ev_id current) out db db'"
proof -
  from assms(1) obtain n db1 db2 db3 where
      up: "update_events (holds_claim (ev_id current) token) (to_consumed ''deferred_to_frontier'' now) db = Inr (n, db1)"
      and "(if text_of (ev_wake current) = [] then Inr db1
        else move_wake (text_of (ev_wake current)) (to_pending now) db1) = Inr db2"
      and "(if c = [] then Inr db2 else run_kernel (updateCycleState c ''capacity_wait'' now) db2) = Inr db3"
      and "defer_frontier uuid conv c gen nxt evidence now db3 = Inr db'" and out: "out = So_completed"
    by (auto simp: settle_deferred_def and_then_eq_Inr)
  then have "kernel_only db1 db2" "kernel_only db2 db3" "kernel_only db3 db'"
    by (auto simp: run_kernel_eq defer_frontier_def Let_def and_then_eq_Inr kernel_only_refl
        split: if_splits dest: move_wake_kernel)
  then have "kernel_only db1 db'" using kernel_only_trans by blast
  from quiet_row [OF this] show ?thesis
    by (intro settled_by_update [OF up _ _ _ held])
      (auto simp: settled_rows_keep_id release_event_def outcomeForSettledEvent_def to_consumed_def replayed_def out)
qed

lemma settle_unknown_row:
  assumes "settle_unknown current token err now db = Inr (out, db')"
    and held: "find_event db (ev_id current) = Some current" "holds_claim (ev_id current) token current"
  shows "settled_as (ev_id current) out db db'"
proof -
  from assms(1) obtain n db1 where
      up: "update_events (holds_claim (ev_id current) token) (to_reconciling err) db = Inr (n, db1)"
      and k: "wakeToReconciling (text_of (ev_wake current)) now db1 = Inr db'" and out: "out = So_reconciling"
    by (auto simp: settle_unknown_def and_then_eq_Inr split: if_splits)
  from quiet_row [OF wake_moves_kernel(2) [OF k]] show ?thesis
    by (intro settled_by_update [OF up _ _ _ held])
      (auto simp: settled_rows_keep_id release_event_def outcomeForSettledEvent_def to_reconciling_def replayed_def out)
qed

lemma settle_retry_row:
  assumes "settle_retry current token at class err now db = Inr (out, db')"
    and held: "find_event db (ev_id current) = Some current" "holds_claim (ev_id current) token current"
  shows "settled_as (ev_id current) out db db'"
proof -
  from assms(1) obtain n db1 where
      up: "update_events (holds_claim (ev_id current) token) (to_retry_wait at class err) db = Inr (n, db1)"
      and k: "wakeToPending (text_of (ev_wake current)) now db1 = Inr db'" and out: "out = So_retry_wait at"
    by (auto simp: settle_retry_def and_then_eq_Inr split: if_splits)
  from quiet_row [OF wake_moves_kernel(1) [OF k]] show ?thesis
    by (intro settled_by_update [OF up _ _ _ held])
      (auto simp: settled_rows_keep_id release_event_def outcomeForSettledEvent_def to_retry_wait_def replayed_def out)
qed

lemma settle_terminal_row:
  assumes "settle_terminal current a token truth class err stop now db = Inr ((out, c3), db')"
    and held: "find_event db (ev_id current) = Some current" "holds_claim (ev_id current) token current"
  shows "settled_as (ev_id current) out db db'"
proof -
  obtain state reason wakeReason q where d: "terminal_disposition class err stop = (state, reason, wakeReason, q)"
    by (cases "terminal_disposition class err stop") auto
  with assms(1) obtain n db1 db2 where
      up: "update_events (holds_claim (ev_id current) token) (to_failed state reason q class err) db = Inr (n, db1)"
      and "finishWakeForEvent current wakeReason now db1 = Inr db2"
      and "retireOwnerlessCycleForTerminalEvent (ev_wake current) now db2 = Inr db'"
      and out: "out = So_terminal reason"
    by (auto simp: settle_terminal_def and_then_eq_Inr Let_def)
  then have "kernel_only db1 db'" using finishWakeForEvent_kernel retire_kernel kernel_only_trans by blast
  from quiet_row [OF this] show ?thesis
    using terminal_disposition_state [OF d]
    by (intro settled_by_update [OF up _ _ _ held])
      (auto simp: settled_rows_keep_id release_event_def outcomeForSettledEvent_def to_failed_def replayed_def out)
qed

lemma supersede_row:
  assumes "supersedeDurableAttemptInTransaction sha current sw se cov uncov hash now db = Inr db'"
    and held: "find_event db (ev_id current) = Some current"
  shows "settled_as (ev_id current) (So_terminal ''superseded'') db db'"
proof -
  from assms(1) obtain n db1 db2 where
      valid: "validateSupersession sha db current sw se cov uncov hash = Inr cov"
      and up: "update_events (\<lambda>r. ev_id r \<in> set cov \<and> ev_wake r = ev_wake current)
        (\<lambda>r. clear_failure (to_consumed ''superseded'' now r)) db = Inr (n, db1)"
      and "finishWakeForEvent current R_superseded now db1 = Inr db2"
      and "retireOwnerlessCycleForTerminalEvent (ev_wake current) now db2 = Inr db'"
    by (auto simp: supersedeDurableAttemptInTransaction_def validateSupersession_def Let_def and_then_eq_Inr
        split: if_splits)
  then have "kernel_only db1 db'" using finishWakeForEvent_kernel retire_kernel kernel_only_trans by blast
  moreover have "ev_id current \<in> set cov"
    using valid by (auto simp: validateSupersession_def Let_def split: if_splits)
  moreover have "ev_id (clear_failure (to_consumed ''superseded'' now r)) = ev_id r" for r
    by (simp add: settled_rows_keep_id)
  note rows = row_after_update(1) [OF up this, of "ev_id current"] row_after_update(2) [OF up this]
  ultimately show ?thesis
    using row_after_kernel [of db1 db' "ev_id current"] rows held
    by (auto simp: settled_as_def outcomeForSettledEvent_def to_consumed_def
        clear_failure_def replayed_def)
qed

lemma settle_open_row:
  assumes "settle_open sha uuid current a token result now covered db = Inr ((out, c3), db')"
    and held: "find_event db (ev_id current) = Some current" "holds_claim (ev_id current) token current"
  shows "settled_as (ev_id current) out db db'"
  using assms(1)
  by (auto simp: settle_open_def no_c3_def and_then_eq_Inr split: handler_result.splits retry_decision.splits
      intro: supersede_row settle_completed_row settle_deferred_row settle_unknown_row settle_retry_row
        settle_terminal_row held)

text \<open>The attempt after it was finished with a result.\<close>

lemma finished_attempt:
  assumes "finish_attempt a e result now db = Inr db'" and "attempt db a (Some e) = Some r" "wa_finished r = None"
  shows "\<exists>r'. attempt db' a (Some e) = Some r' \<and> wa_finished r' \<noteq> None \<and> sameSettlement r' result \<and>
    wd_events db' = wd_events db"
proof -
  obtain truth cl err where f: "failureFor result = (truth, cl, err)" by (cases "failureFor result") auto
  let ?match = "\<lambda>r. wa_id r = a \<and> wa_event r = e \<and> wa_finished r = None"
  let ?f = "\<lambda>r. r\<lparr>wa_finished := Some now, wa_truth := truth, wa_failure := cl, wa_error := err\<rparr>"
  have rows: "wd_attempts db' = sql_update ?match ?f (wd_attempts db)" "wd_events db' = wd_events db"
    using assms(1) by (auto simp: finish_attempt_def f store_attempts_eq)
  have "attempt db' a (Some e) = map_option (\<lambda>r. if ?match r then ?f r else r) (attempt db a (Some e))"
    using sql_get_update [of ?match "\<lambda>r. (wa_id r, wa_event r)" ?f "(a, e)" "wd_attempts db"]
    by (simp add: attempt_def rows)
  moreover have "?match r" using sql_get_SomeD [OF assms(2) [unfolded attempt_def]] assms(3) by simp
  ultimately show ?thesis using assms(2) rows by (simp add: sameSettlement_def f)
qed

section \<open>Properties\<close>

definition sample_settlement :: settle_input where
  "sample_settlement = \<lparr>st_event = ''e'', st_attempt = ''attempt:u2'', st_token = ''wake-lease:u1'',
     st_result = H_completed, st_now = 20, st_covered = []\<rparr>"

definition sample_settled :: "settlement_outcome throws \<times> work_db" where
  "sample_settled = settleDurableAttempt sample_digest ''u3'' sample_settlement (snd sample_run)"

text \<open>The same attempt ended by a failure that is tried again, and then said to be lost.\<close>

definition sample_retried :: "settlement_outcome throws \<times> work_db" where
  "sample_retried = settleDurableAttempt sample_digest ''u3''
     (sample_settlement\<lparr>st_result := H_failed Fc_transient_retryable ''busy'' (Some D_not_started) None\<rparr>)
     (snd sample_run)"

definition sample_contradicted :: "settlement_outcome throws \<times> work_db" where
  "sample_contradicted = settleDurableAttempt sample_digest ''u4''
     (sample_settlement\<lparr>st_result := H_unknown ''op'' ''lost''\<rparr>) (snd sample_retried)"

lemma sample_settled_facts:
  "(case attempt (snd sample_run) ''attempt:u2'' (Some ''e'') of None \<Rightarrow> False | Some a \<Rightarrow> wa_finished a = None)"
  "(case fst sample_settled of Inl e \<Rightarrow> False | Inr out \<Rightarrow> out = So_completed)"
  by code_simp+

lemma sample_retried_facts:
  "(case attempt (snd sample_retried) ''attempt:u2'' (Some ''e'') of None \<Rightarrow> False
    | Some a \<Rightarrow> wa_finished a = Some 20 \<and> wa_truth a = D_not_started)"
  "(case fst sample_contradicted of Inl e \<Rightarrow> False | Inr out \<Rightarrow> True)"
  by code_simp+

text \<open>
  C18. A settlement told twice. Once a result for an open attempt is accepted, the same result for the
  same attempt, at any later time and from any caller, is accepted again and changes no table; its
  answer is the same, except that a completion is then reported as an end.
\<close>

theorem settlement_replay_is_silent:
  assumes "attempt db (st_attempt i) (Some (st_event i)) = Some a" "wa_finished a = None"
    and "settleDurableAttempt sha uuid i db = (Inr out, db')"
  shows "\<exists>out'. settleDurableAttempt sha uuid' (i\<lparr>st_token := token, st_now := later, st_covered := cs\<rparr>) db' =
      (Inr out', db') \<and> replayed out out'"
proof -
  from assms(3) obtain c3 db2 where inside: "settleDurableAttemptInTransaction sha uuid i db = Inr ((out, c3), db2)"
    and db': "db' = record_c3 c3 db2"
    by (auto simp: settleDurableAttempt_def in_immediate_transaction_def split: sum.splits prod.splits)
  with assms(1,2) obtain current db1 where current: "event db (st_event i) = Inr current"
    and lease: "ev_state current = E_leased" "ev_token current = Some (st_token i)"
    and fin: "finish_attempt (st_attempt i) (st_event i) (st_result i) (st_now i) db = Inr db1"
    and open_: "settle_open sha uuid current a (st_token i) (st_result i) (st_now i) (st_covered i) db1 =
      Inr ((out, c3), db2)"
    by (auto simp: settleDurableAttemptInTransaction_def and_then_eq_Inr split: if_splits)
  obtain a' where a': "attempt db1 (st_attempt i) (Some (st_event i)) = Some a'" "wa_finished a' \<noteq> None"
      "sameSettlement a' (st_result i)" and events: "wd_events db1 = wd_events db"
    using finished_attempt [OF fin assms(1,2)] by blast
  have found: "find_event db1 (st_event i) = Some current" and id: "ev_id current = st_event i"
    using current events event_row [OF current] by (auto simp: event_def find_event_def split: option.splits)
  then have "settled_as (st_event i) out db1 db2"
    using settle_open_row [OF open_] lease by (simp add: holds_claim_def)
  then obtain r out' where r: "find_event db2 (st_event i) = Some r" "outcomeForSettledEvent r = Inr out'"
      "replayed out out'" and at: "wd_attempts db2 = wd_attempts db1"
    by (auto simp: settled_as_def)
  have tables: "wd_events db' = wd_events db2" "wd_attempts db' = wd_attempts db2"
    by (auto simp: db' record_c3_def split: option.split)
  have "event db' (st_event i) = Inr r" using r(1) tables by (simp add: event_def find_event_def)
  moreover have "attempt db' (st_attempt i) (Some (st_event i)) = Some a'"
    using a'(1) at tables by (simp add: attempt_def)
  ultimately have "settleDurableAttemptInTransaction sha uuid'
      (i\<lparr>st_token := token, st_now := later, st_covered := cs\<rparr>) db' = Inr ((out', None), db')"
    using a' r by (simp add: settleDurableAttemptInTransaction_def)
  then show ?thesis using r(3)
    by (simp add: settleDurableAttempt_def in_immediate_transaction_def record_c3_def)
qed

theorem settlement_replay_is_silent_witness:
  "\<exists>out out'. sample_settled = (Inr out, snd sample_settled) \<and>
     settleDurableAttempt sample_digest ''u9'' (sample_settlement\<lparr>st_token := ''other'', st_now := 99, st_covered := []\<rparr>)
       (snd sample_settled) = (Inr out', snd sample_settled) \<and> replayed out out'"
proof -
  obtain a where a: "attempt (snd sample_run) (st_attempt sample_settlement) (Some (st_event sample_settlement)) = Some a"
      "wa_finished a = None"
    using sample_settled_facts(1) by (auto simp: sample_settlement_def split: option.splits)
  obtain out where out: "settleDurableAttempt sample_digest ''u3'' sample_settlement (snd sample_run) =
      (Inr out, snd sample_settled)"
    using sample_settled_facts(2) by (cases sample_settled) (auto simp: sample_settled_def split: sum.splits)
  from settlement_replay_is_silent [OF a out, where uuid' = "''u9''" and token = "''other''" and later = 99
      and cs = "[]"] out show ?thesis
    by (metis sample_settled_def)
qed

text \<open>
  C40. A contradiction. A different result for an attempt that already has one is never believed:
  the event is quarantined or, where its wake already ended, the call fails and changes nothing;
  in both cases what is on record of every attempt stays as it was.
\<close>

theorem contradictory_settlement_never_believed:
  assumes "attempt db (st_attempt i) (Some (st_event i)) = Some a" "wa_finished a \<noteq> None"
    and "\<not> sameSettlement a (st_result i)" "settleDurableAttempt sha uuid i db = (answer, db')"
  shows "map (\<lambda>a. (wa_id a, wa_ordinal a, wa_finished a, wa_truth a, wa_failure a)) (wd_attempts db') =
      map (\<lambda>a. (wa_id a, wa_ordinal a, wa_finished a, wa_truth a, wa_failure a)) (wd_attempts db) \<and>
    (case answer of
       Inl err \<Rightarrow> db' = db
     | Inr out \<Rightarrow> out = So_terminal ''contradictory_result'' \<and>
         map_option ev_state (find_event db' (st_event i)) = Some E_quarantined)"
proof (cases answer)
  case (Inl err)
  with assms(4) have "db' = db"
    by (auto simp: settleDurableAttempt_def in_immediate_transaction_def split: sum.splits prod.splits)
  with Inl show ?thesis by simp
next
  case (Inr out)
  with assms obtain current c3 db2 where current: "event db (st_event i) = Inr current"
    and con: "contradict current (st_attempt i) (st_now i) db = Inr (out, db2)" and c3: "db' = record_c3 None db2"
    by (auto simp: settleDurableAttempt_def in_immediate_transaction_def settleDurableAttemptInTransaction_def
        no_c3_def and_then_eq_Inr split: sum.splits prod.splits)
  from con obtain db1 where q: "quarantineEvent current ''contradictory_result'' (st_now i) db = Inr db1"
    and st: "store_attempts (sql_update (\<lambda>r. wa_id r = st_attempt i) (\<lambda>r. r\<lparr>wa_error :=
        (case wa_error r of None \<Rightarrow> Some ''contradictory_result'' | Some x \<Rightarrow> Some x)\<rparr>) (wd_attempts db1)) db1 =
      Inr db2" and out: "out = So_terminal ''contradictory_result''"
    by (auto simp: contradict_def and_then_eq_Inr)
  have found: "find_event db (st_event i) = Some current" and id: "ev_id current = st_event i"
    using current event_row [OF current] by (auto simp: event_def split: option.splits)
  have written: "only_event_written (st_event i) (\<lambda>r r'. ev_state r' = E_quarantined) db db1"
    using quarantine_writes [OF q] id by simp
  have same: "db' = db2" "wd_events db2 = wd_events db1"
    using c3 st by (auto simp: record_c3_def store_attempts_eq)
  have "map_option ev_state (find_event db' (st_event i)) = Some E_quarantined"
    using written found same by (auto simp: only_event_written_def find_event_def)
  moreover have "map (\<lambda>a. (wa_id a, wa_ordinal a, wa_finished a, wa_truth a, wa_failure a)) (wd_attempts db2) =
      map (\<lambda>a. (wa_id a, wa_ordinal a, wa_finished a, wa_truth a, wa_failure a)) (wd_attempts db1)"
    using st by (auto simp: store_attempts_eq intro!: map_key_sql_update)
  ultimately show ?thesis using written out same Inr by (simp add: only_event_written_def)
qed

theorem contradictory_settlement_never_believed_witness:
  "fst sample_contradicted = Inr (So_terminal ''contradictory_result'') \<and>
   map_option ev_state (find_event (snd sample_contradicted) ''e'') = Some E_quarantined"
proof -
  let ?i = "sample_settlement\<lparr>st_result := H_unknown ''op'' ''lost''\<rparr>"
  obtain a where a: "attempt (snd sample_retried) (st_attempt ?i) (Some (st_event ?i)) = Some a"
      "wa_finished a \<noteq> None" "\<not> sameSettlement a (st_result ?i)"
    using sample_retried_facts(1) by (auto simp: sample_settlement_def sameSettlement_def split: option.splits)
  obtain out where out: "settleDurableAttempt sample_digest ''u4'' ?i (snd sample_retried) =
      (Inr out, snd sample_contradicted)" "fst sample_contradicted = Inr out"
    using sample_retried_facts(2) by (cases sample_contradicted) (auto simp: sample_contradicted_def split: sum.splits)
  from contradictory_settlement_never_believed [OF a out(1)] out(2) show ?thesis
    by (simp add: sample_settlement_def)
qed


lemma sample_settled_reachable: "(work_step sample_digest)\<^sup>*\<^sup>* (no_work sample_digest) (snd sample_settled)"
  unfolding sample_settled_def
  using sample_run_reachable by (meson ws_settle rtranclp.rtrancl_into_rtrancl)

lemma sample_settled_event:
  "(case find_event (snd sample_settled) ''e'' of None \<Rightarrow> False | Some r \<Rightarrow> ev_state r = E_terminal \<and> ev_attempts r = 1)"
  by code_simp


end
