(* ===== verification/Work_Blocked.thy ===== *)
theory Work_Blocked
  imports Work_Settled
begin

text \<open>
  A row that stops the queue. Before it selects work, every call of \<open>claimNextDurableWork\<close>
  quarantines the events whose tries are used up, and the quarantine insists on ending the wake of
  the event as quarantined. An event whose wake already ended another way makes it throw.
\<close>

definition continuing :: "event_row \<Rightarrow> bool" where
  "continuing r \<longleftrightarrow> ev_state r \<in> {E_pending, E_retry_wait, E_leased, E_reconciling}"

definition waiting :: "event_row \<Rightarrow> bool" where
  "waiting r \<longleftrightarrow> ev_state r \<in> {E_pending, E_retry_wait}"

text \<open>
  An event that waits, its tries used up, on a wake that ended for a reason other than
  quarantine and that nothing else continues.
\<close>

definition stuck :: "int \<Rightarrow> string \<Rightarrow> work_db \<Rightarrow> bool" where
  "stuck now e db \<longleftrightarrow> e \<noteq> [] \<and>
     (\<exists>r k. find_event db e = Some r \<and> ev_wake r \<noteq> None \<and> text_of (ev_wake r) \<noteq> [] \<and> waiting r \<and> exhausted now r \<and>
        getWake (kernel db) (text_of (ev_wake r)) = Some k \<and> w_state k = W_terminal \<and>
        w_reason k \<noteq> Some R_quarantined \<and>
        \<not> hasOtherDurableContinuationForWake db (text_of (ev_wake r)) e)"

lemma wake_move_keeps_ended:
  assumes "move_wake v f db = Inr db'" and "\<And>r. w_id (f r) = w_id r"
    and "getWake (kernel db) w = Some k" "w_state k = W_terminal"
  shows "getWake (kernel db') w = Some k"
proof -
  have rows: "wakes (kernel db') = sql_update (\<lambda>r. w_id r = v \<and> w_state r \<noteq> W_terminal) f (wakes (kernel db))"
    using assms(1) by (auto simp: move_wake_def run_kernel_eq update_wake_eq Let_def)
  have "getWake (kernel db') w = map_option (\<lambda>r. if w_id r = v \<and> w_state r \<noteq> W_terminal then f r else r)
      (getWake (kernel db) w)"
    unfolding getWake_def rows by (rule sql_get_update) (simp add: assms(2))
  with assms(3,4) show ?thesis by simp
qed

text \<open>What leaves the events alone and keeps every wake that has ended.\<close>

definition keeps_ended :: "work_db \<Rightarrow> work_db \<Rightarrow> bool" where
  "keeps_ended db db' \<longleftrightarrow> wd_events db' = wd_events db \<and>
     (\<forall>w k. getWake (kernel db) w = Some k \<longrightarrow> w_state k = W_terminal \<longrightarrow> getWake (kernel db') w = Some k)"

lemma keeps_ended_refl [simp]: "keeps_ended db db"
  by (simp add: keeps_ended_def)

lemma keeps_ended_trans: "keeps_ended db db1 \<Longrightarrow> keeps_ended db1 db2 \<Longrightarrow> keeps_ended db db2"
  by (simp add: keeps_ended_def)

lemma move_wake_keeps_ended:
  assumes "move_wake v f db = Inr db'" and "\<And>r. w_id (f r) = w_id r"
  shows "keeps_ended db db'"
  using wake_move_keeps_ended [OF assms] kernel_only_tables(1) [OF move_wake_kernel [OF assms(1)]]
  by (simp add: keeps_ended_def)

lemma wake_moves_keep_ended:
  "wakeToPending w now db = Inr db' \<Longrightarrow> keeps_ended db db'"
  "wakeToReconciling w now db = Inr db' \<Longrightarrow> keeps_ended db db'"
  "wakeToTerminal w reason now db = Inr db' \<Longrightarrow> keeps_ended db db'"
  by (auto simp: wakeToPending_def wakeToReconciling_def wakeToTerminal_def to_pending_def clear_lease_def
      to_terminal_def split: option.splits if_splits intro: move_wake_keeps_ended)

lemma retire_keeps_ended:
  "retireOwnerlessCycleForTerminalEvent w now db = Inr db' \<Longrightarrow> keeps_ended db db'"
  by (auto simp: retireOwnerlessCycleForTerminalEvent_def run_kernel_eq keeps_ended_def updateCycleState_def
      and_then_eq_Inr store_cycles_eq getWake_def Let_def split: option.splits if_splits)

lemma continuation_iff:
  "hasOtherDurableContinuationForWake db w e \<longleftrightarrow>
     (\<exists>r \<in> set (wd_events db). ev_wake r = Some w \<and> ev_id r \<noteq> e \<and> continuing r)"
  by (auto simp: hasOtherDurableContinuationForWake_def continuing_def list_ex_iff)

lemma stuck_by_wakes: "stuck now e db \<Longrightarrow> keeps_ended db db' \<Longrightarrow> stuck now e db'"
  unfolding stuck_def keeps_ended_def by (fastforce simp: find_event_def continuation_iff)

text \<open>A statement on the events that does not end the stuck one and starts no other.\<close>

lemma stuck_by_update:
  assumes "stuck now e db" and up: "update_events match f db = Inr (n, db')"
    and keep: "\<And>r. ev_id (f r) = ev_id r" "\<And>r. ev_wake (f r) = ev_wake r"
    and other: "\<And>r. r \<in> set (wd_events db) \<Longrightarrow> match r \<Longrightarrow> ev_id r \<noteq> e \<Longrightarrow> continuing (f r) \<Longrightarrow> continuing r"
    and self: "\<And>r. match r \<Longrightarrow> ev_id r = e \<Longrightarrow> waiting r \<Longrightarrow> exhausted now r \<Longrightarrow> waiting (f r) \<and> exhausted now (f r)"
  shows "stuck now e db'"
proof -
  from assms(1) obtain r k where r: "find_event db e = Some r" "ev_wake r \<noteq> None" "text_of (ev_wake r) \<noteq> []"
      "waiting r" "exhausted now r" and "e \<noteq> []"
    and k: "getWake (kernel db) (text_of (ev_wake r)) = Some k" "w_state k = W_terminal" "w_reason k \<noteq> Some R_quarantined"
    and alone: "\<not> hasOtherDurableContinuationForWake db (text_of (ev_wake r)) e"
    by (auto simp: stuck_def)
  have id: "ev_id r = e" using sql_get_SomeD [OF r(1) [unfolded find_event_def]] by simp
  let ?r = "if match r then f r else r"
  have "find_event db' e = Some ?r" using row_after_update(1) [OF up keep(1), of e] r(1) by simp
  moreover have "waiting ?r" "exhausted now ?r" "ev_wake ?r = ev_wake r" using self id r keep by auto
  moreover have "kernel db' = kernel db" using up by (auto simp: update_events_eq Let_def kernel_def)
  moreover have "\<not> hasOtherDurableContinuationForWake db' (text_of (ev_wake r)) e"
  proof -
    have rows: "wd_events db' = sql_update match f (wd_events db)" using up by (auto simp: update_events_eq Let_def)
    show ?thesis using alone other unfolding continuation_iff rows by (fastforce simp: keep)
  qed
  ultimately show ?thesis using r k \<open>e \<noteq> []\<close> unfolding stuck_def by (intro conjI exI [of _ ?r] exI [of _ k]) auto
qed

lemma stuck_by_quarantine:
  assumes "stuck now e db" and "quarantineEvent current reason at db = Inr db'" and "ev_id current \<noteq> e"
  shows "stuck now e db'"
proof -
  from assms(2) obtain n db1 db2 where up: "update_events (\<lambda>r. ev_id r = ev_id current) (to_quarantined reason) db = Inr (n, db1)"
    and k: "db2 = db1 \<or> wakeToTerminal (text_of (ev_wake current)) R_quarantined at db1 = Inr db2"
    and ret: "retireOwnerlessCycleForTerminalEvent (ev_wake current) at db2 = Inr db'"
    by (auto simp: quarantineEvent_def and_then_eq_Inr Let_def split: if_splits)
  have "stuck now e db1"
    by (rule stuck_by_update [OF assms(1) up])
      (use assms(3) in \<open>auto simp: to_quarantined_def release_event_def continuing_def\<close>)
  moreover have "keeps_ended db1 db'"
    using k retire_keeps_ended [OF ret] wake_moves_keep_ended(3) keeps_ended_trans by blast
  ultimately show ?thesis by (rule stuck_by_wakes)
qed

lemma stuck_by_recover_event:
  assumes "stuck now e db" and "recover_event at e' (res, db) = Inr (res', db')" and "e' \<noteq> e"
  shows "stuck now e db'"
proof -
  from assms(2) consider "db' = db"
    | w n db1 where "update_events (is_leased e') to_reclaimed db = Inr (n, db1)" "wakeToPending w at db1 = Inr db'"
    | w n db1 where "update_events (is_leased e') (to_reconciling ''recovered_after_possible_dispatch'') db = Inr (n, db1)"
        "wakeToReconciling w at db1 = Inr db'"
    | current reason where "event db e' = Inr current" "quarantineEvent current reason at db = Inr db'"
    unfolding recover_event_def
    by (simp add: Let_def and_then_eq_Inr split: if_splits sum.splits option.splits) blast+
  then show ?thesis
  proof cases
    case 2
    have "stuck now e db1"
      by (rule stuck_by_update [OF assms(1) 2(1)])
        (use assms(3) in \<open>auto simp: to_reclaimed_def release_event_def continuing_def is_leased_def\<close>)
    then show ?thesis using stuck_by_wakes wake_moves_keep_ended(1) [OF 2(2)] by blast
  next
    case 3
    have "stuck now e db1"
      by (rule stuck_by_update [OF assms(1) 3(1)])
        (use assms(3) in \<open>auto simp: to_reconciling_def release_event_def continuing_def is_leased_def\<close>)
    then show ?thesis using stuck_by_wakes wake_moves_keep_ended(2) [OF 3(2)] by blast
  next
    case 4
    then show ?thesis using stuck_by_quarantine [OF assms(1) 4(2)] event_row [OF 4(1)] assms(3) by simp
  qed (use assms(1) in simp)
qed

lemma stuck_by_recovery:
  "recover_events at es s = Inr s' \<Longrightarrow> stuck now e (snd s) \<Longrightarrow> e \<notin> set es \<Longrightarrow> stuck now e (snd s')"
proof (induction at es s rule: recover_events.induct)
  case (2 at e' es s)
  then obtain s1 where s1: "recover_event at e' s = Inr s1" "recover_events at es s1 = Inr s'"
    by (auto simp: and_then_eq_Inr)
  have "stuck now e (snd s1)"
    using stuck_by_recover_event [of now e "snd s" at e' "fst s" "fst s1" "snd s1"] s1(1) 2(3,4)
    by (metis list.set_intros(1) prod.collapse)
  with 2(1) [OF s1(2)] 2(4) show ?case by simp
qed simp

text \<open>The quarantine of the stuck event fails.\<close>

lemma quarantine_of_stuck:
  assumes "stuck now e db" and "event db e = Inr r"
  shows "\<exists>err. quarantineEvent r reason at db = Inl err"
proof -
  from assms obtain k where r: "text_of (ev_wake r) \<noteq> []" "ev_id r = e"
    and k: "getWake (kernel db) (text_of (ev_wake r)) = Some k" "w_state k = W_terminal" "w_reason k \<noteq> Some R_quarantined"
    and alone: "\<not> hasOtherDurableContinuationForWake db (text_of (ev_wake r)) e"
    using event_row [OF assms(2)] by (auto simp: stuck_def event_def split: option.splits)
  have "\<exists>err. wakeToTerminal (text_of (ev_wake r)) R_quarantined at db1 = Inl err \<and>
      getWake (kernel db1) (text_of (ev_wake r)) \<noteq> None \<and>
      \<not> hasOtherDurableContinuationForWake db1 (text_of (ev_wake r)) e"
    if up: "update_events (\<lambda>r'. ev_id r' = ev_id r) (to_quarantined reason) db = Inr (n, db1)" for n db1
  proof -
    have rows: "wd_events db1 = sql_update (\<lambda>r'. ev_id r' = ev_id r) (to_quarantined reason) (wd_events db)"
      and kern: "kernel db1 = kernel db"
      using up by (auto simp: update_events_eq Let_def kernel_def)
    have "\<not> hasOtherDurableContinuationForWake db1 (text_of (ev_wake r)) e"
      using alone r(2) unfolding continuation_iff rows by (auto simp: to_quarantined_def continuing_def)
    with k kern show ?thesis
      by (simp add: wakeToTerminal_def terminal_agrees_def lateResultAfterCancellation_def)
  qed
  then show ?thesis
    using r by (cases "update_events (\<lambda>r'. ev_id r' = ev_id r) (to_quarantined reason) db")
      (auto simp: quarantineEvent_def Let_def)
qed

lemma quarantine_all_of_stuck:
  "stuck now e db \<Longrightarrow> e \<in> set es \<Longrightarrow> \<exists>err. quarantine_all at es db = Inl err"
proof (induction at es db rule: quarantine_all.induct)
  case (2 at e' es db)
  show ?case
  proof (cases "quarantine_bounded at e' db")
    case (Inr db1)
    show ?thesis
    proof (cases "e' = e")
      case True
      have "e \<noteq> []" using 2(2) by (simp add: stuck_def)
      then obtain r reason where "event db e = Inr r" "quarantineEvent r reason at db = Inr db1"
        using Inr True by (auto simp: quarantine_bounded_def and_then_eq_Inr)
      then show ?thesis using quarantine_of_stuck [OF 2(2), of r reason at] by simp
    next
      case False
      have "stuck now e db1"
        using Inr False 2(2) event_row stuck_by_quarantine
        by (fastforce simp: quarantine_bounded_def and_then_eq_Inr split: if_splits)
      with 2(1) [of db1] False 2(3) Inr show ?thesis by simp
    qed
  qed simp
qed simp

lemma normalize_of_stuck:
  assumes "stuck now e db" and ids: "distinct (map ev_id (wd_events db))"
  shows "\<exists>err. normalize_work now None db = Inl err"
proof (cases "recoverExpiredDurableWorkInTransaction now None db")
  case (Inr s)
  obtain r where r: "find_event db e = Some r" "waiting r" using assms(1) by (auto simp: stuck_def)
  have "e \<notin> ev_id ` {q \<in> set (wd_events db). ev_state q = E_leased}"
  proof
    assume "e \<in> ev_id ` {q \<in> set (wd_events db). ev_state q = E_leased}"
    then obtain q where q: "q \<in> set (wd_events db)" "ev_state q = E_leased" "ev_id q = e" by auto
    then have "find_event db e = Some q" unfolding find_event_def using ids by (intro sql_get_key) auto
    with r q show False by (simp add: waiting_def)
  qed
  then have "stuck now e (snd s)"
    using Inr assms(1) unfolding recoverExpiredDurableWorkInTransaction_def
    by (auto dest!: stuck_by_recovery [of _ _ _ _ now e] simp: image_iff)
  then have s: "stuck now e (snd s)" .
  show ?thesis
  proof (cases "normalizeEligibleRetryWait now None (snd s)")
    case (Inr db2)
    then obtain n where up: "update_events (\<lambda>r. ev_state r = E_retry_wait \<and> ev_due now r \<and> only_event None r)
        (\<lambda>r. r\<lparr>ev_state := E_pending, ev_status := ''pending''\<rparr>) (snd s) = Inr (n, db2)"
      by (auto simp: normalizeEligibleRetryWait_def and_then_eq_Inr)
    have s2: "stuck now e db2"
      by (rule stuck_by_update [OF s up]) (auto simp: continuing_def waiting_def exhausted_def)
    then obtain q where "find_event db2 e = Some q" "waiting q" "exhausted now q" "ev_wake q \<noteq> None"
      by (auto simp: stuck_def)
    then have "e \<in> set (map ev_id (by_creation (filter (\<lambda>r. ev_wake r \<noteq> None \<and> ev_state r \<in> {E_pending, E_retry_wait} \<and>
        exhausted now r \<and> only_event None r) (wd_events db2))))"
      using sql_get_SomeD [of "\<lambda>r. ev_id r = e" "wd_events db2" q]
      by (auto simp: find_event_def waiting_def only_event_def image_iff)
    then obtain err where "normalizeBoundedRows now None db2 = Inl err"
      unfolding normalizeBoundedRows_def using quarantine_all_of_stuck [OF s2] by blast
    then show ?thesis using Inr \<open>recoverExpiredDurableWorkInTransaction now None db = Inr s\<close>
      by (cases s) (simp add: normalize_work_def)
  qed (use Inr in \<open>cases s; auto simp: normalize_work_def\<close>)
qed (simp add: normalize_work_def)

section \<open>Property\<close>

text \<open>
  C8. An event that waits after its tries are used up, on a wake that ended for a reason other than
  quarantine and that no other event continues, stops the queue: every call of
  \<open>claimNextDurableWork\<close>, for whatever conversation, lane or event, fails and changes nothing.
\<close>

theorem exhausted_event_blocks_all_claims:
  assumes "(work_step sha)\<^sup>*\<^sup>* (no_work sha) db" and "find_event db e = Some r" "e \<noteq> []"
    and "ev_state r = E_pending \<or> ev_state r = E_retry_wait" "exhausted now r"
    and "ev_wake r = Some w" "w \<noteq> []" "getWake (kernel db) w = Some k" "w_state k = W_terminal"
    and "w_reason k \<noteq> Some R_quarantined" "\<not> hasOtherDurableContinuationForWake db w e"
  shows "\<exists>err. claimNextDurableWork uuids collate i now db = (Inl err, db)"
proof -
  have "distinct (map ev_id (wd_events db))"
    using reachable_work_inv [OF assms(1)] by (simp add: work_inv_def event_indexes_def)
  moreover have "stuck now e db"
    using assms(2-11) by (auto simp: stuck_def waiting_def text_of_def)
  ultimately obtain err where "normalize_work now None db = Inl err" using normalize_of_stuck by blast
  then have "claim_next uuids collate i now db = Inl err" by (simp add: claim_next_def)
  then show ?thesis by (simp add: claimNextDurableWork_def in_immediate_transaction_def)
qed

text \<open>
  An idle pass that failed once and waits to be tried again; the wake of the pass is cancelled, as
  an Owner message does; a quarter of an hour later a message in another conversation waits.
\<close>

definition sample_pass :: work_db where
  "sample_pass = snd (appendInboxEvent sample_digest ''v0'' (sample_message\<lparr>ap_kind := ''idle_opportunity''\<rparr>)
     (Some ''p'') (no_work sample_digest))"

definition sample_pass_failed :: work_db where
  "sample_pass_failed = snd (settleDurableAttempt sample_digest ''v3''
     \<lparr>st_event = ''p'', st_attempt = ''attempt:v2'', st_token = ''wake-lease:v1'',
      st_result = H_failed Fc_transient_retryable ''busy'' (Some D_not_started) None, st_now = 20, st_covered = []\<rparr>
     (snd (claimNextDurableWork (''v1'', ''v2'') sample_collate sample_worker 10 sample_pass)))"

definition sample_pass_wake :: string where
  "sample_pass_wake = (case find_event sample_pass ''p'' of None \<Rightarrow> [] | Some r \<Rightarrow> text_of (ev_wake r))"

definition sample_pass_cancelled :: work_db where
  "sample_pass_cancelled = set_kernel (snd (cancelWake ''v4'' sample_pass_wake None 30 (kernel sample_pass_failed)))
     sample_pass_failed"

definition sample_queue :: work_db where
  "sample_queue = snd (appendInboxEvent sample_digest ''v5''
     (sample_message\<lparr>ap_conversation := ''other'', ap_created := 900000\<rparr>) (Some ''message'') sample_pass_cancelled)"

lemma sample_queue_reachable: "(work_step sample_digest)\<^sup>*\<^sup>* (no_work sample_digest) sample_queue"
proof -
  have "(work_step sample_digest)\<^sup>*\<^sup>* (no_work sample_digest) sample_pass_failed"
    unfolding sample_pass_failed_def sample_pass_def
    by (meson ws_append ws_claim ws_settle rtranclp.rtrancl_into_rtrancl rtranclp.rtrancl_refl)
  moreover have "work_step sample_digest sample_pass_failed sample_pass_cancelled"
    unfolding sample_pass_cancelled_def by (rule ws_other) simp_all
  ultimately show ?thesis
    unfolding sample_queue_def by (meson ws_append rtranclp.rtrancl_into_rtrancl)
qed

lemma sample_queue_facts:
  "(case find_event sample_queue ''p'' of None \<Rightarrow> False | Some r \<Rightarrow> ev_state r = E_retry_wait \<and>
     exhausted 900100 r \<and> ev_wake r = Some sample_pass_wake)"
  "sample_pass_wake \<noteq> []"
  "(case getWake (kernel sample_queue) sample_pass_wake of None \<Rightarrow> False
     | Some k \<Rightarrow> w_state k = W_terminal \<and> w_reason k = Some R_cancelled)"
  "\<not> hasOtherDurableContinuationForWake sample_queue sample_pass_wake ''p''"
  "map (\<lambda>r. (ev_id r, ev_state r)) (wd_events sample_queue) = [(''p'', E_retry_wait), (''message'', E_pending)]"
  by code_simp+

theorem exhausted_event_blocks_all_claims_witness:
  "(\<exists>err. claimNextDurableWork (''v6'', ''v7'') sample_collate sample_worker 900100 sample_queue = (Inl err, sample_queue)) \<and>
   map (\<lambda>r. (ev_id r, ev_state r)) (wd_events sample_queue) = [(''p'', E_retry_wait), (''message'', E_pending)]"
proof -
  obtain r where r: "find_event sample_queue ''p'' = Some r" "ev_state r = E_retry_wait" "exhausted 900100 r"
      "ev_wake r = Some sample_pass_wake"
    using sample_queue_facts(1) by (auto split: option.splits)
  obtain k where k: "getWake (kernel sample_queue) sample_pass_wake = Some k" "w_state k = W_terminal"
      "w_reason k \<noteq> Some R_quarantined"
    using sample_queue_facts(3) by (auto split: option.splits)
  have "\<exists>err. claimNextDurableWork (''v6'', ''v7'') sample_collate sample_worker 900100 sample_queue = (Inl err, sample_queue)"
    by (rule exhausted_event_blocks_all_claims [OF sample_queue_reachable r(1) _ _ r(3,4) sample_queue_facts(2) k
        sample_queue_facts(4)]) (simp_all add: r)
  then show ?thesis using sample_queue_facts(5) by blast
qed

end
