(* ===== verification/Work_Startup.thy ===== *)
theory Work_Startup
  imports Work_Blocked
begin

text \<open>
  The pass at startup over the work whose outcome is unknown: what it gives back to be tried again.
\<close>

section \<open>What reconciliation writes\<close>

definition spend_rows :: "work_db \<Rightarrow> reservation_row list \<times> binding_row list" where
  "spend_rows db = (bd_reservations (wd_budget db), bd_bindings (wd_budget db))"

lemma spend_rows_kept:
  "update_events match f db = Inr (n, db') \<Longrightarrow> spend_rows db' = spend_rows db"
  "kernel_only db db' \<Longrightarrow> spend_rows db' = spend_rows db"
  by (auto simp: update_events_eq Let_def spend_rows_def kernel_only_def set_kernel_def)

text \<open>A reconciliation writes its event, wakes and cycles, and nothing else.\<close>

definition reconciles :: "string \<Rightarrow> work_db \<Rightarrow> work_db \<Rightarrow> bool" where
  "reconciles e db db' \<longleftrightarrow> only_event_written e (\<lambda>r r'. True) db db' \<and> spend_rows db' = spend_rows db"

lemma reconciles_refl [simp]: "reconciles e db db"
  by (simp add: reconciles_def only_event_written_def)

lemma update_reconciles:
  assumes "update_events match f db = Inr (n, db1)" and "quiet db1 db'"
    and "\<And>r. match r \<Longrightarrow> ev_id r = e" "\<And>r. ev_id (f r) = ev_id r"
  shows "reconciles e db db'"
  using one_event_update [OF assms, of "\<lambda>r r'. True"] spend_rows_kept(1) [OF assms(1)]
    spend_rows_kept(2) [of db1 db'] assms(2)
  by (simp add: reconciles_def quiet_def)

lemma quarantine_reconciles:
  assumes "quarantineEvent current reason now db = Inr db'"
  shows "reconciles (ev_id current) db db'"
proof -
  from assms obtain n db1 db2 where up: "update_events (\<lambda>r. ev_id r = ev_id current) (to_quarantined reason) db = Inr (n, db1)"
    and k: "db2 = db1 \<or> wakeToTerminal (text_of (ev_wake current)) R_quarantined now db1 = Inr db2"
    and ret: "retireOwnerlessCycleForTerminalEvent (ev_wake current) now db2 = Inr db'"
    by (auto simp: quarantineEvent_def and_then_eq_Inr Let_def split: if_splits)
  have "quiet db1 db'" using k retire_quiet [OF ret] wake_moves_quiet(3) quiet_trans by blast
  from update_reconciles [OF up this] show ?thesis by (simp add: settled_rows_keep_id)
qed

lemma end_reconciles:
  assumes "end_reconciling current f wakeReason reason now db = Inr (x, db')"
    and "\<And>r. ev_id (f r) = ev_id r"
  shows "reconciles (ev_id current) db db' \<and> x = Ro_terminal reason"
proof -
  from assms(1) obtain n db1 db2 where
      up: "update_events (is_reconciling (ev_id current)) f db = Inr (n, db1)"
      and k: "wakeToTerminal (text_of (ev_wake current)) wakeReason now db1 = Inr db2"
      and ret: "retireOwnerlessCycleForTerminalEvent (ev_wake current) now db2 = Inr db'"
      and "x = Ro_terminal reason"
    by (auto simp: end_reconciling_def and_then_eq_Inr)
  moreover have "quiet db1 db'" using wake_moves_quiet(3) [OF k] retire_quiet [OF ret] quiet_trans by blast
  ultimately show ?thesis using update_reconciles [OF up] assms(2) by (simp add: is_reconciling_def)
qed

lemma receipts_reconcile:
  assumes "reconcile_with_receipts current receipts now db = Inr (x, db')"
  shows "reconciles (ev_id current) db db' \<and> x \<noteq> Ro_safe_to_retry"
proof -
  have "ev_id (to_reconciled now r) = ev_id r" "ev_id (to_failed_reconciled err r) = ev_id r" for r err
    by (simp_all add: to_reconciled_def to_failed_reconciled_def)
  with assms show ?thesis
    by (auto simp: reconcile_with_receipts_def split: if_splits dest!: end_reconciles)
qed

text \<open>What must hold for an event to be given back.\<close>

definition unspent :: "work_db \<Rightarrow> string \<Rightarrow> string option \<Rightarrow> bool" where
  "unspent db e w \<longleftrightarrow> (case classifyOutcomeUnknownSpend db e w of
     Inr Sp_no_reservation \<Rightarrow> True | Inr (Sp_not_spent rid) \<Rightarrow> True | _ \<Rightarrow> False)"

lemma proof_reconciles:
  assumes "reconcile_with_proof current p now db = Inr (x, db')"
  shows "reconciles (ev_id current) db db'"
    "x = Ro_safe_to_retry \<Longrightarrow> unspent db (ev_id current) (ev_wake current) \<and>
       find_event db' (ev_id current) =
         map_option (\<lambda>r. if is_reconciling (ev_id current) r then to_safe_retry p r else r)
           (find_event db (ev_id current))"
proof -
  from assms obtain spend where spend: "classifyOutcomeUnknownSpend db (ev_id current) (ev_wake current) = Inr spend"
    and rest: "(case spend of
         Sp_spent rid signal \<Rightarrow> end_reconciling current
           (to_failed_reconciled (''private_spent_no_rethought:'' @ signal)) R_quarantined
           ''permanent_failure'' now db
       | Sp_uncertain detail \<Rightarrow> Inr (Ro_still_unknown, db)
       | _ \<Rightarrow>
           and_then (update_events (is_reconciling (ev_id current)) (to_safe_retry p) db) (\<lambda>(_, db1).
           and_then (wakeToPending (text_of (ev_wake current)) now db1) (\<lambda>db2.
             Inr (Ro_safe_to_retry, db2)))) = Inr (x, db')"
    unfolding reconcile_with_proof_def by (auto simp only: and_then_eq_Inr)
  have ids: "ev_id (to_failed_reconciled err r) = ev_id r" "ev_id (to_safe_retry p r) = ev_id r" for err r
    by (simp_all add: to_failed_reconciled_def to_safe_retry_def release_event_def)
  have freed: "reconciles (ev_id current) db db' \<and> find_event db' (ev_id current) =
         map_option (\<lambda>r. if is_reconciling (ev_id current) r then to_safe_retry p r else r)
           (find_event db (ev_id current))"
    if up: "update_events (is_reconciling (ev_id current)) (to_safe_retry p) db = Inr (n, db1)"
      and k: "wakeToPending (text_of (ev_wake current)) now db1 = Inr db'" for n db1
  proof -
    have q: "quiet db1 db'" by (rule wake_moves_quiet(1) [OF k])
    have "find_event db' (ev_id current) = find_event db1 (ev_id current)"
      by (simp add: find_event_def quiet_tables [OF q])
    then show ?thesis
      using update_reconciles [OF up q] row_after_update(1) [OF up ids(2), of "ev_id current"]
      by (simp add: ids is_reconciling_def)
  qed
  have ended: "reconciles (ev_id current) db db' \<and> x \<noteq> Ro_safe_to_retry"
    if "end_reconciling current (to_failed_reconciled err) R_quarantined ''permanent_failure'' now db = Inr (x, db')" for err
    using end_reconciles [OF that] ids(1) by simp
  show "reconciles (ev_id current) db db'"
    using rest by (cases spend) (auto simp: and_then_eq_Inr dest: freed ended)
  assume safe: "x = Ro_safe_to_retry"
  show "unspent db (ev_id current) (ev_wake current) \<and> find_event db' (ev_id current) =
         map_option (\<lambda>r. if is_reconciling (ev_id current) r then to_safe_retry p r else r)
           (find_event db (ev_id current))"
    using rest safe spend by (cases spend) (auto simp: unspent_def and_then_eq_Inr dest: freed ended [unfolded safe])
qed

lemma reconcile_writes:
  assumes "reconcileOutcomeUnknownInTransaction e now noDispatch p db = Inr (x, db')"
  shows "reconciles e db db'"
    "x = Ro_safe_to_retry \<Longrightarrow> \<exists>r. find_event db e = Some r \<and> ev_state r = E_reconciling \<and>
       boundEffects db (lineageEventIds db e) = [] \<and> unspent db e (ev_wake r) \<and>
       find_event db' e = Some (to_safe_retry (text_of p) r)"
proof -
  from assms obtain current where current: "find_event db e = Some current"
    by (auto simp: reconcileOutcomeUnknownInTransaction_def and_then_eq_Inr event_def split: option.splits)
  have id: "ev_id current = e" using sql_get_SomeD [OF current [unfolded find_event_def]] by simp
  from assms current consider
      "db' = db" "x \<noteq> Ro_safe_to_retry"
    | "quarantineEvent current ''wake_missing'' now db = Inr db'" "x \<noteq> Ro_safe_to_retry"
    | receipts where "reconcile_with_receipts current receipts now db = Inr (x, db')"
    | "reconcile_with_proof current (text_of p) now db = Inr (x, db')" "ev_state current = E_reconciling"
        "boundEffects db (lineageEventIds db e) = []"
    unfolding reconcileOutcomeUnknownInTransaction_def
    by (simp add: event_def and_then_eq_Inr Let_def split: if_splits) blast+
  then have "reconciles e db db' \<and> (x = Ro_safe_to_retry \<longrightarrow> (\<exists>r. find_event db e = Some r \<and>
       ev_state r = E_reconciling \<and> boundEffects db (lineageEventIds db e) = [] \<and> unspent db e (ev_wake r) \<and>
       find_event db' e = Some (to_safe_retry (text_of p) r)))"
  proof cases
    case 2
    with quarantine_reconciles [OF 2(1)] id show ?thesis by simp
  next
    case 3
    with receipts_reconcile [OF 3(1)] id show ?thesis by simp
  next
    case 4
    with proof_reconciles [OF 4(1)] id current show ?thesis by (auto simp: is_reconciling_def)
  qed simp
  then show "reconciles e db db'"
    "x = Ro_safe_to_retry \<Longrightarrow> \<exists>r. find_event db e = Some r \<and> ev_state r = E_reconciling \<and>
       boundEffects db (lineageEventIds db e) = [] \<and> unspent db e (ev_wake r) \<and>
       find_event db' e = Some (to_safe_retry (text_of p) r)"
    by blast+
qed

section \<open>The pass\<close>

text \<open>The grounds for giving an event back, in the tables before the pass.\<close>

definition given_back :: "work_db \<Rightarrow> string \<Rightarrow> bool" where
  "given_back db e \<longleftrightarrow> (\<exists>r. find_event db e = Some r \<and> ev_state r = E_reconciling \<and>
     boundEffects db (lineageEventIds db e) = [] \<and> unspent db e (ev_wake r) \<and>
     filter (\<lambda>a. wa_event a = e \<and> wa_truth a \<notin> {D_unknown, D_not_started}) (wd_attempts db) = [])"

text \<open>What these grounds are read from.\<close>

definition same_grounds :: "string \<Rightarrow> work_db \<Rightarrow> work_db \<Rightarrow> bool" where
  "same_grounds e db db' \<longleftrightarrow> find_event db' e = find_event db e \<and> wd_attempts db' = wd_attempts db \<and>
     wd_repairs db' = wd_repairs db \<and> spend_rows db' = spend_rows db \<and>
     in_flight_effects (effects (kernel db')) = in_flight_effects (effects (kernel db))"

lemma same_grounds_given_back:
  assumes "same_grounds e db db'"
  shows "given_back db' e \<longleftrightarrow> given_back db e"
proof -
  have "lineageEventIds db' e = lineageEventIds db e" using assms by (simp add: same_grounds_def lineageEventIds_def)
  moreover have "boundEffects db' es = boundEffects db es" for es using assms by (simp add: same_grounds_def boundEffects_def)
  moreover have "classifyOutcomeUnknownSpend db' e w = classifyOutcomeUnknownSpend db e w" for w
  proof -
    have rows: "bd_reservations (wd_budget db') = bd_reservations (wd_budget db)"
      "bd_bindings (wd_budget db') = bd_bindings (wd_budget db)"
      using assms by (auto simp: same_grounds_def spend_rows_def)
    have "getPrivateReservation (wd_budget db') = getPrivateReservation (wd_budget db)"
      by (simp add: fun_eq_iff getPrivateReservation_def rows)
    moreover have "getPrivateReservationForWake (wd_budget db') = getPrivateReservationForWake (wd_budget db)"
      by (simp add: fun_eq_iff getPrivateReservationForWake_def rows)
    moreover have "listPrivateAttemptHistory (wd_budget db') = listPrivateAttemptHistory (wd_budget db)"
      by (simp add: fun_eq_iff listPrivateAttemptHistory_def rows getPrivateReservation_def)
    moreover have "explicitPrivateReservationId db' e = explicitPrivateReservationId db e"
      using assms by (simp add: explicitPrivateReservationId_def same_grounds_def)
    ultimately show ?thesis by (simp only: classifyOutcomeUnknownSpend_def)
  qed
  ultimately show ?thesis using assms by (simp add: given_back_def unspent_def same_grounds_def)
qed

lemma reconciles_same_grounds: "reconciles e db db' \<Longrightarrow> x \<noteq> e \<Longrightarrow> same_grounds x db db'"
  by (simp add: reconciles_def only_event_written_def same_grounds_def)

lemma proof_attempts:
  "proveNoExternalDispatch dt db e = Proven w c gen \<Longrightarrow>
   filter (\<lambda>a. wa_event a = e \<and> wa_truth a \<notin> {D_unknown, D_not_started}) (wd_attempts db) = []"
  by (auto simp: proveNoExternalDispatch_def proof_refusal_def Let_def list_ex_iff filter_empty_conv
      split: option.splits if_splits)

lemma startup_event_writes:
  assumes "startup_event dt now e (res, db) = (res', db')"
  shows "reconciles e db db' \<and> (su_ids res' = su_ids res \<or>
    su_ids res' = su_ids res @ [e] \<and> given_back db e \<and> map_option ev_state (find_event db' e) = Some E_pending)"
proof (cases "e = [] \<or> (\<exists>reason. proveNoExternalDispatch dt db e = Unproven reason)")
  case True
  with assms show ?thesis by (auto simp: startup_event_def Let_def split: if_splits)
next
  case False
  then obtain w c gen where proven: "proveNoExternalDispatch dt db e = Proven w c gen"
    by (cases "proveNoExternalDispatch dt db e") auto
  let ?ref = "Some (startup_proof_ref e now)"
  show ?thesis
  proof (cases "reconcileOutcomeUnknownInTransaction e now True ?ref db")
    case (Inl err)
    with assms False proven show ?thesis
      by (auto simp: startup_event_def Let_def reconcileOutcomeUnknown_def in_immediate_transaction_def)
  next
    case (Inr y)
    then obtain x db1 where y: "reconcileOutcomeUnknownInTransaction e now True ?ref db = Inr (x, db1)"
      by (cases y) auto
    have db1: "db' = db1" and ids: "su_ids res' = (if x = Ro_safe_to_retry then su_ids res @ [e] else su_ids res)"
      using assms False proven y
      by (auto simp: startup_event_def Let_def reconcileOutcomeUnknown_def in_immediate_transaction_def
          split: reconcile_outcome.splits)
    show ?thesis
    proof (cases "x = Ro_safe_to_retry")
      case True
      from reconcile_writes(2) [OF y True] proof_attempts [OF proven] reconcile_writes(1) [OF y] ids True
      show ?thesis by (auto simp: db1 given_back_def to_safe_retry_def)
    next
      case False
      with reconcile_writes(1) [OF y] ids show ?thesis by (simp add: db1)
    qed
  qed
qed

lemma startup_fold_others:
  "fold (startup_event dt now) es (res, db) = (res', db') \<Longrightarrow> x \<notin> set es \<Longrightarrow> find_event db' x = find_event db x"
proof (induction es arbitrary: res db)
  case (Cons d es)
  obtain res1 db1 where s: "startup_event dt now d (res, db) = (res1, db1)" by (cases "startup_event dt now d (res, db)") auto
  with Cons.prems(1) have "fold (startup_event dt now) es (res1, db1) = (res', db')" by simp
  with Cons startup_event_writes [OF s] show ?case
    by (simp add: reconciles_def only_event_written_def)
qed simp

lemma startup_fold_writes:
  assumes "fold (startup_event dt now) es (res, db) = (res', db')" and "distinct es"
    and "e \<in> set (su_ids res') - set (su_ids res)"
  shows "e \<in> set es \<and> given_back db e \<and> map_option ev_state (find_event db' e) = Some E_pending"
  using assms
proof (induction es arbitrary: res db)
  case (Cons d es)
  obtain res1 db1 where s: "startup_event dt now d (res, db) = (res1, db1)" by (cases "startup_event dt now d (res, db)") auto
  with Cons.prems(1) have rest: "fold (startup_event dt now) es (res1, db1) = (res', db')" by simp
  note written = startup_event_writes [OF s]
  show ?case
  proof (cases "e \<in> set (su_ids res1)")
    case True
    with written Cons.prems(3) have e: "e = d" "given_back db e" "map_option ev_state (find_event db1 e) = Some E_pending"
      by auto
    have "find_event db' e = find_event db1 e"
      using rest Cons.prems(2) e(1) startup_fold_others by auto
    with e show ?thesis by simp
  next
    case False
    with Cons.IH [OF rest] Cons.prems(2,3)
    have IH: "e \<in> set es \<and> given_back db1 e \<and> map_option ev_state (find_event db' e) = Some E_pending" by auto
    then have "e \<noteq> d" using Cons.prems(2) by auto
    then have "given_back db1 e \<longleftrightarrow> given_back db e"
      using written by (intro same_grounds_given_back reconciles_same_grounds [of d]) simp_all
    with IH show ?thesis by simp
  qed
qed simp

section \<open>Property\<close>

text \<open>
  C9. The pass at startup never gives back work that may have left the process. Every event it
  reports as recovered was waiting for reconciliation; no effect, in flight or settled, is bound to
  it or to an event it repairs; none of its attempts is known to have been dispatched; the
  private budget shows that nothing was spent on it; and after the pass it waits to be tried again.
\<close>

theorem startup_never_replays_dispatch:
  assumes "(work_step sha)\<^sup>*\<^sup>* (no_work sha) db"
    and "reconcileStrandedOutcomeUnknownAtStartup dt now limit cursor db = ((res, next_at), db')"
    and "e \<in> set (su_ids res)"
  shows "given_back db e \<and> map_option ev_state (find_event db' e) = Some E_pending"
proof -
  have "distinct (map ev_id (wd_events db))"
    using reachable_work_inv [OF assms(1)] by (simp add: work_inv_def event_indexes_def)
  then have "distinct (map ev_id (by_creation (filter (\<lambda>r. stranded_event r \<and> after_cursor cursor r) (wd_events db))))"
    by (intro distinct_by_creation) (simp add: distinct_map_filter)
  then have "distinct (map ev_id (startup_rows cursor limit db))"
    by (simp add: startup_rows_def take_map [symmetric])
  moreover have "fold (startup_event dt now) (map ev_id (startup_rows cursor limit db)) (no_startup_recovery, db) = (res, db')"
    using assms(2) by (auto simp: reconcileStrandedOutcomeUnknownAtStartup_def Let_def split: prod.splits)
  ultimately show ?thesis
    using startup_fold_writes [of dt now "map ev_id (startup_rows cursor limit db)" no_startup_recovery db res db' e] assms(3)
    by (simp add: no_startup_recovery_def)
qed

text \<open>The sample's attempt is lost before it dispatched anything, and the process restarts.\<close>

definition sample_stranded :: work_db where
  "sample_stranded = snd (settleDurableAttempt sample_digest ''u3''
     (sample_settlement\<lparr>st_result := H_unknown ''op'' ''lost''\<rparr>) (snd sample_run))"

definition sample_restart :: "(startup_recovery \<times> (int \<times> string) option) \<times> work_db" where
  "sample_restart = reconcileStrandedOutcomeUnknownAtStartup \<lparr>dt_settlements = [], dt_notices = Some []\<rparr>
     5000 None None sample_stranded"

lemma sample_stranded_reachable: "(work_step sample_digest)\<^sup>*\<^sup>* (no_work sample_digest) sample_stranded"
  unfolding sample_stranded_def
  using sample_run_reachable by (meson ws_settle rtranclp.rtrancl_into_rtrancl)

lemma sample_restart_ids: "su_ids (fst (fst sample_restart)) = [''e'']"
  by code_simp

theorem startup_never_replays_dispatch_witness:
  "given_back sample_stranded ''e'' \<and> map_option ev_state (find_event (snd sample_restart) ''e'') = Some E_pending"
proof -
  obtain res c db' where "sample_restart = ((res, c), db')" by (metis prod.collapse)
  with startup_never_replays_dispatch [OF sample_stranded_reachable, of "\<lparr>dt_settlements = [], dt_notices = Some []\<rparr>"
      5000 None None res c db' "''e''"] sample_restart_ids
  show ?thesis by (simp add: sample_restart_def)
qed

end
