(* ===== verification/Detached_Ops.thy ===== *)
theory Detached_Ops
  imports Sql_Tables Json_Text Transition_Systems
begin

text \<open>
  Detached operations, the concrete executions of a worker: \<^verbatim>\<open>cognitive-v021/operation/detached.ts\<close>
  on the table \<open>detached_operations\<close> of \<^verbatim>\<open>sidecar/schema.ts\<close>. A column that holds JSON is the value
  of its text; a result \<open>{ ok: false, reason }\<close> is \<open>Inl reason\<close>; \<open>Date.now()\<close> is the argument \<open>now\<close>.
  The table is proved to tell the truth: what ended stays ended, only started work succeeds or stops,
  and nothing is started twice.
\<close>

section \<open>The rows\<close>

datatype worker_origin = Owner_request | Ashley_commitment | Ashley_curiosity

datatype op_end = Oe_succeeded | Oe_failed | Oe_unknown | Oe_cancelled | Oe_stopped

datatype op_state =
    Op_admitted | Op_waiting | Op_started
  | Op_succeeded | Op_failed | Op_unknown | Op_cancelled | Op_stopped

record detached_row =
  op_id :: string
  op_conversation :: string
  op_cycle :: string
  op_generation :: int
  op_origin :: worker_origin
  op_ref :: string
  op_ownerEvent :: "string option"
  op_evidence :: "string option"
  op_request :: js_value
  op_purpose :: string
  op_need :: string
  op_admission :: int
  op_deadline :: int
  op_key :: string
  op_binding :: "js_value option"
  op_start :: "int option"
  op_proof :: "string option"
  op_terminal :: "op_end option"
  op_terminalAt :: "int option"
  op_observation :: "string option"
  op_receipt :: "string option"
  op_error :: "string option"
  op_failure :: "js_value option"
  op_interim :: "string option"
  op_completion :: "string option"
  op_cancel :: "int option"
  op_superseded :: "string option"
  op_successor :: "string option"
  op_undertaking :: "string option"
  op_waitReason :: "string option"
  op_waitStarted :: "int option"
  op_waitProbe :: "int option"
  op_state :: op_state
  op_created :: int
  op_updated :: int

fun end_state :: "op_end \<Rightarrow> op_state" where
  "end_state Oe_succeeded = Op_succeeded"
| "end_state Oe_failed = Op_failed"
| "end_state Oe_unknown = Op_unknown"
| "end_state Oe_cancelled = Op_cancelled"
| "end_state Oe_stopped = Op_stopped"

definition isTerminalState :: "op_state \<Rightarrow> bool" where
  "isTerminalState s \<longleftrightarrow> s \<in> {Op_succeeded, Op_failed, Op_unknown, Op_cancelled, Op_stopped}"

text \<open>\<open>state IN ('admitted', 'waiting_capacity')\<close>\<close>

definition unstarted :: "op_state \<Rightarrow> bool" where
  "unstarted s \<longleftrightarrow> s = Op_admitted \<or> s = Op_waiting"

definition safeMs :: "int \<Rightarrow> bool" where
  "safeMs n \<longleftrightarrow> safe_integer n \<and> 0 \<le> n"

type_synonym op_result = "string + detached_row \<times> bool"

definition getDetachedOperation :: "detached_row list \<Rightarrow> string \<Rightarrow> detached_row option" where
  "getDetachedOperation rows i = sql_get (\<lambda>r. op_id r = i) rows"

definition getByIdempotencyKey :: "detached_row list \<Rightarrow> string \<Rightarrow> detached_row option" where
  "getByIdempotencyKey rows k = sql_get (\<lambda>r. op_key r = k) rows"

text \<open>\<open>ORDER BY updated_at_ms DESC, operation_id ASC LIMIT 1\<close>\<close>

definition getActiveDetachedOperation :: "detached_row list \<Rightarrow> string \<Rightarrow> detached_row option" where
  "getActiveDetachedOperation rows c =
     (if c = [] then None
      else case sort_key (\<lambda>r. - op_updated r) (sort_key op_id
          (filter (\<lambda>r. op_conversation r = c \<and> (unstarted (op_state r) \<or> op_state r = Op_started)) rows)) of
        [] \<Rightarrow> None | r # _ \<Rightarrow> Some r)"

definition detachedOperationIdFor :: "(string \<Rightarrow> string) \<Rightarrow> string \<Rightarrow> string" where
  "detachedOperationIdFor sha key = ''detached-operation:'' @ sha256 sha (JStr key)"

section \<open>Admission\<close>

record admit_input =
  ad_key :: string
  ad_conversation :: string
  ad_cycle :: string
  ad_generation :: int
  ad_origin :: "worker_origin option"
  ad_ref :: "string option"
  ad_ownerEvent :: "string option"
  ad_evidence :: "string option"
  ad_undertaking :: "string option"
  ad_request :: js_value
  ad_purpose :: string
  ad_need :: string
  ad_deadline :: int

definition admitted_origin :: "admit_input \<Rightarrow> worker_origin option" where
  "admitted_origin i = (case ad_origin i of Some k \<Rightarrow> Some k
     | None \<Rightarrow> if text_of (ad_ownerEvent i) \<noteq> [] then Some Owner_request else None)"

definition admitted_ref :: "admit_input \<Rightarrow> string option" where
  "admitted_ref i = coalesce (ad_ref i) (ad_ownerEvent i)"

fun is_obj :: "js_value \<Rightarrow> bool" where
  "is_obj (JObj fs) = True"
| "is_obj _ = False"

definition invalid_admission :: "admit_input \<Rightarrow> int \<Rightarrow> bool" where
  "invalid_admission i now \<longleftrightarrow>
     ad_key i = [] \<or> ad_conversation i = [] \<or> ad_cycle i = [] \<or> \<not> safe_integer (ad_generation i) \<or>
     admitted_origin i = None \<or> text_of (admitted_ref i) = [] \<or>
     (admitted_origin i = Some Owner_request \<and> text_of (ad_ownerEvent i) = []) \<or>
     (admitted_origin i \<noteq> Some Owner_request \<and> ad_ownerEvent i \<noteq> None) \<or>
     \<not> is_obj (ad_request i) \<or> ad_purpose i = [] \<or> ad_need i = [] \<or>
     \<not> safeMs (ad_deadline i) \<or> \<not> safeMs now \<or> ad_deadline i \<le> now"

text \<open>
  \<open>JSON.stringify\<close> of the request, parsed again, is the request: it comes from \<open>JSON.parse\<close>.
\<close>

definition admitted_row :: "string \<Rightarrow> admit_input \<Rightarrow> int \<Rightarrow> detached_row" where
  "admitted_row i a now = \<lparr>op_id = i, op_conversation = ad_conversation a, op_cycle = ad_cycle a,
     op_generation = ad_generation a,
     op_origin = (case admitted_origin a of None \<Rightarrow> Owner_request | Some k \<Rightarrow> k),
     op_ref = text_of (admitted_ref a), op_ownerEvent = ad_ownerEvent a, op_evidence = ad_evidence a,
     op_request = ad_request a, op_purpose = ad_purpose a, op_need = ad_need a, op_admission = now,
     op_deadline = ad_deadline a, op_key = ad_key a, op_binding = None, op_start = None, op_proof = None,
     op_terminal = None, op_terminalAt = None, op_observation = None, op_receipt = None, op_error = None,
     op_failure = None, op_interim = None, op_completion = None, op_cancel = None, op_superseded = None,
     op_successor = None, op_undertaking = ad_undertaking a, op_waitReason = None, op_waitStarted = None,
     op_waitProbe = None, op_state = Op_admitted, op_created = now, op_updated = now\<rparr>"

text \<open>The table's CHECK of the origin, and its three unique columns.\<close>

definition origin_check :: "worker_origin \<Rightarrow> string option \<Rightarrow> string \<Rightarrow> bool" where
  "origin_check k e ref \<longleftrightarrow>
     (if k = Owner_request then e = Some ref \<and> ref \<noteq> [] else e = None)"

definition op_indexes :: "detached_row list \<Rightarrow> bool" where
  "op_indexes rows \<longleftrightarrow> distinct (map op_id rows) \<and> distinct (map op_key rows) \<and>
     distinct (map op_undertaking (filter (\<lambda>r. op_undertaking r \<noteq> None) rows))"

definition insert_operation :: "detached_row \<Rightarrow> detached_row list \<Rightarrow> detached_row list throws" where
  "insert_operation r rows =
     and_then (sql_check (origin_check (op_origin r) (op_ownerEvent r) (op_ref r))) (\<lambda>_.
       if op_indexes (rows @ [r]) then Inr (rows @ [r]) else Inl ''UNIQUE constraint failed'')"

definition admitDetachedOperation ::
  "(string \<Rightarrow> string) \<Rightarrow> admit_input \<Rightarrow> int \<Rightarrow> detached_row list \<Rightarrow> op_result \<times> detached_row list" where
  "admitDetachedOperation sha a now rows =
     (if invalid_admission a now then (Inl ''invalid_admission'', rows)
      else case getByIdempotencyKey rows (ad_key a) of
        Some r \<Rightarrow> (Inr (r, False), rows)
      | None \<Rightarrow>
          let i = detachedOperationIdFor sha (ad_key a) in
          case insert_operation (admitted_row i a now) rows of
            Inl _ \<Rightarrow> (case getByIdempotencyKey rows (ad_key a) of
                Some r \<Rightarrow> (Inr (r, False), rows)
              | None \<Rightarrow> (Inl ''operation_admission_failed'', rows))
          | Inr rows' \<Rightarrow> (case getDetachedOperation rows' i of
                None \<Rightarrow> (Inl ''operation_admission_failed'', rows')
              | Some r \<Rightarrow> (Inr (r, True), rows')))"

section \<open>Start and capacity wait\<close>

text \<open>
  The row is read again after the write: \<open>reread rows i ok err\<close> is the answer when it must be in
  the state just written.
\<close>

definition reread :: "detached_row list \<Rightarrow> string \<Rightarrow> (detached_row \<Rightarrow> bool) \<Rightarrow> string \<Rightarrow> op_result" where
  "reread rows i ok err = (case getDetachedOperation rows i of
     None \<Rightarrow> Inl err | Some r \<Rightarrow> if ok r then Inr (r, False) else Inl err)"

record start_input =
  sr_proof :: string
  sr_binding :: "js_value option"
  sr_deadline :: "int option"

definition to_started :: "start_input \<Rightarrow> int \<Rightarrow> detached_row \<Rightarrow> detached_row" where
  "to_started i now r = r\<lparr>op_state := Op_started, op_start := Some now, op_proof := Some (sr_proof i),
     op_deadline := (case sr_deadline i of None \<Rightarrow> op_deadline r | Some d \<Rightarrow> d),
     op_binding := coalesce (sr_binding i) (op_binding r), op_updated := now\<rparr>"

definition markDetachedOperationStarted ::
  "string \<Rightarrow> start_input \<Rightarrow> int \<Rightarrow> detached_row list \<Rightarrow> op_result \<times> detached_row list" where
  "markDetachedOperationStarted i s now rows =
     (if i = [] \<or> sr_proof s = [] \<or> \<not> safeMs now then (Inl ''invalid_start'', rows)
      else case getDetachedOperation rows i of
        None \<Rightarrow> (Inl ''detached_operation_missing'', rows)
      | Some r \<Rightarrow>
          if isTerminalState (op_state r) then (Inl ''detached_operation_terminal_immutable'', rows)
          else if \<not> unstarted (op_state r) then (Inl ''detached_operation_transition_invalid'', rows)
          else if op_deadline r \<le> now then (Inl ''operation_deadline_exhausted'', rows)
          else if (case sr_deadline s of None \<Rightarrow> False | Some d \<Rightarrow> d \<noteq> op_deadline r)
          then (Inl ''invalid_start'', rows)
          else let rows' = sql_update (\<lambda>r. op_id r = i \<and> unstarted (op_state r)) (to_started s now) rows
            in (reread rows' i (\<lambda>r. op_state r = Op_started) ''detached_operation_transition_invalid'', rows'))"

record wait_input =
  wt_reason :: string
  wt_probe :: "int option"

definition to_waiting :: "wait_input \<Rightarrow> int \<Rightarrow> detached_row \<Rightarrow> detached_row" where
  "to_waiting w now r = r\<lparr>op_state := Op_waiting, op_waitReason := Some (take 128 (wt_reason w)),
     op_waitStarted := coalesce (op_waitStarted r) (Some now), op_waitProbe := wt_probe w, op_updated := now\<rparr>"

definition markDetachedOperationWaiting ::
  "string \<Rightarrow> wait_input \<Rightarrow> int \<Rightarrow> detached_row list \<Rightarrow> op_result \<times> detached_row list" where
  "markDetachedOperationWaiting i w now rows =
     (if i = [] \<or> wt_reason w = [] \<or> \<not> safeMs now then (Inl ''invalid_capacity_wait'', rows)
      else if (case wt_probe w of None \<Rightarrow> False | Some t \<Rightarrow> \<not> safeMs t) then (Inl ''invalid_capacity_wait'', rows)
      else case getDetachedOperation rows i of
        None \<Rightarrow> (Inl ''detached_operation_missing'', rows)
      | Some r \<Rightarrow>
          if isTerminalState (op_state r) \<or> op_state r = Op_started
          then (Inl ''detached_operation_transition_invalid'', rows)
          else let rows' = sql_update (\<lambda>r. op_id r = i \<and> unstarted (op_state r)) (to_waiting w now) rows
            in (reread rows' i (\<lambda>r. op_state r = Op_waiting) ''detached_operation_transition_invalid'', rows'))"

section \<open>The end of an operation\<close>

text \<open>
  A \<open>failureEvidenceJson\<close> is absent (\<open>None\<close>), the text of a value (\<open>Some (Some v)\<close>) or no JSON
  (\<open>Some None\<close>).
\<close>

record end_input =
  en_end :: op_end
  en_observation :: "string option"
  en_receipt :: "string option"
  en_error :: "string option"
  en_failure :: "js_value option option"

definition to_ended :: "end_input \<Rightarrow> int \<Rightarrow> detached_row \<Rightarrow> detached_row" where
  "to_ended e now r = r\<lparr>op_state := end_state (en_end e), op_terminal := Some (en_end e),
     op_terminalAt := Some now, op_observation := coalesce (en_observation e) (op_observation r),
     op_receipt := coalesce (en_receipt e) (op_receipt r), op_error := coalesce (en_error e) (op_error r),
     op_failure := coalesce (case en_failure e of None \<Rightarrow> None | Some v \<Rightarrow> v) (op_failure r), op_updated := now\<rparr>"

definition end_allowed :: "op_state \<Rightarrow> op_end \<Rightarrow> bool" where
  "end_allowed s e \<longleftrightarrow>
     (if unstarted s then e \<in> {Oe_cancelled, Oe_failed, Oe_unknown} else s = Op_started)"

definition setDetachedOperationTerminal ::
  "string \<Rightarrow> end_input \<Rightarrow> int \<Rightarrow> detached_row list \<Rightarrow> op_result \<times> detached_row list" where
  "setDetachedOperationTerminal i e now rows =
     (if i = [] \<or> \<not> safeMs now then (Inl ''invalid_terminal'', rows)
      else case getDetachedOperation rows i of
        None \<Rightarrow> (Inl ''detached_operation_missing'', rows)
      | Some r \<Rightarrow>
          if isTerminalState (op_state r) then (Inl ''detached_operation_terminal_immutable'', rows)
          else if \<not> end_allowed (op_state r) (en_end e) then (Inl ''detached_operation_transition_invalid'', rows)
          else if en_failure e = Some None then (Inl ''invalid_failure_evidence'', rows)
          else let rows' = sql_update (\<lambda>q. op_id q = i \<and> op_state q = op_state r) (to_ended e now) rows
            in (reread rows' i (\<lambda>q. op_state q = end_state (en_end e)) ''detached_operation_transition_invalid'', rows'))"

section \<open>Cancellation and supersession\<close>

definition requestDetachedOperationCancel ::
  "string \<Rightarrow> int \<Rightarrow> detached_row list \<Rightarrow> op_result \<times> detached_row list" where
  "requestDetachedOperationCancel i now rows =
     (if i = [] \<or> \<not> safeMs now then (Inl ''invalid_cancel_request'', rows)
      else case getDetachedOperation rows i of
        None \<Rightarrow> (Inl ''detached_operation_missing'', rows)
      | Some r \<Rightarrow>
          if isTerminalState (op_state r) then (Inl ''detached_operation_terminal_immutable'', rows)
          else let rows' = sql_update (\<lambda>q. op_id q = i)
              (\<lambda>q. q\<lparr>op_cancel := coalesce (op_cancel q) (Some now), op_updated := now\<rparr>) rows
            in (reread rows' i (\<lambda>_. True) ''detached_operation_missing'', rows'))"

definition to_cancelled :: "int \<Rightarrow> detached_row \<Rightarrow> detached_row" where
  "to_cancelled now r = r\<lparr>op_state := Op_cancelled, op_terminal := Some Oe_cancelled, op_terminalAt := Some now,
     op_cancel := coalesce (op_cancel r) (Some now), op_updated := now\<rparr>"

definition to_stopped :: "int \<Rightarrow> detached_row \<Rightarrow> detached_row" where
  "to_stopped now r = r\<lparr>op_state := Op_stopped, op_terminal := Some Oe_stopped, op_terminalAt := Some now,
     op_updated := now\<rparr>"

definition resolveDetachedOperationCancel ::
  "string \<Rightarrow> string \<Rightarrow> string option \<Rightarrow> int \<Rightarrow> detached_row list \<Rightarrow> op_result \<times> detached_row list" where
  "resolveDetachedOperationCancel i cancelledBy stopProof now rows =
     (if i = [] \<or> cancelledBy = [] \<or> \<not> safeMs now then (Inl ''invalid_cancel_resolution'', rows)
      else case getDetachedOperation rows i of
        None \<Rightarrow> (Inl ''detached_operation_missing'', rows)
      | Some r \<Rightarrow>
          if isTerminalState (op_state r) then (Inl ''detached_operation_terminal_immutable'', rows)
          else if unstarted (op_state r) \<and> op_start r = None
          then let rows' = sql_update (\<lambda>q. op_id q = i \<and> unstarted (op_state q)) (to_cancelled now) rows
            in (reread rows' i (\<lambda>q. op_state q = Op_cancelled) ''detached_operation_transition_invalid'', rows')
          else if op_state r = Op_started
          then if text_of stopProof = [] then (Inl ''stop_proof_required'', rows)
            else let rows' = sql_update (\<lambda>q. op_id q = i \<and> op_state q = Op_started) (to_stopped now) rows
              in (reread rows' i (\<lambda>q. op_state q = Op_stopped) ''detached_operation_transition_invalid'', rows')
          else (Inl ''detached_operation_transition_invalid'', rows))"

definition mark_superseded :: "string \<Rightarrow> string option \<Rightarrow> int \<Rightarrow> detached_row \<Rightarrow> detached_row" where
  "mark_superseded by_ref successor now r = r\<lparr>op_superseded := Some by_ref,
     op_successor := coalesce successor (op_successor r), op_updated := now\<rparr>"

definition cancel_superseded :: "string \<Rightarrow> string option \<Rightarrow> int \<Rightarrow> detached_row \<Rightarrow> detached_row" where
  "cancel_superseded by_ref successor now r = (mark_superseded by_ref successor now r)\<lparr>op_state := Op_cancelled,
     op_terminal := Some Oe_cancelled, op_terminalAt := coalesce (op_terminalAt r) (Some now),
     op_error := coalesce (op_error r) (Some ''superseded'')\<rparr>"

definition supersedeDetachedOperation ::
  "string \<Rightarrow> string \<Rightarrow> string option \<Rightarrow> int \<Rightarrow> detached_row list \<Rightarrow> op_result \<times> detached_row list" where
  "supersedeDetachedOperation i by_ref successor now rows =
     (if i = [] \<or> by_ref = [] \<or> \<not> safeMs now then (Inl ''invalid_supersession'', rows)
      else case getDetachedOperation rows i of
        None \<Rightarrow> (Inl ''detached_operation_missing'', rows)
      | Some r \<Rightarrow>
          let rows' = (if unstarted (op_state r)
            then sql_update (\<lambda>q. op_id q = i \<and> unstarted (op_state q)) (cancel_superseded by_ref successor now) rows
            else sql_update (\<lambda>q. op_id q = i) (mark_superseded by_ref successor now) rows)
          in (reread rows' i (\<lambda>_. True) ''detached_operation_missing'', rows'))"

section \<open>Deadlines\<close>

definition to_expired :: "int \<Rightarrow> detached_row \<Rightarrow> detached_row" where
  "to_expired now r = r\<lparr>op_state := Op_unknown, op_terminal := Some Oe_unknown, op_terminalAt := Some now,
     op_error := coalesce (op_error r) (Some ''operation_deadline_expired''), op_updated := now\<rparr>"

definition expire_operation :: "int \<Rightarrow> string \<Rightarrow> detached_row list \<Rightarrow> detached_row list" where
  "expire_operation now i rows =
     (case getDetachedOperation rows i of
        None \<Rightarrow> rows
      | Some r \<Rightarrow> if isTerminalState (op_state r) then rows
          else sql_update (\<lambda>q. op_id q = i \<and> op_state q = Op_started) (to_expired now) rows)"

definition reconcileDetachedOperations :: "int \<Rightarrow> detached_row list \<Rightarrow> string list \<times> detached_row list" where
  "reconcileDetachedOperations now rows =
     (if \<not> safeMs now then ([], rows)
      else let ids = filter (\<lambda>i. i \<noteq> []) (map op_id (sort_key op_deadline (sort_key op_id
             (filter (\<lambda>r. op_state r = Op_started \<and> op_deadline r < now) rows))))
        in (ids, fold (expire_operation now) ids rows))"

end
