(* ===== verification/Worker_Queue.thy ===== *)
theory Worker_Queue
  imports Detached_Ops
begin

text \<open>
  The global queue of worker undertakings: \<^verbatim>\<open>cognitive-v021/operation/worker-queue.ts\<close> on the tables
  \<open>worker_undertakings\<close>, \<open>worker_execution_slot\<close> and \<open>worker_undertaking_scheduler\<close> of
  \<^verbatim>\<open>sidecar/schema.ts\<close>. The last two hold one row, which the schema inserts and nothing deletes. A
  transaction that is rolled back leaves the database as it was; that the file is locked by another
  process is not modelled.
\<close>

section \<open>Constants and rows\<close>

definition MAX_NONTERMINAL_WORKER_UNDERTAKINGS :: nat where "MAX_NONTERMINAL_WORKER_UNDERTAKINGS = 64"

definition MAX_PENDING_CURIOSITY :: nat where "MAX_PENDING_CURIOSITY = 3"

definition CURIOSITY_TTL_MS :: int where "CURIOSITY_TTL_MS = 48 * 60 * 60 * 1000"

definition WORKER_DISPATCH_CLAIM_LEASE_MS :: int where "WORKER_DISPATCH_CLAIM_LEASE_MS = 120000"

definition WORKER_SERVICE_CALENDAR :: "worker_origin list" where
  "WORKER_SERVICE_CALENDAR = [Owner_request, Ashley_commitment, Owner_request, Ashley_curiosity,
     Owner_request, Ashley_commitment, Owner_request]"

datatype undertaking_state =
    U_queued | U_dispatching | U_running
  | U_succeeded | U_failed | U_unknown | U_cancelled | U_superseded | U_expired

datatype blocked_reason = Worker_busy | Capacity

record worker_row =
  wu_id :: string
  wu_origin :: worker_origin
  wu_ref :: string
  wu_owner :: string
  wu_conversation :: "string option"
  wu_cycle :: string
  wu_generation :: int
  wu_ownerEvent :: "string option"
  wu_evidence :: "string option"
  wu_request :: js_value
  wu_purpose :: string
  wu_need :: string
  wu_key :: string
  wu_state :: undertaking_state
  wu_blocked :: "blocked_reason option"
  wu_queued :: int
  wu_updated :: int
  wu_expires :: "int option"
  wu_selected :: "string option"
  wu_calendar :: "int option"
  wu_ack :: "string option"
  wu_cancel :: "int option"
  wu_superseded :: "string option"
  wu_reason :: "string option"
  wu_terminalAt :: "int option"
  wu_token :: "string option"
  wu_claim :: "int option"
  wu_waitStarted :: "int option"
  wu_probe :: "int option"

record slot_row =
  sl_undertaking :: "string option"
  sl_operation :: "string option"
  sl_token :: "string option"
  sl_expires :: "int option"
  sl_updated :: int

record queue_db =
  qd_rows :: "worker_row list"
  qd_ops :: "detached_row list"
  qd_slot :: slot_row
  qd_cursor :: int
  qd_inbox :: "string list"

definition active :: "undertaking_state \<Rightarrow> bool" where
  "active s \<longleftrightarrow> s = U_queued \<or> s = U_dispatching \<or> s = U_running"

definition holding :: "undertaking_state \<Rightarrow> bool" where
  "holding s \<longleftrightarrow> s = U_dispatching \<or> s = U_running"

section \<open>Reading\<close>

definition nullableString :: "string option \<Rightarrow> string option" where
  "nullableString s = (if text_of s = [] then None else s)"

definition nullableMs :: "int option \<Rightarrow> int option" where
  "nullableMs t = (case t of None \<Rightarrow> None | Some n \<Rightarrow> if safe_integer n then Some n else None)"

definition mapRow :: "worker_row \<Rightarrow> worker_row" where
  "mapRow r = r\<lparr>wu_conversation := nullableString (wu_conversation r),
     wu_ownerEvent := nullableString (wu_ownerEvent r), wu_evidence := nullableString (wu_evidence r),
     wu_expires := nullableMs (wu_expires r), wu_selected := nullableString (wu_selected r),
     wu_calendar := nullableMs (wu_calendar r), wu_ack := nullableString (wu_ack r),
     wu_cancel := nullableMs (wu_cancel r), wu_superseded := nullableString (wu_superseded r),
     wu_reason := nullableString (wu_reason r), wu_terminalAt := nullableMs (wu_terminalAt r),
     wu_token := nullableString (wu_token r), wu_claim := nullableMs (wu_claim r),
     wu_waitStarted := nullableMs (wu_waitStarted r), wu_probe := nullableMs (wu_probe r)\<rparr>"

definition rowById :: "queue_db \<Rightarrow> string \<Rightarrow> worker_row option" where
  "rowById db u = map_option mapRow (sql_get (\<lambda>r. wu_id r = u) (qd_rows db))"

definition rowByAdmissionKey :: "queue_db \<Rightarrow> string \<Rightarrow> worker_row option" where
  "rowByAdmissionKey db k = map_option mapRow (sql_get (\<lambda>r. wu_key r = k) (qd_rows db))"

definition getWorkerUndertaking :: "queue_db \<Rightarrow> string \<Rightarrow> worker_row option" where
  "getWorkerUndertaking db u = (if blank u then None else rowById db u)"

definition getWorkerUndertakingByAdmissionKey :: "queue_db \<Rightarrow> string \<Rightarrow> worker_row option" where
  "getWorkerUndertakingByAdmissionKey db k = (if blank k then None else rowByAdmissionKey db k)"

definition getWorkerExecutionSlot :: "queue_db \<Rightarrow> slot_row" where
  "getWorkerExecutionSlot db = (let s = qd_slot db in
     \<lparr>sl_undertaking = nullableString (sl_undertaking s), sl_operation = nullableString (sl_operation s),
      sl_token = nullableString (sl_token s), sl_expires = nullableMs (sl_expires s), sl_updated = sl_updated s\<rparr>)"

text \<open>\<open>ORDER BY queued_at_ms ASC, undertaking_id ASC\<close>\<close>

definition by_queue :: "worker_row list \<Rightarrow> worker_row list" where
  "by_queue rows = sort_key wu_queued (sort_key wu_id rows)"

definition limit_of :: "int \<Rightarrow> nat" where
  "limit_of n = nat (max 1 (min 100 n))"

definition listDispatchingWorkerUndertakings :: "queue_db \<Rightarrow> int \<Rightarrow> worker_row list" where
  "listDispatchingWorkerUndertakings db n =
     map mapRow (take (if safe_integer n then limit_of n else 50)
       (by_queue (filter (\<lambda>r. holding (wu_state r)) (qd_rows db))))"

definition listWorkerUndertakings :: "queue_db \<Rightarrow> int option \<Rightarrow> undertaking_state option \<Rightarrow> worker_row list" where
  "listWorkerUndertakings db n st =
     map mapRow (take (limit_of (case n of None \<Rightarrow> 50 | Some n \<Rightarrow> n))
       (by_queue (filter (\<lambda>r. case st of None \<Rightarrow> True | Some s \<Rightarrow> wu_state r = s) (qd_rows db))))"

section \<open>Admission\<close>

record enqueue_input =
  eq_origin :: worker_origin
  eq_ref :: string
  eq_ownerEvent :: "string option"
  eq_evidence :: "string option"
  eq_owner :: string
  eq_conversation :: "string option"
  eq_cycle :: string
  eq_generation :: int
  eq_request :: js_value
  eq_purpose :: string
  eq_need :: string

definition originIsValid :: "enqueue_input \<Rightarrow> bool" where
  "originIsValid i \<longleftrightarrow> \<not> blank (eq_ref i) \<and>
     (if eq_origin i = Owner_request
      then \<not> blank (text_of (eq_ownerEvent i)) \<and> eq_ownerEvent i = Some (eq_ref i)
      else eq_ownerEvent i = None)"

definition valid_enqueue :: "enqueue_input \<Rightarrow> int \<Rightarrow> bool" where
  "valid_enqueue i now \<longleftrightarrow> \<not> blank (eq_owner i) \<and> \<not> blank (eq_cycle i) \<and>
     safe_integer (eq_generation i) \<and> 0 \<le> eq_generation i \<and> originIsValid i \<and> safeMs now \<and>
     is_obj (eq_request i) \<and> \<not> blank (eq_purpose i) \<and> \<not> blank (eq_need i) \<and>
     is_str (js_prop (eq_request i) ''projectId'') \<and> \<not> blank (the_str (js_prop (eq_request i) ''projectId''))"

fun origin_name :: "worker_origin \<Rightarrow> string" where
  "origin_name Owner_request = ''OWNER_REQUEST''"
| "origin_name Ashley_commitment = ''ASHLEY_COMMITMENT''"
| "origin_name Ashley_curiosity = ''ASHLEY_CURIOSITY''"

definition text_or_null :: "string option \<Rightarrow> js_value" where
  "text_or_null s = (case s of None \<Rightarrow> JNull | Some t \<Rightarrow> JStr t)"

definition canonicalAdmissionKey :: "(string \<Rightarrow> string) \<Rightarrow> enqueue_input \<Rightarrow> string" where
  "canonicalAdmissionKey sha i = ''worker-undertaking-admission:'' @ sha256 sha (JObj
     [(''semanticKind'', JStr ''project.inspect''),
      (''origin'', JObj [(''kind'', JStr (origin_name (eq_origin i))), (''ref'', JStr (eq_ref i)),
         (''ownerEventId'', text_or_null (eq_ownerEvent i)), (''evidenceRowId'', text_or_null (eq_evidence i))]),
      (''ownerId'', JStr (eq_owner i)), (''conversationId'', text_or_null (eq_conversation i)),
      (''originCycleId'', JStr (eq_cycle i)), (''originGeneration'', JNum (NInt (eq_generation i))),
      (''requestJson'', JStr (stableJson (eq_request i))), (''purpose'', JStr (eq_purpose i)),
      (''evidenceNeed'', JStr (eq_need i))])"

definition workerUndertakingIdFor :: "(string \<Rightarrow> string) \<Rightarrow> string \<Rightarrow> string" where
  "workerUndertakingIdFor sha key = ''worker-undertaking:'' @ sha256 sha (JStr key)"

definition detachedIdempotencyKeyForWorkerUndertaking :: "string \<Rightarrow> string" where
  "detachedIdempotencyKeyForWorkerUndertaking u = ''detached-for-worker-undertaking:'' @ u"

text \<open>
  The column \<open>request_json\<close> is the value of its text, so its canonical text is \<open>stableJson\<close> of it.
\<close>

definition same_owner_request :: "enqueue_input \<Rightarrow> worker_row \<Rightarrow> bool" where
  "same_owner_request i r \<longleftrightarrow> wu_origin r = Owner_request \<and>
     (wu_ref r = text_of (coalesce (eq_ownerEvent i) (Some (eq_ref i))) \<or>
      wu_ownerEvent r = coalesce (eq_ownerEvent i) (Some (eq_ref i))) \<and>
     active (wu_state r) \<and> wu_purpose r = eq_purpose i \<and> wu_need r = eq_need i \<and>
     stableJson (wu_request r) = stableJson (eq_request i)"

definition queued_row :: "string \<Rightarrow> string \<Rightarrow> enqueue_input \<Rightarrow> int \<Rightarrow> worker_row" where
  "queued_row u k i now = \<lparr>wu_id = u, wu_origin = eq_origin i, wu_ref = eq_ref i, wu_owner = eq_owner i,
     wu_conversation = eq_conversation i, wu_cycle = eq_cycle i, wu_generation = eq_generation i,
     wu_ownerEvent = eq_ownerEvent i, wu_evidence = eq_evidence i, wu_request = eq_request i,
     wu_purpose = eq_purpose i, wu_need = eq_need i, wu_key = k, wu_state = U_queued, wu_blocked = None,
     wu_queued = now, wu_updated = now,
     wu_expires = (if eq_origin i = Ashley_curiosity then Some (now + CURIOSITY_TTL_MS) else None),
     wu_selected = None, wu_calendar = None, wu_ack = None, wu_cancel = None, wu_superseded = None,
     wu_reason = None, wu_terminalAt = None, wu_token = None, wu_claim = None, wu_waitStarted = None,
     wu_probe = None\<rparr>"

text \<open>The CHECKs on the origin and the curiosity's end, and the three unique columns.\<close>

definition undertaking_check :: "worker_row \<Rightarrow> bool" where
  "undertaking_check r \<longleftrightarrow> origin_check (wu_origin r) (wu_ownerEvent r) (wu_ref r) \<and>
     (wu_origin r = Ashley_curiosity \<longrightarrow> wu_expires r \<noteq> None)"

definition undertaking_indexes :: "worker_row list \<Rightarrow> bool" where
  "undertaking_indexes rows \<longleftrightarrow> distinct (map wu_id rows) \<and> distinct (map wu_key rows) \<and>
     distinct (map wu_selected (filter (\<lambda>r. wu_selected r \<noteq> None) rows))"

definition store_undertakings :: "worker_row list \<Rightarrow> queue_db \<Rightarrow> queue_db throws" where
  "store_undertakings rows db =
     and_then (sql_check (list_all undertaking_check rows)) (\<lambda>_.
       if undertaking_indexes rows then Inr (db\<lparr>qd_rows := rows\<rparr>) else Inl ''UNIQUE constraint failed'')"

definition nonterminal_count :: "queue_db \<Rightarrow> nat" where
  "nonterminal_count db = length (filter (\<lambda>r. active (wu_state r)) (qd_rows db))"

definition pending_curiosity :: "queue_db \<Rightarrow> nat" where
  "pending_curiosity db = length (filter (\<lambda>r. wu_origin r = Ashley_curiosity \<and>
     (wu_state r = U_queued \<or> wu_state r = U_dispatching)) (qd_rows db))"

type_synonym queue_admission = "string + worker_row \<times> bool"

definition enqueueWorkerUndertaking ::
  "(string \<Rightarrow> string) \<Rightarrow> enqueue_input \<Rightarrow> int \<Rightarrow> queue_db \<Rightarrow> queue_admission \<times> queue_db" where
  "enqueueWorkerUndertaking sha i now db =
     (if \<not> valid_enqueue i now then (Inl ''invalid_admission'', db)
      else let k = canonicalAdmissionKey sha i; u = workerUndertakingIdFor sha k in
        case rowByAdmissionKey db k of
          Some r \<Rightarrow> (Inr (r, False), db)
        | None \<Rightarrow>
          (case (if eq_origin i = Owner_request then sql_get (same_owner_request i) (qd_rows db) else None) of
             Some r \<Rightarrow> (Inr (mapRow r, False), db)
           | None \<Rightarrow>
             if nonterminal_count db \<ge> MAX_NONTERMINAL_WORKER_UNDERTAKINGS
             then (Inl ''queue_capacity_exhausted'', db)
             else if eq_origin i = Ashley_curiosity \<and> pending_curiosity db \<ge> MAX_PENDING_CURIOSITY
             then (Inl ''curiosity_pending_capacity'', db)
             else (case store_undertakings (qd_rows db @ [queued_row u k i now]) db of
                 Inl _ \<Rightarrow> (Inl ''queue_admission_failed'', db)
               | Inr db' \<Rightarrow> (case rowById db' u of
                   None \<Rightarrow> (Inl ''queue_admission_failed'', db') | Some r \<Rightarrow> (Inr (r, True), db')))))"

section \<open>Selection along the service calendar\<close>

record selection =
  sn_undertaking :: worker_row
  sn_index :: int
  sn_class :: worker_origin
  sn_skipped :: nat

definition getWorkerSchedulerCursor :: "queue_db \<Rightarrow> int" where
  "getWorkerSchedulerCursor db =
     (if 0 \<le> qd_cursor db \<and> qd_cursor db < int (length WORKER_SERVICE_CALENDAR) then qd_cursor db else 0)"

definition calendar_slot :: "int \<Rightarrow> nat \<Rightarrow> int" where
  "calendar_slot cursor offset = (cursor + int offset) mod int (length WORKER_SERVICE_CALENDAR)"

definition class_at :: "int \<Rightarrow> worker_origin" where
  "class_at index = WORKER_SERVICE_CALENDAR ! nat index"

definition selectable :: "worker_origin \<Rightarrow> int \<Rightarrow> worker_row \<Rightarrow> bool" where
  "selectable k now r \<longleftrightarrow> wu_state r = U_queued \<and> wu_origin r = k \<and>
     (case wu_expires r of None \<Rightarrow> True | Some t \<Rightarrow> t > now) \<and>
     (case wu_probe r of None \<Rightarrow> True | Some t \<Rightarrow> t \<le> now)"

definition select_at :: "queue_db \<Rightarrow> int \<Rightarrow> int \<Rightarrow> nat \<Rightarrow> selection option" where
  "select_at db now cursor offset =
     (let index = calendar_slot cursor offset; k = class_at index in
      case by_queue (filter (selectable k now) (qd_rows db)) of
        [] \<Rightarrow> None
      | r # _ \<Rightarrow> Some \<lparr>sn_undertaking = mapRow r, sn_index = index, sn_class = k, sn_skipped = offset\<rparr>)"

fun first_selected :: "('a \<Rightarrow> 'b option) \<Rightarrow> 'a list \<Rightarrow> 'b option" where
  "first_selected f [] = None"
| "first_selected f (x # xs) = (case f x of None \<Rightarrow> first_selected f xs | Some y \<Rightarrow> Some y)"

definition selectNextWorkerUndertaking :: "queue_db \<Rightarrow> int \<Rightarrow> selection option" where
  "selectNextWorkerUndertaking db now =
     (if \<not> safeMs now then None
      else first_selected (select_at db now (getWorkerSchedulerCursor db)) [0..<length WORKER_SERVICE_CALENDAR])"

section \<open>The slot\<close>

definition empty_slot :: "int \<Rightarrow> slot_row" where
  "empty_slot now = \<lparr>sl_undertaking = None, sl_operation = None, sl_token = None, sl_expires = None,
     sl_updated = now\<rparr>"

definition clearWorkerExecutionSlot :: "string \<Rightarrow> int \<Rightarrow> queue_db \<Rightarrow> bool \<times> queue_db" where
  "clearWorkerExecutionSlot u now db =
     (if sl_undertaking (qd_slot db) = Some u then (True, db\<lparr>qd_slot := empty_slot now\<rparr>) else (False, db))"

definition releaseWorkerExecutionSlot :: "string \<Rightarrow> int \<Rightarrow> queue_db \<Rightarrow> bool \<times> queue_db" where
  "releaseWorkerExecutionSlot u now db =
     (if blank u \<or> \<not> safeMs now then (False, db) else clearWorkerExecutionSlot u now db)"

definition claim_slot :: "string \<Rightarrow> string \<Rightarrow> string \<Rightarrow> int \<Rightarrow> int \<Rightarrow> queue_db \<Rightarrow> queue_db" where
  "claim_slot u o_id token expires now db =
     (if sl_undertaking (qd_slot db) = None
      then db\<lparr>qd_slot := \<lparr>sl_undertaking = Some u, sl_operation = Some o_id, sl_token = Some token,
        sl_expires = Some expires, sl_updated = now\<rparr>\<rparr>
      else db)"

section \<open>Changes to one undertaking\<close>

definition update_undertaking ::
  "string \<Rightarrow> (undertaking_state \<Rightarrow> bool) \<Rightarrow> (worker_row \<Rightarrow> worker_row) \<Rightarrow> queue_db \<Rightarrow> queue_db" where
  "update_undertaking u st f db =
     db\<lparr>qd_rows := sql_update (\<lambda>r. wu_id r = u \<and> st (wu_state r)) f (qd_rows db)\<rparr>"

record capacity_input =
  cp_reason :: string
  cp_probe :: "int option"

definition capacity_refused :: "string \<Rightarrow> capacity_input \<Rightarrow> int \<Rightarrow> bool" where
  "capacity_refused u c now \<longleftrightarrow> blank u \<or> blank (cp_reason c) \<or> \<not> safeMs now \<or>
     (case cp_probe c of None \<Rightarrow> False | Some t \<Rightarrow> \<not> safeMs t)"

definition wait_capacity :: "capacity_input \<Rightarrow> int \<Rightarrow> worker_row \<Rightarrow> worker_row" where
  "wait_capacity c now r = r\<lparr>wu_blocked := Some Capacity,
     wu_waitStarted := coalesce (wu_waitStarted r) (Some now), wu_probe := cp_probe c, wu_updated := now\<rparr>"

definition markWorkerUndertakingCapacity ::
  "string \<Rightarrow> capacity_input \<Rightarrow> int \<Rightarrow> queue_db \<Rightarrow> worker_row option \<times> queue_db" where
  "markWorkerUndertakingCapacity u c now db =
     (if capacity_refused u c now then (None, db)
      else let db' = update_undertaking u (\<lambda>s. s = U_queued \<or> s = U_dispatching) (wait_capacity c now) db
        in (rowById db' u, db'))"

text \<open>An undertaking that has not started goes back to the queue.\<close>

definition unclaim :: "worker_row \<Rightarrow> worker_row" where
  "unclaim r = r\<lparr>wu_state := U_queued, wu_calendar := None, wu_token := None, wu_claim := None\<rparr>"

definition requeueWorkerUndertakingAfterCapacity ::
  "string \<Rightarrow> capacity_input \<Rightarrow> int \<Rightarrow> queue_db \<Rightarrow> worker_row option \<times> queue_db" where
  "requeueWorkerUndertakingAfterCapacity u c now db =
     (if capacity_refused u c now then (None, db)
      else case rowById db u of
        None \<Rightarrow> (None, db)
      | Some r \<Rightarrow>
          if wu_state r \<noteq> U_dispatching then (Some r, db)
          else let db' = snd (clearWorkerExecutionSlot u now
              (update_undertaking u (\<lambda>s. s = U_dispatching) (\<lambda>r. unclaim (wait_capacity c now r)) db))
            in (rowById db' u, db'))"

definition markWorkerUndertakingWorkerBusy :: "string \<Rightarrow> int \<Rightarrow> queue_db \<Rightarrow> worker_row option \<times> queue_db" where
  "markWorkerUndertakingWorkerBusy u now db =
     (if blank u \<or> \<not> safeMs now then (None, db)
      else let db' = update_undertaking u (\<lambda>s. s = U_queued)
          (\<lambda>r. r\<lparr>wu_blocked := Some Worker_busy, wu_probe := None, wu_updated := now\<rparr>) db
        in (rowById db' u, db'))"

type_synonym mutation = "string + worker_row \<times> bool"

definition mutated :: "queue_db \<Rightarrow> string \<Rightarrow> (worker_row \<Rightarrow> bool) \<Rightarrow> mutation \<times> queue_db" where
  "mutated db u changed = (case rowById db u of
     None \<Rightarrow> (Inl ''mutation_failed'', db) | Some r \<Rightarrow> (Inr (r, changed r), db))"

definition requestWorkerUndertakingCancel :: "string \<Rightarrow> int \<Rightarrow> queue_db \<Rightarrow> mutation \<times> queue_db" where
  "requestWorkerUndertakingCancel u now db =
     (if blank u \<or> \<not> safeMs now then (Inl ''invalid_request'', db)
      else case rowById db u of
        None \<Rightarrow> (Inl ''undertaking_missing'', db)
      | Some r \<Rightarrow>
          if wu_state r = U_queued
          then mutated (update_undertaking u (\<lambda>s. s = U_queued)
              (\<lambda>r. r\<lparr>wu_state := U_cancelled, wu_blocked := None,
                 wu_cancel := coalesce (wu_cancel r) (Some now),
                 wu_reason := coalesce (wu_reason r) (Some ''cancel_requested''),
                 wu_terminalAt := coalesce (wu_terminalAt r) (Some now), wu_updated := now\<rparr>) db)
            u (\<lambda>r. wu_state r = U_cancelled)
          else if holding (wu_state r)
          then mutated (update_undertaking u holding
              (\<lambda>r. r\<lparr>wu_cancel := coalesce (wu_cancel r) (Some now), wu_updated := now\<rparr>) db)
            u (\<lambda>r. wu_cancel r = Some now)
          else (Inl ''undertaking_terminal'', db))"

definition supersedeWorkerUndertaking :: "string \<Rightarrow> string \<Rightarrow> int \<Rightarrow> queue_db \<Rightarrow> mutation \<times> queue_db" where
  "supersedeWorkerUndertaking u by_ref now db =
     (if blank u \<or> blank by_ref \<or> \<not> safeMs now then (Inl ''invalid_request'', db)
      else case rowById db u of
        None \<Rightarrow> (Inl ''undertaking_missing'', db)
      | Some r \<Rightarrow>
          if wu_state r \<noteq> U_queued
          then (Inl (if holding (wu_state r) then ''undertaking_not_queued'' else ''undertaking_terminal''), db)
          else mutated (update_undertaking u (\<lambda>s. s = U_queued)
              (\<lambda>r. r\<lparr>wu_state := U_superseded, wu_blocked := None, wu_superseded := Some by_ref,
                 wu_reason := Some ''superseded'', wu_terminalAt := Some now, wu_updated := now\<rparr>) db)
            u (\<lambda>r. wu_state r = U_superseded))"

text \<open>
  The start. Both updates must change one row, or the transaction is rolled back; the cursor moves
  past the place of the calendar the undertaking was selected at.
\<close>

definition start_slot :: "string \<Rightarrow> int \<Rightarrow> slot_row \<Rightarrow> slot_row" where
  "start_slot o_id now s = s\<lparr>sl_operation := Some o_id, sl_expires := None, sl_updated := now\<rparr>"

definition next_cursor_of :: "int \<Rightarrow> int" where
  "next_cursor_of index = (index + 1) mod int (length WORKER_SERVICE_CALENDAR)"

definition markWorkerUndertakingRunning ::
  "string \<Rightarrow> string \<Rightarrow> int \<Rightarrow> queue_db \<Rightarrow> worker_row option \<times> queue_db" where
  "markWorkerUndertakingRunning u o_id now db =
     (if blank u \<or> blank o_id \<or> \<not> safeMs now then (None, db)
      else case rowById db u of
        None \<Rightarrow> (None, db)
      | Some r \<Rightarrow>
          if wu_selected r \<noteq> Some o_id then (None, db)
          else if wu_state r = U_running then (Some r, db)
          else if wu_state r \<noteq> U_dispatching then (None, db)
          else if sl_undertaking (qd_slot db) \<noteq> Some u then (None, db)
          else let db1 = update_undertaking u (\<lambda>s. s = U_dispatching)
                (\<lambda>r. if wu_selected r = Some o_id
                   then r\<lparr>wu_state := U_running, wu_blocked := None, wu_claim := None, wu_probe := None,
                     wu_updated := now\<rparr> else r) db;
              db2 = db1\<lparr>qd_slot := start_slot o_id now (qd_slot db1)\<rparr>;
              db3 = (case wu_calendar r of None \<Rightarrow> db2 | Some index \<Rightarrow> db2\<lparr>qd_cursor := next_cursor_of index\<rparr>)
            in (rowById db3 u, db3))"

section \<open>The end of an undertaking\<close>

datatype queue_end =
  Qe_succeeded | Qe_failed | Qe_unknown | Qe_cancelled | Qe_superseded | Qe_expired | Qe_stopped

fun queue_end_name :: "queue_end \<Rightarrow> string" where
  "queue_end_name Qe_succeeded = ''succeeded''"
| "queue_end_name Qe_failed = ''failed''"
| "queue_end_name Qe_unknown = ''outcome_unknown''"
| "queue_end_name Qe_cancelled = ''cancelled''"
| "queue_end_name Qe_superseded = ''superseded''"
| "queue_end_name Qe_expired = ''expired''"
| "queue_end_name Qe_stopped = ''stopped''"

fun queue_end_state :: "queue_end \<Rightarrow> undertaking_state" where
  "queue_end_state Qe_succeeded = U_succeeded"
| "queue_end_state Qe_failed = U_failed"
| "queue_end_state Qe_unknown = U_unknown"
| "queue_end_state Qe_cancelled = U_cancelled"
| "queue_end_state Qe_superseded = U_superseded"
| "queue_end_state Qe_expired = U_expired"
| "queue_end_state Qe_stopped = U_failed"

fun op_end_as :: "op_end \<Rightarrow> queue_end" where
  "op_end_as Oe_succeeded = Qe_succeeded"
| "op_end_as Oe_failed = Qe_failed"
| "op_end_as Oe_unknown = Qe_unknown"
| "op_end_as Oe_cancelled = Qe_cancelled"
| "op_end_as Oe_stopped = Qe_stopped"

text \<open>
  What ends the undertaking: the terminal truth of its operation, when it has one, overrides the
  caller's, except for an expiry; a success without that truth is refused (\<open>None\<close>).
\<close>

definition terminal_truth ::
  "worker_row \<Rightarrow> detached_row option \<Rightarrow> queue_end \<Rightarrow> string option \<Rightarrow> (undertaking_state \<times> string) option" where
  "terminal_truth r operation e reason =
     (let state = queue_end_state e; why = (case reason of None \<Rightarrow> queue_end_name e | Some x \<Rightarrow> x) in
      if wu_selected r = None \<or> e = Qe_expired then Some (state, why)
      else (case operation of
          None \<Rightarrow> if state = U_succeeded then None else Some (state, why)
        | Some d \<Rightarrow> (case op_terminal d of
              Some t \<Rightarrow> Some (queue_end_state (op_end_as t), if text_of (op_error d) = [] then why else text_of (op_error d))
            | None \<Rightarrow> if state = U_succeeded then None else Some (state, why))))"

definition selected_operation :: "queue_db \<Rightarrow> worker_row \<Rightarrow> detached_row option" where
  "selected_operation db r = (case wu_selected r of None \<Rightarrow> None | Some i \<Rightarrow> getDetachedOperation (qd_ops db) i)"

definition end_undertaking :: "undertaking_state \<Rightarrow> string \<Rightarrow> int \<Rightarrow> worker_row \<Rightarrow> worker_row" where
  "end_undertaking s why now r = r\<lparr>wu_state := s, wu_blocked := None, wu_reason := Some why,
     wu_terminalAt := Some now, wu_token := None, wu_claim := None, wu_probe := None, wu_updated := now\<rparr>"

definition projectWorkerUndertakingTerminal ::
  "string \<Rightarrow> queue_end \<Rightarrow> string option \<Rightarrow> int \<Rightarrow> queue_db \<Rightarrow> worker_row option \<times> queue_db" where
  "projectWorkerUndertakingTerminal u e reason now db =
     (if blank u \<or> \<not> safeMs now then (None, db)
      else case rowById db u of
        None \<Rightarrow> (None, db)
      | Some r \<Rightarrow>
          if \<not> active (wu_state r) then (Some r, db)
          else case terminal_truth r (selected_operation db r) e reason of
            None \<Rightarrow> (None, db)
          | Some (s, why) \<Rightarrow>
              let db' = snd (clearWorkerExecutionSlot u now
                  (update_undertaking u active (end_undertaking s why now) db))
              in (rowById db' u, db'))"

definition expireQueuedCuriosity :: "int \<Rightarrow> queue_db \<Rightarrow> string list \<times> queue_db" where
  "expireQueuedCuriosity now db =
     (if \<not> safeMs now then ([], db)
      else let ids = filter (\<lambda>i. i \<noteq> []) (map wu_id
             (sort_key (\<lambda>r. case wu_expires r of None \<Rightarrow> 0 | Some t \<Rightarrow> t) (sort_key wu_id
               (filter (\<lambda>r. wu_origin r = Ashley_curiosity \<and> wu_state r = U_queued \<and>
                 (case wu_expires r of None \<Rightarrow> False | Some t \<Rightarrow> t \<le> now)) (qd_rows db)))))
        in (ids, fold (\<lambda>i db. snd (projectWorkerUndertakingTerminal i Qe_expired
              (Some ''curiosity_ttl_expired'') now db)) ids db))"

section \<open>Binding to an operation\<close>

record bind_input =
  bn_undertaking :: string
  bn_operation :: string
  bn_calendar :: int
  bn_lease :: int

type_synonym binding = "string + worker_row \<times> bool"

definition invalid_binding :: "bind_input \<Rightarrow> int \<Rightarrow> bool" where
  "invalid_binding i now \<longleftrightarrow> blank (bn_undertaking i) \<or> blank (bn_operation i) \<or> bn_calendar i < 0 \<or>
     bn_calendar i \<ge> int (length WORKER_SERVICE_CALENDAR) \<or> \<not> safeMs now \<or>
     \<not> safe_integer (bn_lease i) \<or> bn_lease i \<le> 0"

definition claim_token :: "string \<Rightarrow> int \<Rightarrow> string" where
  "claim_token u now = ''worker-claim:'' @ u @ '':'' @ int_to_string now"

definition holds_slot :: "bind_input \<Rightarrow> queue_db \<Rightarrow> bool" where
  "holds_slot i db \<longleftrightarrow> (let s = getWorkerExecutionSlot db in
     sl_undertaking s = Some (bn_undertaking i) \<and> sl_operation s = Some (bn_operation i))"

text \<open>A binding that exists already: the slot is taken again if it was lost.\<close>

definition rebind :: "bind_input \<Rightarrow> worker_row \<Rightarrow> int \<Rightarrow> queue_db \<Rightarrow> binding \<times> queue_db" where
  "rebind i current now db =
     (let u = bn_undertaking i; slot = getWorkerExecutionSlot db in
      if sl_undertaking slot \<noteq> None \<and> sl_undertaking slot \<noteq> Some u then (Inl ''worker_busy'', db)
      else let db' = (if sl_undertaking slot = None
          then claim_slot u (bn_operation i)
            (case wu_token current of None \<Rightarrow> claim_token u now | Some t \<Rightarrow> t) (now + bn_lease i) now db
          else db)
        in if \<not> holds_slot i db' then (Inl ''worker_busy'', db)
           else (Inr (case rowById db' u of None \<Rightarrow> current | Some r \<Rightarrow> r, False), db'))"

definition to_dispatching :: "bind_input \<Rightarrow> int \<Rightarrow> worker_row \<Rightarrow> worker_row" where
  "to_dispatching i now r = r\<lparr>wu_state := U_dispatching, wu_blocked := None,
     wu_selected := coalesce (wu_selected r) (Some (bn_operation i)), wu_calendar := Some (bn_calendar i),
     wu_token := Some (claim_token (bn_undertaking i) now), wu_claim := Some (now + bn_lease i), wu_updated := now\<rparr>"

text \<open>\<open>admit\<close> is the callback \<open>admitOperation\<close>: its answer, and the operations it leaves.\<close>

definition bindWorkerUndertakingToOperation ::
  "bind_input \<Rightarrow> (detached_row list \<Rightarrow> (string + string \<times> bool) \<times> detached_row list) \<Rightarrow> int \<Rightarrow> queue_db \<Rightarrow>
   binding \<times> queue_db" where
  "bindWorkerUndertakingToOperation i admit now db =
     (if invalid_binding i now then (Inl ''binding_failed'', db)
      else let u = bn_undertaking i in
        case rowById db u of
          None \<Rightarrow> (Inl ''undertaking_missing'', db)
        | Some current \<Rightarrow>
          if wu_state current = U_dispatching \<and> wu_selected current = Some (bn_operation i)
          then rebind i current now db
          else if wu_state current \<noteq> U_queued then (Inl ''undertaking_not_queued'', db)
          else if sl_undertaking (getWorkerExecutionSlot db) \<noteq> None then (Inl ''worker_busy'', db)
          else if wu_selected current \<noteq> None \<and> wu_selected current \<noteq> Some (bn_operation i)
          then (Inl ''binding_failed'', db)
          else (case store_undertakings (sql_update (\<lambda>r. wu_id r = u \<and> wu_state r = U_queued)
                (to_dispatching i now) (qd_rows db)) db of
              Inl _ \<Rightarrow> (Inl ''binding_failed'', db)
            | Inr db1 \<Rightarrow>
              (case admit (qd_ops db1) of
                 (Inl _, ops) \<Rightarrow> (Inl ''binding_failed'', db)
               | (Inr (o_id, created), ops) \<Rightarrow>
                   if o_id \<noteq> bn_operation i then (Inl ''binding_failed'', db)
                   else let db2 = claim_slot u (bn_operation i) (claim_token u now) (now + bn_lease i) now
                       (db1\<lparr>qd_ops := ops\<rparr>)
                     in if \<not> holds_slot i db2 then (Inl ''worker_busy'', db)
                        else (case rowById db2 u of
                            None \<Rightarrow> (Inl ''binding_failed'', db2) | Some r \<Rightarrow> (Inr (r, created), db2)))))"

section \<open>Recovery of the slot and of claims\<close>

definition lose_operation :: "int \<Rightarrow> worker_row \<Rightarrow> worker_row" where
  "lose_operation now r = (unclaim r)\<lparr>wu_selected := None, wu_blocked := None, wu_updated := now\<rparr>"

definition repair_dispatching :: "string \<Rightarrow> int \<Rightarrow> queue_db \<Rightarrow> queue_db" where
  "repair_dispatching u now db = snd (clearWorkerExecutionSlot u now
     (update_undertaking u (\<lambda>s. s = U_dispatching) (lose_operation now) db))"

definition repaired_if :: "string \<Rightarrow> worker_row option \<times> queue_db \<Rightarrow> string list \<times> queue_db" where
  "repaired_if u = (\<lambda>(r, db). (if r = None then [] else [u], db))"

definition repairWorkerExecutionSlot :: "int \<Rightarrow> queue_db \<Rightarrow> string list \<times> queue_db" where
  "repairWorkerExecutionSlot now db =
     (if \<not> safeMs now then ([], db)
      else case sl_undertaking (getWorkerExecutionSlot db) of
        None \<Rightarrow> ([], db)
      | Some u \<Rightarrow> (case rowById db u of
          None \<Rightarrow> ([], snd (clearWorkerExecutionSlot u now db))
        | Some r \<Rightarrow>
          if wu_state r \<in> {U_succeeded, U_failed, U_unknown, U_cancelled, U_superseded, U_expired}
          then ([u], snd (clearWorkerExecutionSlot u now db))
          else (case selected_operation db r of
              Some d \<Rightarrow>
                (case op_terminal d of
                   Some t \<Rightarrow> repaired_if u (projectWorkerUndertakingTerminal u
                     (if t = Oe_stopped then Qe_failed else op_end_as t)
                     (case op_error d of None \<Rightarrow> Some ''recovered_detached_terminal'' | Some err \<Rightarrow> Some err) now db)
                 | None \<Rightarrow>
                     if unstarted (op_state d)
                     then repaired_if u (requeueWorkerUndertakingAfterCapacity u
                       \<lparr>cp_reason = ''recovered_pre_start_capacity_claim'', cp_probe = Some now\<rparr> now db)
                     else if op_state d = Op_started then ([], db)
                     else if wu_state r = U_dispatching then ([u], repair_dispatching u now db)
                     else if wu_state r = U_running then repaired_if u (projectWorkerUndertakingTerminal u Qe_unknown
                       (Some ''detached_operation_missing_at_recovery'') now db)
                     else ([], db))
            | None \<Rightarrow>
                if wu_state r = U_dispatching then ([u], repair_dispatching u now db)
                else if wu_state r = U_running then repaired_if u (projectWorkerUndertakingTerminal u Qe_unknown
                  (Some ''detached_operation_missing_at_recovery'') now db)
                else ([], db))))"

definition recover_claim :: "int \<Rightarrow> string \<times> string option \<Rightarrow> string list \<times> queue_db \<Rightarrow> string list \<times> queue_db" where
  "recover_claim now = (\<lambda>(u, selected) (done_ids, db).
     if u = [] then (done_ids, db)
     else let operation = (if text_of selected = [] then None else getDetachedOperation (qd_ops db) (text_of selected)) in
       case operation of
         Some d \<Rightarrow>
           if op_terminal d \<noteq> None \<or> op_state d = Op_started then (done_ids, db)
           else if unstarted (op_state d)
           then (done_ids @ [u], snd (releaseWorkerExecutionSlot u now
             (update_undertaking u (\<lambda>s. s = U_dispatching)
               (\<lambda>r. (unclaim r)\<lparr>wu_blocked := Some Capacity, wu_probe := Some now, wu_updated := now\<rparr>) db)))
           else (done_ids @ [u], snd (releaseWorkerExecutionSlot u now
             (update_undertaking u (\<lambda>s. s = U_dispatching) (lose_operation now) db)))
       | None \<Rightarrow> (done_ids @ [u], snd (releaseWorkerExecutionSlot u now
           (update_undertaking u (\<lambda>s. s = U_dispatching) (lose_operation now) db))))"

definition recoverExpiredDispatchClaims :: "int \<Rightarrow> queue_db \<Rightarrow> string list \<times> queue_db" where
  "recoverExpiredDispatchClaims now db =
     (if \<not> safeMs now then ([], db)
      else fold (recover_claim now)
        (map (\<lambda>r. (wu_id r, wu_selected r)) (sort_key wu_id (filter (\<lambda>r. wu_state r = U_dispatching \<and>
          (case wu_claim r of None \<Rightarrow> False | Some t \<Rightarrow> t \<le> now)) (qd_rows db)))) ([], db))"

end
