(* ===== verification/Worker_Dispatch.thy ===== *)
theory Worker_Dispatch
  imports Worker_Queue
begin

text \<open>
  The pass that serves the queue: \<^verbatim>\<open>cognitive-v021/operation/dispatch.ts\<close>, with the completion event of
  \<^verbatim>\<open>operation/completion.ts\<close> and the routes of \<^verbatim>\<open>operation/project-inspection-route.ts\<close>. A pass waits for
  the capacity probe, for the check of a commitment and for the worker; between two waits it runs
  alone. Each stretch is a function here, and \<open>flight\<close> is where the pass waits; what happens to the
  database meanwhile is left to the step relation of \<open>Worker_Safety\<close>. \<open>Date.now()\<close> after a wait is
  the argument \<open>later\<close>.
\<close>

section \<open>Requests of a project inspection\<close>

definition nonEmpty_value :: "js_value \<Rightarrow> bool" where
  "nonEmpty_value v \<longleftrightarrow> is_str v \<and> \<not> blank (the_str v)"

fun field_names :: "js_value \<Rightarrow> string list" where
  "field_names (JObj fs) = map fst fs"
| "field_names _ = []"

definition exactKeys :: "js_value \<Rightarrow> string list \<Rightarrow> string list \<Rightarrow> bool" where
  "exactKeys v required optional \<longleftrightarrow> list_all (\<lambda>k. k \<in> set (field_names v)) required \<and>
     list_all (\<lambda>k. k \<in> set (required @ optional)) (field_names v)"

definition positive_count :: "js_value \<Rightarrow> bool" where
  "positive_count v \<longleftrightarrow> (case v of JNum (NInt n) \<Rightarrow> safe_integer n \<and> n > 0 | _ \<Rightarrow> False)"

definition validLocator :: "js_value \<Rightarrow> bool" where
  "validLocator v \<longleftrightarrow> is_obj v \<and>
     (let kind = js_prop v ''kind'' in
      if kind = JStr ''file'' \<or> kind = JStr ''directory''
      then exactKeys v [''kind'', ''path''] [] \<and> nonEmpty_value (js_prop v ''path'')
      else kind = JStr ''search'' \<and> exactKeys v [''kind'', ''pattern''] [''path'', ''maxMatches''] \<and>
        nonEmpty_value (js_prop v ''pattern'') \<and>
        (js_prop v ''path'' = JUndefined \<or> nonEmpty_value (js_prop v ''path'')) \<and>
        (js_prop v ''maxMatches'' = JUndefined \<or> positive_count (js_prop v ''maxMatches'')))"

definition isExactDirectProjectInspectionRequest :: "js_value \<Rightarrow> bool" where
  "isExactDirectProjectInspectionRequest v \<longleftrightarrow> is_obj v \<and> exactKeys v [''projectId'', ''locator''] [] \<and>
     nonEmpty_value (js_prop v ''projectId'') \<and> validLocator (js_prop v ''locator'')"

datatype inspection_route = Route_direct | Route_worker

definition routeProjectInspectionRequest :: "js_value \<Rightarrow> inspection_route" where
  "routeProjectInspectionRequest v =
     (if isExactDirectProjectInspectionRequest v then Route_direct else Route_worker)"

definition optional_field :: "string \<Rightarrow> js_value \<Rightarrow> (string \<times> js_value) list" where
  "optional_field k v = (if v = JUndefined then [] else [(k, v)])"

definition directProjectInspectionRequest :: "js_value \<Rightarrow> js_value option" where
  "directProjectInspectionRequest v =
     (if \<not> isExactDirectProjectInspectionRequest v then None
      else let l = js_prop v ''locator''; kind = js_prop l ''kind''; p = (''projectId'', js_prop v ''projectId'') in
        Some (JObj (
          if kind = JStr ''file''
          then [(''operation'', JStr ''project.read_file''), p, (''path'', js_prop l ''path'')]
          else if kind = JStr ''directory''
          then [(''operation'', JStr ''project.list_directory''), p, (''path'', js_prop l ''path'')]
          else [(''operation'', JStr ''project.search_text''), p, (''pattern'', js_prop l ''pattern'')] @
            optional_field ''path'' (js_prop l ''path'') @ optional_field ''maxMatches'' (js_prop l ''maxMatches''))))"

definition workerProjectInspectionRequest :: "js_value \<Rightarrow> js_value option" where
  "workerProjectInspectionRequest v =
     (if \<not> is_obj v \<or> \<not> nonEmpty_value (js_prop v ''projectId'') then None
      else let focus = (if nonEmpty_value (js_prop v ''focus'') then js_prop v ''focus''
          else if nonEmpty_value (js_prop v ''question'') then js_prop v ''question'' else JUndefined) in
        Some (JObj ([(''projectId'', js_prop v ''projectId'')] @ optional_field ''focus'' focus @
          optional_field ''maxSteps'' (js_prop v ''maxSteps''))))"

definition workerRequestForInspection :: "js_value \<Rightarrow> js_value" where
  "workerRequestForInspection v = (case workerProjectInspectionRequest v of None \<Rightarrow> v | Some w \<Rightarrow> w)"

section \<open>What a worker hands back\<close>

datatype worker_result = Worked js_value | Worker_failed string js_value | Worker_threw

definition evidenceString :: "nat \<Rightarrow> js_value \<Rightarrow> string option" where
  "evidenceString n v = (if nonEmpty_value v then Some (take n (js_trim (the_str v))) else None)"

definition evidence_or_null :: "nat \<Rightarrow> js_value \<Rightarrow> js_value" where
  "evidence_or_null n v = text_or_null (evidenceString n v)"

definition evidenceInt :: "js_value \<Rightarrow> js_value" where
  "evidenceInt v = (case v of JNum (NInt n) \<Rightarrow> if safe_integer n then v else JNull | _ \<Rightarrow> JNull)"

definition nullish :: "js_value \<Rightarrow> js_value \<Rightarrow> js_value" where
  "nullish v w = (if v = JNull \<or> v = JUndefined then w else v)"

fun is_bool :: "js_value \<Rightarrow> bool" where
  "is_bool (JBool b) = True"
| "is_bool _ = False"

definition toSanitizedFailureEvidence :: "js_value \<Rightarrow> js_value option" where
  "toSanitizedFailureEvidence v =
     (if \<not> is_obj v then None
      else case evidenceString 128 (nullish (js_prop v ''failureClass'') (js_prop v ''errorClass'')) of
        None \<Rightarrow> None
      | Some failureClass \<Rightarrow> Some (JObj ([
          (''failureClass'', JStr failureClass),
          (''statusCode'', evidenceInt (js_prop v ''statusCode'')),
          (''errorType'', evidence_or_null 128 (js_prop v ''errorType'')),
          (''message'', evidence_or_null 300 (js_prop v ''message'')),
          (''processExit'', evidenceInt (nullish (js_prop v ''processExit'') (js_prop v ''exitStatus''))),
          (''modelId'', evidence_or_null 256 (js_prop v ''modelId'')),
          (''openCodeVersion'', evidence_or_null 64 (js_prop v ''openCodeVersion''))] @
          (case evidenceString 64 (js_prop v ''commandCodeVersion'') of None \<Rightarrow> []
            | Some t \<Rightarrow> [(''commandCodeVersion'', JStr t)]) @
          (if is_bool (js_prop v ''externalPrerequisite'')
           then [(''externalPrerequisite'', js_prop v ''externalPrerequisite'')] else []))))"

definition workerObservationId :: "string \<Rightarrow> string" where
  "workerObservationId i = ''v021:observation:detached:'' @ i"

section \<open>The completion event\<close>

text \<open>
  \<open>appendInboxEvent\<close> of an id that is there already changes nothing; either of the two appends may
  throw. The payload of the event is not modelled, nor the branch for the continuation of an effect,
  whose ids are those of no detached operation.
\<close>

datatype appends = Append_throws | Appends_event | Appends_both

definition completionEventIdFor :: "string \<Rightarrow> string" where
  "completionEventIdFor i = ''operation:'' @ i @ '':completion''"

definition append_once :: "string \<Rightarrow> string list \<Rightarrow> string list" where
  "append_once e es = (if e \<in> set es then es else es @ [e])"

definition produceOperationCompletion ::
  "appends \<Rightarrow> string \<Rightarrow> int \<Rightarrow> queue_db \<Rightarrow> (string + string \<times> bool) option \<times> queue_db" where
  "produceOperationCompletion ap i now db =
     (if i = [] then (Some (Inl ''invalid_operation''), db)
      else case getDetachedOperation (qd_ops db) i of
        None \<Rightarrow> (Some (Inl ''detached_operation_missing''), db)
      | Some r \<Rightarrow>
          if op_terminal r = None then (Some (Inl ''detached_operation_not_terminal''), db)
          else if text_of (op_completion r) \<noteq> [] then (Some (Inr (text_of (op_completion r), False)), db)
          else let e = completionEventIdFor i; db1 = db\<lparr>qd_inbox := append_once e (qd_inbox db)\<rparr> in
            (case ap of
               Append_throws \<Rightarrow> (None, db)
             | Appends_event \<Rightarrow> (None, db1)
             | Appends_both \<Rightarrow> (Some (Inr (e, True)), db1\<lparr>qd_ops := sql_update (\<lambda>q. op_id q = i)
                 (\<lambda>q. q\<lparr>op_completion := Some e, op_updated := now\<rparr>) (qd_ops db1)\<rparr>)))"

section \<open>The dispatch of one operation\<close>

text \<open>A probe that throws is \<open>Unavailable ''worker_capacity_probe_failed'' None False\<close>.\<close>

datatype capacity_decision = Available | Unavailable (why: string) (probe_at: "int option") (final: bool)

datatype dispatch_state =
    Dispatched "string + detached_row"
  | Asking detached_row
  | Working detached_row

record ambient =
  am_later :: int
  am_appends :: "string \<Rightarrow> appends"

definition on_operations ::
  "(detached_row list \<Rightarrow> 'a \<times> detached_row list) \<Rightarrow> queue_db \<Rightarrow> 'a \<times> queue_db" where
  "on_operations f db = (case f (qd_ops db) of (x, ops) \<Rightarrow> (x, db\<lparr>qd_ops := ops\<rparr>))"

text \<open>
  \<open>finishTerminal\<close>: the completion event, then \<open>onTerminal\<close>, which projects the end of the
  operation on the undertaking.
\<close>

definition finishTerminal ::
  "ambient \<Rightarrow> string \<Rightarrow> detached_row \<Rightarrow> queue_db \<Rightarrow> dispatch_state \<times> queue_db" where
  "finishTerminal am u terminal db =
     (let i = op_id terminal;
          db1 = snd (produceOperationCompletion (am_appends am i) i (am_later am) db);
          completed = (case getDetachedOperation (qd_ops db1) i of None \<Rightarrow> terminal | Some r \<Rightarrow> r);
          db2 = snd (projectWorkerUndertakingTerminal u
            (case op_terminal completed of None \<Rightarrow> Qe_unknown | Some t \<Rightarrow> op_end_as t)
            (op_error completed) (am_later am) db1)
      in (Dispatched (Inr (case getDetachedOperation (qd_ops db2) i of None \<Rightarrow> completed | Some r \<Rightarrow> r)), db2))"

definition end_and_finish ::
  "ambient \<Rightarrow> string \<Rightarrow> op_result \<times> queue_db \<Rightarrow> dispatch_state \<times> queue_db" where
  "end_and_finish am u = (\<lambda>(res, db). case res of
     Inl err \<Rightarrow> (Dispatched (Inl err), db) | Inr (terminal, _) \<Rightarrow> finishTerminal am u terminal db)"

definition ending :: "op_end \<Rightarrow> string option \<Rightarrow> end_input" where
  "ending e err = \<lparr>en_end = e, en_observation = None, en_receipt = None, en_error = err, en_failure = None\<rparr>"

definition dispatch_begin :: "ambient \<Rightarrow> string \<Rightarrow> string \<Rightarrow> int \<Rightarrow> queue_db \<Rightarrow> dispatch_state \<times> queue_db" where
  "dispatch_begin am u i now db =
     (case getDetachedOperation (qd_ops db) i of
        None \<Rightarrow> (Dispatched (Inl ''detached_operation_missing''), db)
      | Some r \<Rightarrow>
          if \<not> is_obj (op_request r) then (Dispatched (Inl ''detached_operation_request_invalid''), db)
          else if op_cancel r \<noteq> None \<and> op_state r \<noteq> Op_started
          then end_and_finish am u (on_operations (resolveDetachedOperationCancel i ''capacity-servicer'' None now) db)
          else (Asking r, db))"

definition dispatch_start :: "detached_row \<Rightarrow> int \<Rightarrow> start_input" where
  "dispatch_start r now = \<lparr>sr_proof = ''worker-dispatch:'' @ op_id r @ '':'' @ int_to_string now,
     sr_binding = Some (JObj [(''kind'', JStr ''project.investigate''), (''dispatchedAtMs'', JNum (NInt now))]),
     sr_deadline = Some (op_deadline r)\<rparr>"

definition dispatch_decided ::
  "ambient \<Rightarrow> string \<Rightarrow> detached_row \<Rightarrow> capacity_decision \<Rightarrow> int \<Rightarrow> queue_db \<Rightarrow> dispatch_state \<times> queue_db" where
  "dispatch_decided am u r decision now db =
     (let i = op_id r in
      case decision of
        Unavailable reason probe True \<Rightarrow>
          end_and_finish am u (on_operations (setDetachedOperationTerminal i (ending Oe_failed (Some reason)) now) db)
      | Unavailable reason probe False \<Rightarrow>
          (case on_operations (markDetachedOperationWaiting i \<lparr>wt_reason = reason, wt_probe = probe\<rparr> now) db of
             (Inl err, db1) \<Rightarrow> (Dispatched (Inl err), db1)
           | (Inr (waiting, _), db1) \<Rightarrow>
               let db2 = snd (requeueWorkerUndertakingAfterCapacity u \<lparr>cp_reason = reason, cp_probe = probe\<rparr> now db1)
               in (Dispatched (Inr (case getDetachedOperation (qd_ops db2) i of None \<Rightarrow> waiting | Some q \<Rightarrow> q)), db2))
      | Available \<Rightarrow>
          (case on_operations (markDetachedOperationStarted i (dispatch_start r now) now) db of
             (Inl err, db1) \<Rightarrow>
               if err = ''operation_deadline_exhausted''
               then end_and_finish am u (on_operations
                 (setDetachedOperationTerminal i (ending Oe_failed (Some ''operation_deadline_expired'')) now) db1)
               else (Dispatched (Inl err), db1)
           | (Inr (started, _), db1) \<Rightarrow>
               (Working started, snd (markWorkerUndertakingRunning u (op_id started) (am_later am) db1))))"

text \<open>\<open>persisted\<close> tells whether \<open>persistOrVerifyObservation\<close> stored what the worker found.\<close>

definition dispatch_settled ::
  "ambient \<Rightarrow> string \<Rightarrow> detached_row \<Rightarrow> worker_result \<Rightarrow> bool \<Rightarrow> queue_db \<Rightarrow> dispatch_state \<times> queue_db" where
  "dispatch_settled am u started result persisted db =
     (let i = op_id started;
          e = (case result of
              Worker_threw \<Rightarrow> ending Oe_unknown (Some ''worker_dispatch_failed'')
            | Worker_failed code evidence \<Rightarrow> (ending Oe_failed (Some code))\<lparr>en_failure :=
                (case toSanitizedFailureEvidence evidence of None \<Rightarrow> None | Some v \<Rightarrow> Some (Some v))\<rparr>
            | Worked payload \<Rightarrow> (ending Oe_succeeded None)\<lparr>en_observation :=
                (if persisted then Some (workerObservationId i) else None)\<rparr>)
      in end_and_finish am u (on_operations (setDetachedOperationTerminal i e (am_later am)) db))"

section \<open>The pass\<close>

record report =
  rt_serviced :: "string list"
  rt_failed :: "string list"
  rt_expired :: "string list"
  rt_class :: "worker_origin option"

datatype flight =
    Idle
  | Probe_bound int string detached_row
  | Worker_runs int string detached_row
  | Probe_new int selection
  | Check_commitment int selection

definition serviced :: "string \<Rightarrow> report \<Rightarrow> report" where
  "serviced u rep = rep\<lparr>rt_serviced := rt_serviced rep @ [u]\<rparr>"

definition failed :: "string \<Rightarrow> report \<Rightarrow> report" where
  "failed u rep = rep\<lparr>rt_failed := rt_failed rep @ [u]\<rparr>"

definition after_dispatch ::
  "int \<Rightarrow> string \<Rightarrow> report \<Rightarrow> dispatch_state \<times> queue_db \<Rightarrow> (report \<times> flight) \<times> queue_db" where
  "after_dispatch now u rep = (\<lambda>(d, db). ((case d of
     Dispatched (Inl _) \<Rightarrow> (failed u rep, Idle)
   | Dispatched (Inr _) \<Rightarrow> (serviced u rep, Idle)
   | Asking r \<Rightarrow> (rep, Probe_bound now u r)
   | Working r \<Rightarrow> (rep, Worker_runs now u r)), db))"

definition dispatchBoundWorkerUndertaking ::
  "ambient \<Rightarrow> worker_row \<Rightarrow> int \<Rightarrow> queue_db \<Rightarrow> dispatch_state \<times> queue_db" where
  "dispatchBoundWorkerUndertaking am r now db =
     (case wu_selected r of
        None \<Rightarrow> (Dispatched (Inl []), db)
      | Some i \<Rightarrow> dispatch_begin am (wu_id r) i now
          (if wu_cancel r \<noteq> None then snd (on_operations (requestDetachedOperationCancel i now) db) else db))"

text \<open>Curiosity whose time is over before the start.\<close>

definition expire_prestart :: "int \<Rightarrow> worker_row \<Rightarrow> string list \<times> queue_db \<Rightarrow> string list \<times> queue_db" where
  "expire_prestart now r = (\<lambda>(ids, db).
     if wu_origin r \<noteq> Ashley_curiosity \<or> \<not> (wu_state r = U_queued \<or> wu_state r = U_dispatching) \<or>
        (case wu_expires r of None \<Rightarrow> True | Some t \<Rightarrow> t > now)
     then (ids, db)
     else let operation = selected_operation db r in
       if (case operation of None \<Rightarrow> False | Some d \<Rightarrow> op_state d = Op_started)
       then (ids, snd (markWorkerUndertakingRunning (wu_id r) (op_id (the operation)) now db))
       else let db1 = (case operation of
              None \<Rightarrow> db
            | Some d \<Rightarrow> if op_terminal d \<noteq> None then db
                else snd (on_operations (resolveDetachedOperationCancel (op_id d) ''curiosity-ttl'' None now)
                  (snd (on_operations (requestDetachedOperationCancel (op_id d) now) db))));
            (projected, db2) = projectWorkerUndertakingTerminal (wu_id r) Qe_expired
              (Some ''curiosity_ttl_expired'') now db1
         in ((case projected of None \<Rightarrow> ids | Some q \<Rightarrow> if wu_state q = U_expired then ids @ [wu_id r] else ids), db2))"

definition expirePreStartCuriosity :: "int \<Rightarrow> queue_db \<Rightarrow> string list \<times> queue_db" where
  "expirePreStartCuriosity now db = fold (expire_prestart now) (listWorkerUndertakings db (Some 100) None) ([], db)"

text \<open>
  Undertakings that hold the slot are brought on first. The loop returns from the pass at the first
  whose operation has neither ended nor started.
\<close>

datatype convergence = Went_through report queue_db | Returned "(report \<times> flight) \<times> queue_db"

definition due_probe :: "int \<Rightarrow> detached_row \<Rightarrow> bool" where
  "due_probe now d \<longleftrightarrow> op_state d = Op_admitted \<or>
     op_state d = Op_waiting \<and> (case op_waitProbe d of None \<Rightarrow> True | Some t \<Rightarrow> t \<le> now)"

definition refreshed :: "queue_db \<Rightarrow> worker_row \<Rightarrow> worker_row" where
  "refreshed db r = (case getWorkerUndertaking db (wu_id r) of None \<Rightarrow> r | Some q \<Rightarrow> q)"

fun converge :: "ambient \<Rightarrow> int \<Rightarrow> worker_row list \<Rightarrow> report \<Rightarrow> queue_db \<Rightarrow> convergence" where
  "converge am now [] rep db = Went_through rep db"
| "converge am now (r # rs) rep db =
     (case selected_operation db r of
        None \<Rightarrow> converge am now rs rep db
      | Some d \<Rightarrow>
          let i = op_id d; u = wu_id r;
              db1 = (if wu_cancel (refreshed db r) \<noteq> None \<and> op_terminal d = None
                then snd (on_operations (requestDetachedOperationCancel i now) db) else db)
          in case op_terminal d of
               Some t \<Rightarrow>
                 let db2 = snd (produceOperationCompletion (am_appends am i) i (am_later am) db1);
                     db3 = snd (projectWorkerUndertakingTerminal u (op_end_as t) (op_error d) now db2)
                 in converge am now rs (serviced u rep) db3
             | None \<Rightarrow>
                 if op_state d = Op_started
                 then converge am now rs rep (snd (markWorkerUndertakingRunning u i now db1))
                 else if due_probe now d
                 then Returned (after_dispatch now u rep
                   (dispatchBoundWorkerUndertaking am (refreshed db1 r) now db1))
                 else Returned ((rep, Idle), db1))"

definition mark_others_busy :: "string \<Rightarrow> int \<Rightarrow> queue_db \<Rightarrow> queue_db" where
  "mark_others_busy u now db = db\<lparr>qd_rows := sql_update
     (\<lambda>r. wu_state r = U_queued \<and> wu_id r \<noteq> u \<and> (wu_blocked r = None \<or> wu_blocked r = Some Worker_busy))
     (\<lambda>r. r\<lparr>wu_blocked := Some Worker_busy, wu_updated := now\<rparr>) (qd_rows db)\<rparr>"

definition service_upkeep :: "int \<Rightarrow> queue_db \<Rightarrow> string list \<times> queue_db" where
  "service_upkeep now db =
     (let db1 = snd (repairWorkerExecutionSlot now db);
          (expired1, db2) = expirePreStartCuriosity now db1;
          (expired2, db3) = expireQueuedCuriosity now db2;
          db4 = snd (recoverExpiredDispatchClaims now db3);
          db5 = snd (on_operations (reconcileDetachedOperations now) db4);
          db6 = snd (repairWorkerExecutionSlot now db5)
      in (js_uniq (expired1 @ expired2), db6))"

definition service_limit :: "int option \<Rightarrow> int" where
  "service_limit n = (let k = (case n of None \<Rightarrow> 1 | Some x \<Rightarrow> x) in
     if safe_integer k then max 1 (min 50 k) else 1)"

definition service_begin ::
  "ambient \<Rightarrow> int option \<Rightarrow> int \<Rightarrow> queue_db \<Rightarrow> (report \<times> flight) \<times> queue_db" where
  "service_begin am limit now db =
     (let (expired, db1) = service_upkeep now db;
          rep = \<lparr>rt_serviced = [], rt_failed = [], rt_expired = expired, rt_class = None\<rparr>
      in case converge am now (listDispatchingWorkerUndertakings db1 (service_limit limit)) rep db1 of
           Returned x \<Rightarrow> x
         | Went_through rep db2 \<Rightarrow>
             (case sl_undertaking (getWorkerExecutionSlot db2) of
                Some u \<Rightarrow> ((rep, Idle), mark_others_busy u now db2)
              | None \<Rightarrow> (case selectNextWorkerUndertaking db2 now of
                  None \<Rightarrow> ((rep, Idle), db2) | Some s \<Rightarrow> ((rep, Probe_new now s), db2))))"

definition DETACHED_OPERATION_DEFAULT_DEADLINE_MS :: int where
  "DETACHED_OPERATION_DEFAULT_DEADLINE_MS = 6 * 60 * 60 * 1000"

definition admit_for :: "(string \<Rightarrow> string) \<Rightarrow> worker_row \<Rightarrow> string \<Rightarrow> int \<Rightarrow>
   detached_row list \<Rightarrow> (string + string \<times> bool) \<times> detached_row list" where
  "admit_for sha r c now ops =
     (case admitDetachedOperation sha
        \<lparr>ad_key = detachedIdempotencyKeyForWorkerUndertaking (wu_id r), ad_conversation = c,
         ad_cycle = wu_cycle r, ad_generation = wu_generation r, ad_origin = Some (wu_origin r),
         ad_ref = Some (wu_ref r), ad_ownerEvent = wu_ownerEvent r, ad_evidence = wu_evidence r,
         ad_undertaking = Some (wu_id r), ad_request = wu_request r, ad_purpose = wu_purpose r,
         ad_need = wu_need r, ad_deadline = now + DETACHED_OPERATION_DEFAULT_DEADLINE_MS\<rparr> now ops of
        (Inl err, ops') \<Rightarrow> (Inl err, ops')
      | (Inr (d, created), ops') \<Rightarrow> (Inr (op_id d, created), ops'))"

definition operation_for :: "(string \<Rightarrow> string) \<Rightarrow> string \<Rightarrow> string" where
  "operation_for sha u = detachedOperationIdFor sha (detachedIdempotencyKeyForWorkerUndertaking u)"

definition service_bind ::
  "(string \<Rightarrow> string) \<Rightarrow> ambient \<Rightarrow> selection \<Rightarrow> int \<Rightarrow> report \<Rightarrow> queue_db \<Rightarrow> (report \<times> flight) \<times> queue_db" where
  "service_bind sha am s now rep db =
     (let r = sn_undertaking s; u = wu_id r; c = text_of (wu_conversation r) in
      if \<not> is_obj (wu_request r) \<or> c = []
      then ((failed u rep, Idle), snd (projectWorkerUndertakingTerminal u Qe_failed (Some ''invalid_queue_request'') now db))
      else case bindWorkerUndertakingToOperation
          \<lparr>bn_undertaking = u, bn_operation = operation_for sha u, bn_calendar = sn_index s,
           bn_lease = WORKER_DISPATCH_CLAIM_LEASE_MS\<rparr> (admit_for sha r c now) now db of
        (Inl err, db1) \<Rightarrow>
          if err = ''worker_busy'' then ((rep, Idle), snd (markWorkerUndertakingWorkerBusy u now db1))
          else if err \<noteq> ''undertaking_not_queued'' then ((failed u rep, Idle), db1)
          else ((rep, Idle), db1)
      | (Inr (bound, _), db1) \<Rightarrow> after_dispatch now u rep (dispatchBoundWorkerUndertaking am bound now db1))"

text \<open>\<open>checks\<close> tells whether the option \<open>commitmentCurrent\<close> was given.\<close>

definition service_probed ::
  "(string \<Rightarrow> string) \<Rightarrow> bool \<Rightarrow> ambient \<Rightarrow> selection \<Rightarrow> capacity_decision \<Rightarrow> int \<Rightarrow> report \<Rightarrow> queue_db \<Rightarrow>
   (report \<times> flight) \<times> queue_db" where
  "service_probed sha checks am s decision now rep db =
     (let u = wu_id (sn_undertaking s); rep1 = rep\<lparr>rt_class := Some (sn_class s)\<rparr> in
      case decision of
        Unavailable reason probe True \<Rightarrow>
          ((failed u rep1, Idle), snd (projectWorkerUndertakingTerminal u Qe_failed (Some reason) now db))
      | Unavailable reason probe False \<Rightarrow>
          ((rep1, Idle), snd (markWorkerUndertakingCapacity u \<lparr>cp_reason = reason, cp_probe = probe\<rparr> now db))
      | Available \<Rightarrow>
          if wu_origin (sn_undertaking s) = Ashley_commitment \<and> checks
          then ((rep1, Check_commitment now s), db)
          else service_bind sha am s now rep1 db)"

definition service_checked ::
  "(string \<Rightarrow> string) \<Rightarrow> ambient \<Rightarrow> selection \<Rightarrow> bool \<Rightarrow> int \<Rightarrow> report \<Rightarrow> queue_db \<Rightarrow> (report \<times> flight) \<times> queue_db" where
  "service_checked sha am s current now rep db =
     (let r = sn_undertaking s; u = wu_id r in
      if \<not> current
      then (case supersedeWorkerUndertaking u (''commitment_currentness:'' @ wu_ref r) now db of
          (Inl _, db1) \<Rightarrow> ((failed u rep, Idle), db1) | (Inr _, db1) \<Rightarrow> ((serviced u rep, Idle), db1))
      else service_bind sha am s now rep db)"

end
