(* ===== verification/Detached_Truth.thy ===== *)
theory Detached_Truth
  imports Detached_Ops
begin

text \<open>
  What the table of detached operations promises, whatever sequence of calls is made on it: the
  terminal truth of an operation never changes, its start is recorded once, and only work that was
  started, with a proof, has succeeded or was stopped.
\<close>

section \<open>The rows tell one story\<close>

definition op_ok :: "detached_row \<Rightarrow> bool" where
  "op_ok r \<longleftrightarrow>
     (case op_terminal r of
        None \<Rightarrow> op_terminalAt r = None \<and> (if op_start r = None then unstarted (op_state r) else op_state r = Op_started)
      | Some t \<Rightarrow> op_terminalAt r \<noteq> None \<and> op_state r = end_state t \<and>
          (t = Oe_succeeded \<or> t = Oe_stopped \<longrightarrow> op_start r \<noteq> None)) \<and>
     (op_proof r = None \<longleftrightarrow> op_start r = None) \<and> op_proof r \<noteq> Some [] \<and> op_id r \<noteq> []"

definition op_inv :: "detached_row list \<Rightarrow> bool" where
  "op_inv rows \<longleftrightarrow> op_indexes rows \<and> (\<forall>r \<in> set rows. op_ok r)"

lemma terminal_end_state [simp]: "isTerminalState (end_state t)" "\<not> unstarted (end_state t)" "end_state t \<noteq> Op_started"
  by (cases t; simp add: isTerminalState_def unstarted_def)+

lemma end_state_eq [simp]: "end_state t = Op_succeeded \<longleftrightarrow> t = Oe_succeeded" "end_state t = Op_stopped \<longleftrightarrow> t = Oe_stopped"
  by (cases t; simp)+

lemma unstarted_simps [simp]:
  "unstarted Op_admitted" "unstarted Op_waiting" "\<not> unstarted Op_started" "\<not> isTerminalState Op_started"
  "\<not> unstarted Op_succeeded" "\<not> unstarted Op_stopped"
  "unstarted s \<Longrightarrow> \<not> isTerminalState s"
  by (auto simp: unstarted_def isTerminalState_def)

lemma op_okD:
  assumes "op_ok r"
  shows "isTerminalState (op_state r) \<longleftrightarrow> op_terminal r \<noteq> None"
    and "op_state r = Op_started \<longleftrightarrow> op_terminal r = None \<and> op_start r \<noteq> None"
    and "unstarted (op_state r) \<longleftrightarrow> op_terminal r = None \<and> op_start r = None"
  using assms by (auto simp: op_ok_def split: option.splits if_splits)

text \<open>What a call other than a start may do to a row.\<close>

definition op_keeps :: "detached_row \<Rightarrow> detached_row \<Rightarrow> bool" where
  "op_keeps r r' \<longleftrightarrow> op_id r' = op_id r \<and> op_key r' = op_key r \<and> op_undertaking r' = op_undertaking r \<and>
     op_start r' = op_start r \<and> op_proof r' = op_proof r \<and>
     (op_terminal r \<noteq> None \<longrightarrow> op_terminal r' = op_terminal r \<and> op_terminalAt r' = op_terminalAt r \<and>
        op_state r' = op_state r \<and> op_error r' = op_error r) \<and>
     (op_ok r \<longrightarrow> op_ok r')"

lemma op_keeps_refl [simp]: "op_keeps r r"
  by (simp add: op_keeps_def)

lemma op_keeps_trans: "op_keeps a b \<Longrightarrow> op_keeps b c \<Longrightarrow> op_keeps a c"
  by (auto simp: op_keeps_def)

definition ops_keep :: "detached_row list \<Rightarrow> detached_row list \<Rightarrow> bool" where
  "ops_keep rows rows' \<longleftrightarrow> list_all2 op_keeps rows rows'"

lemma ops_keep_refl [simp]: "ops_keep rows rows"
  by (simp add: ops_keep_def list_all2_refl)

lemma ops_keep_trans: "ops_keep a b \<Longrightarrow> ops_keep b c \<Longrightarrow> ops_keep a c"
  unfolding ops_keep_def by (rule list_all2_trans [OF op_keeps_trans])

lemma ops_keep_update:
  "(\<And>r. r \<in> set rows \<Longrightarrow> P r \<Longrightarrow> op_keeps r (f r)) \<Longrightarrow> ops_keep rows (sql_update P f rows)"
  by (induction rows) (auto simp: ops_keep_def sql_update_def)

lemma ops_keep_map:
  assumes "ops_keep rows rows'"
  shows "map op_id rows' = map op_id rows" "map op_key rows' = map op_key rows"
    "map op_undertaking (filter (\<lambda>r. op_undertaking r \<noteq> None) rows') =
     map op_undertaking (filter (\<lambda>r. op_undertaking r \<noteq> None) rows)"
  using assms unfolding ops_keep_def
  by (induction rule: list_all2_induct) (auto simp: op_keeps_def)

lemma ops_keep_inv: "ops_keep rows rows' \<Longrightarrow> op_inv rows \<Longrightarrow> op_inv rows'"
proof -
  assume keep: "ops_keep rows rows'" and inv: "op_inv rows"
  have "(\<forall>r \<in> set rows. op_ok r) \<longrightarrow> (\<forall>r \<in> set rows'. op_ok r)"
    using keep unfolding ops_keep_def by (induction rule: list_all2_induct) (auto simp: op_keeps_def)
  with inv ops_keep_map [OF keep] show ?thesis by (simp add: op_inv_def op_indexes_def)
qed

lemma ops_keep_get:
  assumes "ops_keep rows rows'" and "getDetachedOperation rows i = Some r"
  shows "\<exists>r'. getDetachedOperation rows' i = Some r' \<and> op_keeps r r'"
  using assms unfolding ops_keep_def getDetachedOperation_def
  by (induction rule: list_all2_induct) (auto simp: op_keeps_def split: if_splits)

lemma ops_keep_get_back:
  assumes "ops_keep rows rows'" and "getDetachedOperation rows' i = Some r'"
  shows "\<exists>r. getDetachedOperation rows i = Some r \<and> op_keeps r r'"
  using assms unfolding ops_keep_def getDetachedOperation_def
  by (induction rule: list_all2_induct) (auto simp: op_keeps_def split: if_splits)

lemma get_operation_eq:
  "op_inv rows \<Longrightarrow> getDetachedOperation rows i = Some r \<longleftrightarrow> r \<in> set rows \<and> op_id r = i"
  unfolding getDetachedOperation_def op_inv_def op_indexes_def
  using sql_get_key [of op_id rows r i] sql_get_SomeD [of "\<lambda>r. op_id r = i" rows r] by auto

lemma get_operation_ok: "op_inv rows \<Longrightarrow> getDetachedOperation rows i = Some r \<Longrightarrow> op_ok r \<and> op_id r = i \<and> r \<in> set rows"
  by (auto simp: get_operation_eq op_inv_def)

lemma get_operation_unique:
  assumes "op_inv rows" "getDetachedOperation rows i = Some r" "q \<in> set rows" "op_id q = i"
  shows "q = r"
  using assms get_operation_eq [OF assms(1), of i q] by simp

section \<open>Every call but a start keeps the truth\<close>

lemma waiting_keeps: "op_inv rows \<Longrightarrow> ops_keep rows (snd (markDetachedOperationWaiting i w now rows))"
  by (auto simp: markDetachedOperationWaiting_def Let_def op_keeps_def to_waiting_def op_ok_def op_inv_def
      split: option.split intro!: ops_keep_update)
 (auto split: option.splits if_splits)

lemma cancel_request_keeps: "ops_keep rows (snd (requestDetachedOperationCancel i now rows))"
  by (auto simp: requestDetachedOperationCancel_def Let_def op_keeps_def op_ok_def
      split: option.split intro!: ops_keep_update)

lemma started_ok: "op_ok r \<Longrightarrow> op_state r = Op_started \<Longrightarrow> op_terminal r = None \<and> op_terminalAt r = None \<and> op_start r \<noteq> None"
  by (auto simp: op_ok_def split: option.splits if_splits)

lemma unstarted_ok: "op_ok r \<Longrightarrow> unstarted (op_state r) \<Longrightarrow> op_terminal r = None \<and> op_terminalAt r = None \<and> op_start r = None"
  by (auto simp: op_ok_def split: option.splits if_splits)

text \<open>A row that has not ended may end, as cancelled, failed or unknown, or in any way once started.\<close>

lemma ends_keeps:
  assumes "op_ok r" "op_terminal r = None"
    and "op_terminal r' = Some t" "op_terminalAt r' \<noteq> None" "op_state r' = end_state t"
    and "t = Oe_succeeded \<or> t = Oe_stopped \<Longrightarrow> op_start r \<noteq> None"
    and "op_id r' = op_id r" "op_key r' = op_key r" "op_undertaking r' = op_undertaking r"
      "op_start r' = op_start r" "op_proof r' = op_proof r"
  shows "op_keeps r r'"
  using assms by (auto simp: op_keeps_def op_ok_def)

lemma terminal_keeps:
  assumes "op_inv rows"
  shows "ops_keep rows (snd (setDetachedOperationTerminal i e now rows))"
proof -
  have "op_keeps q (to_ended e now q)"
    if "q \<in> set rows" "op_state q = op_state r" "\<not> isTerminalState (op_state r)"
      "end_allowed (op_state r) (en_end e)" for q r
  proof -
    have ok: "op_ok q" using assms that(1) by (simp add: op_inv_def)
    then have open_row: "op_terminal q = None" using that op_okD(1) [OF ok] by simp
    moreover have "en_end e = Oe_succeeded \<or> en_end e = Oe_stopped \<Longrightarrow> op_start q \<noteq> None"
      using that(2,4) open_row op_okD(2,3) [OF ok] by (auto simp: end_allowed_def split: if_splits)
    ultimately show ?thesis
      using ok by (intro ends_keeps [where t = "en_end e"]) (auto simp: to_ended_def)
  qed
  then show ?thesis
    by (auto simp: setDetachedOperationTerminal_def Let_def split: option.split intro!: ops_keep_update)
qed

lemma resolve_keeps:
  assumes "op_inv rows"
  shows "ops_keep rows (snd (resolveDetachedOperationCancel i c p now rows))"
proof -
  have ok: "op_ok q" if "q \<in> set rows" for q using assms that by (simp add: op_inv_def)
  have "op_keeps q (to_cancelled now q)" if "q \<in> set rows" "unstarted (op_state q)" for q
    using ok [OF that(1)] unstarted_ok [OF ok [OF that(1)] that(2)]
    by (intro ends_keeps [where t = Oe_cancelled]) (auto simp: to_cancelled_def)
  moreover have "op_keeps q (to_stopped now q)" if "q \<in> set rows" "op_state q = Op_started" for q
    using ok [OF that(1)] started_ok [OF ok [OF that(1)] that(2)]
    by (intro ends_keeps [where t = Oe_stopped]) (auto simp: to_stopped_def)
  ultimately show ?thesis
    by (auto simp: resolveDetachedOperationCancel_def Let_def split: option.split intro!: ops_keep_update)
qed

lemma supersede_keeps:
  assumes "op_inv rows"
  shows "ops_keep rows (snd (supersedeDetachedOperation i b s now rows))"
proof -
  have ok: "op_ok q" if "q \<in> set rows" for q using assms that by (simp add: op_inv_def)
  have "op_keeps q (cancel_superseded b s now q)" if "q \<in> set rows" "unstarted (op_state q)" for q
    using ok [OF that(1)] unstarted_ok [OF ok [OF that(1)] that(2)]
    by (intro ends_keeps [where t = Oe_cancelled])
      (auto simp: cancel_superseded_def mark_superseded_def coalesce_def)
  moreover have "op_keeps q (mark_superseded b s now q)" for q
    by (cases "op_terminal q") (auto simp: mark_superseded_def op_keeps_def op_ok_def)
  ultimately show ?thesis
    by (auto simp: supersedeDetachedOperation_def Let_def split: option.split intro!: ops_keep_update)
qed

lemma expire_keeps:
  assumes "op_inv rows"
  shows "ops_keep rows (expire_operation now i rows)"
proof -
  have "op_keeps q (to_expired now q)" if "q \<in> set rows" "op_state q = Op_started" for q
  proof -
    have ok: "op_ok q" using assms that by (simp add: op_inv_def)
    show ?thesis using ok started_ok [OF ok that(2)]
      by (intro ends_keeps [where t = Oe_unknown]) (auto simp: to_expired_def)
  qed
  then show ?thesis
    by (auto simp: expire_operation_def split: option.split intro!: ops_keep_update)
qed

lemma reconcile_keeps:
  assumes "op_inv rows"
  shows "ops_keep rows (snd (reconcileDetachedOperations now rows))"
proof -
  have "ops_keep rows (fold (expire_operation now) ids rows)" for ids
    using assms
  proof (induction ids arbitrary: rows)
    case (Cons i ids)
    have "ops_keep rows (expire_operation now i rows)" by (rule expire_keeps [OF Cons.prems])
    with Cons.IH [OF ops_keep_inv [OF this Cons.prems]] show ?case
      by (auto intro: ops_keep_trans)
  qed simp
  then show ?thesis by (simp add: reconcileDetachedOperations_def Let_def)
qed
section \<open>Start and admission\<close>

text \<open>A start: one row that was neither started nor ended is now started, with its proof.\<close>

definition op_starts :: "detached_row \<Rightarrow> detached_row \<Rightarrow> bool" where
  "op_starts r r' \<longleftrightarrow> op_id r' = op_id r \<and> op_key r' = op_key r \<and> op_undertaking r' = op_undertaking r \<and>
     op_terminal r = None \<and> op_start r = None \<and> op_terminal r' = None \<and> op_start r' \<noteq> None \<and> op_ok r'"

definition ops_start :: "string \<Rightarrow> detached_row list \<Rightarrow> detached_row list \<Rightarrow> bool" where
  "ops_start i rows rows' \<longleftrightarrow> i \<in> set (map op_id rows) \<and>
     list_all2 (\<lambda>r r'. if op_id r = i then op_starts r r' else r' = r) rows rows'"

lemma ops_start_map:
  assumes "ops_start i rows rows'"
  shows "map op_id rows' = map op_id rows" "map op_key rows' = map op_key rows"
    "map op_undertaking (filter (\<lambda>r. op_undertaking r \<noteq> None) rows') =
     map op_undertaking (filter (\<lambda>r. op_undertaking r \<noteq> None) rows)"
proof -
  from assms have all: "list_all2 (\<lambda>r r'. if op_id r = i then op_starts r r' else r' = r) rows rows'"
    by (simp add: ops_start_def)
  then show "map op_id rows' = map op_id rows"
    by (induction rule: list_all2_induct) (auto simp: op_starts_def split: if_splits)
  from all show "map op_key rows' = map op_key rows"
    by (induction rule: list_all2_induct) (auto simp: op_starts_def split: if_splits)
  from all show "map op_undertaking (filter (\<lambda>r. op_undertaking r \<noteq> None) rows') =
     map op_undertaking (filter (\<lambda>r. op_undertaking r \<noteq> None) rows)"
    by (induction rule: list_all2_induct) (auto simp: op_starts_def split: if_splits)
qed

lemma ops_start_inv:
  assumes "ops_start i rows rows'" "op_inv rows"
  shows "op_inv rows'"
proof -
  have "list_all2 (\<lambda>r r'. if op_id r = i then op_starts r r' else r' = r) rows rows'"
    using assms(1) by (simp add: ops_start_def)
  then have "(\<forall>r \<in> set rows. op_ok r) \<longrightarrow> (\<forall>r \<in> set rows'. op_ok r)"
    by (induction rule: list_all2_induct) (auto simp: op_starts_def split: if_splits)
  with assms(2) ops_start_map [OF assms(1)] show ?thesis by (simp add: op_inv_def op_indexes_def)
qed

lemma ops_start_get:
  assumes "ops_start i rows rows'" "getDetachedOperation rows j = Some r"
  shows "\<exists>r'. getDetachedOperation rows' j = Some r' \<and> (if j = i then op_starts r r' else r' = r)"
proof -
  have "list_all2 (\<lambda>r r'. if op_id r = i then op_starts r r' else r' = r) rows rows'"
    using assms(1) by (simp add: ops_start_def)
  then show ?thesis
    using assms(2) unfolding getDetachedOperation_def
    by (induction rule: list_all2_induct) (auto simp: op_starts_def split: if_splits)
qed

lemma list_all2_update:
  "(\<And>r. r \<in> set rows \<Longrightarrow> if P r then M r (f r) else M r r) \<Longrightarrow> list_all2 M rows (sql_update P f rows)"
  by (induction rows) (auto simp: sql_update_def split: if_splits)

lemma start_result:
  assumes "op_inv rows" "markDetachedOperationStarted i s now rows = (res, rows')"
  obtains (refused) err where "res = Inl err" "rows' = rows"
    | (started) r r' where "getDetachedOperation rows i = Some r" "unstarted (op_state r)" "r' = to_started s now r"
        "res = Inr (r', False)" "getDetachedOperation rows' i = Some r'" "ops_start i rows rows'"
        "now < op_deadline r"
proof -
  let ?rows = "sql_update (\<lambda>r. op_id r = i \<and> unstarted (op_state r)) (to_started s now) rows"
  consider (no) err where "res = Inl err" "rows' = rows"
    | (yes) r where "getDetachedOperation rows i = Some r" "unstarted (op_state r)" "sr_proof s \<noteq> []" "i \<noteq> []"
        "now < op_deadline r"
        "res = reread ?rows i (\<lambda>r. op_state r = Op_started) ''detached_operation_transition_invalid''" "rows' = ?rows"
  proof (cases "getDetachedOperation rows i")
    case None
    with assms(2) no show ?thesis by (auto simp: markDetachedOperationStarted_def split: if_splits)
  next
    case (Some r)
    show ?thesis
    proof (cases "i = [] \<or> sr_proof s = [] \<or> \<not> safeMs now \<or> isTerminalState (op_state r) \<or> \<not> unstarted (op_state r) \<or>
        op_deadline r \<le> now \<or> (case sr_deadline s of None \<Rightarrow> False | Some d \<Rightarrow> d \<noteq> op_deadline r)")
      case True
      with assms(2) Some no show ?thesis by (auto simp: markDetachedOperationStarted_def split: if_splits)
    next
      case False
      with Some have "markDetachedOperationStarted i s now rows =
          (reread ?rows i (\<lambda>r. op_state r = Op_started) ''detached_operation_transition_invalid'', ?rows)"
        by (simp add: markDetachedOperationStarted_def Let_def)
      with assms(2) have "res = reread ?rows i (\<lambda>r. op_state r = Op_started) ''detached_operation_transition_invalid''"
        "rows' = ?rows" by auto
      with False Some show ?thesis by (intro yes) (auto simp: not_le)
    qed
  qed
  then show ?thesis
  proof cases
    case no
    then show ?thesis by (rule refused)
  next
    case yes
    have get: "getDetachedOperation ?rows i = Some (to_started s now r)"
      using yes(1,2) unfolding getDetachedOperation_def
      by (subst sql_get_update) (auto simp: to_started_def dest: sql_get_SomeD)
    have "op_starts q (to_started s now q)" if "q \<in> set rows" "op_id q = i" "unstarted (op_state q)" for q
    proof -
      have ok: "op_ok q" using assms(1) that(1) by (simp add: op_inv_def)
      from ok unstarted_ok [OF ok that(3)] yes(3) show ?thesis
        by (auto simp: op_starts_def to_started_def op_ok_def)
    qed
    moreover have "unstarted (op_state q)" if "q \<in> set rows" "op_id q = i" for q
      using get_operation_unique [OF assms(1) yes(1) that] yes(2) by simp
    moreover have "i \<in> set (map op_id rows)"
      using get_operation_ok [OF assms(1) yes(1)] by auto
    ultimately have "ops_start i rows ?rows"
      unfolding ops_start_def by (auto intro!: list_all2_update)
    then show ?thesis
      using started [OF yes(1,2) refl] yes get
      by (simp add: reread_def to_started_def)
  qed
qed

lemma operation_id_not_Nil [simp]: "detachedOperationIdFor sha k \<noteq> []"
  by (simp add: detachedOperationIdFor_def)

lemma admitted_row_ok: "i \<noteq> [] \<Longrightarrow> op_ok (admitted_row i a now)"
  by (simp add: op_ok_def admitted_row_def)

lemma admit_result:
  assumes "op_inv rows" "admitDetachedOperation sha a now rows = (res, rows')"
  obtains (refused) err where "res = Inl err" "rows' = rows"
    | (present) r where "res = Inr (r, False)" "rows' = rows" "r \<in> set rows" "op_key r = ad_key a"
    | (admitted) r where "r = admitted_row (detachedOperationIdFor sha (ad_key a)) a now" "res = Inr (r, True)"
        "rows' = rows @ [r]" "op_inv rows'" "getByIdempotencyKey rows (ad_key a) = None"
proof -
  let ?i = "detachedOperationIdFor sha (ad_key a)"
  let ?r = "admitted_row ?i a now"
  consider (no) err where "res = Inl err" "rows' = rows"
    | (old) r where "getByIdempotencyKey rows (ad_key a) = Some r" "res = Inr (r, False)" "rows' = rows"
    | (new) "getByIdempotencyKey rows (ad_key a) = None" "insert_operation ?r rows = Inr rows'"
        "res = (case getDetachedOperation rows' ?i of None \<Rightarrow> Inl ''operation_admission_failed'' | Some r \<Rightarrow> Inr (r, True))"
  proof (cases "invalid_admission a now")
    case True
    with assms(2) no show ?thesis by (auto simp: admitDetachedOperation_def)
  next
    case valid: False
    show ?thesis
    proof (cases "getByIdempotencyKey rows (ad_key a)")
      case (Some r)
      with valid have "admitDetachedOperation sha a now rows = (Inr (r, False), rows)"
        by (simp add: admitDetachedOperation_def)
      with assms(2) Some show ?thesis by (intro old) auto
    next
      case None
      show ?thesis
      proof (cases "insert_operation ?r rows")
        case (Inl err)
        with valid None have "admitDetachedOperation sha a now rows = (Inl ''operation_admission_failed'', rows)"
          by (simp add: admitDetachedOperation_def Let_def)
        with assms(2) show ?thesis by (intro no) auto
      next
        case (Inr rows1)
        with valid None have "admitDetachedOperation sha a now rows = (case getDetachedOperation rows1 ?i of
            None \<Rightarrow> (Inl ''operation_admission_failed'', rows1) | Some r \<Rightarrow> (Inr (r, True), rows1))"
          by (simp add: admitDetachedOperation_def Let_def)
        with assms(2) have "rows' = rows1" "res = (case getDetachedOperation rows1 ?i of
            None \<Rightarrow> Inl ''operation_admission_failed'' | Some r \<Rightarrow> Inr (r, True))"
          by (auto split: option.splits)
        with Inr None show ?thesis by (intro new) auto
      qed
    qed
  qed
  then show ?thesis
  proof cases
    case no
    then show ?thesis by (rule refused)
  next
    case old
    then show ?thesis
      using present sql_get_SomeD [OF old(1) [unfolded getByIdempotencyKey_def]] by blast
  next
    case new
    from new(2) have rows': "rows' = rows @ [?r]" and ix: "op_indexes rows'"
      by (auto simp: insert_operation_def and_then_eq_Inr split: if_splits)
    have inv: "op_inv rows'"
      using assms(1) ix admitted_row_ok [of ?i a now] unfolding rows' op_inv_def by simp
    have "op_id ?r = ?i" by (simp add: admitted_row_def)
    then have "getDetachedOperation rows' ?i = Some ?r"
      using get_operation_eq [OF inv, of ?i ?r] rows' by simp
    with new admitted [OF refl _ rows' inv] show ?thesis by simp
  qed
qed

section \<open>Any sequence of calls\<close>

inductive op_step :: "(string \<Rightarrow> string) \<Rightarrow> detached_row list \<Rightarrow> detached_row list \<Rightarrow> bool"
  for sha :: "string \<Rightarrow> string" where
  os_admit: "op_step sha rows (snd (admitDetachedOperation sha a now rows))"
| os_start: "op_step sha rows (snd (markDetachedOperationStarted i s now rows))"
| os_wait: "op_step sha rows (snd (markDetachedOperationWaiting i w now rows))"
| os_end: "op_step sha rows (snd (setDetachedOperationTerminal i e now rows))"
| os_cancel: "op_step sha rows (snd (requestDetachedOperationCancel i now rows))"
| os_resolve: "op_step sha rows (snd (resolveDetachedOperationCancel i c p now rows))"
| os_supersede: "op_step sha rows (snd (supersedeDetachedOperation i b s now rows))"
| os_reconcile: "op_step sha rows (snd (reconcileDetachedOperations now rows))"
| os_reference: "op_step sha rows (sql_update (\<lambda>r. op_id r = i)
     (\<lambda>r. r\<lparr>op_interim := interim, op_completion := completion, op_updated := now\<rparr>) rows)"

text \<open>What one step does: it keeps every row, adds one that has not started, or starts one.\<close>

lemma op_step_cases:
  assumes "op_step sha rows rows'" "op_inv rows"
  obtains (keep) "ops_keep rows rows'"
    | (start) i where "ops_start i rows rows'"
    | (admit) r where "rows' = rows @ [r]" "op_inv rows'" "op_start r = None" "op_terminal r = None"
  using assms(1)
proof cases
  case (os_admit a now)
  obtain res where "admitDetachedOperation sha a now rows = (res, rows')" using os_admit by (metis prod.collapse)
  from admit_result [OF assms(2) this] show ?thesis
    by cases (auto intro: keep admit simp: admitted_row_def)
next
  case (os_start i s now)
  obtain res where "markDetachedOperationStarted i s now rows = (res, rows')" using os_start by (metis prod.collapse)
  from start_result [OF assms(2) this] show ?thesis by cases (auto intro: keep start)
next
  case (os_reference i now completion interim)
  have "op_keeps r (r\<lparr>op_interim := interim, op_completion := completion, op_updated := now\<rparr>)" for r
    by (cases "op_terminal r") (auto simp: op_keeps_def op_ok_def)
  then show ?thesis using os_reference by (auto intro!: keep ops_keep_update)
qed (auto intro!: keep waiting_keeps terminal_keeps cancel_request_keeps resolve_keeps supersede_keeps
  reconcile_keeps assms(2))

lemma op_step_inv: "op_inv rows \<Longrightarrow> op_step sha rows rows' \<Longrightarrow> op_inv rows'"
  by (erule op_step_cases) (auto intro: ops_keep_inv ops_start_inv)

interpretation op_table: preserved "op_step sha" op_inv
  by unfold_locales (rule op_step_inv)

text \<open>What is on record of an operation: its start and its end.\<close>

definition op_record :: "detached_row \<Rightarrow> (int \<times> string) option \<times> (op_end \<times> int \<times> string option) option" where
  "op_record r =
     (case op_start r of None \<Rightarrow> None | Some t \<Rightarrow> Some (t, text_of (op_proof r)),
      case op_terminal r of None \<Rightarrow> None | Some e \<Rightarrow> Some (e, the (op_terminalAt r), op_error r))"

definition record_grows ::
  "(int \<times> string) option \<times> (op_end \<times> int \<times> string option) option \<Rightarrow>
   (int \<times> string) option \<times> (op_end \<times> int \<times> string option) option \<Rightarrow> bool" where
  "record_grows a b \<longleftrightarrow> (fst a \<noteq> None \<longrightarrow> fst b = fst a) \<and> (snd a \<noteq> None \<longrightarrow> snd b = snd a)"

lemma record_grows_trans: "record_grows\<^sup>*\<^sup>* a b \<Longrightarrow> record_grows a b"
  by (induction rule: rtranclp_induct) (auto simp: record_grows_def)

lemma keeps_record: "op_keeps r r' \<Longrightarrow> record_grows (op_record r) (op_record r')"
  by (auto simp: op_keeps_def record_grows_def op_record_def split: option.splits)

lemma starts_record: "op_starts r r' \<Longrightarrow> record_grows (op_record r) (op_record r')"
  by (auto simp: op_starts_def record_grows_def op_record_def)

lemma op_step_record:
  assumes "op_step sha rows rows'" "op_inv rows" "getDetachedOperation rows i = Some r"
  shows "\<exists>r'. getDetachedOperation rows' i = Some r' \<and> record_grows (op_record r) (op_record r')"
  using assms(1,2)
proof (cases rule: op_step_cases)
  case keep
  from ops_keep_get [OF keep assms(3)] show ?thesis by (auto dest: keeps_record)
next
  case (start j)
  from ops_start_get [OF start assms(3)] show ?thesis
    by (auto dest: starts_record split: if_splits simp: record_grows_def)
next
  case (admit q)
  have "getDetachedOperation rows' i = Some r"
    using assms(3) unfolding admit(1) getDetachedOperation_def by (simp add: sql_get_append)
  then show ?thesis by (auto simp: record_grows_def)
qed

interpretation operations: record_lifecycle
  "\<lambda>rows rows'. op_step sha rows rows' \<and> op_inv rows"
  "\<lambda>rows i. map_option op_record (getDetachedOperation rows i)" record_grows
proof unfold_locales
  fix rows rows' i and s :: "(int \<times> string) option \<times> (op_end \<times> int \<times> string option) option"
  assume step: "op_step sha rows rows' \<and> op_inv rows"
    and s: "map_option op_record (getDetachedOperation rows i) = Some s"
  then obtain r where "getDetachedOperation rows i = Some r" "s = op_record r" by auto
  with step op_step_record show "\<exists>s'. map_option op_record (getDetachedOperation rows' i) = Some s' \<and> record_grows\<^sup>*\<^sup>* s s'"
    by fastforce
qed

lemma op_steps_inv:
  "(op_step sha)\<^sup>*\<^sup>* rows rows' \<Longrightarrow> op_inv rows \<Longrightarrow> (\<lambda>a b. op_step sha a b \<and> op_inv a)\<^sup>*\<^sup>* rows rows'"
proof (induction rule: rtranclp_induct)
  case (step b c)
  then show ?case using op_table.steps_inv by (metis (no_types, lifting) rtranclp.rtrancl_into_rtrancl)
qed simp

lemma op_inv_Nil: "op_inv []"
  by (simp add: op_inv_def op_indexes_def)

text \<open>
  C16. The truth of a detached operation. Whatever calls are made, in any order and with any arguments,
  an operation that ended keeps its end, its time and its error, one that was started keeps its start
  and its proof, and an operation that has succeeded or was stopped was started, with a proof.
\<close>

theorem detached_truth:
  assumes "(op_step sha)\<^sup>*\<^sup>* [] rows" and "(op_step sha)\<^sup>*\<^sup>* rows rows'" and "getDetachedOperation rows i = Some r"
  shows "\<exists>r'. getDetachedOperation rows' i = Some r' \<and>
    (if op_terminal r = None then True else op_terminal r' = op_terminal r \<and> op_state r' = op_state r \<and>
       op_terminalAt r' = op_terminalAt r \<and> op_error r' = op_error r) \<and>
    (if op_start r = None then True else op_start r' = op_start r \<and> op_proof r' = op_proof r) \<and>
    (if op_state r' = Op_succeeded \<or> op_state r' = Op_stopped
     then op_start r' \<noteq> None \<and> text_of (op_proof r') \<noteq> [] else True)"
proof -
  have inv: "op_inv rows" using assms(1) op_inv_Nil by (rule op_table.steps_inv)
  have inv': "op_inv rows'" using assms(2) inv by (rule op_table.steps_inv)
  from operations.never_lost [OF op_steps_inv [OF assms(2) inv], of i] assms(3)
  obtain r' where r': "getDetachedOperation rows' i = Some r'" "record_grows (op_record r) (op_record r')"
    by (auto dest: record_grows_trans)
  have ok: "op_ok r" "op_ok r'" using get_operation_ok inv inv' assms(3) r'(1) by blast+
  have "op_state r' = op_state r \<and> op_terminalAt r' = op_terminalAt r"
    if "op_terminal r \<noteq> None" "op_terminal r' = op_terminal r" "the (op_terminalAt r') = the (op_terminalAt r)"
    using ok that by (auto simp: op_ok_def)
  moreover have "op_proof r' = op_proof r"
    if "op_start r \<noteq> None" "op_start r' = op_start r" "text_of (op_proof r') = text_of (op_proof r)"
    using ok that by (auto simp: op_ok_def text_of_def split: option.splits)
  ultimately show ?thesis
    using r' ok by (auto simp: record_grows_def op_record_def op_ok_def text_of_def split: option.splits if_splits)
qed

text \<open>An investigation that is admitted, started and then stopped on request.\<close>

definition sample_op_admission :: admit_input where
  "sample_op_admission = \<lparr>ad_key = ''k'', ad_conversation = ''c'', ad_cycle = ''y'', ad_generation = 1,
     ad_origin = Some Ashley_curiosity, ad_ref = Some ''r'', ad_ownerEvent = None, ad_evidence = None,
     ad_undertaking = Some ''u'', ad_request = JObj [(''projectId'', JStr ''p'')], ad_purpose = ''look'',
     ad_need = ''facts'', ad_deadline = 1000\<rparr>"

definition sample_op :: string where
  "sample_op = detachedOperationIdFor (\<lambda>s. s) ''k''"

definition sample_started :: "detached_row list" where
  "sample_started = snd (markDetachedOperationStarted sample_op
     \<lparr>sr_proof = ''proof'', sr_binding = None, sr_deadline = None\<rparr> 5
     (snd (admitDetachedOperation (\<lambda>s. s) sample_op_admission 1 [])))"

definition sample_stopped :: "detached_row list" where
  "sample_stopped = snd (resolveDetachedOperationCancel sample_op ''owner'' (Some ''stop'') 9 sample_started)"

lemma sample_ops_reachable:
  "(op_step (\<lambda>s. s))\<^sup>*\<^sup>* [] sample_started" "(op_step (\<lambda>s. s))\<^sup>*\<^sup>* sample_started sample_stopped"
proof -
  have "op_step (\<lambda>s. s) [] (snd (admitDetachedOperation (\<lambda>s. s) sample_op_admission 1 []))" by (rule os_admit)
  then show "(op_step (\<lambda>s. s))\<^sup>*\<^sup>* [] sample_started"
    unfolding sample_started_def by (meson os_start rtranclp.rtrancl_into_rtrancl r_into_rtranclp)
  show "(op_step (\<lambda>s. s))\<^sup>*\<^sup>* sample_started sample_stopped"
    unfolding sample_stopped_def by (blast intro: os_resolve)
qed

lemma sample_ops_facts:
  "map_option (\<lambda>r. (op_start r, op_terminal r)) (getDetachedOperation sample_started sample_op) = Some (Some 5, None)"
  "map_option (\<lambda>r. (op_state r, op_terminalAt r)) (getDetachedOperation sample_stopped sample_op) = Some (Op_stopped, Some 9)"
  by code_simp+

theorem detached_truth_witness:
  "\<exists>r'. getDetachedOperation sample_stopped sample_op = Some r' \<and> op_state r' = Op_stopped \<and>
     op_start r' = Some 5 \<and> text_of (op_proof r') \<noteq> []"
proof -
  obtain r where r: "getDetachedOperation sample_started sample_op = Some r" "op_start r = Some 5"
    using sample_ops_facts(1) by auto
  from detached_truth [OF sample_ops_reachable r(1)] sample_ops_facts(2) r(2) show ?thesis by auto
qed

end
