(* ===== verification/Worker_Changes.thy ===== *)
theory Worker_Changes
  imports Worker_Dispatch Detached_Truth
begin

text \<open>
  The invariant of the worker queue and the single changes its operations are made of. An undertaking
  holds the execution slot exactly while it is dispatching or running; its operation is its own; what
  waits in the queue is not running, and what succeeded has an operation that succeeded.
\<close>

section \<open>The invariant\<close>

definition find_undertaking :: "queue_db \<Rightarrow> string \<Rightarrow> worker_row option" where
  "find_undertaking db u = sql_get (\<lambda>r. wu_id r = u) (qd_rows db)"

definition row_ok :: "queue_db \<Rightarrow> worker_row \<Rightarrow> bool" where
  "row_ok db r \<longleftrightarrow> \<not> blank (wu_id r) \<and>
     (\<forall>i. wu_selected r = Some i \<longrightarrow>
        (\<exists>d. getDetachedOperation (qd_ops db) i = Some d \<and> op_undertaking d = Some (wu_id r))) \<and>
     (holding (wu_state r) \<longleftrightarrow> sl_undertaking (qd_slot db) = Some (wu_id r)) \<and>
     (holding (wu_state r) \<or> wu_state r = U_succeeded \<longrightarrow> wu_selected r \<noteq> None) \<and>
     (\<forall>d. selected_operation db r = Some d \<longrightarrow>
        (wu_state r = U_queued \<longrightarrow> op_state d \<noteq> Op_started) \<and>
        (wu_state r = U_running \<longrightarrow> op_start d \<noteq> None) \<and>
        (wu_state r = U_succeeded \<longrightarrow> op_terminal d = Some Oe_succeeded))"

definition key_link :: "detached_row \<Rightarrow> bool" where
  "key_link d \<longleftrightarrow> (\<forall>u. op_key d = detachedIdempotencyKeyForWorkerUndertaking u \<longrightarrow> op_undertaking d = Some u)"

definition queue_inv :: "queue_db \<Rightarrow> bool" where
  "queue_inv db \<longleftrightarrow> op_inv (qd_ops db) \<and> (\<forall>d \<in> set (qd_ops db). key_link d) \<and>
     undertaking_indexes (qd_rows db) \<and> list_all undertaking_check (qd_rows db) \<and>
     (\<forall>r \<in> set (qd_rows db). row_ok db r) \<and>
     (\<forall>u. sl_undertaking (qd_slot db) = Some u \<longrightarrow> u \<in> wu_id ` set (qd_rows db)) \<and>
     nonterminal_count db \<le> MAX_NONTERMINAL_WORKER_UNDERTAKINGS \<and> pending_curiosity db \<le> MAX_PENDING_CURIOSITY \<and>
     0 \<le> qd_cursor db \<and> qd_cursor db < int (length WORKER_SERVICE_CALENDAR) \<and> distinct (qd_inbox db)"

definition started_ops :: "queue_db \<Rightarrow> string set" where
  "started_ops db = {i. \<exists>d. getDetachedOperation (qd_ops db) i = Some d \<and> op_start d \<noteq> None}"

section \<open>Changes\<close>

definition pending :: "undertaking_state \<Rightarrow> bool" where
  "pending s \<longleftrightarrow> s = U_queued \<or> s = U_dispatching"

text \<open>What a change leaves of a row, and the state it may bring it to.\<close>

definition row_moves :: "worker_row \<Rightarrow> worker_row \<Rightarrow> bool" where
  "row_moves r r' \<longleftrightarrow> wu_id r' = wu_id r \<and> wu_key r' = wu_key r \<and> wu_origin r' = wu_origin r \<and>
     wu_ref r' = wu_ref r \<and> wu_ownerEvent r' = wu_ownerEvent r \<and> wu_expires r' = wu_expires r \<and>
     (wu_selected r \<noteq> None \<longrightarrow> wu_selected r' = wu_selected r) \<and>
     (active (wu_state r') \<longrightarrow> active (wu_state r)) \<and> (pending (wu_state r') \<longrightarrow> pending (wu_state r)) \<and>
     (\<not> active (wu_state r) \<longrightarrow> wu_state r' = wu_state r \<and> wu_reason r' = wu_reason r)"

definition slot_follows :: "worker_row \<Rightarrow> worker_row \<Rightarrow> slot_row \<Rightarrow> slot_row \<Rightarrow> bool" where
  "slot_follows r r' s s' \<longleftrightarrow>
     sl_undertaking s' = (if holding (wu_state r') then Some (wu_id r)
       else if holding (wu_state r) then None else sl_undertaking s) \<and>
     (holding (wu_state r') \<and> \<not> holding (wu_state r) \<longrightarrow> sl_undertaking s = None)"

definition row_quiet :: "worker_row \<Rightarrow> worker_row \<Rightarrow> bool" where
  "row_quiet r r' \<longleftrightarrow> row_moves r r' \<and> wu_state r' = wu_state r \<and> wu_selected r' = wu_selected r"

definition put_row :: "string \<Rightarrow> worker_row \<Rightarrow> queue_db \<Rightarrow> queue_db" where
  "put_row u r' db = db\<lparr>qd_rows := sql_update (\<lambda>r. wu_id r = u) (\<lambda>_. r') (qd_rows db)\<rparr>"

inductive queue_change :: "queue_db \<Rightarrow> queue_db \<Rightarrow> bool" where
  qc_row: "find_undertaking db u = Some r \<Longrightarrow> row_moves r r' \<Longrightarrow> slot_follows r r' (qd_slot db) slot' \<Longrightarrow>
     0 \<le> c \<Longrightarrow> c < int (length WORKER_SERVICE_CALENDAR) \<Longrightarrow>
     db' = (put_row u r' db)\<lparr>qd_slot := slot', qd_cursor := c\<rparr> \<Longrightarrow> row_ok db' r' \<Longrightarrow>
     undertaking_indexes (qd_rows db') \<Longrightarrow> queue_change db db'"
| qc_quiet: "list_all2 row_quiet (qd_rows db) rows \<Longrightarrow> queue_change db (db\<lparr>qd_rows := rows\<rparr>)"
| qc_keep: "ops_keep (qd_ops db) ops \<Longrightarrow> queue_change db (db\<lparr>qd_ops := ops\<rparr>)"
| qc_admit: "op_inv (qd_ops db @ [d]) \<Longrightarrow> op_start d = None \<Longrightarrow> op_terminal d = None \<Longrightarrow> key_link d \<Longrightarrow>
     queue_change db (db\<lparr>qd_ops := qd_ops db @ [d]\<rparr>)"
| qc_enqueue: "undertaking_indexes (qd_rows db @ [r]) \<Longrightarrow> undertaking_check r \<Longrightarrow> wu_state r = U_queued \<Longrightarrow>
     wu_selected r = None \<Longrightarrow> \<not> blank (wu_id r) \<Longrightarrow> nonterminal_count db < MAX_NONTERMINAL_WORKER_UNDERTAKINGS \<Longrightarrow>
     (wu_origin r = Ashley_curiosity \<Longrightarrow> pending_curiosity db < MAX_PENDING_CURIOSITY) \<Longrightarrow>
     queue_change db (db\<lparr>qd_rows := qd_rows db @ [r]\<rparr>)"
| qc_inbox: "distinct es \<Longrightarrow> queue_change db (db\<lparr>qd_inbox := es\<rparr>)"

section \<open>Reading the tables\<close>

lemma find_undertaking_eq:
  "queue_inv db \<Longrightarrow> find_undertaking db u = Some r \<longleftrightarrow> r \<in> set (qd_rows db) \<and> wu_id r = u"
  unfolding find_undertaking_def queue_inv_def undertaking_indexes_def
  using sql_get_key [of wu_id "qd_rows db" r u] sql_get_SomeD [of "\<lambda>r. wu_id r = u" "qd_rows db" r] by auto

lemma find_row_ok: "queue_inv db \<Longrightarrow> find_undertaking db u = Some r \<Longrightarrow> row_ok db r \<and> wu_id r = u \<and> \<not> blank u"
  using find_undertaking_eq [of db u r] by (auto simp: queue_inv_def row_ok_def)

lemma nullable_id [simp]: "text_of s \<noteq> [] \<Longrightarrow> nullableString s = s" "nullableString None = None"
  by (simp_all add: nullableString_def)

lemma selected_text:
  assumes "queue_inv db" "row_ok db r"
  shows "nullableString (wu_selected r) = wu_selected r"
proof (cases "wu_selected r")
  case (Some i)
  with assms obtain d where "getDetachedOperation (qd_ops db) i = Some d" by (auto simp: row_ok_def)
  with assms(1) have "i \<noteq> []"
    using get_operation_ok [of "qd_ops db" i d] by (auto simp: queue_inv_def op_ok_def)
  with Some show ?thesis by (simp add: text_of_def)
qed simp

lemma slot_text:
  assumes "queue_inv db"
  shows "sl_undertaking (getWorkerExecutionSlot db) = sl_undertaking (qd_slot db)"
proof (cases "sl_undertaking (qd_slot db)")
  case (Some u)
  with assms have "\<not> blank u" by (auto simp: queue_inv_def row_ok_def)
  then have "u \<noteq> []" by auto
  with Some show ?thesis by (simp add: getWorkerExecutionSlot_def Let_def text_of_def)
qed (simp add: getWorkerExecutionSlot_def Let_def)

lemma mapRow_simps [simp]:
  "wu_id (mapRow r) = wu_id r" "wu_state (mapRow r) = wu_state r" "wu_origin (mapRow r) = wu_origin r"
  "wu_selected (mapRow r) = nullableString (wu_selected r)"
  by (simp_all add: mapRow_def)

lemma rowById_find: "rowById db u = map_option mapRow (find_undertaking db u)"
  by (simp add: rowById_def find_undertaking_def)

lemma selected_operation_mapRow:
  "queue_inv db \<Longrightarrow> row_ok db r \<Longrightarrow> selected_operation db (mapRow r) = selected_operation db r"
  by (simp add: selected_operation_def selected_text)

section \<open>Every change keeps the invariant\<close>

lemma length_filter_all2:
  "list_all2 M xs ys \<Longrightarrow> (\<And>x y. M x y \<Longrightarrow> P y \<Longrightarrow> P x) \<Longrightarrow> length (filter P ys) \<le> length (filter P xs)"
  by (induction rule: list_all2_induct) (auto intro: le_SucI)

lemma put_row_all2:
  assumes "find_undertaking db u = Some r" "undertaking_indexes (qd_rows db)" "M r r'" "\<And>q. M q q"
  shows "list_all2 M (qd_rows db) (qd_rows (put_row u r' db))"
proof -
  have "q = r" if "q \<in> set (qd_rows db)" "wu_id q = u" for q
    using that assms(1,2) sql_get_key [of wu_id "qd_rows db" q u]
    by (simp add: find_undertaking_def undertaking_indexes_def)
  then show ?thesis
    using assms(3,4) unfolding put_row_def by (auto intro!: list_all2_update)
qed

lemma row_moves_refl [simp]: "row_moves r r"
  by (simp add: row_moves_def)

lemma row_quiet_refl [simp]: "row_quiet r r"
  by (simp add: row_quiet_def)

lemma counts_shrink:
  assumes "list_all2 row_moves (qd_rows db) rows"
  shows "nonterminal_count (db\<lparr>qd_rows := rows\<rparr>) \<le> nonterminal_count db"
    "pending_curiosity (db\<lparr>qd_rows := rows\<rparr>) \<le> pending_curiosity db"
proof -
  have "length (filter (\<lambda>r. active (wu_state r)) rows) \<le> length (filter (\<lambda>r. active (wu_state r)) (qd_rows db))"
    by (rule length_filter_all2 [OF assms]) (simp add: row_moves_def)
  then show "nonterminal_count (db\<lparr>qd_rows := rows\<rparr>) \<le> nonterminal_count db" by (simp add: nonterminal_count_def)
  have "length (filter (\<lambda>r. wu_origin r = Ashley_curiosity \<and> (wu_state r = U_queued \<or> wu_state r = U_dispatching)) rows) \<le>
      length (filter (\<lambda>r. wu_origin r = Ashley_curiosity \<and> (wu_state r = U_queued \<or> wu_state r = U_dispatching)) (qd_rows db))"
    by (rule length_filter_all2 [OF assms]) (simp add: row_moves_def pending_def)
  then show "pending_curiosity (db\<lparr>qd_rows := rows\<rparr>) \<le> pending_curiosity db" by (simp add: pending_curiosity_def)
qed

lemma moved_rows:
  assumes "list_all2 row_moves rows rows'"
  shows "map wu_id rows' = map wu_id rows" "map wu_key rows' = map wu_key rows"
    "list_all undertaking_check rows \<Longrightarrow> list_all undertaking_check rows'"
  using assms by (induction rule: list_all2_induct) (auto simp: row_moves_def undertaking_check_def)

lemma quiet_is_move: "list_all2 row_quiet rows rows' \<Longrightarrow> list_all2 row_moves rows rows'"
  by (erule list_all2_mono) (simp add: row_quiet_def)

lemma selected_operation_cong:
  "qd_ops db' = qd_ops db \<Longrightarrow> wu_selected r' = wu_selected r \<Longrightarrow> selected_operation db' r' = selected_operation db r"
  by (simp add: selected_operation_def split: option.split)

lemma row_ok_quiet:
  "row_quiet r r' \<Longrightarrow> qd_ops db' = qd_ops db \<Longrightarrow> qd_slot db' = qd_slot db \<Longrightarrow> row_ok db r \<Longrightarrow> row_ok db' r'"
  using selected_operation_cong [of db' db r' r] by (auto simp: row_ok_def row_quiet_def row_moves_def)

lemma row_ok_slot:
  assumes "row_ok db q" "qd_ops db' = qd_ops db"
    and "(sl_undertaking (qd_slot db') = Some (wu_id q)) = (sl_undertaking (qd_slot db) = Some (wu_id q))"
  shows "row_ok db' q"
  using assms selected_operation_cong [of db' db q q] by (simp add: row_ok_def)

text \<open>A change of the operations that keeps the ones there.\<close>

lemma row_ok_keep:
  assumes "row_ok db q" "ops_keep (qd_ops db) (qd_ops db')" "qd_slot db' = qd_slot db" "op_inv (qd_ops db)"
  shows "row_ok db' q"
proof -
  have before: "\<exists>d. getDetachedOperation (qd_ops db) i = Some d \<and> op_keeps d d' \<and> op_ok d \<and> op_ok d'"
    if "getDetachedOperation (qd_ops db') i = Some d'" for i d'
    using ops_keep_get_back [OF assms(2) that] get_operation_ok [OF assms(4)]
      get_operation_ok [OF ops_keep_inv [OF assms(2,4)] that] by blast
  have "op_state d \<noteq> Op_started \<Longrightarrow> op_state d' \<noteq> Op_started" if "op_keeps d d'" "op_ok d" "op_ok d'" for d d'
    using that by (cases "op_terminal d") (auto simp: op_keeps_def op_okD)
  note quiet = this
  have link: "\<forall>i. wu_selected q = Some i \<longrightarrow>
      (\<exists>d. getDetachedOperation (qd_ops db') i = Some d \<and> op_undertaking d = Some (wu_id q))"
    using assms(1) ops_keep_get [OF assms(2)] unfolding row_ok_def op_keeps_def by metis
  have sel: "\<exists>d. selected_operation db q = Some d \<and> op_keeps d d' \<and> op_ok d \<and> op_ok d'"
    if "selected_operation db' q = Some d'" for d'
    using that before unfolding selected_operation_def by (cases "wu_selected q") auto
  have "(wu_state q = U_queued \<longrightarrow> op_state d' \<noteq> Op_started) \<and>
      (wu_state q = U_running \<longrightarrow> op_start d' \<noteq> None) \<and> (wu_state q = U_succeeded \<longrightarrow> op_terminal d' = Some Oe_succeeded)"
    if here: "selected_operation db' q = Some d'" for d'
  proof -
    obtain d where d: "selected_operation db q = Some d" "op_keeps d d'" "op_ok d" "op_ok d'"
      using sel [OF here] by blast
    have "(wu_state q = U_queued \<longrightarrow> op_state d \<noteq> Op_started) \<and>
      (wu_state q = U_running \<longrightarrow> op_start d \<noteq> None) \<and> (wu_state q = U_succeeded \<longrightarrow> op_terminal d = Some Oe_succeeded)"
      using assms(1) d(1) by (simp add: row_ok_def)
    with quiet [OF d(2-4)] d(2) show ?thesis by (auto simp: op_keeps_def)
  qed
  with assms(1,3) link show ?thesis unfolding row_ok_def by simp
qed

lemma slot_other_rows:
  assumes inv: "queue_inv db" and r: "find_undertaking db u = Some r" and "slot_follows r r' (qd_slot db) slot'"
    and q: "q \<in> set (qd_rows db)" "wu_id q \<noteq> u"
  shows "(sl_undertaking slot' = Some (wu_id q)) = (sl_undertaking (qd_slot db) = Some (wu_id q))"
  using assms find_row_ok [OF inv r] by (auto simp: slot_follows_def row_ok_def)

lemma change_row_inv:
  assumes inv: "queue_inv db" and r: "find_undertaking db u = Some r" and moves: "row_moves r r'"
    and slot: "slot_follows r r' (qd_slot db) slot'" and c: "0 \<le> c" "c < int (length WORKER_SERVICE_CALENDAR)"
    and db': "db' = (put_row u r' db)\<lparr>qd_slot := slot', qd_cursor := c\<rparr>" and ok: "row_ok db' r'"
    and ix: "undertaking_indexes (qd_rows db')"
  shows "queue_inv db'"
proof -
  have idx: "undertaking_indexes (qd_rows db)" using inv by (simp add: queue_inv_def)
  have id: "wu_id r = u" and rin: "r \<in> set (qd_rows db)" using r inv by (auto simp: find_undertaking_eq)
  have all2: "list_all2 row_moves (qd_rows db) (qd_rows db')"
    unfolding db' using put_row_all2 [OF r idx, of row_moves] moves by simp
  have rows: "set (qd_rows db') \<subseteq> insert r' {q \<in> set (qd_rows db). wu_id q \<noteq> u}"
    unfolding db' put_row_def by auto
  have "row_ok db' q" if "q \<in> set (qd_rows db)" "wu_id q \<noteq> u" for q
  proof (rule row_ok_slot [of db])
    show "row_ok db q" using that inv by (simp add: queue_inv_def)
    show "(sl_undertaking (qd_slot db') = Some (wu_id q)) = (sl_undertaking (qd_slot db) = Some (wu_id q))"
      using slot_other_rows [OF inv r slot that] by (simp add: db')
  qed (simp add: db' put_row_def)
  with rows ok have "\<forall>q \<in> set (qd_rows db'). row_ok db' q" by blast
  moreover have "wu_id ` set (qd_rows db') = wu_id ` set (qd_rows db)"
    using moved_rows(1) [OF all2] by (metis list.set_map)
  then have "\<forall>v. sl_undertaking (qd_slot db') = Some v \<longrightarrow> v \<in> wu_id ` set (qd_rows db')"
    using inv slot rin id unfolding db' by (auto simp: slot_follows_def queue_inv_def split: if_splits)
  moreover have "nonterminal_count db' \<le> nonterminal_count db" "pending_curiosity db' \<le> pending_curiosity db"
    using counts_shrink [OF all2] by (simp_all add: nonterminal_count_def pending_curiosity_def)
  ultimately show ?thesis
    using inv ix c moved_rows(3) [OF all2] unfolding queue_inv_def by (simp add: db' put_row_def)
qed

lemma queue_invD:
  assumes "queue_inv db"
  shows "op_inv (qd_ops db)" "undertaking_indexes (qd_rows db)" "q \<in> set (qd_rows db) \<Longrightarrow> row_ok db q"
    "d \<in> set (qd_ops db) \<Longrightarrow> key_link d"
  using assms by (auto simp: queue_inv_def)

lemma change_ops_inv:
  assumes inv: "queue_inv db" and ops: "op_inv ops" "\<forall>d \<in> set ops. key_link d"
    and ok: "\<And>q. q \<in> set (qd_rows db) \<Longrightarrow> row_ok (db\<lparr>qd_ops := ops\<rparr>) q"
  shows "queue_inv (db\<lparr>qd_ops := ops\<rparr>)"
  using inv ops ok by (simp add: queue_inv_def nonterminal_count_def pending_curiosity_def)

lemma keep_links: "ops_keep ops ops' \<Longrightarrow> \<forall>d \<in> set ops. key_link d \<Longrightarrow> \<forall>d \<in> set ops'. key_link d"
proof -
  have "op_keeps d d' \<Longrightarrow> key_link d \<Longrightarrow> key_link d'" for d d'
    unfolding op_keeps_def key_link_def by metis
  note link = this
  show "ops_keep ops ops' \<Longrightarrow> \<forall>d \<in> set ops. key_link d \<Longrightarrow> \<forall>d \<in> set ops'. key_link d"
    unfolding ops_keep_def by (induction rule: list_all2_induct) (auto intro: link)
qed

lemma change_keep_inv:
  assumes "queue_inv db" "ops_keep (qd_ops db) ops"
  shows "queue_inv (db\<lparr>qd_ops := ops\<rparr>)"
proof (rule change_ops_inv [OF assms(1)])
  show "row_ok (db\<lparr>qd_ops := ops\<rparr>) q" if "q \<in> set (qd_rows db)" for q
    using assms(2) by (intro row_ok_keep [OF queue_invD(3) [OF assms(1) that] _ _ queue_invD(1) [OF assms(1)]]) simp_all
next
  show "op_inv ops" using assms(2) queue_invD(1) [OF assms(1)] by (rule ops_keep_inv)
  show "\<forall>d \<in> set ops. key_link d" using queue_invD(4) [OF assms(1)] by (intro keep_links [OF assms(2)]) simp
qed

lemma get_operation_snoc:
  "getDetachedOperation ops i = Some d \<Longrightarrow> getDetachedOperation (ops @ [e]) i = Some d"
  by (simp add: getDetachedOperation_def sql_get_append)

lemma row_ok_append:
  assumes "row_ok db q"
  shows "row_ok (db\<lparr>qd_ops := qd_ops db @ [e]\<rparr>) q"
proof (cases "wu_selected q")
  case None
  with assms show ?thesis by (auto simp: row_ok_def selected_operation_def)
next
  case (Some i)
  with assms obtain d where "getDetachedOperation (qd_ops db) i = Some d" by (auto simp: row_ok_def)
  with assms Some get_operation_snoc [OF this, of e] show ?thesis by (simp add: row_ok_def selected_operation_def)
qed

lemma change_admit_inv:
  assumes "queue_inv db" "op_inv (qd_ops db @ [d])" "key_link d"
  shows "queue_inv (db\<lparr>qd_ops := qd_ops db @ [d]\<rparr>)"
  using assms queue_invD(3,4) [OF assms(1)] by (intro change_ops_inv) (auto intro: row_ok_append)

lemma quiet_indexes:
  assumes "list_all2 row_quiet rows rows'" "undertaking_indexes rows"
  shows "undertaking_indexes rows'"
proof -
  have "map wu_selected (filter (\<lambda>r. wu_selected r \<noteq> None) rows') = map wu_selected (filter (\<lambda>r. wu_selected r \<noteq> None) rows)"
    using assms(1) by (induction rule: list_all2_induct) (auto simp: row_quiet_def)
  with assms(2) moved_rows(1,2) [OF quiet_is_move [OF assms(1)]] show ?thesis
    by (simp add: undertaking_indexes_def)
qed

lemma rows_ok_quiet:
  assumes "list_all2 row_quiet rows rows'" "qd_ops db' = qd_ops db" "qd_slot db' = qd_slot db"
    and "\<forall>r \<in> set rows. row_ok db r"
  shows "\<forall>r \<in> set rows'. row_ok db' r"
  using assms(1,4) by (induction rule: list_all2_induct) (auto intro: row_ok_quiet [OF _ assms(2,3)])

lemma change_quiet_inv:
  assumes inv: "queue_inv db" and all2: "list_all2 row_quiet (qd_rows db) rows"
  shows "queue_inv (db\<lparr>qd_rows := rows\<rparr>)"
proof -
  have "\<forall>r \<in> set rows. row_ok (db\<lparr>qd_rows := rows\<rparr>) r"
    using rows_ok_quiet [OF all2, of "db\<lparr>qd_rows := rows\<rparr>" db] inv by (simp add: queue_inv_def)
  moreover have "wu_id ` set rows = wu_id ` set (qd_rows db)"
    using moved_rows(1) [OF quiet_is_move [OF all2]] by (metis list.set_map)
  ultimately show ?thesis
    using inv quiet_indexes [OF all2] counts_shrink [OF quiet_is_move [OF all2]]
      moved_rows(3) [OF quiet_is_move [OF all2]]
    unfolding queue_inv_def by simp
qed

lemma change_enqueue_inv:
  assumes inv: "queue_inv db" and "undertaking_indexes (qd_rows db @ [r])" "undertaking_check r"
    and r: "wu_state r = U_queued" "wu_selected r = None" "\<not> blank (wu_id r)"
    and "nonterminal_count db < MAX_NONTERMINAL_WORKER_UNDERTAKINGS"
    and "wu_origin r = Ashley_curiosity \<Longrightarrow> pending_curiosity db < MAX_PENDING_CURIOSITY"
  shows "queue_inv (db\<lparr>qd_rows := qd_rows db @ [r]\<rparr>)"
proof -
  have new: "wu_id r \<notin> wu_id ` set (qd_rows db)" using assms(2) by (simp add: undertaking_indexes_def)
  then have "sl_undertaking (qd_slot db) \<noteq> Some (wu_id r)" using inv by (auto simp: queue_inv_def)
  with r have "row_ok (db\<lparr>qd_rows := qd_rows db @ [r]\<rparr>) r"
    by (simp add: row_ok_def holding_def selected_operation_def)
  moreover have "row_ok (db\<lparr>qd_rows := qd_rows db @ [r]\<rparr>) q" if "row_ok db q" for q
    using that by (rule row_ok_slot) simp_all
  ultimately show ?thesis
    using assms unfolding queue_inv_def by (auto simp: nonterminal_count_def pending_curiosity_def)
qed

lemma queue_change_inv: "queue_change db db' \<Longrightarrow> queue_inv db \<Longrightarrow> queue_inv db'"
proof (induction rule: queue_change.induct)
  case (qc_row db u r r' slot' c db')
  from change_row_inv [OF qc_row.prems qc_row.hyps] show ?case .
next
  case (qc_inbox es db)
  have "row_ok (db\<lparr>qd_inbox := es\<rparr>) q" if "row_ok db q" for q using that by (rule row_ok_slot) simp_all
  with qc_inbox show ?case by (simp add: queue_inv_def nonterminal_count_def pending_curiosity_def)
qed (auto intro: change_quiet_inv change_keep_inv change_admit_inv change_enqueue_inv)

end
