(* ===== verification/Worker_Steps.thy ===== *)
theory Worker_Steps
  imports Worker_Changes
begin

text \<open>
  Every operation of the worker queue is a sequence of the changes of \<open>Worker_Changes\<close>. What any such
  sequence leaves alone: the identity, the binding and the end of an undertaking, and everything on
  record of an operation; none starts one.
\<close>

section \<open>Sequences of changes\<close>

abbreviation changes :: "queue_db \<Rightarrow> queue_db \<Rightarrow> bool" where
  "changes \<equiv> queue_change\<^sup>*\<^sup>*"

interpretation queue: preserved queue_change queue_inv
  by unfold_locales (rule queue_change_inv)

lemma changes_then:
  assumes "changes db db1" "queue_inv db" "queue_inv db1 \<Longrightarrow> changes db1 db2"
  shows "changes db db2"
proof -
  have "queue_inv db1" using assms(1,2) by (rule queue.steps_inv)
  then have "changes db1 db2" by (rule assms(3))
  with assms(1) show ?thesis by simp
qed

lemma row_moves_trans: "row_moves a b \<Longrightarrow> row_moves b c \<Longrightarrow> row_moves a c"
  unfolding row_moves_def by (elim conjE, intro conjI; metis)

lemma find_all2:
  assumes "list_all2 row_moves (qd_rows db) (qd_rows db')" "find_undertaking db u = Some r"
  shows "\<exists>r'. find_undertaking db' u = Some r' \<and> row_moves r r'"
  using assms unfolding find_undertaking_def
  by (induction rule: list_all2_induct) (auto simp: row_moves_def split: if_splits)

lemma change_row:
  assumes "queue_change db db'" "queue_inv db" "find_undertaking db u = Some r"
  shows "\<exists>r'. find_undertaking db' u = Some r' \<and> row_moves r r'"
  using assms(1)
proof cases
  case (qc_row v q q' slot' c)
  have "list_all2 row_moves (qd_rows db) (qd_rows db')"
    using put_row_all2 [OF qc_row(1) queue_invD(2) [OF assms(2)], of row_moves q'] qc_row(2,6) by simp
  then show ?thesis using assms(3) by (rule find_all2)
next
  case (qc_quiet rows)
  have "list_all2 row_moves (qd_rows db) (qd_rows db')" using qc_quiet quiet_is_move by simp
  then show ?thesis using assms(3) by (rule find_all2)
next
  case (qc_enqueue q)
  then have "find_undertaking db' u = Some r" using assms(3) by (simp add: find_undertaking_def sql_get_append)
  then show ?thesis by simp
qed (use assms(3) in \<open>simp_all add: find_undertaking_def\<close>)

lemma change_operation:
  assumes "queue_change db db'" "getDetachedOperation (qd_ops db) i = Some d"
  shows "\<exists>d'. getDetachedOperation (qd_ops db') i = Some d' \<and> op_keeps d d'"
  using assms(1)
proof cases
  case (qc_keep ops)
  then show ?thesis using ops_keep_get [OF _ assms(2)] by simp
next
  case (qc_admit e)
  then show ?thesis using get_operation_snoc [OF assms(2)] by simp
qed (use assms(2) in \<open>simp_all add: put_row_def\<close>)

lemma change_started:
  assumes "queue_change db db'" "queue_inv db"
  shows "started_ops db' = started_ops db"
  using assms(1)
proof cases
  case (qc_keep ops)
  have "(\<exists>d. getDetachedOperation ops i = Some d \<and> op_start d \<noteq> None) \<longleftrightarrow>
      (\<exists>d. getDetachedOperation (qd_ops db) i = Some d \<and> op_start d \<noteq> None)" for i
    using ops_keep_get [OF qc_keep(2), of i] ops_keep_get_back [OF qc_keep(2), of i]
    unfolding op_keeps_def by metis
  with qc_keep(1) show ?thesis by (simp add: started_ops_def)
next
  case (qc_admit e)
  have "(\<exists>d. getDetachedOperation (qd_ops db @ [e]) i = Some d \<and> op_start d \<noteq> None) \<longleftrightarrow>
      (\<exists>d. getDetachedOperation (qd_ops db) i = Some d \<and> op_start d \<noteq> None)" for i
    using qc_admit(3) by (cases "sql_get (\<lambda>r. op_id r = i) (qd_ops db)")
      (simp_all only: getDetachedOperation_def sql_get_append, simp_all split: if_splits)
  with qc_admit(1) show ?thesis by (simp add: started_ops_def)
qed (simp_all add: started_ops_def put_row_def)

lemma changes_row:
  assumes "changes db db'" "queue_inv db" "find_undertaking db u = Some r"
  shows "\<exists>r'. find_undertaking db' u = Some r' \<and> row_moves r r'"
  using assms(1)
proof (induction rule: rtranclp_induct)
  case (step db1 db2)
  then obtain r1 where "find_undertaking db1 u = Some r1" "row_moves r r1" by blast
  with change_row [OF step(2) queue.steps_inv [OF step(1) assms(2)]] show ?case
    by (meson row_moves_trans)
qed (use assms(3) in simp)

lemma changes_operation:
  assumes "changes db db'" "getDetachedOperation (qd_ops db) i = Some d"
  shows "\<exists>d'. getDetachedOperation (qd_ops db') i = Some d' \<and> op_keeps d d'"
  using assms(1)
proof (induction rule: rtranclp_induct)
  case (step db1 db2)
  then show ?case using change_operation [OF step(2)] by (meson op_keeps_trans)
qed (use assms(2) in simp)

lemma changes_started: "changes db db' \<Longrightarrow> queue_inv db \<Longrightarrow> started_ops db' = started_ops db"
proof (induction rule: rtranclp_induct)
  case (step db1 db2)
  then show ?case using change_started [OF step(2) queue.steps_inv [OF step(1)]] by simp
qed simp

section \<open>One row\<close>

lemma update_row:
  assumes "queue_inv db" "find_undertaking db u = Some r"
  shows "update_undertaking u st f db = (if st (wu_state r) then put_row u (f r) db else db)"
proof -
  have "q = r" if "q \<in> set (qd_rows db)" "wu_id q = u" for q
    using that assms(2) find_undertaking_eq [OF assms(1), of u q] by simp
  then have "map (\<lambda>q. if wu_id q = u \<and> st (wu_state q) then f q else q) (qd_rows db) =
      map (\<lambda>q. if wu_id q = u then (if st (wu_state r) then f r else q) else q) (qd_rows db)"
    by (intro map_cong) auto
  then show ?thesis
    by (cases db) (auto simp: update_undertaking_def put_row_def sql_update_def intro!: map_idI)
qed

lemma update_no_row: "find_undertaking db u = None \<Longrightarrow> update_undertaking u st f db = db"
  unfolding update_undertaking_def find_undertaking_def sql_update_def by (simp add: map_idI)

lemma find_put_row:
  assumes "find_undertaking db u = Some r" "wu_id r' = u"
  shows "find_undertaking (put_row u r' db) u = Some r'"
  using assms sql_get_update [of "\<lambda>r. wu_id r = u" wu_id "\<lambda>_. r'" u "qd_rows db"]
  by (auto simp: find_undertaking_def put_row_def dest: sql_get_SomeD)

lemma quiet_update:
  assumes "\<And>r. row_quiet r (f r)"
  shows "changes db (update_undertaking u st f db)"
proof -
  have "list_all2 row_quiet (qd_rows db) (sql_update (\<lambda>r. wu_id r = u \<and> st (wu_state r)) f (qd_rows db))"
    using assms by (intro list_all2_update) simp
  then show ?thesis unfolding update_undertaking_def by (intro r_into_rtranclp qc_quiet)
qed

lemma indexes_put_row:
  assumes "queue_inv db" "find_undertaking db u = Some r" "row_moves r r'" "wu_selected r' = wu_selected r"
  shows "undertaking_indexes (qd_rows (put_row u r' db))"
proof -
  have idx: "undertaking_indexes (qd_rows db)" by (rule queue_invD(2) [OF assms(1)])
  have all2: "list_all2 (\<lambda>r r'. row_moves r r' \<and> wu_selected r' = wu_selected r) (qd_rows db) (qd_rows (put_row u r' db))"
    by (rule put_row_all2 [OF assms(2) idx]) (use assms in simp_all)
  then have moves: "list_all2 row_moves (qd_rows db) (qd_rows (put_row u r' db))" by (rule list_all2_mono) simp
  have "map wu_selected (filter (\<lambda>r. wu_selected r \<noteq> None) (qd_rows (put_row u r' db))) =
      map wu_selected (filter (\<lambda>r. wu_selected r \<noteq> None) (qd_rows db))"
    using all2 by (induction rule: list_all2_induct) auto
  with idx moved_rows(1,2) [OF moves] show ?thesis by (simp add: undertaking_indexes_def)
qed

text \<open>An undertaking that leaves the slot, or never held it.\<close>

lemma leave_slot:
  assumes inv: "queue_inv db" and r: "find_undertaking db u = Some r"
    and moves: "row_moves r r'" "\<not> holding (wu_state r')" "wu_selected r' = wu_selected r"
    and queued: "\<And>d. wu_state r' = U_queued \<Longrightarrow> selected_operation db r = Some d \<Longrightarrow> op_state d \<noteq> Op_started"
    and succeeded: "wu_state r' = U_succeeded \<Longrightarrow>
      \<exists>d. selected_operation db r = Some d \<and> op_terminal d = Some Oe_succeeded"
  shows "queue_change db (snd (clearWorkerExecutionSlot u now (put_row u r' db)))"
proof -
  have ok: "row_ok db r" "wu_id r = u" using find_row_ok [OF inv r] by auto
  let ?slot = "if sl_undertaking (qd_slot db) = Some u then empty_slot now else qd_slot db"
  let ?db = "(put_row u r' db)\<lparr>qd_slot := ?slot, qd_cursor := qd_cursor db\<rparr>"
  have eq: "snd (clearWorkerExecutionSlot u now (put_row u r' db)) = ?db"
    by (cases db) (simp add: clearWorkerExecutionSlot_def put_row_def)
  have sel: "selected_operation ?db r' = selected_operation db r"
    by (rule selected_operation_cong) (simp_all add: put_row_def moves)
  have slot: "slot_follows r r' (qd_slot db) ?slot"
    using ok moves(2) by (auto simp: slot_follows_def row_ok_def empty_slot_def)
  have "row_ok ?db r'"
  proof -
    have "wu_state r' = U_succeeded \<Longrightarrow> wu_selected r \<noteq> None"
      using succeeded by (auto simp: selected_operation_def split: option.splits)
    moreover have "wu_id r' = u" using moves(1) ok(2) by (simp add: row_moves_def)
    moreover have "wu_state r' \<noteq> U_running" using moves(2) by (auto simp: holding_def)
    ultimately show ?thesis
      using ok moves queued succeeded unfolding row_ok_def sel
      by (auto simp: put_row_def empty_slot_def)
  qed
  moreover have "0 \<le> qd_cursor db" "qd_cursor db < int (length WORKER_SERVICE_CALENDAR)"
    using inv by (simp_all add: queue_inv_def)
  moreover have "undertaking_indexes (qd_rows ?db)"
    using indexes_put_row [OF inv r moves(1,3)] by (simp add: put_row_def)
  ultimately show ?thesis
    unfolding eq by (intro qc_row [OF r moves(1) slot _ _ refl])
qed

text \<open>An undertaking that starts.\<close>

lemma take_up:
  assumes inv: "queue_inv db" and r: "find_undertaking db u = Some r" "wu_state r = U_dispatching"
    and moves: "row_moves r r'" "wu_state r' = U_running" "wu_selected r' = wu_selected r"
    and d: "selected_operation db r = Some d" "op_start d \<noteq> None"
    and slot: "sl_undertaking slot' = sl_undertaking (qd_slot db)"
    and c: "0 \<le> c" "c < int (length WORKER_SERVICE_CALENDAR)"
  shows "queue_change db ((put_row u r' db)\<lparr>qd_slot := slot', qd_cursor := c\<rparr>)"
proof -
  have ok: "row_ok db r" "wu_id r = u" using find_row_ok [OF inv r(1)] by auto
  let ?db = "(put_row u r' db)\<lparr>qd_slot := slot', qd_cursor := c\<rparr>"
  have sel: "selected_operation ?db r' = Some d"
    using selected_operation_cong [of ?db db r' r] d moves by (simp add: put_row_def)
  have held: "sl_undertaking (qd_slot db) = Some u" using ok r(2) by (auto simp: row_ok_def holding_def)
  have "wu_id r' = u" using moves(1) ok(2) by (simp add: row_moves_def)
  then have "row_ok ?db r'"
    using ok r(2) moves d(2) slot held unfolding row_ok_def sel
    by (auto simp: holding_def put_row_def)
  moreover have "slot_follows r r' (qd_slot db) slot'"
    using r(2) moves(2) slot held ok by (auto simp: slot_follows_def holding_def)
  moreover have "undertaking_indexes (qd_rows ?db)"
    using indexes_put_row [OF inv r(1) moves(1,3)] by (simp add: put_row_def)
  ultimately show ?thesis using c by (intro qc_row [OF r(1) moves(1) _ _ _ refl])
qed

end
