(* ===== verification/Worker_Operations.thy ===== *)
theory Worker_Operations
  imports Worker_Steps
begin

text \<open>
  The operations of \<open>Worker_Queue\<close>, one by one: each is a sequence of changes, given what its callers
  know. A requeue is for an operation that has not started, a start for one that has, a success for an
  undertaking that was bound.
\<close>

section \<open>Admission and waiting\<close>

lemma store_undertakings_eq:
  "store_undertakings rows db = Inr db' \<longleftrightarrow>
     list_all undertaking_check rows \<and> undertaking_indexes rows \<and> db' = db\<lparr>qd_rows := rows\<rparr>"
  by (auto simp: store_undertakings_def and_then_eq_Inr)

lemma undertaking_id_not_blank: "\<not> blank (workerUndertakingIdFor sha k)"
  by (simp add: workerUndertakingIdFor_def blank_iff js_space_def)

lemma enqueue_result:
  obtains (same) "snd (enqueueWorkerUndertaking sha i now db) = db"
    | (added) k where "snd (enqueueWorkerUndertaking sha i now db) =
          db\<lparr>qd_rows := qd_rows db @ [queued_row (workerUndertakingIdFor sha k) k i now]\<rparr>"
        "undertaking_indexes (qd_rows db @ [queued_row (workerUndertakingIdFor sha k) k i now])"
        "undertaking_check (queued_row (workerUndertakingIdFor sha k) k i now)"
        "nonterminal_count db < MAX_NONTERMINAL_WORKER_UNDERTAKINGS"
        "eq_origin i = Ashley_curiosity \<Longrightarrow> pending_curiosity db < MAX_PENDING_CURIOSITY"
proof (cases "snd (enqueueWorkerUndertaking sha i now db) = db")
  case False
  let ?k = "canonicalAdmissionKey sha i"
  let ?r = "queued_row (workerUndertakingIdFor sha ?k) ?k i now"
  have valid: "valid_enqueue i now"
    using False by (rule contrapos_np) (simp add: enqueueWorkerUndertaking_def)
  have none: "rowByAdmissionKey db ?k = None"
    using False valid by (cases "rowByAdmissionKey db ?k") (simp_all add: enqueueWorkerUndertaking_def Let_def)
  let ?dup = "if eq_origin i = Owner_request then sql_get (same_owner_request i) (qd_rows db) else None"
  have "?dup = None"
    using False valid none by (cases ?dup) (simp_all add: enqueueWorkerUndertaking_def Let_def)
  then have eq: "enqueueWorkerUndertaking sha i now db =
      (if nonterminal_count db \<ge> MAX_NONTERMINAL_WORKER_UNDERTAKINGS then (Inl ''queue_capacity_exhausted'', db)
       else if eq_origin i = Ashley_curiosity \<and> pending_curiosity db \<ge> MAX_PENDING_CURIOSITY
       then (Inl ''curiosity_pending_capacity'', db)
       else (case store_undertakings (qd_rows db @ [?r]) db of
           Inl _ \<Rightarrow> (Inl ''queue_admission_failed'', db)
         | Inr db' \<Rightarrow> (case rowById db' (workerUndertakingIdFor sha ?k) of
             None \<Rightarrow> (Inl ''queue_admission_failed'', db') | Some r \<Rightarrow> (Inr (r, True), db'))))"
    using valid none unfolding enqueueWorkerUndertaking_def Let_def by simp
  with False have room: "nonterminal_count db < MAX_NONTERMINAL_WORKER_UNDERTAKINGS"
      "\<not> (eq_origin i = Ashley_curiosity \<and> pending_curiosity db \<ge> MAX_PENDING_CURIOSITY)"
    by (auto split: if_splits)
  show ?thesis
  proof (cases "store_undertakings (qd_rows db @ [?r]) db")
    case (Inl err)
    with False room show ?thesis unfolding eq by (simp split: if_splits)
  next
    case (Inr db')
    have "snd (enqueueWorkerUndertaking sha i now db) = db'"
      using room unfolding eq Inr by (auto split: option.split)
    with Inr room show ?thesis by (intro added [of ?k]) (auto simp: store_undertakings_eq)
  qed
qed (rule same)

lemma enqueue_changes: "changes db (snd (enqueueWorkerUndertaking sha i now db))"
proof (cases rule: enqueue_result [of sha i now db])
  case (added k)
  have "queue_change db (snd (enqueueWorkerUndertaking sha i now db))"
    unfolding added(1) using added(2-5) undertaking_id_not_blank
    by (intro qc_enqueue) (auto simp: queued_row_def)
  then show ?thesis by simp
qed simp

lemma quiet_wait: "row_quiet r (wait_capacity c now r)"
  by (simp add: row_quiet_def row_moves_def wait_capacity_def)

lemma capacity_changes: "changes db (snd (markWorkerUndertakingCapacity u c now db))"
  using quiet_update [of "wait_capacity c now", OF quiet_wait]
  by (simp add: markWorkerUndertakingCapacity_def Let_def)

lemma busy_changes: "changes db (snd (markWorkerUndertakingWorkerBusy u now db))"
  using quiet_update [of "\<lambda>r. r\<lparr>wu_blocked := Some Worker_busy, wu_probe := None, wu_updated := now\<rparr>"]
  by (simp add: markWorkerUndertakingWorkerBusy_def Let_def row_quiet_def row_moves_def)

lemma others_busy_changes: "changes db (mark_others_busy u now db)"
  unfolding mark_others_busy_def
  by (intro r_into_rtranclp qc_quiet list_all2_update) (simp add: row_quiet_def row_moves_def)

section \<open>Back to the queue\<close>

text \<open>An update that takes a dispatching undertaking out of the slot.\<close>

lemma unclaim_changes:
  assumes inv: "queue_inv db"
    and f: "\<And>r. wu_state r = U_dispatching \<Longrightarrow> row_moves r (f r) \<and> wu_state (f r) = U_queued \<and> wu_selected (f r) = wu_selected r"
    and quiet: "\<And>r d. find_undertaking db u = Some r \<Longrightarrow> wu_state r = U_dispatching \<Longrightarrow>
      selected_operation db r = Some d \<Longrightarrow> op_state d \<noteq> Op_started"
    and r: "find_undertaking db u = Some r" "wu_state r = U_dispatching"
  shows "changes db (snd (clearWorkerExecutionSlot u now (update_undertaking u (\<lambda>s. s = U_dispatching) f db)))"
proof -
  have "queue_change db (snd (clearWorkerExecutionSlot u now (put_row u (f r) db)))"
    using f [OF r(2)] quiet [OF r] by (intro leave_slot [OF inv r(1)]) (auto simp: holding_def)
  then show ?thesis using r(2) by (simp add: update_row [OF inv r(1)])
qed

lemma unclaim_row:
  "wu_state r = U_dispatching \<Longrightarrow>
     row_moves r (unclaim (wait_capacity c now r)) \<and> wu_state (unclaim (wait_capacity c now r)) = U_queued \<and>
     wu_selected (unclaim (wait_capacity c now r)) = wu_selected r"
  by (simp add: row_moves_def unclaim_def wait_capacity_def active_def pending_def)

lemma requeue_changes:
  assumes inv: "queue_inv db"
    and quiet: "\<And>r d. find_undertaking db u = Some r \<Longrightarrow> wu_state r = U_dispatching \<Longrightarrow>
      selected_operation db r = Some d \<Longrightarrow> op_state d \<noteq> Op_started"
  shows "changes db (snd (requeueWorkerUndertakingAfterCapacity u c now db))"
proof (cases "find_undertaking db u")
  case None
  then show ?thesis by (simp add: requeueWorkerUndertakingAfterCapacity_def rowById_find)
next
  case (Some r)
  show ?thesis
  proof (cases "capacity_refused u c now \<or> wu_state r \<noteq> U_dispatching")
    case True
    with Some show ?thesis by (auto simp: requeueWorkerUndertakingAfterCapacity_def rowById_find)
  next
    case False
    with unclaim_changes [OF inv unclaim_row quiet Some] Some show ?thesis
      by (simp add: requeueWorkerUndertakingAfterCapacity_def rowById_find Let_def)
  qed
qed

section \<open>Ends\<close>

lemma clear_id: "sl_undertaking (qd_slot db) \<noteq> Some u \<Longrightarrow> snd (clearWorkerExecutionSlot u now db) = db"
  by (simp add: clearWorkerExecutionSlot_def)

text \<open>A queued undertaking does not hold the slot, so there is nothing to clear when it ends.\<close>

lemma end_queued:
  assumes inv: "queue_inv db" and r: "find_undertaking db u = Some r" "wu_state r = U_queued"
    and "row_moves r r'" "\<not> active (wu_state r')" "wu_state r' \<noteq> U_succeeded" "wu_selected r' = wu_selected r"
  shows "changes db (put_row u r' db)"
proof -
  have "sl_undertaking (qd_slot db) \<noteq> Some u"
    using find_row_ok [OF inv r(1)] r(2) by (auto simp: row_ok_def holding_def)
  then have "snd (clearWorkerExecutionSlot u 0 (put_row u r' db)) = put_row u r' db"
    by (intro clear_id) (simp add: put_row_def)
  moreover have "queue_change db (snd (clearWorkerExecutionSlot u 0 (put_row u r' db)))"
    using assms by (intro leave_slot [OF inv r(1)]) (auto simp: holding_def active_def)
  ultimately show ?thesis by simp
qed

lemma snd_mutated [simp]: "snd (mutated db u ch) = db"
  by (simp add: mutated_def split: option.split)

lemma cancel_changes:
  assumes inv: "queue_inv db"
  shows "changes db (snd (requestWorkerUndertakingCancel u now db))"
proof (cases "blank u \<or> \<not> safeMs now \<or> find_undertaking db u = None")
  case True
  then show ?thesis by (auto simp: requestWorkerUndertakingCancel_def rowById_find)
next
  case False
  then obtain r where r: "find_undertaking db u = Some r" by auto
  show ?thesis
  proof (cases "wu_state r = U_queued")
    case True
    have "changes db (put_row u (r\<lparr>wu_state := U_cancelled, wu_blocked := None,
        wu_cancel := coalesce (wu_cancel r) (Some now), wu_reason := coalesce (wu_reason r) (Some ''cancel_requested''),
        wu_terminalAt := coalesce (wu_terminalAt r) (Some now), wu_updated := now\<rparr>) db)"
      using True by (intro end_queued [OF inv r True]) (auto simp: row_moves_def active_def pending_def)
    with False r True show ?thesis
      by (simp add: requestWorkerUndertakingCancel_def rowById_find update_row [OF inv r])
  next
    case notq: False
    have "changes db (update_undertaking u holding
        (\<lambda>r. r\<lparr>wu_cancel := coalesce (wu_cancel r) (Some now), wu_updated := now\<rparr>) db)"
      by (rule quiet_update) (simp add: row_quiet_def row_moves_def)
    with False r notq show ?thesis by (simp add: requestWorkerUndertakingCancel_def rowById_find)
  qed
qed

lemma supersession_changes:
  assumes inv: "queue_inv db"
  shows "changes db (snd (supersedeWorkerUndertaking u by_ref now db))"
proof (cases "blank u \<or> blank by_ref \<or> \<not> safeMs now \<or> find_undertaking db u = None")
  case True
  then show ?thesis by (auto simp: supersedeWorkerUndertaking_def rowById_find)
next
  case False
  then obtain r where r: "find_undertaking db u = Some r" by auto
  show ?thesis
  proof (cases "wu_state r = U_queued")
    case True
    have "changes db (put_row u (r\<lparr>wu_state := U_superseded, wu_blocked := None, wu_superseded := Some by_ref,
        wu_reason := Some ''superseded'', wu_terminalAt := Some now, wu_updated := now\<rparr>) db)"
      using True by (intro end_queued [OF inv r True]) (auto simp: row_moves_def active_def pending_def)
    with False r True show ?thesis
      by (simp add: supersedeWorkerUndertaking_def rowById_find update_row [OF inv r])
  qed (use False r in \<open>simp add: supersedeWorkerUndertaking_def rowById_find\<close>)
qed

lemma truth_state:
  assumes "terminal_truth r operation e reason = Some (s, rsn)"
  shows "\<not> active s" "s = U_succeeded \<Longrightarrow>
    wu_selected r = None \<and> e = Qe_succeeded \<or> (\<exists>d. operation = Some d \<and> op_terminal d = Some Oe_succeeded)"
proof -
  have ends: "\<not> active (queue_end_state x)" "queue_end_state x = U_succeeded \<longleftrightarrow> x = Qe_succeeded" for x
    by (cases x; simp add: active_def)+
  have op_ends: "op_end_as t = Qe_succeeded \<longleftrightarrow> t = Oe_succeeded" for t by (cases t) simp_all
  show "\<not> active s"
    using assms ends op_ends unfolding terminal_truth_def Let_def by (auto split: if_splits option.splits)
  show "s = U_succeeded \<Longrightarrow>
    wu_selected r = None \<and> e = Qe_succeeded \<or> (\<exists>d. operation = Some d \<and> op_terminal d = Some Oe_succeeded)"
    using assms ends op_ends unfolding terminal_truth_def Let_def by (auto split: if_splits option.splits)
qed

lemma project_result:
  assumes inv: "queue_inv db"
  obtains (same) "snd (projectWorkerUndertakingTerminal u e reason now db) = db"
    | (ended) r s rsn where "find_undertaking db u = Some r" "active (wu_state r)"
        "terminal_truth (mapRow r) (selected_operation db r) e reason = Some (s, rsn)"
        "snd (projectWorkerUndertakingTerminal u e reason now db) =
           snd (clearWorkerExecutionSlot u now (put_row u (end_undertaking s rsn now r) db))"
proof (cases "blank u \<or> \<not> safeMs now \<or> find_undertaking db u = None")
  case True
  then show ?thesis by (intro same) (auto simp: projectWorkerUndertakingTerminal_def rowById_find)
next
  case False
  then obtain r where r: "find_undertaking db u = Some r" by auto
  have sel: "selected_operation db (mapRow r) = selected_operation db r"
    using find_row_ok [OF inv r] by (simp add: selected_operation_mapRow [OF inv])
  show ?thesis
  proof (cases "active (wu_state r)")
    case True
    show ?thesis
    proof (cases "terminal_truth (mapRow r) (selected_operation db r) e reason")
      case None
      with False r True sel show ?thesis
        by (intro same) (simp add: projectWorkerUndertakingTerminal_def rowById_find)
    next
      case (Some x)
      obtain s rsn where x: "x = (s, rsn)" by (cases x)
      with False r True sel Some show ?thesis
        by (intro ended [OF r True]) (simp_all add: projectWorkerUndertakingTerminal_def rowById_find
          Let_def update_row [OF inv r])
    qed
  qed (use False r in \<open>intro same, simp add: projectWorkerUndertakingTerminal_def rowById_find\<close>)
qed

lemma project_changes:
  assumes inv: "queue_inv db" and bound: "\<And>r. find_undertaking db u = Some r \<Longrightarrow> e = Qe_succeeded \<Longrightarrow> wu_selected r \<noteq> None"
  shows "changes db (snd (projectWorkerUndertakingTerminal u e reason now db))"
  using inv
proof (cases rule: project_result [where u = u and e = e and reason = reason and now = now])
  case (ended r s rsn)
  have sel: "wu_selected (mapRow r) = wu_selected r"
    using find_row_ok [OF inv ended(1)] selected_text [OF inv] by simp
  have s: "\<not> active s" "s = U_succeeded \<Longrightarrow> \<exists>d. selected_operation db r = Some d \<and> op_terminal d = Some Oe_succeeded"
    using truth_state [OF ended(3)] bound [OF ended(1)] sel by auto
  have "queue_change db (snd (clearWorkerExecutionSlot u now (put_row u (end_undertaking s rsn now r) db)))"
    using s ended(2)
    by (intro leave_slot [OF inv ended(1)])
      (auto simp: end_undertaking_def row_moves_def holding_def active_def pending_def)
  with ended(4) show ?thesis by simp
qed simp

lemma fold_changes:
  "queue_inv db \<Longrightarrow> (\<And>x db. queue_inv db \<Longrightarrow> changes db (f x db)) \<Longrightarrow> changes db (fold f xs db)"
  by (induction xs arbitrary: db) (auto intro: changes_then)

lemma expire_queued_changes:
  "queue_inv db \<Longrightarrow> changes db (snd (expireQueuedCuriosity now db))"
  unfolding expireQueuedCuriosity_def Let_def
  by (simp, intro impI fold_changes) (auto intro: project_changes)

end
