(* ===== verification/Worker_Binding.thy ===== *)
theory Worker_Binding
  imports Worker_Operations
begin

text \<open>
  The binding of an undertaking to its detached operation, and its start. \<open>operation_admission\<close> is what
  the binding asks of the callback that admits the operation; the admission the service pass hands over
  is proved to give it.
\<close>

section \<open>The start\<close>

lemma next_cursor_bounds: "0 \<le> next_cursor_of i \<and> next_cursor_of i < int (length WORKER_SERVICE_CALENDAR)"
  by (simp add: next_cursor_of_def WORKER_SERVICE_CALENDAR_def)

lemma mark_running_result:
  assumes inv: "queue_inv db"
  obtains (same) "snd (markWorkerUndertakingRunning u o_id now db) = db"
    | (started) r c where "find_undertaking db u = Some r" "wu_state r = U_dispatching" "wu_selected r = Some o_id"
        "0 \<le> c" "c < int (length WORKER_SERVICE_CALENDAR)"
        "snd (markWorkerUndertakingRunning u o_id now db) =
          (put_row u (r\<lparr>wu_state := U_running, wu_blocked := None, wu_claim := None, wu_probe := None, wu_updated := now\<rparr>) db)
            \<lparr>qd_slot := start_slot o_id now (qd_slot db), qd_cursor := c\<rparr>"
proof (cases "snd (markWorkerUndertakingRunning u o_id now db) = db")
  case False
  then have args: "\<not> (blank u \<or> blank o_id \<or> \<not> safeMs now)"
    by (rule contrapos_np) (simp add: markWorkerUndertakingRunning_def)
  obtain r where r: "find_undertaking db u = Some r"
    using False args by (cases "find_undertaking db u") (simp_all add: markWorkerUndertakingRunning_def rowById_find)
  have plain: "nullableString (wu_selected r) = wu_selected r"
    using find_row_ok [OF inv r] by (simp add: selected_text [OF inv])
  have guards: "wu_selected r = Some o_id" "wu_state r = U_dispatching" "sl_undertaking (qd_slot db) = Some u"
    using False args r plain by (auto simp: markWorkerUndertakingRunning_def rowById_find split: if_splits)
  let ?r = "r\<lparr>wu_state := U_running, wu_blocked := None, wu_claim := None, wu_probe := None, wu_updated := now\<rparr>"
  let ?c = "case nullableMs (wu_calendar r) of None \<Rightarrow> qd_cursor db | Some index \<Rightarrow> next_cursor_of index"
  have "snd (markWorkerUndertakingRunning u o_id now db) =
      (put_row u ?r db)\<lparr>qd_slot := start_slot o_id now (qd_slot db), qd_cursor := ?c\<rparr>"
    using args r plain guards
    by (intro queue_db.equality) (simp_all add: markWorkerUndertakingRunning_def rowById_find Let_def
      update_row [OF inv r] put_row_def mapRow_def split: option.split)
  moreover have "0 \<le> ?c \<and> ?c < int (length WORKER_SERVICE_CALENDAR)"
    using inv next_cursor_bounds by (auto simp: queue_inv_def split: option.split)
  ultimately show ?thesis using r guards by (intro started) auto
qed (rule same)

lemma mark_running_changes:
  assumes inv: "queue_inv db"
    and begun: "\<And>d. getDetachedOperation (qd_ops db) o_id = Some d \<Longrightarrow> op_start d \<noteq> None"
  shows "changes db (snd (markWorkerUndertakingRunning u o_id now db))"
  using inv
proof (cases rule: mark_running_result [where u = u and o_id = o_id and now = now])
  case (started r c)
  obtain d where d: "getDetachedOperation (qd_ops db) o_id = Some d"
    using find_row_ok [OF inv started(1)] started(3) by (auto simp: row_ok_def)
  have "queue_change db (snd (markWorkerUndertakingRunning u o_id now db))"
    unfolding started(6) using started(2,3) d begun [OF d]
    by (intro take_up [OF inv started(1,2) _ _ _ _ begun [OF d] _ started(4,5)])
      (auto simp: row_moves_def active_def pending_def selected_operation_def start_slot_def)
  then show ?thesis by simp
qed simp

section \<open>The binding\<close>

text \<open>What a binding leaves: the undertaking is dispatching, bound to the operation.\<close>

definition bound_to :: "string \<Rightarrow> string \<Rightarrow> queue_db \<Rightarrow> worker_row \<Rightarrow> bool" where
  "bound_to u i db b \<longleftrightarrow> (\<exists>r. find_undertaking db u = Some r \<and> b = mapRow r \<and>
     wu_state r = U_dispatching \<and> wu_selected r = Some i)"

locale operation_admission =
  fixes admit :: "detached_row list \<Rightarrow> (string + string \<times> bool) \<times> detached_row list" and u :: string
  assumes admitted: "op_inv ops \<Longrightarrow> \<forall>d \<in> set ops. key_link d \<Longrightarrow> admit ops = (Inr (i, cr), ops') \<Longrightarrow>
    (ops' = ops \<or> (\<exists>d. ops' = ops @ [d] \<and> op_inv ops' \<and> op_start d = None \<and> op_terminal d = None \<and> key_link d)) \<and>
    (\<exists>d. getDetachedOperation ops' i = Some d \<and> op_undertaking d = Some u)"
begin

lemma admitted_changes:
  assumes "queue_inv db" "admit (qd_ops db) = (Inr (i, cr), ops)"
  shows "changes db (db\<lparr>qd_ops := ops\<rparr>)"
    and "\<exists>d. getDetachedOperation ops i = Some d \<and> op_undertaking d = Some u"
proof -
  note facts = admitted [OF queue_invD(1) [OF assms(1)] _ assms(2)]
  have links: "\<forall>d \<in> set (qd_ops db). key_link d" using queue_invD(4) [OF assms(1)] by simp
  from facts [OF links] show "\<exists>d. getDetachedOperation ops i = Some d \<and> op_undertaking d = Some u" by simp
  from facts [OF links] show "changes db (db\<lparr>qd_ops := ops\<rparr>)"
  proof (elim conjE disjE exE)
    fix d assume "ops = qd_ops db @ [d]" "op_inv ops" "op_start d = None" "op_terminal d = None" "key_link d"
    then show ?thesis by (auto intro!: r_into_rtranclp qc_admit)
  qed (cases db; simp)
qed

lemma bind_new:
  assumes inv: "queue_inv db" and r: "find_undertaking db u = Some r" "wu_state r = U_queued"
    and i: "bn_undertaking i = u" "wu_selected r = None \<or> wu_selected r = Some (bn_operation i)"
    and free: "sl_undertaking (qd_slot db) = None"
    and ix: "undertaking_indexes (qd_rows (put_row u (to_dispatching i now r) db))"
    and ad: "admit (qd_ops db) = (Inr (bn_operation i, cr), ops)"
    and slot: "sl_undertaking slot' = Some u"
  shows "changes db ((put_row u (to_dispatching i now r) db)\<lparr>qd_ops := ops, qd_slot := slot'\<rparr>)"
proof -
  let ?mid = "db\<lparr>qd_ops := ops\<rparr>" and ?r = "to_dispatching i now r"
  let ?db = "(put_row u ?r ?mid)\<lparr>qd_slot := slot', qd_cursor := qd_cursor db\<rparr>"
  have mid: "changes db ?mid" and d: "\<exists>d. getDetachedOperation ops (bn_operation i) = Some d \<and> op_undertaking d = Some u"
    using admitted_changes [OF inv ad] by auto
  have inv': "queue_inv ?mid" using mid inv by (rule queue.steps_inv)
  have find: "find_undertaking ?mid u = Some r" using r(1) by (simp add: find_undertaking_def)
  have id: "wu_id r = u" "\<not> blank u" using find_row_ok [OF inv r(1)] by auto
  have sel: "wu_selected ?r = Some (bn_operation i)" using i(2) by (auto simp: to_dispatching_def coalesce_def)
  have moves: "row_moves r ?r"
    using r(2) i(2) by (auto simp: row_moves_def to_dispatching_def coalesce_def active_def pending_def)
  have "slot_follows r ?r (qd_slot ?mid) slot'"
    using free slot id by (simp add: slot_follows_def to_dispatching_def holding_def)
  moreover have "row_ok ?db ?r"
    unfolding row_ok_def sel using d id slot
    by (simp add: to_dispatching_def holding_def put_row_def)
  moreover have "undertaking_indexes (qd_rows ?db)" using ix by (simp add: put_row_def)
  moreover have "0 \<le> qd_cursor db" "qd_cursor db < int (length WORKER_SERVICE_CALENDAR)"
    using inv by (simp_all add: queue_inv_def)
  ultimately have "queue_change ?mid ?db" by (intro qc_row [OF find moves _ _ _ refl])
  moreover have "?db = (put_row u ?r db)\<lparr>qd_ops := ops, qd_slot := slot'\<rparr>" by (cases db) (simp add: put_row_def)
  ultimately show ?thesis using mid by simp
qed

lemma rebind_same:
  assumes inv: "queue_inv db" and r: "find_undertaking db u = Some r" "holding (wu_state r)"
    and i: "bn_undertaking i = u"
  shows "snd (rebind i c now db) = db" and "fst (rebind i c now db) = Inr (b, cr) \<Longrightarrow> b = mapRow r"
proof -
  have "sl_undertaking (getWorkerExecutionSlot db) = Some u"
    using find_row_ok [OF inv r(1)] r(2) slot_text [OF inv] by (simp add: row_ok_def)
  then show "snd (rebind i c now db) = db" "fst (rebind i c now db) = Inr (b, cr) \<Longrightarrow> b = mapRow r"
    using r(1) i by (auto simp: rebind_def Let_def rowById_find split: if_splits)
qed

lemma bind_result:
  assumes inv: "queue_inv db" and i: "bn_undertaking i = u"
  shows "changes db (snd (bindWorkerUndertakingToOperation i admit now db)) \<and>
    (\<forall>b cr. fst (bindWorkerUndertakingToOperation i admit now db) = Inr (b, cr) \<longrightarrow>
       bound_to u (bn_operation i) (snd (bindWorkerUndertakingToOperation i admit now db)) b)"
    (is "changes db (snd ?res) \<and> ?bound")
proof -
  have refused: "changes db (snd ?res) \<and> ?bound" if "\<And>x. fst ?res \<noteq> Inr x" "snd ?res = db" using that by simp
  show ?thesis
  proof (cases "invalid_binding i now \<or> find_undertaking db u = None")
    case True
    with i show ?thesis
      by (elim disjE; intro refused) (auto simp: bindWorkerUndertakingToOperation_def rowById_find)
  next
    case False
    then obtain r where valid: "\<not> invalid_binding i now" and r: "find_undertaking db u = Some r" by auto
    have plain: "nullableString (wu_selected r) = wu_selected r" and id: "wu_id r = u"
      using find_row_ok [OF inv r] by (auto simp: selected_text [OF inv])
    note slot = slot_text [OF inv]
    show ?thesis
    proof (cases "wu_state r = U_dispatching \<and> wu_selected r = Some (bn_operation i)")
      case True
      then have eq: "?res = rebind i (mapRow r) now db"
        using valid r i plain by (simp add: bindWorkerUndertakingToOperation_def rowById_find)
      have "holding (wu_state r)" using True by (simp add: holding_def)
      from rebind_same [OF inv r this i] True r show ?thesis
        unfolding eq by (auto simp: bound_to_def)
    next
      case fresh: False
      consider (busy) "wu_state r \<noteq> U_queued" | (held) "wu_state r = U_queued" "sl_undertaking (qd_slot db) \<noteq> None"
        | (other) "wu_state r = U_queued" "sl_undertaking (qd_slot db) = None"
            "wu_selected r \<noteq> None" "wu_selected r \<noteq> Some (bn_operation i)"
        | (bind) "wu_state r = U_queued" "sl_undertaking (qd_slot db) = None"
            "wu_selected r = None \<or> wu_selected r = Some (bn_operation i)" by fast
      then show ?thesis
      proof cases
        case bind
        let ?r = "to_dispatching i now r"
        let ?rows = "sql_update (\<lambda>r. wu_id r = u \<and> wu_state r = U_queued) (to_dispatching i now) (qd_rows db)"
        have rows: "db\<lparr>qd_rows := ?rows\<rparr> = put_row u ?r db"
          using update_row [OF inv r, of "\<lambda>s. s = U_queued" "to_dispatching i now"] bind(1)
          by (simp add: update_undertaking_def)
        have eq: "?res = (case store_undertakings ?rows db of
              Inl _ \<Rightarrow> (Inl ''binding_failed'', db)
            | Inr db1 \<Rightarrow>
              (case admit (qd_ops db1) of
                 (Inl _, ops) \<Rightarrow> (Inl ''binding_failed'', db)
               | (Inr (o_id, created), ops) \<Rightarrow>
                   if o_id \<noteq> bn_operation i then (Inl ''binding_failed'', db)
                   else let db2 = claim_slot u (bn_operation i) (claim_token u now) (now + bn_lease i) now
                       (db1\<lparr>qd_ops := ops\<rparr>)
                     in if \<not> holds_slot i db2 then (Inl ''worker_busy'', db)
                        else (case rowById db2 u of
                            None \<Rightarrow> (Inl ''binding_failed'', db2) | Some r \<Rightarrow> (Inr (r, created), db2))))"
          using valid r i plain bind fresh slot
          by (auto simp: bindWorkerUndertakingToOperation_def rowById_find Let_def)
        show ?thesis
        proof (cases "store_undertakings ?rows db")
          case (Inl err)
          then show ?thesis by (intro refused) (simp_all add: eq)
        next
          case (Inr db1)
          then have db1: "db1 = put_row u ?r db" and ix: "undertaking_indexes (qd_rows (put_row u ?r db))"
            using rows [symmetric] by (auto simp: store_undertakings_eq)
          have ops1: "qd_ops db1 = qd_ops db" "qd_slot db1 = qd_slot db" by (simp_all add: db1 put_row_def)
          show ?thesis
          proof (cases "\<exists>cr ops. admit (qd_ops db) = (Inr (bn_operation i, cr), ops)")
            case False
            then show ?thesis
              by (cases "admit (qd_ops db)"; cases "fst (admit (qd_ops db))"; intro refused)
                (auto simp: eq Inr ops1)
          next
            case True
            then obtain cr ops where ad: "admit (qd_ops db) = (Inr (bn_operation i, cr), ops)" by blast
            let ?slot = "\<lparr>sl_undertaking = Some u, sl_operation = Some (bn_operation i),
              sl_token = Some (claim_token u now), sl_expires = Some (now + bn_lease i), sl_updated = now\<rparr>"
            let ?db = "(put_row u ?r db)\<lparr>qd_ops := ops, qd_slot := ?slot\<rparr>"
            have claim: "claim_slot u (bn_operation i) (claim_token u now) (now + bn_lease i) now (db1\<lparr>qd_ops := ops\<rparr>) = ?db"
              using bind(2) ops1 by (simp add: claim_slot_def db1 put_row_def)
            have "u \<noteq> []" "bn_operation i \<noteq> []" using valid i by (auto simp: invalid_binding_def)
            then have holds: "holds_slot i ?db"
              using i by (simp add: holds_slot_def getWorkerExecutionSlot_def text_of_def Let_def)
            have find: "find_undertaking ?db u = Some ?r"
              using find_put_row [OF r, of ?r] id by (simp add: find_undertaking_def to_dispatching_def)
            have res: "?res = (Inr (mapRow ?r, cr), ?db)"
              unfolding eq by (simp add: Inr ops1 ad claim holds rowById_find find Let_def)
            have "bound_to u (bn_operation i) ?db (mapRow ?r)"
              unfolding bound_to_def using find bind(3) by (auto simp: to_dispatching_def coalesce_def)
            moreover have "changes db ?db"
              by (rule bind_new [OF inv r bind(1) i bind(3) bind(2) ix ad]) simp
            ultimately show ?thesis unfolding res by simp
          qed
        qed
      qed (use valid r i plain fresh slot in \<open>intro refused; auto simp: bindWorkerUndertakingToOperation_def rowById_find\<close>)+
    qed
  qed
qed

end

text \<open>The admission of the service pass.\<close>

lemma undertaking_key_inject:
  "detachedIdempotencyKeyForWorkerUndertaking u = detachedIdempotencyKeyForWorkerUndertaking v \<longleftrightarrow> u = v"
  by (simp add: detachedIdempotencyKeyForWorkerUndertaking_def)

interpretation admission: operation_admission "admit_for sha r c now" "wu_id r"
proof unfold_locales
  fix ops i cr ops'
  assume inv: "op_inv ops" and links: "\<forall>d \<in> set ops. key_link d" and ad: "admit_for sha r c now ops = (Inr (i, cr), ops')"
  let ?a = "\<lparr>ad_key = detachedIdempotencyKeyForWorkerUndertaking (wu_id r), ad_conversation = c,
         ad_cycle = wu_cycle r, ad_generation = wu_generation r, ad_origin = Some (wu_origin r),
         ad_ref = Some (wu_ref r), ad_ownerEvent = wu_ownerEvent r, ad_evidence = wu_evidence r,
         ad_undertaking = Some (wu_id r), ad_request = wu_request r, ad_purpose = wu_purpose r,
         ad_need = wu_need r, ad_deadline = now + DETACHED_OPERATION_DEFAULT_DEADLINE_MS\<rparr>"
  obtain res rows where res: "admitDetachedOperation sha ?a now ops = (res, rows)" by fastforce
  from ad obtain d where d: "res = Inr (d, cr)" "i = op_id d" "ops' = rows"
    unfolding admit_for_def res by (auto split: sum.splits)
  from inv res show "(ops' = ops \<or> (\<exists>d. ops' = ops @ [d] \<and> op_inv ops' \<and> op_start d = None \<and> op_terminal d = None \<and>
      key_link d)) \<and> (\<exists>d. getDetachedOperation ops' i = Some d \<and> op_undertaking d = Some (wu_id r))"
  proof (cases rule: admit_result)
    case (refused err)
    with d show ?thesis by simp
  next
    case (present q)
    then have "op_undertaking q = Some (wu_id r)" using links by (simp add: key_link_def)
    with present d inv show ?thesis by (auto simp: get_operation_eq)
  next
    case (admitted q)
    then have "q \<in> set rows" "op_undertaking q = Some (wu_id r)" "op_start q = None" "op_terminal q = None"
      "op_key q = detachedIdempotencyKeyForWorkerUndertaking (wu_id r)"
      by (simp_all add: admitted_row_def)
    with admitted d show ?thesis by (auto simp: get_operation_eq key_link_def undertaking_key_inject)
  qed
qed

end
