(* ===== verification/Worker_Upkeep.thy ===== *)
theory Worker_Upkeep
  imports Worker_Binding
begin

text \<open>
  Recovery and upkeep: the repair of the slot, the recovery of expired claims, the expiry of curiosity
  and the completion events, each a sequence of changes. Under the invariant the slot's undertaking
  exists, holds the slot and has its operation, so the branches of the code for a slot, a row or an
  operation that is missing are never taken.
\<close>

section \<open>Calls on the operations\<close>

lemma on_operations_keep: "ops_keep (qd_ops db) (snd (f (qd_ops db))) \<Longrightarrow> changes db (snd (on_operations f db))"
  by (auto simp: on_operations_def split: prod.split intro!: r_into_rtranclp qc_keep)

lemma operation_calls:
  assumes "queue_inv db"
  shows "changes db (snd (on_operations (requestDetachedOperationCancel i now) db))"
    "changes db (snd (on_operations (resolveDetachedOperationCancel i c p now) db))"
    "changes db (snd (on_operations (setDetachedOperationTerminal i e now) db))"
    "changes db (snd (on_operations (markDetachedOperationWaiting i w now) db))"
    "changes db (snd (on_operations (supersedeDetachedOperation i b s now) db))"
    "changes db (snd (on_operations (reconcileDetachedOperations now) db))"
  using queue_invD(1) [OF assms]
  by (auto intro!: on_operations_keep cancel_request_keeps resolve_keeps terminal_keeps waiting_keeps
    supersede_keeps reconcile_keeps)

lemma completion_keeps: "ops_keep ops (sql_update (\<lambda>q. op_id q = i) (\<lambda>q. q\<lparr>op_completion := e, op_updated := now\<rparr>) ops)"
proof (rule ops_keep_update)
  show "op_keeps r (r\<lparr>op_completion := e, op_updated := now\<rparr>)" for r
    by (cases "op_terminal r") (auto simp: op_keeps_def op_ok_def)
qed

lemma complete_changes:
  assumes inv: "queue_inv db"
  shows "changes db (snd (produceOperationCompletion ap i now db))"
proof -
  let ?e = "completionEventIdFor i"
  let ?db1 = "db\<lparr>qd_inbox := append_once ?e (qd_inbox db)\<rparr>"
  let ?db2 = "?db1\<lparr>qd_ops := sql_update (\<lambda>q. op_id q = i) (\<lambda>q. q\<lparr>op_completion := Some ?e, op_updated := now\<rparr>) (qd_ops ?db1)\<rparr>"
  have "distinct (append_once ?e (qd_inbox db))" using inv by (simp add: queue_inv_def append_once_def)
  then have one: "changes db ?db1" by (intro r_into_rtranclp qc_inbox)
  have two: "changes db ?db2"
    by (rule rtranclp.rtrancl_into_rtrancl [OF one]) (rule qc_keep, rule completion_keeps)
  show ?thesis
  proof (cases "getDetachedOperation (qd_ops db) i")
    case (Some r)
    with one two show ?thesis
      by (cases ap) (auto simp: produceOperationCompletion_def Let_def)
  qed (simp add: produceOperationCompletion_def)
qed

section \<open>The repair of the slot\<close>

lemma holding_row:
  assumes inv: "queue_inv db" and "sl_undertaking (qd_slot db) = Some u"
  obtains r d where "find_undertaking db u = Some r" "holding (wu_state r)" "selected_operation db r = Some d" "op_ok d"
proof -
  from assms obtain r where r: "r \<in> set (qd_rows db)" "wu_id r = u" by (auto simp: queue_inv_def)
  then have find: "find_undertaking db u = Some r" using find_undertaking_eq [OF inv, of u r] by simp
  have ok: "row_ok db r" using queue_invD(3) [OF inv r(1)] .
  then have "holding (wu_state r)" using assms(2) r(2) by (simp add: row_ok_def)
  moreover from this ok obtain i where "wu_selected r = Some i" by (auto simp: row_ok_def)
  moreover from this ok obtain d where "getDetachedOperation (qd_ops db) i = Some d" by (auto simp: row_ok_def)
  ultimately show thesis
    using that [OF find] get_operation_ok [OF queue_invD(1) [OF inv]] by (auto simp: selected_operation_def)
qed

lemma snd_repaired_if [simp]: "snd (repaired_if u x) = snd x"
  by (simp add: repaired_if_def split: prod.split)

lemma repair_changes:
  assumes inv: "queue_inv db"
  shows "changes db (snd (repairWorkerExecutionSlot now db))"
proof (cases "sl_undertaking (qd_slot db)")
  case None
  then show ?thesis by (simp add: repairWorkerExecutionSlot_def slot_text [OF inv])
next
  case (Some u)
  from holding_row [OF inv Some] obtain r d where
    r: "find_undertaking db u = Some r" "holding (wu_state r)" "selected_operation db r = Some d" "op_ok d" .
  have sel: "selected_operation db (mapRow r) = selected_operation db r"
    using find_row_ok [OF inv r(1)] by (simp add: selected_operation_mapRow [OF inv])
  have live: "wu_state r \<notin> {U_succeeded, U_failed, U_unknown, U_cancelled, U_superseded, U_expired}"
    using r(2) by (auto simp: holding_def)
  have "wu_selected r \<noteq> None" using r(3) by (auto simp: selected_operation_def split: option.splits)
  with r(1) have project: "changes db (snd (projectWorkerUndertakingTerminal u e reason now db))" for e reason
    by (intro project_changes [OF inv]) auto
  have requeue: "changes db (snd (requeueWorkerUndertakingAfterCapacity u c now db))" if "unstarted (op_state d)" for c
    using that r(1,3) by (intro requeue_changes [OF inv]) auto
  show ?thesis
  proof (cases "op_terminal d")
    case (Some t)
    with project r sel live \<open>sl_undertaking (qd_slot db) = Some u\<close> show ?thesis
      by (simp add: repairWorkerExecutionSlot_def slot_text [OF inv] rowById_find)
  next
    case None
    then have "unstarted (op_state d) \<or> op_state d = Op_started" using op_okD(2,3) [OF r(4)] by auto
    with None requeue r sel live \<open>sl_undertaking (qd_slot db) = Some u\<close> show ?thesis
      by (auto simp: repairWorkerExecutionSlot_def slot_text [OF inv] rowById_find)
  qed
qed

section \<open>Expired claims\<close>

lemma recover_row:
  assumes inv: "queue_inv db" and r: "find_undertaking db u = Some r" "selected_operation db r = Some d"
    and d: "unstarted (op_state d)" and now: "safeMs now"
    and f: "\<And>r. wu_state r = U_dispatching \<Longrightarrow> row_moves r (f r) \<and> wu_state (f r) = U_queued \<and> wu_selected (f r) = wu_selected r"
  shows "changes db (snd (releaseWorkerExecutionSlot u now (update_undertaking u (\<lambda>s. s = U_dispatching) f db)))"
proof -
  have release: "releaseWorkerExecutionSlot u now x = clearWorkerExecutionSlot u now x" for x
    using find_row_ok [OF inv r(1)] now by (simp add: releaseWorkerExecutionSlot_def)
  have ok: "op_ok d" using r(2) get_operation_ok [OF queue_invD(1) [OF inv]]
    by (auto simp: selected_operation_def split: option.splits)
  show ?thesis
  proof (cases "wu_state r = U_dispatching")
    case True
    have quiet: "op_state e \<noteq> Op_started" if "selected_operation db r = Some e" for e
      using that r(2) d by (auto simp: unstarted_def)
    show ?thesis unfolding release
      by (rule unclaim_changes [OF inv f _ r(1) True]) (use quiet r(1) in auto)
  next
    case False
    have "wu_state r \<noteq> U_running"
      using find_row_ok [OF inv r(1)] r(2) d op_okD(3) [OF ok] by (auto simp: row_ok_def)
    with False have "sl_undertaking (qd_slot db) \<noteq> Some u"
      using find_row_ok [OF inv r(1)] by (auto simp: row_ok_def holding_def)
    with False show ?thesis unfolding release update_row [OF inv r(1)] by (simp add: clear_id)
  qed
qed

definition claim_of :: "queue_db \<Rightarrow> string \<times> string option \<Rightarrow> bool" where
  "claim_of db p \<longleftrightarrow> snd p \<noteq> None \<and> (\<exists>r. find_undertaking db (fst p) = Some r \<and> wu_selected r = snd p)"

lemma claim_of_stays: "changes db db' \<Longrightarrow> queue_inv db \<Longrightarrow> claim_of db p \<Longrightarrow> claim_of db' p"
  using changes_row [of db db' "fst p"] by (auto simp: claim_of_def row_moves_def)

lemma recover_claim_changes:
  assumes inv: "queue_inv db" and p: "claim_of db p" and now: "safeMs now"
  shows "changes db (snd (recover_claim now p (ids, db)))"
proof -
  obtain u i where pair: "p = (u, Some i)" using p by (cases p) (auto simp: claim_of_def)
  with p obtain r where r: "find_undertaking db u = Some r" "wu_selected r = Some i" by (auto simp: claim_of_def)
  with find_row_ok [OF inv r(1)] obtain d where d: "getDetachedOperation (qd_ops db) i = Some d"
    by (auto simp: row_ok_def)
  then have ok: "op_ok d" "i \<noteq> []" using get_operation_ok [OF queue_invD(1) [OF inv] d] by (auto simp: op_ok_def)
  have sel: "selected_operation db r = Some d" using r(2) d by (simp add: selected_operation_def)
  let ?f = "\<lambda>r. (unclaim r)\<lparr>wu_blocked := Some Capacity, wu_probe := Some now, wu_updated := now\<rparr>"
  have "row_moves r (?f r) \<and> wu_state (?f r) = U_queued \<and> wu_selected (?f r) = wu_selected r"
    if "wu_state r = U_dispatching" for r
    using that by (simp add: unclaim_def row_moves_def active_def pending_def)
  then have "changes db (snd (releaseWorkerExecutionSlot u now (update_undertaking u (\<lambda>s. s = U_dispatching) ?f db)))"
    if "unstarted (op_state d)"
    using that by (intro recover_row [OF inv r(1) sel _ now])
  moreover have "unstarted (op_state d) \<or> op_terminal d \<noteq> None \<or> op_state d = Op_started"
    using op_okD(2,3) [OF ok(1)] by auto
  ultimately show ?thesis
    using ok(2) d unfolding pair by (auto simp: recover_claim_def text_of_def Let_def)
qed

lemma recover_fold:
  assumes "queue_inv db" "\<forall>p \<in> set ps. claim_of db p" "safeMs now"
  shows "changes db (snd (fold (recover_claim now) ps (ids, db)))"
  using assms(1,2)
proof (induction ps arbitrary: ids db)
  case (Cons p ps)
  obtain ids1 db1 where one: "recover_claim now p (ids, db) = (ids1, db1)" by fastforce
  have first: "changes db db1"
    using recover_claim_changes [OF Cons.prems(1) _ assms(3), of p ids] Cons.prems(2) one by simp
  have later: "\<forall>p \<in> set ps. claim_of db1 p" using claim_of_stays [OF first Cons.prems(1)] Cons.prems(2) by simp
  have "changes db1 (snd (fold (recover_claim now) ps (ids1, db1)))" if "queue_inv db1"
    by (rule Cons.IH [OF that later])
  then have "changes db (snd (fold (recover_claim now) ps (ids1, db1)))"
    by (rule changes_then [OF first Cons.prems(1)])
  then show ?case using one by simp
qed simp

lemma recover_changes:
  assumes inv: "queue_inv db"
  shows "changes db (snd (recoverExpiredDispatchClaims now db))"
proof -
  let ?ps = "map (\<lambda>r. (wu_id r, wu_selected r)) (sort_key wu_id (filter (\<lambda>r. wu_state r = U_dispatching \<and>
          (case wu_claim r of None \<Rightarrow> False | Some t \<Rightarrow> t \<le> now)) (qd_rows db)))"
  have "claim_of db (wu_id r, wu_selected r)" if "r \<in> set (qd_rows db)" "wu_state r = U_dispatching" for r
    using that queue_invD(3) [OF inv that(1)] find_undertaking_eq [OF inv, of "wu_id r" r]
    by (auto simp: claim_of_def row_ok_def holding_def)
  then have "\<forall>p \<in> set ?ps. claim_of db p" by auto
  with recover_fold [OF inv, of ?ps now "[]"] show ?thesis by (simp add: recoverExpiredDispatchClaims_def)
qed

section \<open>Curiosity and the whole upkeep\<close>

lemma selected_operation_get:
  assumes "queue_inv db" "selected_operation db r = Some d"
  shows "wu_selected r = Some (op_id d)" "getDetachedOperation (qd_ops db) (op_id d) = Some d" "op_ok d"
  using assms get_operation_ok [OF queue_invD(1) [OF assms(1)]]
  by (auto simp: selected_operation_def split: option.splits)

lemma expire_one_changes:
  assumes inv: "queue_inv db"
  shows "changes db (snd (expire_prestart now r (ids, db)))"
proof -
  let ?skip = "wu_origin r \<noteq> Ashley_curiosity \<or> \<not> (wu_state r = U_queued \<or> wu_state r = U_dispatching) \<or>
        (case wu_expires r of None \<Rightarrow> True | Some t \<Rightarrow> t > now)"
  let ?over = "\<lambda>db1. snd (case projectWorkerUndertakingTerminal (wu_id r) Qe_expired (Some ''curiosity_ttl_expired'') now db1 of
      (projected, db2) \<Rightarrow> ((case projected of None \<Rightarrow> ids | Some q \<Rightarrow> if wu_state q = U_expired then ids @ [wu_id r] else ids), db2))"
  have over: "changes db (?over db1)" if "changes db db1" for db1
    using changes_then [OF that inv project_changes, of "wu_id r" Qe_expired "Some ''curiosity_ttl_expired''" now]
    by (simp add: split_def)
  show ?thesis
  proof (cases ?skip)
    case True
    then show ?thesis by (simp add: expire_prestart_def)
  next
    case run: False
    show ?thesis
    proof (cases "selected_operation db r")
      case None
      then show ?thesis using run over [of db] by (simp add: expire_prestart_def)
    next
      case (Some d)
      note d = selected_operation_get [OF inv Some]
      show ?thesis
      proof (cases "op_state d = Op_started")
        case True
        then have "op_start d \<noteq> None" using op_okD(2) [OF d(3)] by simp
        then have "changes db (snd (markWorkerUndertakingRunning (wu_id r) (op_id d) now db))"
          using d(2) by (intro mark_running_changes [OF inv]) auto
        then show ?thesis using run Some True by (simp add: expire_prestart_def)
      next
        case False
        let ?db1 = "if op_terminal d \<noteq> None then db
                else snd (on_operations (resolveDetachedOperationCancel (op_id d) ''curiosity-ttl'' None now)
                  (snd (on_operations (requestDetachedOperationCancel (op_id d) now) db)))"
        have "changes db ?db1"
          using changes_then [OF operation_calls(1) [OF inv] inv operation_calls(2)] by simp
        from over [OF this] show ?thesis using run Some False by (simp add: expire_prestart_def)
      qed
    qed
  qed
qed

lemma fold_changes_snd:
  "(\<And>x y db. queue_inv db \<Longrightarrow> changes db (snd (f x (y, db)))) \<Longrightarrow> queue_inv db \<Longrightarrow>
     changes db (snd (fold f xs (y, db)))"
proof (induction xs arbitrary: y db)
  case (Cons x xs)
  obtain y1 db1 where "f x (y, db) = (y1, db1)" by fastforce
  with Cons show ?case using changes_then [of db db1] by (metis fold_simps(2) snd_conv)
qed simp

lemma upkeep_changes:
  assumes inv: "queue_inv db"
  shows "changes db (snd (service_upkeep now db))"
proof -
  define db1 where "db1 = snd (repairWorkerExecutionSlot now db)"
  define db2 where "db2 = snd (expirePreStartCuriosity now db1)"
  define db3 where "db3 = snd (expireQueuedCuriosity now db2)"
  define db4 where "db4 = snd (recoverExpiredDispatchClaims now db3)"
  define db5 where "db5 = snd (on_operations (reconcileDetachedOperations now) db4)"
  have "changes db db1" unfolding db1_def by (rule repair_changes [OF inv])
  then have c2: "changes db db2"
    by (rule changes_then [OF _ inv]) (auto simp: db2_def expirePreStartCuriosity_def intro: fold_changes_snd expire_one_changes)
  have c3: "changes db db3"
    by (rule changes_then [OF c2 inv]) (simp add: db3_def expire_queued_changes)
  have c4: "changes db db4" by (rule changes_then [OF c3 inv]) (simp add: db4_def recover_changes)
  have c5: "changes db db5" by (rule changes_then [OF c4 inv]) (simp add: db5_def operation_calls)
  have "changes db (snd (repairWorkerExecutionSlot now db5))"
    by (rule changes_then [OF c5 inv]) (rule repair_changes)
  then show ?thesis
    by (simp add: service_upkeep_def Let_def split_def db5_def db4_def db3_def db2_def db1_def)
qed

end
