(* ===== verification/Worker_Pass.thy ===== *)
theory Worker_Pass
  imports Worker_Upkeep
begin

text \<open>
  The stretches of a service pass. Each is a sequence of changes, except that the one after the probe
  may start the operation the pass waits with; \<open>flight_ok\<close> is what a waiting pass may rely on: the
  undertaking it serves is bound to the operation, and until the start it is dispatching.
\<close>

section \<open>The start of an operation\<close>

definition serves :: "queue_db \<Rightarrow> string \<Rightarrow> string \<Rightarrow> bool" where
  "serves db u i \<longleftrightarrow> (\<exists>r. find_undertaking db u = Some r \<and> wu_selected r = Some i)"

definition waits_with :: "queue_db \<Rightarrow> string \<Rightarrow> string \<Rightarrow> bool" where
  "waits_with db u i \<longleftrightarrow>
     (\<exists>r. find_undertaking db u = Some r \<and> wu_selected r = Some i \<and> wu_state r = U_dispatching)"

fun flight_ok :: "queue_db \<Rightarrow> flight \<Rightarrow> bool" where
  "flight_ok db (Probe_bound now u r) \<longleftrightarrow> waits_with db u (op_id r)"
| "flight_ok db (Worker_runs now u r) \<longleftrightarrow> serves db u (op_id r)"
| "flight_ok db _ \<longleftrightarrow> True"

lemma serves_stays: "changes db db' \<Longrightarrow> queue_inv db \<Longrightarrow> serves db u i \<Longrightarrow> serves db' u i"
  using changes_row [of db db' u] by (auto simp: serves_def row_moves_def)

lemma find_ops [simp]: "find_undertaking (db\<lparr>qd_ops := ops\<rparr>) u = find_undertaking db u"
  by (simp add: find_undertaking_def)

lemma served_operation:
  assumes "queue_inv db" "serves db u i"
  obtains d where "getDetachedOperation (qd_ops db) i = Some d" "op_undertaking d = Some u" "op_ok d"
proof -
  obtain r where r: "find_undertaking db u = Some r" "wu_selected r = Some i" using assms(2) by (auto simp: serves_def)
  from find_row_ok [OF assms(1) r(1)] r(2) obtain d where
    "getDetachedOperation (qd_ops db) i = Some d" "op_undertaking d = Some u" by (auto simp: row_ok_def)
  with that get_operation_ok [OF queue_invD(1) [OF assms(1)]] show thesis by blast
qed

text \<open>An operation is the one of a single undertaking.\<close>

lemma selected_once:
  assumes "queue_inv db" "q \<in> set (qd_rows db)" "wu_selected q = Some i" "serves db u i"
  shows "wu_id q = u"
proof -
  have "row_ok db q" using queue_invD(3) [OF assms(1,2)] .
  with assms(3) obtain d where "getDetachedOperation (qd_ops db) i = Some d" "op_undertaking d = Some (wu_id q)"
    by (auto simp: row_ok_def)
  with served_operation [OF assms(1,4)] show ?thesis by (metis option.inject)
qed

lemma start_row_ok:
  assumes inv: "queue_inv db" and start: "ops_start i (qd_ops db) ops" and q: "q \<in> set (qd_rows db)"
    and here: "wu_selected q = Some i \<Longrightarrow> wu_state q = U_dispatching"
  shows "row_ok (db\<lparr>qd_ops := ops\<rparr>) q"
proof (cases "wu_selected q")
  case None
  with queue_invD(3) [OF inv q] show ?thesis by (auto simp: row_ok_def selected_operation_def)
next
  case (Some j)
  have ok: "row_ok db q" using queue_invD(3) [OF inv q] .
  with Some obtain d where d: "getDetachedOperation (qd_ops db) j = Some d" "op_undertaking d = Some (wu_id q)"
    by (auto simp: row_ok_def)
  from ops_start_get [OF start d(1)] obtain d' where
    d': "getDetachedOperation ops j = Some d'" "if j = i then op_starts d d' else d' = d" by blast
  have link: "op_undertaking d' = Some (wu_id q)" using d(2) d'(2) by (auto simp: op_starts_def split: if_splits)
  show ?thesis
  proof (cases "j = i")
    case True
    with here Some have "wu_state q = U_dispatching" by simp
    with ok Some d'(1) link show ?thesis by (simp add: row_ok_def selected_operation_def)
  next
    case False
    with ok Some d d' show ?thesis by (simp add: row_ok_def selected_operation_def)
  qed
qed

lemma start_inv:
  assumes inv: "queue_inv db" and start: "ops_start i (qd_ops db) ops" and waits: "waits_with db u i"
  shows "queue_inv (db\<lparr>qd_ops := ops\<rparr>)"
proof (rule change_ops_inv [OF inv])
  show "op_inv ops" using start queue_invD(1) [OF inv] by (rule ops_start_inv)
  have link: "op_starts d d' \<Longrightarrow> key_link d \<Longrightarrow> key_link d'" for d d'
    unfolding op_starts_def key_link_def by metis
  have "list_all2 (\<lambda>r r'. if op_id r = i then op_starts r r' else r' = r) (qd_ops db) ops"
    using start by (simp add: ops_start_def)
  then have "(\<forall>d \<in> set (qd_ops db). key_link d) \<longrightarrow> (\<forall>d \<in> set ops. key_link d)"
    by (induction rule: list_all2_induct) (auto intro: link split: if_splits)
  with queue_invD(4) [OF inv] show "\<forall>d \<in> set ops. key_link d" by blast
  show "row_ok (db\<lparr>qd_ops := ops\<rparr>) q" if q: "q \<in> set (qd_rows db)" for q
  proof (rule start_row_ok [OF inv start q])
    assume "wu_selected q = Some i"
    with selected_once [OF inv q] waits have "wu_id q = u" by (auto simp: serves_def waits_with_def)
    with q waits find_undertaking_eq [OF inv, of u q] show "wu_state q = U_dispatching"
      by (auto simp: waits_with_def)
  qed
qed

text \<open>\<open>starts db i db'\<close>: from \<open>db\<close> to \<open>db'\<close> exactly the operation \<open>i\<close> was started.\<close>

definition starts :: "queue_db \<Rightarrow> string \<Rightarrow> queue_db \<Rightarrow> bool" where
  "starts db i db' \<longleftrightarrow> (\<exists>ops. ops_start i (qd_ops db) ops \<and> queue_inv (db\<lparr>qd_ops := ops\<rparr>) \<and>
     changes (db\<lparr>qd_ops := ops\<rparr>) db')"

lemma starts_inv: "starts db i db' \<Longrightarrow> queue_inv db'"
  unfolding starts_def using queue.steps_inv by blast

lemma starts_row:
  "starts db i db' \<Longrightarrow> find_undertaking db u = Some r \<Longrightarrow> \<exists>r'. find_undertaking db' u = Some r' \<and> row_moves r r'"
  using changes_row [of "db\<lparr>qd_ops := ops\<rparr>" db' u r for ops] by (auto simp: starts_def)

lemma starts_operation:
  assumes "starts db i db'" "getDetachedOperation (qd_ops db) j = Some d"
  shows "\<exists>d'. getDetachedOperation (qd_ops db') j = Some d' \<and> op_undertaking d' = op_undertaking d"
proof -
  obtain ops where ops: "ops_start i (qd_ops db) ops" "changes (db\<lparr>qd_ops := ops\<rparr>) db'"
    using assms(1) by (auto simp: starts_def)
  from ops_start_get [OF ops(1) assms(2)] obtain d1 where
    "getDetachedOperation ops j = Some d1" "op_undertaking d1 = op_undertaking d"
    by (auto simp: op_starts_def split: if_splits)
  with changes_operation [OF ops(2), of j d1] show ?thesis by (auto simp: op_keeps_def)
qed

lemma starts_started:
  assumes "starts db i db'" "queue_inv db"
  shows "started_ops db' = insert i (started_ops db)" "i \<notin> started_ops db"
proof -
  obtain ops where ops: "ops_start i (qd_ops db) ops" "queue_inv (db\<lparr>qd_ops := ops\<rparr>)" "changes (db\<lparr>qd_ops := ops\<rparr>) db'"
    using assms(1) by (auto simp: starts_def)
  let ?started = "\<lambda>rows j. \<exists>d. getDetachedOperation rows j = Some d \<and> op_start d \<noteq> None"
  have all: "list_all2 (\<lambda>r r'. if op_id r = i then op_starts r r' else r' = r) (qd_ops db) ops"
    using ops(1) by (simp add: ops_start_def)
  then have others: "j \<noteq> i \<Longrightarrow> getDetachedOperation ops j = getDetachedOperation (qd_ops db) j" for j
    unfolding getDetachedOperation_def
    by (induction rule: list_all2_induct) (auto simp: op_starts_def split: if_splits)
  have "i \<in> op_id ` set (qd_ops db)" using ops(1) by (simp add: ops_start_def)
  then obtain d where "d \<in> set (qd_ops db)" "op_id d = i" by blast
  then have d: "getDetachedOperation (qd_ops db) i = Some d"
    using get_operation_eq [OF queue_invD(1) [OF assms(2)]] by simp
  from ops_start_get [OF ops(1) d] have now_started: "?started ops i" and before: "op_start d = None"
    by (auto simp: op_starts_def)
  show "i \<notin> started_ops db" using d before by (simp add: started_ops_def)
  have "started_ops (db\<lparr>qd_ops := ops\<rparr>) = insert i (started_ops db)"
    using others now_started unfolding started_ops_def by (auto, metis+)
  with changes_started [OF ops(3,2)] show "started_ops db' = insert i (started_ops db)" by simp
qed

section \<open>The dispatch of one operation\<close>

text \<open>What a stretch of the dispatch leaves: it is over, it waits for the probe, or the worker was started.\<close>

lemma finish_changes:
  assumes inv: "queue_inv db" and serves: "serves db u i"
  shows "changes db (snd (finishTerminal am u terminal db))" "\<exists>x. fst (finishTerminal am u terminal db) = Dispatched x"
proof -
  define db1 where "db1 = snd (produceOperationCompletion (am_appends am (op_id terminal)) (op_id terminal) (am_later am) db)"
  have c1: "changes db db1" unfolding db1_def by (rule complete_changes [OF inv])
  have bound: "wu_selected r \<noteq> None" if "find_undertaking db1 u = Some r" for r
    using serves_stays [OF c1 inv serves] that by (auto simp: serves_def)
  show "changes db (snd (finishTerminal am u terminal db))"
    unfolding finishTerminal_def Let_def db1_def [symmetric]
    by simp (rule changes_then [OF c1 inv], rule project_changes, use bound in auto)
  show "\<exists>x. fst (finishTerminal am u terminal db) = Dispatched x" by (simp add: finishTerminal_def Let_def)
qed

lemma end_and_finish_changes:
  assumes inv: "queue_inv db" and c: "changes db db1" and serves: "serves db u i"
  shows "changes db (snd (end_and_finish am u (res, db1)))" "\<exists>x. fst (end_and_finish am u (res, db1)) = Dispatched x"
proof -
  note s1 = serves_stays [OF c inv serves] and i1 = queue.steps_inv [OF c inv]
  show "changes db (snd (end_and_finish am u (res, db1)))"
    using finish_changes(1) [OF i1 s1] c
    by (cases res) (auto simp: end_and_finish_def split: prod.split intro: rtranclp_trans)
  show "\<exists>x. fst (end_and_finish am u (res, db1)) = Dispatched x"
    using finish_changes(2) [OF i1 s1] by (cases res) (auto simp: end_and_finish_def split: prod.split)
qed

lemma dispatch_begin_result:
  assumes inv: "queue_inv db" and serves: "serves db u i"
  shows "changes db (snd (dispatch_begin am u i now db)) \<and>
    (case fst (dispatch_begin am u i now db) of
       Dispatched x \<Rightarrow> True | Working r \<Rightarrow> False
     | Asking r \<Rightarrow> op_id r = i \<and> snd (dispatch_begin am u i now db) = db)"
proof -
  obtain d where d: "getDetachedOperation (qd_ops db) i = Some d" "op_ok d"
    using served_operation [OF inv serves] by blast
  have id: "op_id d = i" using get_operation_ok [OF queue_invD(1) [OF inv] d(1)] by simp
  obtain res db1 where call: "on_operations (resolveDetachedOperationCancel i ''capacity-servicer'' None now) db = (res, db1)"
    by fastforce
  then have "changes db db1" using operation_calls(2) [OF inv, of i "''capacity-servicer''" None now] by simp
  note over = end_and_finish_changes [OF inv this serves, of am res]
  show ?thesis
    using d id over by (auto simp: dispatch_begin_def call split: dispatch_state.split)
qed

lemma dispatch_settled_result:
  assumes inv: "queue_inv db" and serves: "serves db u (op_id r)"
  shows "changes db (snd (dispatch_settled am u r result persisted db)) \<and>
    (\<exists>x. fst (dispatch_settled am u r result persisted db) = Dispatched x)"
proof -
  have "changes db (snd (end_and_finish am u (on_operations (setDetachedOperationTerminal (op_id r) e t) db))) \<and>
      (\<exists>x. fst (end_and_finish am u (on_operations (setDetachedOperationTerminal (op_id r) e t) db)) = Dispatched x)" for e t
  proof -
    obtain res db1 where call: "on_operations (setDetachedOperationTerminal (op_id r) e t) db = (res, db1)" by fastforce
    then have "changes db db1" using operation_calls(3) [OF inv, of "op_id r" e t] by simp
    from end_and_finish_changes [OF inv this serves, of am res] show ?thesis by (simp add: call)
  qed
  then show ?thesis by (simp add: dispatch_settled_def Let_def)
qed


text \<open>After the probe: nothing was started, or the worker runs and the operation alone was.\<close>

lemma waits_serves: "waits_with db u i \<Longrightarrow> serves db u i"
  by (auto simp: waits_with_def serves_def)

lemma decided_wait:
  assumes inv: "queue_inv db" and waits: "waits_with db u (op_id r)"
    and call: "on_operations (markDetachedOperationWaiting (op_id r) w now) db = (Inr (q, b), db1)"
  shows "changes db (snd (requeueWorkerUndertakingAfterCapacity u c now db1))"
proof -
  have c1: "changes db db1" using operation_calls(4) [OF inv, of "op_id r" w now] call by simp
  have inv1: "queue_inv db1" using c1 inv by (rule queue.steps_inv)
  from call obtain ops where ops: "markDetachedOperationWaiting (op_id r) w now (qd_ops db) = (Inr (q, b), ops)"
    "db1 = db\<lparr>qd_ops := ops\<rparr>" by (auto simp: on_operations_def split: prod.splits)
  have "getDetachedOperation ops (op_id r) = Some q \<and> op_state q = Op_waiting"
    using ops(1) by (auto simp: markDetachedOperationWaiting_def reread_def Let_def split: if_splits option.splits)
  then have q: "getDetachedOperation (qd_ops db1) (op_id r) = Some q" "op_state q = Op_waiting"
    using ops(2) by simp_all
  obtain row where "find_undertaking db1 u = Some row" "wu_selected row = Some (op_id r)"
    using serves_stays [OF c1 inv waits_serves [OF waits]] by (auto simp: serves_def)
  with q have "changes db1 (snd (requeueWorkerUndertakingAfterCapacity u c now db1))"
    by (intro requeue_changes [OF inv1]) (auto simp: selected_operation_def)
  with c1 show ?thesis by simp
qed

lemma decided_start:
  assumes inv: "queue_inv db" and waits: "waits_with db u (op_id r)"
    and call: "on_operations (markDetachedOperationStarted (op_id r) s now) db = (res, db1)"
  obtains (refused) err where "res = Inl err" "db1 = db"
    | (started) q where "res = Inr (q, False)" "op_id q = op_id r"
        "starts db (op_id r) (snd (markWorkerUndertakingRunning u (op_id q) t db1))"
proof -
  obtain ops where ops: "markDetachedOperationStarted (op_id r) s now (qd_ops db) = (res, ops)" "db1 = db\<lparr>qd_ops := ops\<rparr>"
    using call by (auto simp: on_operations_def split: prod.splits)
  from queue_invD(1) [OF inv] ops(1) show thesis
  proof (cases rule: start_result)
    case (refused err)
    with that(1) ops(2) show thesis by (cases db) simp
  next
    case (started d q)
    have inv1: "queue_inv db1" unfolding ops(2) by (rule start_inv [OF inv started(6) waits])
    have id: "op_id q = op_id r" using started(1,3) get_operation_ok [OF queue_invD(1) [OF inv]]
      by (auto simp: to_started_def)
    have "op_start q \<noteq> None" using started(3) by (simp add: to_started_def)
    then have "changes db1 (snd (markWorkerUndertakingRunning u (op_id q) t db1))"
      using started(5) id ops(2) by (intro mark_running_changes [OF inv1]) simp
    with started(6) inv1 ops(2) have "starts db (op_id r) (snd (markWorkerUndertakingRunning u (op_id q) t db1))"
      unfolding starts_def by blast
    with started(4) id show thesis by (intro that(2))
  qed
qed

lemma dispatch_decided_result:
  assumes inv: "queue_inv db" and waits: "waits_with db u (op_id r)"
  shows "case fst (dispatch_decided am u r decision now db) of
      Dispatched x \<Rightarrow> changes db (snd (dispatch_decided am u r decision now db))
    | Asking q \<Rightarrow> False
    | Working q \<Rightarrow> op_id q = op_id r \<and> starts db (op_id r) (snd (dispatch_decided am u r decision now db))"
proof (cases decision)
  case Available
  obtain res db1 where call: "on_operations (markDetachedOperationStarted (op_id r) (dispatch_start r now) now) db = (res, db1)"
    by fastforce
  from inv waits call show ?thesis
  proof (cases rule: decided_start [where t = "am_later am"])
    case (refused err)
    obtain res2 db2 where end_call: "on_operations (setDetachedOperationTerminal (op_id r)
        (ending Oe_failed (Some ''operation_deadline_expired'')) now) db = (res2, db2)" by fastforce
    then have "changes db db2"
      using operation_calls(3) [OF inv, of "op_id r" "ending Oe_failed (Some ''operation_deadline_expired'')" now] by simp
    note over = end_and_finish_changes [OF inv this waits_serves [OF waits], of am res2]
    show ?thesis
    proof (cases "err = ''operation_deadline_exhausted''")
      case True
      with Available call refused end_call over show ?thesis
        by (auto simp: dispatch_decided_def Let_def split: dispatch_state.split)
    next
      case False
      with Available call refused show ?thesis by (simp add: dispatch_decided_def Let_def)
    qed
  next
    case (started q)
    with Available call show ?thesis by (simp add: dispatch_decided_def Let_def)
  qed
next
  case (Unavailable reason probe final)
  show ?thesis
  proof (cases final)
    case True
    obtain res db1 where call: "on_operations (setDetachedOperationTerminal (op_id r) (ending Oe_failed (Some reason)) now) db = (res, db1)"
      by fastforce
    then have "changes db db1" using operation_calls(3) [OF inv, of "op_id r" "ending Oe_failed (Some reason)" now] by simp
    from end_and_finish_changes [OF inv this waits_serves [OF waits], of am res] Unavailable True call show ?thesis
      by (auto simp: dispatch_decided_def Let_def split: dispatch_state.split)
  next
    case False
    obtain res db1 where call: "on_operations (markDetachedOperationWaiting (op_id r) \<lparr>wt_reason = reason, wt_probe = probe\<rparr> now) db = (res, db1)"
      by fastforce
    have c1: "changes db db1"
      using operation_calls(4) [OF inv, of "op_id r" "\<lparr>wt_reason = reason, wt_probe = probe\<rparr>" now] call by simp
    show ?thesis
    proof (cases res)
      case (Inl err)
      with Unavailable False call c1 show ?thesis by (simp add: dispatch_decided_def Let_def)
    next
      case (Inr x)
      obtain q b where "x = (q, b)" by (cases x)
      with decided_wait [OF inv waits, of "\<lparr>wt_reason = reason, wt_probe = probe\<rparr>" now q b db1] Unavailable False call Inr
      show ?thesis by (simp add: dispatch_decided_def Let_def)
    qed
  qed
qed

end
