(* ===== verification/Worker_Service.thy ===== *)
theory Worker_Service
  imports Worker_Pass
begin

text \<open>
  The service pass up to its waits: the undertaking that holds the slot is brought on first, then the
  calendar selects the next one. No stretch of it but the one after the probe of a bound undertaking
  starts an operation.
\<close>

definition quiet_pass :: "queue_db \<Rightarrow> (report \<times> flight) \<times> queue_db \<Rightarrow> bool" where
  "quiet_pass db x \<longleftrightarrow> changes db (snd x) \<and> flight_ok (snd x) (snd (fst x)) \<and>
     (\<forall>n u r. snd (fst x) \<noteq> Worker_runs n u r)"

lemma quiet_pass_trans: "changes db db1 \<Longrightarrow> quiet_pass db1 x \<Longrightarrow> quiet_pass db x"
  by (auto simp: quiet_pass_def)

lemma quiet_idle: "changes db db1 \<Longrightarrow> quiet_pass db ((rep, Idle), db1)"
  by (simp add: quiet_pass_def)

lemma rows_on_operations [simp]: "qd_rows (snd (on_operations f db)) = qd_rows db"
  by (simp add: on_operations_def split: prod.split)

lemma find_on_operations [simp]: "find_undertaking (snd (on_operations f db)) u = find_undertaking db u"
  by (simp add: find_undertaking_def)

section \<open>A bound undertaking\<close>

lemma dispatch_bound:
  assumes inv: "queue_inv db" and waits: "waits_with db u i" and b: "wu_id b = u" "wu_selected b = Some i"
  shows "quiet_pass db (after_dispatch now u rep (dispatchBoundWorkerUndertaking am b now db))"
proof -
  define db0 where "db0 = (if wu_cancel b \<noteq> None then snd (on_operations (requestDetachedOperationCancel i now) db) else db)"
  have c: "changes db db0" unfolding db0_def using operation_calls(1) [OF inv] by simp
  have waits0: "waits_with db0 u i" using waits by (simp add: db0_def waits_with_def)
  have inv0: "queue_inv db0" using c inv by (rule queue.steps_inv)
  obtain d db2 where res: "dispatch_begin am u i now db0 = (d, db2)" by fastforce
  have eq: "dispatchBoundWorkerUndertaking am b now db = (d, db2)"
    using b res by (simp add: dispatchBoundWorkerUndertaking_def db0_def)
  from dispatch_begin_result [OF inv0 waits_serves [OF waits0], of am now] res
  have "changes db0 db2" "case d of Dispatched x \<Rightarrow> True | Working r \<Rightarrow> False | Asking r \<Rightarrow> op_id r = i \<and> db2 = db0"
    by (auto split: dispatch_state.splits)
  with c waits0 show ?thesis
    unfolding eq quiet_pass_def after_dispatch_def
    by (cases d) (auto split: sum.split intro: rtranclp_trans)
qed

lemma one_holder:
  assumes inv: "queue_inv db"
  shows "listDispatchingWorkerUndertakings db n = [] \<or>
    (\<exists>q. find_undertaking db (wu_id q) = Some q \<and> holding (wu_state q) \<and>
       listDispatchingWorkerUndertakings db n = [mapRow q])"
proof -
  let ?held = "by_queue (filter (\<lambda>r. holding (wu_state r)) (qd_rows db))"
  have set: "set ?held = {q \<in> set (qd_rows db). holding (wu_state q)}" by (auto simp: by_queue_def)
  have id: "sl_undertaking (qd_slot db) = Some (wu_id q)" if "q \<in> set ?held" for q
    using that set queue_invD(3) [OF inv] by (auto simp: row_ok_def)
  have "distinct (map wu_id (qd_rows db))" using queue_invD(2) [OF inv] by (simp add: undertaking_indexes_def)
  then have "distinct ?held" by (simp add: by_queue_def distinct_map)
  have same: "q = q'" if "q \<in> set ?held" "q' \<in> set ?held" for q q'
    using id [OF that(1)] id [OF that(2)] that set find_undertaking_eq [OF inv, of "wu_id q" q]
      find_undertaking_eq [OF inv, of "wu_id q" q'] by simp
  have "?held = [] \<or> (\<exists>q. ?held = [q])"
  proof (cases ?held)
    case (Cons q qs)
    then have "qs = []" using same [of q] \<open>distinct ?held\<close> by (cases qs) auto
    with Cons show ?thesis by simp
  qed simp
  then show ?thesis
  proof (elim disjE exE)
    fix q assume q: "?held = [q]"
    with set have "q \<in> set (qd_rows db)" "holding (wu_state q)" by auto
    moreover have "take (if safe_integer n then limit_of n else 50) ?held = [q]"
      unfolding q by (simp add: limit_of_def take_Cons' less_max_iff_disj)
    ultimately show ?thesis
      using find_undertaking_eq [OF inv, of "wu_id q" q] unfolding listDispatchingWorkerUndertakings_def
      by (intro disjI2 exI [of _ q]) simp
  qed (simp add: listDispatchingWorkerUndertakings_def)
qed

lemma refreshed_row:
  assumes "queue_inv db" "find_undertaking db u = Some q" "wu_id r = u"
  shows "refreshed db r = mapRow q"
  using find_row_ok [OF assms(1,2)] assms by (simp add: refreshed_def getWorkerUndertaking_def rowById_find)

lemma converge_one:
  assumes inv: "queue_inv db" and q: "find_undertaking db u = Some q" "holding (wu_state q)"
  shows "case converge am now [mapRow q] rep db of
    Went_through rep' db' \<Rightarrow> changes db db' | Returned x \<Rightarrow> quiet_pass db x"
proof -
  have ok: "row_ok db q" "wu_id q = u" using find_row_ok [OF inv q(1)] by auto
  obtain i where i: "wu_selected q = Some i" using ok(1) q(2) by (auto simp: row_ok_def)
  with ok obtain d where d: "getDetachedOperation (qd_ops db) i = Some d" by (auto simp: row_ok_def)
  then have dok: "op_ok d" "op_id d = i" using get_operation_ok [OF queue_invD(1) [OF inv]] by auto
  have sel: "selected_operation db (mapRow q) = Some d"
    using selected_operation_mapRow [OF inv ok(1)] i d by (simp add: selected_operation_def)
  have text_i: "wu_selected (mapRow q) = Some i" using selected_text [OF inv ok(1)] i by simp
  define db1 where "db1 = (if wu_cancel (refreshed db (mapRow q)) \<noteq> None \<and> op_terminal d = None
      then snd (on_operations (requestDetachedOperationCancel i now) db) else db)"
  have c1: "changes db db1" unfolding db1_def using operation_calls(1) [OF inv] by simp
  have inv1: "queue_inv db1" using c1 inv by (rule queue.steps_inv)
  have q1: "find_undertaking db1 u = Some q" using q(1) by (simp add: db1_def)
  have serves1: "serves db1 u i" using q1 i by (simp add: serves_def)
  show ?thesis
  proof (cases "op_terminal d")
    case (Some t)
    define db2 where "db2 = snd (produceOperationCompletion (am_appends am i) i (am_later am) db1)"
    have c2: "changes db1 db2" unfolding db2_def by (rule complete_changes [OF inv1])
    have inv2: "queue_inv db2" using c2 inv1 by (rule queue.steps_inv)
    have "changes db2 (snd (projectWorkerUndertakingTerminal u (op_end_as t) (op_error d) now db2))"
      using serves_stays [OF c2 inv1 serves1] by (intro project_changes [OF inv2]) (auto simp: serves_def)
    with c1 c2 have "changes db (snd (projectWorkerUndertakingTerminal u (op_end_as t) (op_error d) now db2))" by simp
    with sel Some dok ok show ?thesis by (simp add: Let_def db2_def db1_def)
  next
    case None
    show ?thesis
    proof (cases "op_state d = Op_started")
      case True
      then have "op_start d \<noteq> None" using op_okD(2) [OF dok(1)] by simp
      with changes_operation [OF c1 d] have "changes db1 (snd (markWorkerUndertakingRunning u i now db1))"
        by (intro mark_running_changes [OF inv1]) (auto simp: op_keeps_def)
      with c1 have "changes db (snd (markWorkerUndertakingRunning u i now db1))" by simp
      with sel None True dok ok show ?thesis by (simp add: Let_def db1_def)
    next
      case False
      then have "wu_state q = U_dispatching"
        using None ok(1) q(2) i d op_okD(2) [OF dok(1)] by (auto simp: row_ok_def holding_def selected_operation_def)
      then have "waits_with db1 u i" using q1 i by (simp add: waits_with_def)
      moreover have re: "refreshed db1 (mapRow q) = mapRow q" by (rule refreshed_row [OF inv1 q1]) (simp add: ok)
      ultimately have "quiet_pass db1 (after_dispatch now u rep (dispatchBoundWorkerUndertaking am (refreshed db1 (mapRow q)) now db1))"
        using dispatch_bound [OF inv1, of u i "mapRow q" now rep am] ok(2) text_i by simp
      from quiet_pass_trans [OF c1 this] quiet_idle [OF c1] sel None False dok ok show ?thesis
        by (simp add: Let_def db1_def)
    qed
  qed
qed

section \<open>The stretches of the pass\<close>

lemma service_begin_quiet:
  assumes inv: "queue_inv db"
  shows "quiet_pass db (service_begin am limit now db)"
proof -
  obtain ids db1 where up: "service_upkeep now db = (ids, db1)" by fastforce
  have c1: "changes db db1" using upkeep_changes [OF inv, of now] up by simp
  have inv1: "queue_inv db1" using c1 inv by (rule queue.steps_inv)
  let ?rep = "\<lparr>rt_serviced = [], rt_failed = [], rt_expired = ids, rt_class = None\<rparr>"
  let ?rows = "listDispatchingWorkerUndertakings db1 (service_limit limit)"
  have "case converge am now ?rows ?rep db1 of Went_through rep' db' \<Rightarrow> changes db1 db' | Returned x \<Rightarrow> quiet_pass db1 x"
    using one_holder [OF inv1, of "service_limit limit"] converge_one [OF inv1] by auto
  moreover have "quiet_pass db ((rep, Idle), mark_others_busy u now db2)" if "changes db1 db2" for rep u db2
    using c1 that others_busy_changes by (intro quiet_idle) (meson rtranclp_trans)
  moreover have "quiet_pass db ((rep, Probe_new now s), db2)" if "changes db1 db2" for rep s db2
    using c1 that by (simp add: quiet_pass_def)
  moreover have "quiet_pass db ((rep, Idle), db2)" if "changes db1 db2" for rep db2
    using c1 that by (intro quiet_idle) simp
  ultimately show ?thesis
    using quiet_pass_trans [OF c1]
    by (auto simp: service_begin_def up Let_def split: convergence.splits option.split)
qed

lemma service_bind_quiet:
  assumes inv: "queue_inv db"
  shows "quiet_pass db (service_bind sha am s now rep db)"
proof -
  let ?r = "sn_undertaking s"
  let ?u = "wu_id ?r" and ?c = "text_of (wu_conversation ?r)"
  let ?i = "\<lparr>bn_undertaking = ?u, bn_operation = operation_for sha ?u, bn_calendar = sn_index s,
    bn_lease = WORKER_DISPATCH_CLAIM_LEASE_MS\<rparr>"
  have bad: "changes db (snd (projectWorkerUndertakingTerminal ?u Qe_failed (Some ''invalid_queue_request'') now db))"
    by (rule project_changes [OF inv]) simp
  obtain res db1 where bind: "bindWorkerUndertakingToOperation ?i (admit_for sha ?r ?c now) now db = (res, db1)"
    by fastforce
  from admission.bind_result [OF inv, of ?i ?r sha ?c now now] bind
  have c1: "changes db db1" and bound: "\<And>b cr. res = Inr (b, cr) \<Longrightarrow> bound_to ?u (operation_for sha ?u) db1 b" by auto
  have inv1: "queue_inv db1" using c1 inv by (rule queue.steps_inv)
  show ?thesis
  proof (cases res)
    case (Inl err)
    have "changes db (snd (markWorkerUndertakingWorkerBusy ?u now db1))"
      using c1 busy_changes by (meson rtranclp_trans)
    with quiet_idle [OF c1] quiet_idle [OF bad] quiet_idle [OF this] Inl bind show ?thesis
      by (auto simp: service_bind_def Let_def)
  next
    case (Inr x)
    obtain b cr where x: "x = (b, cr)" by (cases x)
    from bound [of b cr] Inr x obtain r where r: "find_undertaking db1 ?u = Some r" "b = mapRow r"
      "wu_state r = U_dispatching" "wu_selected r = Some (operation_for sha ?u)" by (auto simp: bound_to_def)
    have "row_ok db1 r" "wu_id r = ?u" using find_row_ok [OF inv1 r(1)] by auto
    with r selected_text [OF inv1, of r] have "wu_selected b = Some (operation_for sha ?u)" "wu_id b = ?u" by auto
    with r dispatch_bound [OF inv1, of ?u "operation_for sha ?u" b now rep am]
    have "quiet_pass db1 (after_dispatch now ?u rep (dispatchBoundWorkerUndertaking am b now db1))"
      by (simp add: waits_with_def)
    from quiet_pass_trans [OF c1 this] quiet_idle [OF bad] Inr x bind show ?thesis
      by (auto simp: service_bind_def Let_def)
  qed
qed

lemma service_probed_quiet:
  assumes inv: "queue_inv db"
  shows "quiet_pass db (service_probed sha checks am s decision now rep db)"
proof -
  have "changes db (snd (projectWorkerUndertakingTerminal u Qe_failed reason now db))" for u reason
    by (rule project_changes [OF inv]) simp
  then show ?thesis
    using service_bind_quiet [OF inv] capacity_changes
    by (cases decision) (auto simp: service_probed_def Let_def quiet_pass_def split: bool.split)
qed

lemma service_checked_quiet:
  assumes inv: "queue_inv db"
  shows "quiet_pass db (service_checked sha am s current now rep db)"
proof -
  let ?u = "wu_id (sn_undertaking s)" and ?by = "''commitment_currentness:'' @ wu_ref (sn_undertaking s)"
  obtain res db1 where call: "supersedeWorkerUndertaking ?u ?by now db = (res, db1)" by fastforce
  then have "changes db db1" using supersession_changes [OF inv, of ?u ?by now] by simp
  with quiet_idle service_bind_quiet [OF inv] call show ?thesis
    by (cases res) (auto simp: service_checked_def Let_def)
qed

end
