(* ===== verification/Worker_Recovery.thy ===== *)
theory Worker_Recovery
  imports Worker_Service
begin

text \<open>
  The recovery of detached work when the sidecar is opened again (\<^verbatim>\<open>sidecar/recovery.ts\<close>): operations
  past their deadline end as unknown, then the slot is repaired. It takes the slot back from every
  undertaking but one whose operation was started and is still within its deadline.
\<close>

section \<open>Deadlines\<close>

lemma expire_started:
  assumes inv: "op_inv rows" and d: "d \<in> set (expire_operation now i rows)" "op_state d = Op_started"
  shows "d \<in> set rows \<and> op_id d \<noteq> i"
proof (cases "getDetachedOperation rows i")
  case None
  then have "expire_operation now i rows = rows" "\<And>q. q \<in> set rows \<Longrightarrow> op_id q \<noteq> i"
    by (simp_all add: expire_operation_def) (simp add: getDetachedOperation_def)
  with d show ?thesis by auto
next
  case (Some r)
  have same: "q = r" if "q \<in> set rows" "op_id q = i" for q
    by (rule get_operation_unique [OF inv Some that])
  show ?thesis
  proof (cases "isTerminalState (op_state r)")
    case True
    with Some d same show ?thesis by (auto simp: expire_operation_def)
  next
    case False
    with Some d show ?thesis by (auto simp: expire_operation_def to_expired_def split: if_splits)
  qed
qed

lemma expire_all_started:
  "op_inv rows \<Longrightarrow> d \<in> set (fold (expire_operation now) ids rows) \<Longrightarrow> op_state d = Op_started \<Longrightarrow>
     d \<in> set rows \<and> op_id d \<notin> set ids"
proof (induction ids arbitrary: rows)
  case (Cons i ids)
  have "op_inv (expire_operation now i rows)" by (rule ops_keep_inv [OF expire_keeps Cons.prems(1)]) (rule Cons.prems(1))
  with Cons.IH [of "expire_operation now i rows"] Cons.prems(2,3)
  have "d \<in> set (expire_operation now i rows)" "op_id d \<notin> set ids" by auto
  with expire_started [OF Cons.prems(1) _ Cons.prems(3)] show ?case by auto
qed simp

lemma reconciled_in_time:
  assumes inv: "op_inv rows" and now: "safeMs now"
    and d: "d \<in> set (snd (reconcileDetachedOperations now rows))" "op_state d = Op_started"
  shows "now \<le> op_deadline d"
proof -
  let ?ids = "filter (\<lambda>i. i \<noteq> []) (map op_id (sort_key op_deadline (sort_key op_id
             (filter (\<lambda>r. op_state r = Op_started \<and> op_deadline r < now) rows))))"
  from d(1) now have "d \<in> set (fold (expire_operation now) ?ids rows)"
    by (simp add: reconcileDetachedOperations_def Let_def)
  from expire_all_started [OF inv this d(2)] have here: "d \<in> set rows" "op_id d \<notin> set ?ids" by auto
  have "op_id d \<noteq> []" using inv here(1) by (simp add: op_inv_def op_ok_def)
  with here d(2) show ?thesis by (force simp: not_le)
qed

section \<open>The slot\<close>

lemma clear_slot: "sl_undertaking (qd_slot db) = Some u \<Longrightarrow> sl_undertaking (qd_slot (snd (clearWorkerExecutionSlot u now db))) = None"
  by (simp add: clearWorkerExecutionSlot_def empty_slot_def)

lemma slot_update [simp]: "qd_slot (update_undertaking u st f db) = qd_slot db"
  by (simp add: update_undertaking_def)

lemma repair_keeps_started:
  assumes inv: "queue_inv db" and now: "safeMs now"
    and slot: "sl_undertaking (qd_slot (snd (repairWorkerExecutionSlot now db))) = Some u"
  shows "snd (repairWorkerExecutionSlot now db) = db \<and>
    (\<exists>r d. find_undertaking db u = Some r \<and> selected_operation db r = Some d \<and> op_state d = Op_started)"
proof (cases "sl_undertaking (qd_slot db)")
  case None
  with slot show ?thesis by (simp add: repairWorkerExecutionSlot_def slot_text [OF inv] now)
next
  case (Some v)
  from holding_row [OF inv Some] obtain r d where
    r: "find_undertaking db v = Some r" "holding (wu_state r)" "selected_operation db r = Some d" "op_ok d" .
  have sel: "selected_operation db (mapRow r) = Some d"
    using find_row_ok [OF inv r(1)] r(3) by (simp add: selected_operation_mapRow [OF inv])
  have plain: "nullableString (wu_selected r) = wu_selected r" and v: "\<not> blank v"
    using find_row_ok [OF inv r(1)] by (auto simp: selected_text [OF inv])
  have bound: "wu_selected r \<noteq> None" using r(3) by (auto simp: selected_operation_def split: option.splits)
  have live: "wu_state r \<notin> {U_succeeded, U_failed, U_unknown, U_cancelled, U_superseded, U_expired}" "active (wu_state r)"
    using r(2) by (auto simp: holding_def active_def)
  show ?thesis
  proof (cases "op_terminal d")
    case ended: (Some t)
    let ?e = "if t = Oe_stopped then Qe_failed else op_end_as t"
    let ?why = "case op_error d of None \<Rightarrow> Some ''recovered_detached_terminal'' | Some err \<Rightarrow> Some err"
    have "?e \<noteq> Qe_expired" by (cases t) simp_all
    then obtain x where "terminal_truth (mapRow r) (Some d) ?e ?why = Some x"
      using ended bound plain by (auto simp: terminal_truth_def Let_def)
    then have "sl_undertaking (qd_slot (snd (projectWorkerUndertakingTerminal v ?e ?why now db))) = None"
      using r(1) sel live(2) v now Some
      by (cases x) (simp add: projectWorkerUndertakingTerminal_def rowById_find Let_def clear_slot)
    with slot Some r(1) sel live(1) ended now show ?thesis
      by (simp add: repairWorkerExecutionSlot_def slot_text [OF inv] rowById_find)
  next
    case open_op: None
    show ?thesis
    proof (cases "unstarted (op_state d)")
      case True
      with r find_row_ok [OF inv r(1)] op_okD(3) [OF r(4)] have "wu_state r = U_dispatching"
        by (auto simp: row_ok_def holding_def)
      moreover have "\<not> blank ''recovered_pre_start_capacity_claim''" by code_simp
      ultimately have "sl_undertaking (qd_slot (snd (requeueWorkerUndertakingAfterCapacity v
          \<lparr>cp_reason = ''recovered_pre_start_capacity_claim'', cp_probe = Some now\<rparr> now db))) = None"
        using r(1) v now Some by (simp add: requeueWorkerUndertakingAfterCapacity_def capacity_refused_def
          rowById_find Let_def clear_slot)
      with slot Some r(1) sel live(1) open_op True now show ?thesis
        by (simp add: repairWorkerExecutionSlot_def slot_text [OF inv] rowById_find)
    next
      case False
      with open_op op_okD(2,3) [OF r(4)] have "op_state d = Op_started" by auto
      moreover from this have "snd (repairWorkerExecutionSlot now db) = db"
        using Some r(1) sel live(1) open_op now
        by (simp add: repairWorkerExecutionSlot_def slot_text [OF inv] rowById_find)
      ultimately show ?thesis using slot Some r(1,3) by auto
    qed
  qed
qed

definition recovered :: "int \<Rightarrow> queue_db \<Rightarrow> queue_db" where
  "recovered now db = snd (repairWorkerExecutionSlot now (snd (on_operations (reconcileDetachedOperations now) db)))"

lemma recovered_slot:
  assumes inv: "queue_inv db" and now: "safeMs now" and slot: "sl_undertaking (qd_slot (recovered now db)) = Some u"
  shows "\<exists>r i d. find_undertaking (recovered now db) u = Some r \<and> wu_selected r = Some i \<and>
    getDetachedOperation (qd_ops (recovered now db)) i = Some d \<and> op_state d = Op_started \<and> now \<le> op_deadline d"
proof -
  let ?db = "snd (on_operations (reconcileDetachedOperations now) db)"
  have inv1: "queue_inv ?db" using operation_calls(6) [OF inv] inv by (rule queue.steps_inv)
  from repair_keeps_started [OF inv1 now] slot obtain r d where
    same: "recovered now db = ?db" and
    r: "find_undertaking ?db u = Some r" "selected_operation ?db r = Some d" "op_state d = Op_started"
    unfolding recovered_def by blast
  note d = selected_operation_get [OF inv1 r(2)]
  have "qd_ops ?db = snd (reconcileDetachedOperations now (qd_ops db))" by (simp add: on_operations_def split: prod.split)
  then have "d \<in> set (snd (reconcileDetachedOperations now (qd_ops db)))"
    using get_operation_ok [OF queue_invD(1) [OF inv1] d(2)] by simp
  from reconciled_in_time [OF queue_invD(1) [OF inv] now this r(3)] r d show ?thesis unfolding same by blast
qed

end
