(* ===== verification/Worker_Safety.thy ===== *)
theory Worker_Safety
  imports Worker_Recovery
begin

text \<open>
  The worker queue as a whole. A pass may be cut at each of its waits by anything else that touches the
  queue, and at any moment by a crash; passes on one database never overlap (\<open>workerServiceFlights\<close> of
  \<^verbatim>\<open>operation/dispatch.ts\<close>). \<open>sv_runs\<close> records every run of a worker.
\<close>

section \<open>What else touches the queue\<close>

text \<open>
  The thought run enqueues, cancels and supersedes; the recovery at startup reconciles the operations;
  the backfill appends completion events; others write to the inbox.
\<close>

inductive outside :: "(string \<Rightarrow> string) \<Rightarrow> queue_db \<Rightarrow> queue_db \<Rightarrow> bool" for sha :: "string \<Rightarrow> string" where
  ow_enqueue: "outside sha db (snd (enqueueWorkerUndertaking sha i now db))"
| ow_cancel: "outside sha db (snd (requestWorkerUndertakingCancel u now db))"
| ow_supersede: "outside sha db (snd (supersedeWorkerUndertaking u by_ref now db))"
| ow_op_cancel: "outside sha db (snd (on_operations (requestDetachedOperationCancel o_id now) db))"
| ow_op_resolve: "outside sha db (snd (on_operations (resolveDetachedOperationCancel o_id who proof now) db))"
| ow_op_supersede: "outside sha db (snd (on_operations (supersedeDetachedOperation o_id by_ref successor now) db))"
| ow_reconcile: "outside sha db (snd (on_operations (reconcileDetachedOperations now) db))"
| ow_complete: "outside sha db (snd (produceOperationCompletion ap o_id now db))"
| ow_inbox: "distinct es \<Longrightarrow> outside sha db (db\<lparr>qd_inbox := es\<rparr>)"

lemma outside_changes:
  assumes "outside sha db db'" "queue_inv db"
  shows "changes db db'"
  using assms(1)
proof cases
  case (ow_inbox es)
  then show ?thesis by (auto intro: qc_inbox)
qed (simp_all add: enqueue_changes cancel_changes supersession_changes operation_calls complete_changes assms(2))

lemma find_update:
  assumes "\<And>r. wu_id (f r) = wu_id r"
  shows "find_undertaking (update_undertaking v st f db) u =
    map_option (\<lambda>r. if wu_id r = v \<and> st (wu_state r) then f r else r) (find_undertaking db u)"
  unfolding find_undertaking_def update_undertaking_def using assms by (simp add: sql_get_update)

lemma find_complete [simp]: "find_undertaking (snd (produceOperationCompletion ap i now db)) u = find_undertaking db u"
  by (cases "getDetachedOperation (qd_ops db) i"; cases ap)
    (auto simp: produceOperationCompletion_def find_undertaking_def Let_def)

lemma find_inbox [simp]: "find_undertaking (db\<lparr>qd_inbox := es\<rparr>) u = find_undertaking db u"
  by (simp add: find_undertaking_def)

text \<open>Nothing outside the pass takes a dispatching undertaking away from it.\<close>

lemma outside_waits:
  assumes "outside sha db db'" "waits_with db u i"
  shows "waits_with db' u i"
proof -
  obtain r where r: "find_undertaking db u = Some r" "wu_selected r = Some i" "wu_state r = U_dispatching"
    using assms(2) by (auto simp: waits_with_def)
  from assms(1) show ?thesis
  proof cases
    case (ow_enqueue input now)
    then show ?thesis
    proof (cases rule: enqueue_result [of sha input now db])
      case same
      with ow_enqueue assms(2) show ?thesis by simp
    next
      case (added k)
      with ow_enqueue r show ?thesis by (simp add: waits_with_def find_undertaking_def sql_get_append)
    qed
  next
    case (ow_cancel v now)
    with r show ?thesis
      by (cases "rowById db v") (auto simp: requestWorkerUndertakingCancel_def waits_with_def find_update)
  next
    case (ow_supersede v by_ref now)
    with r show ?thesis
      by (cases "rowById db v") (auto simp: supersedeWorkerUndertaking_def waits_with_def find_update)
  qed (use r in \<open>simp_all add: waits_with_def\<close>)
qed

section \<open>The service\<close>

record service_state =
  sv_db :: queue_db
  sv_flight :: flight
  sv_runs :: "(string \<times> string) list"

fun run_of :: "flight \<Rightarrow> (string \<times> string) list" where
  "run_of (Worker_runs now u r) = [(u, op_id r)]"
| "run_of _ = []"

inductive service_step :: "(string \<Rightarrow> string) \<Rightarrow> bool \<Rightarrow> service_state \<Rightarrow> service_state \<Rightarrow> bool"
  for sha :: "string \<Rightarrow> string" and checks :: bool where
  ss_outside: "outside sha (sv_db s) db' \<Longrightarrow> service_step sha checks s (s\<lparr>sv_db := db'\<rparr>)"
| ss_begin: "sv_flight s = Idle \<Longrightarrow> service_begin am limit now (sv_db s) = ((rep, fl), db') \<Longrightarrow>
    service_step sha checks s (s\<lparr>sv_db := db', sv_flight := fl\<rparr>)"
| ss_probed: "sv_flight s = Probe_new now p \<Longrightarrow>
    service_probed sha checks am p decision now rep (sv_db s) = ((rep', fl), db') \<Longrightarrow>
    service_step sha checks s (s\<lparr>sv_db := db', sv_flight := fl\<rparr>)"
| ss_checked: "sv_flight s = Check_commitment now p \<Longrightarrow>
    service_checked sha am p current now rep (sv_db s) = ((rep', fl), db') \<Longrightarrow>
    service_step sha checks s (s\<lparr>sv_db := db', sv_flight := fl\<rparr>)"
| ss_decided: "sv_flight s = Probe_bound now u r \<Longrightarrow>
    after_dispatch now u rep (dispatch_decided am u r decision now (sv_db s)) = ((rep', fl), db') \<Longrightarrow>
    service_step sha checks s (s\<lparr>sv_db := db', sv_flight := fl, sv_runs := sv_runs s @ run_of fl\<rparr>)"
| ss_settled: "sv_flight s = Worker_runs now u r \<Longrightarrow>
    after_dispatch now u rep (dispatch_settled am u r result persisted (sv_db s)) = ((rep', fl), db') \<Longrightarrow>
    service_step sha checks s (s\<lparr>sv_db := db', sv_flight := fl\<rparr>)"
| ss_crash: "service_step sha checks s (s\<lparr>sv_flight := Idle\<rparr>)"
| ss_repair: "sv_flight s = Idle \<Longrightarrow>
    service_step sha checks s (s\<lparr>sv_db := snd (repairWorkerExecutionSlot now (sv_db s))\<rparr>)"

definition empty_queue :: queue_db where
  "empty_queue = \<lparr>qd_rows = [], qd_ops = [], qd_slot = empty_slot 0, qd_cursor = 0, qd_inbox = []\<rparr>"

definition initial_service :: service_state where
  "initial_service = \<lparr>sv_db = empty_queue, sv_flight = Idle, sv_runs = []\<rparr>"

section \<open>The invariant of the service\<close>

definition service_inv :: "service_state \<Rightarrow> bool" where
  "service_inv s \<longleftrightarrow> queue_inv (sv_db s) \<and> flight_ok (sv_db s) (sv_flight s) \<and>
     distinct (map snd (sv_runs s)) \<and> snd ` set (sv_runs s) = started_ops (sv_db s) \<and>
     (\<forall>p \<in> set (sv_runs s). \<exists>d. getDetachedOperation (qd_ops (sv_db s)) (snd p) = Some d \<and> op_undertaking d = Some (fst p))"

lemma initial_service_inv: "service_inv initial_service"
  by (simp add: service_inv_def initial_service_def empty_queue_def queue_inv_def op_inv_Nil undertaking_indexes_def
    empty_slot_def nonterminal_count_def pending_curiosity_def WORKER_SERVICE_CALENDAR_def started_ops_def
    getDetachedOperation_def)

lemma quiet_step_inv:
  assumes inv: "service_inv s" and c: "changes (sv_db s) db'" and fl: "flight_ok db' fl"
  shows "service_inv (s\<lparr>sv_db := db', sv_flight := fl\<rparr>)"
proof -
  have q: "queue_inv (sv_db s)" using inv by (simp add: service_inv_def)
  have "\<exists>d. getDetachedOperation (qd_ops db') i = Some d \<and> op_undertaking d = Some u"
    if "getDetachedOperation (qd_ops (sv_db s)) i = Some d" "op_undertaking d = Some u" for i u d
    using changes_operation [OF c that(1)] that(2) by (auto simp: op_keeps_def)
  with inv fl queue.steps_inv [OF c q] changes_started [OF c q] show ?thesis
    unfolding service_inv_def by (simp, blast)
qed

lemma run_step_inv:
  assumes inv: "service_inv s" and start: "starts (sv_db s) i db'" and serves: "serves (sv_db s) u i"
    and fl: "fl = Worker_runs now u r" "op_id r = i"
  shows "service_inv (s\<lparr>sv_db := db', sv_flight := fl, sv_runs := sv_runs s @ run_of fl\<rparr>)"
proof -
  have q: "queue_inv (sv_db s)" using inv by (simp add: service_inv_def)
  have serves': "serves db' u i"
    using serves starts_row [OF start] by (fastforce simp: serves_def row_moves_def)
  have stays: "\<exists>d. getDetachedOperation (qd_ops db') j = Some d \<and> op_undertaking d = Some v"
    if "getDetachedOperation (qd_ops (sv_db s)) j = Some d" "op_undertaking d = Some v" for j v d
    using starts_operation [OF start that(1)] that(2) by auto
  obtain d where "getDetachedOperation (qd_ops (sv_db s)) i = Some d" "op_undertaking d = Some u"
    using served_operation [OF q serves] by blast
  from stays [OF this] have new: "\<exists>d. getDetachedOperation (qd_ops db') i = Some d \<and> op_undertaking d = Some u" .
  have old: "\<exists>d. getDetachedOperation (qd_ops db') (snd p) = Some d \<and> op_undertaking d = Some (fst p)"
    if "p \<in> set (sv_runs s)" for p
    using inv that stays [of "snd p" _ "fst p"] by (auto simp: service_inv_def)
  have "\<forall>p \<in> set (sv_runs s @ run_of fl). \<exists>d. getDetachedOperation (qd_ops db') (snd p) = Some d \<and> op_undertaking d = Some (fst p)"
    using old new fl by auto
  moreover have "distinct (map snd (sv_runs s @ run_of fl))" "snd ` set (sv_runs s @ run_of fl) = started_ops db'"
    using inv starts_started [OF start q] fl by (auto simp: service_inv_def)
  ultimately show ?thesis
    using starts_inv [OF start] serves' fl by (simp add: service_inv_def)
qed

lemma quiet_pass_inv:
  assumes "service_inv s" "quiet_pass (sv_db s) ((rep, fl), db')"
  shows "service_inv (s\<lparr>sv_db := db', sv_flight := fl\<rparr>)"
  using assms by (intro quiet_step_inv) (auto simp: quiet_pass_def)

lemma decided_step_inv:
  assumes inv: "service_inv s" and fl: "sv_flight s = Probe_bound now u r"
    and res: "after_dispatch now u rep (dispatch_decided am u r decision now (sv_db s)) = ((rep', fl'), db')"
  shows "service_inv (s\<lparr>sv_db := db', sv_flight := fl', sv_runs := sv_runs s @ run_of fl'\<rparr>)"
proof -
  have q: "queue_inv (sv_db s)" and waits: "waits_with (sv_db s) u (op_id r)"
    using inv fl by (simp_all add: service_inv_def)
  obtain d db1 where call: "dispatch_decided am u r decision now (sv_db s) = (d, db1)" by fastforce
  from dispatch_decided_result [OF q waits, of am decision now] call have
    outcome: "case d of Dispatched x \<Rightarrow> changes (sv_db s) db1 | Asking q \<Rightarrow> False
      | Working q \<Rightarrow> op_id q = op_id r \<and> starts (sv_db s) (op_id r) db1"
    by (auto split: dispatch_state.splits)
  from res call have db: "db' = db1" by (simp add: after_dispatch_def)
  show ?thesis
  proof (cases d)
    case (Dispatched x)
    with outcome res call db have "changes (sv_db s) db'" "fl' = Idle"
      by (auto simp: after_dispatch_def split: sum.splits)
    with quiet_step_inv [OF inv] show ?thesis by fastforce
  next
    case (Working e)
    with outcome res call db have "starts (sv_db s) (op_id r) db'" "fl' = Worker_runs now u e" "op_id e = op_id r"
      by (auto simp: after_dispatch_def)
    with run_step_inv [OF inv _ waits_serves [OF waits]] show ?thesis by blast
  qed (use outcome in simp)
qed

lemma service_step_inv: "service_inv s \<Longrightarrow> service_step sha checks s s' \<Longrightarrow> service_inv s'"
proof -
  assume inv: "service_inv s" and step: "service_step sha checks s s'"
  have q: "queue_inv (sv_db s)" and fl: "flight_ok (sv_db s) (sv_flight s)" using inv by (simp_all add: service_inv_def)
  have quiet: "service_inv (s\<lparr>sv_db := db'\<rparr>)" if "changes (sv_db s) db'" "flight_ok db' (sv_flight s)" for db'
    using quiet_step_inv [OF inv that] by (simp add: service_inv_def)
  from step show "service_inv s'"
  proof cases
    case (ss_outside db')
    have c: "changes (sv_db s) db'" by (rule outside_changes [OF ss_outside(2) q])
    have "flight_ok db' (sv_flight s)"
      using fl outside_waits [OF ss_outside(2)] serves_stays [OF c q] by (cases "sv_flight s") auto
    with quiet [OF c] ss_outside(1) show ?thesis by simp
  next
    case (ss_begin am limit now rep fl' db')
    with quiet_pass_inv [OF inv] service_begin_quiet [OF q, of am limit now] show ?thesis by simp
  next
    case (ss_probed now p am decision rep rep' fl' db')
    with quiet_pass_inv [OF inv] service_probed_quiet [OF q, of sha checks am p decision now rep] show ?thesis by simp
  next
    case (ss_checked now p am current rep rep' fl' db')
    with quiet_pass_inv [OF inv] service_checked_quiet [OF q, of sha am p current now rep] show ?thesis by simp
  next
    case (ss_decided now u r rep am decision rep' fl' db')
    with decided_step_inv [OF inv ss_decided(2,3)] show ?thesis by simp
  next
    case (ss_settled now u r rep am result persisted rep' fl' db')
    from fl ss_settled(2) have "serves (sv_db s) u (op_id r)" by simp
    from dispatch_settled_result [OF q this, of am result persisted] ss_settled(3)
    have "changes (sv_db s) db'" "fl' = Idle" by (auto simp: after_dispatch_def split: prod.splits sum.splits)
    with quiet_step_inv [OF inv] ss_settled(1) show ?thesis by simp
  next
    case ss_crash
    with inv show ?thesis by (simp add: service_inv_def)
  next
    case (ss_repair now)
    with quiet [OF repair_changes [OF q]] show ?thesis by simp
  qed
qed

interpretation service: preserved "service_step sha checks" service_inv
  by unfold_locales (rule service_step_inv)

definition reachable_service :: "(string \<Rightarrow> string) \<Rightarrow> bool \<Rightarrow> service_state \<Rightarrow> bool" where
  "reachable_service sha checks s \<longleftrightarrow> (service_step sha checks)\<^sup>*\<^sup>* initial_service s"

lemma reachable_service_inv: "reachable_service sha checks s \<Longrightarrow> service_inv s"
  unfolding reachable_service_def using service.steps_inv initial_service_inv by blast

lemma reachable_queue_inv: "reachable_service sha checks s \<Longrightarrow> queue_inv (sv_db s)"
  using reachable_service_inv by (auto simp: service_inv_def)

text \<open>An undertaking keeps its identity, its binding and its end.\<close>

lemma service_step_row:
  assumes step: "service_step sha checks s s'" and inv: "service_inv s" and r: "find_undertaking (sv_db s) u = Some r"
  shows "\<exists>r'. find_undertaking (sv_db s') u = Some r' \<and> row_moves r r'"
proof -
  have q: "queue_inv (sv_db s)" and fl: "flight_ok (sv_db s) (sv_flight s)" using inv by (simp_all add: service_inv_def)
  note moved = changes_row [OF _ q r]
  from step show ?thesis
  proof cases
    case (ss_outside db')
    with moved [OF outside_changes [OF ss_outside(2) q]] show ?thesis by simp
  next
    case (ss_begin am limit now rep fl' db')
    with service_begin_quiet [OF q, of am limit now] moved show ?thesis by (simp add: quiet_pass_def)
  next
    case (ss_probed now p am decision rep rep' fl' db')
    with service_probed_quiet [OF q, of sha checks am p decision now rep] moved show ?thesis by (simp add: quiet_pass_def)
  next
    case (ss_checked now p am current rep rep' fl' db')
    with service_checked_quiet [OF q, of sha am p current now rep] moved show ?thesis by (simp add: quiet_pass_def)
  next
    case (ss_decided now v e rep am decision rep' fl' db')
    with fl have waits: "waits_with (sv_db s) v (op_id e)" by simp
    have "db' = snd (dispatch_decided am v e decision now (sv_db s))"
      using ss_decided(3) by (simp add: after_dispatch_def split: prod.splits)
    with dispatch_decided_result [OF q waits, of am decision now]
    have "changes (sv_db s) db' \<or> starts (sv_db s) (op_id e) db'" by (auto split: dispatch_state.splits)
    with moved starts_row r ss_decided(1) show ?thesis by auto
  next
    case (ss_settled now v e rep am result persisted rep' fl' db')
    with fl have serves: "serves (sv_db s) v (op_id e)" by simp
    have "db' = snd (dispatch_settled am v e result persisted (sv_db s))"
      using ss_settled(3) by (simp add: after_dispatch_def split: prod.splits)
    with dispatch_settled_result [OF q serves, of am result persisted] moved ss_settled(1) show ?thesis by simp
  next
    case (ss_repair now)
    with moved [OF repair_changes [OF q]] show ?thesis by simp
  qed (use r in simp)
qed

interpretation undertakings: record_lifecycle
  "\<lambda>s s'. service_step sha checks s s' \<and> service_inv s"
  "\<lambda>s u. find_undertaking (sv_db s) u" row_moves
  by unfold_locales (use service_step_row in blast)

lemma row_moves_star: "row_moves\<^sup>*\<^sup>* r r' \<Longrightarrow> row_moves r r'"
  by (induction rule: rtranclp_induct) (auto intro: row_moves_trans)

lemma service_steps_inv:
  "(service_step sha checks)\<^sup>*\<^sup>* s s' \<Longrightarrow> service_inv s \<Longrightarrow> (\<lambda>a b. service_step sha checks a b \<and> service_inv a)\<^sup>*\<^sup>* s s'"
proof (induction rule: rtranclp_induct)
  case (step b c)
  then show ?case using service.steps_inv by (metis (no_types, lifting) rtranclp.rtrancl_into_rtrancl)
qed simp

section \<open>What the queue promises\<close>

text \<open>
  C11. A worker runs at most once for an undertaking, and at most once for an operation, whatever calls,
  other writers and crashes come between: an undertaking whose run was cut by a crash is not run again.
\<close>

theorem undertaking_runs_once:
  assumes "reachable_service sha checks s"
  shows "distinct (map fst (sv_runs s)) \<and> distinct (map snd (sv_runs s))"
proof -
  have inv: "service_inv s" by (rule reachable_service_inv [OF assms])
  have ops: "op_inv (qd_ops (sv_db s))" by (rule queue_invD(1) [OF reachable_queue_inv [OF assms]])
  have same: "p = q" if "p \<in> set (sv_runs s)" "q \<in> set (sv_runs s)" "fst p = fst q" for p q
  proof -
    from inv that obtain d e where
      d: "d \<in> set (qd_ops (sv_db s))" "op_id d = snd p" "op_undertaking d = Some (fst p)" and
      e: "e \<in> set (qd_ops (sv_db s))" "op_id e = snd q" "op_undertaking e = Some (fst p)"
      unfolding service_inv_def using get_operation_ok [OF ops] by metis
    have "distinct (map op_undertaking (filter (\<lambda>r. op_undertaking r \<noteq> None) (qd_ops (sv_db s))))"
      using ops by (simp add: op_inv_def op_indexes_def)
    then have "inj_on op_undertaking {r \<in> set (qd_ops (sv_db s)). op_undertaking r \<noteq> None}" by (simp add: distinct_map)
    then have "d = e" by (rule inj_onD) (use d e in auto)
    with d e that(3) show ?thesis by (simp add: prod_eq_iff)
  qed
  have "distinct (map snd (sv_runs s))" using inv by (simp add: service_inv_def)
  moreover from this have "distinct (sv_runs s)" by (simp add: distinct_map)
  then have "distinct (map fst (sv_runs s))" using same by (simp add: distinct_map inj_on_def)
  ultimately show ?thesis by simp
qed

text \<open>
  C12. The slot and the capacities: the undertakings that are dispatching or running are exactly the one
  the slot names, at most 64 undertakings have not ended, and at most 3 of curiosity wait.
\<close>

theorem slot_and_capacity:
  assumes "reachable_service sha checks s"
  shows "map wu_id (filter (\<lambda>r. holding (wu_state r)) (qd_rows (sv_db s))) =
      (case sl_undertaking (qd_slot (sv_db s)) of None \<Rightarrow> [] | Some u \<Rightarrow> [u]) \<and>
    nonterminal_count (sv_db s) \<le> 64 \<and> pending_curiosity (sv_db s) \<le> 3"
proof -
  let ?db = "sv_db s"
  have inv: "queue_inv ?db" by (rule reachable_queue_inv [OF assms])
  let ?held = "map wu_id (filter (\<lambda>r. holding (wu_state r)) (qd_rows ?db))"
  have holder: "x \<in> set ?held \<longleftrightarrow> sl_undertaking (qd_slot ?db) = Some x" for x
    using queue_invD(3) [OF inv] inv by (auto simp: row_ok_def queue_inv_def)
  have "distinct (map wu_id (qd_rows ?db))" using queue_invD(2) [OF inv] by (simp add: undertaking_indexes_def)
  then have dist: "distinct ?held" by (simp add: distinct_map_filter)
  have "?held = (case sl_undertaking (qd_slot ?db) of None \<Rightarrow> [] | Some u \<Rightarrow> [u])"
  proof (cases "sl_undertaking (qd_slot ?db)")
    case None
    with holder have "set ?held = {}" by auto
    with None show ?thesis by simp
  next
    case (Some u)
    have set: "set ?held = {u}" by (rule set_eqI) (simp only: holder Some, auto)
    with distinct_card [OF dist] have "length ?held = 1" by simp
    then obtain x where "?held = [x]" by (auto simp: length_Suc_conv simp del: length_map)
    with set Some show ?thesis by simp
  qed
  with inv show ?thesis
    by (simp add: queue_inv_def MAX_NONTERMINAL_WORKER_UNDERTAKINGS_def MAX_PENDING_CURIOSITY_def)
qed

text \<open>
  C13. A success is true: an undertaking that has succeeded is bound to an operation that succeeded, and
  a worker ran for it.
\<close>

theorem success_is_true:
  assumes "reachable_service sha checks s" and "find_undertaking (sv_db s) u = Some r" and "wu_state r = U_succeeded"
  shows "\<exists>i d. wu_selected r = Some i \<and> getDetachedOperation (qd_ops (sv_db s)) i = Some d \<and>
    op_terminal d = Some Oe_succeeded \<and> (u, i) \<in> set (sv_runs s)"
proof -
  have inv: "service_inv s" and q: "queue_inv (sv_db s)"
    using reachable_service_inv [OF assms(1)] reachable_queue_inv [OF assms(1)] by auto
  have row: "row_ok (sv_db s) r" "wu_id r = u" using find_row_ok [OF q assms(2)] by auto
  obtain i where i: "wu_selected r = Some i" using row(1) assms(3) by (auto simp: row_ok_def)
  with row obtain d where d: "getDetachedOperation (qd_ops (sv_db s)) i = Some d" "op_undertaking d = Some u"
    by (auto simp: row_ok_def)
  have ended: "op_terminal d = Some Oe_succeeded"
    using row(1) assms(3) i d(1) by (simp add: row_ok_def selected_operation_def)
  with get_operation_ok [OF queue_invD(1) [OF q] d(1)] have "op_start d \<noteq> None" by (simp add: op_ok_def)
  with d(1) have "i \<in> started_ops (sv_db s)" by (auto simp: started_ops_def)
  then have "i \<in> snd ` set (sv_runs s)" using inv by (simp add: service_inv_def)
  then obtain p where p: "p \<in> set (sv_runs s)" "snd p = i" by blast
  with inv d have "fst p = u" by (auto simp: service_inv_def)
  with p have "(u, i) \<in> set (sv_runs s)" by (metis prod.collapse)
  with i d(1) ended show ?thesis by blast
qed

text \<open>
  C17. The end of an undertaking is final: whatever happens later, its state and its reason stay, and so
  does the operation it was bound to.
\<close>

theorem undertaking_end_final:
  assumes "reachable_service sha checks s" and "(service_step sha checks)\<^sup>*\<^sup>* s s'"
    and "find_undertaking (sv_db s) u = Some r" and "\<not> active (wu_state r)"
  shows "\<exists>r'. find_undertaking (sv_db s') u = Some r' \<and> wu_state r' = wu_state r \<and> wu_reason r' = wu_reason r \<and>
    (if wu_selected r = None then True else wu_selected r' = wu_selected r)"
proof -
  have "service_inv s" by (rule reachable_service_inv [OF assms(1)])
  from undertakings.never_lost [OF service_steps_inv [OF assms(2) this] assms(3)]
  obtain r' where "find_undertaking (sv_db s') u = Some r'" "row_moves r r'" by (auto dest: row_moves_star)
  with assms(4) show ?thesis by (auto simp: row_moves_def)
qed


text \<open>
  C15. A crash does not block the queue: after the recovery of a reopened sidecar the slot is free, unless
  its undertaking is bound to an operation that was started and is still within its deadline.
\<close>

theorem recovery_frees_slot:
  assumes "reachable_service sha checks s" and "safeMs now"
    and "sl_undertaking (qd_slot (recovered now (sv_db s))) = Some u"
  shows "\<exists>r i d. find_undertaking (recovered now (sv_db s)) u = Some r \<and> wu_selected r = Some i \<and>
    getDetachedOperation (qd_ops (recovered now (sv_db s))) i = Some d \<and> op_state d = Op_started \<and> now \<le> op_deadline d"
  by (rule recovered_slot [OF reachable_queue_inv [OF assms(1)] assms(2,3)])

section \<open>An investigation from its request to its end\<close>

definition sample_request :: enqueue_input where
  "sample_request = \<lparr>eq_origin = Owner_request, eq_ref = ''event'', eq_ownerEvent = Some ''event'', eq_evidence = None,
     eq_owner = ''owner'', eq_conversation = Some ''c'', eq_cycle = ''y'', eq_generation = 1,
     eq_request = JObj [(''projectId'', JStr ''p'')], eq_purpose = ''look'', eq_need = ''facts''\<rparr>"

definition sample_ambient :: ambient where
  "sample_ambient = \<lparr>am_later = 3000, am_appends = (\<lambda>_. Appends_both)\<rparr>"

definition sample_report :: report where
  "sample_report = \<lparr>rt_serviced = [], rt_failed = [], rt_expired = [], rt_class = None\<rparr>"

text \<open>One step of the service when the probes say yes and the worker answers.\<close>

definition moved_to :: "service_state \<Rightarrow> (report \<times> flight) \<times> queue_db \<Rightarrow> service_state" where
  "moved_to s x = s\<lparr>sv_db := snd x, sv_flight := snd (fst x)\<rparr>"

definition ran_to :: "service_state \<Rightarrow> (report \<times> flight) \<times> queue_db \<Rightarrow> service_state" where
  "ran_to s x = (moved_to s x)\<lparr>sv_runs := sv_runs s @ run_of (snd (fst x))\<rparr>"

definition forward :: "service_state \<Rightarrow> service_state" where
  "forward s = (case sv_flight s of
     Idle \<Rightarrow> moved_to s (service_begin sample_ambient None 2000 (sv_db s))
   | Probe_new now p \<Rightarrow> moved_to s (service_probed (\<lambda>_. ''h'') False sample_ambient p Available now sample_report (sv_db s))
   | Check_commitment now p \<Rightarrow> moved_to s (service_checked (\<lambda>_. ''h'') sample_ambient p True now sample_report (sv_db s))
   | Probe_bound now u r \<Rightarrow>
       ran_to s (after_dispatch now u sample_report (dispatch_decided sample_ambient u r Available now (sv_db s)))
   | Worker_runs now u r \<Rightarrow> moved_to s (after_dispatch now u sample_report
       (dispatch_settled sample_ambient u r (Worked (JStr ''seen'')) True (sv_db s))))"

definition sample_service_queued :: service_state where
  "sample_service_queued = initial_service\<lparr>sv_db := snd (enqueueWorkerUndertaking (\<lambda>_. ''h'') sample_request 1000 empty_queue)\<rparr>"

definition sample_service_running :: service_state where
  "sample_service_running = forward (forward (forward sample_service_queued))"

definition sample_service_served :: service_state where
  "sample_service_served = forward sample_service_running"

definition sample_undertaking :: string where
  "sample_undertaking = ''worker-undertaking:h''"

lemma forward_step: "service_step (\<lambda>_. ''h'') False s (forward s)"
proof (cases "sv_flight s")
  case Idle
  show ?thesis unfolding forward_def Idle moved_to_def
    by simp (rule ss_begin [where rep = "fst (fst x)" and fl = "snd (fst x)" and db' = "snd x" for x], simp_all add: Idle)
next
  case (Probe_new now p)
  show ?thesis unfolding forward_def Probe_new moved_to_def
    by simp (rule ss_probed [where rep' = "fst (fst x)" and fl = "snd (fst x)" and db' = "snd x" for x, OF Probe_new], simp)
next
  case (Check_commitment now p)
  show ?thesis unfolding forward_def Check_commitment moved_to_def
    by simp (rule ss_checked [where rep' = "fst (fst x)" and fl = "snd (fst x)" and db' = "snd x" for x, OF Check_commitment], simp)
next
  case (Probe_bound now u r)
  show ?thesis unfolding forward_def Probe_bound ran_to_def moved_to_def
    by simp (rule ss_decided [where rep' = "fst (fst x)" and fl = "snd (fst x)" and db' = "snd x" for x, OF Probe_bound], simp)
next
  case (Worker_runs now u r)
  show ?thesis unfolding forward_def Worker_runs moved_to_def
    by simp (rule ss_settled [where rep' = "fst (fst x)" and fl = "snd (fst x)" and db' = "snd x" for x, OF Worker_runs], simp)
qed

lemma sample_reachable:
  "reachable_service (\<lambda>_. ''h'') False sample_service_queued" "reachable_service (\<lambda>_. ''h'') False sample_service_running"
  "reachable_service (\<lambda>_. ''h'') False sample_service_served"
proof -
  have "service_step (\<lambda>_. ''h'') False initial_service sample_service_queued"
    unfolding sample_service_queued_def by (rule ss_outside) (simp add: initial_service_def ow_enqueue)
  then show queued: "reachable_service (\<lambda>_. ''h'') False sample_service_queued" by (simp add: reachable_service_def)
  have next_one: "reachable_service (\<lambda>_. ''h'') False (forward s)" if "reachable_service (\<lambda>_. ''h'') False s" for s
    using that forward_step unfolding reachable_service_def by (rule rtranclp.rtrancl_into_rtrancl)
  then show "reachable_service (\<lambda>_. ''h'') False sample_service_running" "reachable_service (\<lambda>_. ''h'') False sample_service_served"
    unfolding sample_service_running_def sample_service_served_def using queued by simp_all
qed


definition service_facts :: "string \<Rightarrow> service_state \<Rightarrow> undertaking_state option \<times> string list \<times> string option" where
  "service_facts u s = (map_option wu_state (find_undertaking (sv_db s) u), map fst (sv_runs s), sl_undertaking (qd_slot (sv_db s)))"


definition sample_facts :: "service_state \<Rightarrow> (undertaking_state option \<times> string list \<times> string option) \<times>
  (undertaking_state option \<times> string list \<times> string option) \<times> string option \<times> string option" where
  "sample_facts s = (service_facts sample_undertaking s, service_facts sample_undertaking (forward s),
     sl_undertaking (qd_slot (recovered 2500 (sv_db s))), sl_undertaking (qd_slot (recovered 90000000 (sv_db s))))"

lemma sample_run:
  "sample_facts sample_service_running =
     ((Some U_running, [sample_undertaking], Some sample_undertaking), (Some U_succeeded, [sample_undertaking], None),
      Some sample_undertaking, None)"
  by code_simp

lemma sample_run_facts:
  "map fst (sv_runs sample_service_running) = [sample_undertaking]" "sl_undertaking (qd_slot (sv_db sample_service_running)) = Some sample_undertaking"
  "map_option wu_state (find_undertaking (sv_db sample_service_served) sample_undertaking) = Some U_succeeded"
  "sl_undertaking (qd_slot (recovered 2500 (sv_db sample_service_running))) = Some sample_undertaking"
  using sample_run by (simp_all add: sample_facts_def service_facts_def sample_service_served_def)

theorem undertaking_runs_once_witness:
  "map fst (sv_runs sample_service_running) = [sample_undertaking] \<and> distinct (map snd (sv_runs sample_service_running))"
  using undertaking_runs_once [OF sample_reachable(2)] sample_run_facts(1) by simp

theorem slot_and_capacity_witness:
  "map wu_id (filter (\<lambda>r. holding (wu_state r)) (qd_rows (sv_db sample_service_running))) = [sample_undertaking] \<and>
   nonterminal_count (sv_db sample_service_running) \<le> 64"
  using slot_and_capacity [OF sample_reachable(2)] sample_run_facts(2) by simp

theorem success_is_true_witness:
  "\<exists>i d. getDetachedOperation (qd_ops (sv_db sample_service_served)) i = Some d \<and> op_terminal d = Some Oe_succeeded \<and>
     (sample_undertaking, i) \<in> set (sv_runs sample_service_served)"
proof -
  obtain r where "find_undertaking (sv_db sample_service_served) sample_undertaking = Some r" "wu_state r = U_succeeded"
    using sample_run_facts(3) by auto
  from success_is_true [OF sample_reachable(3) this] show ?thesis by blast
qed

theorem undertaking_end_final_witness:
  "map_option wu_state (find_undertaking (sv_db (forward sample_service_served)) sample_undertaking) = Some U_succeeded"
proof -
  obtain r where r: "find_undertaking (sv_db sample_service_served) sample_undertaking = Some r" "wu_state r = U_succeeded"
    using sample_run_facts(3) by auto
  have "\<not> active (wu_state r)" by (simp add: r(2) active_def)
  from undertaking_end_final [OF sample_reachable(3) r_into_rtranclp [of "service_step (\<lambda>_. ''h'') False", OF forward_step] r(1) this]
  show ?thesis using r(2) by auto
qed


theorem recovery_frees_slot_witness:
  "\<exists>r i d. find_undertaking (recovered 2500 (sv_db sample_service_running)) sample_undertaking = Some r \<and> wu_selected r = Some i \<and>
    getDetachedOperation (qd_ops (recovered 2500 (sv_db sample_service_running))) i = Some d \<and> op_state d = Op_started"
proof -
  have "safeMs 2500" by code_simp
  from recovery_frees_slot [OF sample_reachable(2) this sample_run_facts(4)] show ?thesis by blast
qed

end
