(* ===== verification/Worker_Liveness.thy ===== *)
theory Worker_Liveness
  imports Worker_Safety
begin

text \<open>
  What keeps the queue moving: the service calendar serves every class of undertakings within a bounded
  number of starts, and recovery takes the slot back from every undertaking but one whose worker may
  still be running within its deadline.
\<close>

section \<open>The calendar\<close>

text \<open>How many places of the calendar come before the next one of a class.\<close>

definition calendar_wait :: "worker_origin \<Rightarrow> int \<Rightarrow> nat" where
  "calendar_wait k c = length (takeWhile (\<lambda>offset. class_at (calendar_slot c offset) \<noteq> k) [0..<length WORKER_SERVICE_CALENDAR])"

fun starts_before :: "worker_origin \<Rightarrow> nat" where
  "starts_before Owner_request = 1"
| "starts_before Ashley_commitment = 3"
| "starts_before Ashley_curiosity = 6"

definition passes_over :: "worker_origin \<Rightarrow> int \<Rightarrow> nat \<Rightarrow> bool" where
  "passes_over k c offset \<longleftrightarrow> list_all (\<lambda>m. class_at (calendar_slot c m) \<noteq> k) [0..<Suc offset]"

lemma calendar_table:
  "list_all (\<lambda>c. list_all (\<lambda>k. calendar_wait k c \<le> starts_before k \<and>
     list_all (\<lambda>n. if passes_over k c n then calendar_wait k (next_cursor_of (calendar_slot c n)) < calendar_wait k c else True)
       [0, 1, 2, 3, 4, 5, 6]) [Owner_request, Ashley_commitment, Ashley_curiosity]) [0, 1, 2, 3, 4, 5, 6]"
  by code_simp

lemma calendar_cursor: "getWorkerSchedulerCursor db \<in> set [0, 1, 2, 3, 4, 5, 6]"
  by (auto simp: getWorkerSchedulerCursor_def WORKER_SERVICE_CALENDAR_def)

lemma calendar_facts:
  assumes "c \<in> set [0, 1, 2, 3, 4, 5, 6]"
  shows "calendar_wait k c \<le> starts_before k"
    and "n < length WORKER_SERVICE_CALENDAR \<Longrightarrow> passes_over k c n \<Longrightarrow>
      calendar_wait k (next_cursor_of (calendar_slot c n)) < calendar_wait k c"
proof -
  have k: "k \<in> set [Owner_request, Ashley_commitment, Ashley_curiosity]" by (cases k) simp_all
  note table = calendar_table [unfolded list_all_iff, rule_format, OF assms k]
  show "calendar_wait k c \<le> starts_before k" using table by blast
  assume n: "n < length WORKER_SERVICE_CALENDAR" and over: "passes_over k c n"
  from n have "n \<in> set [0, 1, 2, 3, 4, 5, 6]" by (auto simp: WORKER_SERVICE_CALENDAR_def)
  with table have "if passes_over k c n then calendar_wait k (next_cursor_of (calendar_slot c n)) < calendar_wait k c else True" by blast
  with over show "calendar_wait k (next_cursor_of (calendar_slot c n)) < calendar_wait k c" by simp
qed

lemma first_selected_Some:
  "first_selected f xs = Some y \<Longrightarrow> \<exists>j < length xs. f (xs ! j) = Some y \<and> (\<forall>i < j. f (xs ! i) = None)"
proof (induction xs)
  case (Cons x xs)
  show ?case
  proof (cases "f x")
    case None
    with Cons obtain j where j: "j < length xs" "f (xs ! j) = Some y" "\<forall>i < j. f (xs ! i) = None" by auto
    then have "f ((x # xs) ! Suc j) = Some y" "\<forall>i < Suc j. f ((x # xs) ! i) = None"
      using None by (auto simp: less_Suc_eq_0_disj)
    with j(1) show ?thesis by (intro exI [of _ "Suc j"]) simp
  next
    case (Some z)
    with Cons.prems show ?thesis by (intro exI [of _ 0]) simp
  qed
qed simp

lemma selection_passes:
  assumes sel: "selectNextWorkerUndertaking db now = Some s" and r: "r \<in> set (qd_rows db)" "selectable k now r"
    and other: "sn_class s \<noteq> k"
  shows "\<exists>n < length WORKER_SERVICE_CALENDAR. sn_index s = calendar_slot (getWorkerSchedulerCursor db) n \<and>
    passes_over k (getWorkerSchedulerCursor db) n"
proof -
  let ?c = "getWorkerSchedulerCursor db"
  obtain j where j: "j < length WORKER_SERVICE_CALENDAR" "select_at db now ?c j = Some s"
    "\<forall>i < j. select_at db now ?c i = None"
    using sel first_selected_Some [of "select_at db now ?c" "[0..<length WORKER_SERVICE_CALENDAR]" s]
    by (auto simp: selectNextWorkerUndertaking_def split: if_splits)
  have s: "sn_index s = calendar_slot ?c j" "sn_class s = class_at (calendar_slot ?c j)"
    using j(2) by (auto simp: select_at_def Let_def split: list.splits)
  have "class_at (calendar_slot ?c i) \<noteq> k" if "i < j" for i
  proof
    assume "class_at (calendar_slot ?c i) = k"
    with r have "r \<in> set (by_queue (filter (selectable (class_at (calendar_slot ?c i)) now) (qd_rows db)))"
      by (simp add: by_queue_def)
    then have "select_at db now ?c i \<noteq> None"
      by (cases "by_queue (filter (selectable (class_at (calendar_slot ?c i)) now) (qd_rows db))")
        (auto simp: select_at_def Let_def)
    with j(3) that show False by simp
  qed
  with s other have "passes_over k ?c j" by (auto simp: passes_over_def list_all_iff less_Suc_eq)
  with j(1) s(1) show ?thesis by blast
qed

text \<open>
  Successive turns of the service: each selects, and starts what it selected, which moves the cursor
  past the selected place.
\<close>

fun turns :: "(queue_db \<times> int \<times> selection) list \<Rightarrow> bool" where
  "turns [] = True"
| "turns ((db, now, s) # ts) = (selectNextWorkerUndertaking db now = Some s \<and> turns ts \<and>
     (case ts of [] \<Rightarrow> True | t # _ \<Rightarrow> getWorkerSchedulerCursor (fst t) = next_cursor_of (sn_index s)))"

definition offers :: "worker_origin \<Rightarrow> queue_db \<times> int \<times> selection \<Rightarrow> bool" where
  "offers k t \<longleftrightarrow> list_ex (selectable k (fst (snd t))) (qd_rows (fst t))"

lemma turns_wait:
  "turns ts \<Longrightarrow> list_all (offers k) ts \<Longrightarrow> list_all (\<lambda>t. sn_class (snd (snd t)) \<noteq> k) ts \<Longrightarrow>
     (case ts of [] \<Rightarrow> True | t # _ \<Rightarrow> length ts \<le> calendar_wait k (getWorkerSchedulerCursor (fst t)))"
proof (induction ts)
  case (Cons t ts)
  obtain db now s where t: "t = (db, now, s)" by (cases t)
  let ?c = "getWorkerSchedulerCursor db"
  from Cons.prems t obtain r where "r \<in> set (qd_rows db)" "selectable k now r"
    by (auto simp: offers_def list_ex_iff)
  with Cons.prems t selection_passes [of db now s r k] obtain n where
    n: "n < length WORKER_SERVICE_CALENDAR" "sn_index s = calendar_slot ?c n" "passes_over k ?c n" by auto
  have less: "calendar_wait k (next_cursor_of (sn_index s)) < calendar_wait k ?c"
    using calendar_facts(2) [OF calendar_cursor n(1,3)] n(2) by simp
  show ?case
  proof (cases ts)
    case Nil
    with less t show ?thesis by simp
  next
    case (Cons t2 ts2)
    with Cons.IH Cons.prems t less show ?thesis by simp
  qed
qed simp


text \<open>Two requests of the owner come before a question of curiosity.\<close>

definition sample_row :: "string \<Rightarrow> worker_origin \<Rightarrow> worker_row" where
  "sample_row u k = (queued_row u u sample_request 1000)\<lparr>wu_origin := k\<rparr>"

definition sample_turn :: "int \<Rightarrow> string \<Rightarrow> queue_db \<times> int \<times> selection" where
  "sample_turn c u = (let db = empty_queue\<lparr>qd_rows := [sample_row u Owner_request, sample_row ''x'' Ashley_curiosity], qd_cursor := c\<rparr>
     in (db, 2000, the (selectNextWorkerUndertaking db 2000)))"

lemma sample_turns:
  "turns [sample_turn 0 ''a'', sample_turn 1 ''b'']"
  "list_all (offers Ashley_curiosity) [sample_turn 0 ''a'', sample_turn 1 ''b'']"
  "list_all (\<lambda>t. sn_class (snd (snd t)) \<noteq> Ashley_curiosity) [sample_turn 0 ''a'', sample_turn 1 ''b'']"
  "map_option sn_class (selectNextWorkerUndertaking (fst (sample_turn 3 ''c'')) 2000) = Some Ashley_curiosity"
  by code_simp+


end
