(* ===== verification/Spec2Isabelle.thy ===== *)
theory Spec2Isabelle
  imports Canonical_Paths Protected_Roots Policy_Schema Sandbox_Authorize Project_Roots
    Engineering_Actions
    Authority_Currentness Authority_Soundness Effect_Occupancy Effect_Dispatch Frontier_Lifecycle
    Wake_Recovery Budget_Projection Budget_Recovery Canonical_Payload Work_Startup Worker_Liveness
begin

text \<open>
  A verification development of the Ashley repository: a personal agent that runs as a service
  (\<^verbatim>\<open>apps/agent-service\<close>) beside a Discord process and a sandbox for work on the host. What is verified
  are the parts that decide and remember: which operations a sandbox may run, what is true of effects
  that have left the process, and who may take up which work. Paths such as \<^verbatim>\<open>retry/ledger.ts\<close> are
  below \<^verbatim>\<open>apps/agent-service/src/core/cognitive-v021/\<close> unless they start with \<^verbatim>\<open>apps/\<close>.

  \<^bold>\<open>The parts and how they interact.\<close> The ledgers share one SQLite file, the sidecar, and are written in
  immediate transactions. An event of the inbox is a unit of durable work; work runs in a wake, a wake
  belongs to a cycle, and a cycle that has to wait leaves a frontier. A private Thought is charged to the
  private budget before it runs. What a Thought wants to do outside is an effect: its dispatch asks the
  authority coordinator twice and is entered in the effect ledger before it happens, and the settlement
  of the Thought may claim of it only what the ledger says. Long investigations are undertakings in the
  worker queue, each carried out by one detached operation. The sandbox policy is a separate package: it
  validates the signed policy document and decides every operation on the host.

  \<^bold>\<open>Theories and sources.\<close>

  Shared: \<open>Prelude\<close> (JavaScript strings and values, exceptions as sums), \<open>Js_Regex\<close>, \<open>Json_Text\<close>
  (\<^verbatim>\<open>model-fabric/hash.ts\<close>), \<open>Sql_Tables\<close> (tables as lists of rows), \<open>Transition_Systems\<close> (the
  locales the stateful components are interpreted in).

  Sandbox policy, \<^verbatim>\<open>apps/sandbox-policy/src\<close>: \<open>Sandbox_Types\<close> (\<^verbatim>\<open>types.ts\<close>), \<open>Canonical_Paths\<close>,
  \<open>Protected_Roots\<close>, \<open>Sandbox_Classify\<close> (\<^verbatim>\<open>classify.ts\<close>), \<open>Policy_Schema\<close>, \<open>Sandbox_Authorize\<close>
  (\<^verbatim>\<open>authorize.ts\<close>), \<open>Project_Roots\<close>, \<open>Engineering_Actions\<close> (\<^verbatim>\<open>engineering.ts\<close>), \<open>Canonical_Payload\<close>.
  The lemmas show that containment is a sound order on paths, that an accepted document is well formed
  and its roots do not overlap, and that no permission contradicts an absolute denial.

  Authority, \<^verbatim>\<open>authority/\<close>: \<open>Authority_Store\<close> (version vector, barrier, journal), \<open>Authority_Check\<close> (the
  verdicts), \<open>Authority_Currentness\<close> and \<open>Authority_Soundness\<close>. A captured binding is stale after any
  relevant change, and a positive verdict implies what it certifies.

  Effects, \<^verbatim>\<open>effect/\<close>: \<open>Effect_Ledger\<close> (\<^verbatim>\<open>in-flight.ts\<close>), \<open>Effect_Occupancy\<close> (its invariant),
  \<open>Effect_Dispatch\<close> (\<^verbatim>\<open>proposal.ts\<close>, cut at the call of \<open>execute\<close>): no effect is executed twice, and none
  without authority.

  Wakes, frontiers and budget: \<open>Wake_Ledger\<close>, \<open>Wake_Lifecycle\<close>, \<open>Wake_Recovery\<close> (\<^verbatim>\<open>wake/\<close>);
  \<open>Frontier_Ledger\<close>, \<open>Frontier_Lifecycle\<close> (\<^verbatim>\<open>frontier/\<close>); \<open>Budget_Policies\<close>, \<open>Budget_Ledger\<close>,
  \<open>Budget_Attempts\<close>, \<open>Budget_Recovery\<close> (\<^verbatim>\<open>private-budget/\<close>) with the single changes of
  \<open>Budget_Window\<close>, the operations as sequences of them in \<open>Budget_Steps\<close>, and the properties in
  \<open>Budget_Lifecycle\<close> and \<open>Budget_Projection\<close>. Leases exclude, recovery does what its specification of
  one row says, and no window of the budget is ever overdrawn.

  Durable work, \<^verbatim>\<open>retry/\<close> and \<^verbatim>\<open>cycle/inbox.ts\<close>: \<open>Retry_Policy\<close>, \<open>Work_Ledger\<close> (claim, recovery),
  \<open>Work_Settlement\<close>, \<open>Work_Reconcile\<close>, \<open>Owner_Principal\<close>, \<open>Work_Admission\<close>; the single changes in
  \<open>Work_Changes\<close>, the operations as sequences of them in \<open>Work_Steps\<close>, the invariant in
  \<open>Work_Lifecycle\<close>, and what follows in \<open>Work_Safety\<close>, \<open>Work_Settled\<close>, \<open>Work_Blocked\<close>, \<open>Work_Startup\<close>:
  claims exclude each other, nothing that may have left the process is run again, what ended stays ended.

  Detached work, \<^verbatim>\<open>operation/\<close>: \<open>Detached_Ops\<close>, \<open>Detached_Truth\<close> (\<^verbatim>\<open>detached.ts\<close>); \<open>Worker_Queue\<close>
  (\<^verbatim>\<open>worker-queue.ts\<close>); \<open>Worker_Dispatch\<close> (\<^verbatim>\<open>dispatch.ts\<close>, \<^verbatim>\<open>completion.ts\<close>,
  \<^verbatim>\<open>project-inspection-route.ts\<close>), the service pass cut at every \<open>await\<close>. \<open>Worker_Changes\<close> has the
  invariant and the single changes, \<open>Worker_Steps\<close>, \<open>Worker_Operations\<close>, \<open>Worker_Binding\<close> and
  \<open>Worker_Upkeep\<close> show that every operation is a sequence of them, \<open>Worker_Pass\<close> and \<open>Worker_Service\<close>
  do so for the stretches of the pass, \<open>Worker_Recovery\<close> for the recovery at startup. \<open>Worker_Safety\<close>
  closes the system with everything else that touches the queue and with crashes: a worker runs at most
  once for an undertaking, one undertaking holds the slot, a success is true. \<open>Worker_Liveness\<close>: no class
  of undertakings starves.

  \<^bold>\<open>How the code is modelled.\<close> A table is the list of its rows, a row a record, an enumeration a datatype;
  unique indexes and CHECKs are conditions a write must meet, or it throws. A thrown error is \<open>Inl\<close>, and a
  transaction that throws leaves the database as it was. A function that waits is cut at its waits, and a
  step relation interleaves its parts with the other operations, in any order and with any arguments.
  Arguments of the model stand for what the repository does not define: SHA-256 (nothing is assumed of
  it), random UUIDs, the clock, the collation of \<open>localeCompare\<close>, \<open>Date.parse\<close>, \<open>Number\<close> of a value that
  is not a number, the environment, and what probes, workers and external calls answer.

  \<^bold>\<open>Bounds.\<close> Strings have code units below 256. Numbers are integers of any size, printed in full (as
  JavaScript does below \<open>1e21\<close>); times are integers of milliseconds, and the tests for safe integers are
  written out. Recursion is structural, or ends by a measure: the walk along the lineage of repairs
  removes the events it has seen, so it ends on any table (\<open>repair_lineage_terminates\<close>); the search for
  the owner of a lineage follows five links because the code does. Nothing runs on fuel.

  \<^bold>\<open>Not modelled.\<close> Network and process I/O: the model providers (\<^verbatim>\<open>apps/agent-service/src/mistral-client.ts\<close>
  and the routing of models), the Discord process, the observer exporter, the desktop shell, the execution
  of sandbox operations, the HTTP service and its wiring (\<^verbatim>\<open>server.ts\<close>). Opening and migrating the
  databases. The Thought run (\<^verbatim>\<open>thought/run.ts\<close>) with its prompts, projections and parsers, and the
  publication of a settlement, which call the modelled ledgers with what a language model has said. The
  loop of the inbox consumer and the cycle fence. The delivery of speech to Discord, of which recovery reads the
  outbox. Memory and forgetting, relationship and consent, initiative and quiet hours, growth, and the
  qualification harness, which have stores of their own. Of the modelled modules: read-only listings of the
  effect ledger, the payload of a completion event, the acknowledgement of an enqueued undertaking, the
  terminal failure records (kept as the list of calls), and the graduation and quiet tables an owner
  message touches.
\<close>

end
